(* ===== verification/Prelude.thy ===== *)
theory Prelude
  imports Complex_Main "HOL-Library.Word" "HOL-Library.Char_ord"
begin

text \<open>
  Shared vocabulary of the development: the Go types the code uses (strings as byte lists,
  instants of \<open>time.Time\<close>, 64-bit integers, pointers to values as options), the generic list
  operations its loops perform (first index that satisfies a test, update of one element) with
  their lemmas, and the interface \<open>aggregate\<close> that every domain aggregate of the program
  meets: a command either fails and leaves the aggregate's log alone, or succeeds and appends
  to it.
\<close>

unbundle bit_operations_syntax

section \<open>Go types\<close>

text \<open>
  A Go string is a sequence of bytes, a pointer \<open>*T\<close> that is only read through is an option.
  A \<open>time.Time\<close> is an instant, counted in nanoseconds from 1 January of year 1, UTC, so
  that the zero value of the type is 0 (\<open>IsZero\<close>) and \<open>Before\<close> is the order.
\<close>

type_synonym gostring = string
type_synonym gotime = int
type_synonym int64 = "64 word"
type_synonym uint8 = "8 word"
type_synonym uint16 = "16 word"
type_synonym uint32 = "32 word"

abbreviation (input) IsZero :: "gotime \<Rightarrow> bool" where
  "IsZero t \<equiv> t = 0"

abbreviation (input) Before :: "gotime \<Rightarrow> gotime \<Rightarrow> bool" where
  "Before t u \<equiv> t < u"

text \<open>\<open>%d\<close> of a number that is not negative.\<close>

fun nat_text :: "nat \<Rightarrow> gostring" where
  "nat_text n = (if n < 10 then [char_of (48 + n)] else nat_text (n div 10) @ [char_of (48 + n mod 10)])"

declare nat_text.simps [simp del]

section \<open>Searching and updating lists\<close>

text \<open>
  The pattern \<open>for i := range xs { if !p(xs[i]) { continue }; ...; return }\<close> acts on the first
  index that satisfies \<open>p\<close>.
\<close>

fun find_index :: "('a \<Rightarrow> bool) \<Rightarrow> 'a list \<Rightarrow> nat option" where
  "find_index p [] = None"
| "find_index p (x # xs) = (if p x then Some 0 else map_option Suc (find_index p xs))"

lemma find_index_None [simp]: "find_index p xs = None \<longleftrightarrow> (\<forall>x \<in> set xs. \<not> p x)"
  by (induction xs) auto

lemma find_index_Some:
  "find_index p xs = Some i \<longleftrightarrow> i < length xs \<and> p (xs ! i) \<and> (\<forall>j < i. \<not> p (xs ! j))"
proof (induction xs arbitrary: i)
  case Nil
  then show ?case by simp
next
  case (Cons x xs)
  show ?case
  proof (cases i)
    case 0
    then show ?thesis by auto
  next
    case (Suc k)
    then show ?thesis using Cons [of k] by (auto simp: less_Suc_eq_0_disj)
  qed
qed

lemma find_index_SomeD:
  assumes "find_index p xs = Some i"
  shows "i < length xs" and "p (xs ! i)" and "xs ! i \<in> set xs"
  using assms by (auto simp: find_index_Some)

definition modify_nth :: "nat \<Rightarrow> ('a \<Rightarrow> 'a) \<Rightarrow> 'a list \<Rightarrow> 'a list" where
  "modify_nth i f xs = xs[i := f (xs ! i)]"

lemma length_modify_nth [simp]: "length (modify_nth i f xs) = length xs"
  by (simp add: modify_nth_def)

lemma nth_modify_nth [simp]:
  "j < length xs \<Longrightarrow> modify_nth i f xs ! j = (if i = j then f (xs ! j) else xs ! j)"
  by (simp add: modify_nth_def nth_list_update)

lemma map_modify_nth:
  "(\<And>x. g (f x) = g x) \<Longrightarrow> map g (modify_nth i f xs) = map g xs"
  by (simp add: modify_nth_def map_update) (metis list_update_id map_update)

text \<open>A slice \<open>xs[lo:hi]\<close> of bytes.\<close>

definition slice :: "nat \<Rightarrow> nat \<Rightarrow> 'a list \<Rightarrow> 'a list" where
  "slice lo hi xs = take (hi - lo) (drop lo xs)"

lemma length_slice [simp]: "hi \<le> length xs \<Longrightarrow> length (slice lo hi xs) = hi - lo"
  by (simp add: slice_def)

section \<open>The aggregate interface\<close>

text \<open>
  An aggregate executes commands one at a time. \<open>exec c a\<close> returns the aggregate as the method
  leaves it and the error it returns, if any. The contract: a failing command records no event,
  a successful one only appends to the log; both keep the aggregate's invariant.
\<close>

locale aggregate =
  fixes exec :: "'cmd \<Rightarrow> 'agg \<Rightarrow> 'agg \<times> 'err option"
    and log_of :: "'agg \<Rightarrow> 'ev list"
    and invar :: "'agg \<Rightarrow> bool"
  assumes exec_fail_log: "exec c a = (a', Some e) \<Longrightarrow> log_of a' = log_of a"
    and exec_ok_log: "exec c a = (a', None) \<Longrightarrow> \<exists>new. log_of a' = log_of a @ new"
    and exec_invar: "invar a \<Longrightarrow> invar (fst (exec c a))"
begin

text \<open>Running commands in order; a failed command does not stop the ones after it.\<close>

primrec run :: "'cmd list \<Rightarrow> 'agg \<Rightarrow> 'agg" where
  "run [] a = a"
| "run (c # cs) a = run cs (fst (exec c a))"

lemma run_append: "run (cs @ ds) a = run ds (run cs a)"
  by (induction cs arbitrary: a) auto

lemma run_invar: "invar a \<Longrightarrow> invar (run cs a)"
  by (induction cs arbitrary: a) (auto intro: exec_invar)

lemma exec_log: "\<exists>new. log_of (fst (exec c a)) = log_of a @ new"
  by (cases "exec c a"; cases "snd (exec c a)") (auto dest: exec_fail_log exec_ok_log)

lemma run_log: "\<exists>new. log_of (run cs a) = log_of a @ new"
proof (induction cs arbitrary: a)
  case Nil
  show ?case by simp
next
  case (Cons c cs)
  obtain n1 where "log_of (fst (exec c a)) = log_of a @ n1" using exec_log by blast
  moreover obtain n2 where "log_of (run cs (fst (exec c a))) = log_of (fst (exec c a)) @ n2"
    using Cons by blast
  ultimately show ?case by simp
qed

text \<open>A property no command leaves is kept by every run.\<close>

lemma run_stable:
  assumes "\<And>c b. P b \<Longrightarrow> P (fst (exec c b))" and "P a"
  shows "P (run cs a)"
  using assms(2) by (induction cs arbitrary: a) (auto intro: assms(1))

end

text \<open>
  Paths of a labelled transition relation, and aggregates whose status moves along one: every
  command leaves log and status alone or appends one event, the label of the edge it takes.
\<close>

inductive edge_path :: "('st \<Rightarrow> 'ev \<Rightarrow> 'st \<Rightarrow> bool) \<Rightarrow> 'st \<Rightarrow> 'ev list \<Rightarrow> 'st \<Rightarrow> bool"
  for edge :: "'st \<Rightarrow> 'ev \<Rightarrow> 'st \<Rightarrow> bool" where
  path_nil: "edge_path edge st [] st"
| path_snoc: "edge_path edge st es st' \<Longrightarrow> edge st' e st'' \<Longrightarrow> edge_path edge st (es @ [e]) st''"

definition moves_along ::
  "('st \<Rightarrow> 'ev \<Rightarrow> 'st \<Rightarrow> bool) \<Rightarrow> 'ev list \<Rightarrow> 'st \<Rightarrow> 'ev list \<Rightarrow> 'st \<Rightarrow> bool" where
  "moves_along edge l st l' st' \<longleftrightarrow>
     l' = l \<and> st' = st \<or> (\<exists>e. l' = l @ [e] \<and> edge st e st')"

locale lifecycle_aggregate = aggregate exec log_of invar
  for exec :: "'cmd \<Rightarrow> 'agg \<Rightarrow> 'agg \<times> 'err option"
    and log_of :: "'agg \<Rightarrow> 'ev list"
    and invar :: "'agg \<Rightarrow> bool" +
  fixes status :: "'agg \<Rightarrow> 'st"
    and edge :: "'st \<Rightarrow> 'ev \<Rightarrow> 'st \<Rightarrow> bool"
  assumes exec_moves: "invar a \<Longrightarrow>
    moves_along edge (log_of a) (status a) (log_of (fst (exec c a))) (status (fst (exec c a)))"
begin

text \<open>The log of a run is a path of the relation that ends in the current status.\<close>

lemma run_path:
  assumes "invar a" and "log_of a = pre @ es" and "edge_path edge st es (status a)"
  shows "\<exists>es'. log_of (run cs a) = pre @ es' \<and> edge_path edge st es' (status (run cs a))"
  using assms
proof (induction cs arbitrary: a es)
  case Nil
  then show ?case by auto
next
  case (Cons c cs)
  let ?a = "fst (exec c a)"
  have inv: "invar ?a" by (rule exec_invar [OF Cons.prems(1)])
  have "\<exists>es'. log_of ?a = pre @ es' \<and> edge_path edge st es' (status ?a)"
    using exec_moves [OF Cons.prems(1), of c] Cons.prems(2,3)
    by (auto simp: moves_along_def intro: path_snoc)
  then show ?case using Cons.IH [OF inv] by auto
qed

text \<open>A status with no edge to another one is never left.\<close>

lemma run_final:
  assumes "\<And>e st'. edge st e st' \<Longrightarrow> st' = st" and "invar a" and "status a = st"
  shows "status (run cs a) = st"
proof -
  have "invar (run cs a) \<and> status (run cs a) = st"
    by (rule run_stable [where P = "\<lambda>b. invar b \<and> status b = st"])
       (use exec_moves exec_invar assms in \<open>fastforce simp: moves_along_def\<close>)+
  then show ?thesis ..
qed

end

end
