(* ===== verification/GoFloat.thy ===== *)
theory GoFloat
  imports Prelude
begin

text \<open>
  Go's \<open>float64\<close>: IEEE 754 binary64 with round-to-nearest-even, as the arithmetic of the
  language performs it, and the functions of package \<open>math\<close> and the conversions to and from
  \<open>int64\<close> the program uses. A finite value is its exact rational; an operation computes the
  exact rational result and rounds it once (\<open>fl\<close>). The two zeros are one value: no modelled
  code divides by a zero or reads a sign bit. The lemmas bound the rounding error
  (\<open>fl_error\<close>) and show that integers up to \<open>2 ^ 53\<close> are exact.
\<close>

section \<open>Rounding a rational to binary64\<close>

datatype float64 = NaN | Inf bool | Fin rat

text \<open>Floor of the base-2 logarithm of a positive natural, and the ceiling.\<close>

fun flog2 :: "nat \<Rightarrow> nat" where
  "flog2 n = (if n \<le> 1 then 0 else Suc (flog2 (n div 2)))"

fun clog2 :: "nat \<Rightarrow> nat" where
  "clog2 n = (if n \<le> 1 then 0 else Suc (clog2 ((n + 1) div 2)))"

declare flog2.simps [simp del] clog2.simps [simp del]

text \<open>The binary exponent of a positive rational: \<open>2 powi (ilog2 x) \<le> x < 2 powi (ilog2 x + 1)\<close>.\<close>

definition ilog2 :: "rat \<Rightarrow> int" where
  "ilog2 x = (if 1 \<le> x then int (flog2 (nat \<lfloor>x\<rfloor>)) else - int (clog2 (nat \<lceil>1 / x\<rceil>)))"

text \<open>Rounding to the nearest integer, ties to even.\<close>

definition rhe :: "rat \<Rightarrow> int" where
  "rhe q = (let f = \<lfloor>q\<rfloor>; d = q - of_int f
            in if d < 1 / 2 then f else if 1 / 2 < d then f + 1
               else if even f then f else f + 1)"

text \<open>The exponent of the last place of a binary64 near \<open>x\<close>: 53 significant bits, at least \<open>-1074\<close>.\<close>

definition ulp_exp :: "rat \<Rightarrow> int" where
  "ulp_exp x = max (ilog2 \<bar>x\<bar> - 52) (- 1074)"

definition fl_val :: "rat \<Rightarrow> rat" where
  "fl_val x = (if x = 0 then 0
     else of_int (rhe (x / 2 powi ulp_exp x)) * 2 powi ulp_exp x)"

definition fl :: "rat \<Rightarrow> float64" where
  "fl x = (let v = fl_val x in if 2 ^ 1024 \<le> \<bar>v\<bar> then Inf (v < 0) else Fin v)"

section \<open>Arithmetic and comparison\<close>

fun fneg :: "float64 \<Rightarrow> float64" where
  "fneg NaN = NaN"
| "fneg (Inf s) = Inf (\<not> s)"
| "fneg (Fin x) = Fin (- x)"

fun fadd :: "float64 \<Rightarrow> float64 \<Rightarrow> float64" where
  "fadd (Fin x) (Fin y) = fl (x + y)"
| "fadd NaN _ = NaN"
| "fadd _ NaN = NaN"
| "fadd (Inf s) (Inf t) = (if s = t then Inf s else NaN)"
| "fadd (Inf s) (Fin _) = Inf s"
| "fadd (Fin _) (Inf t) = Inf t"

fun fmul :: "float64 \<Rightarrow> float64 \<Rightarrow> float64" where
  "fmul (Fin x) (Fin y) = fl (x * y)"
| "fmul NaN _ = NaN"
| "fmul _ NaN = NaN"
| "fmul (Inf s) (Inf t) = Inf (s \<noteq> t)"
| "fmul (Inf s) (Fin y) = (if y = 0 then NaN else Inf (s \<noteq> (y < 0)))"
| "fmul (Fin x) (Inf t) = (if x = 0 then NaN else Inf ((x < 0) \<noteq> t))"

text \<open>
  Division: a finite value over zero would be an infinity whose sign is that of the zero; with
  one zero it is taken as positive.
\<close>

fun fdiv :: "float64 \<Rightarrow> float64 \<Rightarrow> float64" where
  "fdiv (Fin x) (Fin y) =
     (if y = 0 then (if x = 0 then NaN else Inf (x < 0)) else fl (x / y))"
| "fdiv NaN _ = NaN"
| "fdiv _ NaN = NaN"
| "fdiv (Inf s) (Inf t) = NaN"
| "fdiv (Inf s) (Fin y) = Inf (s \<noteq> (y < 0))"
| "fdiv (Fin x) (Inf t) = Fin 0"

text \<open>Go's operators on \<open>float64\<close> are written with the library's own symbols.\<close>

instantiation float64 :: "{zero, plus, minus, uminus, times, ord}"
begin

definition zero_float64 :: float64 where
  "zero_float64 = Fin 0"

definition plus_float64 :: "float64 \<Rightarrow> float64 \<Rightarrow> float64" where
  "plus_float64 = fadd"

definition uminus_float64 :: "float64 \<Rightarrow> float64" where
  "uminus_float64 = fneg"

definition minus_float64 :: "float64 \<Rightarrow> float64 \<Rightarrow> float64" where
  "minus_float64 x y = fadd x (fneg y)"

definition times_float64 :: "float64 \<Rightarrow> float64 \<Rightarrow> float64" where
  "times_float64 = fmul"

fun less_float64 :: "float64 \<Rightarrow> float64 \<Rightarrow> bool" where
  "less_float64 (Fin x) (Fin y) \<longleftrightarrow> x < y"
| "less_float64 NaN _ \<longleftrightarrow> False"
| "less_float64 _ NaN \<longleftrightarrow> False"
| "less_float64 (Inf s) (Inf t) \<longleftrightarrow> s \<and> \<not> t"
| "less_float64 (Inf s) (Fin _) \<longleftrightarrow> s"
| "less_float64 (Fin _) (Inf t) \<longleftrightarrow> \<not> t"

fun less_eq_float64 :: "float64 \<Rightarrow> float64 \<Rightarrow> bool" where
  "less_eq_float64 (Fin x) (Fin y) \<longleftrightarrow> x \<le> y"
| "less_eq_float64 NaN _ \<longleftrightarrow> False"
| "less_eq_float64 _ NaN \<longleftrightarrow> False"
| "less_eq_float64 (Inf s) (Inf t) \<longleftrightarrow> s \<or> \<not> t"
| "less_eq_float64 (Inf s) (Fin _) \<longleftrightarrow> s"
| "less_eq_float64 (Fin _) (Inf t) \<longleftrightarrow> \<not> t"

instance ..

end

lemmas float_ops =
  zero_float64_def plus_float64_def uminus_float64_def minus_float64_def times_float64_def

text \<open>\<open>==\<close> on floats: \<open>NaN\<close> equals nothing.\<close>

definition feq :: "float64 \<Rightarrow> float64 \<Rightarrow> bool" where
  "feq x y \<longleftrightarrow> x \<noteq> NaN \<and> x = y"

text \<open>An untyped constant of the source, rounded to its \<open>float64\<close>.\<close>

abbreviation F :: "rat \<Rightarrow> float64" where
  "F q \<equiv> fl q"

section \<open>Package math and conversions\<close>

text \<open>\<open>math.Round\<close>: to the nearest integer, halves away from zero.\<close>

definition round_away :: "rat \<Rightarrow> int" where
  "round_away q = (if q < 0 then - \<lfloor>- q + 1 / 2\<rfloor> else \<lfloor>q + 1 / 2\<rfloor>)"

fun math_Round :: "float64 \<Rightarrow> float64" where
  "math_Round (Fin q) = Fin (of_int (round_away q))"
| "math_Round x = x"

fun math_Abs :: "float64 \<Rightarrow> float64" where
  "math_Abs (Fin q) = Fin \<bar>q\<bar>"
| "math_Abs (Inf s) = Inf False"
| "math_Abs NaN = NaN"

text \<open>
  \<open>int64(x)\<close> truncates towards zero. Outside the range of the type the language leaves the
  value to the implementation; this is amd64's.
\<close>

definition trunc_rat :: "rat \<Rightarrow> int" where
  "trunc_rat q = (if q < 0 then - \<lfloor>- q\<rfloor> else \<lfloor>q\<rfloor>)"

definition int64_min :: int64 where
  "int64_min = word_of_int (- (2 ^ 63))"

fun int64_of_float :: "float64 \<Rightarrow> int64" where
  "int64_of_float (Fin q) =
     (let n = trunc_rat q
      in if - (2 ^ 63) \<le> n \<and> n < 2 ^ 63 then word_of_int n else int64_min)"
| "int64_of_float _ = int64_min"

definition float_of_int :: "int \<Rightarrow> float64" where
  "float_of_int n = fl (of_int n)"

definition float_of_int64 :: "int64 \<Rightarrow> float64" where
  "float_of_int64 w = float_of_int (sint w)"

section \<open>Rounding error and exact values\<close>

lemma flog2_bounds: "0 < n \<Longrightarrow> 2 ^ flog2 n \<le> n \<and> n < 2 ^ (flog2 n + 1)"
proof (induction n rule: flog2.induct)
  case (1 n)
  show ?case
  proof (cases "n \<le> 1")
    case True then show ?thesis using "1.prems" by (subst flog2.simps, subst (2) flog2.simps) simp
  next
    case False
    with 1 have "2 ^ flog2 (n div 2) \<le> n div 2 \<and> n div 2 < 2 ^ (flog2 (n div 2) + 1)" by simp
    then have "2 * 2 ^ flog2 (n div 2) \<le> n" "n < 2 * 2 ^ (flog2 (n div 2) + 1)" by linarith+
    with False show ?thesis by (simp add: flog2.simps [of n])
  qed
qed

lemma clog2_bounds: "2 \<le> n \<Longrightarrow> n \<le> 2 ^ clog2 n \<and> (\<exists>k. clog2 n = Suc k \<and> 2 ^ k < n)"
proof (induction n rule: clog2.induct)
  case (1 n)
  show ?case
  proof (cases "n = 2")
    case True then show ?thesis by (simp add: clog2.simps)
  next
    case False
    let ?m = "(n + 1) div 2"
    from False "1.prems" have "2 \<le> ?m" by simp
    with False 1 obtain k where k: "?m \<le> 2 ^ Suc k" "clog2 ?m = Suc k" "2 ^ k < ?m"
      by (metis One_nat_def Suc_1 not_less_eq_eq)
    then have "2 * 2 ^ k + 2 \<le> 2 * ?m" "2 * ?m \<le> n + 1" by simp_all
    then have "2 ^ Suc k < n" by simp
    moreover from k(1) have "n \<le> 2 * 2 ^ Suc k" by simp
    ultimately show ?thesis using False "1.prems" k(2) by (simp add: clog2.simps [of n])
  qed
qed

lemma ilog2_bounds:
  assumes "0 < x"
  shows "2 powi ilog2 x \<le> x" and "x < 2 powi (ilog2 x + 1)"
proof -
  have "2 powi ilog2 x \<le> x \<and> x < 2 powi (ilog2 x + 1)"
  proof (cases "1 \<le> x")
    case True
    define n where "n = nat \<lfloor>x\<rfloor>"
    have fl: "of_int \<lfloor>x\<rfloor> \<le> x" "x < of_int \<lfloor>x\<rfloor> + 1" by linarith+
    from True have "1 \<le> \<lfloor>x\<rfloor>" by (simp add: le_floor_iff)
    then have n: "0 < n" "(of_nat n :: rat) = of_int \<lfloor>x\<rfloor>" by (simp_all add: n_def)
    from flog2_bounds [OF n(1)] have "2 ^ flog2 n \<le> n" "n + 1 \<le> 2 ^ (flog2 n + 1)" by simp_all
    then have "of_nat (2 ^ flog2 n) \<le> (of_nat n :: rat)" "of_nat (n + 1) \<le> (of_nat (2 ^ (flog2 n + 1)) :: rat)"
      by (simp_all only: of_nat_le_iff)
    with n(2) have "(2::rat) ^ flog2 n \<le> of_int \<lfloor>x\<rfloor>" "of_int \<lfloor>x\<rfloor> + 1 \<le> (2::rat) ^ (flog2 n + 1)"
      by (simp_all add: algebra_simps)
    with fl have "(2::rat) ^ flog2 n \<le> x" "x < (2::rat) ^ (flog2 n + 1)" by linarith+
    moreover have "ilog2 x = int (flog2 n)" using True by (simp add: ilog2_def n_def)
    then have "2 powi ilog2 x = (2::rat) ^ flog2 n" "2 powi (ilog2 x + 1) = (2::rat) ^ (flog2 n + 1)"
      by (simp_all add: power_int_add)
    ultimately show ?thesis by simp
  next
    case False
    define y where "y = 1 / x"
    define n where "n = nat \<lceil>y\<rceil>"
    from False assms have y: "1 < y" by (simp add: y_def)
    have up: "y \<le> of_int \<lceil>y\<rceil>" "of_int \<lceil>y\<rceil> < y + 1" by linarith+
    with y have "1 < \<lceil>y\<rceil>" by (simp add: less_ceiling_iff)
    then have "2 \<le> nat \<lceil>y\<rceil>" by linarith
    with y have n: "2 \<le> n" "(of_nat n :: rat) = of_int \<lceil>y\<rceil>" by (simp_all add: n_def)
    from clog2_bounds [OF n(1)] obtain k where k: "n \<le> 2 ^ Suc k" "clog2 n = Suc k" "2 ^ k + 1 \<le> n" by fastforce
    then have "of_nat n \<le> (of_nat (2 ^ Suc k) :: rat)" "of_nat (2 ^ k + 1) \<le> (of_nat n :: rat)"
      by (simp_all only: of_nat_le_iff)
    with n(2) have "of_int \<lceil>y\<rceil> \<le> (2::rat) ^ Suc k" "2 ^ k + 1 \<le> (of_int \<lceil>y\<rceil> :: rat)"
      by simp_all
    with up have "y \<le> 2 ^ Suc k" "2 ^ k < y" by linarith+
    with assms have "1 / 2 ^ Suc k \<le> x" "x < 1 / 2 ^ k"
      by (simp_all add: y_def field_simps)
    moreover have i: "ilog2 x = - int (Suc k)" "ilog2 x + 1 = - int k"
      using False k(2) by (simp_all add: ilog2_def n_def y_def)
    have "2 powi ilog2 x = (1::rat) / 2 ^ Suc k"
      unfolding i(1) by (simp only: power_int_minus power_int_of_nat inverse_eq_divide)
    moreover have "2 powi (ilog2 x + 1) = (1::rat) / 2 ^ k"
      unfolding i(2) by (simp only: power_int_minus power_int_of_nat inverse_eq_divide)
    ultimately show ?thesis by simp
  qed
  then show "2 powi ilog2 x \<le> x" and "x < 2 powi (ilog2 x + 1)" by simp_all
qed

lemma rhe_error: "\<bar>of_int (rhe q) - q\<bar> \<le> 1 / 2"
proof -
  have "of_int \<lfloor>q\<rfloor> \<le> q" "q < of_int \<lfloor>q\<rfloor> + 1" by linarith+
  then show ?thesis unfolding rhe_def Let_def by (auto simp: abs_le_iff)
qed

lemma rhe_of_int [simp]: "rhe (of_int n) = n" by (simp add: rhe_def)

lemma rhe_mono: "p \<le> q \<Longrightarrow> rhe p \<le> rhe q"
proof -
  assume pq: "p \<le> q"
  have fp: "of_int \<lfloor>p\<rfloor> \<le> p" "p < of_int \<lfloor>p\<rfloor> + 1" "of_int \<lfloor>q\<rfloor> \<le> q" "q < of_int \<lfloor>q\<rfloor> + 1" by linarith+
  show ?thesis
  proof (cases "\<lfloor>p\<rfloor> = \<lfloor>q\<rfloor>")
    case True with pq show ?thesis by (auto simp: rhe_def Let_def)
  next
    case False
    with pq have "\<lfloor>p\<rfloor> + 1 \<le> \<lfloor>q\<rfloor>" by (meson floor_mono int_one_le_iff_zero_less less_le zless_imp_add1_zle)
    then show ?thesis by (auto simp: rhe_def Let_def)
  qed
qed

lemma rhe_nonneg: "0 \<le> q \<Longrightarrow> 0 \<le> rhe q"
  using rhe_mono [of 0 q] by (simp add: rhe_def)

lemma rhe_nonpos: "q \<le> 0 \<Longrightarrow> rhe q \<le> 0"
  using rhe_mono [of q 0] by (simp add: rhe_def)

lemma two_powi_pos [simp]: "0 < (2::rat) powi k" by simp

lemma fl_val_half_ulp: "\<bar>fl_val x - x\<bar> \<le> 2 powi ulp_exp x / 2"
proof (cases "x = 0")
  case True then show ?thesis by (simp add: fl_val_def)
next
  case False
  let ?u = "2 powi ulp_exp x :: rat"
  have "\<bar>of_int (rhe (x / ?u)) - x / ?u\<bar> * ?u \<le> 1 / 2 * ?u"
    by (intro mult_right_mono rhe_error) simp
  moreover have "\<bar>of_int (rhe (x / ?u)) - x / ?u\<bar> * ?u = \<bar>of_int (rhe (x / ?u)) * ?u - x\<bar>"
    by (subst abs_mult_pos) (simp_all add: algebra_simps)
  ultimately show ?thesis using False by (simp add: fl_val_def)
qed

lemma ulp_exp_le:
  assumes "x \<noteq> 0" and "\<bar>x\<bar> < 2 powi k" and "- 1021 \<le> k"
  shows "ulp_exp x \<le> k - 53"
proof -
  have "2 powi ilog2 \<bar>x\<bar> \<le> \<bar>x\<bar>" using ilog2_bounds(1) [of "\<bar>x\<bar>"] assms(1) by simp
  with assms(2) have "(2::rat) powi ilog2 \<bar>x\<bar> < 2 powi k" by simp
  then have "ilog2 \<bar>x\<bar> < k"
    by (metis linorder_not_le one_le_numeral power_int_increasing)
  with assms(3) show ?thesis by (simp add: ulp_exp_def)
qed

lemma fl_val_error:
  assumes "\<bar>x\<bar> < 2 powi k" and "- 1021 \<le> k"
  shows "\<bar>fl_val x - x\<bar> \<le> 2 powi (k - 54)"
proof (cases "x = 0")
  case True then show ?thesis by (simp add: fl_val_def)
next
  case False
  have "(2::rat) powi ulp_exp x \<le> 2 powi (k - 53)"
    using ulp_exp_le [OF False assms] by (simp add: power_int_increasing)
  also have "\<dots> = 2 * 2 powi (k - 54)"
    using power_int_add_1 [of "2::rat" "k - 54"] by (simp add: algebra_simps)
  finally show ?thesis using fl_val_half_ulp [of x] by linarith
qed

lemma fl_val_exact:
  assumes "x = of_int m * 2 powi j" and "\<bar>x\<bar> < 2 powi (j + 53)" and "- 1074 \<le> j"
  shows "fl_val x = x"
proof (cases "x = 0")
  case True then show ?thesis by (simp add: fl_val_def)
next
  case False
  let ?e = "ulp_exp x"
  have le: "?e \<le> j" using ulp_exp_le [OF False assms(2)] assms(3) by simp
  have "x / 2 powi ?e = of_int m * 2 powi (j - ?e)"
    by (simp add: assms(1) power_int_diff)
  also have "\<dots> = of_int (m * 2 ^ nat (j - ?e))"
    using le by (simp add: power_int_def)
  finally have eq: "x / 2 powi ?e = of_int (m * 2 ^ nat (j - ?e))" .
  then have "of_int (rhe (x / 2 powi ?e)) = x / 2 powi ?e" by (simp only: rhe_of_int)
  with False show ?thesis by (simp add: fl_val_def)
qed

lemma fl_val_of_int: "\<bar>n\<bar> < 2 ^ 53 \<Longrightarrow> fl_val (of_int n) = of_int n"
proof (rule fl_val_exact [where m = n and j = 0])
  assume "\<bar>n\<bar> < 2 ^ 53"
  then have "of_int \<bar>n\<bar> < (of_int (2 ^ 53) :: rat)" by (simp only: of_int_less_iff)
  then show "\<bar>of_int n\<bar> < (2::rat) powi (0 + 53)" by simp
qed simp_all

lemma fl_val_nonneg: "0 \<le> x \<Longrightarrow> 0 \<le> fl_val x"
  by (simp add: fl_val_def rhe_nonneg)

lemma fl_val_nonpos: "x \<le> 0 \<Longrightarrow> fl_val x \<le> 0"
  by (simp add: fl_val_def rhe_nonpos mult_nonpos_nonneg divide_nonpos_pos)

lemma fl_eq_Fin:
  assumes "\<bar>x\<bar> < 2 powi k" and "- 1021 \<le> k" and "k \<le> 1000"
  shows "fl x = Fin (fl_val x)"
proof -
  define c where "c = (2::rat) powi 1000"
  have k54: "(2::rat) powi (k - 54) \<le> c" unfolding c_def
    by (rule power_int_increasing; use assms(3) in simp)
  have kc: "(2::rat) powi k \<le> c" unfolding c_def
    by (rule power_int_increasing; use assms(3) in simp)
  have "(1024::nat) = 24 + 1000" by simp
  then have big: "(2::rat) ^ 1024 = 2 ^ 24 * c"
    by (simp only: power_add c_def power_int_numeral)
  have "0 < c" by (simp add: c_def)
  moreover have "\<bar>fl_val x\<bar> < c + c" using fl_val_error [OF assms(1,2)] assms(1) k54 kc by linarith
  ultimately have "\<bar>fl_val x\<bar> < 2 ^ 1024" unfolding big by simp
  then show ?thesis by (simp only: fl_def Let_def not_le if_not_P not_less [symmetric] if_False simp_thms)
qed

lemma fl_near:
  assumes "\<bar>x\<bar> < 2 powi k" and "- 1021 \<le> k" and "k \<le> 1000"
  obtains v where "fl x = Fin v" and "\<bar>v - x\<bar> \<le> 2 powi (k - 54)"
  using fl_eq_Fin [OF assms] fl_val_error [OF assms(1,2)] by blast

lemma fl_of_int: "\<bar>n\<bar> < 2 ^ 53 \<Longrightarrow> fl (of_int n) = Fin (of_int n)"
proof -
  assume n: "\<bar>n\<bar> < 2 ^ 53"
  then have "of_int \<bar>n\<bar> < (of_int (2 ^ 53) :: rat)" by (simp only: of_int_less_iff)
  then have "\<bar>of_int n\<bar> < (2::rat) powi 53" by simp
  from fl_eq_Fin [OF this] fl_val_of_int [OF n] show ?thesis by simp
qed

lemma round_away_near: "\<bar>v - of_int n\<bar> < 1 / 2 \<Longrightarrow> round_away v = n"
proof -
  assume "\<bar>v - of_int n\<bar> < 1 / 2"
  then have "\<lfloor>- v + 1 / 2\<rfloor> = - n" "\<lfloor>v + 1 / 2\<rfloor> = n"
    by (auto intro!: floor_unique simp: abs_if split: if_splits)
  then show ?thesis by (simp add: round_away_def)
qed

text \<open>
  \<open>approx q d x\<close>: the float \<open>x\<close> is finite and within \<open>d\<close> of the exact value \<open>q\<close>. Each operation
  adds half a unit in the last place of a bound on the result.
\<close>

definition approx :: "rat \<Rightarrow> rat \<Rightarrow> float64 \<Rightarrow> bool" where
  "approx q d x \<longleftrightarrow> (\<exists>v. x = Fin v \<and> \<bar>v - q\<bar> \<le> d)"

lemma approx_weaken: "approx q d x \<Longrightarrow> d \<le> e \<Longrightarrow> approx q e x"
  by (fastforce simp: approx_def)

lemma approx_fl:
  assumes "\<bar>q\<bar> < 2 powi k" and "- 1021 \<le> k" and "k \<le> 1000"
  shows "approx q (2 powi (k - 54)) (fl q)"
  using fl_near [OF assms] by (auto simp: approx_def)

lemma approx_fl_of:
  assumes "\<bar>w - q\<bar> \<le> d" and "\<bar>q\<bar> + d < 2 powi k" and "- 1021 \<le> k" and "k \<le> 1000"
  shows "approx q (d + 2 powi (k - 54)) (fl w)"
proof -
  from assms(1,2) have "\<bar>w\<bar> < 2 powi k" by linarith
  then obtain v where "fl w = Fin v" "\<bar>v - w\<bar> \<le> 2 powi (k - 54)"
    using fl_near assms(3,4) by blast
  moreover from this(2) assms(1) have "\<bar>v - q\<bar> \<le> d + 2 powi (k - 54)" by linarith
  ultimately show ?thesis by (simp add: approx_def)
qed

lemma approx_add:
  assumes "approx q d x" and "approx r e y"
    and "\<bar>q + r\<bar> + (d + e) < 2 powi k" and "- 1021 \<le> k" and "k \<le> 1000"
  shows "approx (q + r) (d + e + 2 powi (k - 54)) (x + y)"
proof -
  from assms(1,2) obtain v w where vw: "x = Fin v" "y = Fin w" "\<bar>v - q\<bar> \<le> d" "\<bar>w - r\<bar> \<le> e"
    by (auto simp: approx_def)
  then have "\<bar>(v + w) - (q + r)\<bar> \<le> d + e" by linarith
  from approx_fl_of [OF this assms(3-5)] show ?thesis by (simp add: vw float_ops)
qed

lemma approx_uminus: "approx q d x \<Longrightarrow> approx (- q) d (- x)"
  by (auto simp: approx_def float_ops)

lemma minus_eq_plus_uminus: "x - y = x + (- y :: float64)"
  by (simp add: float_ops)

lemma approx_diff:
  assumes "approx q d x" and "approx r e y"
    and "\<bar>q - r\<bar> + (d + e) < 2 powi k" and "- 1021 \<le> k" and "k \<le> 1000"
  shows "approx (q - r) (d + e + 2 powi (k - 54)) (x - y)"
  using approx_add [OF assms(1) approx_uminus [OF assms(2)], of k] assms(3-5)
  by (simp add: minus_eq_plus_uminus)

lemma approx_mult_Fin:
  assumes "approx q d x" and "\<bar>q * c\<bar> + d * \<bar>c\<bar> < 2 powi k" and "- 1021 \<le> k" and "k \<le> 1000"
  shows "approx (q * c) (d * \<bar>c\<bar> + 2 powi (k - 54)) (x * Fin c)"
proof -
  from assms(1) obtain v where v: "x = Fin v" "\<bar>v - q\<bar> \<le> d" by (auto simp: approx_def)
  then have "\<bar>v - q\<bar> * \<bar>c\<bar> \<le> d * \<bar>c\<bar>" by (simp add: mult_right_mono)
  then have "\<bar>v * c - q * c\<bar> \<le> d * \<bar>c\<bar>" by (simp add: abs_mult [symmetric] left_diff_distrib)
  from approx_fl_of [OF this assms(2-4)] show ?thesis by (simp add: v float_ops)
qed

section \<open>Amounts to two decimals\<close>

text \<open>
  The program keeps amounts of money as floats in rupees. \<open>rupees n\<close> is the float that stands for
  \<open>n\<close> paise, the nearest one to \<open>n / 100\<close>; \<open>round2\<close> is the code's idiom
  \<open>math.Round(v*100) / 100\<close>. The lemmas say that a float within \<open>1 / 512\<close> rupee of \<open>n / 100\<close> is
  read as \<open>n\<close> paise, for every \<open>n\<close> up to \<open>2 ^ 50\<close>.
\<close>

definition rupees :: "int \<Rightarrow> float64" where
  "rupees n = fl (of_int n / 100)"

definition round2 :: "float64 \<Rightarrow> float64" where
  "round2 v = fdiv (math_Round (v * F 100)) (F 100)"

lemma F_100 [simp]: "F 100 = Fin 100"
  using fl_of_int [of 100] by simp

lemma F_0 [simp]: "F 0 = Fin 0"
  using fl_of_int [of 0] by simp

lemma abs_of_int_le: "\<bar>n\<bar> \<le> m \<Longrightarrow> \<bar>of_int n\<bar> \<le> (of_int m :: rat)"
  by (simp add: of_int_abs [symmetric] del: of_int_abs)

lemma round_cents:
  assumes "approx (of_int n / 100) (1 / 512) x" and "\<bar>n\<bar> \<le> 2 ^ 50"
  shows "math_Round (x * Fin 100) = Fin (of_int n)"
proof -
  have n: "\<bar>of_int n\<bar> \<le> (2 ^ 50 :: rat)" using abs_of_int_le [OF assms(2)] by simp
  have "approx (of_int n / 100 * 100) (1 / 512 * \<bar>100\<bar> + 2 powi (51 - 54)) (x * Fin 100)"
    by (rule approx_mult_Fin [OF assms(1)]) (use n in simp_all)
  then obtain v where v: "x * Fin 100 = Fin v" "\<bar>v - of_int n\<bar> \<le> 100 / 512 + 2 powi (- 3)"
    by (auto simp: approx_def)
  have "(2::rat) powi (- 3) = 1 / 8" by (simp add: power_int_minus)
  with v(2) have "round_away v = n" by (intro round_away_near) simp
  then show ?thesis by (simp add: v)
qed

lemma round2_approx:
  assumes "approx (of_int n / 100) (1 / 512) x" and "\<bar>n\<bar> \<le> 2 ^ 50"
  shows "round2 x = rupees n"
  by (simp add: round2_def round_cents [OF assms] rupees_def)

lemma approx_rupees:
  assumes "\<bar>n\<bar> \<le> 2 ^ 50"
  shows "approx (of_int n / 100) (1 / 1024) (rupees n)"
proof -
  have n: "\<bar>of_int n\<bar> \<le> (2 ^ 50 :: rat)" using abs_of_int_le [OF assms(1)] by simp
  have "approx (of_int n / 100) (2 powi (44 - 54)) (fl (of_int n / 100))"
    by (rule approx_fl) (use n in simp_all)
  then show ?thesis by (simp add: rupees_def power_int_minus)
qed

lemma approx_rupees_fine:
  assumes "\<bar>n\<bar> \<le> 2 ^ 44"
  shows "approx (of_int n / 100) (1 / 2 ^ 16) (rupees n)"
proof -
  have n: "\<bar>of_int n\<bar> \<le> (2 ^ 44 :: rat)" using abs_of_int_le [OF assms(1)] by simp
  have "approx (of_int n / 100) (2 powi (38 - 54)) (fl (of_int n / 100))"
    by (rule approx_fl) (use n in simp_all)
  then show ?thesis by (simp add: rupees_def power_int_minus)
qed

lemma round2_rupees: "\<bar>n\<bar> \<le> 2 ^ 50 \<Longrightarrow> round2 (rupees n) = rupees n"
  by (rule round2_approx, rule approx_weaken, rule approx_rupees) simp_all

lemma cents_of_rupees: "\<bar>n\<bar> \<le> 2 ^ 50 \<Longrightarrow> math_Round (rupees n * Fin 100) = Fin (of_int n)"
  by (rule round_cents, rule approx_weaken, rule approx_rupees) simp_all

lemma trunc_rat_of_int [simp]: "trunc_rat (of_int n) = n"
  by (simp add: trunc_rat_def)

lemma int64_of_float_of_int:
  "- (2 ^ 63) \<le> n \<Longrightarrow> n < 2 ^ 63 \<Longrightarrow> int64_of_float (Fin (of_int n)) = word_of_int n"
  by (simp add: Let_def)

lemma sint_of_int64: "- (2 ^ 63) \<le> n \<Longrightarrow> n < 2 ^ 63 \<Longrightarrow> sint (word_of_int n :: int64) = n"
  by (simp add: sint_sbintrunc' signed_take_bit_int_eq_self)

text \<open>On paise amounts the order of the floats is the order of the amounts.\<close>

lemma rupees_Fin:
  assumes "\<bar>n\<bar> \<le> 2 ^ 50"
  obtains v where "rupees n = Fin v" and "\<bar>v - of_int n / 100\<bar> \<le> 1 / 1024"
  using approx_rupees [OF assms] by (auto simp: approx_def)

lemma rupees_less:
  assumes "\<bar>m\<bar> \<le> 2 ^ 50" and "\<bar>n\<bar> \<le> 2 ^ 50"
  shows "rupees m < rupees n \<longleftrightarrow> m < n" and "rupees m \<le> rupees n \<longleftrightarrow> m \<le> n"
proof -
  obtain v where v: "rupees m = Fin v" "\<bar>v - of_int m / 100\<bar> \<le> 1 / 1024"
    using assms(1) by (rule rupees_Fin)
  obtain w where w: "rupees n = Fin w" "\<bar>w - of_int n / 100\<bar> \<le> 1 / 1024"
    using assms(2) by (rule rupees_Fin)
  consider "m = n" | "of_int m + 1 \<le> (of_int n :: rat)" "m < n" | "of_int n + 1 \<le> (of_int m :: rat)" "n < m"
    by (metis linorder_neqE_linordered_idom of_int_1 of_int_add of_int_le_iff zless_imp_add1_zle)
  then have "(v < w \<longleftrightarrow> m < n) \<and> (v \<le> w \<longleftrightarrow> m \<le> n)"
  proof cases
    case 1
    with v(1) w(1) show ?thesis by simp
  next
    case 2
    from 2(1) v(2) w(2) have "v < w" by linarith
    with 2 show ?thesis by simp
  next
    case 3
    from 3(1) v(2) w(2) have "w < v" by linarith
    with 3 show ?thesis by simp
  qed
  then show "rupees m < rupees n \<longleftrightarrow> m < n" and "rupees m \<le> rupees n \<longleftrightarrow> m \<le> n"
    by (simp_all add: v(1) w(1))
qed

lemma rupees_0 [simp]: "rupees 0 = Fin 0"
  by (simp add: rupees_def)

lemma rupees_eq_iff: "\<bar>m\<bar> \<le> 2 ^ 50 \<Longrightarrow> \<bar>n\<bar> \<le> 2 ^ 50 \<Longrightarrow> rupees m = rupees n \<longleftrightarrow> m = n"
  using rupees_less [of m n] rupees_less [of n m]
  by (metis linorder_neqE_linordered_idom rupees_Fin order.irrefl less_float64.simps(1))

end
