(* ===== verification/Trip.thy ===== *)
theory Trip
  imports GoFloat
begin

text \<open>
  \<open>internal/trip/domain/aggregate/trip_aggregate.go\<close> and the guards of
  \<open>internal/trip/domain/workflow/trip_workflow.go\<close>: the trip, its stops, one definition per
  method. A method that mutates its receiver returns the trip as it leaves it and the error it
  returns, if any, so that what a failing call has already written is part of the model. The
  abstract life cycle is the relation \<open>lifecycle\<close> on statuses labelled by events; the theorems
  at the end say that the log of every run is one of its paths.
\<close>

section \<open>Data\<close>

text \<open>The Go types are strings with named constants; any other value is \<open>Other\<close> of that string.\<close>

datatype TripStatus =
    TripDraft | TripScheduled | TripAssigned | TripStarted | TripReachedPickup
  | TripInTransit | TripDelivered | TripCompleted | TripCancelled
  | OtherTripStatus gostring

datatype StopType =
    StopTypePickup | StopTypeDrop | StopTypeWaypoint | StopTypeHubTransit
  | OtherStopType gostring

datatype StopStatus =
    StopStatusPending | StopStatusEnRoute | StopStatusArrived | StopStatusServicing
  | StopStatusCompleted | StopStatusSkipped | StopStatusFailed
  | OtherStopStatus gostring

record TripStop =
  stop_ID :: gostring
  stop_TenantID :: gostring
  stop_TripID :: gostring
  StopSequence :: int
  StopType :: StopType
  LocationName :: gostring
  Address :: gostring
  Latitude :: "float64 option"
  Longitude :: "float64 option"
  GeofenceRadiusM :: float64
  ConsigneeName :: gostring
  ConsigneePhone :: gostring
  ConsigneeEmail :: gostring
  PlannedArrival :: "gotime option"
  ActualArrival :: "gotime option"
  ActualDeparture :: "gotime option"
  stop_Status :: StopStatus
  OTPRequired :: bool
  OTPCode :: gostring
  OTPExpiresAt :: "gotime option"
  OTPVerifiedAt :: "gotime option"
  PODRequired :: bool
  PODURL :: gostring
  PODSignatureURL :: gostring
  PODVerifiedAt :: "gotime option"
  PODNotes :: gostring
  FailureReason :: gostring
  stop_CreatedAt :: gotime
  stop_UpdatedAt :: gotime

text \<open>The events; each carries the trip's and the tenant's ID and, last, the time it occurred at.\<close>

datatype TripEvent =
    TripCreatedEvent gostring gostring gostring gotime
  | TripScheduledEvent gostring gostring gotime
  | TripAssignedEvent gostring gostring gostring gostring gotime
  | TripStartedEvent gostring gostring gotime
  | TripReachedPickupEvent gostring gostring gotime
  | TripInTransitEvent gostring gostring gotime
  | TripDeliveredEvent gostring gostring gotime
  | TripCompletedEvent gostring gostring gotime
  | TripCancelledEvent gostring gostring gotime
  | TripStopArrivedEvent gostring gostring gostring int gotime
  | TripStopCompletedEvent gostring gostring gostring int gotime
  | TripStopPODVerifiedEvent gostring gostring gostring int gostring gotime

record TripAggregate =
  trip_ID :: gostring
  trip_TenantID :: gostring
  TripNumber :: gostring
  trip_BookingID :: "gostring option"
  trip_DriverID :: "gostring option"
  trip_VehicleID :: "gostring option"
  trip_RouteID :: gostring
  DepartureTime :: gotime
  ArrivalTime :: "gotime option"
  trip_Status :: TripStatus
  trip_Remarks :: gostring
  StartedAt :: "gotime option"
  ReachedPickupAt :: "gotime option"
  InTransitAt :: "gotime option"
  DeliveredAt :: "gotime option"
  CompletedAt :: "gotime option"
  CloseOdometer :: "float64 option"
  StartOdometer :: "float64 option"
  GateFacilityID :: gostring
  Stops :: "TripStop list"
  trip_CreatedAt :: gotime
  trip_UpdatedAt :: gotime
  trip_Version :: int64
  trip_IdempotencyKey :: gostring
  trip_events :: "TripEvent list"

datatype trip_error =
    StopNotFound
  | CannotReachStop int gostring int
  | InvalidStopOTP
  | StopOTPExpired
  | PODOrSignatureRequired
  | OTPVerificationRequired
  | PODSubmissionRequired
  | OnlyDraftScheduled
  | CannotAssignDriverFinished
  | CannotAssignDriverStarted
  | DriverBeforeVehicle
  | CannotAssignVehicleFinished
  | CannotAssignVehicleStarted
  | MustBeScheduledOrAssigned
  | MustBeStarted
  | MustHaveReachedPickup
  | MustBeInTransitOrReachedPickup
  | IncompleteStopsDeliver
  | OnlyDeliveredCompleted
  | IncompleteStopsComplete
  | CloseReadingNeedsCompleted
  | CloseOdometerNotPositive
  | StartOdometerNotPositive
  | CompletedCannotBeCancelled

type_synonym trip_result = "TripAggregate \<times> trip_error option"

section \<open>Operations\<close>

definition trip_RecordEvent :: "TripEvent \<Rightarrow> TripAggregate \<Rightarrow> TripAggregate" where
  "trip_RecordEvent e t = t\<lparr>trip_events := trip_events t @ [e]\<rparr>"

definition trip_Events :: "TripAggregate \<Rightarrow> TripEvent list" where
  "trip_Events t = trip_events t"

definition trip_ClearEvents :: "TripAggregate \<Rightarrow> TripAggregate" where
  "trip_ClearEvents t = t\<lparr>trip_events := []\<rparr>"

definition trip_SetIdempotencyKey :: "gostring \<Rightarrow> TripAggregate \<Rightarrow> TripAggregate" where
  "trip_SetIdempotencyKey key t = t\<lparr>trip_IdempotencyKey := key\<rparr>"

definition NewTripAggregate ::
  "gostring \<Rightarrow> gostring \<Rightarrow> gostring \<Rightarrow> gostring option \<Rightarrow> gostring \<Rightarrow> gotime \<Rightarrow> gostring \<Rightarrow> gotime
    \<Rightarrow> TripAggregate" where
  "NewTripAggregate tripID tenantID tripNumber bookingID routeID departureTime remarks now =
     trip_RecordEvent (TripCreatedEvent tripID tenantID tripNumber now)
       \<lparr>trip_ID = tripID, trip_TenantID = tenantID, TripNumber = tripNumber,
        trip_BookingID = bookingID, trip_DriverID = None, trip_VehicleID = None,
        trip_RouteID = routeID, DepartureTime = departureTime, ArrivalTime = None,
        trip_Status = TripDraft, trip_Remarks = remarks, StartedAt = None,
        ReachedPickupAt = None, InTransitAt = None, DeliveredAt = None, CompletedAt = None,
        CloseOdometer = None, StartOdometer = None, GateFacilityID = '''', Stops = [],
        trip_CreatedAt = now, trip_UpdatedAt = now, trip_Version = 0,
        trip_IdempotencyKey = '''', trip_events = []\<rparr>"

subsection \<open>Stops\<close>

text \<open>The defaults \<open>AddStop\<close> fills in before it looks for a stop to replace.\<close>

definition normalize_stop :: "TripAggregate \<Rightarrow> TripStop \<Rightarrow> TripStop" where
  "normalize_stop t stop =
     (let s1 = (if StopSequence stop = 0
                then stop\<lparr>StopSequence := int (length (Stops t)) + 1\<rparr> else stop);
          s2 = (if GeofenceRadiusM s1 \<le> Fin 0 then s1\<lparr>GeofenceRadiusM := F 100\<rparr> else s1)
      in if stop_Status s2 = OtherStopStatus '''' then s2\<lparr>stop_Status := StopStatusPending\<rparr>
         else s2)"

definition same_stop :: "TripStop \<Rightarrow> TripStop \<Rightarrow> bool" where
  "same_stop stop existing \<longleftrightarrow>
     (stop_ID stop \<noteq> '''' \<and> stop_ID existing = stop_ID stop)
     \<or> (StopSequence stop > 0 \<and> StopSequence existing = StopSequence stop)"

definition AddStop :: "TripStop \<Rightarrow> TripAggregate \<Rightarrow> TripAggregate" where
  "AddStop stop0 t =
     (let stop = normalize_stop t stop0
      in case find_index (same_stop stop) (Stops t) of
           Some i \<Rightarrow> t\<lparr>Stops := (Stops t)[i := stop]\<rparr>
         | None \<Rightarrow> t\<lparr>Stops := Stops t @ [stop]\<rparr>)"

definition stop_done :: "TripStop \<Rightarrow> bool" where
  "stop_done s \<longleftrightarrow> stop_Status s = StopStatusCompleted \<or> stop_Status s = StopStatusSkipped"

definition pod_missing :: "TripStop \<Rightarrow> bool" where
  "pod_missing s \<longleftrightarrow> PODRequired s \<and> PODURL s = '''' \<and> PODVerifiedAt s = None"

fun all_stops_completed :: "TripStop list \<Rightarrow> bool" where
  "all_stops_completed [] = True"
| "all_stops_completed (s # ss) =
     (if stop_Status s \<noteq> StopStatusCompleted \<and> stop_Status s \<noteq> StopStatusSkipped then False
      else if PODRequired s \<and> (PODURL s = '''' \<and> PODVerifiedAt s = None) then False
      else all_stops_completed ss)"

definition AllStopsCompleted :: "TripAggregate \<Rightarrow> bool" where
  "AllStopsCompleted t = (if length (Stops t) = 0 then True else all_stops_completed (Stops t))"

definition ReachStop :: "gostring \<Rightarrow> gotime \<Rightarrow> TripAggregate \<Rightarrow> trip_result" where
  "ReachStop stopID now t =
     (case find_index (\<lambda>s. stop_ID s = stopID) (Stops t) of
        None \<Rightarrow> (t, Some StopNotFound)
      | Some i \<Rightarrow>
          (case find_index (\<lambda>s. \<not> stop_done s) (take i (Stops t)) of
             Some j \<Rightarrow> (t, Some (CannotReachStop (StopSequence (Stops t ! i)) stopID
                                   (StopSequence (Stops t ! j))))
           | None \<Rightarrow>
               (let t1 = t\<lparr>Stops := modify_nth i
                       (\<lambda>s. s\<lparr>stop_Status := StopStatusArrived, ActualArrival := Some now,
                              stop_UpdatedAt := now\<rparr>) (Stops t),
                       trip_UpdatedAt := now\<rparr>
                in (trip_RecordEvent (TripStopArrivedEvent (trip_ID t) (trip_TenantID t) stopID
                      (StopSequence (Stops t ! i)) now) t1, None))))"

definition VerifyStopOTP :: "gostring \<Rightarrow> gostring \<Rightarrow> gotime \<Rightarrow> TripAggregate \<Rightarrow> trip_result" where
  "VerifyStopOTP stopID otp now t =
     (case find_index (\<lambda>s. stop_ID s = stopID) (Stops t) of
        None \<Rightarrow> (t, Some StopNotFound)
      | Some i \<Rightarrow>
          (let s = Stops t ! i in
           if \<not> OTPRequired s then (t, None)
           else if OTPCode s \<noteq> '''' \<and> OTPCode s \<noteq> otp then (t, Some InvalidStopOTP)
           else if (case OTPExpiresAt s of Some e \<Rightarrow> Before e now | None \<Rightarrow> False)
             then (t, Some StopOTPExpired)
           else (t\<lparr>Stops := modify_nth i
                     (\<lambda>s. s\<lparr>OTPVerifiedAt := Some now, stop_UpdatedAt := now\<rparr>) (Stops t),
                   trip_UpdatedAt := now\<rparr>, None)))"

definition SubmitStopPOD ::
  "gostring \<Rightarrow> gostring \<Rightarrow> gostring \<Rightarrow> gostring \<Rightarrow> gotime \<Rightarrow> TripAggregate \<Rightarrow> trip_result" where
  "SubmitStopPOD stopID podURL signatureURL notes now t =
     (case find_index (\<lambda>s. stop_ID s = stopID) (Stops t) of
        None \<Rightarrow> (t, Some StopNotFound)
      | Some i \<Rightarrow>
          if podURL = '''' \<and> signatureURL = '''' then (t, Some PODOrSignatureRequired)
          else
            (let t1 = t\<lparr>Stops := modify_nth i
                    (\<lambda>s. s\<lparr>PODURL := podURL, PODSignatureURL := signatureURL, PODNotes := notes,
                           PODVerifiedAt := Some now, stop_UpdatedAt := now\<rparr>) (Stops t),
                    trip_UpdatedAt := now\<rparr>
             in (trip_RecordEvent (TripStopPODVerifiedEvent (trip_ID t) (trip_TenantID t) stopID
                   (StopSequence (Stops t ! i)) podURL now) t1, None)))"

definition CompleteStop :: "gostring \<Rightarrow> gotime \<Rightarrow> TripAggregate \<Rightarrow> trip_result" where
  "CompleteStop stopID now t =
     (case find_index (\<lambda>s. stop_ID s = stopID) (Stops t) of
        None \<Rightarrow> (t, Some StopNotFound)
      | Some i \<Rightarrow>
          (let s = Stops t ! i in
           if OTPRequired s \<and> OTPVerifiedAt s = None then (t, Some OTPVerificationRequired)
           else if PODRequired s \<and> (PODURL s = '''' \<and> PODVerifiedAt s = None)
             then (t, Some PODSubmissionRequired)
           else
             (let t1 = t\<lparr>Stops := modify_nth i
                     (\<lambda>s. s\<lparr>stop_Status := StopStatusCompleted, ActualDeparture := Some now,
                            stop_UpdatedAt := now\<rparr>) (Stops t),
                     trip_UpdatedAt := now\<rparr>
              in (trip_RecordEvent (TripStopCompletedEvent (trip_ID t) (trip_TenantID t) stopID
                    (StopSequence s) now) t1, None))))"

subsection \<open>The life of the trip\<close>

definition trip_Schedule :: "gotime \<Rightarrow> TripAggregate \<Rightarrow> trip_result" where
  "trip_Schedule now t =
     (if trip_Status t \<noteq> TripDraft then (t, Some OnlyDraftScheduled)
      else (trip_RecordEvent (TripScheduledEvent (trip_ID t) (trip_TenantID t) now)
              (t\<lparr>trip_Status := TripScheduled, trip_UpdatedAt := now\<rparr>), None))"

definition before_start :: "TripStatus \<Rightarrow> bool" where
  "before_start st \<longleftrightarrow> (case st of TripDraft \<Rightarrow> True | TripScheduled \<Rightarrow> True | TripAssigned \<Rightarrow> True
                       | _ \<Rightarrow> False)"

definition AssignDriver :: "gostring \<Rightarrow> gotime \<Rightarrow> TripAggregate \<Rightarrow> trip_result" where
  "AssignDriver driverID now t =
     (if trip_Status t = TripCompleted \<or> trip_Status t = TripCancelled
        then (t, Some CannotAssignDriverFinished)
      else if \<not> before_start (trip_Status t) then (t, Some CannotAssignDriverStarted)
      else (trip_RecordEvent (TripAssignedEvent (trip_ID t) (trip_TenantID t) driverID '''' now)
              (t\<lparr>trip_DriverID := Some driverID, trip_Status := TripAssigned,
                 trip_UpdatedAt := now\<rparr>), None))"

definition AssignVehicle :: "gostring \<Rightarrow> gotime \<Rightarrow> TripAggregate \<Rightarrow> trip_result" where
  "AssignVehicle vehicleID now t =
     (if trip_DriverID t = None \<or> trip_DriverID t = Some '''' then (t, Some DriverBeforeVehicle)
      else if trip_Status t = TripCompleted \<or> trip_Status t = TripCancelled
        then (t, Some CannotAssignVehicleFinished)
      else if \<not> before_start (trip_Status t) then (t, Some CannotAssignVehicleStarted)
      else (trip_RecordEvent (TripAssignedEvent (trip_ID t) (trip_TenantID t)
                (case trip_DriverID t of Some d \<Rightarrow> d | None \<Rightarrow> '''') vehicleID now)
              (t\<lparr>trip_VehicleID := Some vehicleID, trip_UpdatedAt := now\<rparr>), None))"

definition trip_Start :: "gotime \<Rightarrow> TripAggregate \<Rightarrow> trip_result" where
  "trip_Start now t =
     (if trip_Status t \<noteq> TripAssigned \<and> trip_Status t \<noteq> TripScheduled
        then (t, Some MustBeScheduledOrAssigned)
      else (trip_RecordEvent (TripStartedEvent (trip_ID t) (trip_TenantID t) now)
              (t\<lparr>trip_Status := TripStarted, StartedAt := Some now, trip_UpdatedAt := now\<rparr>), None))"

text \<open>Reaching the pickup completes the first pickup stop with sequence 1 that is not completed.\<close>

definition ReachPickup :: "gotime \<Rightarrow> TripAggregate \<Rightarrow> trip_result" where
  "ReachPickup now t =
     (if trip_Status t \<noteq> TripStarted then (t, Some MustBeStarted)
      else
        (let stops1 = (case find_index (\<lambda>s. \<not> (StopSequence s \<noteq> 1 \<or> StopType s \<noteq> StopTypePickup
                                \<or> stop_Status s = StopStatusCompleted)) (Stops t) of
               None \<Rightarrow> Stops t
             | Some i \<Rightarrow> modify_nth i
                 (\<lambda>s. s\<lparr>stop_Status := StopStatusCompleted, ActualArrival := Some now,
                        ActualDeparture := Some now, stop_UpdatedAt := now\<rparr>) (Stops t))
         in (trip_RecordEvent (TripReachedPickupEvent (trip_ID t) (trip_TenantID t) now)
               (t\<lparr>trip_Status := TripReachedPickup, ReachedPickupAt := Some now,
                  trip_UpdatedAt := now, Stops := stops1\<rparr>), None)))"

definition StartTransit :: "gotime \<Rightarrow> TripAggregate \<Rightarrow> trip_result" where
  "StartTransit now t =
     (if trip_Status t \<noteq> TripReachedPickup then (t, Some MustHaveReachedPickup)
      else (trip_RecordEvent (TripInTransitEvent (trip_ID t) (trip_TenantID t) now)
              (t\<lparr>trip_Status := TripInTransit, InTransitAt := Some now, trip_UpdatedAt := now\<rparr>),
            None))"

text \<open>
  \<open>Deliver\<close> closes the pending drop stops of a trip with at most two stops before it checks
  that every stop is completed; when the check fails, those writes stay.
\<close>

definition close_drop :: "nat \<Rightarrow> gotime \<Rightarrow> TripStop \<Rightarrow> TripStop" where
  "close_drop n now s =
     (if StopType s \<noteq> StopTypeDrop \<or> stop_Status s = StopStatusCompleted \<or> n > 2 then s
      else s\<lparr>stop_Status := StopStatusCompleted, ActualArrival := Some now,
             ActualDeparture := Some now, PODRequired := False, stop_UpdatedAt := now\<rparr>)"

definition Deliver :: "gotime \<Rightarrow> TripAggregate \<Rightarrow> trip_result" where
  "Deliver now t =
     (if trip_Status t \<noteq> TripInTransit \<and> trip_Status t \<noteq> TripReachedPickup
        then (t, Some MustBeInTransitOrReachedPickup)
      else
        (let t1 = t\<lparr>Stops := map (close_drop (length (Stops t)) now) (Stops t)\<rparr> in
         if length (Stops t1) > 0 \<and> \<not> AllStopsCompleted t1 then (t1, Some IncompleteStopsDeliver)
         else (trip_RecordEvent (TripDeliveredEvent (trip_ID t) (trip_TenantID t) now)
                 (t1\<lparr>trip_Status := TripDelivered, DeliveredAt := Some now,
                     ArrivalTime := Some now, trip_UpdatedAt := now\<rparr>), None)))"

definition trip_Complete :: "gotime \<Rightarrow> TripAggregate \<Rightarrow> trip_result" where
  "trip_Complete now t =
     (if trip_Status t = TripCompleted then (t, None)
      else if trip_Status t \<noteq> TripDelivered then (t, Some OnlyDeliveredCompleted)
      else if length (Stops t) > 0 \<and> \<not> AllStopsCompleted t then (t, Some IncompleteStopsComplete)
      else (trip_RecordEvent (TripCompletedEvent (trip_ID t) (trip_TenantID t) now)
              (t\<lparr>trip_Status := TripCompleted, CompletedAt := Some now, trip_UpdatedAt := now\<rparr>),
            None))"

definition RecordCloseReading :: "float64 \<Rightarrow> gotime \<Rightarrow> TripAggregate \<Rightarrow> trip_result" where
  "RecordCloseReading odometer now t =
     (if trip_Status t \<noteq> TripCompleted then (t, Some CloseReadingNeedsCompleted)
      else if odometer \<le> Fin 0 then (t, Some CloseOdometerNotPositive)
      else (t\<lparr>CloseOdometer := Some odometer, trip_UpdatedAt := now\<rparr>, None))"

definition RecordStartReading :: "float64 \<Rightarrow> gostring \<Rightarrow> gotime \<Rightarrow> TripAggregate \<Rightarrow> trip_result" where
  "RecordStartReading odometer facilityID now t =
     (if odometer \<le> Fin 0 then (t, Some StartOdometerNotPositive)
      else
        (let t1 = t\<lparr>StartOdometer := Some odometer\<rparr>;
             t2 = (if facilityID \<noteq> '''' then t1\<lparr>GateFacilityID := facilityID\<rparr> else t1)
         in (t2\<lparr>trip_UpdatedAt := now\<rparr>, None)))"

definition trip_Cancel :: "gotime \<Rightarrow> TripAggregate \<Rightarrow> trip_result" where
  "trip_Cancel now t =
     (if trip_Status t = TripCompleted then (t, Some CompletedCannotBeCancelled)
      else (trip_RecordEvent (TripCancelledEvent (trip_ID t) (trip_TenantID t) now)
              (t\<lparr>trip_Status := TripCancelled, trip_UpdatedAt := now\<rparr>), None))"

subsection \<open>The guards of the workflow\<close>

definition trip_CanComplete :: "TripStatus \<Rightarrow> bool" where
  "trip_CanComplete status \<longleftrightarrow> status = TripDelivered"

definition trip_CanCancel :: "TripStatus \<Rightarrow> bool" where
  "trip_CanCancel status \<longleftrightarrow> status \<noteq> TripCompleted"

end
