(* ===== verification/TripLife.thy ===== *)
theory TripLife
  imports Trip
begin

text \<open>
  Runs of commands on a trip and their properties: the abstract life cycle \<open>lifecycle\<close>, the
  invariant \<open>trip_inv\<close> between status, assignment and timeline fields, one lemma per method that
  it makes a step of the life cycle (\<open>step_ok\<close>), the interpretation of the interface
  \<open>aggregate\<close>, and the functional behaviour of the methods on stops.
\<close>

section \<open>Commands and runs\<close>

datatype trip_cmd =
    CmdAddStop TripStop
  | CmdReachStop gostring gotime
  | CmdVerifyStopOTP gostring gostring gotime
  | CmdSubmitStopPOD gostring gostring gostring gostring gotime
  | CmdCompleteStop gostring gotime
  | CmdSchedule gotime
  | CmdAssignDriver gostring gotime
  | CmdAssignVehicle gostring gotime
  | CmdStart gotime
  | CmdReachPickup gotime
  | CmdStartTransit gotime
  | CmdDeliver gotime
  | CmdComplete gotime
  | CmdRecordCloseReading float64 gotime
  | CmdRecordStartReading float64 gostring gotime
  | CmdCancel gotime
  | CmdSetIdempotencyKey gostring

fun trip_exec :: "trip_cmd \<Rightarrow> TripAggregate \<Rightarrow> trip_result" where
  "trip_exec (CmdAddStop s) t = (AddStop s t, None)"
| "trip_exec (CmdReachStop i n) t = ReachStop i n t"
| "trip_exec (CmdVerifyStopOTP i c n) t = VerifyStopOTP i c n t"
| "trip_exec (CmdSubmitStopPOD i u v w n) t = SubmitStopPOD i u v w n t"
| "trip_exec (CmdCompleteStop i n) t = CompleteStop i n t"
| "trip_exec (CmdSchedule n) t = trip_Schedule n t"
| "trip_exec (CmdAssignDriver d n) t = AssignDriver d n t"
| "trip_exec (CmdAssignVehicle v n) t = AssignVehicle v n t"
| "trip_exec (CmdStart n) t = trip_Start n t"
| "trip_exec (CmdReachPickup n) t = ReachPickup n t"
| "trip_exec (CmdStartTransit n) t = StartTransit n t"
| "trip_exec (CmdDeliver n) t = Deliver n t"
| "trip_exec (CmdComplete n) t = trip_Complete n t"
| "trip_exec (CmdRecordCloseReading x n) t = RecordCloseReading x n t"
| "trip_exec (CmdRecordStartReading x f n) t = RecordStartReading x f n t"
| "trip_exec (CmdCancel n) t = trip_Cancel n t"
| "trip_exec (CmdSetIdempotencyKey k) t = (trip_SetIdempotencyKey k t, None)"

lemmas stop_ops = AddStop_def ReachStop_def VerifyStopOTP_def SubmitStopPOD_def CompleteStop_def
lemmas life_ops = trip_Schedule_def AssignDriver_def AssignVehicle_def trip_Start_def
  ReachPickup_def StartTransit_def Deliver_def trip_Complete_def RecordCloseReading_def
  RecordStartReading_def trip_Cancel_def trip_SetIdempotencyKey_def
lemmas trip_splits = if_splits option.splits

text \<open>The edges of the life cycle, labelled with the event that records them.\<close>

inductive lifecycle :: "TripStatus \<Rightarrow> TripEvent \<Rightarrow> TripStatus \<Rightarrow> bool" where
  lc_schedule: "lifecycle TripDraft (TripScheduledEvent i m n) TripScheduled"
| lc_assign: "before_start st \<Longrightarrow> lifecycle st (TripAssignedEvent i m d v n) TripAssigned"
| lc_start: "st = TripScheduled \<or> st = TripAssigned
    \<Longrightarrow> lifecycle st (TripStartedEvent i m n) TripStarted"
| lc_pickup: "lifecycle TripStarted (TripReachedPickupEvent i m n) TripReachedPickup"
| lc_transit: "lifecycle TripReachedPickup (TripInTransitEvent i m n) TripInTransit"
| lc_deliver: "st = TripInTransit \<or> st = TripReachedPickup
    \<Longrightarrow> lifecycle st (TripDeliveredEvent i m n) TripDelivered"
| lc_complete: "lifecycle TripDelivered (TripCompletedEvent i m n) TripCompleted"
| lc_cancel: "st \<noteq> TripCompleted \<Longrightarrow> lifecycle st (TripCancelledEvent i m n) TripCancelled"
| lc_arrived: "lifecycle st (TripStopArrivedEvent i m s q n) st"
| lc_stop_done: "lifecycle st (TripStopCompletedEvent i m s q n) st"
| lc_pod: "lifecycle st (TripStopPODVerifiedEvent i m s q u n) st"

inductive_cases lifecycle_completedE: "lifecycle TripCompleted e st"

text \<open>What holds between the fields of every trip the commands can make.\<close>

definition trip_inv :: "TripAggregate \<Rightarrow> bool" where
  "trip_inv t \<longleftrightarrow>
     (trip_Status t \<in> {TripDraft, TripScheduled} \<longrightarrow> trip_DriverID t = None) \<and>
     (trip_Status t = TripAssigned \<longrightarrow> trip_DriverID t \<noteq> None) \<and>
     (trip_VehicleID t \<noteq> None \<longrightarrow> trip_DriverID t \<noteq> None) \<and>
     (trip_Status t \<in> {TripStarted, TripReachedPickup, TripInTransit, TripDelivered, TripCompleted}
        \<longrightarrow> StartedAt t \<noteq> None) \<and>
     (trip_Status t \<in> {TripReachedPickup, TripInTransit, TripDelivered, TripCompleted}
        \<longrightarrow> ReachedPickupAt t \<noteq> None) \<and>
     (trip_Status t = TripInTransit \<longrightarrow> InTransitAt t \<noteq> None) \<and>
     (trip_Status t \<in> {TripDelivered, TripCompleted}
        \<longrightarrow> DeliveredAt t \<noteq> None \<and> ArrivalTime t \<noteq> None) \<and>
     (trip_Status t = TripCompleted \<longleftrightarrow> CompletedAt t \<noteq> None) \<and>
     (CloseOdometer t \<noteq> None \<longrightarrow> trip_Status t = TripCompleted) \<and>
     (\<forall>s. trip_Status t \<noteq> OtherTripStatus s)"

lemma trip_inv_new: "trip_inv (NewTripAggregate i m k b r d re n)"
  by (simp add: trip_inv_def NewTripAggregate_def trip_RecordEvent_def)

text \<open>
  One step: the log and the status stay, or one event is appended and the status moves along the
  edge it labels; the invariant is kept.
\<close>

definition step_ok :: "TripAggregate \<Rightarrow> trip_result \<Rightarrow> bool" where
  "step_ok t res \<longleftrightarrow>
     (trip_events (fst res) = trip_events t \<and> trip_Status (fst res) = trip_Status t
        \<and> (trip_inv t \<longrightarrow> trip_inv (fst res))) \<or>
     (snd res = None \<and> (\<exists>e. trip_events (fst res) = trip_events t @ [e]
        \<and> (trip_inv t \<longrightarrow> trip_inv (fst res) \<and> lifecycle (trip_Status t) e (trip_Status (fst res)))))"

lemma step_ok_same: "step_ok t (t, r)"
  by (simp add: step_ok_def)

lemma step_ok_quiet:
  assumes "trip_inv t \<Longrightarrow> trip_inv t'" and "trip_events t' = trip_events t"
    and "trip_Status t' = trip_Status t"
  shows "step_ok t (t', r)"
  using assms by (simp add: step_ok_def)

lemma step_ok_event:
  assumes "trip_inv t \<Longrightarrow> trip_inv t'" and "trip_events t' = trip_events t"
    and "trip_inv t \<Longrightarrow> lifecycle (trip_Status t) e (trip_Status t')"
  shows "step_ok t (trip_RecordEvent e t', None)"
  using assms by (simp add: step_ok_def trip_RecordEvent_def trip_inv_def)

lemma trip_inv_frame [simp]:
  "trip_inv (t\<lparr>Stops := ss\<rparr>) = trip_inv t"
  "trip_inv (t\<lparr>trip_UpdatedAt := n\<rparr>) = trip_inv t"
  "trip_inv (t\<lparr>StartOdometer := x\<rparr>) = trip_inv t"
  "trip_inv (t\<lparr>GateFacilityID := f\<rparr>) = trip_inv t"
  "trip_inv (t\<lparr>trip_IdempotencyKey := k\<rparr>) = trip_inv t"
  by (simp_all add: trip_inv_def)

lemmas step_intros = step_ok_same step_ok_quiet step_ok_event lifecycle.intros

lemma step_stop_ops:
  "step_ok t (AddStop s t, None)"
  "step_ok t (ReachStop i n t)"
  "step_ok t (VerifyStopOTP i c n t)"
  "step_ok t (SubmitStopPOD i u v w n t)"
  "step_ok t (CompleteStop i n t)"
  unfolding stop_ops Let_def
  by (auto intro!: step_intros split: option.split)

lemma step_readings:
  "step_ok t (RecordCloseReading x n t)"
  "step_ok t (RecordStartReading x f n t)"
  "step_ok t (trip_SetIdempotencyKey k t, None)"
  unfolding life_ops Let_def
  by (auto intro!: step_intros simp: trip_inv_def)

lemma step_Schedule: "step_ok t (trip_Schedule n t)"
  unfolding life_ops by (auto intro!: step_intros simp: trip_inv_def)

lemma step_AssignDriver: "step_ok t (AssignDriver d n t)"
  unfolding life_ops
  by (auto intro!: step_intros simp: trip_inv_def before_start_def split: TripStatus.splits)

lemma step_AssignVehicle: "step_ok t (AssignVehicle v n t)"
proof -
  have "trip_inv t \<Longrightarrow> trip_DriverID t \<noteq> None \<Longrightarrow> before_start (trip_Status t) \<Longrightarrow> trip_Status t = TripAssigned"
    by (auto simp: trip_inv_def before_start_def split: TripStatus.splits)
  then show ?thesis unfolding AssignVehicle_def
    by (auto intro!: step_ok_same step_ok_event simp: trip_inv_def) (auto intro: lc_assign simp: before_start_def)
qed

lemma step_moves:
  "step_ok t (trip_Start n t)" "step_ok t (ReachPickup n t)" "step_ok t (StartTransit n t)"
  "step_ok t (trip_Complete n t)" "step_ok t (trip_Cancel n t)"
  unfolding life_ops Let_def
  by (auto intro!: step_intros simp: trip_inv_def)

lemma step_Deliver: "step_ok t (Deliver n t)"
  unfolding Deliver_def Let_def
  by (auto intro!: step_intros simp: trip_inv_def)

lemma step_exec: "step_ok t (trip_exec c t)"
  by (cases c) (simp_all add: step_stop_ops step_readings step_Schedule step_AssignDriver step_AssignVehicle step_moves step_Deliver)

lemma trip_exec_fail_log: "trip_exec c t = (t', Some e) \<Longrightarrow> trip_events t' = trip_events t"
  using step_exec [of t c] by (auto simp: step_ok_def)

lemma trip_exec_ok_log: "trip_exec c t = (t', None) \<Longrightarrow> \<exists>new. trip_events t' = trip_events t @ new"
  using step_exec [of t c] by (auto simp: step_ok_def)

lemma trip_exec_inv: "trip_inv t \<Longrightarrow> trip_inv (fst (trip_exec c t))"
  using step_exec [of t c] by (auto simp: step_ok_def)

interpretation trip: lifecycle_aggregate trip_exec trip_events trip_inv trip_Status lifecycle
proof unfold_locales
  fix t :: TripAggregate and c
  show "trip_inv t \<Longrightarrow> moves_along lifecycle (trip_events t) (trip_Status t)
      (trip_events (fst (trip_exec c t))) (trip_Status (fst (trip_exec c t)))"
    using step_exec [of t c] by (auto simp: step_ok_def moves_along_def)
qed (auto dest: trip_exec_fail_log trip_exec_ok_log intro: trip_exec_inv)

section \<open>Properties\<close>

text \<open>
  C2: the log of a trip, after any sequence of method calls on a new trip, is the creation event
  followed by a path of the life cycle from draft to the trip's current status: every recorded
  event was legal when it was recorded, and the log determines the status.
\<close>

theorem trip_run_lifecycle:
  "\<exists>es. trip_events (trip.run cs (NewTripAggregate i m k b r d re n)) = TripCreatedEvent i m k n # es
     \<and> edge_path lifecycle TripDraft es (trip_Status (trip.run cs (NewTripAggregate i m k b r d re n)))"
  using trip.run_path [OF trip_inv_new, of i m k b r d re n "[TripCreatedEvent i m k n]" "[]" TripDraft cs]
  by (auto simp: NewTripAggregate_def trip_RecordEvent_def intro: path_nil)

text \<open>
  In every trip the commands can make, the fields agree with the status: a driver is set
  exactly from assignment on, a vehicle only with a driver, each timestamp is set once its status
  has been passed, the closing odometer only on completed trips.
\<close>

theorem trip_run_inv: "trip_inv (trip.run cs (NewTripAggregate i m k b r d re n))"
  by (rule trip.run_invar [OF trip_inv_new])

lemma exec_completed:
  "trip_Status t = TripCompleted \<and> CompletedAt t = x \<Longrightarrow>
   trip_Status (fst (trip_exec c t)) = TripCompleted \<and> CompletedAt (fst (trip_exec c t)) = x"
  by (cases c) (auto simp: stop_ops life_ops Let_def trip_RecordEvent_def split: trip_splits)

text \<open>
  A completed trip stays completed, with its completion time, whatever is called on it
  afterwards.
\<close>

theorem trip_completed_final:
  assumes "trip_Status t = TripCompleted"
  shows "trip_Status (trip.run cs t) = TripCompleted \<and> CompletedAt (trip.run cs t) = CompletedAt t"
  by (rule trip.run_stable [where P = "\<lambda>u. trip_Status u = TripCompleted \<and> CompletedAt u = CompletedAt t"])
     (use assms exec_completed in auto)

definition demo_trip :: TripAggregate where
  "demo_trip = trip.run
     [CmdAssignDriver ''d1'' 2, CmdAssignVehicle ''v1'' 3, CmdStart 4, CmdReachPickup 5,
      CmdStartTransit 6, CmdDeliver 7, CmdComplete 8]
     (NewTripAggregate ''t1'' ''1'' ''TRP-1'' None ''r1'' 9 '''' 1)"

lemma demo_trip_status: "trip_Status demo_trip = TripCompleted \<and> CompletedAt demo_trip = Some 8"
  by (simp add: demo_trip_def NewTripAggregate_def life_ops trip_RecordEvent_def before_start_def
      Let_def AllStopsCompleted_def)

theorem trip_completed_final_witness:
  "trip_Status (trip.run [CmdCancel 9, CmdStart 10] demo_trip) = TripCompleted
   \<and> CompletedAt (trip.run [CmdCancel 9, CmdStart 10] demo_trip) = CompletedAt demo_trip"
  using trip_completed_final [of demo_trip "[CmdCancel 9, CmdStart 10]"] demo_trip_status by blast

lemma all_stops_completed_iff:
  "all_stops_completed ss \<longleftrightarrow> (\<forall>s \<in> set ss. stop_done s \<and> \<not> pod_missing s)"
  by (induction ss) (auto simp: stop_done_def pod_missing_def)

lemma AllStopsCompleted_iff:
  "AllStopsCompleted t \<longleftrightarrow> (\<forall>s \<in> set (Stops t). stop_done s \<and> \<not> pod_missing s)"
  by (auto simp: AllStopsCompleted_def all_stops_completed_iff)

lemma close_drop_ok:
  "stop_done (close_drop n now s) \<and> \<not> pod_missing (close_drop n now s) \<longleftrightarrow>
     stop_done s \<and> \<not> pod_missing s
     \<or> (n \<le> 2 \<and> StopType s = StopTypeDrop \<and> stop_Status s \<noteq> StopStatusCompleted)"
  by (auto simp: close_drop_def stop_done_def pod_missing_def)

text \<open>
  C3: delivering succeeds exactly from in transit or reached pickup with every stop completed (or
  skipped) and its proof of delivery there, where a drop stop that is still open counts as
  completed in a trip of at most two stops; the status then is delivered.
\<close>

theorem deliver_iff:
  "snd (Deliver now t) = None \<longleftrightarrow>
     (trip_Status t = TripInTransit \<or> trip_Status t = TripReachedPickup) \<and>
     (\<forall>s \<in> set (Stops t). (stop_done s \<and> \<not> pod_missing s)
        \<or> (length (Stops t) \<le> 2 \<and> StopType s = StopTypeDrop \<and> stop_Status s \<noteq> StopStatusCompleted))"
proof -
  let ?f = "close_drop (length (Stops t)) now"
  have "AllStopsCompleted (t\<lparr>Stops := map ?f (Stops t)\<rparr>) \<longleftrightarrow>
     (\<forall>s \<in> set (Stops t). (stop_done s \<and> \<not> pod_missing s)
        \<or> (length (Stops t) \<le> 2 \<and> StopType s = StopTypeDrop \<and> stop_Status s \<noteq> StopStatusCompleted))"
    unfolding AllStopsCompleted_iff close_drop_ok [symmetric, where now = now] by simp
  then show ?thesis by (auto simp: Deliver_def Let_def simp del: AllStopsCompleted_iff)
qed

theorem deliver_iff_witness:
  "snd (Deliver 9 (trip.run [CmdAssignDriver ''d1'' 2, CmdStart 4, CmdReachPickup 5]
      (NewTripAggregate ''t1'' ''1'' ''TRP-1'' None ''r1'' 9 '''' 1))) = None"
  unfolding deliver_iff
  by (simp add: NewTripAggregate_def life_ops trip_RecordEvent_def before_start_def Let_def)

text \<open>
  C6: a stop is reached only in order. When \<open>ReachStop\<close> succeeds, the first stop with that ID is
  marked arrived, every stop before it is completed or skipped, and no other stop changes.
\<close>

theorem reach_stop_in_order:
  assumes "ReachStop sid now t = (t', None)"
  shows "\<exists>k < length (Stops t). stop_ID (Stops t ! k) = sid
     \<and> (\<forall>j < k. stop_done (Stops t ! j) \<and> stop_ID (Stops t ! j) \<noteq> sid)
     \<and> Stops t' = (Stops t)[k := (Stops t ! k)\<lparr>stop_Status := StopStatusArrived,
                                    ActualArrival := Some now, stop_UpdatedAt := now\<rparr>]"
proof -
  from assms obtain k where k: "find_index (\<lambda>s. stop_ID s = sid) (Stops t) = Some k"
      "find_index (\<lambda>s. \<not> stop_done s) (take k (Stops t)) = None"
      "Stops t' = modify_nth k (\<lambda>s. s\<lparr>stop_Status := StopStatusArrived,
                     ActualArrival := Some now, stop_UpdatedAt := now\<rparr>) (Stops t)"
    by (auto simp: ReachStop_def Let_def trip_RecordEvent_def split: option.splits)
  from k(1) have kf: "k < length (Stops t)" "stop_ID (Stops t ! k) = sid"
      "\<forall>j < k. stop_ID (Stops t ! j) \<noteq> sid"
    by (auto simp: find_index_Some)
  have "stop_done (Stops t ! j)" if "j < k" for j
  proof -
    from that kf(1) have "Stops t ! j \<in> set (take k (Stops t))"
      by (auto simp: in_set_conv_nth intro!: exI [of _ j])
    with k(2) show ?thesis by simp
  qed
  with kf k(3) show ?thesis by (auto simp: modify_nth_def intro!: exI [of _ k])
qed

definition demo_stop :: "gostring \<Rightarrow> StopType \<Rightarrow> TripStop" where
  "demo_stop i ty = \<lparr>stop_ID = i, stop_TenantID = ''1'', stop_TripID = ''t1'', StopSequence = 0,
     StopType = ty, LocationName = '''', Address = '''', Latitude = None, Longitude = None,
     GeofenceRadiusM = Fin 0, ConsigneeName = '''', ConsigneePhone = '''', ConsigneeEmail = '''',
     PlannedArrival = None, ActualArrival = None, ActualDeparture = None,
     stop_Status = OtherStopStatus '''', OTPRequired = True, OTPCode = ''4711'',
     OTPExpiresAt = Some 100, OTPVerifiedAt = None, PODRequired = True, PODURL = '''',
     PODSignatureURL = '''', PODVerifiedAt = None, PODNotes = '''', FailureReason = '''',
     stop_CreatedAt = 1, stop_UpdatedAt = 1\<rparr>"

definition demo_stops_trip :: TripAggregate where
  "demo_stops_trip = AddStop (demo_stop ''s2'' StopTypeDrop) (AddStop (demo_stop ''s1'' StopTypePickup)
     (NewTripAggregate ''t1'' ''1'' ''TRP-1'' None ''r1'' 9 '''' 1))"

lemmas demo_defs = demo_stops_trip_def demo_stop_def NewTripAggregate_def trip_RecordEvent_def
  AddStop_def normalize_stop_def same_stop_def

theorem reach_stop_in_order_witness:
  "\<exists>k < length (Stops demo_stops_trip). stop_ID (Stops demo_stops_trip ! k) = ''s1''
     \<and> Stops (fst (ReachStop ''s1'' 5 demo_stops_trip)) = (Stops demo_stops_trip)
         [k := (Stops demo_stops_trip ! k)\<lparr>stop_Status := StopStatusArrived,
                 ActualArrival := Some 5, stop_UpdatedAt := 5\<rparr>]"
proof -
  have "ReachStop ''s1'' 5 demo_stops_trip = (fst (ReachStop ''s1'' 5 demo_stops_trip), None)"
    by (simp add: demo_defs ReachStop_def Let_def)
  from reach_stop_in_order [OF this] show ?thesis by blast
qed

text \<open>
  Verifying the one-time password of a stop that requires it succeeds exactly when the stop
  has no code or the given code is the stop's, and the code has not expired; it then stamps the
  stop as verified. An expired or wrong code leaves the trip as it was.
\<close>

theorem verify_otp_spec:
  assumes "find_index (\<lambda>s. stop_ID s = sid) (Stops t) = Some k" and "OTPRequired (Stops t ! k)"
  shows "if (OTPCode (Stops t ! k) = '''' \<or> OTPCode (Stops t ! k) = otp)
            \<and> (case OTPExpiresAt (Stops t ! k) of None \<Rightarrow> True | Some e \<Rightarrow> now \<le> e)
         then snd (VerifyStopOTP sid otp now t) = None
            \<and> OTPVerifiedAt (Stops (fst (VerifyStopOTP sid otp now t)) ! k) = Some now
         else snd (VerifyStopOTP sid otp now t) \<noteq> None \<and> fst (VerifyStopOTP sid otp now t) = t"
proof -
  have "k < length (Stops t)" using assms(1) by (auto simp: find_index_Some)
  with assms show ?thesis by (auto simp: VerifyStopOTP_def Let_def split: option.splits)
qed

theorem verify_otp_spec_witness:
  "OTPVerifiedAt (Stops (fst (VerifyStopOTP ''s1'' ''4711'' 50 demo_stops_trip)) ! 0) = Some 50"
proof -
  have k: "find_index (\<lambda>s. stop_ID s = ''s1'') (Stops demo_stops_trip) = Some 0"
      "OTPRequired (Stops demo_stops_trip ! 0)"
      "OTPCode (Stops demo_stops_trip ! 0) = ''4711''"
      "OTPExpiresAt (Stops demo_stops_trip ! 0) = Some 100"
    by (simp_all add: demo_defs Let_def)
  from verify_otp_spec [OF k(1,2), of "''4711''" 50] show ?thesis by (simp only: k) simp
qed

text \<open>
  A stop is completed only with its one-time password verified and its proof of delivery
  submitted, where the stop requires them; exactly that stop becomes completed and the event
  carries its sequence number.
\<close>

theorem complete_stop_guarded:
  assumes "CompleteStop sid now t = (t', None)"
  shows "\<exists>k < length (Stops t). stop_ID (Stops t ! k) = sid
     \<and> (OTPRequired (Stops t ! k) \<longrightarrow> OTPVerifiedAt (Stops t ! k) \<noteq> None)
     \<and> \<not> pod_missing (Stops t ! k)
     \<and> Stops t' = (Stops t)[k := (Stops t ! k)\<lparr>stop_Status := StopStatusCompleted,
                                    ActualDeparture := Some now, stop_UpdatedAt := now\<rparr>]
     \<and> trip_events t' = trip_events t @ [TripStopCompletedEvent (trip_ID t) (trip_TenantID t) sid
                                           (StopSequence (Stops t ! k)) now]"
  using assms
  by (auto simp: CompleteStop_def Let_def trip_RecordEvent_def modify_nth_def pod_missing_def
      find_index_Some split: option.splits if_splits)

theorem complete_stop_guarded_witness:
  "\<exists>k t'. CompleteStop ''s1'' 60 (trip.run
      [CmdVerifyStopOTP ''s1'' ''4711'' 50, CmdSubmitStopPOD ''s1'' ''u'' '''' '''' 55] demo_stops_trip)
      = (t', None) \<and> k < length (Stops t') \<and> stop_Status (Stops t' ! k) = StopStatusCompleted"
proof -
  let ?t = "trip.run [CmdVerifyStopOTP ''s1'' ''4711'' 50, CmdSubmitStopPOD ''s1'' ''u'' '''' '''' 55]
      demo_stops_trip"
  have c: "CompleteStop ''s1'' 60 ?t = (fst (CompleteStop ''s1'' 60 ?t), None)"
    by (simp add: demo_defs Let_def VerifyStopOTP_def SubmitStopPOD_def CompleteStop_def modify_nth_def)
  from complete_stop_guarded [OF c] obtain k where "k < length (Stops ?t)"
      "Stops (fst (CompleteStop ''s1'' 60 ?t)) = (Stops ?t)[k := (Stops ?t ! k)
          \<lparr>stop_Status := StopStatusCompleted, ActualDeparture := Some 60, stop_UpdatedAt := 60\<rparr>]"
    by blast
  then have "k < length (Stops (fst (CompleteStop ''s1'' 60 ?t)))"
      "stop_Status (Stops (fst (CompleteStop ''s1'' 60 ?t)) ! k) = StopStatusCompleted"
    by simp_all
  with c show ?thesis by blast
qed

text \<open>
  The workflow's guards agree with the aggregate's methods: cancelling succeeds exactly where
  \<open>CanCancel\<close> allows it, and a trip that is not yet completed is completed exactly where
  \<open>CanComplete\<close> allows it and no stop is open.
\<close>

theorem workflow_guards_agree:
  "(snd (trip_Cancel now t) = None \<longleftrightarrow> trip_CanCancel (trip_Status t)) \<and>
   (trip_Status (fst (trip_Complete now t)) \<noteq> trip_Status t \<longleftrightarrow>
     trip_CanComplete (trip_Status t) \<and> AllStopsCompleted t)"
  by (auto simp: trip_Cancel_def trip_CanCancel_def trip_Complete_def trip_CanComplete_def
      trip_RecordEvent_def AllStopsCompleted_def)

text \<open>A stop that is already completed can be reached again, which opens it.\<close>

lemma reach_stop_reopens:
  assumes "Stops t \<noteq> []" and "stop_Status (Stops t ! 0) = StopStatusCompleted"
  shows "snd (ReachStop (stop_ID (Stops t ! 0)) now t) = None
     \<and> stop_Status (Stops (fst (ReachStop (stop_ID (Stops t ! 0)) now t)) ! 0) = StopStatusArrived"
  using assms by (cases "Stops t") (auto simp: ReachStop_def trip_RecordEvent_def modify_nth_def Let_def)

text \<open>A delivery that fails keeps the drop stops it has closed on the way.\<close>

lemma failed_delivery_closes:
  assumes "trip_Status t = TripInTransit" and "Stops t = [p, d]" and "StopType p = StopTypePickup" and "stop_Status p = StopStatusPending"
    and "StopType d = StopTypeDrop" and "stop_Status d = StopStatusPending"
  shows "snd (Deliver now t) = Some IncompleteStopsDeliver \<and> stop_Status (Stops (fst (Deliver now t)) ! 1) = StopStatusCompleted"
  using assms by (auto simp: Deliver_def close_drop_def AllStopsCompleted_def Let_def)

end
