(* ===== verification/GoBytes.thy ===== *)
theory GoBytes
  imports GoFloat
begin

text \<open>
  Go code on byte slices. A computation returns a value, returns an error or panics: an index or a
  slice expression outside the slice is a value of the model, so that a decoder that cannot panic
  is a theorem. With it come big-endian integers, hexadecimal text, calendar dates
  (\<open>time.Date\<close>, \<open>time.UnixMilli\<close>) and the interface of byte-wise checksums.
\<close>

section \<open>Results\<close>

datatype 'a go = Returns 'a | Fails gostring | Panics

fun go_then :: "'a go \<Rightarrow> ('a \<Rightarrow> 'b go) \<Rightarrow> 'b go" where
  "go_then (Returns x) f = f x"
| "go_then (Fails e) f = Fails e"
| "go_then Panics f = Panics"

text \<open>\<open>if err != nil { return fmt.Errorf("...: %w", err) }\<close>.\<close>

fun go_wrap :: "gostring \<Rightarrow> 'a go \<Rightarrow> 'a go" where
  "go_wrap s (Fails e) = Fails (s @ e)"
| "go_wrap s r = r"

lemma go_then_Returns: "go_then m f = Returns y \<longleftrightarrow> (\<exists>x. m = Returns x \<and> f x = Returns y)"
  by (cases m) auto

lemma go_then_Panics: "go_then m f = Panics \<longleftrightarrow> m = Panics \<or> (\<exists>x. m = Returns x \<and> f x = Panics)"
  by (cases m) auto

lemma go_wrap_eqs [simp]:
  "go_wrap s m = Returns y \<longleftrightarrow> m = Returns y" "go_wrap s m = Panics \<longleftrightarrow> m = Panics"
  by (cases m; simp)+

section \<open>Slices\<close>

type_synonym bytes = "uint8 list"

definition byte_at :: "bytes \<Rightarrow> nat \<Rightarrow> uint8 go" where
  "byte_at b i = (if i < length b then Returns (b ! i) else Panics)"

text \<open>\<open>b[i:j]\<close>, within the slice: what lies between its length and its capacity is not read.\<close>

definition byte_slice :: "bytes \<Rightarrow> nat \<Rightarrow> nat \<Rightarrow> bytes go" where
  "byte_slice b i j = (if i \<le> j \<and> j \<le> length b then Returns (take (j - i) (drop i b)) else Panics)"

definition be_nat :: "bytes \<Rightarrow> nat" where
  "be_nat = foldl (\<lambda>v x. 256 * v + unat x) 0"

text \<open>\<open>binary.BigEndian.Uint16\<close> and its wider kin: the first \<open>n\<close> bytes, which must be there.\<close>

definition big_endian :: "nat \<Rightarrow> bytes \<Rightarrow> nat go" where
  "big_endian n b = (if n \<le> length b then Returns (be_nat (take n b)) else Panics)"

definition be_at :: "bytes \<Rightarrow> nat \<Rightarrow> nat \<Rightarrow> nat go" where
  "be_at b i n = go_then (byte_slice b i (i + n)) (big_endian n)"

text \<open>\<open>binary.BigEndian.PutUint16\<close> and its wider kin.\<close>

primrec be_bytes :: "nat \<Rightarrow> nat \<Rightarrow> bytes" where
  "be_bytes 0 v = []"
| "be_bytes (Suc n) v = of_nat (v div 256 ^ n) # be_bytes n v"

lemma byte_at_ok [simp]: "i < length b \<Longrightarrow> byte_at b i = Returns (b ! i)"
  by (simp add: byte_at_def)

lemma byte_at_0 [simp]: "b \<noteq> [] \<Longrightarrow> byte_at b 0 = Returns (b ! 0)"
  by (simp add: byte_at_def)

lemma byte_slice_ok [simp]: "i \<le> j \<Longrightarrow> j \<le> length b \<Longrightarrow> byte_slice b i j = Returns (take (j - i) (drop i b))"
  by (simp add: byte_slice_def)

lemma be_at_ok [simp]: "i + n \<le> length b \<Longrightarrow> be_at b i n = Returns (be_nat (take n (drop i b)))"
  by (simp add: be_at_def big_endian_def)

lemma be_nat_Nil [simp]: "be_nat [] = 0"
  by (simp add: be_nat_def)

lemma be_nat_snoc: "be_nat (xs @ [x]) = 256 * be_nat xs + unat x"
  by (simp add: be_nat_def)

lemma be_nat_append: "be_nat (xs @ ys) = be_nat xs * 256 ^ length ys + be_nat ys"
proof (induction ys rule: rev_induct)
  case (snoc y ys)
  have "be_nat ((xs @ ys) @ [y]) = 256 * be_nat (xs @ ys) + unat y" by (rule be_nat_snoc)
  with snoc show ?case by (simp add: be_nat_snoc algebra_simps)
qed simp

lemma be_nat_Cons: "be_nat (x # xs) = unat x * 256 ^ length xs + be_nat xs"
  using be_nat_append [of "[x]" xs] by (simp add: be_nat_def)

lemma be_nat_less: "be_nat xs < 256 ^ length xs"
proof (induction xs rule: rev_induct)
  case (snoc x xs)
  have "unat x < 256" using unsigned_less [of x] by simp
  with snoc show ?case by (simp add: be_nat_snoc)
qed simp

lemma length_be_bytes [simp]: "length (be_bytes n v) = n"
  by (induction n) simp_all

lemma be_nat_bytes: "be_nat (be_bytes n v) = v mod 256 ^ n"
proof (induction n)
  case (Suc n)
  have "unat (of_nat (v div 256 ^ n) :: uint8) = v div 256 ^ n mod 256" by (simp add: unat_of_nat)
  with Suc show ?case
    using mod_mult2_eq [of v "256 ^ n" 256] by (simp add: be_nat_Cons mult.commute)
qed simp

lemma be_16 [simp]: "be_nat (be_bytes 2 (unat (x :: uint16))) = unat x"
proof -
  have "unat x < 2 ^ LENGTH(16)" by (rule unsigned_less)
  then show ?thesis by (simp add: be_nat_bytes)
qed

section \<open>Hexadecimal and decimal text\<close>

definition hex_lower :: gostring where
  "hex_lower = ''0123456789abcdef''"

definition hex_upper :: gostring where
  "hex_upper = ''0123456789ABCDEF''"

text \<open>\<open>hex.EncodeToString\<close>.\<close>

definition EncodeToString :: "bytes \<Rightarrow> gostring" where
  "EncodeToString b = concat (map (\<lambda>x. [hex_lower ! (unat x div 16), hex_lower ! (unat x mod 16)]) b)"

text \<open>\<open>%02X\<close> of a byte.\<close>

definition fmt_02X :: "uint8 \<Rightarrow> gostring" where
  "fmt_02X x = [hex_upper ! (unat x div 16), hex_upper ! (unat x mod 16)]"

text \<open>A byte slice as a string, and back.\<close>

definition text_of :: "bytes \<Rightarrow> gostring" where
  "text_of b = map (\<lambda>x. char_of (unat x)) b"

definition bytes_of :: "gostring \<Rightarrow> bytes" where
  "bytes_of s = map (\<lambda>c. of_nat (of_char c)) s"

lemma length_EncodeToString [simp]: "length (EncodeToString b) = 2 * length b"
  by (induction b) (simp_all add: EncodeToString_def)

lemma length_bytes_of [simp]: "length (bytes_of s) = length s"
  by (simp add: bytes_of_def)

lemma text_bytes_of [simp]: "text_of (bytes_of s) = s"
proof -
  have "char_of (unat (of_nat (of_char c) :: uint8)) = c" for c :: char
  proof -
    have "(of_char c :: nat) < 256" by simp
    then have "unat (of_nat (of_char c) :: uint8) = of_char c" by (simp add: unat_of_nat)
    then show ?thesis by simp
  qed
  then show ?thesis by (simp add: text_of_def bytes_of_def o_def)
qed

section \<open>Dates\<close>

definition leap :: "int \<Rightarrow> bool" where
  "leap y \<longleftrightarrow> y mod 4 = 0 \<and> (y mod 100 \<noteq> 0 \<or> y mod 400 = 0)"

text \<open>Days from 1 January of year 1 to 1 January of a year, and to the first of a month in it.\<close>

definition days_to_year :: "int \<Rightarrow> int" where
  "days_to_year y = 365 * (y - 1) + (y - 1) div 4 - (y - 1) div 100 + (y - 1) div 400"

definition days_to_month :: "int \<Rightarrow> nat \<Rightarrow> int" where
  "days_to_month y m = [0, 31, 59, 90, 120, 151, 181, 212, 243, 273, 304, 334] ! m
     + (if 2 \<le> m \<and> leap y then 1 else 0)"

text \<open>
  \<open>time.Date\<close> in UTC: months carry into years; days, hours, minutes and seconds outside their
  range carry linearly.
\<close>

definition time_Date :: "int \<Rightarrow> int \<Rightarrow> int \<Rightarrow> int \<Rightarrow> int \<Rightarrow> int \<Rightarrow> int \<Rightarrow> gotime" where
  "time_Date year month day hour minute sec nsec =
     (let y = year + (month - 1) div 12; m = nat ((month - 1) mod 12);
          days = days_to_year y + days_to_month y m + (day - 1)
      in (((days * 24 + hour) * 60 + minute) * 60 + sec) * 10 ^ 9 + nsec)"

definition unix_epoch :: gotime where
  "unix_epoch = 62135596800 * 10 ^ 9"

definition UnixMilli :: "int \<Rightarrow> gotime" where
  "UnixMilli ms = unix_epoch + ms * 10 ^ 6"

definition to_UnixMilli :: "gotime \<Rightarrow> int" where
  "to_UnixMilli t = (t - unix_epoch) div 10 ^ 6"

lemma epoch_date: "time_Date 1970 1 1 0 0 0 0 = unix_epoch" "time_Date 1 1 1 0 0 0 0 = 0"
  by (simp_all add: time_Date_def days_to_year_def days_to_month_def leap_def unix_epoch_def)

section \<open>Checksums\<close>

text \<open>
  A checksum folds an update over the bytes. When the update loses no information about state or
  byte, changing one byte of a message always changes the result.
\<close>

locale byte_checksum =
  fixes update :: "'s \<Rightarrow> uint8 \<Rightarrow> 's"
  assumes state_inj: "update c b = update c' b \<Longrightarrow> c = c'"
    and byte_inj: "update c b = update c b' \<Longrightarrow> b = b'"
begin

lemma run_inj: "foldl update c ys = foldl update c' ys \<Longrightarrow> c = c'"
  by (induction ys arbitrary: c c') (auto dest: state_inj)

lemma one_byte: "foldl update s (xs @ b # ys) = foldl update s (xs @ b' # ys) \<longleftrightarrow> b = b'"
  by (auto dest!: run_inj byte_inj)

end

text \<open>One bit of a reflected 16-bit CRC, and one byte.\<close>

definition crc_bit :: "uint16 \<Rightarrow> uint16 \<Rightarrow> uint16" where
  "crc_bit poly crc = (if crc AND 0x0001 \<noteq> 0 then drop_bit 1 crc XOR poly else drop_bit 1 crc)"

definition crc_byte :: "uint16 \<Rightarrow> uint16 \<Rightarrow> uint8 \<Rightarrow> uint16" where
  "crc_byte poly crc b = (crc_bit poly ^^ 8) (crc XOR ucast b)"

lemma and_1_bit: "(c :: uint16) AND 1 \<noteq> 0 \<longleftrightarrow> bit c 0"
  by (simp add: and_one_eq bit_0 even_iff_mod_2_eq_zero odd_iff_mod_2_eq_one)

lemma crc_bit_inj:
  assumes "bit poly 15" and eq: "crc_bit poly c = crc_bit poly d"
  shows "c = d"
proof (rule bit_word_eqI)
  have top: "bit (crc_bit poly x) 15 \<longleftrightarrow> bit x 0" for x :: uint16
    using assms(1) by (auto simp: crc_bit_def and_1_bit bit_simps dest: bit_imp_le_length)
  then have low: "bit c 0 = bit d 0" using eq by metis
  have half: "drop_bit 1 x = (if bit x 0 then crc_bit poly x XOR poly else crc_bit poly x)" for x :: uint16
    by (simp add: crc_bit_def and_1_bit xor.assoc)
  have rest: "drop_bit 1 c = drop_bit 1 d" using low eq half [of c] half [of d] by (simp only:)
  fix n
  assume "n < LENGTH(16)"
  show "bit c n = bit d n"
  proof (cases n)
    case 0
    then show ?thesis using low by simp
  next
    case (Suc m)
    have "bit (drop_bit 1 c) m = bit (drop_bit 1 d) m" using rest by simp
    then show ?thesis by (simp add: Suc bit_simps)
  qed
qed

lemma crc_checksum: "bit poly 15 \<Longrightarrow> byte_checksum (crc_byte poly)"
proof
  assume top: "bit poly 15"
  have inj: "inj (crc_bit poly ^^ n)" for n
    by (rule inj_fn) (auto intro!: injI crc_bit_inj [OF top])
  fix c c' :: uint16 and b b' :: uint8
  show "c = c'" if "crc_byte poly c b = crc_byte poly c' b"
  proof -
    have "c XOR ucast b = c' XOR ucast b" using injD [OF inj] that unfolding crc_byte_def by blast
    then have "(c XOR ucast b) XOR ucast b = (c' XOR ucast b) XOR ucast b" by simp
    then show ?thesis by (simp add: xor.assoc)
  qed
  show "b = b'" if "crc_byte poly c b = crc_byte poly c b'"
  proof -
    have "c XOR ucast b = c XOR ucast b'" using injD [OF inj] that unfolding crc_byte_def by blast
    then have "c XOR (c XOR ucast b) = c XOR (c XOR ucast b')" by simp
    then have "(ucast b :: uint16) = ucast b'" by (simp add: xor.assoc [symmetric])
    then have bits: "bit (ucast b :: uint16) n = bit (ucast b' :: uint16) n" for n by simp
    show ?thesis
    proof (rule bit_word_eqI)
      fix n
      assume "n < LENGTH(8)"
      then show "bit b n = bit b' n" using bits [of n] by (simp add: bit_ucast_iff)
    qed
  qed
qed

end
