(* ===== verification/GoText.thy ===== *)
theory GoText
  imports GoBytes
begin

text \<open>
  The functions of packages \<open>strings\<close> and \<open>strconv\<close> the text decoders use, on strings as their
  bytes. A parser of numbers returns the value its caller sees when it ignores the error: zero
  after a syntax error, the nearest bound or an infinity when the value is out of range.
\<close>

section \<open>Package strings\<close>

definition lower_char :: "char \<Rightarrow> char" where
  "lower_char c = (let n = of_char c :: nat in if 65 \<le> n \<and> n \<le> 90 then char_of (n + 32) else c)"

text \<open>White space: the ASCII characters, and the others of Unicode by their UTF-8 encodings.\<close>

definition white_space :: "gostring list" where
  "white_space = map (\<lambda>n :: nat. [char_of n]) [9, 10, 11, 12, 13, 32]
     @ map (map (char_of :: nat \<Rightarrow> char))
         ([[0xC2, 0x85], [0xC2, 0xA0], [0xE1, 0x9A, 0x80], [0xE2, 0x80, 0xA8], [0xE2, 0x80, 0xA9],
           [0xE2, 0x80, 0xAF], [0xE2, 0x81, 0x9F], [0xE3, 0x80, 0x80]]
          @ map (\<lambda>n. [0xE2, 0x80, n]) [0x80, 0x81, 0x82, 0x83, 0x84, 0x85, 0x86, 0x87, 0x88, 0x89, 0x8A])"

definition starts_with :: "gostring \<Rightarrow> gostring \<Rightarrow> bool" where
  "starts_with p s \<longleftrightarrow> take (length p) s = p"

function trim_left :: "gostring list \<Rightarrow> gostring \<Rightarrow> gostring" where
  "trim_left ws s =
     (case find (\<lambda>w. w \<noteq> [] \<and> s \<noteq> [] \<and> starts_with w s) ws of
        None \<Rightarrow> s
      | Some w \<Rightarrow> trim_left ws (drop (length w) s))"
  by pat_completeness auto

termination
  by (relation "measure (length \<circ> snd)") (auto simp: find_Some_iff)

declare trim_left.simps [simp del]

definition TrimSpace :: "gostring \<Rightarrow> gostring" where
  "TrimSpace s = rev (trim_left (map rev white_space) (rev (trim_left white_space s)))"

text \<open>\<open>strings.EqualFold\<close> against capitals: case-insensitive, and the long s folds to \<open>S\<close>.\<close>

fun fold_caps :: "gostring \<Rightarrow> gostring \<Rightarrow> bool" where
  "fold_caps s [] \<longleftrightarrow> s = []"
| "fold_caps s (t # ts) \<longleftrightarrow>
     (case s of
        [] \<Rightarrow> False
      | c # cs \<Rightarrow>
          if t = CHR ''S'' \<and> take 2 s = map char_of [0xC5 :: nat, 0xBF] then fold_caps (drop 2 s) ts
          else lower_char c = lower_char t \<and> fold_caps cs ts)"

text \<open>\<open>strings.Split\<close> on one byte.\<close>

fun Split :: "char \<Rightarrow> gostring \<Rightarrow> gostring list" where
  "Split sep [] = [[]]"
| "Split sep (c # cs) =
     (if c = sep then [] # Split sep cs
      else case Split sep cs of p # ps \<Rightarrow> (c # p) # ps | [] \<Rightarrow> [[c]])"

lemma Split_nonempty [simp]: "Split sep s \<noteq> []"
  by (cases s) (auto split: list.splits)

section \<open>Package strconv\<close>

definition dec_digit :: "char \<Rightarrow> nat option" where
  "dec_digit c = (let n = of_char c :: nat in if 48 \<le> n \<and> n \<le> 57 then Some (n - 48) else None)"

definition hex_digit :: "char \<Rightarrow> nat option" where
  "hex_digit c =
     (case dec_digit c of
        Some d \<Rightarrow> Some d
      | None \<Rightarrow> let n = of_char (lower_char c) :: nat in if 97 \<le> n \<and> n \<le> 102 then Some (n - 87) else None)"

text \<open>\<open>strconv.ParseUint(s, 16, 8)\<close>, \<open>None\<close> for every error.\<close>

fun hex_loop :: "nat \<Rightarrow> gostring \<Rightarrow> nat option" where
  "hex_loop n [] = Some n"
| "hex_loop n (c # cs) =
     (case hex_digit c of
        None \<Rightarrow> None
      | Some d \<Rightarrow> if 255 < 16 * n + d then None else hex_loop (16 * n + d) cs)"

definition ParseUint_16_8 :: "gostring \<Rightarrow> uint8 option" where
  "ParseUint_16_8 s = (if s = '''' then None else map_option of_nat (hex_loop 0 s))"

definition take_sign :: "gostring \<Rightarrow> bool \<times> gostring" where
  "take_sign s = (case s of [] \<Rightarrow> (False, []) | c # cs \<Rightarrow>
     if c = CHR ''-'' then (True, cs) else if c = CHR ''+'' then (False, cs) else (False, s))"

text \<open>\<open>strconv.Atoi\<close>: the first overflow of 64 bits ends the scan with the nearest bound.\<close>

fun dec_loop :: "nat \<Rightarrow> gostring \<Rightarrow> nat option" where
  "dec_loop n [] = Some n"
| "dec_loop n (c # cs) =
     (case dec_digit c of
        None \<Rightarrow> None
      | Some d \<Rightarrow> if 2 ^ 64 \<le> 10 * n + d then Some (2 ^ 64 - 1) else dec_loop (10 * n + d) cs)"

definition Atoi :: "gostring \<Rightarrow> int" where
  "Atoi s =
     (case take_sign s of (neg, r) \<Rightarrow>
        (case (if r = [] then None else dec_loop 0 r) of
           None \<Rightarrow> 0
         | Some n \<Rightarrow> if neg then - int (min n (2 ^ 63)) else int (min n (2 ^ 63 - 1))))"

text \<open>
  \<open>strconv.ParseFloat(s, 64)\<close>. The mantissa loop takes digits, underscores and one point; it
  returns whether a digit was seen, the digits' value, how many of them follow the point, and the
  rest.
\<close>

fun mant_loop :: "bool \<Rightarrow> bool \<Rightarrow> bool \<Rightarrow> nat \<Rightarrow> nat \<Rightarrow> gostring \<Rightarrow> bool \<times> nat \<times> nat \<times> gostring" where
  "mant_loop hex dot saw m k [] = (saw, m, k, [])"
| "mant_loop hex dot saw m k (c # cs) =
     (if c = CHR ''_'' then mant_loop hex dot saw m k cs
      else if c = CHR ''.'' then (if dot then (saw, m, k, c # cs) else mant_loop hex True saw m k cs)
      else case (if hex then hex_digit c else dec_digit c) of
             None \<Rightarrow> (saw, m, k, c # cs)
           | Some d \<Rightarrow> mant_loop hex dot True ((if hex then 16 else 10) * m + d) (if dot then Suc k else k) cs)"

text \<open>Exponent digits; the value stops growing at \<open>10000\<close>.\<close>

fun exp_loop :: "nat \<Rightarrow> gostring \<Rightarrow> nat \<times> gostring" where
  "exp_loop e [] = (e, [])"
| "exp_loop e (c # cs) =
     (if c = CHR ''_'' then exp_loop e cs
      else case dec_digit c of
             None \<Rightarrow> (e, c # cs)
           | Some d \<Rightarrow> exp_loop (if e < 10000 then 10 * e + d else e) cs)"

definition read_exponent :: "gostring \<Rightarrow> int option" where
  "read_exponent s =
     (case take_sign s of (neg, r) \<Rightarrow>
        (case r of
           [] \<Rightarrow> None
         | c # cs \<Rightarrow>
             if dec_digit c = None then None
             else case exp_loop 0 r of (e, rest) \<Rightarrow>
                    if rest \<noteq> [] then None else Some (if neg then - int e else int e)))"

text \<open>\<open>underscoreOK\<close>: an underscore stands between digits, or after a base prefix.\<close>

fun underscores_fine :: "bool \<Rightarrow> char \<Rightarrow> gostring \<Rightarrow> bool" where
  "underscores_fine hex p [] \<longleftrightarrow> p \<noteq> CHR ''_''"
| "underscores_fine hex p (c # cs) \<longleftrightarrow>
     (if dec_digit c \<noteq> None \<or> hex \<and> hex_digit c \<noteq> None then underscores_fine hex CHR ''0'' cs
      else if c = CHR ''_'' then p = CHR ''0'' \<and> underscores_fine hex CHR ''_'' cs
      else p \<noteq> CHR ''_'' \<and> underscores_fine hex CHR ''!'' cs)"

definition underscoreOK :: "gostring \<Rightarrow> bool" where
  "underscoreOK r =
     (if starts_with ''0'' r \<and> 2 \<le> length r \<and> lower_char (r ! 1) \<in> set ''box''
      then underscores_fine (lower_char (r ! 1) = CHR ''x'') CHR ''0'' (drop 2 r)
      else underscores_fine False CHR ''^'' r)"

definition read_number :: "bool \<Rightarrow> gostring \<Rightarrow> rat option" where
  "read_number hex r =
     (case mant_loop hex False False 0 0 r of (saw, m, k, rest) \<Rightarrow>
        if \<not> saw then None
        else case rest of
          [] \<Rightarrow> if hex then None else Some (of_nat m / 10 ^ k)
        | c # cs \<Rightarrow>
            if lower_char c \<noteq> (if hex then CHR ''p'' else CHR ''e'') then None
            else map_option (\<lambda>e. if hex then of_nat m / 16 ^ k * 2 powi e else of_nat m / 10 ^ k * 10 powi e)
                   (read_exponent cs))"

definition ParseFloat :: "gostring \<Rightarrow> float64" where
  "ParseFloat s =
     (case take_sign s of (neg, r) \<Rightarrow>
        let low = map lower_char r;
            hex = (2 < length r \<and> starts_with ''0x'' low)
        in if low = ''inf'' \<or> low = ''infinity'' then Inf neg
           else if map lower_char s = ''nan'' then NaN
           else if CHR ''_'' \<in> set r \<and> \<not> underscoreOK r then Fin 0
           else case read_number hex (if hex then drop 2 r else r) of
                  None \<Rightarrow> Fin 0
                | Some q \<Rightarrow> if neg then - fl q else fl q)"

lemma number_texts:
  "ParseFloat ''-2.5e1'' = - fl 25" "ParseFloat ''1_0.5'' = fl (105 / 10)" "ParseFloat ''1__0'' = Fin 0"
  "ParseFloat ''12N'' = Fin 0" "ParseFloat '''' = Fin 0" "ParseFloat ''NaN'' = NaN" "ParseFloat ''-Inf'' = Inf True"
  by (simp_all add: ParseFloat_def take_sign_def lower_char_def read_number_def dec_digit_def
      read_exponent_def underscoreOK_def starts_with_def Let_def char_of_def bit_0)

lemma integer_texts:
  "Atoi ''12'' = 12" "Atoi ''-7'' = - 7" "Atoi ''x'' = 0" "Atoi '''' = 0"
  "Atoi ''99999999999999999999x'' = 2 ^ 63 - 1" "ParseUint_16_8 ''4c'' = Some 0x4C" "ParseUint_16_8 ''100'' = None"
  by (simp_all add: Atoi_def take_sign_def dec_digit_def hex_digit_def lower_char_def ParseUint_16_8_def Let_def char_of_def bit_0)

end
