(* ===== verification/Effects.thy ===== *)
theory Effects
  imports Prelude "HOL-Library.Sublist"
begin

text \<open>
  Code that talks to the database. An action maps the world to a result, an error or a value, and
  the world it leaves: the database and a counter of the calls made so far. The environment says
  what each call to the outside gives: the time, a fresh identifier, or the failure of a database
  call. Nothing is assumed about when calls fail, so a theorem for all environments covers a
  failure at every point. With the actions come Hoare triples over both exits.
\<close>

section \<open>Errors\<close>

text \<open>
  \<open>errors.New\<close> and driver errors, errors wrapped by \<open>fmt.Errorf\<close> with \<open>%w\<close> (the text before the
  wrapped error is kept), and package-level error values compared by identity with \<open>errors.Is\<close>.
\<close>

datatype goerr = ErrMsg gostring | ErrWrap gostring goerr | ErrSentinel gostring

fun err_text :: "goerr \<Rightarrow> gostring" where
  "err_text (ErrMsg s) = s"
| "err_text (ErrWrap p e) = p @ err_text e"
| "err_text (ErrSentinel s) = s"

fun errors_Is :: "goerr \<Rightarrow> gostring \<Rightarrow> bool" where
  "errors_Is (ErrMsg s) t \<longleftrightarrow> False"
| "errors_Is (ErrWrap p e) t \<longleftrightarrow> errors_Is e t"
| "errors_Is (ErrSentinel s) t \<longleftrightarrow> s = t"

section \<open>Actions\<close>

record env =
  now_at :: "nat \<Rightarrow> gotime"
  uuid_at :: "nat \<Rightarrow> gostring"
  db_fails :: "nat \<Rightarrow> gostring option"

record 'd world =
  db :: 'd
  tick :: nat

type_synonym ('d, 'a) act = "'d world \<Rightarrow> (goerr + 'a) \<times> 'd world"

definition ret :: "'a \<Rightarrow> ('d, 'a) act" where
  "ret x w = (Inr x, w)"

definition fail :: "goerr \<Rightarrow> ('d, 'a) act" where
  "fail e w = (Inl e, w)"

text \<open>\<open>x, err := m; if err != nil { return err }; f(x)\<close>.\<close>

definition andThen :: "('d, 'a) act \<Rightarrow> ('a \<Rightarrow> ('d, 'b) act) \<Rightarrow> ('d, 'b) act" where
  "andThen m f w = (case m w of (Inl e, w') \<Rightarrow> (Inl e, w') | (Inr x, w') \<Rightarrow> f x w')"

text \<open>\<open>x, err := m\<close> where the code goes on with the error in its hands.\<close>

definition attempt :: "('d, 'a) act \<Rightarrow> ('d, goerr + 'a) act" where
  "attempt m w = (case m w of (r, w') \<Rightarrow> (Inr r, w'))"

definition wrap :: "gostring \<Rightarrow> ('d, 'a) act \<Rightarrow> ('d, 'a) act" where
  "wrap s m w = (case m w of (Inl e, w') \<Rightarrow> (Inl (ErrWrap s e), w') | (Inr x, w') \<Rightarrow> (Inr x, w'))"

definition clock :: "env \<Rightarrow> ('d, gotime) act" where
  "clock e w = (Inr (now_at e (tick w)), w\<lparr>tick := Suc (tick w)\<rparr>)"

definition new_uuid :: "env \<Rightarrow> ('d, gostring) act" where
  "new_uuid e w = (Inr (uuid_at e (tick w)), w\<lparr>tick := Suc (tick w)\<rparr>)"

text \<open>One statement: it fails from outside, or runs and fails by itself or changes the database.\<close>

definition exec_stmt :: "env \<Rightarrow> ('d \<Rightarrow> goerr + 'd) \<Rightarrow> ('d, unit) act" where
  "exec_stmt e f w =
     (let w1 = w\<lparr>tick := Suc (tick w)\<rparr> in
      case db_fails e (tick w) of
        Some msg \<Rightarrow> (Inl (ErrMsg msg), w1)
      | None \<Rightarrow> (case f (db w) of Inl err \<Rightarrow> (Inl err, w1) | Inr d \<Rightarrow> (Inr (), w1\<lparr>db := d\<rparr>)))"

definition query :: "env \<Rightarrow> ('d \<Rightarrow> 'a) \<Rightarrow> ('d, 'a) act" where
  "query e f w =
     (let w1 = w\<lparr>tick := Suc (tick w)\<rparr> in
      case db_fails e (tick w) of
        Some msg \<Rightarrow> (Inl (ErrMsg msg), w1)
      | None \<Rightarrow> (Inr (f (db w)), w1))"

text \<open>
  A transaction around \<open>fn\<close>, which is told that it runs inside one: begin, the body, then commit,
  or roll back to the database before the body on an error of the body or of the commit. Inside a
  transaction the body joins the one that is open.
\<close>

definition with_tx :: "env \<Rightarrow> bool \<Rightarrow> (bool \<Rightarrow> ('d, 'a) act) \<Rightarrow> ('d, 'a) act" where
  "with_tx e tx fn w =
     (if tx then fn True w
      else (case query e (\<lambda>_. ()) w of
          (Inl err, w1) \<Rightarrow> (Inl err, w1)
        | (Inr _, w1) \<Rightarrow>
            (case fn True w1 of
               (Inl err, w2) \<Rightarrow> (Inl err, w2\<lparr>db := db w\<rparr>)
             | (Inr x, w2) \<Rightarrow>
                 (case query e (\<lambda>_. ()) w2 of
                    (Inl err, w3) \<Rightarrow> (Inl err, w3\<lparr>db := db w\<rparr>)
                  | (Inr _, w3) \<Rightarrow> (Inr x, w3)))))"

text \<open>\<open>for _, x := range xs { if err := f(x); err != nil { return err } }\<close>.\<close>

fun for_each :: "('b \<Rightarrow> ('d, unit) act) \<Rightarrow> 'b list \<Rightarrow> ('d, unit) act" where
  "for_each f [] = ret ()"
| "for_each f (x # xs) = andThen (f x) (\<lambda>_. for_each f xs)"

section \<open>Reasoning about actions\<close>

text \<open>What an exit of a composed action says about its parts.\<close>

lemma ret_eq [simp]: "ret x w = (r, w') \<longleftrightarrow> r = Inr x \<and> w' = w"
  by (auto simp: ret_def)

lemma fail_eq [simp]: "fail e w = (r, w') \<longleftrightarrow> r = Inl e \<and> w' = w"
  by (auto simp: fail_def)

lemma andThen_ok:
  "andThen m f w = (Inr y, w') \<longleftrightarrow> (\<exists>x w1. m w = (Inr x, w1) \<and> f x w1 = (Inr y, w'))"
  by (auto simp: andThen_def split: prod.splits sum.splits)

lemma andThen_err:
  "andThen m f w = (Inl e, w') \<longleftrightarrow>
     m w = (Inl e, w') \<or> (\<exists>x w1. m w = (Inr x, w1) \<and> f x w1 = (Inl e, w'))"
  by (auto simp: andThen_def split: prod.splits sum.splits)

lemma attempt_eq [simp]: "attempt m w = (r, w') \<longleftrightarrow> (\<exists>x. r = Inr x \<and> m w = (x, w'))"
  by (auto simp: attempt_def split: prod.splits)

lemma wrap_ok [simp]: "wrap s m w = (Inr x, w') \<longleftrightarrow> m w = (Inr x, w')"
  by (auto simp: wrap_def split: prod.splits sum.splits)

lemma wrap_err: "wrap s m w = (Inl e, w') \<longleftrightarrow> (\<exists>e0. e = ErrWrap s e0 \<and> m w = (Inl e0, w'))"
  by (auto simp: wrap_def split: prod.splits sum.splits)

lemma clock_eq [simp]:
  "clock e w = (r, w') \<longleftrightarrow> r = Inr (now_at e (tick w)) \<and> w' = w\<lparr>tick := Suc (tick w)\<rparr>"
  by (auto simp: clock_def)

lemma new_uuid_eq [simp]:
  "new_uuid e w = (r, w') \<longleftrightarrow> r = Inr (uuid_at e (tick w)) \<and> w' = w\<lparr>tick := Suc (tick w)\<rparr>"
  by (auto simp: new_uuid_def)

text \<open>Steps that always succeed are run by the simplifier.\<close>

lemma andThen_steps [simp]:
  "andThen (ret x) k w = k x w"
  "andThen (fail err) h w = (Inl err, w)"
  "andThen (clock e) f w = f (now_at e (tick w)) (w\<lparr>tick := Suc (tick w)\<rparr>)"
  "andThen (new_uuid e) g w = g (uuid_at e (tick w)) (w\<lparr>tick := Suc (tick w)\<rparr>)"
  by (simp_all add: andThen_def ret_def fail_def clock_def new_uuid_def)

lemma andThen_attempt: "andThen (attempt m) f w = f (fst (m w)) (snd (m w))"
  by (auto simp: andThen_def attempt_def split: prod.split)

lemma query_ok:
  "query e f w = (Inr x, w') \<longleftrightarrow>
     db_fails e (tick w) = None \<and> x = f (db w) \<and> w' = w\<lparr>tick := Suc (tick w)\<rparr>"
  by (auto simp: query_def Let_def split: option.splits)

lemma exec_stmt_ok:
  "exec_stmt e f w = (Inr x, w') \<longleftrightarrow>
     db_fails e (tick w) = None
     \<and> (\<exists>d. f (db w) = Inr d \<and> w' = w\<lparr>tick := Suc (tick w), db := d\<rparr>)"
  by (auto simp: exec_stmt_def Let_def split: option.splits sum.splits)

text \<open>
  \<open>m\<close> only reads: it leaves the database and lets time pass. \<open>atomic m\<close>: where it fails it leaves the
  database.
\<close>

definition same :: "'d world \<Rightarrow> 'd world \<Rightarrow> bool" where
  "same w w' \<longleftrightarrow> db w' = db w \<and> tick w \<le> tick w'"

definition reads :: "('d, 'a) act \<Rightarrow> bool" where
  "reads m \<longleftrightarrow> (\<forall>w r w'. m w = (r, w') \<longrightarrow> same w w')"

definition atomic :: "('d, 'a) act \<Rightarrow> bool" where
  "atomic m \<longleftrightarrow> (\<forall>w err w'. m w = (Inl err, w') \<longrightarrow> same w w')"

lemma same_refl [simp]: "same w w"
  by (simp add: same_def)

lemma same_trans [trans]: "same w w1 \<Longrightarrow> same w1 w2 \<Longrightarrow> same w w2"
  by (auto simp: same_def)

lemma same_Suc [simp]: "same w (w\<lparr>tick := Suc (tick w)\<rparr>)"
  by (simp add: same_def)

lemma readsD: "reads m \<Longrightarrow> m w = (r, w') \<Longrightarrow> same w w'"
  by (auto simp: reads_def)

lemma atomicD: "atomic m \<Longrightarrow> m w = (Inl err, w') \<Longrightarrow> same w w'"
  by (auto simp: atomic_def)

named_theorems reading "actions that only read"

lemma reads_ret [reading]: "reads (ret x)" by (simp add: reads_def)

lemma reads_fail [reading]: "reads (fail err)" by (simp add: reads_def)

lemma reads_clock [reading]: "reads (clock e)" by (simp add: reads_def)

lemma reads_new_uuid [reading]: "reads (new_uuid e)" by (simp add: reads_def)

lemma reads_query [reading]: "reads (query e f)"
  by (auto simp: reads_def query_def Let_def split: option.splits)

lemma reads_attempt [reading]: "reads m \<Longrightarrow> reads (attempt m)"
  by (auto simp: reads_def)

lemma reads_wrap [reading]: "reads m \<Longrightarrow> reads (wrap s m)"
  unfolding reads_def wrap_def by (auto split: prod.splits sum.splits)

lemma andThen_cases:
  assumes "andThen m f w = (r, w')"
  obtains err where "m w = (Inl err, w')" and "r = Inl err"
  | x w1 where "m w = (Inr x, w1)" and "f x w1 = (r, w')"
  using assms by (auto simp: andThen_def split: prod.splits sum.splits)

lemma reads_andThen [reading]:
  assumes "reads m" and "\<And>x. reads (f x)"
  shows "reads (andThen m f)"
  unfolding reads_def
proof (intro allI impI)
  fix w r w'
  assume "andThen m f w = (r, w')"
  then show "same w w'"
    by (rule andThen_cases) (use assms in \<open>blast dest: readsD intro: same_trans\<close>)+
qed

lemma reads_if [reading]: "reads m \<Longrightarrow> reads n \<Longrightarrow> reads (if b then m else n)"
  by simp

lemma reads_option [reading]:
  "reads m \<Longrightarrow> (\<And>x. reads (f x)) \<Longrightarrow> reads (case z of None \<Rightarrow> m | Some x \<Rightarrow> f x)"
  by (cases z) simp_all

lemma reads_sum [reading]:
  "(\<And>x. reads (g x)) \<Longrightarrow> (\<And>x. reads (f x)) \<Longrightarrow> reads (case z of Inl x \<Rightarrow> g x | Inr x \<Rightarrow> f x)"
  by (cases z) simp_all

lemma atomic_reads: "reads m \<Longrightarrow> atomic m"
  by (auto simp: reads_def atomic_def)

lemma atomic_andThen: "reads m \<Longrightarrow> (\<And>x. atomic (f x)) \<Longrightarrow> atomic (andThen m f)"
  unfolding atomic_def andThen_err by (blast dest: readsD intro: same_trans)

lemma atomic_exec_stmt: "atomic (exec_stmt e f)"
  by (auto simp: atomic_def exec_stmt_def Let_def split: option.splits sum.splits)

lemma atomic_wrap: "atomic m \<Longrightarrow> atomic (wrap s m)"
  by (auto simp: atomic_def wrap_err)

text \<open>
  A failed transaction leaves the database as it found it; the body of a successful one ran on
  that database, and what it left is there afterwards.
\<close>

definition moves_on :: "('d, 'a) act \<Rightarrow> bool" where
  "moves_on m \<longleftrightarrow> (\<forall>w r w'. m w = (r, w') \<longrightarrow> tick w \<le> tick w')"

lemma with_tx_cases:
  assumes "with_tx e False fn w = (r, w')" and "moves_on (fn True)"
  shows "tick w \<le> tick w' \<and> (\<forall>err. r = Inl err \<longrightarrow> db w' = db w)"
proof (cases "db_fails e (tick w)")
  case None
  obtain r2 w2 where f: "fn True (w\<lparr>tick := Suc (tick w)\<rparr>) = (r2, w2)" by (cases "fn True (w\<lparr>tick := Suc (tick w)\<rparr>)")
  then have "Suc (tick w) \<le> tick w2" using assms(2) unfolding moves_on_def by fastforce
  then show ?thesis
    using assms(1) f None
    by (cases r2; cases "db_fails e (tick w2)") (auto simp: with_tx_def query_def Let_def)
next
  case (Some msg)
  then show ?thesis using assms(1) by (auto simp: with_tx_def query_def Let_def)
qed

lemma atomic_with_tx: "moves_on (fn True) \<Longrightarrow> atomic (with_tx e False fn)"
  unfolding atomic_def same_def using with_tx_cases by blast

lemma with_tx_ok:
  assumes "with_tx e False fn w = (Inr x, w')"
  obtains w1 w2 where "same w w1" and "fn True w1 = (Inr x, w2)" and "same w2 w'"
proof -
  from assms obtain w2 where "fn True (w\<lparr>tick := Suc (tick w)\<rparr>) = (Inr x, w2)"
      and "w' = w2\<lparr>tick := Suc (tick w2)\<rparr>"
    unfolding with_tx_def query_def Let_def by (auto split: option.splits prod.splits sum.splits)
  then show ?thesis using that [of "w\<lparr>tick := Suc (tick w)\<rparr>" w2] by simp
qed

named_theorems moving "actions along which time does not go back"

lemma moves_on_reads: "reads m \<Longrightarrow> moves_on m"
  by (auto simp: reads_def moves_on_def same_def)

lemmas [moving] = reading [THEN moves_on_reads]

lemma moves_on_andThen [moving]: "moves_on m \<Longrightarrow> (\<And>x. moves_on (f x)) \<Longrightarrow> moves_on (andThen m f)"
  unfolding moves_on_def andThen_def by (fastforce split: prod.splits sum.splits)

lemma moves_on_attempt [moving]: "moves_on m \<Longrightarrow> moves_on (attempt m)"
  by (auto simp: moves_on_def)

lemma moves_on_wrap [moving]: "moves_on m \<Longrightarrow> moves_on (wrap s m)"
  unfolding moves_on_def wrap_def by (auto split: prod.splits sum.splits)

lemma moves_on_exec_stmt [moving]: "moves_on (exec_stmt e f)"
  by (auto simp: moves_on_def exec_stmt_def Let_def split: option.splits sum.splits)

lemma moves_on_if [moving]: "moves_on m \<Longrightarrow> moves_on n \<Longrightarrow> moves_on (if b then m else n)"
  by simp

lemma moves_on_option [moving]:
  "moves_on m \<Longrightarrow> (\<And>x. moves_on (f x)) \<Longrightarrow> moves_on (case z of None \<Rightarrow> m | Some x \<Rightarrow> f x)"
  by (cases z) simp_all

lemma moves_on_sum [moving]:
  "(\<And>x. moves_on (g x)) \<Longrightarrow> (\<And>x. moves_on (f x)) \<Longrightarrow>
   moves_on (case z of Inl x \<Rightarrow> g x | Inr x \<Rightarrow> f x)"
  by (cases z) simp_all

lemma moves_on_with_tx [moving]: "moves_on (fn True) \<Longrightarrow> moves_on (with_tx e tx fn)"
  by (cases tx) (auto simp: moves_on_def [of "with_tx e tx fn"] with_tx_def [where tx = True] moves_on_def
      dest!: with_tx_cases [OF _ iffD2 [OF moves_on_def]])

end
