(* ===== verification/Along.thy ===== *)
theory Along
  imports Effects
begin

text \<open>
  Preorders on databases: what holds between the database before and after every statement of an
  action holds across the action, and across a transaction. A component proves its invariants by
  giving the preorder once and going through its statements.
\<close>

section \<open>Statements that report the rows they affect\<close>

text \<open>A statement whose \<open>RowsAffected\<close> is read.\<close>

definition exec_count :: "env \<Rightarrow> ('d \<Rightarrow> goerr + nat \<times> 'd) \<Rightarrow> ('d, nat) act" where
  "exec_count e f w =
     (let w1 = w\<lparr>tick := Suc (tick w)\<rparr> in
      case db_fails e (tick w) of
        Some msg \<Rightarrow> (Inl (ErrMsg msg), w1)
      | None \<Rightarrow> (case f (db w) of Inl err \<Rightarrow> (Inl err, w1) | Inr (n, d) \<Rightarrow> (Inr n, w1\<lparr>db := d\<rparr>)))"

lemma moves_on_exec_count [moving]: "moves_on (exec_count e f)"
  by (auto simp: moves_on_def exec_count_def Let_def split: option.splits sum.splits prod.splits)

lemma exec_count_ok:
  "exec_count e f w = (Inr n, w') \<longleftrightarrow>
     db_fails e (tick w) = None
     \<and> (\<exists>d. f (db w) = Inr (n, d) \<and> w' = w\<lparr>tick := Suc (tick w), db := d\<rparr>)"
  by (auto simp: exec_count_def Let_def split: option.splits sum.splits prod.splits)

section \<open>How an action moves the database\<close>

text \<open>Whatever way \<open>m\<close> takes, it takes the database along the relation \<open>R\<close>.\<close>

definition along :: "('d \<Rightarrow> 'd \<Rightarrow> bool) \<Rightarrow> ('d, 'a) act \<Rightarrow> bool" where
  "along R m \<longleftrightarrow> (\<forall>w r w'. m w = (r, w') \<longrightarrow> R (db w) (db w'))"

named_theorems keeping "actions along a preorder"

lemma with_tx_err:
  assumes "with_tx e False fn w = (Inl err, w')"
  shows "db w' = db w"
proof -
  obtain r2 w2 where f: "fn True (w\<lparr>tick := Suc (tick w)\<rparr>) = (r2, w2)"
    by (cases "fn True (w\<lparr>tick := Suc (tick w)\<rparr>)")
  then show ?thesis
    using assms
    by (cases "db_fails e (tick w)"; cases r2; cases "db_fails e (tick w2)")
       (auto simp: with_tx_def query_def Let_def)
qed

locale db_preorder =
  fixes R :: "'d \<Rightarrow> 'd \<Rightarrow> bool"
  assumes R_refl: "R d d"
    and R_trans: "R d d' \<Longrightarrow> R d' d'' \<Longrightarrow> R d d''"
begin

lemma along_reads: "reads m \<Longrightarrow> along R m"
  unfolding along_def by (metis R_refl readsD same_def)

lemma along_andThen: "along R m \<Longrightarrow> (\<And>x. along R (f x)) \<Longrightarrow> along R (andThen m f)"
  unfolding along_def by (blast elim: andThen_cases intro: R_trans)

lemma along_wrap: "along R m \<Longrightarrow> along R (wrap s m)"
  unfolding along_def wrap_def by (auto split: prod.splits sum.splits)

lemma along_attempt: "along R m \<Longrightarrow> along R (attempt m)"
  by (auto simp: along_def)

lemma along_exec_stmt: "(\<And>d d'. f d = Inr d' \<Longrightarrow> R d d') \<Longrightarrow> along R (exec_stmt e f)"
  by (auto simp: along_def exec_stmt_def Let_def R_refl split: option.splits sum.splits)

lemma along_exec_count: "(\<And>d n d'. f d = Inr (n, d') \<Longrightarrow> R d d') \<Longrightarrow> along R (exec_count e f)"
  by (auto simp: along_def exec_count_def Let_def R_refl split: option.splits sum.splits)

lemma along_for_each: "(\<And>x. along R (f x)) \<Longrightarrow> along R (for_each f xs)"
  by (induction xs) (auto intro: along_andThen along_reads reads_ret)

lemma along_if: "along R m \<Longrightarrow> along R n \<Longrightarrow> along R (if b then m else n)"
  by simp

lemma along_option:
  "along R m \<Longrightarrow> (\<And>x. along R (f x)) \<Longrightarrow> along R (case z of None \<Rightarrow> m | Some x \<Rightarrow> f x)"
  by (cases z) simp_all

lemma along_tx:
  assumes "along R (fn True)" and "with_tx e False fn w = (r, w')"
  shows "R (db w) (db w')"
proof (cases r)
  case (Inr x)
  obtain w1 w2 where "same w w1" "fn True w1 = (Inr x, w2)" "same w2 w'"
    using with_tx_ok assms(2) Inr by metis
  then show ?thesis using assms(1) unfolding along_def same_def by metis
next
  case (Inl err)
  then show ?thesis using with_tx_err assms(2) R_refl by metis
qed

lemmas along_basic = reading(1-5) [THEN along_reads]

lemma along_prod: "(\<And>x y. along R (f x y)) \<Longrightarrow> along R (case z of (x, y) \<Rightarrow> f x y)"
  by (cases z) simp

lemma along_sum:
  "(\<And>x. along R (g x)) \<Longrightarrow> (\<And>x. along R (f x)) \<Longrightarrow> along R (case z of Inl x \<Rightarrow> g x | Inr x \<Rightarrow> f x)"
  by (cases z) simp_all

lemmas along_intros =
  along_basic along_andThen along_wrap along_attempt along_if along_option along_prod along_sum along_for_each

end

end
