(* ===== verification/Ends.thy ===== *)
theory Ends
  imports Along
begin

text \<open>
  Verification conditions for actions over a database: what holds of the result and of the database
  however an action ends, on every failure. The rules of \<open>ending\<close> take an action apart down to what its
  statements do to the tables.
\<close>

definition ends :: "('d, 'a) act \<Rightarrow> 'd \<Rightarrow> (goerr + 'a \<Rightarrow> 'd \<Rightarrow> bool) \<Rightarrow> bool" where
  "ends m d P \<longleftrightarrow> (\<forall>w r w'. db w = d \<longrightarrow> m w = (r, w') \<longrightarrow> P r (db w'))"

lemma endsD: "ends m (db w) P \<Longrightarrow> P (fst (m w)) (db (snd (m w)))"
  unfolding ends_def by (metis prod.collapse)

lemma ends_mono: "ends m d P \<Longrightarrow> (\<And>r d'. P r d' \<Longrightarrow> Q r d') \<Longrightarrow> ends m d Q"
  unfolding ends_def by blast

named_theorems ending "rules of the ways an action ends"

lemma ends_ret [ending]: "P (Inr x) d \<Longrightarrow> ends (ret x) d P"
  by (simp add: ends_def)

lemma ends_fail [ending]: "P (Inl err) d \<Longrightarrow> ends (fail err) d P"
  by (simp add: ends_def)

lemma ends_clock [ending]: "(\<And>t. P (Inr t) d) \<Longrightarrow> ends (clock e) d P"
  by (auto simp: ends_def)

lemma ends_uuid [ending]: "(\<And>u. P (Inr u) d) \<Longrightarrow> ends (new_uuid e) d P"
  by (auto simp: ends_def)

lemma ends_query [ending]: "(\<And>err. P (Inl err) d) \<Longrightarrow> P (Inr (f d)) d \<Longrightarrow> ends (query e f) d P"
  by (auto simp: ends_def query_def Let_def split: option.splits)

lemma ends_exec [ending]:
  "(\<And>err. P (Inl err) d) \<Longrightarrow> (\<And>d'. f d = Inr d' \<Longrightarrow> P (Inr ()) d') \<Longrightarrow> ends (exec_stmt e f) d P"
  by (auto simp: ends_def exec_stmt_def Let_def split: option.splits sum.splits)

lemma ends_exec_count [ending]:
  "(\<And>err. P (Inl err) d) \<Longrightarrow> (\<And>n d'. f d = Inr (n, d') \<Longrightarrow> P (Inr n) d') \<Longrightarrow> ends (exec_count e f) d P"
  by (auto simp: ends_def exec_count_def Let_def split: option.splits sum.splits prod.splits)

lemma ends_andThen [ending]:
  "ends m d (\<lambda>r d'. case r of Inl err \<Rightarrow> P (Inl err) d' | Inr x \<Rightarrow> ends (f x) d' P) \<Longrightarrow> ends (andThen m f) d P"
  by (fastforce simp: ends_def andThen_def split: prod.splits sum.splits)

lemma ends_attempt [ending]: "ends m d (\<lambda>r. P (Inr r)) \<Longrightarrow> ends (attempt m) d P"
  by (auto simp: ends_def)

lemma ends_wrap [ending]:
  "ends m d (\<lambda>r d'. case r of Inl err \<Rightarrow> P (Inl (ErrWrap s err)) d' | Inr x \<Rightarrow> P (Inr x) d') \<Longrightarrow> ends (wrap s m) d P"
  by (fastforce simp: ends_def wrap_def split: prod.splits sum.splits)

lemma ends_if [ending]: "(b \<Longrightarrow> ends m d P) \<Longrightarrow> (\<not> b \<Longrightarrow> ends n d P) \<Longrightarrow> ends (if b then m else n) d P"
  by simp

lemma ends_option [ending]:
  "(z = None \<Longrightarrow> ends m d P) \<Longrightarrow> (\<And>x. z = Some x \<Longrightarrow> ends (f x) d P) \<Longrightarrow>
   ends (case z of None \<Rightarrow> m | Some x \<Rightarrow> f x) d P"
  by (cases z) simp_all

lemma ends_with_tx [ending]:
  assumes "\<And>err. P (Inl err) d" and "ends (fn True) d (\<lambda>r d'. case r of Inl _ \<Rightarrow> True | Inr x \<Rightarrow> P (Inr x) d')"
  shows "ends (with_tx e False fn) d P"
  unfolding ends_def
proof (intro allI impI)
  fix w r w'
  assume w: "db w = d" and run: "with_tx e False fn w = (r, w')"
  show "P r (db w')"
  proof (cases r)
    case (Inl err)
    then show ?thesis using with_tx_err [of e fn w err w'] run w assms(1) by simp
  next
    case (Inr x)
    then obtain w1 w2 where "same w w1" "fn True w1 = (Inr x, w2)" "same w2 w'" using run by (blast elim: with_tx_ok)
    then show ?thesis using assms(2) w Inr by (fastforce simp: ends_def same_def)
  qed
qed

lemma ends_let [ending]: "ends (f x) d P \<Longrightarrow> ends (let y = x in f y) d P"
  by simp

lemma ends_Inl [ending]: "P err \<Longrightarrow> (case Inl err of Inl x \<Rightarrow> P x | Inr y \<Rightarrow> Q y)"
  by simp

lemma ends_Inr [ending]: "Q x \<Longrightarrow> (case Inr x of Inl y \<Rightarrow> P y | Inr z \<Rightarrow> Q z)"
  by simp

text \<open>A table that only grows at its end, while each row moves along \<open>R\<close>.\<close>

definition grown :: "('r \<Rightarrow> 'r \<Rightarrow> bool) \<Rightarrow> 'r list \<Rightarrow> 'r list \<Rightarrow> bool" where
  "grown R xs ys \<longleftrightarrow> (\<exists>us vs. ys = us @ vs \<and> list_all2 R xs us)"

lemma grown_refl: "(\<And>x. R x x) \<Longrightarrow> grown R xs xs"
  unfolding grown_def by (intro exI [of _ xs] exI [of _ "[]"]) (simp add: list_all2_refl)

lemma grown_append: "(\<And>x. R x x) \<Longrightarrow> grown R xs (xs @ ys)"
  unfolding grown_def by (intro exI [of _ xs] exI [of _ ys]) (simp add: list_all2_refl)

lemma grown_map: "(\<And>x. x \<in> set xs \<Longrightarrow> R x (f x)) \<Longrightarrow> grown R xs (map f xs)"
  unfolding grown_def by (intro exI [of _ "map f xs"] exI [of _ "[]"]) (simp add: list_all2_map2 list_all2_same)

lemma grown_trans:
  assumes trans: "\<And>x y z. R x y \<Longrightarrow> R y z \<Longrightarrow> R x z" and "grown R xs ys" and "grown R ys zs"
  shows "grown R xs zs"
proof -
  obtain us vs where ys: "ys = us @ vs" "list_all2 R xs us" using assms(2) by (auto simp: grown_def)
  obtain us' vs' where zs: "zs = us' @ vs'" "list_all2 R ys us'" using assms(3) by (auto simp: grown_def)
  obtain p q where "us' = p @ q" "list_all2 R us p" using ys zs by (auto simp: list_all2_append1)
  then have "list_all2 R xs p" using ys(2) trans list_all2_trans [of R R R] by blast
  then show ?thesis using zs \<open>us' = p @ q\<close> unfolding grown_def by (intro exI [of _ p] exI [of _ "q @ vs'"]) simp
qed

lemma grown_in: "grown R xs ys \<Longrightarrow> x \<in> set xs \<Longrightarrow> \<exists>y \<in> set ys. R x y"
  unfolding grown_def by (metis Un_iff in_set_conv_nth list_all2_conv_all_nth set_append)

end
