(* ===== verification/TripStore.thy ===== *)
theory TripStore
  imports TripLife GoText Ends
begin

text \<open>
  The tables of the trips and their repository
  (\<open>trip/infrastructure/persistence/sql/trip_repository.go\<close>, \<open>converters/trip_converter.go\<close>), with the
  statements of \<open>db/generated/sqlite/trips.sql.go\<close> it runs and the constraints of \<open>db/schema.sql\<close>. A column that
  holds one of the string types of the aggregate holds its constant. Instants of the database are
  those of whole seconds.
\<close>

section \<open>Tables\<close>

record SQLTripModel =
  m_ID :: gostring
  m_TripNumber :: gostring
  m_BookingID :: "gostring option"
  m_DriverID :: "gostring option"
  m_VehicleID :: "gostring option"
  m_RouteID :: gostring
  m_DepartureTime :: gotime
  m_ArrivalTime :: "gotime option"
  m_Status :: TripStatus
  m_Remarks :: "gostring option"
  m_TenantID :: gostring
  m_Version :: int64
  m_CreatedAt :: gotime
  m_UpdatedAt :: gotime
  m_StartedAt :: "gotime option"
  m_ReachedPickupAt :: "gotime option"
  m_InTransitAt :: "gotime option"
  m_DeliveredAt :: "gotime option"
  m_CompletedAt :: "gotime option"
  m_CloseOdometer :: "float64 option"
  m_StartOdometer :: "float64 option"
  m_GateFacilityID :: "gostring option"
  m_IdempotencyKey :: "gostring option"

text \<open>A row of \<open>trips\<close> has more columns, of which creating a trip writes those of its delivery code.\<close>

record trip_row = SQLTripModel +
  pod_otp :: "gostring option"
  pod_otp_expires_at :: "gotime option"
  pod_consignee_name :: "gostring option"
  pod_consignee_phone :: "gostring option"

record trip_outbox_row =
  tob_ID :: gostring
  tob_AggregateID :: gostring
  tob_AggregateType :: gostring
  tob_EventType :: gostring
  tob_Payload :: TripEvent
  tob_CreatedAt :: gotime

text \<open>The values an audit row describes, which are written as JSON.\<close>

datatype audit_note =
    Driver_override gostring gostring gostring
  | Maintenance_override gostring gostring gostring
  | Vehicle_override gostring gostring gostring
  | Vehicle_maintenance_override gostring gostring

record audit_row =
  log_ID :: gostring
  log_UserID :: "gostring option"
  log_Action :: gostring
  log_RecordID :: gostring
  log_NewValues :: "audit_note option"
  log_IPAddress :: "gostring option"
  log_TenantID :: gostring

record dispatch_override =
  ovr_ID :: gostring
  ovr_TenantID :: gostring
  ovr_TripID :: gostring
  ovr_VehicleID :: gostring
  ovr_DriverID :: gostring
  ovr_BlockedBy :: gostring
  ovr_Reason :: gostring
  ovr_By :: gostring

record compliance_check =
  chk_ID :: gostring
  chk_EntityType :: gostring
  chk_EntityID :: gostring
  chk_Type :: gostring
  chk_Status :: gostring
  chk_Details :: gostring

record compliance_exemption =
  ex_ID :: gostring
  ex_EntityType :: gostring
  ex_EntityID :: gostring
  ex_DocType :: gostring
  ExemptUntil :: gotime

text \<open>Rows of other components, with the columns that are read here. A date that is null reads as zero.\<close>

record driver_row =
  dr_ID :: gostring
  dr_TenantID :: gostring
  dr_Status :: gostring
  dr_LicenseExpiry :: gotime

record vehicle_row =
  vr_ID :: gostring
  vr_TenantID :: gostring
  vr_Status :: gostring
  vr_Blocked :: bool
  vr_BlockedReason :: gostring
  vr_RCExpiry :: "gotime option"
  vr_InsuranceExpiry :: gotime
  vr_FitnessExpiry :: gotime
  vr_PermitExpiry :: gotime
  vr_PUCExpiry :: "gotime option"
  vr_Odometer :: float64
  vr_MaintenanceDue :: "gostring option"
  vr_OverrideBy :: "gostring option"
  vr_OverrideAt :: "gotime option"

record dtc_row =
  dtc_VehicleID :: gostring
  dtc_Code :: gostring
  dtc_Severity :: gostring
  dtc_Resolved :: bool
  dtc_OccurredAt :: gotime

record work_order =
  wo_ID :: gostring
  wo_VehicleID :: gostring
  wo_Status :: gostring

record booking_row =
  br_ID :: gostring
  br_TenantID :: gostring
  br_Status :: gostring
  br_CustomerID :: gostring

record customer_row =
  cu_ID :: gostring
  cu_TenantID :: gostring
  cu_Name :: "gostring option"
  cu_Phone :: "gostring option"
  cu_Email :: "gostring option"

record route_row =
  ro_ID :: gostring
  ro_TenantID :: gostring
  ro_Source :: gostring
  ro_Destination :: gostring
  ro_Hours :: "float64 option"

text \<open>Coordinates of the two ends of a route.\<close>

record location_row =
  lo_RouteID :: gostring
  lo_SourceLat :: "float64 option"
  lo_SourceLng :: "float64 option"
  lo_DestLat :: "float64 option"
  lo_DestLng :: "float64 option"

record trip_db =
  trip_rows :: "trip_row list"
  trip_stops :: "TripStop list"
  trip_outbox :: "trip_outbox_row list"
  trip_audit :: "audit_row list"
  overrides :: "dispatch_override list"
  checks :: "compliance_check list"
  exemptions :: "compliance_exemption list"
  drivers_t :: "driver_row list"
  vehicles_t :: "vehicle_row list"
  dtc_events :: "dtc_row list"
  work_orders :: "work_order list"
  bookings_t :: "booking_row list"
  customers_t :: "customer_row list"
  routes_t :: "route_row list"
  locations_t :: "location_row list"
  trip_users :: "(gostring \<times> gostring option) list"
  trip_tenants :: "gostring list"

type_synonym 'a tact = "(trip_db, 'a) act"

section \<open>The converter\<close>

definition text_column :: "gostring \<Rightarrow> gostring option" where
  "text_column s = (if s = '''' then None else Some s)"

definition column_text :: "gostring option \<Rightarrow> gostring" where
  "column_text c = (case c of None \<Rightarrow> '''' | Some s \<Rightarrow> s)"

definition MapToPersistence :: "TripAggregate \<Rightarrow> SQLTripModel" where
  "MapToPersistence t = \<lparr>m_ID = trip_ID t, m_TripNumber = TripNumber t, m_BookingID = trip_BookingID t,
     m_DriverID = trip_DriverID t, m_VehicleID = trip_VehicleID t, m_RouteID = trip_RouteID t,
     m_DepartureTime = DepartureTime t, m_ArrivalTime = ArrivalTime t, m_Status = trip_Status t,
     m_Remarks = text_column (trip_Remarks t), m_TenantID = trip_TenantID t, m_Version = trip_Version t,
     m_CreatedAt = trip_CreatedAt t, m_UpdatedAt = trip_UpdatedAt t, m_StartedAt = StartedAt t,
     m_ReachedPickupAt = ReachedPickupAt t, m_InTransitAt = InTransitAt t, m_DeliveredAt = DeliveredAt t,
     m_CompletedAt = CompletedAt t, m_CloseOdometer = CloseOdometer t, m_StartOdometer = StartOdometer t,
     m_GateFacilityID = text_column (GateFacilityID t), m_IdempotencyKey = text_column (trip_IdempotencyKey t)\<rparr>"

definition MapToAggregate :: "SQLTripModel \<Rightarrow> TripAggregate" where
  "MapToAggregate m = \<lparr>trip_ID = m_ID m, trip_TenantID = m_TenantID m, TripNumber = m_TripNumber m,
     trip_BookingID = m_BookingID m, trip_DriverID = m_DriverID m, trip_VehicleID = m_VehicleID m,
     trip_RouteID = m_RouteID m, DepartureTime = m_DepartureTime m, ArrivalTime = m_ArrivalTime m,
     trip_Status = m_Status m, trip_Remarks = column_text (m_Remarks m), StartedAt = m_StartedAt m,
     ReachedPickupAt = m_ReachedPickupAt m, InTransitAt = m_InTransitAt m, DeliveredAt = m_DeliveredAt m,
     CompletedAt = m_CompletedAt m, CloseOdometer = m_CloseOdometer m, StartOdometer = m_StartOdometer m,
     GateFacilityID = column_text (m_GateFacilityID m), Stops = [], trip_CreatedAt = m_CreatedAt m,
     trip_UpdatedAt = m_UpdatedAt m, trip_Version = m_Version m,
     trip_IdempotencyKey = column_text (m_IdempotencyKey m), trip_events = []\<rparr>"

lemma column_text_column [simp]: "column_text (text_column s) = s"
  by (simp add: column_text_def text_column_def)

text \<open>An aggregate survives being written to columns and read back, but for its stops and its events.\<close>

lemma converter_roundtrip: "MapToAggregate (MapToPersistence t) = t\<lparr>Stops := [], trip_events := []\<rparr>"
  by (cases t) (simp add: MapToAggregate_def MapToPersistence_def)

section \<open>Statements on trips\<close>

text \<open>A NaN that is bound to a REAL column is stored as null.\<close>

definition real_column :: "float64 option \<Rightarrow> float64 option" where
  "real_column x = (if x = Some NaN then None else x)"

definition whole_second :: "gotime \<Rightarrow> gotime" where
  "whole_second t = t div 1000000000 * 1000000000"

definition dangling :: "gostring option \<Rightarrow> gostring list \<Rightarrow> bool" where
  "dangling r ids = (case r of None \<Rightarrow> False | Some k \<Rightarrow> k \<notin> set ids)"

definition bad_status :: "TripStatus \<Rightarrow> bool" where
  "bad_status st = (case st of OtherTripStatus _ \<Rightarrow> True | _ \<Rightarrow> False)"

definition broken_refs :: "SQLTripModel \<Rightarrow> trip_db \<Rightarrow> bool" where
  "broken_refs p d \<longleftrightarrow>
     dangling (m_BookingID p) (map br_ID (bookings_t d)) \<or> dangling (m_DriverID p) (map dr_ID (drivers_t d))
     \<or> dangling (m_VehicleID p) (map vr_ID (vehicles_t d)) \<or> m_RouteID p \<notin> ro_ID ` set (routes_t d)"

text \<open>\<open>CreateTrip\<close>: a partial index keeps the idempotency keys of a tenant apart.\<close>

definition same_key :: "SQLTripModel \<Rightarrow> 'x SQLTripModel_scheme \<Rightarrow> bool" where
  "same_key p r \<longleftrightarrow> m_TenantID r = m_TenantID p \<and> m_IdempotencyKey r = m_IdempotencyKey p
     \<and> m_IdempotencyKey p \<noteq> None \<and> m_IdempotencyKey p \<noteq> Some ''''"

definition new_row :: "gotime \<Rightarrow> SQLTripModel \<Rightarrow> trip_row" where
  "new_row now p = SQLTripModel.extend
     (p\<lparr>m_Version := 1, m_CreatedAt := whole_second now, m_UpdatedAt := whole_second now,
        m_CloseOdometer := real_column (m_CloseOdometer p), m_StartOdometer := real_column (m_StartOdometer p)\<rparr>)
     \<lparr>pod_otp = None, pod_otp_expires_at = None, pod_consignee_name = None, pod_consignee_phone = None\<rparr>"

definition create_trip :: "gotime \<Rightarrow> SQLTripModel \<Rightarrow> trip_db \<Rightarrow> goerr + trip_db" where
  "create_trip now p d =
     (if m_TenantID p \<notin> set (trip_tenants d) then Inl (ErrMsg ''FK violation: tenants(id) missing for trips.tenant_id'')
      else if bad_status (m_Status p) then Inl (ErrMsg ''CHECK constraint failed: status'')
      else if m_ID p \<in> m_ID ` set (trip_rows d) then Inl (ErrMsg ''UNIQUE constraint failed: trips.id'')
      else if m_TripNumber p \<in> m_TripNumber ` set (trip_rows d) then Inl (ErrMsg ''UNIQUE constraint failed: trips.trip_number'')
      else if list_ex (same_key p) (trip_rows d)
        then Inl (ErrMsg ''UNIQUE constraint failed: trips.tenant_id, trips.idempotency_key'')
      else if broken_refs p d then Inl (ErrMsg ''FOREIGN KEY constraint failed'')
      else Inr (d\<lparr>trip_rows := trip_rows d @ [new_row now p]\<rparr>))"

text \<open>\<open>UpdateTrip\<close>: the row of the given version, and how many rows that is.\<close>

definition is_trip :: "gostring \<Rightarrow> gostring \<Rightarrow> 'x SQLTripModel_scheme \<Rightarrow> bool" where
  "is_trip k tenant r \<longleftrightarrow> m_ID r = k \<and> m_TenantID r = tenant"

definition updated_row :: "gotime \<Rightarrow> SQLTripModel \<Rightarrow> 'x SQLTripModel_scheme \<Rightarrow> 'x SQLTripModel_scheme" where
  "updated_row now p r = r\<lparr>m_TripNumber := m_TripNumber p, m_BookingID := m_BookingID p, m_DriverID := m_DriverID p,
     m_VehicleID := m_VehicleID p, m_RouteID := m_RouteID p, m_DepartureTime := m_DepartureTime p,
     m_ArrivalTime := m_ArrivalTime p, m_Status := m_Status p, m_Remarks := m_Remarks p, m_StartedAt := m_StartedAt p,
     m_ReachedPickupAt := m_ReachedPickupAt p, m_InTransitAt := m_InTransitAt p, m_DeliveredAt := m_DeliveredAt p,
     m_CompletedAt := m_CompletedAt p, m_CloseOdometer := real_column (m_CloseOdometer p),
     m_StartOdometer := real_column (m_StartOdometer p), m_GateFacilityID := m_GateFacilityID p,
     m_Version := m_Version r + 1, m_UpdatedAt := whole_second now\<rparr>"

definition update_trip :: "gotime \<Rightarrow> SQLTripModel \<Rightarrow> trip_db \<Rightarrow> goerr + nat \<times> trip_db" where
  "update_trip now p d =
     (let hit = (\<lambda>r. is_trip (m_ID p) (m_TenantID p) r \<and> m_Version r = m_Version p) in
      if \<not> list_ex hit (trip_rows d) then Inr (0, d)
      else if bad_status (m_Status p) then Inl (ErrMsg ''CHECK constraint failed: status'')
      else if list_ex (\<lambda>r. \<not> hit r \<and> m_TripNumber r = m_TripNumber p) (trip_rows d)
        then Inl (ErrMsg ''UNIQUE constraint failed: trips.trip_number'')
      else if broken_refs p d then Inl (ErrMsg ''FOREIGN KEY constraint failed'')
      else Inr (1, d\<lparr>trip_rows := map (\<lambda>r. if hit r then updated_row now p r else r) (trip_rows d)\<rparr>))"

section \<open>Statements on stops\<close>

definition zero_or :: "gotime \<Rightarrow> gotime \<Rightarrow> gotime" where
  "zero_or now t = (if IsZero t then now else t)"

definition stop_row :: "gotime \<Rightarrow> TripAggregate \<Rightarrow> TripStop \<Rightarrow> TripStop" where
  "stop_row now t s = s\<lparr>stop_TenantID := trip_TenantID t, stop_TripID := trip_ID t,
     TripStop.Latitude := real_column (TripStop.Latitude s), TripStop.Longitude := real_column (TripStop.Longitude s),
     stop_CreatedAt := zero_or now (stop_CreatedAt s), stop_UpdatedAt := zero_or now (stop_UpdatedAt s)\<rparr>"

definition bad_stop :: "TripStop \<Rightarrow> bool" where
  "bad_stop s \<longleftrightarrow> GeofenceRadiusM s = NaN
     \<or> (case StopType s of OtherStopType _ \<Rightarrow> True | _ \<Rightarrow> False)
     \<or> (case stop_Status s of OtherStopStatus _ \<Rightarrow> True | _ \<Rightarrow> False)"

text \<open>\<open>INSERT \<dots> ON CONFLICT (trip_id, stop_sequence) DO UPDATE\<close>; tenant and time of creation stay.\<close>

definition upsert_stop :: "TripStop \<Rightarrow> trip_db \<Rightarrow> goerr + trip_db" where
  "upsert_stop s d =
     (if bad_stop s then Inl (ErrMsg ''constraint failed: trip_stops'')
      else if stop_TenantID s \<notin> set (trip_tenants d) \<or> stop_TripID s \<notin> m_ID ` set (trip_rows d)
        then Inl (ErrMsg ''FOREIGN KEY constraint failed'')
      else case find_index (\<lambda>x. stop_TripID x = stop_TripID s \<and> StopSequence x = StopSequence s) (trip_stops d) of
          None \<Rightarrow>
            if stop_ID s \<in> stop_ID ` set (trip_stops d) then Inl (ErrMsg ''UNIQUE constraint failed: trip_stops.id'')
            else Inr (d\<lparr>trip_stops := trip_stops d @ [s]\<rparr>)
        | Some i \<Rightarrow>
            (let old = trip_stops d ! i in
             if stop_ID old \<noteq> stop_ID s \<and> stop_ID s \<in> stop_ID ` set (trip_stops d)
               then Inl (ErrMsg ''UNIQUE constraint failed: trip_stops.id'')
             else Inr (d\<lparr>trip_stops := (trip_stops d)[i := s\<lparr>stop_TenantID := stop_TenantID old,
               stop_CreatedAt := stop_CreatedAt old\<rparr>]\<rparr>)))"

fun contains_text :: "gostring \<Rightarrow> gostring \<Rightarrow> bool" where
  "contains_text [] t \<longleftrightarrow> t = []"
| "contains_text (c # cs) t \<longleftrightarrow> starts_with t (c # cs) \<or> contains_text cs t"

definition no_such_table :: "goerr \<Rightarrow> bool" where
  "no_such_table err \<longleftrightarrow> contains_text (err_text err) ''no such table''"

fun save_stops :: "env \<Rightarrow> gotime \<Rightarrow> TripAggregate \<Rightarrow> TripStop list \<Rightarrow> unit tact" where
  "save_stops e now t [] = ret ()"
| "save_stops e now t (s # ss) =
     andThen (attempt (exec_stmt e (upsert_stop (stop_row now t s)))) (\<lambda>r.
       case r of Inr _ \<Rightarrow> save_stops e now t ss
       | Inl err \<Rightarrow> if no_such_table err then ret () else fail err)"

definition saveStops :: "env \<Rightarrow> TripAggregate \<Rightarrow> unit tact" where
  "saveStops e t = (if Stops t = [] then ret () else andThen (clock e) (\<lambda>now. save_stops e now t (Stops t)))"

definition stops_of :: "gostring \<Rightarrow> gostring \<Rightarrow> trip_db \<Rightarrow> TripStop list" where
  "stops_of k tenant d =
     sort_key StopSequence (filter (\<lambda>s. stop_TripID s = k \<and> stop_TenantID s = tenant) (trip_stops d))"

definition loadStops :: "env \<Rightarrow> gostring \<Rightarrow> gostring \<Rightarrow> TripStop list tact" where
  "loadStops e k tenant =
     andThen (attempt (query e (stops_of k tenant))) (\<lambda>r.
       case r of Inr ss \<Rightarrow> ret ss | Inl err \<Rightarrow> if no_such_table err then ret [] else fail err)"

section \<open>The outbox\<close>

text \<open>
  The catalogue of canonical names (\<open>events.EventTypeOf\<close>) is keyed by the events of \<open>internal/domain/trip\<close>,
  which are other types than those of the aggregate: these are named after their type.
\<close>

fun trip_event_name :: "TripEvent \<Rightarrow> gostring" where
  "trip_event_name (TripCreatedEvent _ _ _ _) = ''TripCreatedEvent''"
| "trip_event_name (TripScheduledEvent _ _ _) = ''TripScheduledEvent''"
| "trip_event_name (TripAssignedEvent _ _ _ _ _) = ''TripAssignedEvent''"
| "trip_event_name (TripStartedEvent _ _ _) = ''TripStartedEvent''"
| "trip_event_name (TripReachedPickupEvent _ _ _) = ''TripReachedPickupEvent''"
| "trip_event_name (TripInTransitEvent _ _ _) = ''TripInTransitEvent''"
| "trip_event_name (TripDeliveredEvent _ _ _) = ''TripDeliveredEvent''"
| "trip_event_name (TripCompletedEvent _ _ _) = ''TripCompletedEvent''"
| "trip_event_name (TripCancelledEvent _ _ _) = ''TripCancelledEvent''"
| "trip_event_name (TripStopArrivedEvent _ _ _ _ _) = ''TripStopArrivedEvent''"
| "trip_event_name (TripStopCompletedEvent _ _ _ _ _) = ''TripStopCompletedEvent''"
| "trip_event_name (TripStopPODVerifiedEvent _ _ _ _ _ _) = ''TripStopPODVerifiedEvent''"

fun event_at :: "TripEvent \<Rightarrow> gotime" where
  "event_at (TripCreatedEvent _ _ _ n) = n"
| "event_at (TripScheduledEvent _ _ n) = n"
| "event_at (TripAssignedEvent _ _ _ _ n) = n"
| "event_at (TripStartedEvent _ _ n) = n"
| "event_at (TripReachedPickupEvent _ _ n) = n"
| "event_at (TripInTransitEvent _ _ n) = n"
| "event_at (TripDeliveredEvent _ _ n) = n"
| "event_at (TripCompletedEvent _ _ n) = n"
| "event_at (TripCancelledEvent _ _ n) = n"
| "event_at (TripStopArrivedEvent _ _ _ _ n) = n"
| "event_at (TripStopCompletedEvent _ _ _ _ n) = n"
| "event_at (TripStopPODVerifiedEvent _ _ _ _ _ n) = n"

text \<open>\<open>json.Marshal\<close> refuses instants outside the years 0 to 9999.\<close>

definition marshals :: "TripEvent \<Rightarrow> bool" where
  "marshals ev \<longleftrightarrow> - 366 * 86400000000000 \<le> event_at ev \<and> event_at ev < 3652059 * 86400000000000"

definition save_trip_event :: "env \<Rightarrow> gostring \<Rightarrow> TripEvent \<Rightarrow> unit tact" where
  "save_trip_event e k ev =
     (if \<not> marshals ev then fail (ErrMsg ''json: error calling MarshalJSON for type time.Time'')
      else andThen (new_uuid e) (\<lambda>u. andThen (clock e) (\<lambda>now.
        exec_stmt e (\<lambda>d.
          if u \<in> tob_ID ` set (trip_outbox d) then Inl (ErrMsg ''UNIQUE constraint failed: outbox_events.id'')
          else Inr (d\<lparr>trip_outbox := trip_outbox d @
            [\<lparr>tob_ID = u, tob_AggregateID = k, tob_AggregateType = ''Trip'', tob_EventType = trip_event_name ev,
              tob_Payload = ev, tob_CreatedAt = now\<rparr>]\<rparr>)))))"

section \<open>The repository\<close>

definition trip_Exists :: "env \<Rightarrow> gostring \<Rightarrow> gostring \<Rightarrow> bool tact" where
  "trip_Exists e k tenant = query e (\<lambda>d. list_ex (is_trip k tenant) (trip_rows d))"

text \<open>The aggregate after \<open>Save\<close>: its version and its events are those of the row.\<close>

definition trip_Save :: "env \<Rightarrow> TripAggregate \<Rightarrow> TripAggregate tact" where
  "trip_Save e t =
     andThen (trip_Exists e (trip_ID t) (trip_TenantID t)) (\<lambda>exists. andThen (clock e) (\<lambda>now.
     andThen (if exists
       then andThen (exec_count e (update_trip now (MapToPersistence t))) (\<lambda>n.
              if n = 0 then fail (ErrMsg ''concurrency conflict: trip modified by another process'')
              else ret (trip_Version t + 1))
       else andThen (exec_stmt e (create_trip now (MapToPersistence t))) (\<lambda>_. ret 1)) (\<lambda>v.
     andThen (saveStops e t) (\<lambda>_.
     andThen (for_each (save_trip_event e (trip_ID t)) (trip_Events t)) (\<lambda>_.
       ret (trip_ClearEvents (t\<lparr>trip_Version := v\<rparr>)))))))"

text \<open>Loading a row: the columns of the queries do not include the idempotency key.\<close>

definition row_model :: "gostring option \<Rightarrow> trip_row \<Rightarrow> SQLTripModel" where
  "row_model key r = (SQLTripModel.truncate r)\<lparr>m_IdempotencyKey := key\<rparr>"

definition load_trip :: "env \<Rightarrow> (trip_row \<Rightarrow> bool) \<Rightarrow> gostring option \<Rightarrow> gostring \<Rightarrow> TripAggregate tact" where
  "load_trip e hit key tenant =
     andThen (query e (\<lambda>d. find hit (trip_rows d))) (\<lambda>row.
       case row of
         None \<Rightarrow> fail (ErrMsg ''trip not found'')
       | Some r \<Rightarrow> andThen (loadStops e (m_ID r) tenant) (\<lambda>ss. ret (MapToAggregate (row_model key r)\<lparr>Stops := ss\<rparr>)))"

definition trip_Find :: "env \<Rightarrow> gostring \<Rightarrow> gostring \<Rightarrow> TripAggregate tact" where
  "trip_Find e k tenant = load_trip e (is_trip k tenant) None tenant"

definition FindByNumber :: "env \<Rightarrow> gostring \<Rightarrow> gostring \<Rightarrow> TripAggregate tact" where
  "FindByNumber e number tenant = load_trip e (\<lambda>r. m_TripNumber r = number \<and> m_TenantID r = tenant) None tenant"

definition FindByBookingID :: "env \<Rightarrow> gostring \<Rightarrow> gostring \<Rightarrow> TripAggregate tact" where
  "FindByBookingID e booking tenant =
     load_trip e (\<lambda>r. booking \<noteq> '''' \<and> m_BookingID r = Some booking \<and> m_TenantID r = tenant) None tenant"

definition FindByIdempotencyKey :: "env \<Rightarrow> gostring \<Rightarrow> gostring \<Rightarrow> TripAggregate tact" where
  "FindByIdempotencyKey e key tenant =
     (if key = '''' then fail (ErrMsg ''trip not found'')
      else load_trip e (\<lambda>r. m_IdempotencyKey r = Some key \<and> m_TenantID r = tenant) (Some key) tenant)"

section \<open>Conflicts of drivers and vehicles\<close>

definition holds_resource :: "TripStatus \<Rightarrow> bool" where
  "holds_resource st \<longleftrightarrow>
     st \<in> {TripScheduled, TripAssigned, TripStarted, TripReachedPickup, TripInTransit, TripDelivered}"

text \<open>9999-12-31 23:59:59.\<close>

definition end_of_time :: gotime where
  "end_of_time = 315537897599 * 1000000000"

definition overlapping :: "gostring \<Rightarrow> gostring \<Rightarrow> gotime \<Rightarrow> gotime option \<Rightarrow> 'x SQLTripModel_scheme \<Rightarrow> bool" where
  "overlapping tenant exclude from until r \<longleftrightarrow>
     m_TenantID r = tenant \<and> holds_resource (m_Status r) \<and> (exclude = '''' \<or> m_ID r \<noteq> exclude)
     \<and> m_DepartureTime r \<le> (case until of None \<Rightarrow> end_of_time | Some u \<Rightarrow> whole_second u)
     \<and> whole_second from \<le> (case m_ArrivalTime r of None \<Rightarrow> end_of_time | Some a \<Rightarrow> a)"

definition checkResourceConflict :: "env \<Rightarrow> (trip_row \<Rightarrow> gostring option) \<Rightarrow> gostring \<Rightarrow> gostring \<Rightarrow> gostring \<Rightarrow> gotime
    \<Rightarrow> gotime option \<Rightarrow> trip_row list tact" where
  "checkResourceConflict e column k tenant exclude from until =
     (if k = '''' then ret []
      else query e (\<lambda>d. filter (\<lambda>r. column r = Some k \<and> overlapping tenant exclude from until r) (trip_rows d)))"

definition CheckDriverConflict :: "env \<Rightarrow> gostring \<Rightarrow> gostring \<Rightarrow> gostring \<Rightarrow> gotime \<Rightarrow> gotime option \<Rightarrow> trip_row list tact" where
  "CheckDriverConflict e = checkResourceConflict e m_DriverID"

definition CheckVehicleConflict :: "env \<Rightarrow> gostring \<Rightarrow> gostring \<Rightarrow> gostring \<Rightarrow> gotime \<Rightarrow> gotime option \<Rightarrow> trip_row list tact" where
  "CheckVehicleConflict e = checkResourceConflict e m_VehicleID"

end
