(* ===== verification/GoMath.thy ===== *)
theory GoMath
  imports GoBytes
begin

text \<open>
  What the position code uses of packages \<open>math\<close> and \<open>time\<close>: the elementary functions, as one argument
  of the models, minimum and maximum, durations in seconds and minutes; and that rounding to
  \<open>float64\<close> is monotone.
\<close>

section \<open>Functions\<close>

record gomath =
  math_Sin :: "float64 \<Rightarrow> float64"
  math_Cos :: "float64 \<Rightarrow> float64"
  math_Asin :: "float64 \<Rightarrow> float64"
  math_Atan2 :: "float64 \<Rightarrow> float64 \<Rightarrow> float64"
  math_Sqrt :: "float64 \<Rightarrow> float64"
  math_Hypot :: "float64 \<Rightarrow> float64 \<Rightarrow> float64"

definition math_Pi :: float64 where
  "math_Pi = F (314159265358979323846264338327950288419716939937510582097494459 / 10 ^ 62)"

definition math_MaxFloat64 :: float64 where
  "math_MaxFloat64 = Fin ((2 ^ 53 - 1) * 2 ^ 971)"

definition math_Min :: "float64 \<Rightarrow> float64 \<Rightarrow> float64" where
  "math_Min x y =
     (if x = Inf True \<or> y = Inf True then Inf True
      else if x = NaN \<or> y = NaN then NaN
      else if x < y then x else y)"

definition math_Max :: "float64 \<Rightarrow> float64 \<Rightarrow> float64" where
  "math_Max x y =
     (if x = Inf False \<or> y = Inf False then Inf False
      else if x = NaN \<or> y = NaN then NaN
      else if y < x then x else y)"

text \<open>\<open>t.Sub(u)\<close>, which saturates at the range of a \<open>Duration\<close>.\<close>

definition time_Sub :: "gotime \<Rightarrow> gotime \<Rightarrow> int" where
  "time_Sub t u = max (- (2 ^ 63)) (min (2 ^ 63 - 1) (t - u))"

text \<open>\<open>d.Seconds()\<close> and \<open>d.Minutes()\<close>; quotient and remainder truncate towards zero.\<close>

definition duration_in :: "int \<Rightarrow> int \<Rightarrow> float64" where
  "duration_in u d =
     (let q = sgn d * (\<bar>d\<bar> div u); r = d - q * u
      in float_of_int q + fdiv (float_of_int r) (float_of_int u))"

definition Seconds :: "int \<Rightarrow> float64" where
  "Seconds d = duration_in 1000000000 d"

definition Minutes :: "int \<Rightarrow> float64" where
  "Minutes d = duration_in 60000000000 d"

section \<open>Rounding is monotone\<close>

lemma fl_val_scaled: "0 < x \<Longrightarrow> fl_val x = of_int (rhe (x / 2 powi ulp_exp x)) * 2 powi ulp_exp x"
  by (simp add: fl_val_def)

lemma power_in_ulps:
  assumes "e \<le> k"
  shows "\<exists>n::int. (2::rat) powi k / 2 powi e = of_int n"
proof -
  have "(2::rat) powi k / 2 powi e = 2 powi (k - e)" by (simp add: power_int_diff)
  also have "\<dots> = of_int (2 ^ nat (k - e))" using assms by (simp add: power_int_def)
  finally show ?thesis by blast
qed

lemma fl_val_below_power:
  assumes "0 < x" and "x \<le> 2 powi k" and "ulp_exp x \<le> k"
  shows "fl_val x \<le> 2 powi k"
proof -
  obtain n where n: "(2::rat) powi k / 2 powi ulp_exp x = of_int n" using power_in_ulps [OF assms(3)] by blast
  have "x / 2 powi ulp_exp x \<le> of_int n" using assms(2) by (simp flip: n add: divide_right_mono)
  then have "rhe (x / 2 powi ulp_exp x) \<le> n" using rhe_mono rhe_of_int by metis
  then have "fl_val x \<le> of_int n * 2 powi ulp_exp x"
    unfolding fl_val_scaled [OF assms(1)] by (intro mult_right_mono) simp_all
  also have "\<dots> = 2 powi k" by (simp flip: n)
  finally show ?thesis .
qed

lemma fl_val_above_power:
  assumes "0 < x" and "2 powi k \<le> x" and "ulp_exp x \<le> k"
  shows "2 powi k \<le> fl_val x"
proof -
  obtain n where n: "(2::rat) powi k / 2 powi ulp_exp x = of_int n" using power_in_ulps [OF assms(3)] by blast
  have "of_int n \<le> x / 2 powi ulp_exp x" using assms(2) by (simp flip: n add: divide_right_mono)
  then have "n \<le> rhe (x / 2 powi ulp_exp x)" using rhe_mono rhe_of_int by metis
  then have "of_int n * 2 powi ulp_exp x \<le> fl_val x"
    unfolding fl_val_scaled [OF assms(1)] by (intro mult_right_mono) simp_all
  moreover have "of_int n * 2 powi ulp_exp x = (2::rat) powi k" by (simp flip: n)
  ultimately show ?thesis by simp
qed

lemma fl_val_mono_pos:
  assumes "0 < x" and "x \<le> y"
  shows "fl_val x \<le> fl_val y"
proof (cases "ulp_exp x = ulp_exp y")
  case True
  have "rhe (x / 2 powi ulp_exp x) \<le> rhe (y / 2 powi ulp_exp x)"
    using assms(2) by (intro rhe_mono divide_right_mono) simp_all
  then show ?thesis
    using assms True by (simp add: fl_val_scaled mult_right_mono)
next
  case False
  have y: "0 < y" using assms by simp
  note bx = ilog2_bounds [OF assms(1)] and by' = ilog2_bounds [OF y]
  have lt: "ilog2 x < ilog2 y"
  proof (rule ccontr)
    assume "\<not> ilog2 x < ilog2 y"
    moreover from this have "ilog2 x \<noteq> ilog2 y" using False assms y by (auto simp: ulp_exp_def)
    ultimately have "ilog2 y + 1 \<le> ilog2 x" by simp
    then have "(2::rat) powi (ilog2 y + 1) \<le> 2 powi ilog2 x" by (simp add: power_int_increasing)
    then show False using bx by' assms(2) by linarith
  qed
  have "ulp_exp x \<le> ilog2 y" "ulp_exp y \<le> ilog2 y"
    using lt False assms(1) y by (auto simp: ulp_exp_def max_def split: if_splits)
  moreover have "x \<le> 2 powi ilog2 y"
  proof -
    have "(2::rat) powi (ilog2 x + 1) \<le> 2 powi ilog2 y" using lt by (simp add: power_int_increasing)
    then show ?thesis using bx by linarith
  qed
  ultimately show ?thesis
    using fl_val_below_power [OF assms(1)] fl_val_above_power [OF y] by' by (meson order_trans)
qed

lemma rhe_minus: "rhe (- q) = - rhe q"
proof (cases "q = of_int \<lfloor>q\<rfloor>")
  case True
  then show ?thesis by (metis of_int_minus rhe_of_int)
next
  case False
  define f d where "f = \<lfloor>q\<rfloor>" and "d = q - of_int f"
  have d: "0 < d" "d < 1" using False unfolding d_def f_def by linarith+
  have m: "\<lfloor>- q\<rfloor> = - f - 1" using d unfolding d_def by (intro floor_unique) auto
  have d': "- q - of_int (- f - 1) = 1 - d" by (simp add: d_def)
  have "rhe q = (if d < 1 / 2 then f else if 1 / 2 < d then f + 1 else if even f then f else f + 1)"
    by (simp add: rhe_def Let_def d_def f_def)
  moreover have "rhe (- q) = (if 1 - d < 1 / 2 then - f - 1 else if 1 / 2 < 1 - d then - f
      else if even (- f - 1) then - f - 1 else - f)"
    unfolding rhe_def Let_def m d' by simp
  ultimately show ?thesis by auto
qed

lemma fl_val_minus: "fl_val (- x) = - fl_val x"
  by (simp add: fl_val_def ulp_exp_def rhe_minus minus_divide_left [symmetric])

lemma fl_val_mono:
  assumes "x \<le> y"
  shows "fl_val x \<le> fl_val y"
proof -
  consider "0 < x" | "x \<le> 0" "0 \<le> y" | "y < 0" by linarith
  then show ?thesis
  proof cases
    case 1
    then show ?thesis using assms by (rule fl_val_mono_pos)
  next
    case 2
    then show ?thesis using fl_val_nonpos fl_val_nonneg by (meson order_trans)
  next
    case 3
    then have "fl_val (- y) \<le> fl_val (- x)" using assms by (intro fl_val_mono_pos) simp_all
    then show ?thesis by (simp add: fl_val_minus)
  qed
qed

lemma fl_mono:
  assumes "x \<le> y"
  shows "fl x \<le> fl y"
  using fl_val_mono [OF assms] by (auto simp: fl_def Let_def)

text \<open>Taking away a number that is not negative does not increase a float, nor adding one decrease it.\<close>

lemma float_diff_le_add:
  assumes "(0::float64) \<le> h" and "0 \<le> b" and "d \<le> r - h" and "r \<noteq> Inf True"
  shows "d \<le> r + b"
proof (cases r)
  case (Fin q)
  show ?thesis
  proof (cases "h = Inf False \<or> b = Inf False")
    case True
    then show ?thesis using assms Fin by (cases d; cases h; cases b) (auto simp: float_ops fl_def Let_def split: if_splits)
  next
    case False
    then obtain x y where xy: "h = Fin x" "b = Fin y" "0 \<le> x" "0 \<le> y"
      using assms(1,2) by (cases h; cases b) (auto simp: zero_float64_def)
    then have "fl (q - x) \<le> fl (q + y)" by (intro fl_mono) simp
    then show ?thesis using assms(3) Fin xy
      by (cases d; cases "fl (q - x)"; cases "fl (q + y)") (auto simp: float_ops)
  qed
next
  case NaN
  then show ?thesis using assms(3) by (cases d) (auto simp: float_ops)
next
  case (Inf s)
  with assms(4) have "r = Inf False" by simp
  then show ?thesis using assms by (cases d; cases h; cases b) (auto simp: float_ops split: if_splits)
qed

end
