(* ===== verification/TripUse.thy ===== *)
theory TripUse
  imports TripStore GoMath
begin

text \<open>
  The use cases of trips (\<open>trip/application\<close>): each runs in one transaction of the unit of work
  (\<open>shared/uow\<close>, \<open>repository/tx.go\<close>), loads the aggregate, calls it, stores it and writes an audit row. The
  repositories of drivers, vehicles, bookings and maintenance are the queries they run here; what a
  caller has done on completion, and the usage meter, are actions given to the model.
\<close>

record trip_env = env +
  ctx_user :: gostring
  ctx_ip :: gostring
  ctx_tenant_id :: gostring
  random_at :: "nat \<Rightarrow> nat"
  usage_meter :: "(gostring \<Rightarrow> gostring \<Rightarrow> unit tact) option"

abbreviation outer :: "trip_env \<Rightarrow> env" where
  "outer e \<equiv> env.truncate e"

section \<open>Texts\<close>

fun decimal :: "nat \<Rightarrow> gostring" where
  "decimal n = (if n < 10 then [char_of (48 + n)] else decimal (n div 10) @ [char_of (48 + n mod 10)])"

declare decimal.simps [simp del]

definition fmt_d :: "int \<Rightarrow> gostring" where
  "fmt_d i = (if i < 0 then ''-'' @ decimal (nat (- i)) else decimal (nat i))"

definition unix_nano :: "gotime \<Rightarrow> gostring" where
  "unix_nano t = fmt_d (t - unix_epoch)"

fun trip_error_text :: "trip_error \<Rightarrow> gostring" where
  "trip_error_text StopNotFound = ''stop not found''"
| "trip_error_text (CannotReachStop i k j) = ''cannot reach stop '' @ fmt_d i @ '' (#'' @ k @ ''); previous stop ''
     @ fmt_d j @ '' is not completed''"
| "trip_error_text InvalidStopOTP = ''invalid stop OTP''"
| "trip_error_text StopOTPExpired = ''stop OTP expired''"
| "trip_error_text PODOrSignatureRequired = ''pod photo or signature url is required''"
| "trip_error_text OTPVerificationRequired = ''cannot complete stop: OTP verification required''"
| "trip_error_text PODSubmissionRequired = ''cannot complete stop: POD submission required''"
| "trip_error_text OnlyDraftScheduled = ''only draft trips can be scheduled''"
| "trip_error_text CannotAssignDriverFinished = ''cannot assign driver to completed or cancelled trip''"
| "trip_error_text CannotAssignDriverStarted = ''cannot assign driver after trip has started''"
| "trip_error_text DriverBeforeVehicle = ''driver must be assigned before vehicle''"
| "trip_error_text CannotAssignVehicleFinished = ''cannot assign vehicle to completed or cancelled trip''"
| "trip_error_text CannotAssignVehicleStarted = ''cannot assign vehicle after trip has started''"
| "trip_error_text MustBeScheduledOrAssigned = ''trip must be scheduled or assigned to start''"
| "trip_error_text MustBeStarted = ''trip must be started before reaching pickup''"
| "trip_error_text MustHaveReachedPickup = ''trip must have reached pickup before going in transit''"
| "trip_error_text MustBeInTransitOrReachedPickup = ''trip must be in transit or reached pickup before being delivered''"
| "trip_error_text IncompleteStopsDeliver = ''cannot deliver trip: incomplete stops remain''"
| "trip_error_text OnlyDeliveredCompleted = ''only delivered trips can be completed''"
| "trip_error_text IncompleteStopsComplete = ''cannot complete trip: incomplete stops remain''"
| "trip_error_text CloseReadingNeedsCompleted = ''close reading requires a completed trip''"
| "trip_error_text CloseOdometerNotPositive = ''close odometer reading must be positive''"
| "trip_error_text StartOdometerNotPositive = ''start odometer reading must be positive''"
| "trip_error_text CompletedCannotBeCancelled = ''completed trips cannot be cancelled''"

section \<open>Audit\<close>

definition getUserID :: "trip_env \<Rightarrow> gostring option" where
  "getUserID e = (if ctx_user e = '''' then None else Some (ctx_user e))"

definition getUserIP :: "trip_env \<Rightarrow> gostring option" where
  "getUserIP e = (if ctx_ip e = '''' then None else Some (ctx_ip e))"

text \<open>The tenant of an audit row: that of the request, else that of the user, else the platform's.\<close>

definition resolveAuditTenant :: "trip_env \<Rightarrow> gostring tact" where
  "resolveAuditTenant e =
     (if ctx_tenant_id e \<noteq> '''' then ret (ctx_tenant_id e)
      else case getUserID e of
          None \<Rightarrow> ret ''1''
        | Some u \<Rightarrow> andThen (attempt (query (outer e) (\<lambda>d. map_of (trip_users d) u))) (\<lambda>r.
            ret (case r of Inr (Some (Some t)) \<Rightarrow> if t = '''' then ''1'' else t | _ \<Rightarrow> ''1'')))"

definition insert_audit :: "audit_row \<Rightarrow> trip_db \<Rightarrow> goerr + trip_db" where
  "insert_audit a d =
     (if log_ID a \<in> log_ID ` set (trip_audit d) then Inl (ErrMsg ''UNIQUE constraint failed: audit_logs.id'')
      else if dangling (log_UserID a) (map fst (trip_users d)) then Inl (ErrMsg ''FOREIGN KEY constraint failed'')
      else Inr (d\<lparr>trip_audit := trip_audit d @ [a]\<rparr>))"

definition logAudit :: "trip_env \<Rightarrow> gostring \<Rightarrow> gostring \<Rightarrow> audit_note option \<Rightarrow> unit tact" where
  "logAudit e action k new =
     andThen (new_uuid (outer e)) (\<lambda>u. andThen (resolveAuditTenant e) (\<lambda>tenant.
     andThen (attempt (exec_stmt (outer e) (insert_audit
       \<lparr>log_ID = u, log_UserID = getUserID e, log_Action = action, log_RecordID = k, log_NewValues = new,
        log_IPAddress = getUserIP e, log_TenantID = tenant\<rparr>))) (\<lambda>_. ret ())))"

section \<open>One step of a trip\<close>

definition run_op :: "trip_result \<Rightarrow> TripAggregate tact" where
  "run_op r = (case r of (t, None) \<Rightarrow> ret t | (_, Some err) \<Rightarrow> fail (ErrMsg (trip_error_text err)))"

definition store_trip :: "trip_env \<Rightarrow> gostring \<Rightarrow> TripAggregate \<Rightarrow> unit tact" where
  "store_trip e action t =
     andThen (trip_Save (outer e) t) (\<lambda>t. logAudit e action (trip_ID t) None)"

definition change_trip :: "trip_env \<Rightarrow> gostring \<Rightarrow> gostring \<Rightarrow> gostring \<Rightarrow> (gotime \<Rightarrow> TripAggregate \<Rightarrow> trip_result) \<Rightarrow> unit tact" where
  "change_trip e k tenant action operation =
     with_tx (outer e) False (\<lambda>_.
       andThen (trip_Find (outer e) k tenant) (\<lambda>t. andThen (clock (outer e)) (\<lambda>now.
       andThen (run_op (operation now t)) (store_trip e action))))"

definition ScheduleTrip :: "trip_env \<Rightarrow> gostring \<Rightarrow> gostring \<Rightarrow> unit tact" where
  "ScheduleTrip e k tenant = change_trip e k tenant ''schedule'' trip_Schedule"

definition ReachPickupTrip :: "trip_env \<Rightarrow> gostring \<Rightarrow> gostring \<Rightarrow> unit tact" where
  "ReachPickupTrip e k tenant = change_trip e k tenant ''reach_pickup'' ReachPickup"

definition StartTransitTrip :: "trip_env \<Rightarrow> gostring \<Rightarrow> gostring \<Rightarrow> unit tact" where
  "StartTransitTrip e k tenant = change_trip e k tenant ''start_transit'' StartTransit"

definition DeliverTrip :: "trip_env \<Rightarrow> gostring \<Rightarrow> gostring \<Rightarrow> unit tact" where
  "DeliverTrip e k tenant = change_trip e k tenant ''deliver'' Deliver"

definition CancelTrip :: "trip_env \<Rightarrow> gostring \<Rightarrow> gostring \<Rightarrow> unit tact" where
  "CancelTrip e k tenant = change_trip e k tenant ''cancel'' trip_Cancel"

definition ReachTripStop :: "trip_env \<Rightarrow> gostring \<Rightarrow> gostring \<Rightarrow> gostring \<Rightarrow> unit tact" where
  "ReachTripStop e k stop tenant = change_trip e k tenant ''update'' (ReachStop stop)"

definition CompleteTripStop :: "trip_env \<Rightarrow> gostring \<Rightarrow> gostring \<Rightarrow> gostring \<Rightarrow> unit tact" where
  "CompleteTripStop e k stop tenant = change_trip e k tenant ''update'' (CompleteStop stop)"

text \<open>The password is verified first when there is one, at the same instant.\<close>

definition submit_pod :: "gostring \<Rightarrow> gostring \<Rightarrow> gostring \<Rightarrow> gostring \<Rightarrow> gostring \<Rightarrow> gotime \<Rightarrow> TripAggregate \<Rightarrow> trip_result" where
  "submit_pod stop pod signature notes otp now t =
     (case (if otp = '''' then (t, None) else VerifyStopOTP stop otp now t) of
        (t1, None) \<Rightarrow> SubmitStopPOD stop pod signature notes now t1
      | (t1, Some err) \<Rightarrow> (t1, Some err))"

definition SubmitTripStopPOD :: "trip_env \<Rightarrow> gostring \<Rightarrow> gostring \<Rightarrow> gostring \<Rightarrow> gostring \<Rightarrow> gostring \<Rightarrow> gostring
    \<Rightarrow> gostring \<Rightarrow> unit tact" where
  "SubmitTripStopPOD e k stop tenant pod signature notes otp =
     change_trip e k tenant ''update'' (submit_pod stop pod signature notes otp)"

section \<open>Completing a trip\<close>

definition close_time :: "gotime option \<Rightarrow> gotime \<Rightarrow> gotime tact" where
  "close_time closedAt now =
     (case closedAt of
        None \<Rightarrow> ret now
      | Some c \<Rightarrow> if now + 60000000000 < c then fail (ErrMsg ''closed_at cannot be in the future'') else ret c)"

definition close_trip :: "float64 option \<Rightarrow> gotime \<Rightarrow> TripAggregate \<Rightarrow> TripAggregate tact" where
  "close_trip odometer now t =
     andThen (run_op (trip_Complete now t)) (\<lambda>t.
       case odometer of None \<Rightarrow> ret t | Some x \<Rightarrow> run_op (RecordCloseReading x now t))"

definition commit_usage :: "trip_env \<Rightarrow> gostring \<Rightarrow> TripAggregate \<Rightarrow> unit tact" where
  "commit_usage e tenant t =
     (case usage_meter e of
        None \<Rightarrow> ret ()
      | Some CommitBooking \<Rightarrow> (case trip_BookingID t of
          None \<Rightarrow> ret ()
        | Some b \<Rightarrow> if b = '''' then ret () else CommitBooking tenant b))"

definition CompleteTrip :: "trip_env \<Rightarrow> gostring \<Rightarrow> gostring \<Rightarrow> float64 option \<Rightarrow> gotime option
    \<Rightarrow> (TripAggregate \<Rightarrow> unit tact) option \<Rightarrow> unit tact" where
  "CompleteTrip e k tenant odometer closedAt onCompleted =
     with_tx (outer e) False (\<lambda>_.
       andThen (trip_Find (outer e) k tenant) (\<lambda>t. andThen (clock (outer e)) (\<lambda>now.
       andThen (close_time closedAt now) (\<lambda>now. andThen (close_trip odometer now t) (\<lambda>t.
       andThen (trip_Save (outer e) t) (\<lambda>t. andThen (commit_usage e tenant t) (\<lambda>_.
       andThen (logAudit e ''complete'' (trip_ID t) None) (\<lambda>_.
         case onCompleted of None \<Rightarrow> ret () | Some f \<Rightarrow> f t))))))))"

section \<open>Compliance\<close>

definition no_rows :: goerr where
  "no_rows = ErrSentinel ''sql: no rows in result set''"

definition found :: "'a option tact \<Rightarrow> 'a tact" where
  "found m = andThen m (\<lambda>r. case r of None \<Rightarrow> fail no_rows | Some x \<Rightarrow> ret x)"

definition find_driver :: "trip_env \<Rightarrow> gostring \<Rightarrow> gostring \<Rightarrow> driver_row tact" where
  "find_driver e k tenant =
     found (query (outer e) (\<lambda>d. find (\<lambda>r. dr_ID r = k \<and> dr_TenantID r = tenant) (drivers_t d)))"

definition find_vehicle :: "trip_env \<Rightarrow> gostring \<Rightarrow> gostring \<Rightarrow> vehicle_row tact" where
  "find_vehicle e k tenant =
     found (query (outer e) (\<lambda>d. find (\<lambda>r. vr_ID r = k \<and> vr_TenantID r = tenant) (vehicles_t d)))"

text \<open>\<open>Truncate(24 * time.Hour)\<close>.\<close>

definition start_of_day :: "gotime \<Rightarrow> gotime" where
  "start_of_day t = t div 86400000000000 * 86400000000000"

definition doc_matches :: "gostring \<Rightarrow> gostring \<Rightarrow> bool" where
  "doc_matches doc stored \<longleftrightarrow> stored = doc \<or> stored = ''all'' \<or> doc = ''permit'' \<and> stored = ''rc''
     \<or> doc = ''rc'' \<and> stored = ''permit''"

definition isExempt :: "trip_env \<Rightarrow> gostring \<Rightarrow> gostring \<Rightarrow> gostring \<Rightarrow> bool tact" where
  "isExempt e entity k doc =
     andThen (clock (outer e)) (\<lambda>now. andThen (attempt (query (outer e) (\<lambda>d.
       find (\<lambda>x. ex_EntityType x = entity \<and> ex_EntityID x = k \<and> doc_matches doc (ex_DocType x)
         \<and> whole_second now < ExemptUntil x) (exemptions d)))) (\<lambda>r.
       ret (case r of Inr (Some x) \<Rightarrow> ex_ID x \<noteq> '''' | _ \<Rightarrow> False)))"

definition insert_check :: "compliance_check \<Rightarrow> trip_db \<Rightarrow> goerr + trip_db" where
  "insert_check c d =
     (if chk_ID c \<in> chk_ID ` set (checks d) then Inl (ErrMsg ''UNIQUE constraint failed: compliance_checks.id'')
      else Inr (d\<lparr>checks := checks d @ [c]\<rparr>))"

definition recordComplianceCheck :: "trip_env \<Rightarrow> gostring \<Rightarrow> gostring \<Rightarrow> gostring \<Rightarrow> gostring \<Rightarrow> gostring \<Rightarrow> unit tact" where
  "recordComplianceCheck e entity k check status details =
     andThen (clock (outer e)) (\<lambda>now. andThen (attempt (exec_stmt (outer e) (insert_check
       \<lparr>chk_ID = ''chk-'' @ unix_nano now, chk_EntityType = entity, chk_EntityID = k, chk_Type = check,
        chk_Status = status, chk_Details = details\<rparr>))) (\<lambda>_. ret ()))"

text \<open>The driver, as both use cases check it: \<open>found_expired\<close> says what else is done about the licence.\<close>

definition driver_check :: "trip_env \<Rightarrow> (bool \<Rightarrow> unit tact) \<Rightarrow> gostring \<Rightarrow> gostring \<Rightarrow> unit tact" where
  "driver_check e found_expired k tenant =
     andThen (wrap (''driver '' @ k @ '' not found: '') (find_driver e k tenant)) (\<lambda>dr.
       if dr_Status dr \<in> {''inactive'', ''leave''}
       then fail (ErrMsg (''driver '' @ k @ '' is not assignable (status: '' @ dr_Status dr @ '')''))
       else andThen (clock (outer e)) (\<lambda>now.
         if \<not> IsZero (dr_LicenseExpiry dr) \<and> dr_LicenseExpiry dr < start_of_day now
         then andThen (isExempt e ''driver'' k ''license'') (\<lambda>exempt. andThen (found_expired exempt) (\<lambda>_.
                if exempt then ret () else fail (ErrMsg ''dispatch blocked: driver license expired (compliance)'')))
         else ret ()))"

definition assign_driver_compliance :: "trip_env \<Rightarrow> gostring \<Rightarrow> gostring \<Rightarrow> unit tact" where
  "assign_driver_compliance e k = driver_check e (\<lambda>exempt.
     if exempt then recordComplianceCheck e ''driver'' k ''license'' ''warning'' ''bypassed by exemption''
     else recordComplianceCheck e ''driver'' k ''license'' ''expired'' ''driver license expired'') k"

definition start_driver_compliance :: "trip_env \<Rightarrow> gostring \<Rightarrow> gostring \<Rightarrow> unit tact" where
  "start_driver_compliance e = driver_check e (\<lambda>_. ret ())"

section \<open>Maintenance\<close>

text \<open>
  \<open>IsMaintenanceBlocked\<close>: the reason why a vehicle is blocked, if it is. It reads outside the transaction,
  whose body does not write the tables it reads.
\<close>

definition critical_code :: "gostring \<Rightarrow> trip_db \<Rightarrow> gostring option" where
  "critical_code k d =
     (case sort_key (\<lambda>x. - dtc_OccurredAt x) (filter (\<lambda>x. dtc_VehicleID x = k \<and> dtc_Severity x = ''critical''
        \<and> \<not> dtc_Resolved x) (dtc_events d)) of [] \<Rightarrow> None | x # _ \<Rightarrow> Some (dtc_Code x))"

definition active_work_order :: "gostring \<Rightarrow> trip_db \<Rightarrow> gostring option" where
  "active_work_order k d =
     map_option wo_ID (find (\<lambda>w. wo_VehicleID w = k \<and> wo_Status w \<in> {''in_progress'', ''assigned''}) (work_orders d))"

definition text_found :: "goerr + gostring option \<Rightarrow> gostring" where
  "text_found r = (case r of Inr (Some s) \<Rightarrow> s | _ \<Rightarrow> '''')"

definition block_reason :: "gostring \<Rightarrow> vehicle_row \<Rightarrow> gostring \<Rightarrow> gostring \<Rightarrow> gostring option" where
  "block_reason k v dtc wo =
     (let due = column_text (vr_MaintenanceDue v);
          tail = ''); override requires maintenance:update permission'' in
      if due = '''' \<and> dtc = '''' \<and> wo = '''' then None
      else if column_text (vr_OverrideBy v) \<noteq> '''' \<and> vr_OverrideAt v \<noteq> None then None
      else if wo \<noteq> '''' then Some (''vehicle '' @ k @ '' is blocked for maintenance (work order '' @ wo @ '' in-process'' @ tail)
      else if due \<noteq> '''' then Some (''vehicle '' @ k @ '' is blocked for maintenance (due since: '' @ due @ tail)
      else Some (''vehicle '' @ k @ '' is blocked for maintenance (unresolved critical DTC '' @ dtc @ tail))"

definition IsMaintenanceBlocked :: "trip_env \<Rightarrow> gostring \<Rightarrow> gostring option tact" where
  "IsMaintenanceBlocked e k =
     andThen (found (query (outer e) (\<lambda>d. find (\<lambda>v. vr_ID v = k) (vehicles_t d)))) (\<lambda>v.
     andThen (attempt (query (outer e) (critical_code k))) (\<lambda>dtc.
     andThen (attempt (query (outer e) (active_work_order k))) (\<lambda>wo.
       ret (block_reason k v (text_found dtc) (text_found wo)))))"

text \<open>A block stops the assignment unless it is overridden, which is audited; an error of the check is passed over.\<close>

definition maintenance_gate :: "trip_env \<Rightarrow> gostring \<Rightarrow> bool \<Rightarrow> gostring \<Rightarrow> gostring \<Rightarrow> audit_note \<Rightarrow> unit tact" where
  "maintenance_gate e vehicle overrideMaintenance action k note =
     andThen (attempt (IsMaintenanceBlocked e vehicle)) (\<lambda>r.
       case r of
         Inr (Some reason) \<Rightarrow>
           if \<not> overrideMaintenance then fail (ErrMsg reason) else logAudit e action k (Some note)
       | _ \<Rightarrow> ret ())"

section \<open>Overrides\<close>

definition insert_override :: "dispatch_override \<Rightarrow> trip_db \<Rightarrow> goerr + trip_db" where
  "insert_override x d =
     (if ovr_ID x \<in> ovr_ID ` set (overrides d) then Inl (ErrMsg ''UNIQUE constraint failed: dispatch_overrides.id'')
      else Inr (d\<lparr>overrides := overrides d @ [x]\<rparr>))"

definition record_override :: "trip_env \<Rightarrow> gostring \<Rightarrow> gostring \<Rightarrow> gostring \<Rightarrow> gostring \<Rightarrow> gostring \<Rightarrow> gostring \<Rightarrow> unit tact" where
  "record_override e tenant k vehicle driver blockedBy reason =
     andThen (clock (outer e)) (\<lambda>now. exec_stmt (outer e) (insert_override
       \<lparr>ovr_ID = ''ovr-'' @ unix_nano now, ovr_TenantID = tenant, ovr_TripID = k, ovr_VehicleID = vehicle,
        ovr_DriverID = driver, ovr_BlockedBy = blockedBy, ovr_Reason = reason, ovr_By = ctx_user e\<rparr>))"

definition justified_override :: "bool \<Rightarrow> gostring \<Rightarrow> bool" where
  "justified_override overrideMaintenance reason \<longleftrightarrow> overrideMaintenance \<and> 10 \<le> length (TrimSpace reason)"

section \<open>Assigning a driver\<close>

record AssignDriverCommand =
  ad_TripID :: gostring
  ad_DriverID :: gostring
  ad_TenantID :: gostring
  ad_Override :: bool
  ad_Reason :: gostring

definition override_driver :: "trip_env \<Rightarrow> AssignDriverCommand \<Rightarrow> TripAggregate \<Rightarrow> goerr \<Rightarrow> unit tact" where
  "override_driver e cmd t err =
     (if justified_override (ad_Override cmd) (ad_Reason cmd)
      then andThen (logAudit e ''assign_driver_override'' (ad_TripID cmd)
                      (Some (Driver_override (ad_DriverID cmd) (ad_Reason cmd) (err_text err)))) (\<lambda>_.
           let tenant = (if ad_TenantID cmd = '''' then trip_TenantID t else ad_TenantID cmd) in
           if tenant = '''' then fail (ErrMsg ''cannot record dispatch override audit: tenant unknown'')
           else wrap ''record dispatch override audit: ''
             (record_override e tenant (ad_TripID cmd) (column_text (trip_VehicleID t)) (ad_DriverID cmd)
               ''license_expiry'' (ad_Reason cmd)))
      else fail err)"

definition no_conflict :: "gostring \<Rightarrow> trip_row list tact \<Rightarrow> unit tact" where
  "no_conflict who m =
     andThen m (\<lambda>conflicts.
       case conflicts of [] \<Rightarrow> ret ()
       | c # _ \<Rightarrow> fail (ErrMsg (who @ '' has conflicting trips: '' @ m_TripNumber c)))"

definition assign_driver_body :: "trip_env \<Rightarrow> AssignDriverCommand \<Rightarrow> unit tact" where
  "assign_driver_body e cmd =
     andThen (trip_Find (outer e) (ad_TripID cmd) (ad_TenantID cmd)) (\<lambda>t.
     andThen (attempt (assign_driver_compliance e (ad_DriverID cmd) (ad_TenantID cmd))) (\<lambda>r.
     andThen (case r of Inr _ \<Rightarrow> ret () | Inl err \<Rightarrow> override_driver e cmd t err) (\<lambda>_.
     andThen (let v = column_text (trip_VehicleID t) in if v = '''' then ret ()
              else maintenance_gate e v (ad_Override cmd) ''assign_driver_override'' (ad_TripID cmd)
                     (Maintenance_override v (ad_DriverID cmd) (ad_Reason cmd))) (\<lambda>_.
     andThen (no_conflict (''driver '' @ ad_DriverID cmd) (CheckDriverConflict (outer e) (ad_DriverID cmd) (ad_TenantID cmd)
                (ad_TripID cmd) (DepartureTime t) (ArrivalTime t))) (\<lambda>_.
     andThen (clock (outer e)) (\<lambda>now. andThen (run_op (AssignDriver (ad_DriverID cmd) now t)) (store_trip e ''assign'')))))))"

definition AssignTripDriver :: "trip_env \<Rightarrow> AssignDriverCommand \<Rightarrow> unit tact" where
  "AssignTripDriver e cmd =
     (if ad_DriverID cmd = '''' then fail (ErrMsg ''driver ID is required'')
      else with_tx (outer e) False (\<lambda>_. assign_driver_body e cmd))"

section \<open>Assigning a vehicle\<close>

record AssignVehicleCommand =
  av_TripID :: gostring
  av_VehicleID :: gostring
  av_TenantID :: gostring
  av_Override :: bool
  av_Reason :: gostring

definition seven_days :: int where
  "seven_days = 7 * 24 * 3600000000000"

definition vehicle_record :: "trip_env \<Rightarrow> AssignVehicleCommand \<Rightarrow> gostring \<Rightarrow> gostring \<Rightarrow> gostring \<Rightarrow> unit tact" where
  "vehicle_record e cmd = recordComplianceCheck e ''vehicle'' (av_VehicleID cmd)"

text \<open>The audit row and the tenant check that an override of either kind starts with.\<close>

definition begin_override :: "trip_env \<Rightarrow> AssignVehicleCommand \<Rightarrow> gostring \<Rightarrow> unit tact" where
  "begin_override e cmd doc =
     andThen (logAudit e ''assign_vehicle_override'' (av_TripID cmd)
                (Some (Vehicle_override (av_VehicleID cmd) doc (av_Reason cmd)))) (\<lambda>_.
       if av_TenantID cmd = '''' then fail (ErrMsg ''cannot record dispatch override audit: tenant unknown'') else ret ())"

definition vehicle_override :: "trip_env \<Rightarrow> AssignVehicleCommand \<Rightarrow> gostring \<Rightarrow> unit tact" where
  "vehicle_override e cmd blockedBy =
     record_override e (av_TenantID cmd) (av_TripID cmd) (av_VehicleID cmd) '''' blockedBy (av_Reason cmd)"

text \<open>Insurance, fitness and permit.\<close>

definition expiry_check :: "trip_env \<Rightarrow> AssignVehicleCommand \<Rightarrow> gotime \<Rightarrow> gostring \<times> gotime \<Rightarrow> unit tact" where
  "expiry_check e cmd now x =
     (case x of (name, when) \<Rightarrow>
        if IsZero when then ret ()
        else if when < now then
          andThen (isExempt e ''vehicle'' (av_VehicleID cmd) name) (\<lambda>exempt.
            if exempt then vehicle_record e cmd name ''warning'' ''bypassed by exemption''
            else if justified_override (av_Override cmd) (av_Reason cmd) then
              andThen (begin_override e cmd name) (\<lambda>_.
              andThen (vehicle_override e cmd (name @ ''_expiry'')) (\<lambda>_.
                vehicle_record e cmd name ''warning'' ''bypassed by override''))
            else andThen (vehicle_record e cmd name ''expired'' (''vehicle '' @ name @ '' expired'')) (\<lambda>_.
                fail (ErrMsg (''dispatch blocked: vehicle '' @ name @ '' expired (compliance)''))))
        else if when < now + seven_days
          then vehicle_record e cmd name ''warning'' (''vehicle '' @ name @ '' expires in <7 days'')
        else ret ())"

definition getPUCExpiry :: "trip_env \<Rightarrow> gostring \<Rightarrow> gotime option tact" where
  "getPUCExpiry e k =
     andThen (attempt (query (outer e) (\<lambda>d. find (\<lambda>v. vr_ID v = k) (vehicles_t d)))) (\<lambda>r.
       ret (case r of Inr (Some v) \<Rightarrow> (case vr_PUCExpiry v of Some t \<Rightarrow> if IsZero t then None else Some t | None \<Rightarrow> None)
            | _ \<Rightarrow> None))"

text \<open>
  The certificate of pollution: here the table of overrides is created if it is missing, which it is not,
  and errors of both statements are passed over.
\<close>

definition puc_certificate :: "trip_env \<Rightarrow> AssignVehicleCommand \<Rightarrow> gotime \<Rightarrow> gotime \<Rightarrow> unit tact" where
  "puc_certificate e cmd now puc =
     (if IsZero puc then ret ()
      else if puc < now then
        andThen (isExempt e ''vehicle'' (av_VehicleID cmd) ''puc'') (\<lambda>exempt.
          if exempt then vehicle_record e cmd ''puc'' ''warning'' ''bypassed by exemption''
          else if justified_override (av_Override cmd) (av_Reason cmd) then
            andThen (begin_override e cmd ''puc'') (\<lambda>_.
            andThen (attempt (exec_stmt (outer e) Inr)) (\<lambda>_.
            andThen (attempt (vehicle_override e cmd ''puc_expiry'')) (\<lambda>_.
              vehicle_record e cmd ''puc'' ''warning'' ''bypassed by override'')))
          else andThen (vehicle_record e cmd ''puc'' ''expired'' ''vehicle PUC expired'') (\<lambda>_.
              fail (ErrMsg ''dispatch blocked: vehicle PUC expired (compliance)'')))
      else if puc < now + seven_days then vehicle_record e cmd ''puc'' ''warning'' ''vehicle PUC expires in <7 days''
      else ret ())"

definition unassignable :: "gostring \<Rightarrow> vehicle_row \<Rightarrow> goerr option" where
  "unassignable k v =
     (if vr_Status v \<in> {''inactive'', ''maintenance''}
      then Some (ErrMsg (''vehicle '' @ k @ '' is not assignable (status: '' @ vr_Status v @ '')'')) else None)"

definition vehicle_blocked :: "gotime \<Rightarrow> vehicle_row \<Rightarrow> goerr option" where
  "vehicle_blocked now v =
     (if vr_Blocked v \<or> vr_Status v = ''blocked''
      then Some (ErrMsg (''dispatch blocked: '' @ (if vr_BlockedReason v = '''' then ''vehicle is compliance blocked''
        else vr_BlockedReason v) @ '' (compliance)''))
      else case vr_RCExpiry v of
          Some rc \<Rightarrow> if \<not> IsZero rc \<and> rc < now then Some (ErrMsg ''dispatch blocked: vehicle RC expired (compliance)'') else None
        | None \<Rightarrow> None)"

definition unless_refused :: "goerr option \<Rightarrow> 'a tact \<Rightarrow> 'a tact" where
  "unless_refused r m = (case r of None \<Rightarrow> m | Some err \<Rightarrow> fail err)"

definition documents :: "vehicle_row \<Rightarrow> (gostring \<times> gotime) list" where
  "documents v = [(''insurance'', vr_InsuranceExpiry v), (''fitness'', vr_FitnessExpiry v), (''permit'', vr_PermitExpiry v)]"

definition assign_vehicle_compliance :: "trip_env \<Rightarrow> AssignVehicleCommand \<Rightarrow> unit tact" where
  "assign_vehicle_compliance e cmd =
     (let k = av_VehicleID cmd in
      andThen (wrap (''vehicle '' @ k @ '' not found: '') (find_vehicle e k (av_TenantID cmd))) (\<lambda>v.
      unless_refused (unassignable k v) (andThen (clock (outer e)) (\<lambda>now. let now = start_of_day now in
      unless_refused (vehicle_blocked now v)
        (andThen (for_each (expiry_check e cmd now) (documents v)) (\<lambda>_.
         andThen (case vr_PUCExpiry v of None \<Rightarrow> getPUCExpiry e k | Some t \<Rightarrow> ret (Some t)) (\<lambda>puc.
         andThen (case puc of None \<Rightarrow> ret () | Some t \<Rightarrow> puc_certificate e cmd now t) (\<lambda>_.
           maintenance_gate e k (av_Override cmd) ''assign_vehicle_override'' (av_TripID cmd)
             (Vehicle_maintenance_override k (av_Reason cmd))))))))))"

definition assign_vehicle_body :: "trip_env \<Rightarrow> AssignVehicleCommand \<Rightarrow> unit tact" where
  "assign_vehicle_body e cmd =
     andThen (trip_Find (outer e) (av_TripID cmd) (av_TenantID cmd)) (\<lambda>t.
     let cmd = (if av_TenantID cmd = '''' then cmd\<lparr>av_TenantID := trip_TenantID t\<rparr> else cmd) in
     andThen (assign_vehicle_compliance e cmd) (\<lambda>_.
     andThen (no_conflict (''vehicle '' @ av_VehicleID cmd) (CheckVehicleConflict (outer e) (av_VehicleID cmd)
                (av_TenantID cmd) (av_TripID cmd) (DepartureTime t) (ArrivalTime t))) (\<lambda>_.
     andThen (clock (outer e)) (\<lambda>now. andThen (run_op (AssignVehicle (av_VehicleID cmd) now t)) (store_trip e ''assign'')))))"

definition AssignTripVehicle :: "trip_env \<Rightarrow> AssignVehicleCommand \<Rightarrow> unit tact" where
  "AssignTripVehicle e cmd =
     (if av_VehicleID cmd = '''' then fail (ErrMsg ''vehicle ID is required'')
      else with_tx (outer e) False (\<lambda>_. assign_vehicle_body e cmd))"

section \<open>Starting a trip\<close>

definition start_document :: "trip_env \<Rightarrow> gostring \<Rightarrow> gotime \<Rightarrow> gostring \<times> gotime \<Rightarrow> unit tact" where
  "start_document e k now x =
     (case x of (name, when) \<Rightarrow>
        if \<not> IsZero when \<and> when < now then
          andThen (isExempt e ''vehicle'' k name) (\<lambda>exempt.
            if exempt then ret () else fail (ErrMsg (''dispatch blocked: vehicle '' @ name @ '' expired (compliance)'')))
        else ret ())"

definition start_puc :: "trip_env \<Rightarrow> gostring \<Rightarrow> gotime \<Rightarrow> gotime option \<Rightarrow> unit tact" where
  "start_puc e k now puc =
     (case puc of
        None \<Rightarrow> ret ()
      | Some t \<Rightarrow> if \<not> IsZero t \<and> t < now
          then andThen (isExempt e ''vehicle'' k ''puc'') (\<lambda>exempt.
            if exempt then ret () else fail (ErrMsg ''dispatch blocked: vehicle PUC expired (compliance)''))
          else ret ())"

definition start_vehicle_compliance :: "trip_env \<Rightarrow> gostring \<Rightarrow> gostring \<Rightarrow> unit tact" where
  "start_vehicle_compliance e k tenant =
     andThen (wrap (''vehicle '' @ k @ '' not found: '') (find_vehicle e k tenant)) (\<lambda>v.
     unless_refused (unassignable k v) (andThen (clock (outer e)) (\<lambda>now. let now = start_of_day now in
       andThen (for_each (start_document e k now) (documents v)) (\<lambda>_.
       andThen (getPUCExpiry e k) (start_puc e k now)))))"

definition at_gate :: "gostring \<Rightarrow> TripAggregate \<Rightarrow> TripAggregate" where
  "at_gate facility t = (if facility = '''' then t else t\<lparr>GateFacilityID := facility\<rparr>)"

text \<open>The reading at the gate, or that of the vehicle when none was given; the latter is best effort.\<close>

definition start_reading :: "trip_env \<Rightarrow> gostring \<Rightarrow> float64 option \<Rightarrow> gostring \<Rightarrow> TripAggregate \<Rightarrow> TripAggregate tact" where
  "start_reading e tenant odometer facility t =
     (case odometer of
        Some x \<Rightarrow> andThen (clock (outer e)) (\<lambda>now. run_op (RecordStartReading x facility now t))
      | None \<Rightarrow>
          let v = column_text (trip_VehicleID t) in
          if v = '''' then ret (at_gate facility t)
          else andThen (attempt (find_vehicle e v tenant)) (\<lambda>r.
               andThen (case r of
                   Inr vr \<Rightarrow> if 0 < vr_Odometer vr
                     then andThen (clock (outer e)) (\<lambda>now. ret (fst (RecordStartReading (vr_Odometer vr) facility now t)))
                     else ret t
                 | Inl _ \<Rightarrow> ret t) (\<lambda>t.
               ret (if GateFacilityID t = '''' then at_gate facility t else t))))"

definition start_trip_body :: "trip_env \<Rightarrow> gostring \<Rightarrow> gostring \<Rightarrow> float64 option \<Rightarrow> gostring \<Rightarrow> unit tact" where
  "start_trip_body e k tenant odometer facility =
     andThen (trip_Find (outer e) k tenant) (\<lambda>t.
       let dr = column_text (trip_DriverID t); v = column_text (trip_VehicleID t) in
       if dr = '''' then fail (ErrMsg ''driver must be assigned before trip can start'')
       else andThen (start_driver_compliance e dr tenant) (\<lambda>_.
            andThen (if v = '''' then ret () else start_vehicle_compliance e v tenant) (\<lambda>_.
            andThen (clock (outer e)) (\<lambda>now. andThen (run_op (trip_Start now t)) (\<lambda>t.
            andThen (start_reading e tenant odometer facility t) (store_trip e ''start''))))))"

definition StartTrip :: "trip_env \<Rightarrow> gostring \<Rightarrow> gostring \<Rightarrow> float64 option \<Rightarrow> gostring \<Rightarrow> unit tact" where
  "StartTrip e k tenant odometer facility =
     with_tx (outer e) False (\<lambda>_. start_trip_body e k tenant odometer facility)"

section \<open>Creating a trip\<close>

record CreateTripCommand =
  ct_TenantID :: gostring
  ct_BookingID :: "gostring option"
  ct_RouteID :: gostring
  ct_DepartureTime :: gotime
  ct_Remarks :: gostring
  ct_IdempotencyKey :: gostring
  ct_Stops :: "TripStop list"

record contact =
  co_Name :: gostring
  co_Phone :: gostring
  co_Email :: gostring

definition no_contact :: contact where
  "no_contact = \<lparr>co_Name = '''', co_Phone = '''', co_Email = ''''\<rparr>"

definition replay :: "trip_env \<Rightarrow> CreateTripCommand \<Rightarrow> gostring option tact" where
  "replay e cmd =
     (if ct_IdempotencyKey cmd = '''' then ret None
      else andThen (attempt (FindByIdempotencyKey (outer e) (ct_IdempotencyKey cmd) (ct_TenantID cmd))) (\<lambda>r.
        ret (case r of Inr t \<Rightarrow> Some (trip_ID t) | Inl _ \<Rightarrow> None)))"

definition find_booking :: "trip_env \<Rightarrow> gostring \<Rightarrow> gostring \<Rightarrow> booking_row tact" where
  "find_booking e k tenant =
     andThen (query (outer e) (\<lambda>d. find (\<lambda>b. br_ID b = k \<and> br_TenantID b = tenant) (bookings_t d))) (\<lambda>r.
       case r of None \<Rightarrow> fail (ErrMsg ''booking not found'') | Some b \<Rightarrow> ret b)"

definition find_contact :: "trip_env \<Rightarrow> gostring \<Rightarrow> gostring \<Rightarrow> contact tact" where
  "find_contact e k tenant =
     (if k = '''' then ret no_contact
      else andThen (attempt (query (outer e) (\<lambda>d. find (\<lambda>c. cu_ID c = k \<and> cu_TenantID c = tenant) (customers_t d)))) (\<lambda>r.
        ret (case r of
            Inr (Some c) \<Rightarrow> \<lparr>co_Name = column_text (cu_Name c), co_Phone = column_text (cu_Phone c),
              co_Email = column_text (cu_Email c)\<rparr>
          | _ \<Rightarrow> no_contact)))"

text \<open>The booking of a trip: it must be open, and its trip, if the query finds one, over.\<close>

definition booking_contact :: "trip_env \<Rightarrow> CreateTripCommand \<Rightarrow> contact tact" where
  "booking_contact e cmd =
     (let k = column_text (ct_BookingID cmd) in
      if k = '''' then ret no_contact
      else andThen (wrap (''booking '' @ k @ '' not found: '') (find_booking e k (ct_TenantID cmd))) (\<lambda>b.
        if br_TenantID b \<noteq> ct_TenantID cmd then fail (ErrMsg ''booking belongs to a different tenant'')
        else if br_Status b \<notin> {''pending'', ''confirmed''}
          then fail (ErrMsg (''booking '' @ k @ '' is '' @ br_Status b @ '', cannot create trip''))
        else andThen (attempt (FindByBookingID (outer e) k (ct_TenantID cmd))) (\<lambda>r.
          case r of
            Inr old \<Rightarrow>
              if trip_Status old \<in> {TripCompleted, TripCancelled} then find_contact e (br_CustomerID b) (ct_TenantID cmd)
              else fail (ErrMsg (''booking '' @ k @ '' already has active trip '' @ TripNumber old))
          | Inl _ \<Rightarrow> find_contact e (br_CustomerID b) (ct_TenantID cmd))))"

record route_plan =
  rp_Source :: gostring
  rp_Destination :: gostring
  rp_Hours :: float64
  rp_SourceLat :: "float64 option"
  rp_SourceLng :: "float64 option"
  rp_DestLat :: "float64 option"
  rp_DestLng :: "float64 option"

definition non_blank_or :: "gostring \<Rightarrow> gostring \<Rightarrow> gostring" where
  "non_blank_or placeholder s = (if TrimSpace s = '''' then placeholder else s)"

definition plan_of :: "trip_env \<Rightarrow> CreateTripCommand \<Rightarrow> route_plan tact" where
  "plan_of e cmd =
     andThen (attempt (query (outer e) (\<lambda>d.
       find (\<lambda>r. ro_ID r = ct_RouteID cmd \<and> ro_TenantID r = ct_TenantID cmd) (routes_t d)))) (\<lambda>r.
     andThen (attempt (query (outer e) (\<lambda>d. find (\<lambda>l. lo_RouteID l = ct_RouteID cmd) (locations_t d)))) (\<lambda>l.
       let p = \<lparr>rp_Source = ''Pickup'', rp_Destination = ''Drop'', rp_Hours = Fin 0, rp_SourceLat = None,
                rp_SourceLng = None, rp_DestLat = None, rp_DestLng = None\<rparr>;
           p = (case r of
               Inr (Some ro) \<Rightarrow> p\<lparr>rp_Source := non_blank_or ''Pickup'' (ro_Source ro),
                 rp_Destination := non_blank_or ''Drop'' (ro_Destination ro),
                 rp_Hours := (case ro_Hours ro of None \<Rightarrow> Fin 0 | Some h \<Rightarrow> h)\<rparr>
             | _ \<Rightarrow> p)
       in ret (case l of
               Inr (Some lo) \<Rightarrow> p\<lparr>rp_SourceLat := lo_SourceLat lo, rp_SourceLng := lo_SourceLng lo,
                 rp_DestLat := lo_DestLat lo, rp_DestLng := lo_DestLng lo\<rparr>
             | _ \<Rightarrow> p)))"

definition place :: "float64 option \<Rightarrow> float64 option \<Rightarrow> TripStop \<Rightarrow> TripStop" where
  "place lat lng s =
     (if lat \<noteq> None \<and> lng \<noteq> None then s\<lparr>TripStop.Latitude := lat, TripStop.Longitude := lng\<rparr> else s)"

definition pending_stop :: "gostring \<Rightarrow> TripAggregate \<Rightarrow> gostring \<Rightarrow> gotime \<Rightarrow> TripStop" where
  "pending_stop k t location now =
     \<lparr>stop_ID = k, stop_TenantID = trip_TenantID t, stop_TripID = trip_ID t, StopSequence = 1, StopType = StopTypePickup,
      LocationName = location, TripStop.Address = location, TripStop.Latitude = None, TripStop.Longitude = None,
      GeofenceRadiusM = F 150, ConsigneeName = '''', ConsigneePhone = '''', ConsigneeEmail = '''', PlannedArrival = None,
      ActualArrival = None, ActualDeparture = None, stop_Status = StopStatusPending, OTPRequired = False, OTPCode = '''',
      OTPExpiresAt = None, OTPVerifiedAt = None, PODRequired = False, PODURL = '''', PODSignatureURL = '''',
      PODVerifiedAt = None, PODNotes = '''', FailureReason = '''', stop_CreatedAt = now, stop_UpdatedAt = now\<rparr>"

definition drop_eta :: "gotime \<Rightarrow> float64 \<Rightarrow> gotime" where
  "drop_eta departure hours =
     departure + (if hours \<le> 0 then 4 * 3600000000000 else sint (int64_of_float (fmul hours (F 3600000000000))))"

definition pickup_stop :: "gostring \<Rightarrow> TripAggregate \<Rightarrow> route_plan \<Rightarrow> gotime \<Rightarrow> TripStop" where
  "pickup_stop k t p now = place (rp_SourceLat p) (rp_SourceLng p)
     ((pending_stop k t (rp_Source p) now)\<lparr>PlannedArrival := Some (DepartureTime t)\<rparr>)"

definition drop_stop :: "gostring \<Rightarrow> TripAggregate \<Rightarrow> route_plan \<Rightarrow> gostring \<Rightarrow> contact \<Rightarrow> gotime \<Rightarrow> TripStop" where
  "drop_stop k t p otp c now =
     (let eta = drop_eta (DepartureTime t) (rp_Hours p) in
      place (rp_DestLat p) (rp_DestLng p)
        ((pending_stop k t (rp_Destination p) now)\<lparr>StopSequence := 2, StopType := StopTypeDrop, PlannedArrival := Some eta,
          OTPRequired := True, OTPCode := otp, OTPExpiresAt := Some (eta + 48 * 3600000000000), PODRequired := True,
          ConsigneeName := co_Name c, ConsigneePhone := co_Phone c, ConsigneeEmail := co_Email c\<rparr>))"

text \<open>\<open>rand.Int\<close> below 900000, moved to six digits.\<close>

definition draw_otp :: "trip_env \<Rightarrow> gostring tact" where
  "draw_otp e w = (Inr (decimal (random_at e (tick w) mod 900000 + 100000)), w\<lparr>tick := Suc (tick w)\<rparr>)"

definition seed_stops :: "trip_env \<Rightarrow> CreateTripCommand \<Rightarrow> contact \<Rightarrow> TripAggregate \<Rightarrow> TripAggregate tact" where
  "seed_stops e cmd c t =
     (if Stops t \<noteq> [] then ret t
      else andThen (plan_of e cmd) (\<lambda>p. andThen (clock (outer e)) (\<lambda>now.
           andThen (new_uuid (outer e)) (\<lambda>u. andThen (draw_otp e) (\<lambda>otp. andThen (new_uuid (outer e)) (\<lambda>v.
             ret (AddStop (drop_stop v t p otp c now) (AddStop (pickup_stop u t p now) t))))))))"

text \<open>The code of the first stop with sequence 2 is copied to the row.\<close>

definition sync_otp :: "TripAggregate \<Rightarrow> TripStop \<Rightarrow> trip_db \<Rightarrow> goerr + trip_db" where
  "sync_otp t s d = Inr (d\<lparr>trip_rows := map (\<lambda>r. if is_trip (trip_ID t) (trip_TenantID t) r
     then r\<lparr>pod_otp := Some (OTPCode s), pod_otp_expires_at := OTPExpiresAt s,
            pod_consignee_name := Some (ConsigneeName s), pod_consignee_phone := Some (ConsigneePhone s)\<rparr> else r)
     (trip_rows d)\<rparr>)"

definition sync_stop :: "trip_env \<Rightarrow> TripAggregate \<Rightarrow> unit tact" where
  "sync_stop e t =
     (case find (\<lambda>s. StopSequence s = 2 \<and> OTPCode s \<noteq> '''') (Stops t) of
        None \<Rightarrow> ret ()
      | Some s \<Rightarrow> andThen (attempt (exec_stmt (outer e) (sync_otp t s))) (\<lambda>_. ret ()))"

definition unique_violation :: "goerr \<Rightarrow> bool" where
  "unique_violation err \<longleftrightarrow> contains_text (err_text err) ''UNIQUE constraint failed''"

text \<open>A lost race for an idempotency key returns the trip that won it.\<close>

definition save_new :: "trip_env \<Rightarrow> CreateTripCommand \<Rightarrow> TripAggregate \<Rightarrow> gostring tact" where
  "save_new e cmd t =
     andThen (attempt (trip_Save (outer e) t)) (\<lambda>r.
       case r of
         Inl err \<Rightarrow>
           andThen (if unique_violation err then replay e cmd else ret None) (\<lambda>won.
             case won of Some k \<Rightarrow> ret k | None \<Rightarrow> fail err)
       | Inr t \<Rightarrow> andThen (sync_stop e t) (\<lambda>_. andThen (logAudit e ''create'' (trip_ID t) None) (\<lambda>_. ret (trip_ID t))))"

definition create_trip_body :: "trip_env \<Rightarrow> CreateTripCommand \<Rightarrow> TripAggregate \<Rightarrow> gostring tact" where
  "create_trip_body e cmd t =
     andThen (replay e cmd) (\<lambda>won.
       case won of
         Some k \<Rightarrow> ret k
       | None \<Rightarrow> andThen (booking_contact e cmd) (\<lambda>c. andThen (seed_stops e cmd c t) (save_new e cmd)))"

definition new_trip :: "CreateTripCommand \<Rightarrow> gostring \<Rightarrow> gostring \<Rightarrow> gotime \<Rightarrow> TripAggregate" where
  "new_trip cmd u v now = foldl (\<lambda>t s. AddStop s t)
     (trip_SetIdempotencyKey (ct_IdempotencyKey cmd) (NewTripAggregate u (ct_TenantID cmd) (''TR-'' @ take 8 v)
        (ct_BookingID cmd) (ct_RouteID cmd) (ct_DepartureTime cmd) (ct_Remarks cmd) now)) (ct_Stops cmd)"

definition CreateTrip :: "trip_env \<Rightarrow> CreateTripCommand \<Rightarrow> gostring tact" where
  "CreateTrip e cmd =
     (if ct_RouteID cmd = '''' then fail (ErrMsg ''route ID is required'')
      else if IsZero (ct_DepartureTime cmd) then fail (ErrMsg ''departure time is required'')
      else andThen (new_uuid (outer e)) (\<lambda>u. andThen (new_uuid (outer e)) (\<lambda>v. andThen (clock (outer e)) (\<lambda>now.
        with_tx (outer e) False (\<lambda>_. create_trip_body e cmd (new_trip cmd u v now))))))"

end
