(* ===== verification/TripUseSteps.thy ===== *)
theory TripUseSteps
  imports TripUse
begin

text \<open>
  What the use cases of trips do to the stored trips and their outbox: how an aggregate moves between
  loading and storing, what storing it does to the tables, and one lemma per use case.
\<close>

section \<open>How an aggregate moves\<close>

lemma edge_path_append: "edge_path R b fs c \<Longrightarrow> edge_path R a es b \<Longrightarrow> edge_path R a (es @ fs) c"
proof (induction rule: edge_path.induct)
  case (path_snoc st fs c ev c')
  then show ?case using edge_path.path_snoc [of R a "es @ fs" c ev c'] by simp
qed simp

definition under_way :: "TripStatus \<Rightarrow> bool" where
  "under_way st \<longleftrightarrow> st \<in> {TripAssigned, TripStarted, TripReachedPickup, TripInTransit}"

text \<open>The driver and the vehicle a trip under way holds.\<close>

definition claims :: "TripAggregate \<Rightarrow> (gostring + gostring) set" where
  "claims t = (if under_way (trip_Status t)
     then Inl ` set_option (trip_DriverID t) \<union> Inr ` set_option (trip_VehicleID t) else {})"

definition trip_over :: "TripStatus \<Rightarrow> bool" where
  "trip_over st \<longleftrightarrow> st \<in> {TripDelivered, TripCompleted, TripCancelled}"

definition stored_ok :: "TripAggregate \<Rightarrow> bool" where
  "stored_ok t \<longleftrightarrow> trip_inv t \<and> (trip_over (trip_Status t) \<or> ArrivalTime t = None)"

text \<open>A path of the life cycle from one aggregate to another, on which only the claims in \<open>C\<close> are new.\<close>

definition advance :: "(gostring + gostring) set \<Rightarrow> TripAggregate \<Rightarrow> TripAggregate \<Rightarrow> bool" where
  "advance C t t' \<longleftrightarrow>
     trip_ID t' = trip_ID t \<and> trip_TenantID t' = trip_TenantID t \<and> trip_Version t' = trip_Version t
     \<and> DepartureTime t' = DepartureTime t
     \<and> (stored_ok t \<longrightarrow> stored_ok t' \<and> claims t' \<subseteq> claims t \<union> C
        \<and> (\<exists>es. trip_events t' = trip_events t @ es \<and> edge_path lifecycle (trip_Status t) es (trip_Status t')))"

lemma advance_refl: "advance C t t"
  unfolding advance_def by (auto intro: path_nil)

lemma advance_trans:
  assumes "advance C t u" and "advance C u v"
  shows "advance C t v"
proof -
  have "stored_ok v \<and> claims v \<subseteq> claims t \<union> C
      \<and> (\<exists>es. trip_events v = trip_events t @ es \<and> edge_path lifecycle (trip_Status t) es (trip_Status v))"
    if ok: "stored_ok t"
  proof -
    obtain es where u: "stored_ok u" "claims u \<subseteq> claims t \<union> C" "trip_events u = trip_events t @ es"
        "edge_path lifecycle (trip_Status t) es (trip_Status u)"
      using assms(1) ok unfolding advance_def by blast
    then obtain fs where v: "stored_ok v" "claims v \<subseteq> claims u \<union> C" "trip_events v = trip_events u @ fs"
        "edge_path lifecycle (trip_Status u) fs (trip_Status v)"
      using assms(2) unfolding advance_def by blast
    then show ?thesis using u edge_path_append [OF v(4) u(4)] by auto
  qed
  then show ?thesis using assms unfolding advance_def by simp
qed

lemma advance_mono: "advance C t u \<Longrightarrow> C \<subseteq> D \<Longrightarrow> advance D t u"
  unfolding advance_def by blast

lemma advance_step:
  assumes "step_ok t r" and "trip_ID (fst r) = trip_ID t" and "trip_TenantID (fst r) = trip_TenantID t"
    and "trip_Version (fst r) = trip_Version t" and "DepartureTime (fst r) = DepartureTime t"
    and "stored_ok t \<Longrightarrow> trip_over (trip_Status (fst r)) \<or> ArrivalTime (fst r) = None"
    and "stored_ok t \<Longrightarrow> claims (fst r) \<subseteq> claims t \<union> C"
  shows "advance C t (fst r)"
proof -
  have "\<exists>es. trip_events (fst r) = trip_events t @ es \<and> edge_path lifecycle (trip_Status t) es (trip_Status (fst r))"
    if "trip_inv t"
    using assms(1) that unfolding step_ok_def by (metis append_Nil2 append_Nil path_nil path_snoc)
  moreover have "trip_inv (fst r)" if "trip_inv t" using assms(1) that unfolding step_ok_def by blast
  ultimately show ?thesis unfolding advance_def using assms(2-7) by (auto simp: stored_ok_def)
qed

lemma arrives_late: "stored_ok t \<Longrightarrow> \<not> trip_over (trip_Status t) \<Longrightarrow> ArrivalTime t = None"
  by (auto simp: stored_ok_def)

lemma idle:
  assumes "stored_ok t" and "trip_Status t = TripDraft \<or> trip_Status t = TripScheduled"
  shows "trip_DriverID t = None \<and> trip_VehicleID t = None"
  using assms unfolding stored_ok_def trip_inv_def by blast

lemmas frame_simps = trip_RecordEvent_def Let_def claims_def under_way_def trip_over_def

lemma advance_Schedule: "advance C t (fst (trip_Schedule n t))"
  by (rule advance_step [OF step_Schedule])
     (auto simp: trip_Schedule_def frame_simps dest: arrives_late idle)

lemma advance_moves:
  "advance C t (fst (trip_Start n t))" "advance C t (fst (ReachPickup n t))" "advance C t (fst (StartTransit n t))"
  "advance C t (fst (trip_Complete n t))" "advance C t (fst (trip_Cancel n t))"
  by (rule advance_step, rule step_moves; auto simp: life_ops frame_simps dest: arrives_late idle)+

lemma advance_Deliver: "advance C t (fst (Deliver n t))"
  by (rule advance_step [OF step_Deliver]) (auto simp: Deliver_def frame_simps dest: arrives_late)

lemma advance_stops:
  "advance C t (fst (ReachStop i n t))" "advance C t (fst (VerifyStopOTP i c n t))"
  "advance C t (fst (SubmitStopPOD i u v w n t))" "advance C t (fst (CompleteStop i n t))"
  by (rule advance_step, rule step_stop_ops;
      auto simp: stop_ops trip_RecordEvent_def Let_def claims_def dest: arrives_late split: option.split)+

lemma advance_readings:
  "advance C t (fst (RecordCloseReading x n t))" "advance C t (fst (RecordStartReading x f n t))"
  by (rule advance_step, rule step_readings;
      auto simp: RecordCloseReading_def RecordStartReading_def Let_def claims_def dest: arrives_late)+

lemma advance_AssignDriver: "advance {Inl k} t (fst (AssignDriver k n t))"
proof (rule advance_step [OF step_AssignDriver])
  assume ok: "stored_ok t"
  show "claims (fst (AssignDriver k n t)) \<subseteq> claims t \<union> {Inl k}"
    using idle [OF ok] by (auto simp: AssignDriver_def before_start_def frame_simps split: TripStatus.splits)
  show "trip_over (trip_Status (fst (AssignDriver k n t))) \<or> ArrivalTime (fst (AssignDriver k n t)) = None"
    using arrives_late [OF ok] by (auto simp: AssignDriver_def before_start_def frame_simps split: TripStatus.splits)
qed (auto simp: AssignDriver_def trip_RecordEvent_def)

lemma advance_AssignVehicle: "advance {Inr k} t (fst (AssignVehicle k n t))"
proof (rule advance_step [OF step_AssignVehicle])
  assume ok: "stored_ok t"
  show "claims (fst (AssignVehicle k n t)) \<subseteq> claims t \<union> {Inr k}"
    by (auto simp: AssignVehicle_def frame_simps)
  show "trip_over (trip_Status (fst (AssignVehicle k n t))) \<or> ArrivalTime (fst (AssignVehicle k n t)) = None"
    using ok by (auto simp: stored_ok_def AssignVehicle_def trip_RecordEvent_def)
qed (auto simp: AssignVehicle_def trip_RecordEvent_def)

lemma advance_submit: "advance C t (fst (submit_pod stop pod sig notes otp n t))"
proof (cases "if otp = '''' then (t, None) else VerifyStopOTP stop otp n t")
  case (Pair t1 r)
  have "advance C t t1" using Pair advance_stops(2) [of C t stop otp n] advance_refl by (auto split: if_splits)
  then show ?thesis unfolding submit_pod_def Pair
    using advance_trans [OF _ advance_stops(3)] by (auto split: option.split)
qed

lemma advance_gate: "advance C t (t\<lparr>GateFacilityID := f\<rparr>)"
  unfolding advance_def by (auto simp: claims_def stored_ok_def intro: path_nil)

lemmas advances = advance_Schedule advance_moves advance_Deliver advance_stops advance_readings advance_submit

end
