(* ===== verification/TripUseEnds.thy ===== *)
theory TripUseEnds
  imports TripUseSteps
begin

text \<open>
  What each action of the use cases does to the stored trips: loading and storing a trip, and the
  actions that leave trips and outbox alone.
\<close>

section \<open>The trips of a database\<close>

text \<open>The columns of the model of every row, and the log of events in the outbox.\<close>

definition cores :: "trip_db \<Rightarrow> SQLTripModel list" where
  "cores d = map SQLTripModel.truncate (trip_rows d)"

definition logs :: "trip_db \<Rightarrow> (gostring \<times> TripEvent) list" where
  "logs d = map (\<lambda>r. (tob_AggregateID r, tob_Payload r)) (trip_outbox d)"

definition same_trips :: "trip_db \<Rightarrow> trip_db \<Rightarrow> bool" where
  "same_trips d d' \<longleftrightarrow> cores d' = cores d \<and> logs d' = logs d"

lemma same_trips_refl [simp]: "same_trips d d"
  by (simp add: same_trips_def)

interpretation calm: db_preorder same_trips
  by unfold_locales (simp_all add: same_trips_def)

lemma ends_calm:
  assumes "along same_trips m" and "\<And>r d'. same_trips d d' \<Longrightarrow> P r d'"
  shows "ends m d P"
  using assms unfolding ends_def along_def by blast

lemma truncate_fields [simp]:
  "m_ID (SQLTripModel.truncate r) = m_ID r" "m_TenantID (SQLTripModel.truncate r) = m_TenantID r"
  "m_Version (SQLTripModel.truncate r) = m_Version r" "m_Status (SQLTripModel.truncate r) = m_Status r"
  "m_DriverID (SQLTripModel.truncate r) = m_DriverID r" "m_VehicleID (SQLTripModel.truncate r) = m_VehicleID r"
  "m_DepartureTime (SQLTripModel.truncate r) = m_DepartureTime r" "m_ArrivalTime (SQLTripModel.truncate r) = m_ArrivalTime r"
  by (cases r; simp add: SQLTripModel.defs)+

lemma truncate_updated: "SQLTripModel.truncate (updated_row now p r) = updated_row now p (SQLTripModel.truncate r)"
  by (cases r; simp add: updated_row_def SQLTripModel.defs)

lemma truncate_new: "SQLTripModel.truncate (new_row now p) = p\<lparr>m_Version := 1, m_CreatedAt := whole_second now,
   m_UpdatedAt := whole_second now, m_CloseOdometer := real_column (m_CloseOdometer p),
   m_StartOdometer := real_column (m_StartOdometer p)\<rparr>"
  by (cases p; simp add: new_row_def SQLTripModel.defs)

lemma is_trip_truncate [simp]: "is_trip k tenant (SQLTripModel.truncate r) = is_trip k tenant r"
  by (simp add: is_trip_def)

section \<open>Actions that leave the trips alone\<close>

named_theorems calm_acts "actions that leave trips and outbox alone"

lemma calm_exec:
  assumes "\<And>d d'. f d = Inr d' \<Longrightarrow> trip_rows d' = trip_rows d \<and> trip_outbox d' = trip_outbox d"
  shows "along same_trips (exec_stmt e f)"
  by (rule calm.along_exec_stmt) (use assms in \<open>simp add: same_trips_def cores_def logs_def\<close>)

lemmas calm_rules = calm.along_intros reads_query [THEN calm.along_reads] reads_clock [THEN calm.along_reads]
  reads_new_uuid [THEN calm.along_reads] reads_ret [THEN calm.along_reads] reads_fail [THEN calm.along_reads]

lemma calm_logAudit [calm_acts]: "along same_trips (logAudit e action k new)"
  unfolding logAudit_def resolveAuditTenant_def
  by (intro calm_rules calm_exec) (auto simp: insert_audit_def split: if_splits)

lemma calm_check [calm_acts]: "along same_trips (recordComplianceCheck e entity k check status details)"
  unfolding recordComplianceCheck_def
  by (intro calm_rules calm_exec) (auto simp: insert_check_def split: if_splits)

lemma calm_override [calm_acts]: "along same_trips (record_override e tenant k vehicle driver blockedBy reason)"
  unfolding record_override_def
  by (intro calm_rules calm_exec) (auto simp: insert_override_def split: if_splits)

lemma calm_found: "along same_trips m \<Longrightarrow> along same_trips (found m)"
  unfolding found_def by (intro calm_rules)

lemma calm_reading [calm_acts]:
  "along same_trips (isExempt e entity k doc)" "along same_trips (find_driver e k tenant)"
  "along same_trips (find_vehicle e k tenant)" "along same_trips (IsMaintenanceBlocked e k)"
  "along same_trips (getPUCExpiry e k)"
  unfolding isExempt_def find_driver_def find_vehicle_def IsMaintenanceBlocked_def getPUCExpiry_def
  by (intro calm_rules calm_found)+

lemma calm_driver_check:
  "(\<And>b. along same_trips (f b)) \<Longrightarrow> along same_trips (driver_check e f k tenant)"
  unfolding driver_check_def by (intro calm_rules calm_acts)

lemma calm_driver_compliance [calm_acts]:
  "along same_trips (assign_driver_compliance e k tenant)" "along same_trips (start_driver_compliance e k tenant)"
  unfolding assign_driver_compliance_def start_driver_compliance_def
  by (intro calm_driver_check calm_rules calm_acts)+

lemma calm_gate [calm_acts]: "along same_trips (maintenance_gate e v b action k note)"
  unfolding maintenance_gate_def by (intro calm_rules calm_acts)

lemma calm_override_driver [calm_acts]: "along same_trips (override_driver e cmd t err)"
  unfolding override_driver_def Let_def by (intro calm_rules calm_acts)

lemma calm_expiry [calm_acts]: "along same_trips (expiry_check e cmd now x)"
  unfolding expiry_check_def begin_override_def vehicle_record_def vehicle_override_def
  by (intro calm_rules calm_acts)

lemma calm_puc [calm_acts]: "along same_trips (puc_certificate e cmd now puc)"
  unfolding puc_certificate_def begin_override_def vehicle_record_def vehicle_override_def
  by (intro calm_rules calm_acts calm_exec) auto

lemma calm_unless_refused: "along same_trips m \<Longrightarrow> along same_trips (unless_refused r m)"
  unfolding unless_refused_def by (intro calm_rules)

lemma calm_vehicle_compliance [calm_acts]:
  "along same_trips (assign_vehicle_compliance e cmd)" "along same_trips (start_vehicle_compliance e k tenant)"
  unfolding assign_vehicle_compliance_def start_vehicle_compliance_def start_document_def start_puc_def Let_def
  by (intro calm_rules calm_acts calm_unless_refused)+

lemma calm_loadStops [calm_acts]: "along same_trips (loadStops e k tenant)"
  unfolding loadStops_def by (intro calm_rules)

lemma calm_load [calm_acts]: "along same_trips (load_trip e hit key tenant)"
  unfolding load_trip_def by (intro calm_rules calm_acts)

lemma calm_replay [calm_acts]: "along same_trips (replay e cmd)"
  unfolding replay_def FindByIdempotencyKey_def by (intro calm_rules calm_acts)

lemma calm_booking [calm_acts]: "along same_trips (booking_contact e cmd)"
  unfolding booking_contact_def find_booking_def find_contact_def FindByBookingID_def Let_def
  by (intro calm_rules calm_acts)

lemma calm_sync [calm_acts]: "along same_trips (sync_stop e t)"
proof -
  have "same_trips d d'" if "sync_otp t s d = Inr d'" for s d d'
  proof -
    have "SQLTripModel.truncate (if is_trip k tenant r then r\<lparr>pod_otp := a, pod_otp_expires_at := b,
        pod_consignee_name := c, pod_consignee_phone := f\<rparr> else r) = SQLTripModel.truncate r" for k tenant a b c f and r :: trip_row
      by (cases r; simp add: SQLTripModel.defs)
    then show ?thesis using that by (auto simp: sync_otp_def same_trips_def cores_def logs_def)
  qed
  then show ?thesis unfolding sync_stop_def by (intro calm_rules calm.along_exec_stmt)
qed

lemma upsert_same: "upsert_stop s d = Inr d' \<Longrightarrow> trip_rows d' = trip_rows d \<and> trip_outbox d' = trip_outbox d"
  by (auto simp: upsert_stop_def Let_def split: if_splits option.splits)

lemma calm_saveStops [calm_acts]: "along same_trips (saveStops e t)"
proof -
  have "along same_trips (save_stops e now t ss)" for now ss
    by (induction ss) (auto intro!: calm_rules calm_exec dest: upsert_same)
  then show ?thesis unfolding saveStops_def by (intro calm_rules)
qed

section \<open>Loading a trip\<close>

definition loaded :: "trip_db \<Rightarrow> gostring \<Rightarrow> gostring \<Rightarrow> TripAggregate \<Rightarrow> bool" where
  "loaded d k tenant t \<longleftrightarrow> (\<exists>m ss. m \<in> set (cores d) \<and> is_trip k tenant m
     \<and> t = MapToAggregate (m\<lparr>m_IdempotencyKey := None\<rparr>)\<lparr>Stops := ss\<rparr>)"

lemma ends_loadStops: "(\<And>r. Q r d) \<Longrightarrow> ends (loadStops e i tenant) d Q"
  unfolding loadStops_def by (intro ending; auto intro!: ending split: sum.split)

lemma loaded_row:
  assumes "find (is_trip k tenant) (trip_rows d) = Some r"
  shows "loaded d k tenant (MapToAggregate (row_model None r)\<lparr>Stops := ss\<rparr>)"
  using assms unfolding loaded_def row_model_def
  by (intro exI [of _ "SQLTripModel.truncate r"]) (auto simp: cores_def find_Some_iff)

lemma ends_Find:
  assumes "\<And>err. P (Inl err) d" and "\<And>t. loaded d k tenant t \<Longrightarrow> P (Inr t) d"
  shows "ends (trip_Find e k tenant) d P"
  unfolding trip_Find_def load_trip_def
  by (intro ending assms) (auto intro!: ends_loadStops ending assms loaded_row split: sum.split)

section \<open>Storing a trip\<close>

text \<open>
  The rows after \<open>Save\<close>: the row of the version that was loaded carries the columns of the aggregate, or
  there is a new row; the outbox has the first \<open>n\<close> of its events.
\<close>

definition hits :: "TripAggregate \<Rightarrow> SQLTripModel \<Rightarrow> bool" where
  "hits t m \<longleftrightarrow> is_trip (trip_ID t) (trip_TenantID t) m \<and> m_Version m = trip_Version t"

definition rows_stored :: "TripAggregate \<Rightarrow> SQLTripModel list \<Rightarrow> SQLTripModel list \<Rightarrow> bool" where
  "rows_stored t ms ms' \<longleftrightarrow> (\<exists>now.
     if list_ex (is_trip (trip_ID t) (trip_TenantID t)) ms
     then list_ex (hits t) ms \<and> ms' = map (\<lambda>m. if hits t m then updated_row now (MapToPersistence t) m else m) ms
     else trip_ID t \<notin> m_ID ` set ms \<and> ms' = ms @ [SQLTripModel.truncate (new_row now (MapToPersistence t))])"

definition trip_stored :: "nat \<Rightarrow> TripAggregate \<Rightarrow> trip_db \<Rightarrow> trip_db \<Rightarrow> bool" where
  "trip_stored n t d d' \<longleftrightarrow>
     rows_stored t (cores d) (cores d') \<and> logs d' = logs d @ map (Pair (trip_ID t)) (take n (trip_events t))"

definition save_outcome :: "TripAggregate \<Rightarrow> trip_db \<Rightarrow> goerr + TripAggregate \<Rightarrow> trip_db \<Rightarrow> bool" where
  "save_outcome t d r d' \<longleftrightarrow>
     (case r of
        Inl _ \<Rightarrow> same_trips d d' \<or> (\<exists>n. trip_stored n t d d')
      | Inr t' \<Rightarrow> trip_stored (length (trip_events t)) t d d' \<and> (\<exists>v. t' = trip_ClearEvents (t\<lparr>trip_Version := v\<rparr>)))"

lemma outcome_err:
  "rows_stored t (cores d) (cores d') \<Longrightarrow> logs d' = logs d @ map (Pair (trip_ID t)) (take n (trip_events t))
   \<Longrightarrow> save_outcome t d (Inl err) d'"
  by (auto simp: save_outcome_def trip_stored_def)

lemma outcome_ok:
  "rows_stored t (cores d) (cores d') \<Longrightarrow> logs d' = logs d @ map (Pair (trip_ID t)) (trip_events t)
   \<Longrightarrow> save_outcome t d (Inr (trip_ClearEvents (t\<lparr>trip_Version := v\<rparr>))) d'"
  by (auto simp: save_outcome_def trip_stored_def)

lemma update_rows:
  assumes "update_trip now (MapToPersistence t) d = Inr (n, d')" and "n \<noteq> 0" and "list_ex (is_trip (trip_ID t) (trip_TenantID t)) (trip_rows d)"
  shows "rows_stored t (cores d) (cores d') \<and> logs d' = logs d"
proof -
  have hit: "hits t (SQLTripModel.truncate r) \<longleftrightarrow>
      is_trip (m_ID (MapToPersistence t)) (m_TenantID (MapToPersistence t)) r \<and> m_Version r = m_Version (MapToPersistence t)" for r :: trip_row
    by (simp add: hits_def MapToPersistence_def)
  have ex: "list_ex P (cores d) = list_ex (\<lambda>r. P (SQLTripModel.truncate r)) (trip_rows d)" for P
    by (simp add: cores_def list_ex_iff)
  show ?thesis
    using assms unfolding rows_stored_def update_trip_def ex hit
    by (auto simp: Let_def cores_def logs_def hit truncate_updated split: if_splits intro!: exI [of _ now])
qed

lemma create_rows:
  assumes "create_trip now (MapToPersistence t) d = Inr d'" and "\<not> list_ex (is_trip (trip_ID t) (trip_TenantID t)) (trip_rows d)"
  shows "rows_stored t (cores d) (cores d') \<and> logs d' = logs d"
proof -
  have "trip_ID t \<notin> m_ID ` set (cores d)" "cores d' = cores d @ [SQLTripModel.truncate (new_row now (MapToPersistence t))]"
    using assms(1) by (auto simp: create_trip_def cores_def MapToPersistence_def split: if_splits)
  moreover have "\<not> list_ex (is_trip (trip_ID t) (trip_TenantID t)) (cores d)"
    using assms(2) by (simp add: cores_def list_ex_iff)
  ultimately show ?thesis
    using assms(1) unfolding rows_stored_def by (auto simp: create_trip_def logs_def split: if_splits)
qed

lemma ends_events:
  "cores d = ms \<Longrightarrow> logs d = l \<Longrightarrow>
   ends (for_each (save_trip_event e k) evs) d (\<lambda>r d'. cores d' = ms
     \<and> (\<exists>n. logs d' = l @ map (Pair k) (take n evs) \<and> (\<forall>u. r = Inr u \<longrightarrow> n = length evs)))"
proof (induction evs arbitrary: d l)
  case Nil
  then show ?case by (auto intro: ending)
next
  case (Cons ev evs)
  have none: "\<exists>n. l = l @ map (Pair k) (take n (ev # evs))" by (intro exI [of _ 0]) simp
  have one: "ends (save_trip_event e k ev) d (\<lambda>r d'. cores d' = ms \<and> logs d' = (case r of Inl _ \<Rightarrow> l | Inr _ \<Rightarrow> l @ [(k, ev)]))"
    unfolding save_trip_event_def
    by (intro ending) (use Cons.prems in \<open>auto simp: cores_def logs_def split: if_splits\<close>)
  show ?case unfolding for_each.simps
  proof (rule ends_andThen, rule ends_mono [OF one])
    fix r :: "goerr + unit" and d'
    assume "cores d' = ms \<and> logs d' = (case r of Inl _ \<Rightarrow> l | Inr _ \<Rightarrow> l @ [(k, ev)])"
    then show "case r of
        Inl err \<Rightarrow> cores d' = ms \<and> (\<exists>n. logs d' = l @ map (Pair k) (take n (ev # evs)) \<and> (\<forall>u. Inl err = Inr u \<longrightarrow> n = length (ev # evs)))
      | Inr x \<Rightarrow> ends (for_each (save_trip_event e k) evs) d' (\<lambda>r d'. cores d' = ms
          \<and> (\<exists>n. logs d' = l @ map (Pair k) (take n (ev # evs)) \<and> (\<forall>u. r = Inr u \<longrightarrow> n = length (ev # evs))))"
      by (cases r) (use none in \<open>auto intro!: ends_mono [OF Cons.IH [of d' "l @ [(k, ev)]"]] intro: exI [of _ "Suc _"]\<close>)
  qed
qed

lemma ends_Save:
  assumes "\<And>r d'. save_outcome t d r d' \<Longrightarrow> P r d'"
  shows "ends (trip_Save e t) d P"
proof -
  have late: "ends (saveStops e t) d1 (\<lambda>r d'. case r of Inl err \<Rightarrow> P (Inl err) d'
      | Inr x \<Rightarrow> ends (andThen (for_each (save_trip_event e (trip_ID t)) (trip_Events t)) (\<lambda>_.
          ret (trip_ClearEvents (t\<lparr>trip_Version := v\<rparr>)))) d' P)"
    if rows: "rows_stored t (cores d) (cores d1)" "logs d1 = logs d" for v d1
  proof (rule ends_calm [OF calm_saveStops])
    fix r :: "goerr + unit" and d2
    assume "same_trips d1 d2"
    then have d2: "cores d2 = cores d1" "logs d2 = logs d" using rows(2) by (simp_all add: same_trips_def)
    have "P (Inl err) d2" for err
      by (rule assms, rule outcome_err [where n = 0]) (use d2 rows(1) in simp_all)
    moreover have "ends (andThen (for_each (save_trip_event e (trip_ID t)) (trip_Events t)) (\<lambda>_.
       ret (trip_ClearEvents (t\<lparr>trip_Version := v\<rparr>)))) d2 P"
    proof (rule ends_andThen, rule ends_mono [OF ends_events [OF d2]])
      fix r :: "goerr + unit" and d'
      assume "cores d' = cores d1 \<and> (\<exists>n. logs d' = logs d @ map (Pair (trip_ID t)) (take n (trip_Events t))
          \<and> (\<forall>u. r = Inr u \<longrightarrow> n = length (trip_Events t)))"
      then obtain n where "cores d' = cores d1" "logs d' = logs d @ map (Pair (trip_ID t)) (take n (trip_events t))"
          "\<forall>u. r = Inr u \<longrightarrow> n = length (trip_events t)"
        by (auto simp: trip_Events_def)
      then show "case r of Inl err \<Rightarrow> P (Inl err) d' | Inr x \<Rightarrow> ends (ret (trip_ClearEvents (t\<lparr>trip_Version := v\<rparr>))) d' P"
        using rows(1) by (cases r) (auto intro!: assms outcome_err [where n = n] outcome_ok ends_ret)
    qed
    ultimately show "case r of Inl err \<Rightarrow> P (Inl err) d2 | Inr x \<Rightarrow> ends (andThen (for_each (save_trip_event e (trip_ID t)) (trip_Events t)) (\<lambda>_.
       ret (trip_ClearEvents (t\<lparr>trip_Version := v\<rparr>)))) d2 P"
      by (cases r) simp_all
  qed
  have stay: "P (Inl err) d" for err by (rule assms) (simp add: save_outcome_def)
  have none: "update_trip now p d = Inr (0, d') \<Longrightarrow> d' = d" for now p d'
    by (auto simp: update_trip_def Let_def split: if_splits)
  show ?thesis unfolding trip_Save_def trip_Exists_def
    by (intro ending stay) (auto intro!: ending stay late dest: none update_rows create_rows)
qed

end
