(* ===== verification/TripUseMoves.thy ===== *)
theory TripUseMoves
  imports TripUseEnds
begin

text \<open>
  One relation between databases for all use cases of trips (\<open>trip_move\<close>), and one lemma per use case
  that it either fails and leaves the database as it was, or makes such a move.
\<close>

section \<open>Moves\<close>

fun uses_resource :: "gostring + gostring \<Rightarrow> SQLTripModel \<Rightarrow> bool" where
  "uses_resource (Inl k) m \<longleftrightarrow> m_DriverID m = Some k"
| "uses_resource (Inr k) m \<longleftrightarrow> m_VehicleID m = Some k"

text \<open>No trip that holds the resource overlaps with \<open>t\<close>, which has not started.\<close>

definition available :: "gostring + gostring \<Rightarrow> TripAggregate \<Rightarrow> trip_db \<Rightarrow> bool" where
  "available c t d \<longleftrightarrow> before_start (trip_Status t) \<and> (\<forall>m \<in> set (cores d). uses_resource c m \<longrightarrow>
     \<not> overlapping (trip_TenantID t) (trip_ID t) (DepartureTime t) (ArrivalTime t) m)"

definition brand_new :: "TripAggregate \<Rightarrow> bool" where
  "brand_new t \<longleftrightarrow> trip_Status t = TripDraft \<and> stored_ok t \<and> trip_Version t = 0
     \<and> trip_events t = [TripCreatedEvent (trip_ID t) (trip_TenantID t) (TripNumber t) (trip_CreatedAt t)]"

inductive trip_move :: "trip_db \<Rightarrow> trip_db \<Rightarrow> bool" where
  stays: "same_trips d d' \<Longrightarrow> trip_move d d'"
| changes: "loaded d k tenant t \<Longrightarrow> advance C t t' \<Longrightarrow> (\<And>c. c \<in> C \<Longrightarrow> available c t d) \<Longrightarrow>
    trip_stored (length (trip_events t')) t' d d' \<Longrightarrow> trip_move d d'"
| begins: "brand_new t \<Longrightarrow> trip_stored n t d d' \<Longrightarrow> trip_move d d'"

definition moved :: "trip_db \<Rightarrow> goerr + 'a \<Rightarrow> trip_db \<Rightarrow> bool" where
  "moved d r d' \<longleftrightarrow> (case r of Inl _ \<Rightarrow> True | Inr _ \<Rightarrow> trip_move d d')"

definition served :: "trip_db \<Rightarrow> goerr + 'a \<Rightarrow> trip_db \<Rightarrow> bool" where
  "served d r d' \<longleftrightarrow> (case r of Inl _ \<Rightarrow> d' = d | Inr _ \<Rightarrow> trip_move d d')"

lemma moved_Inl [simp, ending]: "moved d (Inl err) d'"
  by (simp add: moved_def)

lemma served_tx: "ends (fn True) d (moved d) \<Longrightarrow> ends (with_tx e False fn) d (served d)"
  by (rule ends_with_tx, simp add: served_def, erule ends_mono) (auto simp: served_def moved_def split: sum.splits)

lemma same_stored:
  assumes "same_trips d d1" and "trip_stored n t d1 d2" and "same_trips d2 d3"
  shows "trip_stored n t d d3"
  using assms by (simp add: trip_stored_def same_trips_def)

lemma stored_cleared: "trip_stored n t d d' \<Longrightarrow> same_trips d' d'' \<Longrightarrow> trip_stored n t d d''"
  by (rule same_stored) simp_all

lemma ends_run_op:
  assumes "\<And>t. r = (t, None) \<Longrightarrow> P (Inr t) d" and "\<And>err. P (Inl err) d"
  shows "ends (run_op r) d P"
  using assms by (cases r; cases "snd r") (auto simp: run_op_def intro: ending)

lemma ends_store:
  assumes "loaded d k tenant t" and "advance C t t'" and "\<And>c. c \<in> C \<Longrightarrow> available c t d" and "same_trips d d1"
  shows "ends (store_trip e action t') d1 (moved d)"
  unfolding store_trip_def
proof (rule ends_andThen, rule ends_Save)
  fix r d2
  assume out: "save_outcome t' d1 r d2"
  show "case r of Inl err \<Rightarrow> moved d (Inl err) d2 | Inr t \<Rightarrow> ends (logAudit e action (trip_ID t) None) d2 (moved d)"
  proof (cases r)
    case (Inr x)
    have "trip_move d d3" if "same_trips d2 d3" for d3
      using changes [OF assms(1-3)] same_stored [OF assms(4) _ that] out Inr by (auto simp: save_outcome_def)
    then show ?thesis using Inr by (auto intro!: ends_calm [OF calm_logAudit] simp: moved_def split: sum.split)
  qed simp
qed

lemma loaded_fields: "loaded d k tenant t \<Longrightarrow> trip_ID t = k \<and> trip_TenantID t = tenant"
  by (auto simp: loaded_def MapToAggregate_def is_trip_def)

lemma loaded_same: "same_trips d d' \<Longrightarrow> loaded d k tenant t \<longleftrightarrow> loaded d' k tenant t"
  by (simp add: loaded_def same_trips_def)

section \<open>The use cases\<close>

lemma change_served:
  assumes "\<And>n t. advance {} t (fst (operation n t))"
  shows "ends (change_trip e k tenant action operation) d (served d)"
  unfolding change_trip_def
proof (rule served_tx, rule ends_andThen, rule ends_Find)
  fix t
  assume t: "loaded d k tenant t"
  have "advance {} t u" if "operation n t = (u, None)" for n u using assms [of t n] that by simp
  then show "case Inr t of Inl err \<Rightarrow> moved d (Inl err) d
    | Inr t \<Rightarrow> ends (andThen (clock (outer e)) (\<lambda>now. andThen (run_op (operation now t)) (store_trip e action))) d (moved d)"
    by (auto intro!: ending ends_run_op ends_store [OF t])
qed simp

lemma simple_served:
  "ends (ScheduleTrip e k tenant) d (served d)" "ends (ReachPickupTrip e k tenant) d (served d)"
  "ends (StartTransitTrip e k tenant) d (served d)" "ends (DeliverTrip e k tenant) d (served d)"
  "ends (CancelTrip e k tenant) d (served d)" "ends (ReachTripStop e k stop tenant) d (served d)"
  "ends (CompleteTripStop e k stop tenant) d (served d)"
  "ends (SubmitTripStopPOD e k stop tenant pod sig notes otp) d (served d)"
  unfolding ScheduleTrip_def ReachPickupTrip_def StartTransitTrip_def DeliverTrip_def CancelTrip_def ReachTripStop_def
    CompleteTripStop_def SubmitTripStopPOD_def
  by (rule change_served, rule advances)+

text \<open>What a caller hands to \<open>CompleteTrip\<close> does not touch the trips.\<close>

definition calm_meter :: "trip_env \<Rightarrow> bool" where
  "calm_meter e \<longleftrightarrow> (\<forall>f tenant b. usage_meter e = Some f \<longrightarrow> along same_trips (f tenant b))"

definition calm_hook :: "(TripAggregate \<Rightarrow> unit tact) option \<Rightarrow> bool" where
  "calm_hook g \<longleftrightarrow> (\<forall>f t. g = Some f \<longrightarrow> along same_trips (f t))"

lemma ends_moved:
  assumes "along same_trips m" and "\<And>d'. same_trips d1 d' \<Longrightarrow> trip_move d d'"
  shows "ends m d1 (moved d)"
  by (rule ends_calm [OF assms(1)]) (auto simp: moved_def assms(2) split: sum.split)

lemma complete_served:
  assumes "calm_meter e" and "calm_hook g"
  shows "ends (CompleteTrip e k tenant odometer closedAt g) d (served d)"
  unfolding CompleteTrip_def
proof (rule served_tx, rule ends_andThen, rule ends_Find)
  fix t
  assume t: "loaded d k tenant t"
  let ?rest = "\<lambda>t. andThen (trip_Save (outer e) t) (\<lambda>t. andThen (commit_usage e tenant t) (\<lambda>_.
       andThen (logAudit e ''complete'' (trip_ID t) None) (\<lambda>_. case g of None \<Rightarrow> ret () | Some f \<Rightarrow> f t)))"
  have calm: "along same_trips (andThen (commit_usage e tenant t) (\<lambda>_.
       andThen (logAudit e ''complete'' (trip_ID t) None) (\<lambda>_. case g of None \<Rightarrow> ret () | Some f \<Rightarrow> f t)))" for t
  proof (intro calm.along_andThen calm_logAudit)
    show "along same_trips (commit_usage e tenant t)"
      using assms(1) unfolding commit_usage_def calm_meter_def
      by (cases "usage_meter e"; cases "trip_BookingID t") (simp_all add: calm_rules)
    show "along same_trips (case g of None \<Rightarrow> ret () | Some f \<Rightarrow> f t)"
      using assms(2) unfolding calm_hook_def by (cases g) (simp_all add: calm_rules)
  qed
  have rest: "ends (?rest t') d (moved d)" if "advance {} t t'" for t'
  proof (rule ends_andThen, rule ends_Save)
    fix r d2
    assume out: "save_outcome t' d r d2"
    have "trip_move d d3" if "same_trips d2 d3" "r = Inr x" for x d3
      using changes [OF t \<open>advance {} t t'\<close> _ same_stored [OF same_trips_refl _ that(1)]] out that(2) by (auto simp: save_outcome_def)
    then show "case r of Inl err \<Rightarrow> moved d (Inl err) d2 | Inr t \<Rightarrow> ends (andThen (commit_usage e tenant t) (\<lambda>_.
       andThen (logAudit e ''complete'' (trip_ID t) None) (\<lambda>_. case g of None \<Rightarrow> ret () | Some f \<Rightarrow> f t))) d2 (moved d)"
      by (cases r) (auto intro!: ends_moved calm)
  qed
  have close: "ends (close_trip odometer now t) d (\<lambda>r d'. case r of Inl err \<Rightarrow> moved d (Inl err) d' | Inr t \<Rightarrow> ends (?rest t) d' (moved d))" for now
    unfolding close_trip_def
  proof (rule ends_andThen, rule ends_run_op)
    fix u
    assume "trip_Complete now t = (u, None)"
    then have u: "advance {} t u" using advance_moves(4) [of "{}" t now] by simp
    have "advance {} t v" if "RecordCloseReading x now u = (v, None)" for x v
      using advance_trans [OF u] advance_readings(1) [of "{}" u x now] that by simp
    then show "case Inr u of Inl err \<Rightarrow> (case Inl err of Inl err \<Rightarrow> moved d (Inl err) d | Inr t \<Rightarrow> ends (?rest t) d (moved d))
      | Inr t \<Rightarrow> ends (case odometer of None \<Rightarrow> ret t | Some x \<Rightarrow> run_op (RecordCloseReading x now t)) d
          (\<lambda>r d'. case r of Inl err \<Rightarrow> moved d (Inl err) d' | Inr t \<Rightarrow> ends (?rest t) d' (moved d))"
      using u by (cases odometer) (auto intro!: ending ends_run_op rest)
  qed simp
  show "case Inr t of Inl err \<Rightarrow> moved d (Inl err) d | Inr t \<Rightarrow> ends (andThen (clock (outer e)) (\<lambda>now.
       andThen (close_time closedAt now) (\<lambda>now. andThen (close_trip odometer now t) ?rest))) d (moved d)"
    unfolding close_time_def
    by (auto intro!: ending close split: option.split)
qed simp

subsection \<open>Drivers and vehicles\<close>

lemma calm_then:
  assumes "along same_trips m" and "same_trips d d1" and "\<And>x d'. same_trips d d' \<Longrightarrow> ends (f x) d' (moved d)"
  shows "ends (andThen m f) d1 (moved d)"
  by (rule ends_andThen, rule ends_calm [OF assms(1)])
     (use calm.R_trans [OF assms(2)] assms(3) in \<open>auto split: sum.split\<close>)

lemma overlapping_truncate [simp]: "overlapping tenant k from until (SQLTripModel.truncate r) = overlapping tenant k from until r"
  by (simp add: overlapping_def)

lemma ends_no_conflict:
  assumes "k \<noteq> ''''" and "\<And>m. uses_resource c m \<longleftrightarrow> column m = Some k"
    and "\<And>r. column' r = column (SQLTripModel.truncate r)"
    and free: "(\<And>m. m \<in> set (cores d) \<Longrightarrow> uses_resource c m \<Longrightarrow> \<not> overlapping tenant i from until m) \<Longrightarrow> P (Inr ()) d"
    and "\<And>err. P (Inl err) d"
  shows "ends (no_conflict who (checkResourceConflict e column' k tenant i from until)) d P"
proof -
  let ?hits = "filter (\<lambda>r. column' r = Some k \<and> overlapping tenant i from until r) (trip_rows d)"
  have "P (Inr ()) d" if "?hits = []"
    by (rule free) (use that assms(2,3) in \<open>auto simp: cores_def filter_empty_conv\<close>)
  then show ?thesis
    unfolding no_conflict_def checkResourceConflict_def
    using assms(1,5) by (auto intro!: ending split: list.split)
qed

text \<open>The end of both assignments: no conflict, then the assignment is stored.\<close>

lemma ends_assign:
  assumes t: "loaded d i tenant t" and "k \<noteq> ''''" and c: "\<And>m. uses_resource c m \<longleftrightarrow> column m = Some k"
    and column: "\<And>r. column' r = column (SQLTripModel.truncate r)"
    and advances: "\<And>n. advance {c} t (fst (operation n t))"
    and starts: "\<And>n u. operation n t = (u, None) \<Longrightarrow> before_start (trip_Status t)" and same: "same_trips d d1"
  shows "ends (andThen (no_conflict who (checkResourceConflict (outer e) column' k tenant i (DepartureTime t) (ArrivalTime t)))
    (\<lambda>_. andThen (clock (outer e)) (\<lambda>now. andThen (run_op (operation now t)) (store_trip e action)))) d1 (moved d)"
proof (rule ends_andThen, rule ends_no_conflict [OF assms(2) c column])
  assume free: "\<And>m. m \<in> set (cores d1) \<Longrightarrow> uses_resource c m \<Longrightarrow> \<not> overlapping tenant i (DepartureTime t) (ArrivalTime t) m"
  have "ends (store_trip e action u) d1 (moved d)" if u: "operation now t = (u, None)" for now u
  proof -
    have "available c t d"
      using free same starts [OF u] loaded_fields [OF t] by (auto simp: available_def same_trips_def)
    then show ?thesis using advances [of now] u by (auto intro!: ends_store [OF t _ _ same])
  qed
  then show "case Inr () of Inl err \<Rightarrow> moved d (Inl err) d1 | Inr x \<Rightarrow>
      ends (andThen (clock (outer e)) (\<lambda>now. andThen (run_op (operation now t)) (store_trip e action))) d1 (moved d)"
    by (auto intro!: ending ends_run_op)
qed simp

lemma assign_driver_served: "ends (AssignTripDriver e cmd) d (served d)"
proof (cases "ad_DriverID cmd = ''''")
  case False
  have "ends (assign_driver_body e cmd) d (moved d)"
    unfolding assign_driver_body_def Let_def
  proof (rule ends_andThen, rule ends_Find)
    fix t
    assume t: "loaded d (ad_TripID cmd) (ad_TenantID cmd) t"
    note tail = ends_assign [OF t False, where c = "Inl (ad_DriverID cmd)" and column = m_DriverID and column' = m_DriverID
      and operation = "AssignDriver (ad_DriverID cmd)", folded CheckDriverConflict_def]
    have starts: "AssignDriver (ad_DriverID cmd) n t = (u, None) \<Longrightarrow> before_start (trip_Status t)" for n u
      by (auto simp: AssignDriver_def split: if_splits)
    show "case Inr t of Inl err \<Rightarrow> moved d (Inl err) d | Inr t \<Rightarrow>
       ends (andThen (attempt (assign_driver_compliance e (ad_DriverID cmd) (ad_TenantID cmd))) (\<lambda>r.
       andThen (case r of Inl err \<Rightarrow> override_driver e cmd t err | Inr _ \<Rightarrow> ret ()) (\<lambda>_.
       andThen (if column_text (trip_VehicleID t) = '''' then ret ()
                else maintenance_gate e (column_text (trip_VehicleID t)) (ad_Override cmd) ''assign_driver_override'' (ad_TripID cmd)
                     (Maintenance_override (column_text (trip_VehicleID t)) (ad_DriverID cmd) (ad_Reason cmd))) (\<lambda>_.
       andThen (no_conflict (''driver '' @ ad_DriverID cmd) (CheckDriverConflict (outer e) (ad_DriverID cmd) (ad_TenantID cmd)
                (ad_TripID cmd) (DepartureTime t) (ArrivalTime t))) (\<lambda>_.
       andThen (clock (outer e)) (\<lambda>now. andThen (run_op (AssignDriver (ad_DriverID cmd) now t)) (store_trip e ''assign''))))))) d (moved d)"
      unfolding sum.case
      by (rule calm_then, (intro calm_rules calm_acts)[1], rule same_trips_refl,
          rule calm_then, (intro calm_rules calm_acts)[1], assumption,
          rule calm_then, (intro calm_rules calm_acts)[1], assumption, rule tail)
         (auto dest: starts intro: advance_AssignDriver)
  qed simp
  then show ?thesis using False by (auto simp: AssignTripDriver_def intro!: served_tx)
qed (auto simp: AssignTripDriver_def served_def intro: ending)

lemma assign_vehicle_served: "ends (AssignTripVehicle e cmd) d (served d)"
proof (cases "av_VehicleID cmd = ''''")
  case False
  have "ends (assign_vehicle_body e cmd) d (moved d)"
    unfolding assign_vehicle_body_def
  proof (rule ends_andThen, rule ends_Find)
    fix t
    assume t: "loaded d (av_TripID cmd) (av_TenantID cmd) t"
    define cmd' where "cmd' = (if av_TenantID cmd = '''' then cmd\<lparr>av_TenantID := trip_TenantID t\<rparr> else cmd)"
    have fields: "av_VehicleID cmd' = av_VehicleID cmd" "av_TripID cmd = av_TripID cmd'" "av_TenantID cmd' = av_TenantID cmd"
      using loaded_fields [OF t] by (simp_all add: cmd'_def)
    note tail = ends_assign [OF t False, where c = "Inr (av_VehicleID cmd)" and column = m_VehicleID and column' = m_VehicleID
      and operation = "AssignVehicle (av_VehicleID cmd)", folded CheckVehicleConflict_def]
    have starts: "AssignVehicle (av_VehicleID cmd) n t = (u, None) \<Longrightarrow> before_start (trip_Status t)" for n u
      by (auto simp: AssignVehicle_def split: if_splits)
    have "ends (andThen (assign_vehicle_compliance e cmd') (\<lambda>_.
         andThen (no_conflict (''vehicle '' @ av_VehicleID cmd) (CheckVehicleConflict (outer e) (av_VehicleID cmd)
                (av_TenantID cmd) (av_TripID cmd) (DepartureTime t) (ArrivalTime t))) (\<lambda>_.
         andThen (clock (outer e)) (\<lambda>now. andThen (run_op (AssignVehicle (av_VehicleID cmd) now t)) (store_trip e ''assign''))))) d (moved d)"
      by (rule calm_then, rule calm_acts, rule same_trips_refl, rule tail) (auto dest: starts intro: advance_AssignVehicle)
    then show "case Inr t of Inl err \<Rightarrow> moved d (Inl err) d | Inr t \<Rightarrow>
       ends (let cmd = (if av_TenantID cmd = '''' then cmd\<lparr>av_TenantID := trip_TenantID t\<rparr> else cmd) in
         andThen (assign_vehicle_compliance e cmd) (\<lambda>_.
         andThen (no_conflict (''vehicle '' @ av_VehicleID cmd) (CheckVehicleConflict (outer e) (av_VehicleID cmd)
                (av_TenantID cmd) (av_TripID cmd) (DepartureTime t) (ArrivalTime t))) (\<lambda>_.
         andThen (clock (outer e)) (\<lambda>now. andThen (run_op (AssignVehicle (av_VehicleID cmd) now t)) (store_trip e ''assign''))))) d (moved d)"
      by (simp add: Let_def cmd'_def [symmetric] fields)
  qed simp
  then show ?thesis using False by (auto simp: AssignTripVehicle_def intro!: served_tx)
qed (auto simp: AssignTripVehicle_def served_def intro: ending)

text \<open>Starting: the reading at the gate comes after the step of the life cycle.\<close>

lemma ends_start_reading:
  assumes "\<And>err. P (Inl err) d" and "\<And>v. advance {} t v \<Longrightarrow> P (Inr v) d"
  shows "ends (start_reading e tenant odometer facility t) d P"
proof -
  have gate: "advance {} t (at_gate facility u)" if "advance {} t u" for u
    using advance_trans [OF that advance_gate] that by (simp add: at_gate_def)
  have read: "advance {} t (fst (RecordStartReading x facility n t))" for x n by (rule advances)
  have read': "advance {} t u" if "RecordStartReading x facility n t = (u, r)" for x n u r
    using read [of x n] that by simp
  show ?thesis
    unfolding start_reading_def find_vehicle_def found_def Let_def
    by (auto intro!: ending assms ends_run_op gate read advance_refl simp: read' split: option.split)
qed

lemma start_served: "ends (StartTrip e k tenant odometer facility) d (served d)"
  unfolding StartTrip_def start_trip_body_def Let_def
proof (rule served_tx, rule ends_andThen, rule ends_Find)
  fix t
  assume t: "loaded d k tenant t"
  have "ends (store_trip e ''start'' v) d1 (moved d)" if "same_trips d d1" "trip_Start now t = (u, None)" "advance {} u v" for now u v d1
  proof (rule ends_store [OF t _ _ that(1)])
    show "advance {} t v" using advance_trans [OF _ that(3)] advance_moves(1) [of "{}" t now] that(2) by simp
  qed simp
  then have tail: "ends (andThen (clock (outer e)) (\<lambda>now. andThen (run_op (trip_Start now t)) (\<lambda>t.
      andThen (start_reading e tenant odometer facility t) (store_trip e ''start'')))) d1 (moved d)" if "same_trips d d1" for d1
    using that by (intro ending ends_run_op ends_start_reading) auto
  show "case Inr t of Inl err \<Rightarrow> moved d (Inl err) d | Inr t \<Rightarrow>
      ends (if column_text (trip_DriverID t) = '''' then fail (ErrMsg ''driver must be assigned before trip can start'')
       else andThen (start_driver_compliance e (column_text (trip_DriverID t)) tenant) (\<lambda>_.
            andThen (if column_text (trip_VehicleID t) = '''' then ret () else start_vehicle_compliance e (column_text (trip_VehicleID t)) tenant) (\<lambda>_.
            andThen (clock (outer e)) (\<lambda>now. andThen (run_op (trip_Start now t)) (\<lambda>t.
            andThen (start_reading e tenant odometer facility t) (store_trip e ''start''))))))
        d (moved d)"
    unfolding sum.case
    by (rule ends_if, rule ends_fail, simp, rule calm_then, (intro calm_rules calm_acts)[1], rule same_trips_refl,
        rule calm_then, (intro calm_rules calm_acts)[1], assumption, rule tail)
qed simp

subsection \<open>New trips\<close>

lemma AddStop_frame:
  "trip_Status (AddStop s t) = trip_Status t" "trip_Version (AddStop s t) = trip_Version t" "trip_ID (AddStop s t) = trip_ID t"
  "trip_TenantID (AddStop s t) = trip_TenantID t" "TripNumber (AddStop s t) = TripNumber t" "trip_CreatedAt (AddStop s t) = trip_CreatedAt t"
  "trip_events (AddStop s t) = trip_events t" "stored_ok (AddStop s t) = stored_ok t"
  by (auto simp: AddStop_def Let_def stored_ok_def trip_inv_def split: option.split)

lemma brand_new_AddStop: "brand_new t \<Longrightarrow> brand_new (AddStop s t)"
  by (simp add: brand_new_def AddStop_frame)

lemma brand_new_new: "brand_new (new_trip cmd u v now)"
proof -
  have stops: "brand_new t \<Longrightarrow> brand_new (foldl (\<lambda>t s. AddStop s t) t ss)" for t ss
    by (induction ss arbitrary: t) (simp_all add: brand_new_AddStop)
  show ?thesis unfolding new_trip_def
    by (rule stops)
       (simp add: brand_new_def stored_ok_def trip_inv_def NewTripAggregate_def trip_SetIdempotencyKey_def trip_RecordEvent_def)
qed

lemma ends_seed:
  assumes "\<And>err. P (Inl err) d" and "\<And>u. brand_new u \<Longrightarrow> P (Inr u) d" and "brand_new t"
  shows "ends (seed_stops e cmd c t) d P"
proof -
  have otp: "ends (draw_otp e) d Q" if "\<And>x. Q (Inr x) d" for Q using that by (simp add: ends_def draw_otp_def)
  show ?thesis
    unfolding seed_stops_def plan_of_def Let_def
    by (auto intro!: ending otp assms brand_new_AddStop)
qed

text \<open>
  Whatever \<open>Save\<close> did before it failed stays when the idempotency key finds a trip: the move begins a
  trip with some of its events, or none.
\<close>

lemma ends_save_new:
  assumes "brand_new t" and same: "same_trips d d1"
  shows "ends (save_new e cmd t) d1 (moved d)"
  unfolding save_new_def
proof (rule ends_andThen, rule ends_attempt, rule ends_Save, unfold sum.case)
  fix r d2
  assume out: "save_outcome t d1 r d2"
  have move: "trip_move d d3" if "same_trips d2 d3" for d3
  proof (cases "same_trips d1 d2")
    case True
    then show ?thesis using same that by (intro stays) (simp add: same_trips_def)
  next
    case False
    then obtain n where "trip_stored n t d1 d2" using out by (auto simp: save_outcome_def split: sum.splits)
    then show ?thesis using begins [OF assms(1) same_stored [OF same _ that]] by simp
  qed
  have "along same_trips (case r of
         Inl err \<Rightarrow> andThen (if unique_violation err then replay e cmd else ret None) (\<lambda>won.
             case won of Some k \<Rightarrow> ret k | None \<Rightarrow> fail err)
       | Inr t \<Rightarrow> andThen (sync_stop e t) (\<lambda>_. andThen (logAudit e ''create'' (trip_ID t) None) (\<lambda>_. ret (trip_ID t))))"
    by (cases r; simp only: sum.case; intro calm_rules calm_acts)
  then show "ends (case r of
         Inl err \<Rightarrow> andThen (if unique_violation err then replay e cmd else ret None) (\<lambda>won.
             case won of Some k \<Rightarrow> ret k | None \<Rightarrow> fail err)
       | Inr t \<Rightarrow> andThen (sync_stop e t) (\<lambda>_. andThen (logAudit e ''create'' (trip_ID t) None) (\<lambda>_. ret (trip_ID t)))) d2 (moved d)"
    by (rule ends_moved) (rule move)
qed

lemma create_served: "ends (CreateTrip e cmd) d (served d)"
proof -
  have "ends (create_trip_body e cmd (new_trip cmd u v now)) d (moved d)" for u v now
    unfolding create_trip_body_def
  proof (rule calm_then [OF calm_replay same_trips_refl])
    fix won d1
    assume d1: "same_trips d d1"
    have "ends (andThen (booking_contact e cmd) (\<lambda>c. andThen (seed_stops e cmd c (new_trip cmd u v now)) (save_new e cmd))) d1 (moved d)"
    proof (rule calm_then [OF calm_booking d1])
      fix c d2
      assume "same_trips d d2"
      then show "ends (andThen (seed_stops e cmd c (new_trip cmd u v now)) (save_new e cmd)) d2 (moved d)"
        by (intro ends_andThen ends_seed) (auto intro: ends_save_new brand_new_new)
    qed
    then show "ends (case won of Some k \<Rightarrow> ret k | None \<Rightarrow> andThen (booking_contact e cmd) (\<lambda>c.
        andThen (seed_stops e cmd c (new_trip cmd u v now)) (save_new e cmd))) d1 (moved d)"
      using d1 by (cases won) (auto intro!: ending simp: moved_def intro: stays)
  qed
  then show ?thesis
    unfolding CreateTrip_def
    by (intro ending served_tx) (auto simp: served_def)
qed

end
