(* ===== verification/TripUseRuns.thy ===== *)
theory TripUseRuns
  imports TripUseMoves
begin

text \<open>
  Sequences of calls of the use cases of trips, with requests and failures of any kind, and the invariant
  they keep (\<open>trips_ok\<close>): identifiers and versions, the story each log tells, and claims on drivers and
  vehicles that are apart.
\<close>

section \<open>Calls\<close>

datatype trip_call =
    DoCreate CreateTripCommand
  | DoSchedule gostring gostring
  | DoAssignDriver AssignDriverCommand
  | DoAssignVehicle AssignVehicleCommand
  | DoStart gostring gostring "float64 option" gostring
  | DoReachPickup gostring gostring
  | DoStartTransit gostring gostring
  | DoReachStop gostring gostring gostring
  | DoCompleteStop gostring gostring gostring
  | DoSubmitPOD gostring gostring gostring gostring gostring gostring gostring
  | DoDeliver gostring gostring
  | DoComplete gostring gostring "float64 option" "gotime option" "(TripAggregate \<Rightarrow> unit tact) option"
  | DoCancel gostring gostring

fun trip_serve :: "trip_env \<Rightarrow> trip_call \<Rightarrow> unit tact" where
  "trip_serve e (DoCreate cmd) = andThen (CreateTrip e cmd) (\<lambda>_. ret ())"
| "trip_serve e (DoSchedule k tenant) = ScheduleTrip e k tenant"
| "trip_serve e (DoAssignDriver cmd) = AssignTripDriver e cmd"
| "trip_serve e (DoAssignVehicle cmd) = AssignTripVehicle e cmd"
| "trip_serve e (DoStart k tenant odometer facility) = StartTrip e k tenant odometer facility"
| "trip_serve e (DoReachPickup k tenant) = ReachPickupTrip e k tenant"
| "trip_serve e (DoStartTransit k tenant) = StartTransitTrip e k tenant"
| "trip_serve e (DoReachStop k stop tenant) = ReachTripStop e k stop tenant"
| "trip_serve e (DoCompleteStop k stop tenant) = CompleteTripStop e k stop tenant"
| "trip_serve e (DoSubmitPOD k stop tenant pod sig notes otp) = SubmitTripStopPOD e k stop tenant pod sig notes otp"
| "trip_serve e (DoDeliver k tenant) = DeliverTrip e k tenant"
| "trip_serve e (DoComplete k tenant odometer closedAt f) = CompleteTrip e k tenant odometer closedAt f"
| "trip_serve e (DoCancel k tenant) = CancelTrip e k tenant"

text \<open>Each request comes with its own context and its own failures.\<close>

fun trip_run_calls :: "(trip_env \<times> trip_call) list \<Rightarrow> trip_db world \<Rightarrow> trip_db world" where
  "trip_run_calls [] w = w"
| "trip_run_calls ((e, c) # cs) w = trip_run_calls cs (snd (trip_serve e c w))"

text \<open>What completing a trip is given by others does not write trips or outbox rows.\<close>

fun calm_call :: "trip_env \<times> trip_call \<Rightarrow> bool" where
  "calm_call (e, DoComplete k tenant odometer closedAt f) \<longleftrightarrow> calm_meter e \<and> calm_hook f"
| "calm_call _ \<longleftrightarrow> True"

lemma call_served: "calm_call (e, c) \<Longrightarrow> ends (trip_serve e c) d (served d)"
proof (cases c)
  case (DoCreate cmd)
  have "ends (andThen (CreateTrip e cmd) (\<lambda>_. ret ())) d (served d)"
    by (rule ends_andThen, rule ends_mono [OF create_served]) (auto simp: served_def intro: ending split: sum.splits)
  then show ?thesis by (simp add: DoCreate)
qed (auto intro: simple_served assign_driver_served assign_vehicle_served start_served complete_served)

section \<open>The invariant\<close>

definition trip_log :: "trip_db \<Rightarrow> gostring \<Rightarrow> TripEvent list" where
  "trip_log d k = map snd (filter (\<lambda>x. fst x = k) (logs d))"

text \<open>Events that lead from a draft to the status, after the creation of the trip where it was recorded.\<close>

definition story :: "TripEvent list \<Rightarrow> TripStatus \<Rightarrow> bool" where
  "story l st \<longleftrightarrow> (\<exists>es. edge_path lifecycle TripDraft es st
     \<and> (l = es \<or> (\<exists>k tenant number n. l = TripCreatedEvent k tenant number n # es)))"

definition row_ok :: "nat \<Rightarrow> trip_db \<Rightarrow> SQLTripModel \<Rightarrow> bool" where
  "row_ok n d m \<longleftrightarrow> stored_ok (MapToAggregate m) \<and> 0 < unat (m_Version m) \<and> unat (m_Version m) \<le> n
     \<and> story (trip_log d (m_ID m)) (m_Status m)"

definition apart :: "SQLTripModel \<Rightarrow> SQLTripModel \<Rightarrow> bool" where
  "apart m m' \<longleftrightarrow> (m_ID m \<noteq> m_ID m' \<longrightarrow> m_TenantID m = m_TenantID m' \<longrightarrow> m_DepartureTime m \<le> end_of_time \<longrightarrow>
     m_DepartureTime m' \<le> end_of_time \<longrightarrow> claims (MapToAggregate m) \<inter> claims (MapToAggregate m') = {})"

definition trips_ok :: "nat \<Rightarrow> trip_db \<Rightarrow> bool" where
  "trips_ok n d \<longleftrightarrow> distinct (map m_ID (cores d)) \<and> fst ` set (logs d) \<subseteq> m_ID ` set (cores d)
     \<and> (\<forall>m \<in> set (cores d). row_ok n d m) \<and> (\<forall>m \<in> set (cores d). \<forall>m' \<in> set (cores d). apart m m')"

lemma apart_sym: "apart m m' \<Longrightarrow> apart m' m"
  unfolding apart_def by (metis inf_commute)

lemma row_ok_mono: "row_ok n d m \<Longrightarrow> row_ok (Suc n) d m"
  by (auto simp: row_ok_def)

lemma trips_ok_mono: "trips_ok n d \<Longrightarrow> trips_ok (Suc n) d"
  by (auto simp: trips_ok_def intro: row_ok_mono)

lemma same_trips_ok: "same_trips d d' \<Longrightarrow> trips_ok n d \<Longrightarrow> trips_ok n d'"
  by (simp add: same_trips_def trips_ok_def row_ok_def trip_log_def)

lemma story_append:
  assumes "story l st" and "edge_path lifecycle st es st'"
  shows "story (l @ es) st'"
proof -
  obtain fs where fs: "edge_path lifecycle TripDraft fs st" "l = fs \<or> (\<exists>k tenant number n. l = TripCreatedEvent k tenant number n # fs)"
    using assms(1) unfolding story_def by blast
  show ?thesis unfolding story_def using edge_path_append [OF assms(2) fs(1)] fs(2) by (intro exI [of _ "fs @ es"]) auto
qed

lemma log_append: "logs d' = logs d @ map (Pair k) es \<Longrightarrow> trip_log d' j = trip_log d j @ (if j = k then es else [])"
  by (auto simp: trip_log_def filter_map comp_def)

section \<open>A trip changes\<close>

text \<open>A row that is updated with a trip reads back as that trip, in what the invariant looks at.\<close>

lemma updated_fields:
  "m_ID (updated_row now (MapToPersistence t) m) = m_ID m" "m_TenantID (updated_row now (MapToPersistence t) m) = m_TenantID m"
  "m_Status (updated_row now (MapToPersistence t) m) = trip_Status t"
  "m_Version (updated_row now (MapToPersistence t) m) = m_Version m + 1"
  "m_DepartureTime (updated_row now (MapToPersistence t) m) = DepartureTime t"
  "m_DriverID (updated_row now (MapToPersistence t) m) = trip_DriverID t"
  "m_VehicleID (updated_row now (MapToPersistence t) m) = trip_VehicleID t"
  by (simp_all add: updated_row_def MapToPersistence_def)

lemma updated_claims: "claims (MapToAggregate (updated_row now (MapToPersistence t) m)) = claims t"
  by (simp add: claims_def MapToAggregate_def updated_fields)

lemma updated_stored: "stored_ok t \<Longrightarrow> stored_ok (MapToAggregate (updated_row now (MapToPersistence t) m))"
  by (auto simp: stored_ok_def trip_inv_def MapToAggregate_def updated_row_def MapToPersistence_def real_column_def)

lemma new_stored: "stored_ok t \<Longrightarrow> stored_ok (MapToAggregate (SQLTripModel.truncate (new_row now (MapToPersistence t))))"
  by (auto simp: stored_ok_def trip_inv_def MapToAggregate_def truncate_new MapToPersistence_def real_column_def)

lemma loaded_row_of:
  assumes "loaded d k tenant t"
  obtains m where "m \<in> set (cores d)" "m_ID m = k" "m_TenantID m = tenant" "trip_ID t = k" "trip_TenantID t = tenant"
    "trip_Status t = m_Status m" "trip_Version t = m_Version m" "DepartureTime t = m_DepartureTime m" "trip_events t = []"
    "claims t = claims (MapToAggregate m)" "stored_ok t = stored_ok (MapToAggregate m)"
  using assms unfolding loaded_def
  by (auto simp: is_trip_def MapToAggregate_def claims_def stored_ok_def trip_inv_def)

text \<open>A resource that is available to a trip is claimed by no other.\<close>

lemma available_free:
  assumes free: "available c t d" and "m \<in> set (cores d)" and ok: "stored_ok (MapToAggregate m)" "stored_ok t"
    and other: "m_ID m \<noteq> trip_ID t" "m_TenantID m = trip_TenantID t"
    and dep: "m_DepartureTime m \<le> end_of_time" "DepartureTime t \<le> end_of_time"
  shows "c \<notin> claims (MapToAggregate m)"
proof
  assume c: "c \<in> claims (MapToAggregate m)"
  then have busy: "uses_resource c m" "under_way (m_Status m)"
    by (auto simp: claims_def MapToAggregate_def split: if_splits)
  then have "\<not> trip_over (m_Status m)" "holds_resource (m_Status m)"
    by (auto simp: under_way_def trip_over_def holds_resource_def)
  then have "m_ArrivalTime m = None"
    using ok(1) by (simp add: stored_ok_def MapToAggregate_def)
  moreover have "ArrivalTime t = None"
    using free ok(2) by (auto simp: available_def stored_ok_def trip_over_def before_start_def)
  moreover have "whole_second (DepartureTime t) \<le> end_of_time"
    using dep(2) by (simp add: whole_second_def)
  ultimately have "overlapping (trip_TenantID t) (trip_ID t) (DepartureTime t) (ArrivalTime t) m"
    using other dep(1) \<open>holds_resource (m_Status m)\<close> by (simp add: overlapping_def)
  then show False using free busy(1) assms(2) by (auto simp: available_def)
qed

lemma unat_next: "unat (v :: int64) \<le> n \<Longrightarrow> n < 2 ^ 63 \<Longrightarrow> unat (v + 1) = Suc (unat v)"
  by (simp add: unat_word_ariths)

lemma changes_ok:
  assumes ok: "trips_ok n d" and "n < 2 ^ 63" and t: "loaded d k tenant t" and adv: "advance C t t'"
    and free: "\<And>c. c \<in> C \<Longrightarrow> available c t d" and stored: "trip_stored (length (trip_events t')) t' d d'"
  shows "trips_ok (Suc n) d'"
proof -
  obtain m where m: "m \<in> set (cores d)" "m_ID m = k" "m_TenantID m = tenant" "trip_ID t = k" "trip_TenantID t = tenant"
    "trip_Status t = m_Status m" "trip_Version t = m_Version m" "DepartureTime t = m_DepartureTime m" "trip_events t = []"
    "claims t = claims (MapToAggregate m)" "stored_ok t = stored_ok (MapToAggregate m)"
    using t by (rule loaded_row_of)
  have one: "x = m" if "x \<in> set (cores d)" "m_ID x = k" for x
    using ok that m(1,2) unfolding trips_ok_def by (metis distinct_map inj_onD)
  have row: "row_ok n d m" using ok m(1) by (simp add: trips_ok_def)
  have frame: "trip_ID t' = k" "trip_TenantID t' = tenant" "trip_Version t' = m_Version m" "DepartureTime t' = m_DepartureTime m"
    using adv m by (simp_all add: advance_def)
  obtain es where t': "stored_ok t'" "claims t' \<subseteq> claims (MapToAggregate m) \<union> C" "trip_events t' = es"
      "edge_path lifecycle (m_Status m) es (trip_Status t')"
    using adv row m unfolding advance_def row_ok_def by auto
  have hit: "hits t' x \<longleftrightarrow> x = m" if "x \<in> set (cores d)" for x
    using one [OF that] m(2,3) frame by (auto simp: hits_def is_trip_def)
  have "list_ex (is_trip k tenant) (cores d)" using m(1-3) by (auto simp: list_ex_iff is_trip_def)
  then obtain now where "cores d' = map (\<lambda>x. if hits t' x then updated_row now (MapToPersistence t') x else x) (cores d)"
    using stored frame by (auto simp: trip_stored_def rows_stored_def)
  then have cores: "cores d' = map (\<lambda>x. if x = m then updated_row now (MapToPersistence t') m else x) (cores d)"
    using hit by (simp cong: map_cong)
  let ?m = "updated_row now (MapToPersistence t') m"
  have ids: "map m_ID (cores d') = map m_ID (cores d)"
    unfolding cores using m(2) by (auto simp: updated_fields)
  have rows: "x = ?m \<or> x \<in> set (cores d) \<and> m_ID x \<noteq> k" if "x \<in> set (cores d')" for x
    using that one unfolding cores by (auto split: if_splits)
  have logs: "logs d' = logs d @ map (Pair k) es" using stored frame t'(3) by (simp add: trip_stored_def)
  note log = log_append [OF logs]
  have "row_ok (Suc n) d' ?m"
    using row t' m(2) unat_next [OF _ assms(2), of "m_Version m"]
    by (auto simp: row_ok_def updated_stored updated_fields log intro: story_append)
  moreover have "row_ok (Suc n) d' x" if "x \<in> set (cores d)" "m_ID x \<noteq> k" for x
    using ok that by (auto simp: trips_ok_def row_ok_def log)
  moreover have new: "apart ?m x" if x: "x \<in> set (cores d)" "m_ID x \<noteq> k" for x
  proof -
    have okx: "stored_ok (MapToAggregate x)" "stored_ok t" using ok x(1) row m(11) by (auto simp: trips_ok_def row_ok_def)
    have "apart m x" using ok m(1) x(1) by (simp add: trips_ok_def)
    moreover have "c \<notin> claims (MapToAggregate x)"
      if "c \<in> C" "m_TenantID x = tenant" "m_DepartureTime x \<le> end_of_time" "m_DepartureTime m \<le> end_of_time" for c
      using available_free [OF free [OF that(1)] x(1) okx] x(2) that m(4,5,8) by simp
    ultimately show ?thesis
      using t'(2) m(2,3) frame unfolding apart_def updated_fields updated_claims by auto
  qed
  moreover have "apart x y" if "x \<in> set (cores d)" "y \<in> set (cores d)" for x y using ok that by (simp add: trips_ok_def)
  moreover have self: "apart ?m ?m" by (simp add: apart_def)
  ultimately have all: "row_ok (Suc n) d' x" "y \<in> set (cores d') \<Longrightarrow> apart x y" if "x \<in> set (cores d')" for x y
    using rows [OF that] rows [of y] apart_sym [OF new] by (elim disjE; simp)+
  have "fst ` set (logs d') \<subseteq> m_ID ` set (cores d')"
  proof -
    have "m_ID ` set (cores d') = m_ID ` set (cores d)" using ids by (metis list.set_map)
    then show ?thesis using ok m(1,2) by (auto simp: trips_ok_def logs)
  qed
  then show ?thesis
    using ok all unfolding trips_ok_def ids by simp
qed

section \<open>A trip begins\<close>

lemma begins_ok:
  assumes ok: "trips_ok n d" and t: "brand_new t" and stored: "trip_stored j t d d'"
  shows "trips_ok (Suc n) d'"
proof -
  have none: "\<not> list_ex (hits t) (cores d)"
    using ok t by (auto simp: list_ex_iff hits_def trips_ok_def row_ok_def brand_new_def)
  define m where "m now = SQLTripModel.truncate (new_row now (MapToPersistence t))" for now
  obtain now where new: "trip_ID t \<notin> m_ID ` set (cores d)" "cores d' = cores d @ [m now]"
    using stored none unfolding trip_stored_def rows_stored_def m_def by (auto split: if_splits)
  have logs: "logs d' = logs d @ map (Pair (trip_ID t)) (take j (trip_events t))" using stored by (simp add: trip_stored_def)
  note log = log_append [OF logs]
  have fields: "m_ID (m now) = trip_ID t" "m_Status (m now) = TripDraft" "m_Version (m now) = 1"
    using t by (simp_all add: m_def truncate_new MapToPersistence_def brand_new_def)
  have "stored_ok (MapToAggregate (m now))"
    using t unfolding m_def brand_new_def by (intro new_stored) simp
  moreover have "trip_log d (trip_ID t) = []"
    using ok new(1) by (force simp: trips_ok_def trip_log_def filter_empty_conv)
  moreover have "story (take j (trip_events t)) TripDraft"
    using t unfolding story_def by (intro exI [of _ "[]"]) (cases j; auto simp: brand_new_def intro: path_nil)
  ultimately have row: "row_ok (Suc n) d' (m now)" by (simp add: row_ok_def fields log)
  have "row_ok (Suc n) d' x" if "x \<in> set (cores d)" for x
  proof -
    have "m_ID x \<noteq> trip_ID t" using new(1) that by (metis image_eqI)
    then show ?thesis using ok that by (auto simp: trips_ok_def row_ok_def log)
  qed
  moreover have "claims (MapToAggregate (m now)) = {}"
    by (simp add: claims_def MapToAggregate_def fields under_way_def)
  then have "apart (m now) x" for x by (simp add: apart_def)
  moreover have "apart x (m now)" for x using \<open>\<And>x. apart (m now) x\<close> apart_sym by blast
  moreover have "fst ` set (logs d') \<subseteq> m_ID ` set (cores d')"
    using ok by (auto simp: trips_ok_def logs new(2) fields)
  ultimately show ?thesis
    using ok new row by (auto simp: trips_ok_def fields)
qed

lemma move_ok:
  assumes "trip_move d d'" and "trips_ok n d" and "n < 2 ^ 63"
  shows "trips_ok (Suc n) d'"
  using assms by cases (auto intro: same_trips_ok trips_ok_mono changes_ok begins_ok)

lemma serve_ok:
  assumes "calm_call (e, c)" and "trips_ok n (db w)" and "n < 2 ^ 63"
  shows "trips_ok (Suc n) (db (snd (trip_serve e c w)))"
  using endsD [OF call_served [OF assms(1)], of w] move_ok [OF _ assms(2,3)] trips_ok_mono [OF assms(2)]
  by (auto simp: served_def split: sum.splits)

lemma run_ok:
  assumes "list_all calm_call cs" and "trips_ok n (db w)" and "n + length cs < 2 ^ 63"
  shows "trips_ok (n + length cs) (db (trip_run_calls cs w))"
  using assms
proof (induction cs w arbitrary: n rule: trip_run_calls.induct)
  case (2 e c cs w)
  then have "trips_ok (Suc n) (db (snd (trip_serve e c w)))" by (intro serve_ok) auto
  then show ?case using "2.IH" [of "Suc n"] "2.prems" by simp
qed simp

text \<open>A database without trips.\<close>

definition no_trips :: "trip_db \<Rightarrow> bool" where
  "no_trips d \<longleftrightarrow> trip_rows d = [] \<and> trip_outbox d = []"

lemma no_trips_ok: "no_trips d \<Longrightarrow> trips_ok 0 d"
  by (simp add: no_trips_def trips_ok_def cores_def logs_def)

text \<open>The requests of a run: their contexts are calm, and they are fewer than versions of a row.\<close>

definition fair_calls :: "(trip_env \<times> trip_call) list \<Rightarrow> bool" where
  "fair_calls cs \<longleftrightarrow> list_all calm_call cs \<and> length cs < 2 ^ 63"

lemma fair_run_ok: "no_trips (db w) \<Longrightarrow> fair_calls cs \<Longrightarrow> trips_ok (length cs) (db (trip_run_calls cs w))"
  using run_ok [of cs 0 w] no_trips_ok by (simp add: fair_calls_def)

end
