(* ===== verification/TripUseProps.thy ===== *)
theory TripUseProps
  imports TripUseRuns
begin

text \<open>
  What the use cases of trips promise over every sequence of calls: they are atomic, every stored trip has
  gone along the life cycle as its events in the outbox say, a driver or a vehicle is on at most one trip
  under way, and no update is lost; and, by example, what does not work.
\<close>

section \<open>Properties\<close>

text \<open>
  C11: every use case either fails, and leaves the whole database as it was, whichever statement failed, or moves
  the stored trips by one step: it leaves trips and outbox alone, it stores the aggregate it loaded after a
  path of the life cycle (with its events, in the row of the version it loaded), or it begins a trip.
\<close>

theorem trip_call_atomic:
  assumes "calm_call (e, c)" and "trip_serve e c w = (r, w')"
  shows "case r of Inl _ \<Rightarrow> db w' = db w | Inr _ \<Rightarrow> trip_move (db w) (db w')"
  using endsD [OF call_served [OF assms(1)], of w] assms(2) by (simp add: served_def)

text \<open>
  C4: whatever is called, in any order and with any failures: a driver or vehicle is on at most one trip of a
  tenant that is assigned and not delivered, when the departures are dates of the calendar.
\<close>

theorem one_trip_under_way:
  assumes "no_trips (db w)" and "fair_calls cs" and d: "d = db (trip_run_calls cs w)"
    and m: "m \<in> set (cores d)" "uses_resource c m" "under_way (m_Status m)" "m_DepartureTime m \<le> end_of_time"
    and m': "m' \<in> set (cores d)" "uses_resource c m'" "under_way (m_Status m')" "m_DepartureTime m' \<le> end_of_time"
    and "m_TenantID m = m_TenantID m'"
  shows "m = m'"
proof -
  have ok: "trips_ok (length cs) d" using fair_run_ok [OF assms(1,2)] d by simp
  have claim: "c \<in> claims (MapToAggregate x)" if "uses_resource c x" "under_way (m_Status x)" for x
    using that by (cases c) (auto simp: claims_def MapToAggregate_def)
  have "m_ID m = m_ID m'"
    using ok m m' assms(12) claim [OF m(2,3)] claim [OF m'(2,3)] unfolding trips_ok_def apart_def by blast
  then show ?thesis using ok m(1) m'(1) by (auto simp: trips_ok_def distinct_map dest: inj_onD)
qed

text \<open>
  C5: the outbox tells the story of every stored trip: its events, after the one of its creation where there
  is one, are a path of the life cycle from a draft to the stored status; and what is stored satisfies the
  invariant of the aggregate.
\<close>

theorem outbox_tells_trip:
  assumes "no_trips (db w)" and "fair_calls cs" and d: "d = db (trip_run_calls cs w)" and m: "m \<in> set (cores d)"
  shows "story (trip_log d (m_ID m)) (m_Status m) \<and> trip_inv (MapToAggregate m)"
  using fair_run_ok [OF assms(1,2)] m unfolding d trips_ok_def row_ok_def stored_ok_def by blast

text \<open>
  C12: no update is lost: after a trip was stored, an aggregate that was loaded at the same version cannot be
  stored any more, whatever it holds, and the attempt leaves the trips alone.
\<close>

theorem lost_update_refused:
  assumes distinct: "distinct (map m_ID (cores (db w)))" and old: "list_ex (is_trip (trip_ID t) (trip_TenantID t)) (cores (db w))"
    and run: "trip_Save e t w = (Inr t', w')"
    and u: "trip_ID u = trip_ID t" "trip_TenantID u = trip_TenantID t" "trip_Version u = trip_Version t"
  shows "\<exists>err w''. trip_Save e' u w' = (Inl err, w'') \<and> same_trips (db w') (db w'')"
proof -
  have "save_outcome t (db w) (fst (trip_Save e t w)) (db (snd (trip_Save e t w)))"
    by (rule endsD, rule ends_Save)
  then have "trip_stored (length (trip_events t)) t (db w) (db w')" by (simp add: run save_outcome_def)
  then obtain now where cores: "cores (db w') = map (\<lambda>m. if hits t m then updated_row now (MapToPersistence t) m else m) (cores (db w))"
      and hit: "list_ex (hits t) (cores (db w))"
    using old by (auto simp: trip_stored_def rows_stored_def)
  obtain m where m: "m \<in> set (cores (db w))" "hits t m" using hit by (auto simp: list_ex_iff)
  have one: "x = m" if "x \<in> set (cores (db w))" "m_ID x = trip_ID t" for x
    using distinct that m unfolding distinct_map hits_def is_trip_def by (metis inj_onD)
  have "updated_row now (MapToPersistence t) m \<in> set (cores (db w'))" using m unfolding cores by force
  then have "list_ex (is_trip (trip_ID u) (trip_TenantID u)) (cores (db w'))"
    using m(2) unfolding list_ex_iff u by (intro bexI) (simp_all add: updated_fields hits_def is_trip_def)
  moreover have "\<not> list_ex (hits u) (cores (db w'))"
    unfolding list_ex_iff cores using one m by (auto simp: updated_fields hits_def is_trip_def u)
  ultimately have none: "\<not> rows_stored u (cores (db w')) ms" for ms by (simp add: rows_stored_def)
  obtain r w'' where run': "trip_Save e' u w' = (r, w'')" by fastforce
  have "save_outcome u (db w') (fst (trip_Save e' u w')) (db (snd (trip_Save e' u w')))"
    by (rule endsD, rule ends_Save)
  then show ?thesis using none run' by (auto simp: save_outcome_def trip_stored_def split: sum.splits)
qed

section \<open>Example\<close>

definition ex_trip_env :: "char \<Rightarrow> trip_env" where
  "ex_trip_env c = \<lparr>now_at = (\<lambda>_. 1000000000), uuid_at = (\<lambda>n. replicate (Suc n) c), db_fails = (\<lambda>_. None), ctx_user = '''', ctx_ip = '''',
     ctx_tenant_id = ''t'', random_at = (\<lambda>_. 0), usage_meter = None\<rparr>"

definition ex_stop :: "gostring \<Rightarrow> TripStop" where
  "ex_stop k = \<lparr>stop_ID = k, stop_TenantID = ''t'', stop_TripID = '''', StopSequence = 1, StopType = StopTypePickup,
     LocationName = '''', TripStop.Address = '''', TripStop.Latitude = None, TripStop.Longitude = None,
     GeofenceRadiusM = Fin 150, ConsigneeName = '''', ConsigneePhone = '''', ConsigneeEmail = '''', PlannedArrival = None,
     ActualArrival = None, ActualDeparture = None, stop_Status = StopStatusPending, OTPRequired = False, OTPCode = '''',
     OTPExpiresAt = None, OTPVerifiedAt = None, PODRequired = False, PODURL = '''', PODSignatureURL = '''',
     PODVerifiedAt = None, PODNotes = '''', FailureReason = '''', stop_CreatedAt = 1, stop_UpdatedAt = 1\<rparr>"

definition ex_cmd :: "gostring \<Rightarrow> gostring \<Rightarrow> gostring option \<Rightarrow> CreateTripCommand" where
  "ex_cmd stop key booking = \<lparr>ct_TenantID = ''t'', ct_BookingID = booking, ct_RouteID = ''r'', ct_DepartureTime = 5000000000, ct_Remarks = '''',
     ct_IdempotencyKey = key, ct_Stops = [ex_stop stop]\<rparr>"

definition ex_world :: "trip_db world" where
  "ex_world = \<lparr>db = \<lparr>trip_rows = [], trip_stops = [], trip_outbox = [], trip_audit = [], overrides = [], checks = [],
     exemptions = [], drivers_t = [\<lparr>dr_ID = ''d'', dr_TenantID = ''t'', dr_Status = ''active'', dr_LicenseExpiry = 0\<rparr>],
     vehicles_t = [], dtc_events = [], work_orders = [],
     bookings_t = [\<lparr>br_ID = ''b'', br_TenantID = ''t'', br_Status = ''confirmed'', br_CustomerID = ''''\<rparr>], customers_t = [],
     routes_t = [\<lparr>ro_ID = ''r'', ro_TenantID = ''t'', ro_Source = '''', ro_Destination = '''', ro_Hours = None\<rparr>],
     locations_t = [], trip_users = [], trip_tenants = [''t'']\<rparr>, tick = 0\<rparr>"

definition ex_assign :: "gostring \<Rightarrow> bool \<Rightarrow> AssignDriverCommand" where
  "ex_assign k b = \<lparr>ad_TripID = k, ad_DriverID = ''d'', ad_TenantID = ''t'', ad_Override = b, ad_Reason = ''aaaaaaaaaa''\<rparr>"

definition ex_calls :: "(trip_env \<times> trip_call) list" where
  "ex_calls = [(ex_trip_env (CHR ''u''), DoCreate (ex_cmd ''p'' '''' None)), (ex_trip_env (CHR ''v''), DoCreate (ex_cmd ''q'' '''' None)),
     (ex_trip_env (CHR ''w''), DoAssignDriver (ex_assign ''u'' False)), (ex_trip_env (CHR ''x''), DoAssignDriver (ex_assign ''vvvvvvvvvvvvvvvv'' False))]"

lemma ex_trim_a: "TrimSpace ''aaaaaaaaaa'' = ''aaaaaaaaaa''"
  by (simp add: TrimSpace_def trim_left.simps white_space_def starts_with_def char_of_def)

lemmas trip_eval =
  exec_stmt_def query_def clock_def new_uuid_def exec_count_def wrap_def ret_def attempt_def fail_def andThen_def Let_def with_tx_def
  env.defs float_ops ex_trip_env_def ex_cmd_def ex_stop_def ex_assign_def
  CreateTrip_def create_trip_body_def new_trip_def trip_SetIdempotencyKey_def NewTripAggregate_def trip_RecordEvent_def AddStop_def
  normalize_stop_def same_stop_def replay_def booking_contact_def find_booking_def find_contact_def no_contact_def column_text_def
  FindByBookingID_def FindByIdempotencyKey_def load_trip_def loadStops_def stops_of_def seed_stops_def save_new_def trip_Save_def
  trip_Exists_def is_trip_def create_trip_def update_trip_def MapToPersistence_def MapToAggregate_def row_model_def text_column_def
  bad_status_def same_key_def broken_refs_def dangling_def new_row_def updated_row_def SQLTripModel.defs real_column_def
  whole_second_def saveStops_def upsert_stop_def bad_stop_def stop_row_def zero_or_def trip_Events_def trip_ClearEvents_def
  save_trip_event_def marshals_def sync_stop_def logAudit_def resolveAuditTenant_def insert_audit_def getUserID_def getUserIP_def
  run_op_def store_trip_def change_trip_def

lemmas assign_eval =
  AssignTripDriver_def assign_driver_body_def trip_Find_def assign_driver_compliance_def driver_check_def find_driver_def found_def
  override_driver_def no_conflict_def CheckDriverConflict_def checkResourceConflict_def AssignDriver_def before_start_def overlapping_def holds_resource_def
  end_of_time_def

definition ex_created :: "trip_db world" where
  "ex_created = trip_run_calls [hd ex_calls] ex_world"

lemma ex_world_empty: "no_trips (db ex_world)"
  by (simp add: no_trips_def ex_world_def)

lemma ex_calls_fair: "fair_calls ex_calls" "fair_calls [hd ex_calls]"
  by (simp_all add: fair_calls_def ex_calls_def)

text \<open>Two trips are created; the second does not get the driver of the first.\<close>

lemma ex_rows:
  "map (\<lambda>m. (m_ID m, m_TenantID m, m_Status m, m_DriverID m, m_DepartureTime m)) (trip_rows (db (trip_run_calls ex_calls ex_world)))
     = [(''u'', ''t'', TripAssigned, Some ''d'', 5000000000), (''vvvvvvvvvvvvvvvv'', ''t'', TripDraft, None, 5000000000)]"
  unfolding ex_world_def ex_calls_def by (simp add: trip_eval assign_eval)

lemma ex_create:
  "fst (trip_serve (ex_trip_env (CHR ''u'')) (DoCreate (ex_cmd ''p'' '''' None)) ex_world) = Inr ()"
  unfolding ex_world_def by (simp add: trip_eval)

text \<open>
  A trip whose stop is refused after its row was inserted finds itself by its idempotency key: it is
  committed without stops and without an event.
\<close>

lemma half_created:
  defines "r \<equiv> CreateTrip (ex_trip_env (CHR ''v'')) (ex_cmd ''p'' ''k'' None) ex_created"
  shows "fst r = Inr ''vvvvvvvvvvvvvvvv'' \<and> map m_ID (trip_rows (db (snd r))) = [''u'', ''vvvvvvvvvvvvvvvv'']
    \<and> stops_of ''vvvvvvvvvvvvvvvv'' ''t'' (db (snd r)) = [] \<and> map tob_AggregateID (trip_outbox (db (snd r))) = [''u'']"
  unfolding r_def ex_created_def ex_world_def ex_calls_def
  by (simp add: trip_eval unique_violation_def no_such_table_def contains_text.simps starts_with_def)

text \<open>A booking with a cancelled trip takes any number of others: only its first trip is looked at.\<close>

lemma booking_twice:
  "map (\<lambda>r. (m_BookingID r, m_Status r)) (trip_rows (db (trip_run_calls
     [(ex_trip_env (CHR ''u''), DoCreate (ex_cmd ''p'' '''' (Some ''b''))), (ex_trip_env (CHR ''v''), DoCancel ''u'' ''t''),
      (ex_trip_env (CHR ''w''), DoCreate (ex_cmd ''q'' '''' (Some ''b''))),
      (ex_trip_env (CHR ''x''), DoCreate (ex_cmd ''r'' '''' (Some ''b'')))] ex_world)))
   = [(Some ''b'', TripCancelled), (Some ''b'', TripDraft), (Some ''b'', TripDraft)]"
  unfolding ex_world_def by (simp add: trip_eval CancelTrip_def trip_Find_def trip_Cancel_def)

text \<open>An override assigns a driver that is on leave, not only one whose licence expired.\<close>

lemma override_on_leave:
  defines "w \<equiv> ex_world\<lparr>db := (db ex_world)\<lparr>drivers_t := [\<lparr>dr_ID = ''d'', dr_TenantID = ''t'', dr_Status = ''leave'', dr_LicenseExpiry = 0\<rparr>]\<rparr>\<rparr>"
  shows "map (\<lambda>r. (m_Status r, m_DriverID r)) (trip_rows (db (trip_run_calls
     [hd ex_calls, (ex_trip_env (CHR ''x''), DoAssignDriver (ex_assign ''u'' True))] w))) = [(TripAssigned, Some ''d'')]"
  unfolding w_def ex_world_def ex_calls_def
  by (simp add: trip_eval assign_eval justified_override_def record_override_def insert_override_def ex_trim_a)


section \<open>Witnesses\<close>

lemma ex_cores: "map (\<lambda>m. (m_ID m, m_TenantID m, m_Status m, m_DriverID m, m_DepartureTime m)) (cores d)
    = map (\<lambda>m. (m_ID m, m_TenantID m, m_Status m, m_DriverID m, m_DepartureTime m)) (trip_rows d)"
  by (simp add: cores_def)

lemma two_rows: "map f xs = [p, q] \<Longrightarrow> \<exists>x y. xs = [x, y] \<and> f x = p \<and> f y = q"
  by (auto simp: map_eq_Cons_conv)

theorem trip_call_atomic_witness: "trip_move (db ex_world) (db ex_created)"
proof -
  let ?c = "DoCreate (ex_cmd ''p'' '''' None)"
  obtain r w' where run: "trip_serve (ex_trip_env (CHR ''u'')) ?c ex_world = (r, w')" by fastforce
  have "r = Inr ()" "w' = ex_created" using ex_create run by (simp_all add: ex_created_def ex_calls_def)
  then show ?thesis using trip_call_atomic [OF _ run] by simp
qed

theorem one_trip_under_way_witness:
  "\<exists>m. {x \<in> set (cores (db (trip_run_calls ex_calls ex_world))). uses_resource (Inl ''d'') x \<and> under_way (m_Status x)
      \<and> m_TenantID x = ''t'' \<and> m_DepartureTime x \<le> end_of_time} = {m}"
proof -
  obtain x y where xy: "cores (db (trip_run_calls ex_calls ex_world)) = [x, y]"
      "m_TenantID x = ''t''" "m_Status x = TripAssigned" "m_DriverID x = Some ''d''" "m_DepartureTime x = 5000000000"
    using two_rows [OF trans [OF ex_cores ex_rows]] by auto
  have late: "m_DepartureTime x \<le> end_of_time" "under_way (m_Status x)" "uses_resource (Inl ''d'') x"
    using xy by (simp_all add: end_of_time_def under_way_def)
  have "z = x" if "z \<in> set (cores (db (trip_run_calls ex_calls ex_world)))" "uses_resource (Inl ''d'') z" "under_way (m_Status z)"
      "m_TenantID z = ''t''" "m_DepartureTime z \<le> end_of_time" for z
    by (rule one_trip_under_way [OF ex_world_empty ex_calls_fair(1) refl that(1-3,5)])
       (use xy(1,2) late that(4) in auto)
  then show ?thesis using xy(1,2) late by (intro exI [of _ x]) auto
qed

theorem outbox_tells_trip_witness:
  "\<exists>m \<in> set (cores (db (trip_run_calls ex_calls ex_world))). m_Status m = TripAssigned
     \<and> story (trip_log (db (trip_run_calls ex_calls ex_world)) (m_ID m)) TripAssigned"
proof -
  obtain x y where xy: "cores (db (trip_run_calls ex_calls ex_world)) = [x, y]" "m_Status x = TripAssigned"
    using two_rows [OF trans [OF ex_cores ex_rows]] by auto
  then show ?thesis
    using outbox_tells_trip [OF ex_world_empty ex_calls_fair(1) refl, of x] by (intro bexI [of _ x]) simp_all
qed

text \<open>The trip that was created is stored twice as it was loaded once.\<close>

definition ex_loaded :: TripAggregate where
  "ex_loaded = MapToAggregate (hd (cores (db ex_created)))"

lemma ex_stored:
  "map m_ID (cores (db ex_created)) = [''u'']" "list_ex (is_trip (trip_ID ex_loaded) (trip_TenantID ex_loaded)) (cores (db ex_created))"
  "isl (fst (trip_Save (outer (ex_trip_env (CHR ''w''))) ex_loaded ex_created)) = False"
  unfolding ex_loaded_def ex_created_def ex_world_def ex_calls_def by (simp_all add: trip_eval cores_def)

theorem lost_update_refused_witness:
  "\<exists>t' w' err w''. trip_Save (outer (ex_trip_env (CHR ''w''))) ex_loaded ex_created = (Inr t', w')
     \<and> trip_Save (outer (ex_trip_env (CHR ''x''))) (ex_loaded\<lparr>trip_Remarks := ''late''\<rparr>) w' = (Inl err, w'')"
proof -
  obtain t' w' where run: "trip_Save (outer (ex_trip_env (CHR ''w''))) ex_loaded ex_created = (Inr t', w')"
    using ex_stored(3) by (cases "trip_Save (outer (ex_trip_env (CHR ''w''))) ex_loaded ex_created") (metis fst_conv isl_def sum.exhaust)
  have "distinct (map m_ID (cores (db ex_created)))" by (simp add: ex_stored(1))
  from lost_update_refused [OF this ex_stored(2) run, of "ex_loaded\<lparr>trip_Remarks := ''late''\<rparr>" "outer (ex_trip_env (CHR ''x''))"]
  show ?thesis using run by fastforce
qed

end
