(* ===== verification/Money.thy ===== *)
theory Money
  imports GoFloat
begin

text \<open>
  \<open>internal/shared/money.go\<close>: amounts in minor units (an \<open>int64\<close> of paise) with a currency, and
  the conversions to and from the float rupees the rest of the program stores. The arithmetic
  is Go's, on 64-bit words; \<open>sint\<close> reads a word as the signed integer.
\<close>

record Money =
  Amount :: int64
  Currency :: gostring

datatype money_error = CurrencyRequired | CurrencyMismatchAdd | CurrencyMismatchSubtract

definition NewMoney :: "int64 \<Rightarrow> gostring \<Rightarrow> money_error + Money" where
  "NewMoney amount currency =
     (if currency = '''' then Inl CurrencyRequired
      else Inr \<lparr>Amount = amount, Currency = currency\<rparr>)"

definition FloatToMoney :: "float64 \<Rightarrow> gostring \<Rightarrow> Money" where
  "FloatToMoney val currency =
     \<lparr>Amount = int64_of_float (math_Round (val * F 100)), Currency = currency\<rparr>"

definition MoneyToFloat :: "Money \<Rightarrow> float64" where
  "MoneyToFloat m = fdiv (float_of_int64 (Amount m)) (F 100)"

definition Money_Add :: "Money \<Rightarrow> Money \<Rightarrow> money_error + Money" where
  "Money_Add m other =
     (if Currency m \<noteq> Currency other then Inl CurrencyMismatchAdd
      else Inr \<lparr>Amount = Amount m + Amount other, Currency = Currency m\<rparr>)"

definition Money_Subtract :: "Money \<Rightarrow> Money \<Rightarrow> money_error + Money" where
  "Money_Subtract m other =
     (if Currency m \<noteq> Currency other then Inl CurrencyMismatchSubtract
      else Inr \<lparr>Amount = Amount m - Amount other, Currency = Currency m\<rparr>)"

definition Money_Multiply :: "Money \<Rightarrow> int64 \<Rightarrow> Money" where
  "Money_Multiply m multiplier = \<lparr>Amount = Amount m * multiplier, Currency = Currency m\<rparr>"

definition Money_Equals :: "Money \<Rightarrow> Money \<Rightarrow> bool" where
  "Money_Equals m other \<longleftrightarrow> Amount m = Amount other \<and> Currency m = Currency other"

definition Money_IsZero :: "Money \<Rightarrow> bool" where
  "Money_IsZero m \<longleftrightarrow> Amount m = 0"

section \<open>Minor units and floats\<close>

lemma MoneyToFloat_rupees:
  assumes "\<bar>sint (Amount m)\<bar> < 2 ^ 53"
  shows "MoneyToFloat m = rupees (sint (Amount m))"
  unfolding MoneyToFloat_def float_of_int64_def float_of_int_def fl_of_int [OF assms] rupees_def
  by simp

lemma Amount_FloatToMoney_rupees:
  "\<bar>n\<bar> \<le> 2 ^ 50 \<Longrightarrow> Amount (FloatToMoney (rupees n) c) = word_of_int n"
  by (simp add: FloatToMoney_def cents_of_rupees int64_of_float_of_int del: int64_of_float.simps)

lemma Currency_FloatToMoney [simp]: "Currency (FloatToMoney x c) = c"
  by (simp add: FloatToMoney_def)

lemma sint_FloatToMoney_rupees:
  "\<bar>n\<bar> \<le> 2 ^ 50 \<Longrightarrow> sint (Amount (FloatToMoney (rupees n) c)) = n"
  by (simp add: Amount_FloatToMoney_rupees sint_of_int64)

lemma sint_add_int64:
  fixes a b :: int64
  assumes "- (2 ^ 63) \<le> sint a + sint b" and "sint a + sint b < 2 ^ 63"
  shows "sint (a + b) = sint a + sint b"
proof -
  have "a + b = word_of_int (sint a + sint b)" by simp
  then show ?thesis using sint_of_int64 [OF assms] by simp
qed

lemma sint_diff_int64:
  fixes a b :: int64
  assumes "- (2 ^ 63) \<le> sint a - sint b" and "sint a - sint b < 2 ^ 63"
  shows "sint (a - b) = sint a - sint b"
proof -
  have "a - b = word_of_int (sint a - sint b)" by simp
  then show ?thesis using sint_of_int64 [OF assms] by simp
qed

text \<open>
  C1: converting an amount of up to \<open>2 ^ 50\<close> paise to a float and back gives the same amount,
  in spite of the two roundings (the division by 100 and the product with 100).
\<close>

theorem money_float_roundtrip:
  assumes "\<bar>sint (Amount m)\<bar> \<le> 2 ^ 50"
  shows "FloatToMoney (MoneyToFloat m) (Currency m) = m"
proof -
  have "MoneyToFloat m = rupees (sint (Amount m))" using assms by (simp add: MoneyToFloat_rupees)
  then have "Amount (FloatToMoney (MoneyToFloat m) (Currency m)) = Amount m"
    using assms by (simp add: Amount_FloatToMoney_rupees)
  then show ?thesis by simp
qed

theorem money_float_roundtrip_witness:
  "FloatToMoney (MoneyToFloat \<lparr>Amount = 1999, Currency = ''INR''\<rparr>) ''INR''
     = \<lparr>Amount = 1999, Currency = ''INR''\<rparr>"
  using money_float_roundtrip [of "\<lparr>Amount = 1999, Currency = ''INR''\<rparr>"] by simp

end
