(* ===== verification/Booking.thy ===== *)
theory Booking
  imports Money
begin

text \<open>
  \<open>internal/booking/domain/aggregate/booking_aggregate.go\<close> and the guards of
  \<open>internal/booking/domain/workflow/booking_workflow.go\<close>. The abstract life cycle of a booking
  is \<open>booking_edge\<close>; the interface \<open>lifecycle_aggregate\<close> is interpreted on the methods.
\<close>

section \<open>Data and methods\<close>

datatype BookingStatus =
    BookingDraft | BookingPending | BookingConfirmed | BookingCancelled | BookingCompleted
  | OtherBookingStatus gostring

text \<open>Each event carries the booking's and the tenant's ID and the time it occurred at.\<close>

datatype BookingEvent =
    BookingCreatedEvent gostring gostring gostring gotime
  | BookingConfirmedEvent gostring gostring gotime
  | BookingCancelledEvent gostring gostring gotime
  | BookingUpdatedEvent gostring gostring gotime
  | BookingCompletedEvent gostring gostring gotime

record BookingAggregate =
  booking_ID :: gostring
  booking_TenantID :: gostring
  BookingNumber :: gostring
  booking_CustomerID :: gostring
  booking_RouteID :: gostring
  PickupDate :: gotime
  booking_VehicleType :: gostring
  Passengers :: int64
  CargoWeight :: "float64 option"
  Price :: Money
  booking_Notes :: gostring
  booking_Status :: BookingStatus
  booking_CreatedAt :: gotime
  booking_UpdatedAt :: gotime
  booking_Version :: int64
  booking_IdempotencyKey :: gostring
  booking_events :: "BookingEvent list"

datatype booking_error =
    CancelledCannotBeConfirmed
  | OnlyPendingConfirmed
  | OnlyConfirmedCompleted
  | CompletedBookingCannotBeCancelled
  | CannotUpdateFinished

type_synonym booking_result = "BookingAggregate \<times> booking_error option"

definition booking_RecordEvent :: "BookingEvent \<Rightarrow> BookingAggregate \<Rightarrow> BookingAggregate" where
  "booking_RecordEvent e b = b\<lparr>booking_events := booking_events b @ [e]\<rparr>"

definition booking_Events :: "BookingAggregate \<Rightarrow> BookingEvent list" where
  "booking_Events b = booking_events b"

definition booking_ClearEvents :: "BookingAggregate \<Rightarrow> BookingAggregate" where
  "booking_ClearEvents b = b\<lparr>booking_events := []\<rparr>"

definition NewBookingAggregate ::
  "gostring \<Rightarrow> gostring \<Rightarrow> gostring \<Rightarrow> gostring \<Rightarrow> gostring \<Rightarrow> gotime \<Rightarrow> gostring \<Rightarrow> int64
    \<Rightarrow> float64 option \<Rightarrow> Money \<Rightarrow> gostring \<Rightarrow> gotime \<Rightarrow> BookingAggregate" where
  "NewBookingAggregate bid tenantID bookingNumber customerID routeID pickupDate vehicleType
       passengers cargoWeight price notes now =
     booking_RecordEvent (BookingCreatedEvent bid tenantID bookingNumber now)
       \<lparr>booking_ID = bid, booking_TenantID = tenantID, BookingNumber = bookingNumber,
        booking_CustomerID = customerID, booking_RouteID = routeID, PickupDate = pickupDate,
        booking_VehicleType = vehicleType, Passengers = passengers, CargoWeight = cargoWeight,
        Price = price, booking_Notes = notes, booking_Status = BookingPending,
        booking_CreatedAt = now, booking_UpdatedAt = now, booking_Version = 0,
        booking_IdempotencyKey = '''', booking_events = []\<rparr>"

definition booking_Confirm :: "gotime \<Rightarrow> BookingAggregate \<Rightarrow> booking_result" where
  "booking_Confirm now b =
     (if booking_Status b = BookingCancelled then (b, Some CancelledCannotBeConfirmed)
      else if booking_Status b \<noteq> BookingPending then (b, Some OnlyPendingConfirmed)
      else (booking_RecordEvent (BookingConfirmedEvent (booking_ID b) (booking_TenantID b) now)
              (b\<lparr>booking_Status := BookingConfirmed, booking_UpdatedAt := now\<rparr>), None))"

definition booking_Complete :: "gotime \<Rightarrow> BookingAggregate \<Rightarrow> booking_result" where
  "booking_Complete now b =
     (if booking_Status b \<noteq> BookingConfirmed then (b, Some OnlyConfirmedCompleted)
      else (booking_RecordEvent (BookingCompletedEvent (booking_ID b) (booking_TenantID b) now)
              (b\<lparr>booking_Status := BookingCompleted, booking_UpdatedAt := now\<rparr>), None))"

definition booking_Cancel :: "gotime \<Rightarrow> BookingAggregate \<Rightarrow> booking_result" where
  "booking_Cancel now b =
     (if booking_Status b = BookingCompleted then (b, Some CompletedBookingCannotBeCancelled)
      else (booking_RecordEvent (BookingCancelledEvent (booking_ID b) (booking_TenantID b) now)
              (b\<lparr>booking_Status := BookingCancelled, booking_UpdatedAt := now\<rparr>), None))"

definition booking_Update ::
  "gostring \<Rightarrow> gostring \<Rightarrow> gotime \<Rightarrow> gostring \<Rightarrow> int64 \<Rightarrow> float64 option \<Rightarrow> Money \<Rightarrow> gostring
    \<Rightarrow> gotime \<Rightarrow> BookingAggregate \<Rightarrow> booking_result" where
  "booking_Update customerID routeID pickupDate vehicleType passengers cargoWeight price notes now b =
     (if booking_Status b = BookingCancelled \<or> booking_Status b = BookingCompleted
        then (b, Some CannotUpdateFinished)
      else (booking_RecordEvent (BookingUpdatedEvent (booking_ID b) (booking_TenantID b) now)
              (b\<lparr>booking_CustomerID := customerID, booking_RouteID := routeID,
                 PickupDate := pickupDate, booking_VehicleType := vehicleType,
                 Passengers := passengers, CargoWeight := cargoWeight, Price := price,
                 booking_Notes := notes, booking_UpdatedAt := now\<rparr>), None))"

definition booking_SetIdempotencyKey :: "gostring \<Rightarrow> BookingAggregate \<Rightarrow> BookingAggregate" where
  "booking_SetIdempotencyKey key b = b\<lparr>booking_IdempotencyKey := key\<rparr>"

definition booking_CanComplete :: "BookingStatus \<Rightarrow> bool" where
  "booking_CanComplete status \<longleftrightarrow> status = BookingConfirmed"

definition booking_CanCancel :: "BookingStatus \<Rightarrow> bool" where
  "booking_CanCancel status \<longleftrightarrow> status \<noteq> BookingCompleted"

section \<open>Commands, life cycle and runs\<close>

datatype booking_cmd =
    CmdConfirm gotime
  | CmdCompleteBooking gotime
  | CmdCancelBooking gotime
  | CmdUpdate gostring gostring gotime gostring int64 "float64 option" Money gostring gotime
  | CmdSetKey gostring

fun booking_exec :: "booking_cmd \<Rightarrow> BookingAggregate \<Rightarrow> booking_result" where
  "booking_exec (CmdConfirm n) b = booking_Confirm n b"
| "booking_exec (CmdCompleteBooking n) b = booking_Complete n b"
| "booking_exec (CmdCancelBooking n) b = booking_Cancel n b"
| "booking_exec (CmdUpdate c r p v k w m x n) b = booking_Update c r p v k w m x n b"
| "booking_exec (CmdSetKey k) b = (booking_SetIdempotencyKey k b, None)"

lemmas booking_ops = booking_Confirm_def booking_Complete_def booking_Cancel_def
  booking_Update_def booking_SetIdempotencyKey_def booking_RecordEvent_def

inductive booking_edge :: "BookingStatus \<Rightarrow> BookingEvent \<Rightarrow> BookingStatus \<Rightarrow> bool" where
  "booking_edge BookingPending (BookingConfirmedEvent i m n) BookingConfirmed"
| "booking_edge BookingConfirmed (BookingCompletedEvent i m n) BookingCompleted"
| "st \<noteq> BookingCompleted \<Longrightarrow> booking_edge st (BookingCancelledEvent i m n) BookingCancelled"
| "st \<notin> {BookingCancelled, BookingCompleted} \<Longrightarrow> booking_edge st (BookingUpdatedEvent i m n) st"

inductive_cases booking_edge_fromE: "booking_edge BookingCompleted e st" "booking_edge BookingCancelled e st"

interpretation booking: lifecycle_aggregate booking_exec booking_events "\<lambda>_. True" booking_Status booking_edge
proof unfold_locales
  fix c a a' e
  show "booking_exec c a = (a', Some e) \<Longrightarrow> booking_events a' = booking_events a"
    by (cases c) (auto simp: booking_ops split: if_splits)
  show "booking_exec c a = (a', None) \<Longrightarrow> \<exists>new. booking_events a' = booking_events a @ new"
    by (cases c) (auto simp: booking_ops split: if_splits)
  show "moves_along booking_edge (booking_events a) (booking_Status a)
      (booking_events (fst (booking_exec c a))) (booking_Status (fst (booking_exec c a)))"
    by (cases c) (auto simp: booking_ops moves_along_def intro: booking_edge.intros)
qed simp

section \<open>Properties\<close>

text \<open>
  The log of a booking, after any sequence of method calls on a new one, is the creation
  event followed by a path of the booking life cycle from pending to the current status.
\<close>

theorem booking_run_lifecycle:
  "\<exists>es. booking_events (booking.run cs (NewBookingAggregate i m k c r p v q w x y n))
         = BookingCreatedEvent i m k n # es
      \<and> edge_path booking_edge BookingPending es
          (booking_Status (booking.run cs (NewBookingAggregate i m k c r p v q w x y n)))"
  using booking.run_path [of "NewBookingAggregate i m k c r p v q w x y n"
      "[BookingCreatedEvent i m k n]" "[]" BookingPending cs]
  by (auto simp: NewBookingAggregate_def booking_RecordEvent_def intro: path_nil)

text \<open>
  A completed or cancelled booking keeps its status and its commercial terms (customer,
  route, price) whatever is called on it afterwards.
\<close>

theorem booking_finished_frozen:
  assumes "booking_Status b \<in> {BookingCompleted, BookingCancelled}"
  shows "booking_Status (booking.run cs b) = booking_Status b
     \<and> Price (booking.run cs b) = Price b
     \<and> booking_CustomerID (booking.run cs b) = booking_CustomerID b
     \<and> booking_RouteID (booking.run cs b) = booking_RouteID b"
proof (rule booking.run_stable [where P = "\<lambda>d. booking_Status d = booking_Status b
     \<and> Price d = Price b \<and> booking_CustomerID d = booking_CustomerID b
     \<and> booking_RouteID d = booking_RouteID b"])
  fix c and d :: BookingAggregate
  assume "booking_Status d = booking_Status b \<and> Price d = Price b
     \<and> booking_CustomerID d = booking_CustomerID b \<and> booking_RouteID d = booking_RouteID b"
  then show "booking_Status (fst (booking_exec c d)) = booking_Status b
     \<and> Price (fst (booking_exec c d)) = Price b
     \<and> booking_CustomerID (fst (booking_exec c d)) = booking_CustomerID b
     \<and> booking_RouteID (fst (booking_exec c d)) = booking_RouteID b"
    using assms by (cases c) (auto simp: booking_ops)
qed simp

definition demo_booking :: BookingAggregate where
  "demo_booking = NewBookingAggregate ''b1'' ''1'' ''BK-1'' ''c1'' ''r1'' 5 ''truck'' 0 None
     \<lparr>Amount = 100000, Currency = ''INR''\<rparr> '''' 1"

theorem booking_finished_frozen_witness:
  "booking_Status (booking.run [CmdCancelBooking 9, CmdConfirm 9]
      (booking.run [CmdConfirm 2, CmdCompleteBooking 3] demo_booking)) = BookingCompleted"
proof -
  have "booking_Status (booking.run [CmdConfirm 2, CmdCompleteBooking 3] demo_booking) = BookingCompleted"
    by (simp add: demo_booking_def NewBookingAggregate_def booking_ops)
  then show ?thesis
    using booking_finished_frozen [of "booking.run [CmdConfirm 2, CmdCompleteBooking 3] demo_booking"
        "[CmdCancelBooking 9, CmdConfirm 9]"] by simp
qed

text \<open>
  The workflow's guards agree with the aggregate's methods: \<open>CanComplete\<close> and \<open>CanCancel\<close>
  hold exactly where \<open>Complete\<close> and \<open>Cancel\<close> succeed.
\<close>

theorem booking_guards_agree:
  "(snd (booking_Complete now b) = None \<longleftrightarrow> booking_CanComplete (booking_Status b)) \<and>
   (snd (booking_Cancel now b) = None \<longleftrightarrow> booking_CanCancel (booking_Status b))"
  by (simp add: booking_ops booking_CanComplete_def booking_CanCancel_def)

end
