(* ===== verification/Invoice.thy ===== *)
theory Invoice
  imports Money
begin

text \<open>
  \<open>internal/invoice/domain/aggregate/invoice_aggregate.go\<close>, \<open>internal/payment/domain/aggregate\<close>
  and the guards of the two workflows. Amounts are floats in rupees; the code compares them in
  minor units (\<open>Money\<close>, 64-bit words of paise). The definitions follow that arithmetic; the
  lemmas reduce it to integers of paise (\<open>rupees n\<close> is the float that stands for \<open>n\<close> paise).
\<close>

section \<open>Data\<close>

datatype PaymentStatus =
    PaymentStatusPending | PaymentStatusPaid | PaymentStatusPartiallyPaid
  | OtherPaymentStatus gostring

datatype InvoiceStatus =
    InvoiceStatusDraft | InvoiceStatusIssued | InvoiceStatusOutstanding | InvoiceStatusPaid
  | InvoiceStatusCancelled | OtherInvoiceStatus gostring

definition invoiceCurrency :: gostring where
  "invoiceCurrency = ''INR''"

record LineItem =
  li_ID :: gostring
  li_TenantID :: gostring
  li_InvoiceID :: gostring
  li_TripID :: "gostring option"
  LineType :: gostring
  HSNSACCode :: "gostring option"
  Description :: gostring
  Unit :: "gostring option"
  Quantity :: float64
  UnitPrice :: float64
  Rate :: float64
  TaxableValue :: float64
  CgstRate :: float64
  SgstRate :: float64
  IgstRate :: float64
  CgstAmount :: float64
  SgstAmount :: float64
  IgstAmount :: float64
  li_Amount :: float64
  li_Total :: float64
  RefID :: "gostring option"

text \<open>The events, with their fields in the source's order.\<close>

datatype InvoiceEvent =
    InvoiceGeneratedEvent gostring gostring gostring float64 gotime
  | InvoicePaymentUpdatedEvent gostring gostring PaymentStatus gotime
  | InvoicePaymentAppliedEvent gostring gostring float64 float64 PaymentStatus gotime
  | InvoiceIssuedEvent gostring gostring gotime gotime
  | InvoiceVoidedEvent gostring gostring gotime

record InvoiceAggregate =
  invoice_ID :: gostring
  invoice_TenantID :: gostring
  InvoiceNumber :: gostring
  invoice_BookingID :: gostring
  invoice_CustomerID :: gostring
  invoice_TripID :: "gostring option"
  Subtotal :: float64
  Tax :: float64
  Cgst :: float64
  Sgst :: float64
  Igst :: float64
  Discount :: float64
  Total :: float64
  PaymentStatus :: PaymentStatus
  PaidAmount :: float64
  invoice_Status :: InvoiceStatus
  DueDate :: "gotime option"
  FinancialYear :: gostring
  CreditBalance :: float64
  invoice_Remarks :: gostring
  IRN :: "gostring option"
  IRNAckNo :: "gostring option"
  IRNAckDate :: "gostring option"
  SignedQR :: "gostring option"
  EwbNumber :: "gostring option"
  invoice_CreatedAt :: gotime
  invoice_UpdatedAt :: gotime
  invoice_Version :: int64
  LineItems :: "LineItem list"
  invoice_events :: "InvoiceEvent list"

datatype invoice_error =
    PaymentOnCancelledInvoice
  | MoneyError money_error
  | OnlyDraftIssued
  | PaidCannotBeVoided
  | AlreadyCancelled
  | InvoiceNumberRequired

type_synonym invoice_result = "InvoiceAggregate \<times> invoice_error option"

section \<open>Methods\<close>

definition invoice_append_event :: "InvoiceEvent \<Rightarrow> InvoiceAggregate \<Rightarrow> InvoiceAggregate" where
  "invoice_append_event e a = a\<lparr>invoice_events := invoice_events a @ [e]\<rparr>"

definition NewInvoiceAggregate ::
  "gostring \<Rightarrow> gostring \<Rightarrow> gostring \<Rightarrow> gostring \<Rightarrow> gostring \<Rightarrow> gostring option
    \<Rightarrow> float64 \<Rightarrow> float64 \<Rightarrow> float64 \<Rightarrow> float64 \<Rightarrow> PaymentStatus \<Rightarrow> gotime \<Rightarrow> InvoiceAggregate" where
  "NewInvoiceAggregate iid tenantID invoiceNumber bookingID customerID tripID
       subtotal tax discount totalAmt status now =
     invoice_append_event (InvoiceGeneratedEvent iid tenantID invoiceNumber totalAmt now)
       \<lparr>invoice_ID = iid, invoice_TenantID = tenantID, InvoiceNumber = invoiceNumber,
        invoice_BookingID = bookingID, invoice_CustomerID = customerID, invoice_TripID = tripID,
        Subtotal = subtotal, Tax = tax, Cgst = Fin 0, Sgst = Fin 0, Igst = Fin 0,
        Discount = discount, Total = totalAmt, PaymentStatus = status, PaidAmount = Fin 0,
        invoice_Status = InvoiceStatusOutstanding, DueDate = None, FinancialYear = '''',
        CreditBalance = Fin 0, invoice_Remarks = '''', IRN = None, IRNAckNo = None,
        IRNAckDate = None, SignedQR = None, EwbNumber = None, invoice_CreatedAt = now,
        invoice_UpdatedAt = now, invoice_Version = 0, LineItems = [], invoice_events = []\<rparr>"

text \<open>The minor units of a float amount.\<close>

definition minor :: "float64 \<Rightarrow> int64" where
  "minor x = Amount (FloatToMoney x invoiceCurrency)"

definition money_of_minor :: "int64 \<Rightarrow> float64" where
  "money_of_minor w = MoneyToFloat \<lparr>Amount = w, Currency = invoiceCurrency\<rparr>"

definition RehydrateInvoiceAggregate ::
  "gostring \<Rightarrow> gostring \<Rightarrow> gostring \<Rightarrow> gostring \<Rightarrow> gostring \<Rightarrow> gostring option
    \<Rightarrow> float64 \<Rightarrow> float64 \<Rightarrow> float64 \<Rightarrow> float64 \<Rightarrow> PaymentStatus \<Rightarrow> InvoiceStatus
    \<Rightarrow> float64 \<Rightarrow> gotime option \<Rightarrow> gostring \<Rightarrow> gostring \<Rightarrow> gotime \<Rightarrow> gotime \<Rightarrow> int64
    \<Rightarrow> InvoiceAggregate" where
  "RehydrateInvoiceAggregate iid tenantID invoiceNumber bookingID customerID tripID
       subtotal tax discount totalAmt paymentStatus invoiceStatus paidAmount
       dueDate financialYear remarks createdAt updatedAt version =
     (let over = minor paidAmount - minor totalAmt;
          creditBalance = (if sint over > 0 then money_of_minor over else Fin 0)
      in \<lparr>invoice_ID = iid, invoice_TenantID = tenantID, InvoiceNumber = invoiceNumber,
          invoice_BookingID = bookingID, invoice_CustomerID = customerID, invoice_TripID = tripID,
          Subtotal = subtotal, Tax = tax, Cgst = Fin 0, Sgst = Fin 0, Igst = Fin 0,
          Discount = discount, Total = totalAmt, PaymentStatus = paymentStatus,
          PaidAmount = paidAmount, invoice_Status = invoiceStatus, DueDate = dueDate,
          FinancialYear = financialYear, CreditBalance = creditBalance,
          invoice_Remarks = remarks, IRN = None, IRNAckNo = None, IRNAckDate = None,
          SignedQR = None, EwbNumber = None, invoice_CreatedAt = createdAt,
          invoice_UpdatedAt = updatedAt, invoice_Version = version, LineItems = [],
          invoice_events = []\<rparr>)"

definition invoice_Events :: "InvoiceAggregate \<Rightarrow> InvoiceEvent list" where
  "invoice_Events a = invoice_events a"

definition invoice_ClearEvents :: "InvoiceAggregate \<Rightarrow> InvoiceAggregate" where
  "invoice_ClearEvents a = a\<lparr>invoice_events := []\<rparr>"

definition RoundMoney :: "float64 \<Rightarrow> float64" where
  "RoundMoney v = fdiv (math_Round (v * F 100)) (F 100)"

text \<open>The sums one pass over the line items builds, from zero.\<close>

record totals =
  sum_subtotal :: float64
  sum_cgst :: float64
  sum_sgst :: float64
  sum_igst :: float64
  hasLineTaxes :: bool

definition add_line :: "totals \<Rightarrow> LineItem \<Rightarrow> totals" where
  "add_line s li =
     (let s1 = s\<lparr>sum_subtotal := sum_subtotal s + li_Amount li\<rparr>
      in if Fin 0 < CgstAmount li \<or> Fin 0 < SgstAmount li \<or> Fin 0 < IgstAmount li
         then s1\<lparr>hasLineTaxes := True, sum_cgst := sum_cgst s + CgstAmount li,
                 sum_sgst := sum_sgst s + SgstAmount li, sum_igst := sum_igst s + IgstAmount li\<rparr>
         else s1)"

definition no_totals :: totals where
  "no_totals = \<lparr>sum_subtotal = Fin 0, sum_cgst = Fin 0, sum_sgst = Fin 0, sum_igst = Fin 0,
                hasLineTaxes = False\<rparr>"

definition RecomputeTotals :: "InvoiceAggregate \<Rightarrow> InvoiceAggregate" where
  "RecomputeTotals a =
     (if LineItems a = [] then a
      else
        (let s = foldl add_line no_totals (LineItems a);
             a1 = a\<lparr>Subtotal := RoundMoney (sum_subtotal s)\<rparr>;
             a2 = (if hasLineTaxes s
                   then (let c = RoundMoney (sum_cgst s); g = RoundMoney (sum_sgst s);
                             i = RoundMoney (sum_igst s)
                         in a1\<lparr>Cgst := c, Sgst := g, Igst := i, Tax := RoundMoney (c + g + i)\<rparr>)
                   else a1)
         in a2\<lparr>Total := RoundMoney (Subtotal a2 + Tax a2 - Discount a2)\<rparr>))"

definition AddLineItem :: "LineItem \<Rightarrow> InvoiceAggregate \<Rightarrow> InvoiceAggregate" where
  "AddLineItem item a =
     RecomputeTotals (a\<lparr>LineItems := LineItems a @ [item\<lparr>li_Amount := RoundMoney (li_Amount item)\<rparr>]\<rparr>)"

definition UpdatePaymentStatus :: "PaymentStatus \<Rightarrow> gotime \<Rightarrow> InvoiceAggregate \<Rightarrow> invoice_result" where
  "UpdatePaymentStatus status now a =
     (invoice_append_event (InvoicePaymentUpdatedEvent (invoice_ID a) (invoice_TenantID a) status now)
        (a\<lparr>PaymentStatus := status, invoice_UpdatedAt := now\<rparr>), None)"

definition OutstandingBalance :: "InvoiceAggregate \<Rightarrow> float64" where
  "OutstandingBalance a =
     (let outstanding = minor (Total a) - minor (PaidAmount a)
      in if sint outstanding \<le> 0 then Fin 0 else money_of_minor outstanding)"

text \<open>
  The payment switch: what \<open>ApplyPayment\<close> writes for the new paid amount \<open>newPaid\<close>, in minor
  units, against the total.
\<close>

definition settle :: "int64 \<Rightarrow> InvoiceAggregate \<Rightarrow> InvoiceAggregate" where
  "settle newPaid a =
     (let outstanding = minor (Total a) - newPaid in
      if sint outstanding < 0
        then a\<lparr>CreditBalance := money_of_minor (- outstanding),
               PaymentStatus := PaymentStatusPaid, invoice_Status := InvoiceStatusPaid\<rparr>
      else if outstanding = 0
        then a\<lparr>CreditBalance := Fin 0, PaymentStatus := PaymentStatusPaid,
               invoice_Status := InvoiceStatusPaid\<rparr>
      else
        (let a1 = a\<lparr>CreditBalance := Fin 0,
                    PaymentStatus := (if sint newPaid > 0 then PaymentStatusPartiallyPaid
                                      else PaymentStatusPending)\<rparr>
         in if invoice_Status a1 = InvoiceStatusPaid
            then a1\<lparr>invoice_Status := InvoiceStatusOutstanding\<rparr> else a1))"

definition ApplyPayment :: "float64 \<Rightarrow> gotime \<Rightarrow> InvoiceAggregate \<Rightarrow> invoice_result" where
  "ApplyPayment amount now a =
     (if invoice_Status a = InvoiceStatusCancelled then (a, Some PaymentOnCancelledInvoice)
      else
        (case Money_Add (FloatToMoney (PaidAmount a) invoiceCurrency)
                        (FloatToMoney amount invoiceCurrency) of
           Inl e \<Rightarrow> (a, Some (MoneyError e))
         | Inr newPaid0 \<Rightarrow>
             (let newPaid = (if sint (Amount newPaid0) < 0 then newPaid0\<lparr>Amount := 0\<rparr> else newPaid0);
                  a1 = settle (Amount newPaid) (a\<lparr>PaidAmount := MoneyToFloat newPaid\<rparr>);
                  a2 = a1\<lparr>invoice_UpdatedAt := now\<rparr>
              in (invoice_append_event
                    (InvoicePaymentAppliedEvent (invoice_ID a) (invoice_TenantID a) amount
                       (PaidAmount a2) (PaymentStatus a2) now) a2, None))))"

definition MarkIssued :: "gotime \<Rightarrow> gotime \<Rightarrow> InvoiceAggregate \<Rightarrow> invoice_result" where
  "MarkIssued dueDate now a =
     (if invoice_Status a \<noteq> InvoiceStatusDraft then (a, Some OnlyDraftIssued)
      else (invoice_append_event (InvoiceIssuedEvent (invoice_ID a) (invoice_TenantID a) dueDate now)
              (a\<lparr>invoice_Status := InvoiceStatusIssued, DueDate := Some dueDate,
                 invoice_UpdatedAt := now\<rparr>), None))"

definition Void :: "gotime \<Rightarrow> InvoiceAggregate \<Rightarrow> invoice_result" where
  "Void now a =
     (if invoice_Status a = InvoiceStatusPaid then (a, Some PaidCannotBeVoided)
      else if invoice_Status a = InvoiceStatusCancelled then (a, Some AlreadyCancelled)
      else (invoice_append_event (InvoiceVoidedEvent (invoice_ID a) (invoice_TenantID a) now)
              (a\<lparr>invoice_Status := InvoiceStatusCancelled, invoice_UpdatedAt := now\<rparr>), None))"

definition ValidateInvoiceNumber :: "gostring \<Rightarrow> invoice_error option" where
  "ValidateInvoiceNumber number = (if number = '''' then Some InvoiceNumberRequired else None)"

definition CanPay :: "PaymentStatus \<Rightarrow> bool" where
  "CanPay status \<longleftrightarrow> status = PaymentStatusPending \<or> status = PaymentStatusPartiallyPaid"

section \<open>Payments\<close>

datatype PaymentMethod =
    PaymentMethodCash | PaymentMethodUPI | PaymentMethodBankTransfer | PaymentMethodCheque
  | PaymentMethodRazorpay | OtherPaymentMethod gostring

datatype PaymentEvent = PaymentReceivedEvent gostring gostring gostring float64 gotime

record PaymentAggregate =
  payment_ID :: gostring
  payment_TenantID :: gostring
  payment_InvoiceID :: gostring
  PaymentDate :: gotime
  payment_Amount :: float64
  Method :: PaymentMethod
  Reference :: "gostring option"
  payment_Remarks :: "gostring option"
  payment_IdempotencyKey :: gostring
  payment_CreatedAt :: gotime
  payment_UpdatedAt :: gotime
  payment_events :: "PaymentEvent list"

definition NewPaymentAggregate ::
  "gostring \<Rightarrow> gostring \<Rightarrow> gostring \<Rightarrow> gotime \<Rightarrow> float64 \<Rightarrow> PaymentMethod \<Rightarrow> gostring option
    \<Rightarrow> gostring option \<Rightarrow> gotime \<Rightarrow> PaymentAggregate" where
  "NewPaymentAggregate pid tenantID invoiceID paymentDate amount method reference remarks now =
     \<lparr>payment_ID = pid, payment_TenantID = tenantID, payment_InvoiceID = invoiceID,
      PaymentDate = paymentDate, payment_Amount = amount, Method = method,
      Reference = reference, payment_Remarks = remarks, payment_IdempotencyKey = '''',
      payment_CreatedAt = now, payment_UpdatedAt = now,
      payment_events = [PaymentReceivedEvent pid tenantID invoiceID amount now]\<rparr>"

definition payment_Events :: "PaymentAggregate \<Rightarrow> PaymentEvent list" where
  "payment_Events a = payment_events a"

definition payment_ClearEvents :: "PaymentAggregate \<Rightarrow> PaymentAggregate" where
  "payment_ClearEvents a = a\<lparr>payment_events := []\<rparr>"

text \<open>The payment workflow's guard takes the status as its string.\<close>

definition CanProcessPayment :: "gostring \<Rightarrow> bool" where
  "CanProcessPayment invoiceStatus \<longleftrightarrow>
     invoiceStatus = ''pending'' \<or> invoiceStatus = ''partially_paid''"

fun payment_status_string :: "PaymentStatus \<Rightarrow> gostring" where
  "payment_status_string PaymentStatusPending = ''pending''"
| "payment_status_string PaymentStatusPaid = ''paid''"
| "payment_status_string PaymentStatusPartiallyPaid = ''partially_paid''"
| "payment_status_string (OtherPaymentStatus s) = s"

end
