(* ===== verification/InvoiceProps.thy ===== *)
theory InvoiceProps
  imports Invoice
begin

text \<open>
  Properties of the invoice: payments are exact in paise in spite of the float representation,
  the outstanding and the credit balance split the difference to the total, a saved and reloaded
  invoice shows the same credit, totals are the sums of their lines, and the life cycle.
\<close>

section \<open>Reduction to paise\<close>

lemma RoundMoney_round2: "RoundMoney v = round2 v"
  by (simp add: RoundMoney_def round2_def)

lemma minor_rupees: "\<bar>n\<bar> \<le> 2 ^ 50 \<Longrightarrow> minor (rupees n) = word_of_int n"
  by (simp add: minor_def Amount_FloatToMoney_rupees)

lemma money_of_minor_rupees: "\<bar>n\<bar> \<le> 2 ^ 50 \<Longrightarrow> money_of_minor (word_of_int n) = rupees n"
  using MoneyToFloat_rupees [of "\<lparr>Amount = word_of_int n, Currency = invoiceCurrency\<rparr>"]
  by (simp add: money_of_minor_def sint_of_int64)

lemma word_of_int_diff64: "(word_of_int a :: int64) - word_of_int b = word_of_int (a - b)"
  by simp

lemma word_of_int_eq_0_iff: "\<bar>n\<bar> \<le> 2 ^ 62 \<Longrightarrow> (word_of_int n :: int64) = 0 \<longleftrightarrow> n = 0"
  using sint_of_int64 [of n] by auto

lemma sint_small: "\<bar>n\<bar> \<le> 2 ^ 50 \<Longrightarrow> sint (word_of_int n :: int64) = n"
  by (rule sint_of_int64) simp_all

text \<open>The invoice after a payment of \<open>A\<close> paise, written over the integers.\<close>

definition settled :: "int \<Rightarrow> int \<Rightarrow> InvoiceAggregate \<Rightarrow> InvoiceAggregate" where
  "settled T P a = a\<lparr>CreditBalance := rupees (max 0 (P - T)),
      PaymentStatus := (if T \<le> P then PaymentStatusPaid
                        else if 0 < P then PaymentStatusPartiallyPaid else PaymentStatusPending),
      invoice_Status := (if T \<le> P then InvoiceStatusPaid
                         else if invoice_Status a = InvoiceStatusPaid then InvoiceStatusOutstanding
                         else invoice_Status a)\<rparr>"

lemma settle_rupees:
  assumes "Total a = rupees T" and "\<bar>T\<bar> \<le> 2 ^ 49" and "\<bar>P\<bar> \<le> 2 ^ 49"
  shows "settle (word_of_int P) a = settled T P a"
proof -
  have TP: "\<bar>T - P\<bar> \<le> 2 ^ 50" "\<bar>T\<bar> \<le> 2 ^ 50" "\<bar>P - T\<bar> \<le> 2 ^ 50" using assms by simp_all
  have out: "minor (Total a) - word_of_int P = (word_of_int (T - P) :: int64)"
    using TP by (simp add: assms(1) minor_rupees)
  have s: "sint (word_of_int (T - P) :: int64) = T - P" "sint (word_of_int P :: int64) = P"
    by (rule sint_small, use TP assms(3) in simp)+
  have neg: "- (word_of_int (T - P) :: int64) = word_of_int (P - T)" by simp
  show ?thesis
    unfolding settle_def Let_def out s neg
    using TP by (auto simp: settled_def money_of_minor_rupees word_of_int_eq_0_iff
        simp del: of_int_diff)
qed

lemma sum_minor:
  assumes "\<bar>P\<bar> \<le> 2 ^ 49" and "\<bar>A\<bar> \<le> 2 ^ 49"
  shows "Money_Add (FloatToMoney (rupees P) c) (FloatToMoney (rupees A) c)
     = Inr \<lparr>Amount = word_of_int (P + A), Currency = c\<rparr>"
  using assms by (simp add: Money_Add_def Amount_FloatToMoney_rupees)

lemma ApplyPayment_paise:
  assumes "invoice_Status a \<noteq> InvoiceStatusCancelled"
    and "Total a = rupees T" and "PaidAmount a = rupees P" and "amount = rupees A"
    and "\<bar>T\<bar> \<le> 2 ^ 48" and "\<bar>P\<bar> \<le> 2 ^ 48" and "\<bar>A\<bar> \<le> 2 ^ 48"
  shows "\<exists>es. ApplyPayment amount now a =
     ((settled T (max 0 (P + A)) a)\<lparr>PaidAmount := rupees (max 0 (P + A)),
        invoice_UpdatedAt := now, invoice_events := invoice_events a @ es\<rparr>, None)"
proof -
  let ?P = "max 0 (P + A)"
  have b: "\<bar>?P\<bar> \<le> 2 ^ 49" "\<bar>P + A\<bar> \<le> 2 ^ 49" "\<bar>P\<bar> \<le> 2 ^ 49" "\<bar>A\<bar> \<le> 2 ^ 49" "\<bar>T\<bar> \<le> 2 ^ 49"
    using assms(5-7) by simp_all
  let ?m0 = "\<lparr>Amount = word_of_int (P + A), Currency = invoiceCurrency\<rparr> :: Money"
  let ?m = "if sint (Amount ?m0) < 0 then ?m0\<lparr>Amount := 0\<rparr> else ?m0"
  have m: "?m = \<lparr>Amount = word_of_int ?P, Currency = invoiceCurrency\<rparr>"
    using b(2) sint_of_int64 [of "P + A"] by (simp add: max_def)
  have f: "MoneyToFloat \<lparr>Amount = word_of_int ?P, Currency = invoiceCurrency\<rparr> = rupees ?P"
    using b(1) money_of_minor_rupees [of ?P] by (simp add: money_of_minor_def)
  have st: "settle (Amount ?m) (a\<lparr>PaidAmount := MoneyToFloat ?m\<rparr>) =
      settled T ?P (a\<lparr>PaidAmount := rupees ?P\<rparr>)"
    unfolding m f using settle_rupees [of "a\<lparr>PaidAmount := rupees ?P\<rparr>" T ?P] assms(2) b
    by simp
  have "ApplyPayment amount now a =
     (let a2 = (settle (Amount ?m) (a\<lparr>PaidAmount := MoneyToFloat ?m\<rparr>))\<lparr>invoice_UpdatedAt := now\<rparr>
      in (invoice_append_event (InvoicePaymentAppliedEvent (invoice_ID a) (invoice_TenantID a)
            amount (PaidAmount a2) (PaymentStatus a2) now) a2, None))"
    using assms(1) unfolding ApplyPayment_def assms(3,4) sum_minor [OF b(3,4)]
    by (simp only: sum.case Let_def if_False simp_thms)
  then have "ApplyPayment amount now a =
     ((settled T ?P a)\<lparr>PaidAmount := rupees ?P, invoice_UpdatedAt := now,
        invoice_events := invoice_events a @ [InvoicePaymentAppliedEvent (invoice_ID a)
          (invoice_TenantID a) amount (rupees ?P) (PaymentStatus (settled T ?P a)) now]\<rparr>, None)"
    unfolding st by (simp only: Let_def invoice_append_event_def settled_def) simp
  then show ?thesis by blast
qed

text \<open>
  C7: a payment of \<open>A\<close> paise on an invoice of \<open>T\<close> paise with \<open>P\<close> already paid leaves exactly
  \<open>max 0 (P + A)\<close> paise paid; what is still outstanding and what is held as credit are the two
  sides of the difference to the total. The payment is paid when the total is covered, else partial
  or pending as something is paid or not; the invoice is paid when the total is covered, and a paid one
  that is no longer covered is outstanding again.
\<close>

theorem apply_payment_exact:
  assumes "invoice_Status a \<noteq> InvoiceStatusCancelled"
    and "Total a = rupees T" and "PaidAmount a = rupees P"
    and "\<bar>T\<bar> \<le> 2 ^ 48" and "\<bar>P\<bar> \<le> 2 ^ 48" and "\<bar>A\<bar> \<le> 2 ^ 48"
  shows "let P' = max 0 (P + A); a' = fst (ApplyPayment (rupees A) now a) in
     snd (ApplyPayment (rupees A) now a) = None
     \<and> PaidAmount a' = rupees P'
     \<and> OutstandingBalance a' = rupees (max 0 (T - P'))
     \<and> CreditBalance a' = rupees (max 0 (P' - T))
     \<and> PaymentStatus a' = (if T \<le> P' then PaymentStatusPaid
         else if 0 < P' then PaymentStatusPartiallyPaid else PaymentStatusPending)
     \<and> invoice_Status a' = (if T \<le> P' then InvoiceStatusPaid
         else if invoice_Status a = InvoiceStatusPaid then InvoiceStatusOutstanding else invoice_Status a)"
proof -
  define Q where "Q = max 0 (P + A)"
  obtain es where ap: "ApplyPayment (rupees A) now a =
     ((settled T Q a)\<lparr>PaidAmount := rupees Q,
        invoice_UpdatedAt := now, invoice_events := invoice_events a @ es\<rparr>, None)"
    using ApplyPayment_paise [OF assms(1-3) refl assms(4-6)] unfolding Q_def by blast
  have b: "\<bar>T\<bar> \<le> 2 ^ 50" "\<bar>Q\<bar> \<le> 2 ^ 50" "\<bar>T - Q\<bar> \<le> 2 ^ 50" using assms(4-6) by (simp_all add: Q_def)
  have out: "minor (rupees T) - minor (rupees Q) = word_of_int (T - Q)"
    unfolding minor_rupees [OF b(1)] minor_rupees [OF b(2)] by simp
  have s: "sint (word_of_int (T - Q) :: int64) = T - Q"
    by (rule sint_small [OF b(3)])
  have "OutstandingBalance (fst (ApplyPayment (rupees A) now a)) = rupees (max 0 (T - Q))"
    unfolding ap OutstandingBalance_def
    by (simp add: settled_def assms(2) Let_def out s money_of_minor_rupees [OF b(3)]
        rupees_0 [symmetric] max_def del: of_int_diff rupees_0)
  then show ?thesis unfolding Let_def ap Q_def [symmetric] by (simp add: settled_def)
qed

definition demo_invoice :: InvoiceAggregate where
  "demo_invoice = NewInvoiceAggregate ''i1'' ''1'' ''INV-1'' ''b1'' ''c1'' None
     (rupees 30) (Fin 0) (Fin 0) (rupees 30) PaymentStatusPending 1"

theorem apply_payment_exact_witness:
  "PaymentStatus (fst (ApplyPayment (rupees 10) 2 demo_invoice)) = PaymentStatusPartiallyPaid
   \<and> PaidAmount (fst (ApplyPayment (rupees 20) 3 (fst (ApplyPayment (rupees 10) 2 demo_invoice)))) = rupees 30
   \<and> invoice_Status (fst (ApplyPayment (rupees 20) 3 (fst (ApplyPayment (rupees 10) 2 demo_invoice))))
       = InvoiceStatusPaid"
proof -
  let ?a = "fst (ApplyPayment (rupees 10) 2 demo_invoice)"
  have d: "invoice_Status demo_invoice \<noteq> InvoiceStatusCancelled" "Total demo_invoice = rupees 30"
      "PaidAmount demo_invoice = rupees 0"
    by (simp_all add: demo_invoice_def NewInvoiceAggregate_def invoice_append_event_def)
  have "PaidAmount ?a = rupees 10" "PaymentStatus ?a = PaymentStatusPartiallyPaid"
    using apply_payment_exact [OF d, of 10 2] by (simp_all add: Let_def)
  moreover obtain es where "?a = (settled 30 10 demo_invoice)\<lparr>PaidAmount := rupees 10,
        invoice_UpdatedAt := 2, invoice_events := invoice_events demo_invoice @ es\<rparr>"
    using ApplyPayment_paise [OF d refl, of 10 2] by auto
  then have "invoice_Status ?a \<noteq> InvoiceStatusCancelled" "Total ?a = rupees 30"
    using d by (simp_all add: settled_def)
  ultimately show ?thesis using apply_payment_exact [of ?a 30 10 20 3] by (simp add: Let_def)
qed

section \<open>Runs of payments\<close>

text \<open>Applying payments in order, as repeated calls do.\<close>

fun apply_payments :: "(float64 \<times> gotime) list \<Rightarrow> InvoiceAggregate \<Rightarrow> InvoiceAggregate" where
  "apply_payments [] a = a"
| "apply_payments ((x, now) # ps) a = apply_payments ps (fst (ApplyPayment x now a))"

lemma apply_payments_paid:
  assumes "invoice_Status a \<noteq> InvoiceStatusCancelled" and "Total a = rupees T" and "\<bar>T\<bar> \<le> 2 ^ 48"
    and "PaidAmount a = rupees P" and "0 \<le> P" and "\<forall>(n, t) \<in> set ps. 0 \<le> n"
    and "P + sum_list (map fst ps) \<le> 2 ^ 48"
  shows "PaidAmount (apply_payments (map (\<lambda>(n, t). (rupees n, t)) ps) a)
     = rupees (P + sum_list (map fst ps))"
  using assms
proof (induction ps arbitrary: a P)
  case Nil
  then show ?case by simp
next
  case (Cons p ps)
  obtain n t where p: "p = (n, t)" by (cases p)
  have nonneg: "0 \<le> n" "0 \<le> sum_list (map fst ps)"
    using Cons.prems(6) by (force simp: p intro!: sum_list_nonneg)+
  then have b: "\<bar>P\<bar> \<le> 2 ^ 48" "\<bar>n\<bar> \<le> 2 ^ 48" "max 0 (P + n) = P + n"
    using Cons.prems(5,7) by (simp_all add: p)
  obtain es where ap: "ApplyPayment (rupees n) t a =
     ((settled T (P + n) a)\<lparr>PaidAmount := rupees (P + n),
        invoice_UpdatedAt := t, invoice_events := invoice_events a @ es\<rparr>, None)"
    using ApplyPayment_paise [OF Cons.prems(1,2,4) refl Cons.prems(3) b(1,2)] b(3) by auto
  let ?a = "fst (ApplyPayment (rupees n) t a)"
  have "PaidAmount (apply_payments (map (\<lambda>(n, t). (rupees n, t)) ps) ?a)
     = rupees ((P + n) + sum_list (map fst ps))"
    by (rule Cons.IH)
       (use Cons.prems nonneg in \<open>auto simp: ap settled_def p\<close>)
  then show ?case by (simp add: p algebra_simps)
qed

text \<open>
  After any number of payments the paid amount is exactly the float of the sum of the paise
  paid, however the payments are split: no rounding error accumulates.
\<close>

theorem payments_sum_exact:
  assumes "invoice_Status a \<noteq> InvoiceStatusCancelled" and "Total a = rupees T" and "\<bar>T\<bar> \<le> 2 ^ 48"
    and "PaidAmount a = rupees 0" and "\<forall>(n, t) \<in> set ps. 0 \<le> n"
    and "sum_list (map fst ps) \<le> 2 ^ 48"
  shows "PaidAmount (apply_payments (map (\<lambda>(n, t). (rupees n, t)) ps) a)
     = rupees (sum_list (map fst ps))"
  using apply_payments_paid [OF assms(1-4), of ps] assms(5,6) by simp

theorem payments_sum_exact_witness:
  "PaidAmount (apply_payments [(rupees 10, 2), (rupees 20, 3), (rupees 5, 4)] demo_invoice) = rupees 35"
  using payments_sum_exact [of demo_invoice 30 "[(10, 2), (20, 3), (5, 4)]"]
  by (simp add: demo_invoice_def NewInvoiceAggregate_def invoice_append_event_def)

text \<open>
  Saving an invoice after a payment and reloading it from its columns (total, paid amount,
  statuses) restores the credit balance, which has no column of its own.
\<close>

theorem rehydrate_restores_credit:
  assumes "invoice_Status a \<noteq> InvoiceStatusCancelled"
    and "Total a = rupees T" and "PaidAmount a = rupees P"
    and "\<bar>T\<bar> \<le> 2 ^ 48" and "\<bar>P\<bar> \<le> 2 ^ 48" and "\<bar>A\<bar> \<le> 2 ^ 48"
  shows "let a' = fst (ApplyPayment (rupees A) now a) in
     CreditBalance (RehydrateInvoiceAggregate (invoice_ID a') (invoice_TenantID a') (InvoiceNumber a')
        (invoice_BookingID a') (invoice_CustomerID a') (invoice_TripID a') (Subtotal a') (Tax a')
        (Discount a') (Total a') (PaymentStatus a') (invoice_Status a') (PaidAmount a')
        (DueDate a') (FinancialYear a') (invoice_Remarks a') (invoice_CreatedAt a')
        (invoice_UpdatedAt a') (invoice_Version a')) = CreditBalance a'"
proof -
  define Q where "Q = max 0 (P + A)"
  obtain es where ap: "ApplyPayment (rupees A) now a =
     ((settled T Q a)\<lparr>PaidAmount := rupees Q,
        invoice_UpdatedAt := now, invoice_events := invoice_events a @ es\<rparr>, None)"
    using ApplyPayment_paise [OF assms(1-3) refl assms(4-6)] unfolding Q_def by blast
  have b: "\<bar>T\<bar> \<le> 2 ^ 50" "\<bar>Q\<bar> \<le> 2 ^ 50" "\<bar>Q - T\<bar> \<le> 2 ^ 50" using assms(4-6) by (simp_all add: Q_def)
  have over: "minor (rupees Q) - minor (rupees T) = word_of_int (Q - T)"
    unfolding minor_rupees [OF b(1)] minor_rupees [OF b(2)] by simp
  have s: "sint (word_of_int (Q - T) :: int64) = Q - T"
    by (rule sint_small [OF b(3)])
  show ?thesis
    unfolding Let_def ap RehydrateInvoiceAggregate_def
    by (simp add: settled_def assms(2) over s money_of_minor_rupees [OF b(3)]
        rupees_0 [symmetric] max_def del: of_int_diff rupees_0)
qed

theorem rehydrate_restores_credit_witness:
  "let a' = fst (ApplyPayment (rupees 50) 2 demo_invoice) in
     CreditBalance (RehydrateInvoiceAggregate (invoice_ID a') (invoice_TenantID a') (InvoiceNumber a')
        (invoice_BookingID a') (invoice_CustomerID a') (invoice_TripID a') (Subtotal a') (Tax a')
        (Discount a') (Total a') (PaymentStatus a') (invoice_Status a') (PaidAmount a')
        (DueDate a') (FinancialYear a') (invoice_Remarks a') (invoice_CreatedAt a')
        (invoice_UpdatedAt a') (invoice_Version a')) = CreditBalance a'"
  by (rule rehydrate_restores_credit [of _ 30 0])
     (simp_all add: demo_invoice_def NewInvoiceAggregate_def invoice_append_event_def)

section \<open>Totals of the lines\<close>

lemma approx_rupees_36:
  assumes "\<bar>n\<bar> \<le> 2 ^ 37"
  shows "approx (of_int n / 100) (1 / 2 ^ 23) (rupees n)"
proof -
  have n: "\<bar>of_int n\<bar> \<le> (2 ^ 37 :: rat)" using abs_of_int_le [OF assms(1)] by simp
  have "approx (of_int n / 100) (2 powi (31 - 54)) (fl (of_int n / 100))"
    by (rule approx_fl) (use n in simp_all)
  then show ?thesis by (simp add: rupees_def power_int_minus)
qed

lemma foldl_plus_approx:
  assumes "approx (of_int S / 100) d x" and "\<forall>y \<in> set ys. g y = rupees (n y)"
    and "\<bar>S\<bar> + sum_list (map (\<lambda>y. \<bar>n y\<bar>) ys) \<le> 2 ^ 36"
    and "0 \<le> d" and "d + of_nat (length ys) / 2 ^ 22 \<le> 1 / 512"
  shows "approx (of_int (S + sum_list (map n ys)) / 100) (d + of_nat (length ys) / 2 ^ 22)
           (foldl (+) x (map g ys))"
  using assms
proof (induction ys arbitrary: S d x)
  case Nil
  then show ?case by simp
next
  case (Cons y ys)
  have nn: "0 \<le> sum_list (map (\<lambda>y. \<bar>n y\<bar>) ys)" by (rule sum_list_nonneg) auto
  with Cons.prems(3) have bn: "\<bar>n y\<bar> \<le> 2 ^ 37" "\<bar>S + n y\<bar> \<le> 2 ^ 36" by simp_all
  have gy: "approx (of_int (n y) / 100) (1 / 2 ^ 23) (g y)"
    using Cons.prems(2) approx_rupees_36 [OF bn(1)] by simp
  have q: "\<bar>of_int (S + n y)\<bar> \<le> (2 ^ 36 :: rat)" using abs_of_int_le [OF bn(2)] by simp
  have dl: "d \<le> 1 / 512" using Cons.prems(5) by (simp add: field_simps)
  have "approx (of_int S / 100 + of_int (n y) / 100) (d + 1 / 2 ^ 23 + 2 powi (30 - 54)) (x + g y)"
    by (rule approx_add [OF Cons.prems(1) gy])
       (use q dl in \<open>simp_all add: add_divide_distrib [symmetric]\<close>)
  then have "approx (of_int (S + n y) / 100) (d + 1 / 2 ^ 22) (x + g y)"
    by (rule_tac approx_weaken [where d = "d + 1 / 2 ^ 23 + 2 powi (30 - 54)"])
       (simp_all add: add_divide_distrib power_int_minus)
  then have "approx (of_int (S + n y + sum_list (map n ys)) / 100)
      (d + 1 / 2 ^ 22 + of_nat (length ys) / 2 ^ 22) (foldl (+) (x + g y) (map g ys))"
  proof (rule Cons.IH)
    show "\<forall>y \<in> set ys. g y = rupees (n y)" using Cons.prems(2) by simp
    show "\<bar>S + n y\<bar> + sum_list (map (\<lambda>y. \<bar>n y\<bar>) ys) \<le> 2 ^ 36" using Cons.prems(3) by simp
    show "0 \<le> d + 1 / 2 ^ 22" using Cons.prems(4) by simp
    show "d + 1 / 2 ^ 22 + of_nat (length ys) / 2 ^ 22 \<le> 1 / 512"
      using Cons.prems(5) by (simp add: field_simps)
  qed
  then show ?case by (simp add: algebra_simps add_divide_distrib)
qed

lemma round_sum:
  assumes "\<forall>y \<in> set ys. g y = rupees (n y)" and "sum_list (map (\<lambda>y. \<bar>n y\<bar>) ys) \<le> 2 ^ 36"
    and "length ys \<le> 4096"
  shows "RoundMoney (foldl (+) (Fin 0) (map g ys)) = rupees (sum_list (map n ys))"
proof -
  have l: "of_nat (length ys) / 2 ^ 22 \<le> (1 / 1024 :: rat)"
  proof -
    have "(of_nat (length ys) :: rat) \<le> of_nat 4096" using assms(3) by (simp only: of_nat_le_iff)
    then show ?thesis by simp
  qed
  have "approx (of_int (0 + sum_list (map n ys)) / 100) (0 + of_nat (length ys) / 2 ^ 22)
           (foldl (+) (Fin 0) (map g ys))"
    by (rule foldl_plus_approx) (use assms l in \<open>simp_all add: approx_def\<close>)
  then have "approx (of_int (sum_list (map n ys)) / 100) (1 / 512) (foldl (+) (Fin 0) (map g ys))"
    by (rule_tac approx_weaken [where d = "of_nat (length ys) / 2 ^ 22"]) (use l in simp_all)
  moreover have "\<bar>sum_list (map n ys)\<bar> \<le> 2 ^ 50"
    using sum_list_abs [of "map n ys"] assms(2) by (simp add: comp_def)
  ultimately show ?thesis by (simp add: RoundMoney_round2 round2_approx)
qed

text \<open>Three amounts, added or subtracted and rounded, as in the tax and the total.\<close>

lemma round_three:
  assumes "\<bar>a\<bar> \<le> 2 ^ 37" and "\<bar>b\<bar> \<le> 2 ^ 37" and "\<bar>c\<bar> \<le> 2 ^ 37"
  shows "RoundMoney (rupees a + rupees b + rupees c) = rupees (a + b + c)"
    and "RoundMoney (rupees a + rupees b - rupees c) = rupees (a + b - c)"
proof -
  let ?A = "of_int a / 100 :: rat" and ?B = "of_int b / 100 :: rat" and ?C = "of_int c / 100 :: rat"
  have q: "\<bar>of_int a\<bar> \<le> (137438953472 :: rat)" "\<bar>of_int b\<bar> \<le> (137438953472 :: rat)"
      "\<bar>of_int c\<bar> \<le> (137438953472 :: rat)"
    using assms [THEN abs_of_int_le] by simp_all
  have "(2::rat) powi (33 - 54) = 1 / 2097152" "(2::rat) powi (34 - 54) = 1 / 1048576"
    by (simp_all add: power_int_minus)
  then have err: "1 / 2 ^ 23 + 1 / 2 ^ 23 + 2 powi (33 - 54) + 1 / 2 ^ 23 + 2 powi (34 - 54) \<le> (1 / 512 :: rat)"
    by (simp only:) simp
  have s2: "\<bar>?A + ?B\<bar> \<le> 4000000000" "\<bar>?A + ?B + ?C\<bar> \<le> 6000000000" "\<bar>?A + ?B - ?C\<bar> \<le> 6000000000"
    using q by linarith+
  have ab: "approx (?A + ?B) (1 / 2 ^ 23 + 1 / 2 ^ 23 + 2 powi (33 - 54)) (rupees a + rupees b)"
    by (rule approx_add [OF approx_rupees_36 [OF assms(1)] approx_rupees_36 [OF assms(2)]])
       (use s2 in simp_all)
  have "approx (?A + ?B + ?C) (1 / 2 ^ 23 + 1 / 2 ^ 23 + 2 powi (33 - 54) + 1 / 2 ^ 23 + 2 powi (34 - 54))
      (rupees a + rupees b + rupees c)"
    by (rule approx_add [OF ab approx_rupees_36 [OF assms(3)]])
       (use s2 in \<open>simp_all add: power_int_minus\<close>)
  then have "approx (of_int (a + b + c) / 100) (1 / 512) (rupees a + rupees b + rupees c)"
    unfolding of_int_add add_divide_distrib
    by (rule approx_weaken) (rule err)
  then show "RoundMoney (rupees a + rupees b + rupees c) = rupees (a + b + c)"
    unfolding RoundMoney_round2 by (rule round2_approx) (use assms in simp)
  have "approx (?A + ?B - ?C) (1 / 2 ^ 23 + 1 / 2 ^ 23 + 2 powi (33 - 54) + 1 / 2 ^ 23 + 2 powi (34 - 54))
      (rupees a + rupees b - rupees c)"
    by (rule approx_diff [OF ab approx_rupees_36 [OF assms(3)]])
       (use s2 in \<open>simp_all add: power_int_minus\<close>)
  then have "approx (of_int (a + b - c) / 100) (1 / 512) (rupees a + rupees b - rupees c)"
    unfolding of_int_add of_int_diff add_divide_distrib diff_divide_distrib
    by (rule approx_weaken) (rule err)
  then show "RoundMoney (rupees a + rupees b - rupees c) = rupees (a + b - c)"
    unfolding RoundMoney_round2 by (rule round2_approx) (use assms in simp)
qed

definition taxed :: "LineItem \<Rightarrow> bool" where
  "taxed li \<longleftrightarrow> Fin 0 < CgstAmount li \<or> Fin 0 < SgstAmount li \<or> Fin 0 < IgstAmount li"

lemma foldl_add_line:
  "sum_subtotal (foldl add_line s ls) = foldl (+) (sum_subtotal s) (map li_Amount ls)"
  "sum_cgst (foldl add_line s ls) = foldl (+) (sum_cgst s) (map CgstAmount (filter taxed ls))"
  "sum_sgst (foldl add_line s ls) = foldl (+) (sum_sgst s) (map SgstAmount (filter taxed ls))"
  "sum_igst (foldl add_line s ls) = foldl (+) (sum_igst s) (map IgstAmount (filter taxed ls))"
  "hasLineTaxes (foldl add_line s ls) \<longleftrightarrow> hasLineTaxes s \<or> (\<exists>li \<in> set ls. taxed li)"
  by (induction ls arbitrary: s) (auto simp: add_line_def Let_def taxed_def)

text \<open>Lines whose amounts are paise: \<open>n\<close>, \<open>c\<close>, \<open>g\<close>, \<open>i\<close> give the amount and the three taxes.\<close>

definition paise_lines ::
  "(LineItem \<Rightarrow> int) \<Rightarrow> (LineItem \<Rightarrow> int) \<Rightarrow> (LineItem \<Rightarrow> int) \<Rightarrow> (LineItem \<Rightarrow> int) \<Rightarrow> LineItem list \<Rightarrow> bool" where
  "paise_lines n c g i ls \<longleftrightarrow> length ls \<le> 4096
     \<and> (\<forall>li \<in> set ls. li_Amount li = rupees (n li) \<and> CgstAmount li = rupees (c li)
          \<and> SgstAmount li = rupees (g li) \<and> IgstAmount li = rupees (i li)
          \<and> 0 \<le> c li \<and> 0 \<le> g li \<and> 0 \<le> i li)
     \<and> sum_list (map (\<lambda>li. \<bar>n li\<bar>) ls) \<le> 2 ^ 36
     \<and> sum_list (map c ls) + sum_list (map g ls) + sum_list (map i ls) \<le> 2 ^ 36"

lemma sum_list_filter_zero:
  "(\<And>x. x \<in> set xs \<Longrightarrow> \<not> P x \<Longrightarrow> f x = (0::int)) \<Longrightarrow> sum_list (map f (filter P xs)) = sum_list (map f xs)"
  by (induction xs) auto

lemma round_tax:
  assumes "\<forall>li \<in> set ls. h li = rupees (f li) \<and> 0 \<le> f li \<and> (Fin 0 < h li \<longrightarrow> taxed li)"
    and "sum_list (map f ls) \<le> 2 ^ 36" and "length ls \<le> 4096"
  shows "RoundMoney (foldl (+) (Fin 0) (map h (filter taxed ls))) = rupees (sum_list (map f ls))"
    and "\<bar>sum_list (map f ls)\<bar> \<le> 2 ^ 36"
proof -
  have le: "f li \<le> sum_list (map f ls)" if "li \<in> set ls" for li
    using member_le_sum_list [of "f li" "map f ls"] that assms(1) by auto
  have z: "f li = 0" if "li \<in> set ls" "\<not> taxed li" for li
  proof -
    have "\<not> rupees 0 < rupees (f li)" using assms(1) that by auto
    moreover have "\<bar>f li\<bar> \<le> 2 ^ 50" using le [OF that(1)] assms(1,2) that(1) by simp
    ultimately have "\<not> 0 < f li" using rupees_less(1) [of 0 "f li"] by (simp del: rupees_0)
    moreover have "0 \<le> f li" using assms(1) that(1) by blast
    ultimately show ?thesis by simp
  qed
  have abs: "sum_list (map (\<lambda>li. \<bar>f li\<bar>) (filter taxed ls)) = sum_list (map f ls)"
  proof -
    have "map (\<lambda>li. \<bar>f li\<bar>) (filter taxed ls) = map f (filter taxed ls)"
      using assms(1) by auto
    then have "sum_list (map (\<lambda>li. \<bar>f li\<bar>) (filter taxed ls)) = sum_list (map f (filter taxed ls))"
      by (simp only:)
    also have "\<dots> = sum_list (map f ls)" by (rule sum_list_filter_zero) (use z in blast)
    finally show ?thesis .
  qed
  have "RoundMoney (foldl (+) (Fin 0) (map h (filter taxed ls))) = rupees (sum_list (map f (filter taxed ls)))"
  proof (rule round_sum)
    show "\<forall>y \<in> set (filter taxed ls). h y = rupees (f y)" using assms(1) by simp
    show "sum_list (map (\<lambda>y. \<bar>f y\<bar>) (filter taxed ls)) \<le> 2 ^ 36" unfolding abs by (rule assms(2))
    show "length (filter taxed ls) \<le> 4096" using length_filter_le [of taxed ls] assms(3) by linarith
  qed
  also have "sum_list (map f (filter taxed ls)) = sum_list (map f ls)"
    by (rule sum_list_filter_zero) (use z in blast)
  finally show "RoundMoney (foldl (+) (Fin 0) (map h (filter taxed ls))) = rupees (sum_list (map f ls))" .
  have "0 \<le> sum_list (map f ls)" using assms(1) by (intro sum_list_nonneg) auto
  with assms(2) show "\<bar>sum_list (map f ls)\<bar> \<le> 2 ^ 36" by simp
qed

text \<open>
  C8: on up to 4096 lines with paise amounts (at most \<open>2 ^ 36\<close> paise in all) the recomputed
  subtotal is exactly the sum of the line amounts; where some line carries tax, each tax head is
  exactly the sum of its lines and the tax is the sum of the heads; the total is subtotal plus tax
  minus discount, to the paisa.
\<close>

theorem invoice_totals_exact:
  assumes "LineItems a \<noteq> []" and "paise_lines n c g i (LineItems a)"
    and "Tax a = rupees x" and "\<bar>x\<bar> \<le> 2 ^ 36" and "Discount a = rupees d" and "\<bar>d\<bar> \<le> 2 ^ 36"
  shows "let ls = LineItems a; a' = RecomputeTotals a;
             heads = sum_list (map c ls) + sum_list (map g ls) + sum_list (map i ls);
             tax = (if \<exists>li \<in> set ls. taxed li then heads else x)
         in Subtotal a' = rupees (sum_list (map n ls))
          \<and> Tax a' = rupees tax
          \<and> ((\<exists>li \<in> set ls. taxed li) \<longrightarrow> Cgst a' = rupees (sum_list (map c ls))
              \<and> Sgst a' = rupees (sum_list (map g ls)) \<and> Igst a' = rupees (sum_list (map i ls)))
          \<and> Total a' = rupees (sum_list (map n ls) + tax - d)"
proof -
  let ?ls = "LineItems a"
  note p = assms(2) [unfolded paise_lines_def]
  have nn: "0 \<le> sum_list (map c ?ls)" "0 \<le> sum_list (map g ?ls)" "0 \<le> sum_list (map i ?ls)"
    using p by (auto intro!: sum_list_nonneg)
  have sub: "RoundMoney (foldl (+) (Fin 0) (map li_Amount ?ls)) = rupees (sum_list (map n ?ls))"
    by (rule round_sum) (use p in auto)
  have subb: "\<bar>sum_list (map n ?ls)\<bar> \<le> 2 ^ 37"
    using sum_list_abs [of "map n ?ls"] p by (simp add: comp_def)
  have tc: "RoundMoney (foldl (+) (Fin 0) (map CgstAmount (filter taxed ?ls))) = rupees (sum_list (map c ?ls))"
      "\<bar>sum_list (map c ?ls)\<bar> \<le> 2 ^ 36"
    using round_tax [of ?ls CgstAmount c] p nn by (auto simp: taxed_def)
  have tg: "RoundMoney (foldl (+) (Fin 0) (map SgstAmount (filter taxed ?ls))) = rupees (sum_list (map g ?ls))"
      "\<bar>sum_list (map g ?ls)\<bar> \<le> 2 ^ 36"
    using round_tax [of ?ls SgstAmount g] p nn by (auto simp: taxed_def)
  have ti: "RoundMoney (foldl (+) (Fin 0) (map IgstAmount (filter taxed ?ls))) = rupees (sum_list (map i ?ls))"
      "\<bar>sum_list (map i ?ls)\<bar> \<le> 2 ^ 36"
    using round_tax [of ?ls IgstAmount i] p nn by (auto simp: taxed_def)
  let ?h = "sum_list (map c ?ls) + sum_list (map g ?ls) + sum_list (map i ?ls)"
  have th: "RoundMoney (rupees (sum_list (map c ?ls)) + rupees (sum_list (map g ?ls))
      + rupees (sum_list (map i ?ls))) = rupees ?h"
    by (rule round_three) (use tc tg ti in simp_all)
  have hb: "\<bar>?h\<bar> \<le> 2 ^ 37" using p nn by simp
  note tot = round_three(2) [OF subb _ order_trans [OF assms(6)]]
  show ?thesis
    using assms(1) tot [OF hb] tot [of x] assms(4)
    by (auto simp: Let_def RecomputeTotals_def foldl_add_line no_totals_def sub tc(1) tg(1) ti(1) th
        assms(3,5))
qed

definition demo_line :: "float64 \<Rightarrow> float64 \<Rightarrow> LineItem" where
  "demo_line x t = \<lparr>li_ID = '''', li_TenantID = ''1'', li_InvoiceID = ''i1'', li_TripID = None,
     LineType = ''freight'', HSNSACCode = None, Description = '''', Unit = None, Quantity = Fin 1,
     UnitPrice = x, Rate = Fin 0, TaxableValue = x, CgstRate = Fin 0, SgstRate = Fin 0,
     IgstRate = Fin 0, CgstAmount = t, SgstAmount = Fin 0, IgstAmount = Fin 0, li_Amount = x,
     li_Total = x, RefID = None\<rparr>"

theorem invoice_totals_exact_witness:
  "Total (RecomputeTotals (demo_invoice\<lparr>LineItems := [demo_line (rupees 10) (rupees 1),
      demo_line (rupees 20) (rupees 0)]\<rparr>)) = rupees 31"
proof -
  let ?a = "demo_invoice\<lparr>LineItems := [demo_line (rupees 10) (rupees 1), demo_line (rupees 20) (rupees 0)]\<rparr>"
  let ?n = "\<lambda>li. if li_Amount li = rupees 10 then 10 else 20 :: int"
  let ?c = "\<lambda>li. if li_Amount li = rupees 10 then 1 else 0 :: int"
  have ne: "rupees 20 \<noteq> rupees 10" by (simp add: rupees_eq_iff)
  have pos: "Fin 0 < rupees 1" using rupees_less(1) [of 0 1] by simp
  have "paise_lines ?n ?c (\<lambda>_. 0) (\<lambda>_. 0) (LineItems ?a)"
    using ne by (simp add: paise_lines_def demo_line_def)
  then have "Total (RecomputeTotals ?a) = rupees (30 + 1 - 0)"
    using invoice_totals_exact [of ?a ?n ?c "\<lambda>_. 0" "\<lambda>_. 0" 0 0] ne pos
    by (simp add: Let_def demo_invoice_def NewInvoiceAggregate_def invoice_append_event_def
        demo_line_def taxed_def)
  then show ?thesis by simp
qed

section \<open>The life of an invoice\<close>

datatype invoice_cmd =
    CmdAddLineItem LineItem
  | CmdRecomputeTotals
  | CmdUpdatePaymentStatus PaymentStatus gotime
  | CmdApplyPayment float64 gotime
  | CmdMarkIssued gotime gotime
  | CmdVoid gotime

fun invoice_exec :: "invoice_cmd \<Rightarrow> InvoiceAggregate \<Rightarrow> invoice_result" where
  "invoice_exec (CmdAddLineItem li) a = (AddLineItem li a, None)"
| "invoice_exec CmdRecomputeTotals a = (RecomputeTotals a, None)"
| "invoice_exec (CmdUpdatePaymentStatus s n) a = UpdatePaymentStatus s n a"
| "invoice_exec (CmdApplyPayment x n) a = ApplyPayment x n a"
| "invoice_exec (CmdMarkIssued d n) a = MarkIssued d n a"
| "invoice_exec (CmdVoid n) a = Void n a"

inductive invoice_edge :: "InvoiceStatus \<Rightarrow> InvoiceEvent \<Rightarrow> InvoiceStatus \<Rightarrow> bool" where
  "invoice_edge st (InvoicePaymentUpdatedEvent i m p n) st"
| "st \<noteq> InvoiceStatusCancelled \<Longrightarrow>
   invoice_edge st (InvoicePaymentAppliedEvent i m x y PaymentStatusPaid n) InvoiceStatusPaid"
| "p \<noteq> PaymentStatusPaid \<Longrightarrow>
   invoice_edge InvoiceStatusPaid (InvoicePaymentAppliedEvent i m x y p n) InvoiceStatusOutstanding"
| "st \<notin> {InvoiceStatusCancelled, InvoiceStatusPaid} \<Longrightarrow> p \<noteq> PaymentStatusPaid \<Longrightarrow>
   invoice_edge st (InvoicePaymentAppliedEvent i m x y p n) st"
| "invoice_edge InvoiceStatusDraft (InvoiceIssuedEvent i m d n) InvoiceStatusIssued"
| "st \<notin> {InvoiceStatusPaid, InvoiceStatusCancelled} \<Longrightarrow>
   invoice_edge st (InvoiceVoidedEvent i m n) InvoiceStatusCancelled"

inductive_cases invoice_edge_cancelledE: "invoice_edge InvoiceStatusCancelled e st"

lemma RecomputeTotals_frame [simp]:
  "invoice_events (RecomputeTotals a) = invoice_events a"
  "invoice_Status (RecomputeTotals a) = invoice_Status a"
  "PaidAmount (RecomputeTotals a) = PaidAmount a"
  by (simp_all add: RecomputeTotals_def Let_def)

lemma settle_frame [simp]:
  "invoice_events (settle p a) = invoice_events a"
  "PaidAmount (settle p a) = PaidAmount a"
  by (simp_all add: settle_def Let_def)

lemma settle_status:
  "PaymentStatus (settle p a) = PaymentStatusPaid \<and> invoice_Status (settle p a) = InvoiceStatusPaid
   \<or> PaymentStatus (settle p a) \<noteq> PaymentStatusPaid \<and> invoice_Status (settle p a) =
       (if invoice_Status a = InvoiceStatusPaid then InvoiceStatusOutstanding else invoice_Status a)"
  by (auto simp: settle_def Let_def)

lemma ApplyPayment_moves:
  "moves_along invoice_edge (invoice_events a) (invoice_Status a)
     (invoice_events (fst (ApplyPayment x n a))) (invoice_Status (fst (ApplyPayment x n a)))"
proof (cases "invoice_Status a = InvoiceStatusCancelled")
  case True
  then show ?thesis by (simp add: ApplyPayment_def moves_along_def)
next
  case False
  define m where "m = Money_Add (FloatToMoney (PaidAmount a) invoiceCurrency) (FloatToMoney x invoiceCurrency)"
  obtain m' where m': "m = Inr m'" by (simp add: m_def Money_Add_def)
  define k where "k = (if sint (Amount m') < 0 then m'\<lparr>Amount := 0\<rparr> else m')"
  let ?s = "settle (Amount k) (a\<lparr>PaidAmount := MoneyToFloat k\<rparr>)"
  have "fst (ApplyPayment x n a) = invoice_append_event
      (InvoicePaymentAppliedEvent (invoice_ID a) (invoice_TenantID a) x (PaidAmount ?s)
         (PaymentStatus ?s) n) (?s\<lparr>invoice_UpdatedAt := n\<rparr>)"
    using False m' by (simp add: ApplyPayment_def Let_def m_def [symmetric] k_def [symmetric])
  then show ?thesis
    using settle_status [of "Amount k" "a\<lparr>PaidAmount := MoneyToFloat k\<rparr>"] False
    by (auto simp: moves_along_def invoice_append_event_def intro: invoice_edge.intros)
qed

lemma invoice_exec_moves:
  "moves_along invoice_edge (invoice_events a) (invoice_Status a)
     (invoice_events (fst (invoice_exec c a))) (invoice_Status (fst (invoice_exec c a)))"
proof (cases c)
  case (CmdApplyPayment x n)
  then show ?thesis by (simp add: ApplyPayment_moves)
qed (auto simp: moves_along_def AddLineItem_def UpdatePaymentStatus_def MarkIssued_def Void_def
    invoice_append_event_def intro: invoice_edge.intros)

lemma invoice_exec_fail: "snd (invoice_exec c a) = Some e \<Longrightarrow> fst (invoice_exec c a) = a"
  by (cases c) (auto simp: UpdatePaymentStatus_def MarkIssued_def Void_def ApplyPayment_def Let_def
      Money_Add_def split: if_splits)

interpretation invoice: lifecycle_aggregate invoice_exec invoice_events "\<lambda>_. True" invoice_Status invoice_edge
proof unfold_locales
  fix c a a' e
  show "invoice_exec c a = (a', Some e) \<Longrightarrow> invoice_events a' = invoice_events a"
    using invoice_exec_fail [of c a e] by simp
  show "invoice_exec c a = (a', None) \<Longrightarrow> \<exists>new. invoice_events a' = invoice_events a @ new"
    using invoice_exec_moves [of a c] by (auto simp: moves_along_def)
  show "moves_along invoice_edge (invoice_events a) (invoice_Status a)
      (invoice_events (fst (invoice_exec c a))) (invoice_Status (fst (invoice_exec c a)))"
    by (rule invoice_exec_moves)
qed simp

text \<open>
  The log of an invoice, after any sequence of method calls on a new one, is a path of the
  invoice life cycle from outstanding to the current status: paid invoices are never voided,
  only drafts are issued, a payment event with status paid always leads to paid.
\<close>

theorem invoice_run_lifecycle:
  "\<exists>es. invoice_events (invoice.run cs (NewInvoiceAggregate i m k b c t s x d z p n))
         = InvoiceGeneratedEvent i m k z n # es
      \<and> edge_path invoice_edge InvoiceStatusOutstanding es
          (invoice_Status (invoice.run cs (NewInvoiceAggregate i m k b c t s x d z p n)))"
  using invoice.run_path [of "NewInvoiceAggregate i m k b c t s x d z p n"
      "[InvoiceGeneratedEvent i m k z n]" "[]" InvoiceStatusOutstanding cs]
  by (auto simp: NewInvoiceAggregate_def invoice_append_event_def intro: path_nil)

text \<open>
  A cancelled invoice stays cancelled and takes no money: whatever is called on it, its
  status and its paid amount do not change.
\<close>

theorem invoice_cancelled_final:
  assumes "invoice_Status a = InvoiceStatusCancelled"
  shows "invoice_Status (invoice.run cs a) = InvoiceStatusCancelled
     \<and> PaidAmount (invoice.run cs a) = PaidAmount a"
proof (rule invoice.run_stable [where
    P = "\<lambda>b. invoice_Status b = InvoiceStatusCancelled \<and> PaidAmount b = PaidAmount a"])
  fix c and b :: InvoiceAggregate
  assume "invoice_Status b = InvoiceStatusCancelled \<and> PaidAmount b = PaidAmount a"
  then show "invoice_Status (fst (invoice_exec c b)) = InvoiceStatusCancelled
     \<and> PaidAmount (fst (invoice_exec c b)) = PaidAmount a"
    by (cases c) (auto simp: AddLineItem_def UpdatePaymentStatus_def MarkIssued_def Void_def
        ApplyPayment_def invoice_append_event_def)
qed (use assms in simp)

theorem invoice_cancelled_final_witness:
  "PaidAmount (invoice.run [CmdApplyPayment (rupees 10) 5] (fst (Void 3 demo_invoice)))
     = PaidAmount (fst (Void 3 demo_invoice))"
  using invoice_cancelled_final [of "fst (Void 3 demo_invoice)" "[CmdApplyPayment (rupees 10) 5]"]
  by (simp add: Void_def demo_invoice_def NewInvoiceAggregate_def invoice_append_event_def)

text \<open>
  The two workflows agree on which payment statuses can be paid: the payment workflow's
  check on the status string is the invoice workflow's \<open>CanPay\<close>, for every status whose string is
  not one of the two by accident.
\<close>

theorem can_pay_agree:
  assumes "\<forall>s. status \<noteq> OtherPaymentStatus s"
  shows "CanProcessPayment (payment_status_string status) \<longleftrightarrow> CanPay status"
  using assms by (cases status) (simp_all add: CanProcessPayment_def CanPay_def)

theorem can_pay_agree_witness: "CanProcessPayment (payment_status_string PaymentStatusPartiallyPaid)"
  using can_pay_agree [of PaymentStatusPartiallyPaid] by (simp add: CanPay_def)

end
