(* ===== verification/Driver.thy ===== *)
theory Driver
  imports Prelude
begin

text \<open>
  The driver aggregate (\<open>internal/driver/domain/aggregate/driver_aggregate.go\<close>): its data,
  constructor and update, and its invariant under runs of updates.
\<close>

datatype DriverEvent =
    DriverCreatedEvent gostring gostring gostring gostring gostring gotime
  | DriverUpdatedEvent gostring gostring gostring gotime

record DriverAggregate =
  driver_ID :: gostring
  driver_TenantID :: gostring
  DriverDisplayID :: gostring
  FirstName :: gostring
  LastName :: gostring
  Phone :: gostring
  Email :: "gostring option"
  Address :: "gostring option"
  LicenseNumber :: gostring
  LicenseExpiry :: gotime
  ExperienceYears :: int64
  driver_Status :: gostring
  EmergencyContactName :: "gostring option"
  EmergencyContactPhone :: "gostring option"
  driver_Notes :: "gostring option"
  driver_CreatedAt :: gotime
  driver_UpdatedAt :: gotime
  driver_Version :: int64
  driver_events :: "DriverEvent list"

datatype driver_error = NamesRequired | PhoneRequired

definition NewDriverAggregate ::
  "gostring \<Rightarrow> gostring \<Rightarrow> gostring \<Rightarrow> gostring \<Rightarrow> gostring \<Rightarrow> gostring \<Rightarrow> gostring option
    \<Rightarrow> gostring option \<Rightarrow> gostring \<Rightarrow> gotime \<Rightarrow> int64 \<Rightarrow> gostring \<Rightarrow> gostring option
    \<Rightarrow> gostring option \<Rightarrow> gostring option \<Rightarrow> gotime \<Rightarrow> DriverAggregate" where
  "NewDriverAggregate did tenantID driverDisplayID firstName lastName phone email address
       licenseNumber licenseExpiry experienceYears status emergencyContactName
       emergencyContactPhone notes now =
     \<lparr>driver_ID = did, driver_TenantID = tenantID, DriverDisplayID = driverDisplayID,
      FirstName = firstName, LastName = lastName, Phone = phone, Email = email, Address = address,
      LicenseNumber = licenseNumber, LicenseExpiry = licenseExpiry,
      ExperienceYears = experienceYears, driver_Status = status,
      EmergencyContactName = emergencyContactName, EmergencyContactPhone = emergencyContactPhone,
      driver_Notes = notes, driver_CreatedAt = now, driver_UpdatedAt = now, driver_Version = 0,
      driver_events = [DriverCreatedEvent did tenantID driverDisplayID phone licenseNumber now]\<rparr>"

definition driver_Events :: "DriverAggregate \<Rightarrow> DriverEvent list" where
  "driver_Events a = driver_events a"

definition driver_ClearEvents :: "DriverAggregate \<Rightarrow> DriverAggregate" where
  "driver_ClearEvents a = a\<lparr>driver_events := []\<rparr>"

definition driver_UpdateDetails ::
  "gostring \<Rightarrow> gostring \<Rightarrow> gostring \<Rightarrow> gostring option \<Rightarrow> gostring option \<Rightarrow> gostring \<Rightarrow> gotime
    \<Rightarrow> int64 \<Rightarrow> gostring \<Rightarrow> gostring option \<Rightarrow> gostring option \<Rightarrow> gostring option \<Rightarrow> gotime
    \<Rightarrow> DriverAggregate \<Rightarrow> DriverAggregate \<times> driver_error option" where
  "driver_UpdateDetails firstName lastName phone email address licenseNumber licenseExpiry
       experienceYears status emergencyContactName emergencyContactPhone notes now a =
     (if firstName = '''' \<or> lastName = '''' then (a, Some NamesRequired)
      else if phone = '''' then (a, Some PhoneRequired)
      else (a\<lparr>FirstName := firstName, LastName := lastName, Phone := phone, Email := email,
              Address := address, LicenseNumber := licenseNumber, LicenseExpiry := licenseExpiry,
              ExperienceYears := experienceYears, driver_Status := status,
              EmergencyContactName := emergencyContactName,
              EmergencyContactPhone := emergencyContactPhone, driver_Notes := notes,
              driver_UpdatedAt := now,
              driver_events := driver_events a
                @ [DriverUpdatedEvent (driver_ID a) (driver_TenantID a) status now]\<rparr>, None))"

datatype driver_cmd =
    CmdDriverDetails gostring gostring gostring "gostring option" "gostring option" gostring gotime
      int64 gostring "gostring option" "gostring option" "gostring option" gotime

fun driver_exec :: "driver_cmd \<Rightarrow> DriverAggregate \<Rightarrow> DriverAggregate \<times> driver_error option" where
  "driver_exec (CmdDriverDetails f l p e ad lno le x s cn cp nt n) a =
     driver_UpdateDetails f l p e ad lno le x s cn cp nt n a"

text \<open>A driver that can be called: names and phone are there.\<close>

definition contactable :: "DriverAggregate \<Rightarrow> bool" where
  "contactable a \<longleftrightarrow> FirstName a \<noteq> '''' \<and> LastName a \<noteq> '''' \<and> Phone a \<noteq> ''''"

interpretation driver: aggregate driver_exec driver_events contactable
proof unfold_locales
  fix c a a' e
  show "driver_exec c a = (a', Some e) \<Longrightarrow> driver_events a' = driver_events a"
    by (cases c) (auto simp: driver_UpdateDetails_def split: if_splits)
  show "driver_exec c a = (a', None) \<Longrightarrow> \<exists>new. driver_events a' = driver_events a @ new"
    by (cases c) (auto simp: driver_UpdateDetails_def split: if_splits)
  show "contactable a \<Longrightarrow> contactable (fst (driver_exec c a))"
    by (cases c) (auto simp: driver_UpdateDetails_def contactable_def)
qed

text \<open>The identity of a driver never changes.\<close>

lemma driver_identity_kept:
  "driver_ID (driver.run cs a) = driver_ID a \<and> driver_TenantID (driver.run cs a) = driver_TenantID a"
proof (rule driver.run_stable [where P = "\<lambda>b. driver_ID b = driver_ID a \<and> driver_TenantID b = driver_TenantID a"])
  fix c and b :: DriverAggregate
  assume "driver_ID b = driver_ID a \<and> driver_TenantID b = driver_TenantID a"
  then show "driver_ID (fst (driver_exec c b)) = driver_ID a
     \<and> driver_TenantID (fst (driver_exec c b)) = driver_TenantID a"
    by (cases c) (auto simp: driver_UpdateDetails_def)
qed simp

end
