(* ===== verification/Vehicle.thy ===== *)
theory Vehicle
  imports Prelude GoFloat
begin

text \<open>
  The vehicle aggregate (\<open>internal/vehicle/domain/aggregate/vehicle_aggregate.go\<close>): fuel types,
  the fleet-object profile with its defaults and validation, every method of the aggregate as a
  state transformer that returns the error, and the dispatch guard \<open>CanAssign\<close>; beside it the
  guard of the older entity (\<open>internal/domain/vehicle/entity.go\<close>) that it mirrors. The clock is an
  argument wherever the code reads it.
\<close>

section \<open>Data\<close>

abbreviation FuelTypeDiesel :: gostring where "FuelTypeDiesel \<equiv> ''diesel''"
abbreviation VehicleAvailable :: gostring where "VehicleAvailable \<equiv> ''available''"
abbreviation VehicleBlocked :: gostring where "VehicleBlocked \<equiv> ''blocked''"

definition NormalizeFuelType :: "gostring \<Rightarrow> gostring" where
  "NormalizeFuelType f = (if f = '''' then FuelTypeDiesel else f)"

definition ValidFuelType :: "gostring \<Rightarrow> bool" where
  "ValidFuelType f \<longleftrightarrow>
     NormalizeFuelType f \<in> {FuelTypeDiesel, ''petrol'', ''gas'', ''electric'', ''cng''}"

record VehicleProfile =
  FleetClass :: gostring
  Ownership :: gostring
  FleetNumber :: gostring
  Description :: gostring
  Manufacturer :: gostring
  ManufCountry :: gostring
  Model :: gostring
  ConstrYearMonth :: gostring
  AcquisitionValue :: "float64 option"
  AcquisitionCurrency :: gostring
  AcquisitionDate :: "gotime option"
  PurchaseVendor :: gostring
  ValidFrom :: "gotime option"
  ValidTo :: "gotime option"
  FacilityID :: gostring
  MaintPlant :: gostring
  PlanningPlant :: gostring
  CompanyCode :: gostring
  BusinessArea :: gostring
  CostCenter :: gostring
  AssetNo :: gostring
  FleetObjectNo :: gostring
  ChassisNo :: gostring
  VehicleCategory :: gostring
  EngineNumber :: gostring
  EnginePower :: gostring
  EngineCapacity :: gostring
  CylinderCount :: "int64 option"
  MaxSpeed :: "float64 option"
  Weight :: "float64 option"
  WeightUnit :: gostring
  LoadVolume :: "float64 option"
  VolumeUnit :: gostring
  SecondaryFuel :: gostring
  UsageIndicator :: gostring

text \<open>The zero value of the struct, which \<open>NewVehicleAggregate\<close> leaves in place.\<close>

definition zero_profile :: VehicleProfile where
  "zero_profile = \<lparr>FleetClass = '''', Ownership = '''', FleetNumber = '''', Description = '''',
     Manufacturer = '''', ManufCountry = '''', Model = '''', ConstrYearMonth = '''',
     AcquisitionValue = None, AcquisitionCurrency = '''', AcquisitionDate = None,
     PurchaseVendor = '''', ValidFrom = None, ValidTo = None, FacilityID = '''',
     MaintPlant = '''', PlanningPlant = '''', CompanyCode = '''', BusinessArea = '''',
     CostCenter = '''', AssetNo = '''', FleetObjectNo = '''', ChassisNo = '''',
     VehicleCategory = '''', EngineNumber = '''', EnginePower = '''', EngineCapacity = '''',
     CylinderCount = None, MaxSpeed = None, Weight = None, WeightUnit = '''',
     LoadVolume = None, VolumeUnit = '''', SecondaryFuel = '''', UsageIndicator = ''''\<rparr>"

datatype vehicle_error =
    InvalidFleetClass | InvalidOwnership | InvalidWeightUnit
  | RegistrationRequired | KmplMustBePositive
  | DispatchBlocked gostring | RCExpired | PermitExpired | FitnessExpired | InsuranceExpired | PUCExpired
  | VehicleNotAvailable gostring

definition Normalized :: "VehicleProfile \<Rightarrow> VehicleProfile" where
  "Normalized p0 =
     (let p1 = (if FleetClass p0 = '''' then p0\<lparr>FleetClass := ''CV''\<rparr> else p0);
          p2 = (if Ownership p1 = '''' then p1\<lparr>Ownership := ''O''\<rparr> else p1);
          p3 = (if AcquisitionCurrency p2 = '''' then p2\<lparr>AcquisitionCurrency := ''INR''\<rparr> else p2)
      in if WeightUnit p3 = '''' then p3\<lparr>WeightUnit := ''TO''\<rparr> else p3)"

definition normalizeProfile :: "VehicleProfile \<Rightarrow> VehicleProfile" where
  "normalizeProfile p = Normalized p"

definition ValidateProfile :: "VehicleProfile \<Rightarrow> vehicle_error option" where
  "ValidateProfile p =
     (if FleetClass (normalizeProfile p) \<notin> {''CV'', ''PV'', ''FS'', ''OFS''} then Some InvalidFleetClass
      else if Ownership (normalizeProfile p) \<notin> {''O'', ''C'', ''F'', ''M''} then Some InvalidOwnership
      else if WeightUnit (normalizeProfile p) \<notin> {''TO'', ''KG''} then Some InvalidWeightUnit
      else None)"

datatype VehicleEvent =
    VehicleCreatedEvent gostring gostring gostring gostring gotime
  | VehicleUpdatedEvent gostring gostring gostring gostring gotime
  | VehicleDeletedEvent gostring gostring gostring gotime

record VehicleAggregate =
  vehicle_ID :: gostring
  vehicle_TenantID :: gostring
  RegistrationNumber :: gostring
  VehicleNumber :: gostring
  VehicleType :: gostring
  Capacity :: int64
  FuelType :: gostring
  InsuranceExpiry :: gotime
  FitnessExpiry :: gotime
  PermitExpiry :: gotime
  vehicle_Status :: gostring
  CurrentMileage :: "float64 option"
  StandardKmpl :: "float64 option"
  Blocked :: bool
  BlockedReason :: gostring
  RCExpiry :: "gotime option"
  PUCExpiry :: "gotime option"
  Odometer :: float64
  Profile :: VehicleProfile
  vehicle_CreatedAt :: gotime
  vehicle_UpdatedAt :: gotime
  vehicle_Version :: int64
  vehicle_events :: "VehicleEvent list"

type_synonym vehicle_result = "VehicleAggregate \<times> vehicle_error option"

section \<open>Methods\<close>

definition vehicle_append_event :: "VehicleEvent \<Rightarrow> VehicleAggregate \<Rightarrow> VehicleAggregate" where
  "vehicle_append_event e a = a\<lparr>vehicle_events := vehicle_events a @ [e]\<rparr>"

definition NewVehicleAggregate ::
  "gostring \<Rightarrow> gostring \<Rightarrow> gostring \<Rightarrow> gostring \<Rightarrow> gostring \<Rightarrow> int64 \<Rightarrow> gostring \<Rightarrow> gotime
    \<Rightarrow> gotime \<Rightarrow> gotime \<Rightarrow> gostring \<Rightarrow> float64 option \<Rightarrow> gotime \<Rightarrow> VehicleAggregate" where
  "NewVehicleAggregate vid tenantID registrationNumber vehicleNumber vehicleType capacity fuelType
       insuranceExpiry fitnessExpiry permitExpiry status currentMileage now =
     vehicle_append_event (VehicleCreatedEvent vid tenantID registrationNumber vehicleNumber now)
       \<lparr>vehicle_ID = vid, vehicle_TenantID = tenantID, RegistrationNumber = registrationNumber,
        VehicleNumber = vehicleNumber, VehicleType = vehicleType, Capacity = capacity,
        FuelType = fuelType, InsuranceExpiry = insuranceExpiry, FitnessExpiry = fitnessExpiry,
        PermitExpiry = permitExpiry, vehicle_Status = status, CurrentMileage = currentMileage,
        StandardKmpl = None, Blocked = False, BlockedReason = '''', RCExpiry = None,
        PUCExpiry = None, Odometer = Fin 0, Profile = zero_profile, vehicle_CreatedAt = now,
        vehicle_UpdatedAt = now, vehicle_Version = 0, vehicle_events = []\<rparr>"

definition vehicle_Events :: "VehicleAggregate \<Rightarrow> VehicleEvent list" where
  "vehicle_Events a = vehicle_events a"

definition vehicle_ClearEvents :: "VehicleAggregate \<Rightarrow> VehicleAggregate" where
  "vehicle_ClearEvents a = a\<lparr>vehicle_events := []\<rparr>"

definition vehicle_UpdateDetails ::
  "gostring \<Rightarrow> gostring \<Rightarrow> gostring \<Rightarrow> int64 \<Rightarrow> gostring \<Rightarrow> gotime \<Rightarrow> gotime \<Rightarrow> gotime
    \<Rightarrow> gostring \<Rightarrow> float64 option \<Rightarrow> gotime \<Rightarrow> VehicleAggregate \<Rightarrow> vehicle_result" where
  "vehicle_UpdateDetails registrationNumber vehicleNumber vehicleType capacity fuelType
       insuranceExpiry fitnessExpiry permitExpiry status currentMileage now a =
     (if registrationNumber = '''' \<or> vehicleNumber = '''' then (a, Some RegistrationRequired)
      else (vehicle_append_event
              (VehicleUpdatedEvent (vehicle_ID a) (vehicle_TenantID a) status registrationNumber now)
              (a\<lparr>RegistrationNumber := registrationNumber, VehicleNumber := vehicleNumber,
                 VehicleType := vehicleType, Capacity := capacity, FuelType := fuelType,
                 InsuranceExpiry := insuranceExpiry, FitnessExpiry := fitnessExpiry,
                 PermitExpiry := permitExpiry, vehicle_Status := status,
                 CurrentMileage := currentMileage, vehicle_UpdatedAt := now\<rparr>), None))"

definition SetStandardKmpl :: "float64 option \<Rightarrow> gotime \<Rightarrow> VehicleAggregate \<Rightarrow> vehicle_result" where
  "SetStandardKmpl kmpl now a =
     (if (case kmpl of None \<Rightarrow> False | Some k \<Rightarrow> k \<le> Fin 0) then (a, Some KmplMustBePositive)
      else (a\<lparr>StandardKmpl := kmpl, vehicle_UpdatedAt := now\<rparr>, None))"

definition ApplyProfile :: "VehicleProfile \<Rightarrow> gotime \<Rightarrow> VehicleAggregate \<Rightarrow> vehicle_result" where
  "ApplyProfile p now a =
     (case ValidateProfile p of
        Some e \<Rightarrow> (a, Some e)
      | None \<Rightarrow> (a\<lparr>Profile := normalizeProfile p, vehicle_UpdatedAt := now\<rparr>, None))"

definition ApplyCompliance ::
  "bool \<Rightarrow> gostring \<Rightarrow> gotime option \<Rightarrow> gotime option \<Rightarrow> float64 \<Rightarrow> gotime
    \<Rightarrow> VehicleAggregate \<Rightarrow> VehicleAggregate" where
  "ApplyCompliance blocked blockedReason rcExpiry pucExpiry odometer now a =
     a\<lparr>Blocked := blocked, BlockedReason := blockedReason, RCExpiry := rcExpiry,
       PUCExpiry := pucExpiry, Odometer := odometer, vehicle_UpdatedAt := now\<rparr>"

definition RecordDeletion :: "gotime \<Rightarrow> VehicleAggregate \<Rightarrow> VehicleAggregate" where
  "RecordDeletion now a =
     vehicle_append_event
       (VehicleDeletedEvent (vehicle_ID a) (vehicle_TenantID a) (RegistrationNumber a) now) a"

text \<open>A pointer to an expiry that is set, not zero and in the past.\<close>

fun ptr_expired :: "gotime option \<Rightarrow> gotime \<Rightarrow> bool" where
  "ptr_expired None now \<longleftrightarrow> False"
| "ptr_expired (Some t) now \<longleftrightarrow> \<not> IsZero t \<and> Before t now"

definition vehicle_CanAssign :: "gotime \<Rightarrow> VehicleAggregate \<Rightarrow> vehicle_error option" where
  "vehicle_CanAssign now a =
     (if Blocked a \<or> vehicle_Status a = VehicleBlocked then
        Some (DispatchBlocked (if BlockedReason a \<noteq> '''' then BlockedReason a
                               else ''vehicle is compliance blocked''))
      else if ptr_expired (RCExpiry a) now then Some RCExpired
      else if \<not> IsZero (FitnessExpiry a) \<and> Before (FitnessExpiry a) now then Some FitnessExpired
      else if \<not> IsZero (InsuranceExpiry a) \<and> Before (InsuranceExpiry a) now then Some InsuranceExpired
      else if ptr_expired (PUCExpiry a) now then Some PUCExpired
      else if vehicle_Status a \<noteq> VehicleAvailable then Some (VehicleNotAvailable (vehicle_Status a))
      else None)"

section \<open>The older entity\<close>

record LegacyVehicle =
  lv_ID :: gostring
  lv_RegistrationNumber :: gostring
  lv_VehicleNumber :: gostring
  lv_VehicleType :: gostring
  lv_Capacity :: int64
  lv_FuelType :: gostring
  lv_InsuranceExpiry :: gotime
  lv_FitnessExpiry :: gotime
  lv_PermitExpiry :: gotime
  lv_RCExpiry :: gotime
  lv_PUCExpiry :: "gotime option"
  lv_Status :: gostring
  lv_Blocked :: bool
  lv_BlockedReason :: "gostring option"
  lv_Odometer :: float64
  lv_CurrentMileage :: "float64 option"
  lv_StandardKmpl :: "float64 option"
  lv_CreatedAt :: gotime
  lv_UpdatedAt :: gotime

text \<open>Its error for an expired RC reads ``vehicle permit expired''.\<close>

definition legacy_CanAssign :: "gotime \<Rightarrow> LegacyVehicle \<Rightarrow> vehicle_error option" where
  "legacy_CanAssign now v =
     (if lv_Blocked v \<or> lv_Status v = VehicleBlocked then
        Some (DispatchBlocked
          (case lv_BlockedReason v of
             None \<Rightarrow> ''vehicle is compliance blocked''
           | Some r \<Rightarrow> (if r \<noteq> '''' then r else ''vehicle is compliance blocked'')))
      else if \<not> IsZero (lv_RCExpiry v) \<and> Before (lv_RCExpiry v) now then Some PermitExpired
      else if \<not> IsZero (lv_FitnessExpiry v) \<and> Before (lv_FitnessExpiry v) now then Some FitnessExpired
      else if \<not> IsZero (lv_InsuranceExpiry v) \<and> Before (lv_InsuranceExpiry v) now
        then Some InsuranceExpired
      else if ptr_expired (lv_PUCExpiry v) now then Some PUCExpired
      else if lv_Status v \<noteq> VehicleAvailable then Some (VehicleNotAvailable (lv_Status v))
      else None)"

section \<open>Commands, invariant and runs\<close>

datatype vehicle_cmd =
    CmdVehicleDetails gostring gostring gostring int64 gostring gotime gotime gotime gostring
      "float64 option" gotime
  | CmdKmpl "float64 option" gotime
  | CmdProfile VehicleProfile gotime
  | CmdCompliance bool gostring "gotime option" "gotime option" float64 gotime
  | CmdDelete gotime

fun vehicle_exec :: "vehicle_cmd \<Rightarrow> VehicleAggregate \<Rightarrow> vehicle_result" where
  "vehicle_exec (CmdVehicleDetails r v t c f i x p s m n) a = vehicle_UpdateDetails r v t c f i x p s m n a"
| "vehicle_exec (CmdKmpl k n) a = SetStandardKmpl k n a"
| "vehicle_exec (CmdProfile p n) a = ApplyProfile p n a"
| "vehicle_exec (CmdCompliance b r c u d n) a = (ApplyCompliance b r c u d n a, None)"
| "vehicle_exec (CmdDelete n) a = (RecordDeletion n a, None)"

lemmas vehicle_ops = vehicle_UpdateDetails_def SetStandardKmpl_def ApplyProfile_def
  ApplyCompliance_def RecordDeletion_def vehicle_append_event_def

text \<open>
  What the table's CHECK constraints ask of the classification columns, stated on the stored
  values: no normalisation left to do and every value in its list.
\<close>

definition storable_profile :: "VehicleProfile \<Rightarrow> bool" where
  "storable_profile p \<longleftrightarrow> FleetClass p \<in> {''CV'', ''PV'', ''FS'', ''OFS''}
     \<and> Ownership p \<in> {''O'', ''C'', ''F'', ''M''} \<and> WeightUnit p \<in> {''TO'', ''KG''}
     \<and> AcquisitionCurrency p \<noteq> ''''"

lemma Normalized_sel:
  "FleetClass (Normalized p) = (if FleetClass p = '''' then ''CV'' else FleetClass p)"
  "Ownership (Normalized p) = (if Ownership p = '''' then ''O'' else Ownership p)"
  "WeightUnit (Normalized p) = (if WeightUnit p = '''' then ''TO'' else WeightUnit p)"
  "AcquisitionCurrency (Normalized p) =
     (if AcquisitionCurrency p = '''' then ''INR'' else AcquisitionCurrency p)"
  by (simp_all add: Normalized_def Let_def)

lemma ValidateProfile_None:
  "ValidateProfile p = None \<longleftrightarrow>
     FleetClass (Normalized p) \<in> {''CV'', ''PV'', ''FS'', ''OFS''}
     \<and> Ownership (Normalized p) \<in> {''O'', ''C'', ''F'', ''M''}
     \<and> WeightUnit (Normalized p) \<in> {''TO'', ''KG''}"
  by (simp only: ValidateProfile_def normalizeProfile_def split: if_splits) blast

lemma storable_normalized:
  assumes "ValidateProfile p = None"
  shows "storable_profile (normalizeProfile p)"
proof -
  have "AcquisitionCurrency (Normalized p) \<noteq> ''''" by (simp add: Normalized_sel)
  then show ?thesis
    using assms unfolding storable_profile_def normalizeProfile_def ValidateProfile_None by blast
qed

definition vehicle_inv :: "VehicleAggregate \<Rightarrow> bool" where
  "vehicle_inv a \<longleftrightarrow> RegistrationNumber a \<noteq> '''' \<and> VehicleNumber a \<noteq> ''''
     \<and> (\<forall>k. StandardKmpl a = Some k \<longrightarrow> \<not> k \<le> Fin 0)
     \<and> (storable_profile (Profile a) \<or> Profile a = zero_profile)"

interpretation vehicle: aggregate vehicle_exec vehicle_events vehicle_inv
proof unfold_locales
  fix c a a' e
  show "vehicle_exec c a = (a', Some e) \<Longrightarrow> vehicle_events a' = vehicle_events a"
    by (cases c) (auto simp: vehicle_ops split: if_splits option.splits)
  show "vehicle_exec c a = (a', None) \<Longrightarrow> \<exists>new. vehicle_events a' = vehicle_events a @ new"
    by (cases c) (auto simp: vehicle_ops split: if_splits option.splits)
  show "vehicle_inv a \<Longrightarrow> vehicle_inv (fst (vehicle_exec c a))"
    by (cases c) (auto simp: vehicle_ops vehicle_inv_def storable_normalized split: option.splits)
qed

section \<open>Properties\<close>

text \<open>
  A vehicle registered with its numbers keeps, under every sequence of its methods, non-empty
  numbers, a norm consumption that is absent or not below zero, and a profile that is either
  untouched or satisfies the table's constraints on fleet class, ownership and weight unit.
\<close>

theorem vehicle_run_inv:
  assumes "r \<noteq> ''''" and "v \<noteq> ''''"
    and "a = vehicle.run cs (NewVehicleAggregate i m r v t c f x y z s k n)"
  shows "RegistrationNumber a \<noteq> '''' \<and> VehicleNumber a \<noteq> ''''
     \<and> (case StandardKmpl a of None \<Rightarrow> True | Some q \<Rightarrow> \<not> q \<le> Fin 0)
     \<and> (storable_profile (Profile a) \<or> Profile a = zero_profile)"
proof -
  have "vehicle_inv (NewVehicleAggregate i m r v t c f x y z s k n)"
    using assms(1,2) by (simp add: NewVehicleAggregate_def vehicle_inv_def vehicle_append_event_def)
  then have "vehicle_inv a" unfolding assms(3) by (rule vehicle.run_invar)
  then show ?thesis by (auto simp: vehicle_inv_def split: option.splits)
qed

definition demo_vehicle :: VehicleAggregate where
  "demo_vehicle = NewVehicleAggregate ''v1'' ''1'' ''MH12'' ''T-1'' ''truck'' 9000 ''diesel'' 90 80 70
     ''available'' None 10"

theorem vehicle_run_inv_witness:
  "WeightUnit (Profile (vehicle.run [CmdProfile zero_profile 11, CmdKmpl (Some (Fin 0)) 12] demo_vehicle))
     = ''TO'' \<and>
   RegistrationNumber (vehicle.run [CmdProfile zero_profile 11, CmdKmpl (Some (Fin 0)) 12] demo_vehicle) \<noteq> ''''"
  using vehicle_run_inv [OF _ _ refl, of "''MH12''" "''T-1''" "[CmdProfile zero_profile 11, CmdKmpl (Some (Fin 0)) 12]"
      "''v1''" "''1''" "''truck''" 9000 "''diesel''" 90 80 70 "''available''" None 10]
  by (simp add: demo_vehicle_def NewVehicleAggregate_def vehicle_ops ValidateProfile_def
      normalizeProfile_def Normalized_def zero_profile_def Let_def)

definition on_record_valid :: "gotime \<Rightarrow> gotime \<Rightarrow> bool" where
  "on_record_valid now t \<longleftrightarrow> t = 0 \<or> now \<le> t"

text \<open>
  C9: the dispatch guard accepts a vehicle exactly when it is available, not blocked, and each of
  RC, fitness, insurance and PUC is off record or still valid. The guard of the older entity accepts
  the same vehicles on the same data (an RC off record is its zero time, an empty reason a missing one)
  and refuses the others with the same reason, but for one: what the aggregate calls an expired RC, the
  older one calls an expired permit. The permit's own expiry plays no part in either.
\<close>

theorem can_assign_agrees:
  assumes "lv_Blocked v = Blocked a" and "lv_Status v = vehicle_Status a"
    and "lv_BlockedReason v = Some (BlockedReason a)
       \<or> lv_BlockedReason v = None \<and> BlockedReason a = ''''"
    and "lv_RCExpiry v = (case RCExpiry a of None \<Rightarrow> 0 | Some t \<Rightarrow> t)"
    and "lv_FitnessExpiry v = FitnessExpiry a" and "lv_InsuranceExpiry v = InsuranceExpiry a"
    and "lv_PUCExpiry v = PUCExpiry a"
  shows "legacy_CanAssign now v
       = (if vehicle_CanAssign now a = Some RCExpired then Some PermitExpired else vehicle_CanAssign now a)
     \<and> (vehicle_CanAssign now a = None \<longleftrightarrow>
          vehicle_Status a = ''available'' \<and> \<not> Blocked a
          \<and> on_record_valid now (lv_RCExpiry v) \<and> on_record_valid now (FitnessExpiry a)
          \<and> on_record_valid now (InsuranceExpiry a)
          \<and> on_record_valid now (case PUCExpiry a of None \<Rightarrow> 0 | Some t \<Rightarrow> t))"
proof
  have ptr: "ptr_expired p now \<longleftrightarrow> \<not> on_record_valid now (case p of None \<Rightarrow> 0 | Some t \<Rightarrow> t)" for p
    by (cases p) (auto simp: on_record_valid_def)
  have val: "(\<not> IsZero t \<and> Before t now) \<longleftrightarrow> \<not> on_record_valid now t" for t
    by (auto simp: on_record_valid_def)
  show "legacy_CanAssign now v
      = (if vehicle_CanAssign now a = Some RCExpired then Some PermitExpired else vehicle_CanAssign now a)"
    using assms(3)
    by (auto simp: legacy_CanAssign_def vehicle_CanAssign_def assms(1,2,4-7) ptr val simp del: not_less)
  show "vehicle_CanAssign now a = None \<longleftrightarrow>
          vehicle_Status a = ''available'' \<and> \<not> Blocked a
          \<and> on_record_valid now (lv_RCExpiry v) \<and> on_record_valid now (FitnessExpiry a)
          \<and> on_record_valid now (InsuranceExpiry a)
          \<and> on_record_valid now (case PUCExpiry a of None \<Rightarrow> 0 | Some t \<Rightarrow> t)"
    by (simp add: vehicle_CanAssign_def assms(4) ptr val)
qed

theorem can_assign_agrees_witness:
  "vehicle_CanAssign 50 (ApplyCompliance False '''' (Some 40) None 0 11 demo_vehicle) = Some RCExpired
   \<and> legacy_CanAssign 50 \<lparr>lv_ID = ''v1'', lv_RegistrationNumber = ''MH12'', lv_VehicleNumber = ''T-1'',
        lv_VehicleType = ''truck'', lv_Capacity = 9000, lv_FuelType = ''diesel'',
        lv_InsuranceExpiry = 90, lv_FitnessExpiry = 80, lv_PermitExpiry = 70, lv_RCExpiry = 40,
        lv_PUCExpiry = None, lv_Status = ''available'', lv_Blocked = False, lv_BlockedReason = None,
        lv_Odometer = 0, lv_CurrentMileage = None, lv_StandardKmpl = None, lv_CreatedAt = 10,
        lv_UpdatedAt = 11\<rparr> = Some PermitExpired"
proof -
  let ?a = "ApplyCompliance False '''' (Some 40) None 0 11 demo_vehicle"
  have d: "Blocked ?a = False" "BlockedReason ?a = ''''" "RCExpiry ?a = Some 40" "PUCExpiry ?a = None"
    "FitnessExpiry ?a = 80" "InsuranceExpiry ?a = 90" "vehicle_Status ?a = ''available''"
    by (simp_all add: ApplyCompliance_def demo_vehicle_def NewVehicleAggregate_def
        vehicle_append_event_def)
  have "vehicle_CanAssign 50 ?a = Some RCExpired" by (simp add: vehicle_CanAssign_def d)
  then show ?thesis
    using can_assign_agrees [where a = ?a and now = 50 and v = "\<lparr>lv_ID = ''v1'',
        lv_RegistrationNumber = ''MH12'', lv_VehicleNumber = ''T-1'',
        lv_VehicleType = ''truck'', lv_Capacity = 9000, lv_FuelType = ''diesel'',
        lv_InsuranceExpiry = 90, lv_FitnessExpiry = 80, lv_PermitExpiry = 70, lv_RCExpiry = 40,
        lv_PUCExpiry = None, lv_Status = ''available'', lv_Blocked = False, lv_BlockedReason = None,
        lv_Odometer = 0, lv_CurrentMileage = None, lv_StandardKmpl = None, lv_CreatedAt = 10,
        lv_UpdatedAt = 11\<rparr>"]
    by (simp add: d)
qed

end
