(* ===== verification/Eligibility.thy ===== *)
theory Eligibility
  imports Prelude "HOL-Library.Sublist"
begin

text \<open>
  The eligibility engine (\<open>internal/driver/domain/eligibility/eligibility.go\<close>): which blockers a
  driver has for dispatch and for settlement. The clock \<open>time.Now\<close> is an argument, read only when
  the context carries no evaluation time. The blockers are built section by section in the source's
  order, with its codes, severities, entities and messages.
\<close>

section \<open>Data\<close>

datatype BlockerCode =
    BlockerDriverSuspended | BlockerDriverNotOnDuty | BlockerIdentityPending
  | BlockerLicenseMissing | BlockerLicenseExpired | BlockerLicenseUnverified
  | BlockerLicenseClassMismatch | BlockerNoActiveAssignment | BlockerVehicleMissing
  | BlockerVehicleBlocked
  | BlockerRCMissing | BlockerRCUnverified | BlockerRCExpired
  | BlockerInsuranceMissing | BlockerInsuranceUnverified | BlockerInsuranceExpired
  | BlockerFitnessMissing | BlockerFitnessUnverified | BlockerFitnessExpired
  | BlockerPermitMissing | BlockerPermitUnverified | BlockerPermitExpired
  | BlockerPUCMissing | BlockerPUCUnverified | BlockerPUCExpired
  | BlockerBankMissing | BlockerBankUnverified | BlockerPayoutOnHold

record Blocker =
  Code :: BlockerCode
  Severity :: gostring
  Entity :: gostring
  Message :: gostring

record TenantPolicy =
  RequireIdentityForDispatch :: bool
  RequireVerifiedRCForDispatch :: bool
  AllowWarningForExpiredPUC :: bool
  AllowWarningForMissingPUC :: bool
  RequiredClassesByVehicleType :: "gostring \<rightharpoonup> gostring list"

record DriverData =
  dd_ID :: gostring
  dd_Status :: gostring
  IsSuspended :: bool
  IdentityVerified :: bool

record LicenseData =
  Number :: gostring
  lic_ExpiresOn :: gotime
  lic_VerificationStatus :: gostring
  Classes :: "gostring list"

record AssignmentData =
  as_ID :: gostring
  as_VehicleID :: gostring
  as_Status :: gostring

record VehicleData =
  vd_ID :: gostring
  Plate :: gostring
  vd_Type :: gostring
  IsBlocked :: bool

record ComplianceDocData =
  doc_Type :: gostring
  ExpiresOn :: gotime
  VerificationStatus :: gostring

record PayoutAccountData =
  pa_VerificationStatus :: gostring
  HoldPayouts :: bool

record EligibilityContext =
  EvaluationTime :: gotime
  Policy :: TenantPolicy
  ctx_Driver :: DriverData
  License :: "LicenseData option"
  Assignment :: "AssignmentData option"
  ctx_Vehicle :: "VehicleData option"
  ComplianceDocs :: "ComplianceDocData list"
  PayoutAccount :: "PayoutAccountData option"

record EligibilityResult =
  IsEligible :: bool
  EvaluatedAt :: gotime
  Blockers :: "Blocker list"

section \<open>Dispatch\<close>

definition block :: "BlockerCode \<Rightarrow> gostring \<Rightarrow> gostring \<Rightarrow> gostring \<Rightarrow> Blocker" where
  "block c sev ent msg = \<lparr>Code = c, Severity = sev, Entity = ent, Message = msg\<rparr>"

definition evaluation_now :: "gotime \<Rightarrow> EligibilityContext \<Rightarrow> gotime" where
  "evaluation_now clock ctx = (if IsZero (EvaluationTime ctx) then clock else EvaluationTime ctx)"

text \<open>1. Driver account rules.\<close>

definition driver_rules :: "EligibilityContext \<Rightarrow> Blocker list" where
  "driver_rules ctx =
     (if IsSuspended (ctx_Driver ctx)
      then [block BlockerDriverSuspended ''blocking'' ''driver''
              ''Driver account is administratively suspended''] else [])
   @ (if \<not> IsSuspended (ctx_Driver ctx) \<and> dd_Status (ctx_Driver ctx) \<noteq> ''available''
         \<and> dd_Status (ctx_Driver ctx) \<noteq> ''on_duty''
      then [block BlockerDriverNotOnDuty ''blocking'' ''driver''
              ''Driver is not on duty or available''] else [])
   @ (if \<not> IdentityVerified (ctx_Driver ctx)
      then [block BlockerIdentityPending
              (if RequireIdentityForDispatch (Policy ctx) then ''blocking'' else ''warning'')
              ''driver'' ''Driver identity verification is pending''] else [])"

text \<open>2. Licence rules.\<close>

definition license_rules :: "gotime \<Rightarrow> EligibilityContext \<Rightarrow> Blocker list" where
  "license_rules now ctx =
     (case License ctx of
        None \<Rightarrow> [block BlockerLicenseMissing ''blocking'' ''license'' ''No driving license on file'']
      | Some l \<Rightarrow>
          (if Before (lic_ExpiresOn l) now
           then [block BlockerLicenseExpired ''blocking'' ''license''
                   ''Driving license has expired''] else [])
        @ (if lic_VerificationStatus l \<noteq> ''verified''
           then [block BlockerLicenseUnverified ''blocking'' ''license''
                   ''Driving license verification is pending or rejected''] else []))"

text \<open>3. Assignment rules.\<close>

definition assignment_rules :: "EligibilityContext \<Rightarrow> Blocker list" where
  "assignment_rules ctx =
     (if (case Assignment ctx of None \<Rightarrow> True
          | Some a \<Rightarrow> as_Status a \<noteq> ''active'' \<or> as_VehicleID a = '''')
      then [block BlockerNoActiveAssignment ''blocking'' ''assignment''
              ''No active vehicle assignment''] else [])"

text \<open>4. Vehicle and compliance rules.\<close>

definition required_classes :: "EligibilityContext \<Rightarrow> gostring \<Rightarrow> gostring list" where
  "required_classes ctx ty =
     (let reqClasses = (case RequiredClassesByVehicleType (Policy ctx) ty of None \<Rightarrow> [] | Some cs \<Rightarrow> cs)
      in if reqClasses = []
         then (if ty = ''truck'' \<or> ty = ''hmv'' then [''HMV'', ''TRANS''] else [''LMV''])
         else reqClasses)"

definition class_rule :: "EligibilityContext \<Rightarrow> VehicleData \<Rightarrow> Blocker list" where
  "class_rule ctx v =
     (case License ctx of
        None \<Rightarrow> []
      | Some l \<Rightarrow>
          if vd_Type v \<noteq> '''' \<and>
             \<not> list_ex (\<lambda>rc. list_ex (\<lambda>lc. lc = rc) (Classes l)) (required_classes ctx (vd_Type v))
          then [block BlockerLicenseClassMismatch ''blocking'' ''license''
                  ''Driver license class endorsement does not match vehicle type''] else [])"

text \<open>The map from document types to documents: a later document overwrites an earlier one.\<close>

definition docMap :: "ComplianceDocData list \<Rightarrow> gostring \<rightharpoonup> ComplianceDocData" where
  "docMap docs = foldl (\<lambda>m d. m(doc_Type d \<mapsto> d)) Map.empty docs"

definition rc_check :: "gotime \<Rightarrow> TenantPolicy \<Rightarrow> ComplianceDocData option \<Rightarrow> Blocker list" where
  "rc_check now pol d =
     (case d of
        None \<Rightarrow>
          if RequireVerifiedRCForDispatch pol
          then [block BlockerRCMissing ''blocking'' ''vehicle''
                  ''Vehicle registration certificate (RC) is missing''] else []
      | Some rc \<Rightarrow>
          (if VerificationStatus rc \<noteq> ''verified''
           then [block BlockerRCUnverified ''blocking'' ''vehicle''
                   ''Vehicle registration certificate (RC) is not verified''] else [])
        @ (if \<not> IsZero (ExpiresOn rc) \<and> Before (ExpiresOn rc) now
           then [block BlockerRCExpired ''blocking'' ''vehicle''
                   ''Vehicle registration certificate (RC) has expired''] else []))"

definition insurance_check :: "gotime \<Rightarrow> ComplianceDocData option \<Rightarrow> Blocker list" where
  "insurance_check now d =
     (case d of
        None \<Rightarrow> [block BlockerInsuranceMissing ''blocking'' ''vehicle''
                   ''Vehicle insurance policy is missing'']
      | Some x \<Rightarrow>
          (if VerificationStatus x \<noteq> ''verified''
           then [block BlockerInsuranceUnverified ''blocking'' ''vehicle''
                   ''Vehicle insurance policy is unverified''] else [])
        @ (if Before (ExpiresOn x) now
           then [block BlockerInsuranceExpired ''blocking'' ''vehicle''
                   ''Vehicle insurance policy has expired''] else []))"

definition fitness_check :: "gotime \<Rightarrow> ComplianceDocData option \<Rightarrow> Blocker list" where
  "fitness_check now d =
     (case d of
        None \<Rightarrow> [block BlockerFitnessMissing ''blocking'' ''vehicle''
                   ''Vehicle fitness certificate is missing'']
      | Some x \<Rightarrow>
          (if VerificationStatus x \<noteq> ''verified''
           then [block BlockerFitnessUnverified ''blocking'' ''vehicle''
                   ''Vehicle fitness certificate is unverified''] else [])
        @ (if Before (ExpiresOn x) now
           then [block BlockerFitnessExpired ''blocking'' ''vehicle''
                   ''Vehicle fitness certificate has expired''] else []))"

definition permit_check :: "gotime \<Rightarrow> ComplianceDocData option \<Rightarrow> Blocker list" where
  "permit_check now d =
     (case d of
        None \<Rightarrow> [block BlockerPermitMissing ''blocking'' ''vehicle''
                   ''Vehicle commercial permit is missing'']
      | Some x \<Rightarrow>
          (if VerificationStatus x \<noteq> ''verified''
           then [block BlockerPermitUnverified ''blocking'' ''vehicle''
                   ''Vehicle commercial permit is unverified''] else [])
        @ (if Before (ExpiresOn x) now
           then [block BlockerPermitExpired ''blocking'' ''vehicle''
                   ''Vehicle commercial permit has expired''] else []))"

definition puc_check :: "gotime \<Rightarrow> TenantPolicy \<Rightarrow> ComplianceDocData option \<Rightarrow> Blocker list" where
  "puc_check now pol d =
     (case d of
        None \<Rightarrow> [block BlockerPUCMissing
                   (if AllowWarningForMissingPUC pol then ''warning'' else ''blocking'') ''vehicle''
                   ''Vehicle pollution under control (PUC) certificate is missing'']
      | Some x \<Rightarrow>
          (if VerificationStatus x \<noteq> ''verified''
           then [block BlockerPUCUnverified ''blocking'' ''vehicle''
                   ''Vehicle pollution under control (PUC) certificate is unverified''] else [])
        @ (if Before (ExpiresOn x) now
           then [block BlockerPUCExpired
                   (if AllowWarningForExpiredPUC pol then ''warning'' else ''blocking'') ''vehicle''
                   ''Vehicle pollution under control (PUC) certificate has expired''] else []))"

definition vehicle_rules :: "gotime \<Rightarrow> EligibilityContext \<Rightarrow> Blocker list" where
  "vehicle_rules now ctx =
     (case ctx_Vehicle ctx of
        None \<Rightarrow>
          if (case Assignment ctx of None \<Rightarrow> False | Some a \<Rightarrow> as_VehicleID a \<noteq> '''')
          then [block BlockerVehicleMissing ''blocking'' ''vehicle''
                  ''Assigned vehicle record not found''] else []
      | Some v \<Rightarrow>
          (let m = docMap (ComplianceDocs ctx) in
             (if IsBlocked v
              then [block BlockerVehicleBlocked ''blocking'' ''vehicle''
                      ''Vehicle is administratively blocked''] else [])
           @ class_rule ctx v
           @ rc_check now (Policy ctx) (m ''rc'')
           @ insurance_check now (m ''insurance'')
           @ fitness_check now (m ''fitness'')
           @ permit_check now (m ''permit'')
           @ puc_check now (Policy ctx) (m ''puc'')))"

definition EvaluateDispatch :: "gotime \<Rightarrow> EligibilityContext \<Rightarrow> EligibilityResult" where
  "EvaluateDispatch clock ctx =
     (let now = evaluation_now clock ctx;
          blockers = driver_rules ctx @ license_rules now ctx @ assignment_rules ctx
                     @ vehicle_rules now ctx
      in \<lparr>IsEligible = \<not> list_ex (\<lambda>b. Severity b = ''blocking'') blockers, EvaluatedAt = now,
          Blockers = blockers\<rparr>)"

section \<open>Settlement\<close>

definition EvaluateSettlement :: "gotime \<Rightarrow> EligibilityContext \<Rightarrow> EligibilityResult" where
  "EvaluateSettlement clock ctx =
     (let now = evaluation_now clock ctx;
          blockers =
            (case PayoutAccount ctx of
               None \<Rightarrow> [block BlockerBankMissing ''blocking'' ''payout''
                          ''No payout bank account on file'']
             | Some p \<Rightarrow>
                 (if pa_VerificationStatus p \<noteq> ''verified''
                  then [block BlockerBankUnverified ''blocking'' ''payout''
                          ''Primary payout bank account is unverified''] else [])
               @ (if HoldPayouts p
                  then [block BlockerPayoutOnHold ''blocking'' ''payout''
                          ''Settlement payouts are administratively on hold''] else []))
      in \<lparr>IsEligible = (blockers = []), EvaluatedAt = now, Blockers = blockers\<rparr>)"

section \<open>What dispatch asks for\<close>

text \<open>The document in force is the last one of its type in the list.\<close>

definition current_doc :: "gostring \<Rightarrow> ComplianceDocData list \<Rightarrow> ComplianceDocData option" where
  "current_doc ty docs = find (\<lambda>d. doc_Type d = ty) (rev docs)"

lemma docMap_snoc: "docMap (docs @ [d]) = (docMap docs)(doc_Type d \<mapsto> d)"
  by (simp add: docMap_def)

lemma docMap_current: "docMap docs ty = current_doc ty docs"
  by (induction docs rule: rev_induct) (auto simp: docMap_snoc current_doc_def, simp add: docMap_def)

text \<open>
  The abstract requirement, stated without the engine's blockers: an active driver with a valid
  licence of a class the vehicle needs, an active assignment, an unblocked vehicle on record, and
  documents in force.
\<close>

definition verified_until :: "gotime \<Rightarrow> ComplianceDocData option \<Rightarrow> bool" where
  "verified_until now d \<longleftrightarrow>
     (\<exists>x. d = Some x \<and> VerificationStatus x = ''verified'' \<and> now \<le> ExpiresOn x)"

definition documents_in_force :: "gotime \<Rightarrow> TenantPolicy \<Rightarrow> ComplianceDocData list \<Rightarrow> bool" where
  "documents_in_force now pol docs \<longleftrightarrow>
     (case current_doc ''rc'' docs of
        None \<Rightarrow> \<not> RequireVerifiedRCForDispatch pol
      | Some x \<Rightarrow> VerificationStatus x = ''verified'' \<and> (ExpiresOn x = 0 \<or> now \<le> ExpiresOn x))
   \<and> verified_until now (current_doc ''insurance'' docs)
   \<and> verified_until now (current_doc ''fitness'' docs)
   \<and> verified_until now (current_doc ''permit'' docs)
   \<and> (case current_doc ''puc'' docs of
        None \<Rightarrow> AllowWarningForMissingPUC pol
      | Some x \<Rightarrow> VerificationStatus x = ''verified''
           \<and> (now \<le> ExpiresOn x \<or> AllowWarningForExpiredPUC pol))"

definition licensed_for :: "gotime \<Rightarrow> EligibilityContext \<Rightarrow> LicenseData \<Rightarrow> VehicleData \<Rightarrow> bool" where
  "licensed_for now ctx l v \<longleftrightarrow> now \<le> lic_ExpiresOn l \<and> lic_VerificationStatus l = ''verified''
     \<and> (vd_Type v = '''' \<or> set (Classes l) \<inter> set (required_classes ctx (vd_Type v)) \<noteq> {})"

definition cleared_for_dispatch :: "gotime \<Rightarrow> EligibilityContext \<Rightarrow> bool" where
  "cleared_for_dispatch now ctx \<longleftrightarrow>
     \<not> IsSuspended (ctx_Driver ctx) \<and> dd_Status (ctx_Driver ctx) \<in> {''available'', ''on_duty''}
   \<and> (IdentityVerified (ctx_Driver ctx) \<or> \<not> RequireIdentityForDispatch (Policy ctx))
   \<and> (\<exists>a. Assignment ctx = Some a \<and> as_Status a = ''active'' \<and> as_VehicleID a \<noteq> '''')
   \<and> (\<exists>l v. License ctx = Some l \<and> ctx_Vehicle ctx = Some v \<and> \<not> IsBlocked v
        \<and> licensed_for now ctx l v)
   \<and> documents_in_force now (Policy ctx) (ComplianceDocs ctx)"

text \<open>A list of blockers lets the driver pass when none of them is blocking.\<close>

definition passes :: "Blocker list \<Rightarrow> bool" where
  "passes bs \<longleftrightarrow> \<not> list_ex (\<lambda>b. Severity b = ''blocking'') bs"

lemma passes_simps [simp]:
  "passes []"
  "passes (block c sev ent msg # bs) \<longleftrightarrow> sev \<noteq> ''blocking'' \<and> passes bs"
  "passes (xs @ ys) \<longleftrightarrow> passes xs \<and> passes ys"
  by (auto simp: passes_def block_def)

lemma passes_driver_rules:
  "passes (driver_rules ctx) \<longleftrightarrow>
     \<not> IsSuspended (ctx_Driver ctx) \<and> dd_Status (ctx_Driver ctx) \<in> {''available'', ''on_duty''}
   \<and> (IdentityVerified (ctx_Driver ctx) \<or> \<not> RequireIdentityForDispatch (Policy ctx))"
  by (auto simp: driver_rules_def)

lemma passes_license_rules:
  "passes (license_rules now ctx) \<longleftrightarrow>
     (\<exists>l. License ctx = Some l \<and> now \<le> lic_ExpiresOn l \<and> lic_VerificationStatus l = ''verified'')"
  by (auto simp: license_rules_def split: option.splits)

lemma passes_assignment_rules:
  "passes (assignment_rules ctx) \<longleftrightarrow>
     (\<exists>a. Assignment ctx = Some a \<and> as_Status a = ''active'' \<and> as_VehicleID a \<noteq> '''')"
  by (auto simp: assignment_rules_def split: option.splits)

lemma passes_class_rule:
  "License ctx = Some l \<Longrightarrow> passes (class_rule ctx v) \<longleftrightarrow>
     vd_Type v = '''' \<or> set (Classes l) \<inter> set (required_classes ctx (vd_Type v)) \<noteq> {}"
  by (auto simp: class_rule_def list_ex_iff)

lemma passes_checks:
  "passes (rc_check now pol d) \<longleftrightarrow>
     (case d of None \<Rightarrow> \<not> RequireVerifiedRCForDispatch pol
      | Some x \<Rightarrow> VerificationStatus x = ''verified'' \<and> (ExpiresOn x = 0 \<or> now \<le> ExpiresOn x))"
  "passes (insurance_check now d) \<longleftrightarrow> verified_until now d"
  "passes (fitness_check now d) \<longleftrightarrow> verified_until now d"
  "passes (permit_check now d) \<longleftrightarrow> verified_until now d"
  "passes (puc_check now pol d) \<longleftrightarrow>
     (case d of None \<Rightarrow> AllowWarningForMissingPUC pol
      | Some x \<Rightarrow> VerificationStatus x = ''verified''
          \<and> (now \<le> ExpiresOn x \<or> AllowWarningForExpiredPUC pol))"
  by (auto simp: rc_check_def insurance_check_def fitness_check_def permit_check_def puc_check_def
      verified_until_def split: option.splits)

lemma passes_vehicle_rules:
  "passes (vehicle_rules now ctx) \<longleftrightarrow>
     (case ctx_Vehicle ctx of
        None \<Rightarrow> (case Assignment ctx of None \<Rightarrow> True | Some a \<Rightarrow> as_VehicleID a = '''')
      | Some v \<Rightarrow> \<not> IsBlocked v \<and> passes (class_rule ctx v)
                  \<and> documents_in_force now (Policy ctx) (ComplianceDocs ctx))"
  by (auto simp: vehicle_rules_def documents_in_force_def passes_checks docMap_current Let_def
      split: option.splits)

lemma eligible_passes:
  "IsEligible (EvaluateDispatch clock ctx) \<longleftrightarrow>
     passes (driver_rules ctx) \<and> passes (license_rules (evaluation_now clock ctx) ctx)
     \<and> passes (assignment_rules ctx) \<and> passes (vehicle_rules (evaluation_now clock ctx) ctx)"
  by (simp add: EvaluateDispatch_def Let_def passes_def)

lemma eligible_cleared:
  "IsEligible (EvaluateDispatch clock ctx) \<longleftrightarrow> cleared_for_dispatch (evaluation_now clock ctx) ctx"
  unfolding eligible_passes passes_driver_rules passes_license_rules passes_assignment_rules
    passes_vehicle_rules cleared_for_dispatch_def licensed_for_def
  by (cases "License ctx"; cases "ctx_Vehicle ctx"; cases "Assignment ctx")
     (auto simp: passes_class_rule)

text \<open>
  Every blocker the engine can report, in the order of its sections: reports are subsequences.
\<close>

definition report_order :: "BlockerCode list" where
  "report_order =
     [BlockerDriverSuspended, BlockerDriverNotOnDuty, BlockerIdentityPending, BlockerLicenseMissing,
      BlockerLicenseExpired, BlockerLicenseUnverified, BlockerNoActiveAssignment,
      BlockerVehicleMissing, BlockerVehicleBlocked, BlockerLicenseClassMismatch, BlockerRCMissing,
      BlockerRCUnverified, BlockerRCExpired, BlockerInsuranceMissing, BlockerInsuranceUnverified,
      BlockerInsuranceExpired, BlockerFitnessMissing, BlockerFitnessUnverified,
      BlockerFitnessExpired, BlockerPermitMissing, BlockerPermitUnverified, BlockerPermitExpired,
      BlockerPUCMissing, BlockerPUCUnverified, BlockerPUCExpired]"

lemma Code_block [simp]: "Code (block c sev ent msg) = c"
  by (simp add: block_def)

lemma Severity_block [simp]: "Severity (block c sev ent msg) = sev"
  by (simp add: block_def)

lemma subseq_codes:
  "subseq (map Code (driver_rules ctx))
     [BlockerDriverSuspended, BlockerDriverNotOnDuty, BlockerIdentityPending]"
  "subseq (map Code (license_rules now ctx))
     [BlockerLicenseMissing, BlockerLicenseExpired, BlockerLicenseUnverified]"
  "subseq (map Code (assignment_rules ctx)) [BlockerNoActiveAssignment]"
  "subseq (map Code (class_rule ctx v)) [BlockerLicenseClassMismatch]"
  "subseq (map Code (rc_check now pol d)) [BlockerRCMissing, BlockerRCUnverified, BlockerRCExpired]"
  "subseq (map Code (insurance_check now d))
     [BlockerInsuranceMissing, BlockerInsuranceUnverified, BlockerInsuranceExpired]"
  "subseq (map Code (fitness_check now d))
     [BlockerFitnessMissing, BlockerFitnessUnverified, BlockerFitnessExpired]"
  "subseq (map Code (permit_check now d))
     [BlockerPermitMissing, BlockerPermitUnverified, BlockerPermitExpired]"
  "subseq (map Code (puc_check now pol d))
     [BlockerPUCMissing, BlockerPUCUnverified, BlockerPUCExpired]"
  by (auto simp: driver_rules_def license_rules_def assignment_rules_def class_rule_def rc_check_def
      insurance_check_def fitness_check_def permit_check_def puc_check_def split: option.splits)

lemma subseq_vehicle_codes:
  "subseq (map Code (vehicle_rules now ctx)) (drop 7 report_order)"
proof (cases "ctx_Vehicle ctx")
  case None
  then show ?thesis by (auto simp: vehicle_rules_def report_order_def split: option.splits)
next
  case (Some v)
  let ?m = "docMap (ComplianceDocs ctx)"
  have "subseq (map Code (if IsBlocked v
              then [block BlockerVehicleBlocked ''blocking'' ''vehicle''
                      ''Vehicle is administratively blocked''] else []))
          [BlockerVehicleMissing, BlockerVehicleBlocked]" by simp
  note list_emb_append_mono [OF this list_emb_append_mono [OF subseq_codes(4) [of ctx v]
      list_emb_append_mono [OF subseq_codes(5) [of now "Policy ctx" "?m ''rc''"]
      list_emb_append_mono [OF subseq_codes(6) [of now "?m ''insurance''"]
      list_emb_append_mono [OF subseq_codes(7) [of now "?m ''fitness''"]
      list_emb_append_mono [OF subseq_codes(8) [of now "?m ''permit''"]
        subseq_codes(9) [of now "Policy ctx" "?m ''puc''"]]]]]]]
  then show ?thesis by (simp add: vehicle_rules_def Some Let_def report_order_def)
qed

lemma subseq_report: "subseq (map Code (Blockers (EvaluateDispatch clock ctx))) report_order"
proof -
  note list_emb_append_mono [OF subseq_codes(1) [of ctx]
      list_emb_append_mono [OF subseq_codes(2) [of "evaluation_now clock ctx" ctx]
      list_emb_append_mono [OF subseq_codes(3) [of ctx]
        subseq_vehicle_codes [of "evaluation_now clock ctx" ctx]]]]
  then show ?thesis by (simp add: EvaluateDispatch_def Let_def report_order_def)
qed

lemma distinct_subseq: "subseq xs ys \<Longrightarrow> distinct ys \<Longrightarrow> distinct xs"
  by (induction rule: list_emb.induct) (auto dest: list_emb_set)

text \<open>Only three rules ever warn, each where the tenant's policy says so.\<close>

definition warning_allowed :: "TenantPolicy \<Rightarrow> BlockerCode \<Rightarrow> bool" where
  "warning_allowed pol c \<longleftrightarrow>
     c = BlockerIdentityPending \<and> \<not> RequireIdentityForDispatch pol
   \<or> c = BlockerPUCMissing \<and> AllowWarningForMissingPUC pol
   \<or> c = BlockerPUCExpired \<and> AllowWarningForExpiredPUC pol"

definition well_graded :: "TenantPolicy \<Rightarrow> Blocker \<Rightarrow> bool" where
  "well_graded pol b \<longleftrightarrow>
     Severity b = (if warning_allowed pol (Code b) then ''warning'' else ''blocking'')"

lemma well_graded_block [simp]:
  "well_graded pol (block c sev ent msg) \<longleftrightarrow>
     sev = (if warning_allowed pol c then ''warning'' else ''blocking'')"
  by (simp add: well_graded_def)

lemmas well_graded_defs = driver_rules_def license_rules_def assignment_rules_def class_rule_def
  rc_check_def insurance_check_def fitness_check_def permit_check_def puc_check_def

lemma well_graded_rules:
  "list_all (well_graded (Policy ctx)) (driver_rules ctx)"
  "list_all (well_graded (Policy ctx)) (license_rules now ctx)"
  "list_all (well_graded (Policy ctx)) (assignment_rules ctx)"
  "list_all (well_graded (Policy ctx)) (class_rule ctx v)"
  "list_all (well_graded pol) (rc_check now pol d)"
  "list_all (well_graded pol) (insurance_check now d)"
  "list_all (well_graded pol) (fitness_check now d)"
  "list_all (well_graded pol) (permit_check now d)"
  "list_all (well_graded pol) (puc_check now pol d)"
  by (simp_all add: well_graded_defs warning_allowed_def split: option.split)

lemma well_graded_vehicle_rules: "list_all (well_graded (Policy ctx)) (vehicle_rules now ctx)"
proof (cases "ctx_Vehicle ctx")
  case None
  then show ?thesis by (simp add: vehicle_rules_def warning_allowed_def)
next
  case (Some v)
  have "list_all (well_graded (Policy ctx)) (if IsBlocked v
              then [block BlockerVehicleBlocked ''blocking'' ''vehicle''
                      ''Vehicle is administratively blocked''] else [])"
    by (simp add: warning_allowed_def)
  then show ?thesis
    unfolding vehicle_rules_def Some option.case Let_def list_all_append
    by (intro conjI well_graded_rules)
qed

section \<open>Properties\<close>

text \<open>
  C10: the engine declares a driver eligible exactly when the abstract requirement holds at the
  evaluation time: active driver, valid licence of a class the vehicle needs, active assignment,
  unblocked vehicle on record, and, for each document type, a last listed document in force. In
  particular no driver is cleared without a vehicle record.
\<close>

theorem dispatch_eligible_iff:
  "IsEligible (EvaluateDispatch clock ctx)
     = cleared_for_dispatch (if EvaluationTime ctx = 0 then clock else EvaluationTime ctx) ctx"
  using eligible_cleared [of clock ctx] by (simp add: evaluation_now_def)

definition asks_no_more :: "TenantPolicy \<Rightarrow> TenantPolicy \<Rightarrow> bool" where
  "asks_no_more p q \<longleftrightarrow>
     (RequireIdentityForDispatch p \<longrightarrow> RequireIdentityForDispatch q)
   \<and> (RequireVerifiedRCForDispatch p \<longrightarrow> RequireVerifiedRCForDispatch q)
   \<and> (AllowWarningForExpiredPUC q \<longrightarrow> AllowWarningForExpiredPUC p)
   \<and> (AllowWarningForMissingPUC q \<longrightarrow> AllowWarningForMissingPUC p)
   \<and> RequiredClassesByVehicleType p = RequiredClassesByVehicleType q"

lemma verified_until_mono: "verified_until now d \<Longrightarrow> now' \<le> now \<Longrightarrow> verified_until now' d"
  by (auto simp only: verified_until_def intro: order_trans)

lemma documents_in_force_mono:
  assumes "documents_in_force now q docs" and "now' \<le> now" and "asks_no_more p q"
  shows "documents_in_force now' p docs"
proof -
  have rc: "case current_doc ''rc'' docs of None \<Rightarrow> \<not> RequireVerifiedRCForDispatch p
      | Some x \<Rightarrow> VerificationStatus x = ''verified'' \<and> (ExpiresOn x = 0 \<or> now' \<le> ExpiresOn x)"
    using assms unfolding documents_in_force_def asks_no_more_def
    by (cases "current_doc ''rc'' docs") auto
  have puc: "case current_doc ''puc'' docs of None \<Rightarrow> AllowWarningForMissingPUC p
      | Some x \<Rightarrow> VerificationStatus x = ''verified''
          \<and> (now' \<le> ExpiresOn x \<or> AllowWarningForExpiredPUC p)"
    using assms unfolding documents_in_force_def asks_no_more_def
    by (cases "current_doc ''puc'' docs") auto
  show ?thesis
    using assms(1,2) rc puc verified_until_mono unfolding documents_in_force_def by blast
qed

text \<open>
  Eligibility is monotone: a driver eligible at one time under one policy is eligible at every
  earlier time and under every policy that asks for no more, with the same licence classes.
\<close>

theorem dispatch_monotone:
  assumes "IsEligible (EvaluateDispatch clock ctx)"
    and "EvaluationTime ctx \<noteq> 0" and "t \<noteq> 0" and "t \<le> EvaluationTime ctx"
    and "asks_no_more p (Policy ctx)"
  shows "IsEligible (EvaluateDispatch clock' (ctx\<lparr>EvaluationTime := t, Policy := p\<rparr>))"
proof -
  have c: "cleared_for_dispatch (EvaluationTime ctx) ctx"
    using assms(1,2) by (simp add: eligible_cleared evaluation_now_def)
  have classes: "required_classes (ctx\<lparr>EvaluationTime := t, Policy := p\<rparr>) ty = required_classes ctx ty"
    for ty using assms(5) by (simp add: required_classes_def asks_no_more_def)
  have "cleared_for_dispatch t (ctx\<lparr>EvaluationTime := t, Policy := p\<rparr>)"
    using c assms(4,5) documents_in_force_mono [OF _ assms(4,5)]
    by (auto simp: cleared_for_dispatch_def licensed_for_def classes asks_no_more_def)
  then show ?thesis using assms(3) by (simp add: eligible_cleared evaluation_now_def)
qed

definition demo_ctx :: EligibilityContext where
  "demo_ctx = \<lparr>EvaluationTime = 100,
     Policy = \<lparr>RequireIdentityForDispatch = True, RequireVerifiedRCForDispatch = True,
       AllowWarningForExpiredPUC = False, AllowWarningForMissingPUC = True,
       RequiredClassesByVehicleType = Map.empty\<rparr>,
     ctx_Driver = \<lparr>dd_ID = ''d1'', dd_Status = ''on_duty'', IsSuspended = False,
       IdentityVerified = True\<rparr>,
     License = Some \<lparr>Number = ''L1'', lic_ExpiresOn = 500, lic_VerificationStatus = ''verified'',
       Classes = [''LMV'', ''HMV'']\<rparr>,
     Assignment = Some \<lparr>as_ID = ''a1'', as_VehicleID = ''v1'', as_Status = ''active''\<rparr>,
     ctx_Vehicle = Some \<lparr>vd_ID = ''v1'', Plate = ''MH12'', vd_Type = ''truck'', IsBlocked = False\<rparr>,
     ComplianceDocs =
       [\<lparr>doc_Type = ''insurance'', ExpiresOn = 50, VerificationStatus = ''expired''\<rparr>,
        \<lparr>doc_Type = ''rc'', ExpiresOn = 0, VerificationStatus = ''verified''\<rparr>,
        \<lparr>doc_Type = ''insurance'', ExpiresOn = 200, VerificationStatus = ''verified''\<rparr>,
        \<lparr>doc_Type = ''fitness'', ExpiresOn = 200, VerificationStatus = ''verified''\<rparr>,
        \<lparr>doc_Type = ''permit'', ExpiresOn = 200, VerificationStatus = ''verified''\<rparr>],
     PayoutAccount = Some \<lparr>pa_VerificationStatus = ''verified'', HoldPayouts = False\<rparr>\<rparr>"

lemma demo_ctx_eligible: "IsEligible (EvaluateDispatch 0 demo_ctx)"
  by (simp add: eligible_cleared evaluation_now_def demo_ctx_def cleared_for_dispatch_def
      licensed_for_def required_classes_def documents_in_force_def current_doc_def verified_until_def)

theorem dispatch_monotone_witness:
  "IsEligible (EvaluateDispatch 0 (demo_ctx\<lparr>EvaluationTime := 60,
     Policy := (Policy demo_ctx)\<lparr>RequireIdentityForDispatch := False\<rparr>\<rparr>))"
proof (rule dispatch_monotone [OF demo_ctx_eligible])
  show "asks_no_more (Policy demo_ctx\<lparr>RequireIdentityForDispatch := False\<rparr>) (Policy demo_ctx)"
    by (simp add: asks_no_more_def)
qed (simp_all add: demo_ctx_def)

text \<open>
  C13: a report lists its blockers in the fixed order of the rules, each code at most once, and
  grades every one of them as blocking except the three the tenant's policy turns into warnings.
\<close>

theorem dispatch_report_wellformed:
  "subseq (map Code (Blockers (EvaluateDispatch clock ctx))) report_order
   \<and> distinct (map Code (Blockers (EvaluateDispatch clock ctx)))
   \<and> list_all (\<lambda>b. Severity b = (if warning_allowed (Policy ctx) (Code b) then ''warning''
                                 else ''blocking'')) (Blockers (EvaluateDispatch clock ctx))"
proof -
  have "list_all (well_graded (Policy ctx)) (Blockers (EvaluateDispatch clock ctx))"
    by (simp add: EvaluateDispatch_def Let_def well_graded_rules well_graded_vehicle_rules)
  moreover have "distinct report_order" by (simp add: report_order_def)
  ultimately show ?thesis
    using subseq_report [of clock ctx] distinct_subseq by (auto simp: well_graded_def [abs_def])
qed

lemma rules_ignore_payout:
  "driver_rules (ctx\<lparr>PayoutAccount := q\<rparr>) = driver_rules ctx"
  "license_rules now (ctx\<lparr>PayoutAccount := q\<rparr>) = license_rules now ctx"
  "assignment_rules (ctx\<lparr>PayoutAccount := q\<rparr>) = assignment_rules ctx"
  "vehicle_rules now (ctx\<lparr>PayoutAccount := q\<rparr>) = vehicle_rules now ctx"
  "evaluation_now clock (ctx\<lparr>PayoutAccount := q\<rparr>) = evaluation_now clock ctx"
proof -
  have sel: "Policy (ctx\<lparr>PayoutAccount := q\<rparr>) = Policy ctx"
    "License (ctx\<lparr>PayoutAccount := q\<rparr>) = License ctx"
    "Assignment (ctx\<lparr>PayoutAccount := q\<rparr>) = Assignment ctx"
    "ctx_Driver (ctx\<lparr>PayoutAccount := q\<rparr>) = ctx_Driver ctx"
    "ctx_Vehicle (ctx\<lparr>PayoutAccount := q\<rparr>) = ctx_Vehicle ctx"
    "ComplianceDocs (ctx\<lparr>PayoutAccount := q\<rparr>) = ComplianceDocs ctx"
    "EvaluationTime (ctx\<lparr>PayoutAccount := q\<rparr>) = EvaluationTime ctx" by simp_all
  have cls: "class_rule (ctx\<lparr>PayoutAccount := q\<rparr>) v = class_rule ctx v" for v
    unfolding class_rule_def required_classes_def sel ..
  show "driver_rules (ctx\<lparr>PayoutAccount := q\<rparr>) = driver_rules ctx"
    unfolding driver_rules_def sel ..
  show "license_rules now (ctx\<lparr>PayoutAccount := q\<rparr>) = license_rules now ctx"
    unfolding license_rules_def sel ..
  show "assignment_rules (ctx\<lparr>PayoutAccount := q\<rparr>) = assignment_rules ctx"
    unfolding assignment_rules_def sel ..
  show "vehicle_rules now (ctx\<lparr>PayoutAccount := q\<rparr>) = vehicle_rules now ctx"
    unfolding vehicle_rules_def cls sel ..
  show "evaluation_now clock (ctx\<lparr>PayoutAccount := q\<rparr>) = evaluation_now clock ctx"
    unfolding evaluation_now_def sel ..
qed

text \<open>
  A settlement is eligible exactly when the payout account is on file, verified and not on
  hold; every settlement blocker is blocking, and none of them affects dispatch.
\<close>

theorem settlement_eligible_iff:
  "(IsEligible (EvaluateSettlement clock ctx) \<longleftrightarrow>
      (\<exists>p. PayoutAccount ctx = Some p \<and> pa_VerificationStatus p = ''verified'' \<and> \<not> HoldPayouts p))
   \<and> list_all (\<lambda>b. Severity b = ''blocking'') (Blockers (EvaluateSettlement clock ctx))
   \<and> EvaluateDispatch clock (ctx\<lparr>PayoutAccount := q\<rparr>) = EvaluateDispatch clock ctx"
proof (intro conjI)
  show "IsEligible (EvaluateSettlement clock ctx) \<longleftrightarrow>
      (\<exists>p. PayoutAccount ctx = Some p \<and> pa_VerificationStatus p = ''verified'' \<and> \<not> HoldPayouts p)"
    by (cases "PayoutAccount ctx") (simp_all add: EvaluateSettlement_def Let_def)
  show "list_all (\<lambda>b. Severity b = ''blocking'') (Blockers (EvaluateSettlement clock ctx))"
    by (cases "PayoutAccount ctx") (simp_all add: EvaluateSettlement_def Let_def)
  show "EvaluateDispatch clock (ctx\<lparr>PayoutAccount := q\<rparr>) = EvaluateDispatch clock ctx"
    by (simp only: EvaluateDispatch_def rules_ignore_payout)
qed

end
