(* ===== verification/Settlement.thy ===== *)
theory Settlement
  imports Prelude GoFloat
begin

text \<open>
  The settlement domain (\<open>internal/settlement/domain/settlement.go\<close>, \<open>payout.go\<close>, \<open>ledger.go\<close>): the
  calculation of a trip's settlement in binary64, payout instructions with their eligibility check
  and state machine, and ledger entries; then what the calculation means in paise.
\<close>

section \<open>Settlements\<close>

record Settlement =
  set_ID :: gostring
  set_TenantID :: gostring
  set_TripID :: gostring
  set_DriverID :: gostring
  GrossFare :: float64
  CommissionRate :: float64
  CommissionAmount :: float64
  TollAdjustment :: float64
  AdvanceDeductions :: float64
  TDSRate :: float64
  TDSAmount :: float64
  NetPayout :: float64
  set_Status :: gostring
  set_CreatedAt :: gotime
  set_UpdatedAt :: gotime

definition CalculateSettlement ::
  "gotime \<Rightarrow> gostring \<Rightarrow> gostring \<Rightarrow> gostring \<Rightarrow> gostring \<Rightarrow> float64 \<Rightarrow> float64 \<Rightarrow> float64 \<Rightarrow> float64
    \<Rightarrow> float64 \<Rightarrow> Settlement" where
  "CalculateSettlement now sid tenantID tripID driverID grossFare tollAdjustment advanceDeductions
       commissionRate0 tdsRate0 =
     (let commissionRate = (if commissionRate0 \<le> Fin 0 then F (1 / 10) else commissionRate0);
          tdsRate = (if tdsRate0 \<le> Fin 0 then F (1 / 100) else tdsRate0);
          commissionAmount = fdiv (math_Round (grossFare * commissionRate * F 100)) (F 100);
          tdsAmount = fdiv (math_Round ((grossFare - commissionAmount) * tdsRate * F 100)) (F 100);
          netPayout0 = fdiv (math_Round ((grossFare - commissionAmount + tollAdjustment
                                           - advanceDeductions - tdsAmount) * F 100)) (F 100);
          netPayout = (if netPayout0 < Fin 0 then Fin 0 else netPayout0)
      in \<lparr>set_ID = sid, set_TenantID = tenantID, set_TripID = tripID, set_DriverID = driverID,
          GrossFare = grossFare, CommissionRate = commissionRate,
          CommissionAmount = commissionAmount, TollAdjustment = tollAdjustment,
          AdvanceDeductions = advanceDeductions, TDSRate = tdsRate, TDSAmount = tdsAmount,
          NetPayout = netPayout, set_Status = ''pending'', set_CreatedAt = now,
          set_UpdatedAt = now\<rparr>)"

section \<open>Payouts\<close>

datatype PayoutStatus =
    PayoutInitiated | PayoutProcessing | PayoutPaid | PayoutFailed | PayoutReversed
  | PayoutCancelled | OtherPayoutStatus gostring

record PayoutInstruction =
  pay_ID :: gostring
  pay_TenantID :: gostring
  pay_DriverID :: gostring
  PayoutAccountID :: gostring
  pay_Amount :: float64
  pay_Currency :: gostring
  IdempotencyKey :: gostring
  ProviderPayoutID :: "gostring option"
  pay_Status :: PayoutStatus
  FailureReason :: "gostring option"
  UTR :: "gostring option"
  InitiatedAt :: gotime
  CompletedAt :: "gotime option"
  pay_CreatedAt :: gotime
  pay_UpdatedAt :: gotime

datatype payout_error =
    AccountUnverified | AmountNotPositive | BelowMinimum | InsufficientBalance
  | TerminalTransition PayoutStatus PayoutStatus | IllegalTransition PayoutStatus PayoutStatus

definition ValidatePayoutEligibility ::
  "float64 \<Rightarrow> float64 \<Rightarrow> bool \<Rightarrow> float64 \<Rightarrow> payout_error option" where
  "ValidatePayoutEligibility availableBalance requestedAmount accountVerified minPayoutAmount =
     (if \<not> accountVerified then Some AccountUnverified
      else if requestedAmount \<le> Fin 0 then Some AmountNotPositive
      else if Fin 0 < minPayoutAmount \<and> requestedAmount < minPayoutAmount then Some BelowMinimum
      else if availableBalance < requestedAmount then Some InsufficientBalance
      else None)"

definition CanTransitionTo :: "PayoutInstruction \<Rightarrow> PayoutStatus \<Rightarrow> payout_error option" where
  "CanTransitionTo p next =
     (if pay_Status p = next then None
      else
        (let illegal = Some (IllegalTransition (pay_Status p) next) in
         case pay_Status p of
           PayoutInitiated \<Rightarrow>
             if next = PayoutProcessing \<or> next = PayoutPaid \<or> next = PayoutFailed
                \<or> next = PayoutReversed \<or> next = PayoutCancelled then None else illegal
         | PayoutProcessing \<Rightarrow>
             if next = PayoutPaid \<or> next = PayoutFailed \<or> next = PayoutReversed then None
             else illegal
         | PayoutPaid \<Rightarrow> if next = PayoutReversed then None else illegal
         | PayoutFailed \<Rightarrow> Some (TerminalTransition (pay_Status p) next)
         | PayoutReversed \<Rightarrow> Some (TerminalTransition (pay_Status p) next)
         | PayoutCancelled \<Rightarrow> Some (TerminalTransition (pay_Status p) next)
         | OtherPayoutStatus s \<Rightarrow> illegal))"

section \<open>The ledger\<close>

datatype EntryType =
    EntryTripEarning | EntryCommission | EntryTollAdjustment | EntryPenalty | EntryPayout
  | EntryPayoutReversal | EntryAdvanceDeduction | EntryBonus

record LedgerEntry =
  led_ID :: gostring
  led_TenantID :: gostring
  led_DriverID :: gostring
  led_TripID :: "gostring option"
  EntryType :: EntryType
  led_Amount :: float64
  led_Currency :: gostring
  ReferenceType :: gostring
  ReferenceID :: gostring
  BalanceAfter :: float64
  led_Description :: gostring
  led_CreatedAt :: gotime

record DriverWallet =
  wal_DriverID :: gostring
  AvailableBalance :: float64
  PendingBalance :: float64
  PaidBalance :: float64
  HeldBalance :: float64
  wal_Currency :: gostring
  RecentEntries :: "LedgerEntry list"
  wal_UpdatedAt :: gotime

section \<open>Percentages of paise amounts\<close>

lemma round_away_half: "\<bar>of_int (round_away v) - v\<bar> \<le> 1 / 2"
proof -
  have *: "\<bar>of_int \<lfloor>u + 1 / 2\<rfloor> - u\<bar> \<le> 1 / 2" for u :: rat
    using of_int_floor_le [of "u + 1 / 2"] floor_correct [of "u + 1 / 2"] by linarith
  show ?thesis
  proof (cases "v < 0")
    case True
    then show ?thesis using * [of "- v"] by (simp add: round_away_def abs_minus_commute add.commute)
  next
    case False
    then show ?thesis using * [of v] by (simp add: round_away_def)
  qed
qed

text \<open>Rounding to two places gives some whole number of paise, at most half a paisa away.\<close>

lemma round2_paise:
  assumes "approx q (1 / 2 ^ 17) x" and "\<bar>q\<bar> \<le> 2 ^ 34"
  obtains c where "round2 x = rupees c" and "\<bar>of_int c - q * 100\<bar> \<le> 1 / 2 + 1 / 1024"
proof -
  have "approx (q * 100) (1 / 2 ^ 17 * \<bar>100\<bar> + 2 powi (41 - 54)) (x * Fin 100)"
    by (rule approx_mult_Fin [OF assms(1)]) (use assms(2) in \<open>simp_all add: abs_mult\<close>)
  then have "approx (q * 100) (1 / 1024) (x * Fin 100)"
    by (rule approx_weaken) (simp add: power_int_def power_divide)
  then obtain v where v: "x * Fin 100 = Fin v" "\<bar>v - q * 100\<bar> \<le> 1 / 1024" by (auto simp: approx_def)
  show ?thesis
  proof
    show "round2 x = rupees (round_away v)" by (simp add: round2_def v(1) rupees_def)
    show "\<bar>of_int (round_away v) - q * 100\<bar> \<le> 1 / 2 + 1 / 1024"
      using round_away_half [of v] v(2) by linarith
  qed
qed

lemma approx_rupees_2p41:
  assumes "\<bar>n\<bar> \<le> 2 ^ 40"
  shows "approx (of_int n / 100) (1 / 2 ^ 20) (rupees n)"
proof -
  have n: "\<bar>of_int n\<bar> \<le> (2 ^ 40 :: rat)" using abs_of_int_le [OF assms(1)] by simp
  have "approx (of_int n / 100) (2 powi (34 - 54)) (fl (of_int n / 100))"
    by (rule approx_fl) (use n in simp_all)
  then show ?thesis by (simp add: rupees_def power_int_def power_divide)
qed

text \<open>The share \<open>q\<close> of \<open>n\<close> paise, in whole paise, between nothing and everything.\<close>

definition paise_share :: "int \<Rightarrow> rat \<Rightarrow> int \<Rightarrow> bool" where
  "paise_share n q c \<longleftrightarrow> 0 \<le> c \<and> c \<le> n \<and> \<bar>of_int c - of_int n * q\<bar> \<le> 1 / 2 + 1 / 1024"

lemma share_of_approx:
  assumes "approx (of_int n / 100) (1 / 2 ^ 18) x" and "0 \<le> n" and "n \<le> 2 ^ 40"
    and "0 \<le> q" and "q \<le> 1"
  obtains c where "round2 (x * Fin q) = rupees c" and "paise_share n q c"
proof -
  have n: "0 \<le> (of_int n :: rat)" "of_int n \<le> (2 ^ 40 :: rat)"
    using assms(2,3) abs_of_int_le [of n "2 ^ 40"] by simp_all
  have nq: "0 \<le> of_int n * q" "of_int n * q \<le> of_int n"
    using n(1) assms(4,5) by (simp_all add: mult_left_le)
  have le: "\<bar>of_int n / 100 * q\<bar> \<le> 2 ^ 34" using nq n(2) by (simp add: abs_le_iff)
  have "approx (of_int n / 100 * q) (1 / 2 ^ 18 * \<bar>q\<bar> + 2 powi (35 - 54)) (x * Fin q)"
  proof (rule approx_mult_Fin [OF assms(1)])
    show "\<bar>of_int n / 100 * q\<bar> + 1 / 2 ^ 18 * \<bar>q\<bar> < 2 powi 35" using le assms(4,5) by simp
  qed simp_all
  then have "approx (of_int n / 100 * q) (1 / 2 ^ 17) (x * Fin q)"
    by (rule approx_weaken) (use assms(4,5) in \<open>simp add: power_int_def power_divide\<close>)
  then obtain c where c: "round2 (x * Fin q) = rupees c"
      "\<bar>of_int c - of_int n / 100 * q * 100\<bar> \<le> 1 / 2 + 1 / 1024"
    using le by (rule round2_paise)
  from c(2) have b: "\<bar>of_int c - of_int n * q\<bar> \<le> 1 / 2 + 1 / 1024" by simp
  have "- 1 < (of_int c :: rat)" "of_int c < (of_int n + 1 :: rat)" using b nq by linarith+
  then have "0 \<le> c" "c \<le> n" by linarith+
  with b c(1) show ?thesis using that unfolding paise_share_def by blast
qed

section \<open>What a settlement pays\<close>

text \<open>
  The rates a settlement uses: the request's, or the defaults of ten and one per cent. A rate of at
  most 1 in the float order is a finite share between 0 and 1 once the default is applied.
\<close>

definition rate_of :: "float64 \<Rightarrow> float64 \<Rightarrow> rat \<Rightarrow> bool" where
  "rate_of r0 d q \<longleftrightarrow> (if r0 \<le> Fin 0 then d else r0) = Fin q \<and> 0 \<le> q \<and> q \<le> 1"

lemma default_rates:
  obtains a b where "F (1 / 10) = Fin a" "0 \<le> a" "a \<le> 1" "F (1 / 100) = Fin b" "0 \<le> b" "b \<le> 1"
proof -
  have "\<exists>a. fl x = Fin a \<and> 0 \<le> a \<and> a \<le> 1" if "x \<in> {1 / 10, 1 / 100}" for x :: rat
  proof -
    have x: "0 \<le> x" "x \<le> 1 / 10" using that by auto
    have "\<bar>x\<bar> < 2 powi 0" using x by simp
    from fl_eq_Fin [OF this] fl_val_error [OF this] fl_val_nonneg [OF x(1)] x
    have "fl x = Fin (fl_val x)" "0 \<le> fl_val x" "\<bar>fl_val x - x\<bar> \<le> 2 powi (- 54)" by simp_all
    moreover have "(2::rat) powi (- 54) \<le> 1 / 2" by (simp add: power_int_def power_divide)
    ultimately have "fl x = Fin (fl_val x)" "0 \<le> fl_val x" "\<bar>fl_val x - x\<bar> \<le> 1 / 2" by linarith+
    moreover then have "fl_val x \<le> 1" using x by linarith
    ultimately show ?thesis by blast
  qed
  then show ?thesis using that by (metis insertI1 insertI2)
qed

lemma rate_exists:
  assumes "r0 \<le> F 1"
  shows "\<exists>q. rate_of r0 (F (1 / 10)) q" and "\<exists>q. rate_of r0 (F (1 / 100)) q"
proof -
  obtain a b where ab: "F (1 / 10) = Fin a" "0 \<le> a" "a \<le> 1" "F (1 / 100) = Fin b" "0 \<le> b" "b \<le> 1"
    by (rule default_rates)
  have one: "F 1 = Fin 1" using fl_of_int [of 1] by simp
  have r: "\<exists>q. r0 = Fin q \<and> 0 < q \<and> q \<le> 1" if "\<not> r0 \<le> Fin 0"
    using assms that unfolding one by (cases r0) auto
  show "\<exists>q. rate_of r0 (F (1 / 10)) q" using ab r by (cases "r0 \<le> Fin 0") (auto simp: rate_of_def)
  show "\<exists>q. rate_of r0 (F (1 / 100)) q" using ab r by (cases "r0 \<le> Fin 0") (auto simp: rate_of_def)
qed

lemma approx_net:
  assumes "\<bar>g\<bar> \<le> 2 ^ 40" "\<bar>c\<bar> \<le> 2 ^ 40" "\<bar>w\<bar> \<le> 2 ^ 40" "\<bar>a\<bar> \<le> 2 ^ 40" "\<bar>t\<bar> \<le> 2 ^ 40"
  shows "approx (of_int (g - c) / 100) (1 / 2 ^ 18) (rupees g - rupees c)"
    and "round2 (rupees g - rupees c + rupees w - rupees a - rupees t) = rupees (g - c + w - a - t)"
proof -
  have b: "\<bar>of_int n\<bar> \<le> (2 ^ 40 :: rat)" if "\<bar>n\<bar> \<le> 2 ^ 40" for n
    using abs_of_int_le [OF that] by simp
  note bs = assms [THEN b]
  note ap = assms [THEN approx_rupees_2p41]
  have 1: "approx (of_int g / 100 - of_int c / 100) (1 / 2 ^ 20 + 1 / 2 ^ 20 + 2 powi (35 - 54))
      (rupees g - rupees c)"
    by (rule approx_diff [OF ap(1,2)]) (use bs in \<open>simp_all add: power_int_def power_divide, linarith?\<close>)
  then show "approx (of_int (g - c) / 100) (1 / 2 ^ 18) (rupees g - rupees c)"
    by (simp add: power_int_def power_divide diff_divide_distrib)
  have 2: "approx (of_int g / 100 - of_int c / 100) (1 / 2 ^ 18) (rupees g - rupees c)"
    by (rule approx_weaken [OF 1]) (simp add: power_int_def power_divide)
  have 3: "approx (of_int g / 100 - of_int c / 100 + of_int w / 100)
      (1 / 2 ^ 18 + 1 / 2 ^ 20 + 2 powi (36 - 54)) (rupees g - rupees c + rupees w)"
    by (rule approx_add [OF 2 ap(3)]) (use bs in \<open>simp_all add: power_int_def power_divide, linarith?\<close>)
  have 4: "approx (of_int g / 100 - of_int c / 100 + of_int w / 100 - of_int a / 100)
      (1 / 2 ^ 18 + 1 / 2 ^ 20 + 2 powi (36 - 54) + 1 / 2 ^ 20 + 2 powi (37 - 54))
      (rupees g - rupees c + rupees w - rupees a)"
    by (rule approx_diff [OF 3 ap(4)])
       (use bs in \<open>simp_all add: power_int_def power_divide, linarith?\<close>)
  have "approx (of_int g / 100 - of_int c / 100 + of_int w / 100 - of_int a / 100 - of_int t / 100)
      (1 / 2 ^ 18 + 1 / 2 ^ 20 + 2 powi (36 - 54) + 1 / 2 ^ 20 + 2 powi (37 - 54) + 1 / 2 ^ 20
        + 2 powi (37 - 54))
      (rupees g - rupees c + rupees w - rupees a - rupees t)"
    by (rule approx_diff [OF 4 ap(5)])
       (use bs in \<open>simp_all add: power_int_def power_divide, linarith?\<close>)
  then have "approx (of_int (g - c + w - a - t) / 100) (1 / 512)
      (rupees g - rupees c + rupees w - rupees a - rupees t)"
    by (intro approx_weaken [where e = "1 / 512"])
       (simp_all add: power_int_def power_divide diff_divide_distrib add_divide_distrib, linarith?)
  then show "round2 (rupees g - rupees c + rupees w - rupees a - rupees t)
      = rupees (g - c + w - a - t)"
    by (rule round2_approx) (use assms in simp)
qed

section \<open>Properties\<close>

text \<open>
  C14: on amounts in paise (up to ten billion rupees each) and rates of at most 1, a settlement
  splits the fare in whole paise: the commission and the tax are the rates' shares rounded to the
  paisa, and the net payout is exactly fare minus commission minus tax plus tolls minus advances,
  or zero where that is negative. No paisa is lost to float arithmetic.
\<close>

theorem settlement_conserves:
  assumes "0 \<le> g" "g \<le> 2 ^ 40" and "\<bar>w\<bar> \<le> 2 ^ 40" and "\<bar>a\<bar> \<le> 2 ^ 40"
    and "cr \<le> F 1" and "tr \<le> F 1"
    and "s = CalculateSettlement now i m k d (rupees g) (rupees w) (rupees a) cr tr"
  shows "\<exists>c t p q. rate_of cr (F (1 / 10)) p \<and> rate_of tr (F (1 / 100)) q
     \<and> paise_share g p c \<and> paise_share (g - c) q t
     \<and> CommissionAmount s = rupees c \<and> TDSAmount s = rupees t
     \<and> NetPayout s = rupees (max 0 (g - c - t + w - a))"
proof -
  obtain p q where p: "rate_of cr (F (1 / 10)) p" and q: "rate_of tr (F (1 / 100)) q"
    using rate_exists [OF assms(5)] rate_exists [OF assms(6)] by blast
  have pq: "0 \<le> p" "p \<le> 1" "0 \<le> q" "q \<le> 1" using p q by (auto simp: rate_of_def)
  have ag: "approx (of_int g / 100) (1 / 2 ^ 18) (rupees g)"
    by (rule approx_weaken [OF approx_rupees_2p41]) (use assms(1,2) in simp_all)
  obtain c where c: "round2 (rupees g * Fin p) = rupees c" "paise_share g p c"
    using share_of_approx [OF ag assms(1,2) pq(1,2)] by blast
  then have cb: "0 \<le> c" "c \<le> g" by (auto simp: paise_share_def)
  have gb: "\<bar>g\<bar> \<le> 2 ^ 40" "\<bar>c\<bar> \<le> 2 ^ 40" using assms(1,2) cb by simp_all
  have gc: "0 \<le> g - c" "g - c \<le> 2 ^ 40" using cb assms(2) by simp_all
  obtain t where t: "round2 ((rupees g - rupees c) * Fin q) = rupees t" "paise_share (g - c) q t"
    using share_of_approx [OF approx_net(1) gc pq(3,4)] gb assms(3,4) by blast
  then have tb: "\<bar>t\<bar> \<le> 2 ^ 40" using gc by (auto simp: paise_share_def)
  define n where "n = g - c - t + w - a"
  have net: "round2 (rupees g - rupees c + rupees w - rupees a - rupees t) = rupees n"
    using approx_net(2) [OF gb(1,2) assms(3,4) tb] by (simp add: n_def algebra_simps)
  have nb: "\<bar>n\<bar> \<le> 2 ^ 50" using gb assms(3,4) tb by (simp add: n_def)
  have clamp: "(if rupees n < Fin 0 then Fin 0 else rupees n) = rupees (max 0 n)"
    using rupees_less(1) [OF nb, of 0] by (simp add: max_def)
  have "CommissionAmount s = rupees c" "TDSAmount s = rupees t"
    "NetPayout s = (if rupees n < Fin 0 then Fin 0 else rupees n)"
    using p q c(1) t(1) net unfolding assms(7)
    by (simp_all add: CalculateSettlement_def Let_def rate_of_def round2_def)
  with clamp have "CommissionAmount s = rupees c" "TDSAmount s = rupees t"
    "NetPayout s = rupees (max 0 n)" by simp_all
  then show ?thesis using p q c(2) t(2) by (auto simp: n_def)
qed

theorem settlement_conserves_witness:
  "\<exists>c t p q. rate_of 0 (F (1 / 10)) p \<and> rate_of 0 (F (1 / 100)) q
     \<and> paise_share 123457 p c \<and> paise_share (123457 - c) q t
     \<and> NetPayout (CalculateSettlement 5 ''s'' ''1'' ''t'' ''d'' (rupees 123457) (rupees 5000)
           (rupees 20000) 0 0) = rupees (max 0 (123457 - c - t + 5000 - 20000))"
proof -
  have "(0 :: float64) \<le> F 1" using fl_of_int [of 1] by (simp add: zero_float64_def)
  then show ?thesis
    using settlement_conserves [of 123457 5000 20000 0 0, OF _ _ _ _ _ _ refl] by fastforce
qed

definition payout_move :: "PayoutStatus \<Rightarrow> PayoutStatus \<Rightarrow> bool" where
  "payout_move st st' \<longleftrightarrow> st = st' \<or> (case st of
       PayoutInitiated \<Rightarrow> st' \<in> {PayoutProcessing, PayoutPaid, PayoutFailed, PayoutReversed, PayoutCancelled}
     | PayoutProcessing \<Rightarrow> st' \<in> {PayoutPaid, PayoutFailed, PayoutReversed}
     | PayoutPaid \<Rightarrow> st' = PayoutReversed
     | _ \<Rightarrow> False)"

lemma CanTransitionTo_None: "CanTransitionTo p next = None \<longleftrightarrow> payout_move (pay_Status p) next"
  by (cases "pay_Status p") (auto simp: CanTransitionTo_def payout_move_def Let_def)

lemma payout_move_chain:
  assumes "payout_move\<^sup>*\<^sup>* st st'"
  shows "st' = st \<or> st \<in> {PayoutInitiated, PayoutProcessing} \<and> st' \<noteq> PayoutInitiated
     \<or> st = PayoutPaid \<and> st' = PayoutReversed"
  using assms
  by (induction rule: rtranclp_induct) (auto simp: payout_move_def split: PayoutStatus.splits)

text \<open>
  The payout state machine: a status may be kept; otherwise only the listed moves are allowed.
  Along any chain of allowed moves a payout that is failed, reversed or cancelled stays so, a paid
  one can only be reversed, and no payout becomes initiated again.
\<close>

theorem payout_machine:
  "(CanTransitionTo p next = None \<longleftrightarrow> payout_move (pay_Status p) next) \<and>
   (payout_move\<^sup>*\<^sup>* st PayoutInitiated \<longleftrightarrow> st = PayoutInitiated) \<and>
   (payout_move\<^sup>*\<^sup>* PayoutPaid st \<longleftrightarrow> st = PayoutPaid \<or> st = PayoutReversed) \<and>
   (payout_move\<^sup>*\<^sup>* PayoutFailed st \<longleftrightarrow> st = PayoutFailed) \<and>
   (payout_move\<^sup>*\<^sup>* PayoutReversed st \<longleftrightarrow> st = PayoutReversed) \<and>
   (payout_move\<^sup>*\<^sup>* PayoutCancelled st \<longleftrightarrow> st = PayoutCancelled)"
proof (intro conjI)
  show "CanTransitionTo p next = None \<longleftrightarrow> payout_move (pay_Status p) next"
    by (rule CanTransitionTo_None)
  have "payout_move PayoutPaid PayoutReversed" by (simp add: payout_move_def)
  then show "payout_move\<^sup>*\<^sup>* PayoutPaid st \<longleftrightarrow> st = PayoutPaid \<or> st = PayoutReversed"
    using payout_move_chain [of PayoutPaid st] by auto
qed (use payout_move_chain in \<open>fastforce\<close>)+

end
