(* ===== verification/SettleStore.thy ===== *)
theory SettleStore
  imports Settlement Effects
begin

text \<open>
  The settlement repository
  (\<open>internal/settlement/infrastructure/persistence/sql/settlement_repository.go\<close>) on its tables:
  each table is the list of its rows in insertion (rowid) order, each method the action of its
  statements, in their order. Uniqueness and CHECK constraints of \<open>db/schema.sql\<close> that the code
  meets are part of the statements; any other way a call can fail is a failure of the environment.
  The engine is SQLite, whose \<open>SUM\<close> is an argument.
\<close>

section \<open>Tables\<close>

record SettlementRow = Settlement +
  row_Deductions :: float64

record ProviderEvent =
  ev_ID :: gostring
  ev_TenantID :: gostring
  Provider :: gostring
  ProviderEventID :: gostring
  ev_EventType :: gostring
  ev_Payload :: gostring
  ProcessedAt :: gotime

record AccountRow =
  acc_ID :: gostring
  acc_TenantID :: gostring
  acc_DriverID :: gostring
  IsPrimary :: bool
  acc_VerificationStatus :: gostring
  acc_HoldPayouts :: bool

record DriverRow =
  drv_TenantID :: gostring
  drv_ID :: gostring
  BankDetails :: "gostring option"

record settle_db =
  settlements :: "SettlementRow list"
  ledger :: "LedgerEntry list"
  payouts :: "PayoutInstruction list"
  provider_events :: "ProviderEvent list"
  payout_accounts :: "AccountRow list"
  driver_rows :: "DriverRow list"
  settlement_lines :: "gostring list"

type_synonym 'a sact = "(settle_db, 'a) act"

section \<open>Settlements\<close>

text \<open>\<open>CHECK (status IN ('pending', 'processing', 'paid', 'disputed'))\<close> of \<open>driver_settlements\<close>.\<close>

definition settlement_status_ok :: "gostring \<Rightarrow> bool" where
  "settlement_status_ok s \<longleftrightarrow> s \<in> {''pending'', ''processing'', ''paid'', ''disputed''}"

definition insert_settlement :: "SettlementRow \<Rightarrow> settle_db \<Rightarrow> goerr + settle_db" where
  "insert_settlement r d =
     (if \<not> settlement_status_ok (set_Status r)
        then Inl (ErrMsg ''CHECK constraint failed: driver_settlements'')
      else if \<exists>x \<in> set (settlements d). set_ID x = set_ID r
        then Inl (ErrMsg ''UNIQUE constraint failed: driver_settlements.id'')
      else if \<exists>x \<in> set (settlements d). set_TripID x = set_TripID r
        then Inl (ErrMsg ''UNIQUE constraint failed: driver_settlements.trip_id'')
      else Inr (d\<lparr>settlements := settlements d @ [r]\<rparr>))"

definition createSettlementTx :: "env \<Rightarrow> gostring \<Rightarrow> Settlement \<Rightarrow> unit sact" where
  "createSettlementTx e tenantID s =
     andThen (query e (\<lambda>d. length (filter (\<lambda>x. set_TenantID x = tenantID \<and> set_TripID x = set_TripID s)
                                          (settlements d))))
       (\<lambda>count.
          if count > 0 then fail (ErrMsg (''settlement already exists for trip '' @ set_TripID s))
          else
            (let deductions = CommissionAmount s + AdvanceDeductions s + TDSAmount s - TollAdjustment s
             in wrap ''failed inserting driver settlement: ''
                  (exec_stmt e (insert_settlement
                     (Settlement.Settlement.extend (s\<lparr>set_TenantID := tenantID\<rparr>)
                        (SettlementRow.fields deductions))))))"

definition CreateSettlement :: "env \<Rightarrow> bool \<Rightarrow> gostring \<Rightarrow> Settlement \<Rightarrow> unit sact" where
  "CreateSettlement e tx tenantID s =
     (if tx then createSettlementTx e tenantID s
      else with_tx e False (\<lambda>_. createSettlementTx e tenantID s))"

definition GetSettlementByTripID :: "env \<Rightarrow> gostring \<Rightarrow> gostring \<Rightarrow> Settlement option sact" where
  "GetSettlementByTripID e tenantID tripID =
     query e (\<lambda>d. map_option Settlement.Settlement.truncate
       (find (\<lambda>x. set_TenantID x = tenantID \<and> set_TripID x = tripID) (settlements d)))"

definition ApproveSettlement :: "env \<Rightarrow> gostring \<Rightarrow> gostring \<Rightarrow> unit sact" where
  "ApproveSettlement e tenantID settlementID =
     andThen (clock e) (\<lambda>now.
       exec_stmt e (\<lambda>d.
         let hit = (\<lambda>x. set_TenantID x = tenantID \<and> set_ID x = settlementID) in
         if (\<exists>x \<in> set (settlements d). hit x) \<and> \<not> settlement_status_ok ''approved''
         then Inl (ErrMsg ''CHECK constraint failed: driver_settlements'')
         else Inr (d\<lparr>settlements := map (\<lambda>x. if hit x then x\<lparr>set_Status := ''approved'', set_UpdatedAt := now\<rparr>
                                            else x) (settlements d)\<rparr>)))"

section \<open>The ledger\<close>

text \<open>\<open>ORDER BY created_at DESC, rowid DESC\<close>.\<close>

definition latest_first :: "LedgerEntry list \<Rightarrow> LedgerEntry list" where
  "latest_first rs = rev (sort_key led_CreatedAt rs)"

definition entries_of :: "gostring \<Rightarrow> gostring \<Rightarrow> settle_db \<Rightarrow> LedgerEntry list" where
  "entries_of tenantID driverID d =
     filter (\<lambda>r. led_TenantID r = tenantID \<and> led_DriverID r = driverID) (ledger d)"

text \<open>The balance query with its default 0 where there is no row.\<close>

definition ledger_balance :: "gostring \<Rightarrow> gostring \<Rightarrow> settle_db \<Rightarrow> float64" where
  "ledger_balance tenantID driverID d =
     (case latest_first (entries_of tenantID driverID d) of [] \<Rightarrow> Fin 0 | r # _ \<Rightarrow> BalanceAfter r)"

definition insert_ledger :: "LedgerEntry \<Rightarrow> settle_db \<Rightarrow> goerr + settle_db" where
  "insert_ledger r d =
     (if \<exists>x \<in> set (ledger d). led_ID x = led_ID r
      then Inl (ErrMsg ''UNIQUE constraint failed: driver_ledger_entries.id'')
      else Inr (d\<lparr>ledger := ledger d @ [r]\<rparr>))"

definition appendLedgerEntryTx :: "env \<Rightarrow> gostring \<Rightarrow> LedgerEntry \<Rightarrow> unit sact" where
  "appendLedgerEntryTx e tenantID entry =
     andThen (query e (ledger_balance tenantID (led_DriverID entry))) (\<lambda>currentBalance.
       let entry1 = entry\<lparr>BalanceAfter :=
             fdiv (math_Round ((currentBalance + led_Amount entry) * F 100)) (F 100)\<rparr> in
       andThen (if IsZero (led_CreatedAt entry1)
                then andThen (clock e) (\<lambda>now. ret (entry1\<lparr>led_CreatedAt := now\<rparr>))
                else ret entry1)
         (\<lambda>entry2. wrap ''failed writing ledger entry: ''
            (exec_stmt e (insert_ledger (entry2\<lparr>led_TenantID := tenantID\<rparr>)))))"

definition AppendLedgerEntry :: "env \<Rightarrow> bool \<Rightarrow> gostring \<Rightarrow> LedgerEntry \<Rightarrow> unit sact" where
  "AppendLedgerEntry e tx tenantID entry =
     (if tx then appendLedgerEntryTx e tenantID entry
      else with_tx e False (\<lambda>_. appendLedgerEntryTx e tenantID entry))"

definition ListLedgerEntryTypes :: "env \<Rightarrow> gostring \<Rightarrow> gostring \<Rightarrow> gostring \<Rightarrow> EntryType list sact" where
  "ListLedgerEntryTypes e tenantID referenceType referenceID =
     query e (\<lambda>d. remdups (map EntryType (filter (\<lambda>r. led_TenantID r = tenantID
       \<and> ReferenceType r = referenceType \<and> ReferenceID r = referenceID) (ledger d))))"

definition has_entry :: "gostring \<Rightarrow> gostring \<Rightarrow> gostring \<Rightarrow> settle_db \<Rightarrow> bool" where
  "has_entry tenantID referenceType referenceID d \<longleftrightarrow>
     length (filter (\<lambda>r. led_TenantID r = tenantID \<and> ReferenceType r = referenceType
                         \<and> ReferenceID r = referenceID) (ledger d)) > 0"

definition HasCompensatingLedgerEntry :: "env \<Rightarrow> gostring \<Rightarrow> gostring \<Rightarrow> gostring \<Rightarrow> bool sact" where
  "HasCompensatingLedgerEntry e tenantID referenceType referenceID =
     query e (has_entry tenantID referenceType referenceID)"

definition GetDriverBalance :: "env \<Rightarrow> gostring \<Rightarrow> gostring \<Rightarrow> float64 sact" where
  "GetDriverBalance e tenantID driverID = query e (ledger_balance tenantID driverID)"

definition GetRecentLedgerEntries :: "env \<Rightarrow> gostring \<Rightarrow> gostring \<Rightarrow> int \<Rightarrow> LedgerEntry list sact" where
  "GetRecentLedgerEntries e tenantID driverID limit0 =
     (let limit = (if limit0 \<le> 0 then 20 else limit0) in
      query e (\<lambda>d. take (nat limit) (latest_first (entries_of tenantID driverID d))))"

text \<open>A sum whose error the code drops: the zero of an unset \<open>sql.NullFloat64\<close>.\<close>

definition sum_or_zero :: "env \<Rightarrow> (float64 list \<Rightarrow> float64 option) \<Rightarrow> (settle_db \<Rightarrow> float64 list) \<Rightarrow> float64 sact" where
  "sum_or_zero e sql_sum f =
     andThen (attempt (query e (\<lambda>d. sql_sum (f d))))
       (\<lambda>r. ret (case r of Inr (Some x) \<Rightarrow> x | _ \<Rightarrow> Fin 0))"

definition GetDriverWallet ::
  "env \<Rightarrow> (float64 list \<Rightarrow> float64 option) \<Rightarrow> gostring \<Rightarrow> gostring \<Rightarrow> DriverWallet sact" where
  "GetDriverWallet e sql_sum tenantID driverID =
     andThen (GetDriverBalance e tenantID driverID) (\<lambda>available.
     andThen (sum_or_zero e sql_sum (\<lambda>d. map NetPayout (filter (\<lambda>s. set_TenantID s = tenantID
         \<and> set_DriverID s = driverID \<and> set_Status s = ''calculated'') (settlements d)))) (\<lambda>pending.
     andThen (sum_or_zero e sql_sum (\<lambda>d. map pay_Amount (filter (\<lambda>p. pay_TenantID p = tenantID
         \<and> pay_DriverID p = driverID \<and> pay_Status p = PayoutPaid) (payouts d)))) (\<lambda>paid.
     andThen (sum_or_zero e sql_sum (\<lambda>d. map pay_Amount (filter (\<lambda>p. pay_TenantID p = tenantID
         \<and> pay_DriverID p = driverID \<and> pay_Status p \<in> {PayoutInitiated, PayoutProcessing})
         (payouts d)))) (\<lambda>held.
     andThen (attempt (GetRecentLedgerEntries e tenantID driverID 20)) (\<lambda>entries.
     andThen (clock e) (\<lambda>now.
       ret \<lparr>wal_DriverID = driverID, AvailableBalance = available, PendingBalance = pending,
            PaidBalance = paid, HeldBalance = held, wal_Currency = ''INR'',
            RecentEntries = (case entries of Inr es \<Rightarrow> es | Inl _ \<Rightarrow> []), wal_UpdatedAt = now\<rparr>))))))"

section \<open>Payouts\<close>

text \<open>On SQLite the lock is an update of the driver's row that changes nothing.\<close>

definition LockDriverPayout :: "env \<Rightarrow> gostring \<Rightarrow> gostring \<Rightarrow> unit sact" where
  "LockDriverPayout e tenantID driverID = exec_stmt e (\<lambda>d. Inr d)"

definition insert_payout :: "PayoutInstruction \<Rightarrow> settle_db \<Rightarrow> goerr + settle_db" where
  "insert_payout p d =
     (if \<exists>x \<in> set (payouts d). pay_ID x = pay_ID p
        then Inl (ErrMsg ''UNIQUE constraint failed: payout_instructions.id'')
      else if \<exists>x \<in> set (payouts d). pay_TenantID x = pay_TenantID p \<and> IdempotencyKey x = IdempotencyKey p
        then Inl (ErrMsg (''UNIQUE constraint failed: payout_instructions.tenant_id, ''
                          @ ''payout_instructions.idempotency_key''))
      else Inr (d\<lparr>payouts := payouts d @ [p]\<rparr>))"

definition CreatePayoutInstruction :: "env \<Rightarrow> gostring \<Rightarrow> PayoutInstruction \<Rightarrow> unit sact" where
  "CreatePayoutInstruction e tenantID p = exec_stmt e (insert_payout (p\<lparr>pay_TenantID := tenantID\<rparr>))"

definition payout_by_key :: "gostring \<Rightarrow> gostring \<Rightarrow> settle_db \<Rightarrow> PayoutInstruction option" where
  "payout_by_key tenantID key d =
     find (\<lambda>p. pay_TenantID p = tenantID \<and> IdempotencyKey p = key) (payouts d)"

definition GetPayoutByIdempotencyKey :: "env \<Rightarrow> gostring \<Rightarrow> gostring \<Rightarrow> PayoutInstruction option sact" where
  "GetPayoutByIdempotencyKey e tenantID key = query e (payout_by_key tenantID key)"

definition GetPayoutByID :: "env \<Rightarrow> gostring \<Rightarrow> gostring \<Rightarrow> PayoutInstruction sact" where
  "GetPayoutByID e tenantID payoutID =
     andThen (query e (\<lambda>d. find (\<lambda>p. pay_TenantID p = tenantID \<and> pay_ID p = payoutID) (payouts d)))
       (\<lambda>r. case r of None \<Rightarrow> fail (ErrMsg ''payout instruction not found'') | Some p \<Rightarrow> ret p)"

definition GetPayoutByIDGlobal :: "env \<Rightarrow> gostring \<Rightarrow> PayoutInstruction sact" where
  "GetPayoutByIDGlobal e payoutID =
     andThen (query e (\<lambda>d. find (\<lambda>p. pay_ID p = payoutID) (payouts d)))
       (\<lambda>r. case r of None \<Rightarrow> fail (ErrMsg ''payout instruction not found'') | Some p \<Rightarrow> ret p)"

fun coalesce :: "'a option \<Rightarrow> 'a option \<Rightarrow> 'a option" where
  "coalesce (Some x) y = Some x"
| "coalesce None y = y"

definition update_payout ::
  "gostring \<Rightarrow> gostring \<Rightarrow> PayoutStatus \<Rightarrow> gostring option \<Rightarrow> gostring option \<Rightarrow> gostring option
    \<Rightarrow> gotime option \<Rightarrow> gotime \<Rightarrow> settle_db \<Rightarrow> settle_db" where
  "update_payout tenantID payoutID status prov utr reason completedAt now d =
     d\<lparr>payouts := map (\<lambda>p. if pay_TenantID p = tenantID \<and> pay_ID p = payoutID
         then p\<lparr>pay_Status := status, ProviderPayoutID := coalesce prov (ProviderPayoutID p),
                UTR := coalesce utr (UTR p), FailureReason := coalesce reason (FailureReason p),
                CompletedAt := coalesce completedAt (CompletedAt p), pay_UpdatedAt := now\<rparr>
         else p) (payouts d)\<rparr>"

definition UpdatePayoutStatus ::
  "env \<Rightarrow> gostring \<Rightarrow> gostring \<Rightarrow> PayoutStatus \<Rightarrow> gostring option \<Rightarrow> gostring option
    \<Rightarrow> gostring option \<Rightarrow> unit sact" where
  "UpdatePayoutStatus e tenantID payoutID status providerPayoutID utr failureReason =
     andThen (clock e) (\<lambda>now.
       let completedAt = (if status = PayoutPaid \<or> status = PayoutFailed \<or> status = PayoutReversed
                          then Some now else None)
       in exec_stmt e (\<lambda>d. Inr (update_payout tenantID payoutID status providerPayoutID utr
                                 failureReason completedAt now d)))"

definition insert_event :: "ProviderEvent \<Rightarrow> settle_db \<Rightarrow> goerr + settle_db" where
  "insert_event v d =
     (if \<exists>x \<in> set (provider_events d). ev_ID x = ev_ID v
        then Inl (ErrMsg ''UNIQUE constraint failed: provider_events.id'')
      else if \<exists>x \<in> set (provider_events d). Provider x = Provider v \<and> ProviderEventID x = ProviderEventID v
        then Inl (ErrMsg (''UNIQUE constraint failed: provider_events.provider, ''
                          @ ''provider_events.provider_event_id''))
      else Inr (d\<lparr>provider_events := provider_events d @ [v]\<rparr>))"

definition RecordProviderEvent ::
  "env \<Rightarrow> gostring \<Rightarrow> gostring \<Rightarrow> gostring \<Rightarrow> gostring \<Rightarrow> gostring \<Rightarrow> unit sact" where
  "RecordProviderEvent e tenantID provider eventID eventType payload =
     andThen (clock e) (\<lambda>now.
       exec_stmt e (insert_event \<lparr>ev_ID = ''pe_'' @ eventID, ev_TenantID = tenantID, Provider = provider,
         ProviderEventID = eventID, ev_EventType = eventType, ev_Payload = payload,
         ProcessedAt = now\<rparr>))"

definition event_recorded :: "gostring \<Rightarrow> gostring \<Rightarrow> settle_db \<Rightarrow> bool" where
  "event_recorded provider eventID d \<longleftrightarrow>
     length (filter (\<lambda>x. Provider x = provider \<and> ProviderEventID x = eventID) (provider_events d)) > 0"

definition IsProviderEventProcessed :: "env \<Rightarrow> gostring \<Rightarrow> gostring \<Rightarrow> bool sact" where
  "IsProviderEventProcessed e provider eventID = query e (event_recorded provider eventID)"

definition IsDriverPayoutAccountVerified :: "env \<Rightarrow> gostring \<Rightarrow> gostring \<Rightarrow> (bool \<times> gostring) sact" where
  "IsDriverPayoutAccountVerified e tenantID driverID =
     andThen (query e (\<lambda>d. find (\<lambda>a. acc_TenantID a = tenantID \<and> acc_DriverID a = driverID
                                     \<and> IsPrimary a) (payout_accounts d)))
       (\<lambda>r. case r of
          Some a \<Rightarrow> ret (acc_VerificationStatus a = ''verified'', acc_ID a)
        | None \<Rightarrow>
            andThen (attempt (query e (\<lambda>d. case find (\<lambda>v. drv_TenantID v = tenantID \<and> drv_ID v = driverID)
                                              (driver_rows d) of
                                         None \<Rightarrow> None | Some v \<Rightarrow> BankDetails v)))
              (\<lambda>bank. case bank of
                 Inr (Some s) \<Rightarrow> if length s > 5 then ret (True, ''legacy_account'') else ret (False, '''')
               | _ \<Rightarrow> ret (False, '''')))"

definition HasLegacySettlementLines :: "env \<Rightarrow> gostring \<Rightarrow> bool sact" where
  "HasLegacySettlementLines e tripID =
     (if tripID = '''' then ret False
      else query e (\<lambda>d. length (filter (\<lambda>t. t = tripID) (settlement_lines d)) > 0))"

end
