(* ===== verification/SettleService.thy ===== *)
theory SettleService
  imports SettleStore
begin

text \<open>
  The settlement service (\<open>internal/settlement/application/settlement_service.go\<close>) over the
  repository: creation of a trip's settlement with its ledger entries, the repair of ledgers left
  partial by a crash, payouts, and the reconciliation of the payment provider's callbacks. What the
  service takes from outside the repository is the record \<open>externals\<close>: the engine's \<open>SUM\<close>, the
  hexadecimal HMAC-SHA256 of a body under a secret, and the JSON decoder of callbacks. Log lines
  are left out.
\<close>

section \<open>Formatting\<close>

text \<open>\<open>%.{k}f\<close>: the exact value rounded to \<open>k\<close> decimals, ties to even.\<close>

definition pad_zeros :: "nat \<Rightarrow> gostring \<Rightarrow> gostring" where
  "pad_zeros k s = replicate (k - length s) CHR ''0'' @ s"

fun fmt_f :: "nat \<Rightarrow> float64 \<Rightarrow> gostring" where
  "fmt_f k NaN = ''NaN''"
| "fmt_f k (Inf s) = (if s then ''-Inf'' else ''+Inf'')"
| "fmt_f k (Fin q) =
     (let n = nat (rhe (\<bar>q\<bar> * 10 ^ k)) in
      (if q < 0 then ''-'' else '''') @ nat_text (n div 10 ^ k)
        @ (if k = 0 then '''' else CHR ''.'' # pad_zeros k (nat_text (n mod 10 ^ k))))"

definition lower_ascii :: "gostring \<Rightarrow> gostring" where
  "lower_ascii = map (\<lambda>c. if 65 \<le> (of_char c :: nat) \<and> (of_char c :: nat) \<le> 90
                          then char_of ((of_char c :: nat) + 32) else c)"

text \<open>\<open>strings.EqualFold\<close>, on ASCII letters.\<close>

definition EqualFold :: "gostring \<Rightarrow> gostring \<Rightarrow> bool" where
  "EqualFold s t \<longleftrightarrow> lower_ascii s = lower_ascii t"

fun payout_status_text :: "PayoutStatus \<Rightarrow> gostring" where
  "payout_status_text PayoutInitiated = ''initiated''"
| "payout_status_text PayoutProcessing = ''processing''"
| "payout_status_text PayoutPaid = ''paid''"
| "payout_status_text PayoutFailed = ''failed''"
| "payout_status_text PayoutReversed = ''reversed''"
| "payout_status_text PayoutCancelled = ''cancelled''"
| "payout_status_text (OtherPayoutStatus s) = s"

fun payout_error_text :: "payout_error \<Rightarrow> gostring" where
  "payout_error_text AccountUnverified =
     ''payout bank account is unverified; KYC/bank verification required''"
| "payout_error_text AmountNotPositive = ''payout amount must be greater than zero''"
| "payout_error_text BelowMinimum = ''payout amount is below minimum disbursement threshold''"
| "payout_error_text InsufficientBalance = ''insufficient available balance for requested payout''"
| "payout_error_text (TerminalTransition st next) =
     ''illegal status transition: cannot transition terminal payout status ''
     @ payout_status_text st @ '' to '' @ payout_status_text next"
| "payout_error_text (IllegalTransition st next) =
     ''illegal status transition from '' @ payout_status_text st @ '' to '' @ payout_status_text next"

section \<open>The service and its requests\<close>

record RazorpayEntity =
  ent_ID :: gostring
  ent_Amount :: float64
  ent_Currency :: gostring
  ent_Status :: gostring
  ent_UTR :: gostring
  ent_Reference :: gostring
  ent_ErrorDesc :: gostring

record RazorpayWebhookPayload =
  Event :: gostring
  payload_Entity :: RazorpayEntity

record externals =
  sql_sum :: "float64 list \<Rightarrow> float64 option"
  hmac_sha256_hex :: "gostring \<Rightarrow> gostring \<Rightarrow> gostring"
  unmarshal_webhook :: "gostring \<Rightarrow> goerr + RazorpayWebhookPayload"

record SettlementAppService =
  webhookSecret :: gostring
  minPayoutLimit :: float64

definition NewSettlementAppService :: "gostring \<Rightarrow> float64 \<Rightarrow> SettlementAppService" where
  "NewSettlementAppService secret limit =
     \<lparr>webhookSecret = secret, minPayoutLimit = (if limit \<le> Fin 0 then F 100 else limit)\<rparr>"

record CalculateSettlementRequest =
  req_TripID :: gostring
  req_DriverID :: gostring
  req_GrossFare :: float64
  req_TollAdjustment :: float64
  req_AdvanceDeductions :: float64
  req_CommissionRate :: float64
  req_TDSRate :: float64

section \<open>Settlement and its ledger entries\<close>

record ledgerAmounts =
  driverID :: gostring
  tripID :: gostring
  settlementID :: gostring
  gross :: float64
  commission :: float64
  commissionRate :: float64
  toll :: float64
  advance :: float64
  tds :: float64
  tdsRate :: float64

definition expectedEntryTypes :: "ledgerAmounts \<Rightarrow> EntryType list" where
  "expectedEntryTypes a =
     (if Fin 0 < gross a then [EntryTripEarning] else [])
   @ (if Fin 0 < commission a then [EntryCommission] else [])
   @ (if Fin 0 < toll a then [EntryTollAdjustment] else [])
   @ (if Fin 0 < advance a then [EntryAdvanceDeduction] else [])
   @ (if Fin 0 < tds a then [EntryPenalty] else [])"

definition settlement_entry ::
  "ledgerAmounts \<Rightarrow> gostring \<Rightarrow> gostring \<Rightarrow> EntryType \<Rightarrow> float64 \<Rightarrow> gostring \<Rightarrow> LedgerEntry" where
  "settlement_entry a tenantID uuid typ amount desc =
     \<lparr>led_ID = ''led_'' @ uuid, led_TenantID = tenantID, led_DriverID = driverID a,
      led_TripID = Some (tripID a), EntryType = typ, led_Amount = amount, led_Currency = ''INR'',
      ReferenceType = ''settlement'', ReferenceID = settlementID a, BalanceAfter = Fin 0,
      led_Description = desc, led_CreatedAt = 0\<rparr>"

definition appendOne ::
  "env \<Rightarrow> bool \<Rightarrow> gostring \<Rightarrow> ledgerAmounts \<Rightarrow> (EntryType \<Rightarrow> bool) \<Rightarrow> EntryType \<Rightarrow> float64
    \<Rightarrow> gostring \<Rightarrow> unit sact" where
  "appendOne e tx tenantID a stored typ amount desc =
     (if stored typ then ret ()
      else andThen (new_uuid e) (\<lambda>uuid.
             wrap ''append settlement ledger entry: ''
               (AppendLedgerEntry e tx tenantID (settlement_entry a tenantID uuid typ amount desc))))"

definition appendSettlementLedger ::
  "env \<Rightarrow> bool \<Rightarrow> gostring \<Rightarrow> ledgerAmounts \<Rightarrow> (EntryType \<Rightarrow> bool) \<Rightarrow> unit sact" where
  "appendSettlementLedger e tx tenantID a stored =
     andThen (if Fin 0 < gross a
              then appendOne e tx tenantID a stored EntryTripEarning (gross a)
                     (''Trip '' @ tripID a @ '' gross fare'')
              else ret ()) (\<lambda>_.
     andThen (if Fin 0 < commission a
              then appendOne e tx tenantID a stored EntryCommission (- commission a)
                     (''Platform commission ('' @ fmt_f 1 (commissionRate a * F 100) @ ''%)'')
              else ret ()) (\<lambda>_.
     andThen (if Fin 0 < toll a
              then appendOne e tx tenantID a stored EntryTollAdjustment (toll a)
                     ''FASTag / Toll reimbursement''
              else ret ()) (\<lambda>_.
     andThen (if Fin 0 < advance a
              then appendOne e tx tenantID a stored EntryAdvanceDeduction (- advance a)
                     ''Fuel / Cash advance deduction''
              else ret ()) (\<lambda>_.
     if Fin 0 < tds a
     then appendOne e tx tenantID a stored EntryPenalty (- tds a)
            (''TDS deduction (Sec 194C '' @ fmt_f 1 (tdsRate a * F 100) @ ''%)'')
     else ret ()))))"

definition warnIfLegacySettlement :: "env \<Rightarrow> gostring \<Rightarrow> unit sact" where
  "warnIfLegacySettlement e trip = andThen (attempt (HasLegacySettlementLines e trip)) (\<lambda>_. ret ())"

definition amounts_of :: "Settlement \<Rightarrow> ledgerAmounts" where
  "amounts_of s =
     \<lparr>driverID = set_DriverID s, tripID = set_TripID s, settlementID = set_ID s,
      gross = GrossFare s, commission = CommissionAmount s, commissionRate = CommissionRate s,
      toll = TollAdjustment s, advance = AdvanceDeductions s, tds = TDSAmount s, tdsRate = TDSRate s\<rparr>"

definition backfillOwnLedger :: "env \<Rightarrow> gostring \<Rightarrow> Settlement \<Rightarrow> unit sact" where
  "backfillOwnLedger e tenantID existing =
     (if \<not> prefix ''set_'' (set_ID existing) then ret ()
      else andThen (attempt (HasLegacySettlementLines e (set_TripID existing))) (\<lambda>legacy.
        if legacy = Inr True then ret ()
        else andThen (attempt (ListLedgerEntryTypes e tenantID ''settlement'' (set_ID existing))) (\<lambda>listed.
          case listed of
            Inl _ \<Rightarrow> ret ()
          | Inr types \<Rightarrow>
              (let stored = (\<lambda>t. t \<in> set types) in
               if list_all stored (expectedEntryTypes (amounts_of existing)) then ret ()
               else andThen (attempt (appendSettlementLedger e False tenantID (amounts_of existing) stored))
                      (\<lambda>_. ret ())))))"

definition CalculateAndCreateSettlement ::
  "env \<Rightarrow> gostring \<Rightarrow> CalculateSettlementRequest \<Rightarrow> Settlement sact" where
  "CalculateAndCreateSettlement e tenantID req =
     (if tenantID = '''' \<or> req_TripID req = '''' \<or> req_DriverID req = ''''
      then fail (ErrMsg ''tenant_id, trip_id, and driver_id are required'')
      else
        andThen (warnIfLegacySettlement e (req_TripID req)) (\<lambda>_.
        andThen (attempt (GetSettlementByTripID e tenantID (req_TripID req))) (\<lambda>found.
          case found of
            Inr (Some existing) \<Rightarrow> andThen (backfillOwnLedger e tenantID existing) (\<lambda>_. ret existing)
          | _ \<Rightarrow>
              andThen (new_uuid e) (\<lambda>uuid.
              andThen (clock e) (\<lambda>now.
                let settlement = CalculateSettlement now (''set_'' @ uuid) tenantID (req_TripID req)
                      (req_DriverID req) (req_GrossFare req) (req_TollAdjustment req)
                      (req_AdvanceDeductions req) (req_CommissionRate req) (req_TDSRate req)
                in with_tx e False (\<lambda>tx.
                     andThen (attempt (CreateSettlement e tx tenantID settlement)) (\<lambda>created.
                       case created of
                         Inl err \<Rightarrow>
                           andThen (attempt (GetSettlementByTripID e tenantID (req_TripID req))) (\<lambda>again.
                             case again of
                               Inr (Some existing) \<Rightarrow> ret existing
                             | _ \<Rightarrow> fail (ErrWrap ''failed creating settlement: '' err))
                       | Inr _ \<Rightarrow>
                           andThen (appendSettlementLedger e tx tenantID (amounts_of settlement) (\<lambda>_. False))
                             (\<lambda>_. ret settlement))))))))"

section \<open>Wallet and payouts\<close>

definition ServiceGetDriverWallet :: "env \<Rightarrow> externals \<Rightarrow> gostring \<Rightarrow> gostring \<Rightarrow> DriverWallet sact" where
  "ServiceGetDriverWallet e x tenantID driver =
     (if tenantID = '''' \<or> driver = '''' then fail (ErrMsg ''tenant_id and driver_id are required'')
      else GetDriverWallet e (sql_sum x) tenantID driver)"

record InitiatePayoutRequest =
  ipr_IdempotencyKey :: gostring
  ipr_Amount :: float64

record PayoutResponse =
  resp_PayoutID :: gostring
  resp_DriverID :: gostring
  resp_Amount :: float64
  resp_Status :: PayoutStatus
  resp_IdempotencyKey :: gostring
  IsDuplicate :: bool

definition duplicateOf :: "PayoutInstruction \<Rightarrow> PayoutResponse" where
  "duplicateOf p = \<lparr>resp_PayoutID = pay_ID p, resp_DriverID = pay_DriverID p,
     resp_Amount = pay_Amount p, resp_Status = pay_Status p,
     resp_IdempotencyKey = IdempotencyKey p, IsDuplicate = True\<rparr>"

abbreviation errPayoutKeyConflict :: gostring where
  "errPayoutKeyConflict \<equiv> ''payout idempotency key conflict''"

definition isUniqueConflict :: "goerr \<Rightarrow> bool" where
  "isUniqueConflict err \<longleftrightarrow>
     sublist ''UNIQUE constraint failed'' (err_text err)
   \<or> sublist ''duplicate key value violates unique constraint'' (err_text err)"

definition payout_entry :: "gostring \<Rightarrow> gostring \<Rightarrow> gostring \<Rightarrow> gostring \<Rightarrow> float64 \<Rightarrow> LedgerEntry" where
  "payout_entry uuid tenantID driver payoutID amount =
     \<lparr>led_ID = ''led_'' @ uuid, led_TenantID = tenantID, led_DriverID = driver, led_TripID = None,
      EntryType = EntryPayout, led_Amount = - amount, led_Currency = ''INR'',
      ReferenceType = ''payout'', ReferenceID = payoutID, BalanceAfter = Fin 0,
      led_Description = ''Disbursement payout '' @ payoutID @ '' initiated'', led_CreatedAt = 0\<rparr>"

text \<open>The instruction and the debit, once the checks have passed.\<close>

definition disburse ::
  "env \<Rightarrow> bool \<Rightarrow> gostring \<Rightarrow> gostring \<Rightarrow> gostring \<Rightarrow> InitiatePayoutRequest \<Rightarrow> PayoutResponse sact" where
  "disburse e tx tenantID driver accountID req =
     andThen (new_uuid e) (\<lambda>uuid.
     andThen (clock e) (\<lambda>initiatedAt.
     andThen (clock e) (\<lambda>createdAt.
     andThen (clock e) (\<lambda>updatedAt.
       let payoutID = ''pout_'' @ uuid;
           payout = \<lparr>pay_ID = payoutID, pay_TenantID = tenantID, pay_DriverID = driver,
             PayoutAccountID = accountID, pay_Amount = ipr_Amount req, pay_Currency = ''INR'',
             IdempotencyKey = ipr_IdempotencyKey req, ProviderPayoutID = None,
             pay_Status = PayoutInitiated, FailureReason = None, UTR = None,
             InitiatedAt = initiatedAt, CompletedAt = None, pay_CreatedAt = createdAt,
             pay_UpdatedAt = updatedAt\<rparr>
       in andThen (attempt (CreatePayoutInstruction e tenantID payout)) (\<lambda>created.
            case created of
              Inl err \<Rightarrow>
                if isUniqueConflict err then fail (ErrSentinel errPayoutKeyConflict)
                else fail (ErrWrap ''failed creating payout instruction: '' err)
            | Inr _ \<Rightarrow>
                andThen (new_uuid e) (\<lambda>ledUuid.
                andThen (wrap ''append payout ledger entry: ''
                   (AppendLedgerEntry e tx tenantID
                      (payout_entry ledUuid tenantID driver payoutID (ipr_Amount req)))) (\<lambda>_.
                  ret \<lparr>resp_PayoutID = pay_ID payout, resp_DriverID = driver,
                       resp_Amount = pay_Amount payout, resp_Status = pay_Status payout,
                       resp_IdempotencyKey = IdempotencyKey payout, IsDuplicate = False\<rparr>)))))))"

text \<open>The account and balance checks, then the payout.\<close>

definition payout_checked ::
  "env \<Rightarrow> externals \<Rightarrow> SettlementAppService \<Rightarrow> gostring \<Rightarrow> gostring \<Rightarrow> InitiatePayoutRequest \<Rightarrow> bool
    \<Rightarrow> PayoutResponse sact" where
  "payout_checked e x s tenantID driver req tx =
     andThen (attempt (IsDriverPayoutAccountVerified e tenantID driver)) (\<lambda>account.
       case account of
         Inr (True, accountID) \<Rightarrow>
           andThen (GetDriverWallet e (sql_sum x) tenantID driver) (\<lambda>wallet.
             case ValidatePayoutEligibility (AvailableBalance wallet) (ipr_Amount req) True
                    (minPayoutLimit s) of
               Some err \<Rightarrow> fail (ErrMsg (payout_error_text err))
             | None \<Rightarrow> disburse e tx tenantID driver accountID req)
       | _ \<Rightarrow> fail (ErrMsg
           ''unverified bank account: driver must have an active verified payout account''))"

definition payout_tx ::
  "env \<Rightarrow> externals \<Rightarrow> SettlementAppService \<Rightarrow> gostring \<Rightarrow> gostring \<Rightarrow> InitiatePayoutRequest \<Rightarrow> bool
    \<Rightarrow> PayoutResponse sact" where
  "payout_tx e x s tenantID driver req tx =
     andThen (LockDriverPayout e tenantID driver) (\<lambda>_.
     andThen (attempt (GetPayoutByIdempotencyKey e tenantID (ipr_IdempotencyKey req))) (\<lambda>found.
       case found of
         Inr (Some existing) \<Rightarrow> ret (duplicateOf existing)
       | _ \<Rightarrow> payout_checked e x s tenantID driver req tx))"

definition InitiatePayout ::
  "env \<Rightarrow> externals \<Rightarrow> SettlementAppService \<Rightarrow> gostring \<Rightarrow> gostring \<Rightarrow> InitiatePayoutRequest
    \<Rightarrow> PayoutResponse sact" where
  "InitiatePayout e x s tenantID driver req =
     (if tenantID = '''' \<or> driver = '''' then fail (ErrMsg ''tenant_id and driver_id are required'')
      else if ipr_IdempotencyKey req = '''' then fail (ErrMsg ''idempotency_key is required'')
      else
        andThen (attempt (GetPayoutByIdempotencyKey e tenantID (ipr_IdempotencyKey req))) (\<lambda>found.
          case found of
            Inr (Some existing) \<Rightarrow> ret (duplicateOf existing)
          | _ \<Rightarrow>
              andThen (attempt (with_tx e False (payout_tx e x s tenantID driver req))) (\<lambda>outcome.
                case outcome of
                  Inr resp \<Rightarrow> ret resp
                | Inl err \<Rightarrow>
                    if errors_Is err errPayoutKeyConflict
                    then andThen (attempt (GetPayoutByIdempotencyKey e tenantID (ipr_IdempotencyKey req)))
                           (\<lambda>again. case again of
                              Inr (Some existing) \<Rightarrow> ret (duplicateOf existing)
                            | _ \<Rightarrow> fail err)
                    else fail err)))"

section \<open>Provider callbacks\<close>

text \<open>The checks of a callback's amount, currency and provider reference against the payout.\<close>

definition gabs :: "float64 \<Rightarrow> float64" where
  "gabs v = (if v < Fin 0 then - v else v)"

definition reconcile_error :: "RazorpayEntity \<Rightarrow> PayoutInstruction \<Rightarrow> goerr option" where
  "reconcile_error ent payout =
     (let amtDiffDirect = gabs (ent_Amount ent - pay_Amount payout);
          amtDiffPaise = gabs (fdiv (ent_Amount ent) (F 100) - pay_Amount payout)
      in if Fin 0 < ent_Amount ent \<and> F (1 / 100) < amtDiffDirect \<and> F (1 / 100) < amtDiffPaise
         then Some (ErrMsg (''financial mismatch: webhook amount '' @ fmt_f 2 (ent_Amount ent)
                @ '' does not match expected payout amount '' @ fmt_f 2 (pay_Amount payout)))
         else if ent_Currency ent \<noteq> '''' \<and> pay_Currency payout \<noteq> ''''
                 \<and> \<not> EqualFold (ent_Currency ent) (pay_Currency payout)
         then Some (ErrMsg (''currency mismatch: webhook currency '' @ ent_Currency ent
                @ '' does not match expected '' @ pay_Currency payout))
         else (case ProviderPayoutID payout of
             None \<Rightarrow> None
           | Some prov \<Rightarrow>
               if prov \<noteq> '''' \<and> ent_ID ent \<noteq> '''' \<and> prov \<noteq> ent_ID ent
               then Some (ErrMsg (''provider payout ID mismatch: expected '' @ prov
                      @ '', got '' @ ent_ID ent))
               else None))"

definition outcome_status :: "RazorpayEntity \<Rightarrow> PayoutStatus" where
  "outcome_status ent =
     (if ent_Status ent = ''processed'' then PayoutPaid
      else if ent_Status ent = ''failed'' then PayoutFailed
      else if ent_Status ent = ''reversed'' then PayoutReversed
      else PayoutProcessing)"

definition non_empty :: "gostring \<Rightarrow> gostring option" where
  "non_empty s = (if s \<noteq> '''' then Some s else None)"

definition reversal_entry :: "gostring \<Rightarrow> gostring \<Rightarrow> PayoutInstruction \<Rightarrow> PayoutStatus \<Rightarrow> LedgerEntry" where
  "reversal_entry uuid tenantID payout newStatus =
     \<lparr>led_ID = ''led_'' @ uuid, led_TenantID = tenantID, led_DriverID = pay_DriverID payout,
      led_TripID = None, EntryType = EntryPayoutReversal, led_Amount = pay_Amount payout,
      led_Currency = pay_Currency payout, ReferenceType = ''payout_reversal'',
      ReferenceID = pay_ID payout, BalanceAfter = Fin 0,
      led_Description = ''Compensating credit for '' @ payout_status_text newStatus @ '' payout ''
                        @ pay_ID payout, led_CreatedAt = 0\<rparr>"

text \<open>The admission of a callback: everything up to the transaction; \<open>None\<close> when it was processed before.\<close>

definition webhook_admit ::
  "env \<Rightarrow> externals \<Rightarrow> SettlementAppService \<Rightarrow> gostring \<Rightarrow> gostring \<Rightarrow> gostring
    \<Rightarrow> (PayoutInstruction \<times> RazorpayWebhookPayload) option sact" where
  "webhook_admit e x s providerEventID signature body =
     (if providerEventID = '''' then fail (ErrMsg ''provider_event_id is required'')
      else if webhookSecret s = '''' then fail (ErrMsg ''webhook secret not configured'')
      else if signature = '''' then fail (ErrMsg ''missing webhook signature: signature is mandatory'')
      else if signature \<noteq> hmac_sha256_hex x (webhookSecret s) body
        then fail (ErrMsg ''invalid webhook signature'')
      else
        andThen (attempt (IsProviderEventProcessed e ''razorpay'' providerEventID)) (\<lambda>processed.
          if processed = Inr True then ret None
          else case unmarshal_webhook x body of
            Inl err \<Rightarrow> fail (ErrWrap ''invalid webhook JSON: '' err)
          | Inr payload \<Rightarrow>
              (let ent = payload_Entity payload in
               if ent_Reference ent = ''''
               then fail (ErrMsg ''missing payout reference_id in webhook payload'')
               else
                 andThen (wrap ''payout lookup error: '' (GetPayoutByIDGlobal e (ent_Reference ent)))
                   (\<lambda>payout. case reconcile_error ent payout of
                      Some err \<Rightarrow> fail err
                    | None \<Rightarrow>
                        (case CanTransitionTo payout (outcome_status ent) of
                           Some err \<Rightarrow> fail (ErrMsg (payout_error_text err))
                         | None \<Rightarrow> ret (Some (payout, payload)))))))"

definition webhook_tx ::
  "env \<Rightarrow> gostring \<Rightarrow> gostring \<Rightarrow> PayoutInstruction \<Rightarrow> RazorpayWebhookPayload \<Rightarrow> bool \<Rightarrow> unit sact" where
  "webhook_tx e providerEventID body payout payload tx =
     (let ent = payload_Entity payload; tenantID = pay_TenantID payout;
          newStatus = outcome_status ent
      in andThen (wrap ''failed updating payout status: ''
           (UpdatePayoutStatus e tenantID (pay_ID payout) newStatus (Some (ent_ID ent))
              (non_empty (ent_UTR ent)) (non_empty (ent_ErrorDesc ent)))) (\<lambda>_.
         andThen
           (if newStatus = PayoutFailed \<or> newStatus = PayoutReversed
            then andThen (wrap ''check compensating ledger entry: ''
                   (HasCompensatingLedgerEntry e tenantID ''payout_reversal'' (pay_ID payout))) (\<lambda>hasComp.
                   if \<not> hasComp
                   then andThen (new_uuid e) (\<lambda>uuid.
                          wrap ''append compensating ledger entry: ''
                            (AppendLedgerEntry e tx tenantID
                               (reversal_entry uuid tenantID payout newStatus)))
                   else ret ())
            else ret ()) (\<lambda>_.
         andThen (attempt (RecordProviderEvent e tenantID ''razorpay'' providerEventID (Event payload) body))
           (\<lambda>recorded. case recorded of
              Inr _ \<Rightarrow> ret ()
            | Inl err \<Rightarrow> if isUniqueConflict err then ret ()
                         else fail (ErrWrap ''record provider event: '' err)))))"

definition webhook_apply ::
  "env \<Rightarrow> gostring \<Rightarrow> gostring \<Rightarrow> PayoutInstruction \<times> RazorpayWebhookPayload \<Rightarrow> unit sact" where
  "webhook_apply e providerEventID body adm =
     with_tx e False (webhook_tx e providerEventID body (fst adm) (snd adm))"

definition ProcessProviderWebhook ::
  "env \<Rightarrow> externals \<Rightarrow> SettlementAppService \<Rightarrow> gostring \<Rightarrow> gostring \<Rightarrow> gostring \<Rightarrow> gostring \<Rightarrow> unit sact" where
  "ProcessProviderWebhook e x s callerTenant providerEventID signature body =
     andThen (webhook_admit e x s providerEventID signature body) (\<lambda>admitted.
       case admitted of None \<Rightarrow> ret () | Some adm \<Rightarrow> webhook_apply e providerEventID body adm)"

end
