(* ===== verification/SettleLedger.thy ===== *)
theory SettleLedger
  imports SettleService
begin

text \<open>
  The ledger as the repository keeps it: what one append writes, that the balance query reads the
  last row as long as the clock does not run backwards, and what the chain of running balances is
  worth in paise. The laws of one append are the interface \<open>running_balance\<close>; its lemma on whole
  histories is proved once there.
\<close>

section \<open>The interface of a running balance\<close>

text \<open>
  A store with accounts, each with a balance, to which an entry adds its amount, rounded to the
  paisa, and which leaves the other accounts alone. \<open>ready\<close> is what the store must satisfy.
\<close>

locale running_balance =
  fixes balance :: "'s \<Rightarrow> 'k \<Rightarrow> float64"
    and post :: "'e \<Rightarrow> 's \<Rightarrow> 's"
    and ready :: "'e \<Rightarrow> 's \<Rightarrow> bool"
    and account :: "'e \<Rightarrow> 'k"
    and amount :: "'e \<Rightarrow> float64"
  assumes post_balance: "ready en s \<Longrightarrow>
    balance (post en s) k =
      (if k = account en then round2 (balance s k + amount en) else balance s k)"
begin

fun all_ready :: "'e list \<Rightarrow> 's \<Rightarrow> bool" where
  "all_ready [] s \<longleftrightarrow> True"
| "all_ready (en # es) s \<longleftrightarrow> ready en s \<and> all_ready es (post en s)"

definition paise_at :: "('e \<Rightarrow> int) \<Rightarrow> 'k \<Rightarrow> 'e list \<Rightarrow> int" where
  "paise_at n k es = sum_list (map n (filter (\<lambda>en. account en = k) es))"

lemma paise_at_Cons: "paise_at n k (en # es) = (if account en = k then n en else 0) + paise_at n k es"
  by (simp add: paise_at_def)

text \<open>Amounts in paise add up exactly, whatever the order of the accounts.\<close>

lemma balance_exact:
  assumes "all_ready es s" and "balance s k = rupees b"
    and "\<And>en. en \<in> set es \<Longrightarrow> amount en = rupees (n en)"
    and "\<bar>b\<bar> + sum_list (map (\<lambda>en. \<bar>n en\<bar>) (filter (\<lambda>en. account en = k) es)) \<le> 2 ^ 44"
  shows "balance (foldl (\<lambda>t en. post en t) s es) k = rupees (b + paise_at n k es)"
  using assms
proof (induction es arbitrary: s b)
  case Nil
  then show ?case by (simp add: paise_at_def)
next
  case (Cons en es)
  show ?case
  proof (cases "account en = k")
    case True
    let ?rest = "sum_list (map (\<lambda>en. \<bar>n en\<bar>) (filter (\<lambda>en. account en = k) es))"
    have rest: "0 \<le> ?rest" by (rule sum_list_nonneg) auto
    have bnd: "\<bar>b\<bar> \<le> 2 ^ 44" "\<bar>n en\<bar> \<le> 2 ^ 44" "\<bar>b + n en\<bar> + ?rest \<le> 2 ^ 44"
      using Cons.prems(4) True rest by auto
    have "\<bar>of_int b\<bar> \<le> (2 ^ 44 :: rat)" "\<bar>of_int (n en)\<bar> \<le> (2 ^ 44 :: rat)"
      using abs_of_int_le [OF bnd(1)] abs_of_int_le [OF bnd(2)] by simp_all
    then have "approx (of_int b / 100 + of_int (n en) / 100) (1 / 2 ^ 16 + 1 / 2 ^ 16 + 2 powi (40 - 54))
        (rupees b + rupees (n en))"
      by (intro approx_add [OF approx_rupees_fine [OF bnd(1)] approx_rupees_fine [OF bnd(2)]])
         (simp_all, linarith?)
    then have "approx (of_int (b + n en) / 100) (1 / 512) (rupees b + rupees (n en))"
      by (intro approx_weaken [where e = "1 / 512"])
         (simp_all add: power_int_def power_divide add_divide_distrib, linarith?)
    then have r: "round2 (rupees b + rupees (n en)) = rupees (b + n en)"
      by (rule round2_approx) (use bnd(3) rest in simp)
    have "balance (post en s) k = rupees (b + n en)"
      using Cons.prems(1-3) True r by (simp add: post_balance)
    then show ?thesis
      using Cons.IH [of "post en s" "b + n en"] Cons.prems(1,3) True bnd(3)
      by (simp add: paise_at_Cons add.assoc)
  next
    case False
    then have "balance (post en s) k = rupees b" using Cons.prems(1,2) by (simp add: post_balance)
    then show ?thesis
      using Cons.IH [of "post en s" b] Cons.prems(1,3,4) False by (simp add: paise_at_Cons)
  qed
qed

lemma all_ready_append:
  "all_ready (xs @ ys) s \<longleftrightarrow> all_ready xs s \<and> all_ready ys (foldl (\<lambda>t en. post en t) s xs)"
  by (induction xs arbitrary: s) auto

end

section \<open>The ledger of the store\<close>

text \<open>The row an append writes at time \<open>now\<close>.\<close>

definition posted :: "gostring \<Rightarrow> LedgerEntry \<Rightarrow> gotime \<Rightarrow> settle_db \<Rightarrow> LedgerEntry" where
  "posted t en now d = en\<lparr>BalanceAfter := round2 (ledger_balance t (led_DriverID en) d + led_Amount en),
     led_CreatedAt := (if led_CreatedAt en = 0 then now else led_CreatedAt en), led_TenantID := t\<rparr>"

lemma appendLedgerEntryTx_ok:
  assumes "appendLedgerEntryTx e t en w = (Inr u, w')"
  shows "\<exists>k. tick w \<le> k \<and> k < tick w'
      \<and> db w' = (db w)\<lparr>ledger := ledger (db w) @ [posted t en (now_at e k) (db w)]\<rparr>
      \<and> led_ID en \<notin> led_ID ` set (ledger (db w))"
  using assms
  by (intro exI [of _ "Suc (tick w)"], cases "led_CreatedAt en = 0")
     (auto simp: appendLedgerEntryTx_def andThen_ok query_ok exec_stmt_ok
        insert_ledger_def posted_def round2_def Let_def split: if_splits)

lemma moves_on_AppendTx: "moves_on (appendLedgerEntryTx e t en)"
  by (auto simp: appendLedgerEntryTx_def Let_def intro!: moving)

lemma moves_on_Append: "moves_on (AppendLedgerEntry e tx t en)"
  unfolding AppendLedgerEntry_def by (intro moving moves_on_AppendTx)

lemma AppendLedgerEntry_ok:
  assumes "AppendLedgerEntry e tx t en w = (Inr u, w')"
  obtains k where "tick w \<le> k" and "k < tick w'"
    and "db w' = (db w)\<lparr>ledger := ledger (db w) @ [posted t en (now_at e k) (db w)]\<rparr>"
    and "led_ID en \<notin> led_ID ` set (ledger (db w))"
proof (cases tx)
  case True
  then show ?thesis using assms that appendLedgerEntryTx_ok by (fastforce simp: AppendLedgerEntry_def)
next
  case False
  then obtain w1 w2 where w: "same w w1" "appendLedgerEntryTx e t en w1 = (Inr u, w2)" "same w2 w'"
    using assms with_tx_ok by (force simp: AppendLedgerEntry_def)
  obtain k where "tick w1 \<le> k" "k < tick w2"
    "db w2 = (db w1)\<lparr>ledger := ledger (db w1) @ [posted t en (now_at e k) (db w1)]\<rparr>"
    "led_ID en \<notin> led_ID ` set (ledger (db w1))"
    using appendLedgerEntryTx_ok [OF w(2)] by blast
  then show ?thesis using that [of k] w(1,3) by (simp add: same_def)
qed

lemma atomic_Append: "atomic (AppendLedgerEntry e tx t en)"
proof -
  have "atomic (appendLedgerEntryTx e t en)"
    by (auto simp: appendLedgerEntryTx_def Let_def
        intro!: atomic_andThen reading atomic_wrap atomic_exec_stmt)
  then show ?thesis
    unfolding AppendLedgerEntry_def using atomic_with_tx [OF moves_on_AppendTx] by simp
qed

text \<open>
  A sequence of appends for a tenant, with the rows' times taken between two counts of calls. What
  it writes is what was asked for, stamped with tenant, balance and time.
\<close>

inductive posts :: "env \<Rightarrow> gostring \<Rightarrow> nat \<Rightarrow> settle_db \<Rightarrow> LedgerEntry list \<Rightarrow> settle_db \<Rightarrow> nat \<Rightarrow> bool"
  for e :: env and t :: gostring where
  posts_nil: "k \<le> k' \<Longrightarrow> posts e t k d [] d k'"
| posts_snoc: "posts e t k d ens d1 k1 \<Longrightarrow> k1 \<le> j \<Longrightarrow> j < k2 \<Longrightarrow>
    posts e t k d (ens @ [en]) (d1\<lparr>ledger := ledger d1 @ [posted t en (now_at e j) d1]\<rparr>) k2"

lemma posts_ticks: "posts e t k d ens d' k' \<Longrightarrow> k \<le> k'"
  by (induction rule: posts.induct) auto

lemma posts_widen:
  assumes "posts e t k d ens d' k'" and "i \<le> k" and "k' \<le> j"
  shows "posts e t i d ens d' j"
  using assms
proof (induction arbitrary: j rule: posts.induct)
  case (posts_nil k k' d)
  then show ?case by (auto intro: posts.posts_nil)
next
  case (posts_snoc k d ens d1 k1 m k2 en)
  show ?case
    using posts.posts_snoc [OF posts_snoc.IH [OF posts_snoc.prems(1) le_refl] posts_snoc.hyps(2), of j en]
      posts_snoc.hyps(3) posts_snoc.prems(2) by simp
qed

lemma posts_trans:
  assumes "posts e t k1 d1 ens2 d2 k2" and "posts e t k d ens d1 k1"
  shows "posts e t k d (ens @ ens2) d2 k2"
  using assms
proof (induction rule: posts.induct)
  case (posts_nil k1 k2 d1)
  then show ?case by (auto intro: posts_widen)
next
  case (posts_snoc k1 d1 ens2 d' k' j k2 en)
  then show ?case by (simp add: append_assoc [symmetric] posts.posts_snoc del: append_assoc)
qed

lemma posts_one:
  assumes "k \<le> j" and "j < k2"
  shows "posts e t k d [en] (d\<lparr>ledger := ledger d @ [posted t en (now_at e j) d]\<rparr>) k2"
  using posts_snoc [OF posts_nil [OF le_refl] assms] by simp

definition stamped :: "gostring \<Rightarrow> LedgerEntry \<Rightarrow> LedgerEntry \<Rightarrow> bool" where
  "stamped t en r \<longleftrightarrow>
     r = en\<lparr>BalanceAfter := BalanceAfter r, led_CreatedAt := led_CreatedAt r, led_TenantID := t\<rparr>"

lemma stamped_posted: "stamped t en (posted t en now d)"
  by (simp add: stamped_def posted_def)

lemma stampedD:
  assumes "stamped t en r"
  shows "led_TenantID r = t" "led_ID r = led_ID en" "led_DriverID r = led_DriverID en"
    "EntryType r = EntryType en" "led_Amount r = led_Amount en"
    "ReferenceType r = ReferenceType en" "ReferenceID r = ReferenceID en"
  by (subst assms [unfolded stamped_def], simp)+

lemma posts_rows:
  assumes "posts e t k d ens d' k'"
  obtains rows where "d' = d\<lparr>ledger := ledger d @ rows\<rparr>" and "list_all2 (stamped t) ens rows"
proof -
  have "\<exists>rows. d' = d\<lparr>ledger := ledger d @ rows\<rparr> \<and> list_all2 (stamped t) ens rows"
    using assms
  proof (induction rule: posts.induct)
    case (posts_nil k k' d)
    then show ?case by (intro exI [of _ "[]"]) simp
  next
    case (posts_snoc k d ens d1 k1 j k2 en)
    then obtain rows where "d1 = d\<lparr>ledger := ledger d @ rows\<rparr>" "list_all2 (stamped t) ens rows" by blast
    then show ?case
      using stamped_posted
      by (intro exI [of _ "rows @ [posted t en (now_at e j) d1]"])
         (auto intro: list_all2_appendI)
  qed
  then show ?thesis using that by blast
qed

text \<open>In a ledger whose times do not decrease, the balance query reads the last row of the driver.\<close>

definition mine :: "gostring \<Rightarrow> gostring \<Rightarrow> LedgerEntry \<Rightarrow> bool" where
  "mine t dr r \<longleftrightarrow> led_TenantID r = t \<and> led_DriverID r = dr"

definition rows_balance :: "gostring \<Rightarrow> gostring \<Rightarrow> LedgerEntry list \<Rightarrow> float64" where
  "rows_balance t dr rs =
     (if filter (mine t dr) rs = [] then Fin 0 else BalanceAfter (last (filter (mine t dr) rs)))"

lemma ledger_balance_sorted:
  assumes "sorted (map led_CreatedAt (ledger d))"
  shows "ledger_balance t dr d = rows_balance t dr (ledger d)"
proof -
  have "sorted (map led_CreatedAt (filter (mine t dr) (ledger d)))"
    using assms by (rule sorted_filter)
  then have "sort_key led_CreatedAt (filter (mine t dr) (ledger d)) = filter (mine t dr) (ledger d)"
    by (rule sort_key_id_if_sorted)
  moreover have "entries_of t dr d = filter (mine t dr) (ledger d)"
    by (simp add: entries_of_def mine_def [abs_def])
  ultimately show ?thesis
    by (cases "filter (mine t dr) (ledger d)" rule: rev_cases)
       (simp_all add: ledger_balance_def latest_first_def rows_balance_def)
qed

text \<open>
  A ledger kept by appends: the times do not decrease and every row's balance is that of the
  driver's previous row plus its amount, rounded.
\<close>

inductive kept_ledger :: "LedgerEntry list \<Rightarrow> bool" where
  kept_nil: "kept_ledger []"
| kept_snoc: "kept_ledger rs \<Longrightarrow> \<forall>q \<in> set rs. led_CreatedAt q \<le> led_CreatedAt r \<Longrightarrow>
    BalanceAfter r = round2 (rows_balance (led_TenantID r) (led_DriverID r) rs + led_Amount r) \<Longrightarrow>
    kept_ledger (rs @ [r])"

lemma kept_sorted: "kept_ledger rs \<Longrightarrow> sorted (map led_CreatedAt rs)"
  by (induction rule: kept_ledger.induct) (auto simp: sorted_append)

lemma kept_balance: "kept_ledger (ledger d) \<Longrightarrow> ledger_balance t dr d = rows_balance t dr (ledger d)"
  by (rule ledger_balance_sorted) (rule kept_sorted)

text \<open>The store provides the interface: an entry is posted for a tenant at a time.\<close>

type_synonym posting = "gostring \<times> LedgerEntry \<times> gotime"

fun post_entry :: "posting \<Rightarrow> settle_db \<Rightarrow> settle_db" where
  "post_entry (t, en, now) d = d\<lparr>ledger := ledger d @ [posted t en now d]\<rparr>"

fun post_ready :: "posting \<Rightarrow> settle_db \<Rightarrow> bool" where
  "post_ready (t, en, now) d \<longleftrightarrow> sorted (map led_CreatedAt (ledger d))
     \<and> (\<forall>q \<in> set (ledger d). led_CreatedAt q \<le> (if led_CreatedAt en = 0 then now else led_CreatedAt en))"

lemma rows_balance_snoc:
  "rows_balance t dr (rs @ [r]) = (if mine t dr r then BalanceAfter r else rows_balance t dr rs)"
  by (simp add: rows_balance_def)

interpretation wallet: running_balance "\<lambda>d (t, dr). ledger_balance t dr d" post_entry post_ready
  "\<lambda>(t, en, now). (t, led_DriverID en)" "\<lambda>(t, en, now). led_Amount en"
proof
  fix en :: posting and s :: settle_db and k :: "gostring \<times> gostring"
  assume ready: "post_ready en s"
  obtain t x now where en: "en = (t, x, now)" by (cases en)
  have s1: "sorted (map led_CreatedAt (ledger (post_entry en s)))" and s0: "sorted (map led_CreatedAt (ledger s))"
    using ready by (auto simp: en sorted_append posted_def)
  have old: "ledger_balance t' dr s = rows_balance t' dr (ledger s)" for t' dr
    by (rule ledger_balance_sorted [OF s0])
  have new: "ledger_balance t' dr (s\<lparr>ledger := ledger s @ [posted t x now s]\<rparr>) =
      (if t' = t \<and> dr = led_DriverID x then round2 (rows_balance t' dr (ledger s) + led_Amount x)
       else rows_balance t' dr (ledger s))" for t' dr
    using ledger_balance_sorted [OF s1, of t' dr]
    by (auto simp: en rows_balance_snoc mine_def posted_def old)
  show "(case k of (t, dr) \<Rightarrow> ledger_balance t dr (post_entry en s)) =
      (if k = (case en of (t, en, now) \<Rightarrow> (t, led_DriverID en))
       then round2 ((case k of (t, dr) \<Rightarrow> ledger_balance t dr s) + (case en of (t, en, now) \<Rightarrow> led_Amount en))
       else (case k of (t, dr) \<Rightarrow> ledger_balance t dr s))"
    by (cases k) (auto simp: new old en)
qed

text \<open>Posting the rows of a kept ledger again, one by one, gives the ledger.\<close>

definition posting_of :: "LedgerEntry \<Rightarrow> posting" where
  "posting_of r = (led_TenantID r, r, led_CreatedAt r)"

lemma replay_kept:
  assumes "kept_ledger rs"
  shows "wallet.all_ready (map posting_of rs) (d\<lparr>ledger := []\<rparr>)
    \<and> foldl (\<lambda>s p. post_entry p s) (d\<lparr>ledger := []\<rparr>) (map posting_of rs) = d\<lparr>ledger := rs\<rparr>"
  using assms
proof (induction rule: kept_ledger.induct)
  case kept_nil
  then show ?case by simp
next
  case (kept_snoc rs r)
  have "ledger_balance t dr (d\<lparr>ledger := rs\<rparr>) = rows_balance t dr rs" for t dr
    using kept_balance [of "d\<lparr>ledger := rs\<rparr>"] kept_snoc.hyps(1) by simp
  then have "posted (led_TenantID r) r (led_CreatedAt r) (d\<lparr>ledger := rs\<rparr>) = r"
    using kept_snoc.hyps(3) by (simp add: posted_def)
  then show ?case
    using kept_snoc kept_sorted [OF kept_snoc.hyps(1)]
    by (simp add: wallet.all_ready_append posting_of_def)
qed

text \<open>The balance of a kept ledger whose amounts are in paise is the exact sum of the amounts.\<close>

definition paise_total :: "(LedgerEntry \<Rightarrow> int) \<Rightarrow> gostring \<Rightarrow> gostring \<Rightarrow> settle_db \<Rightarrow> int" where
  "paise_total n t dr d = sum_list (map n (entries_of t dr d))"

lemma kept_balance_exact:
  assumes kept: "kept_ledger (ledger d)"
    and paise: "\<And>r. r \<in> set (ledger d) \<Longrightarrow> led_Amount r = rupees (n r)"
    and bound: "sum_list (map (\<lambda>r. \<bar>n r\<bar>) (entries_of t dr d)) \<le> 2 ^ 44"
  shows "ledger_balance t dr d = rupees (paise_total n t dr d)"
proof -
  let ?d0 = "d\<lparr>ledger := []\<rparr>" and ?ps = "map posting_of (ledger d)"
  let ?n = "\<lambda>(t :: gostring, r, now :: gotime). n r"
  have acc: "map f (filter (\<lambda>p. (case p of (t, en, now) \<Rightarrow> (t, led_DriverID en)) = (t, dr)) ?ps)
      = map (f \<circ> posting_of) (entries_of t dr d)" for f :: "posting \<Rightarrow> int"
    by (simp add: filter_map entries_of_def posting_of_def o_def)
  have all: "wallet.all_ready ?ps ?d0" and fold: "foldl (\<lambda>s p. post_entry p s) ?d0 ?ps = d"
    using replay_kept [OF kept, of d] by simp_all
  have "ledger_balance t dr ?d0 = rupees 0"
    by (simp add: ledger_balance_def entries_of_def latest_first_def)
  then have "(case (t, dr) of (t, dr) \<Rightarrow> ledger_balance t dr (foldl (\<lambda>s p. post_entry p s) ?d0 ?ps))
      = rupees (0 + wallet.paise_at ?n (t, dr) ?ps)"
    by (intro wallet.balance_exact [OF all])
       (use bound paise in \<open>auto simp: acc posting_of_def o_def\<close>)
  moreover have "wallet.paise_at ?n (t, dr) ?ps = paise_total n t dr d"
    by (simp add: wallet.paise_at_def acc paise_total_def posting_of_def o_def)
  ultimately show ?thesis by (simp add: fold)
qed

text \<open>
  A ledger as of a count of calls: kept by appends, and no row is from the future of a clock that
  does not run backwards. Appends preserve it.
\<close>

definition timed :: "env \<Rightarrow> nat \<Rightarrow> settle_db \<Rightarrow> bool" where
  "timed e k d \<longleftrightarrow> mono (now_at e) \<and> kept_ledger (ledger d)
     \<and> (\<forall>r \<in> set (ledger d). \<forall>j \<ge> k. led_CreatedAt r \<le> now_at e j)"

lemma timed_later: "timed e k d \<Longrightarrow> k \<le> k' \<Longrightarrow> ledger d' = ledger d \<Longrightarrow> timed e k' d'"
  by (auto simp: timed_def)

lemma timed_posted:
  assumes "timed e k d" and "k \<le> j" and "j < k'" and "led_CreatedAt en = 0"
  shows "timed e k' (d\<lparr>ledger := ledger d @ [posted t en (now_at e j) d]\<rparr>)"
proof -
  have kept: "kept_ledger (ledger d)" and m: "mono (now_at e)"
    and old: "\<And>r i. r \<in> set (ledger d) \<Longrightarrow> k \<le> i \<Longrightarrow> led_CreatedAt r \<le> now_at e i"
    using assms(1) by (auto simp: timed_def)
  let ?r = "posted t en (now_at e j) d"
  have at: "led_CreatedAt ?r = now_at e j" using assms(4) by (simp add: posted_def)
  have "kept_ledger (ledger d @ [?r])"
  proof (rule kept_snoc [OF kept])
    show "\<forall>q \<in> set (ledger d). led_CreatedAt q \<le> led_CreatedAt ?r" using old assms(2) by (simp add: at)
    show "BalanceAfter ?r = round2 (rows_balance (led_TenantID ?r) (led_DriverID ?r) (ledger d) + led_Amount ?r)"
      using kept_balance [OF kept] by (simp add: posted_def)
  qed
  moreover have "led_CreatedAt ?r \<le> now_at e i" if "k' \<le> i" for i
    using that assms(3) m by (simp add: at monoD)
  ultimately show ?thesis using m old assms(2,3) by (auto simp: timed_def)
qed

lemma timed_posts:
  assumes "posts e t k d ens d' k'" and "timed e k d"
    and "\<And>en. en \<in> set ens \<Longrightarrow> led_CreatedAt en = 0"
  shows "timed e k' d'"
  using assms
proof (induction rule: posts.induct)
  case (posts_nil k k' d)
  then show ?case using timed_later by blast
next
  case (posts_snoc k d ens d1 k1 j k2 en)
  then show ?case using timed_posted by simp
qed

end
