(* ===== verification/SettleBooks.thy ===== *)
theory SettleBooks
  imports SettleLedger
begin

text \<open>
  What each call of the settlement service does to the tables, on every exit and with failures at
  any point, and the books the service keeps: every payout has exactly one debit, a failed or
  reversed one exactly one compensating credit, every other none; no payout debit leaves a wallet
  below zero; no two settlements are for one trip; the ledger only grows.
\<close>

section \<open>Reads\<close>

lemmas store_reads = GetSettlementByTripID_def ListLedgerEntryTypes_def HasCompensatingLedgerEntry_def
  GetDriverBalance_def GetRecentLedgerEntries_def sum_or_zero_def GetPayoutByIdempotencyKey_def
  GetPayoutByIDGlobal_def IsProviderEventProcessed_def HasLegacySettlementLines_def
  warnIfLegacySettlement_def

lemma reads_GetDriverWallet: "reads (GetDriverWallet e sm t dr)"
  unfolding GetDriverWallet_def store_reads Let_def by (intro reading)

lemma GetDriverWallet_ok:
  assumes "GetDriverWallet e sm t dr w = (Inr wal, w')"
  shows "AvailableBalance wal = ledger_balance t dr (db w)"
  using assms by (auto simp: GetDriverWallet_def GetDriverBalance_def andThen_ok query_ok)

lemma reads_Verified: "reads (IsDriverPayoutAccountVerified e t dr)"
proof -
  have "reads (if length s > 5 then ret (True, ''legacy_account'') else ret (False, ''''))" for s :: gostring
    by (intro reading)
  then show ?thesis
    unfolding IsDriverPayoutAccountVerified_def by (intro reading)
qed

text \<open>The account check as a fact of the tables: the first primary account, or bank details.\<close>

definition account_verified :: "gostring \<Rightarrow> gostring \<Rightarrow> settle_db \<Rightarrow> bool" where
  "account_verified t dr d \<longleftrightarrow>
     (case find (\<lambda>a. acc_TenantID a = t \<and> acc_DriverID a = dr \<and> IsPrimary a) (payout_accounts d) of
        Some a \<Rightarrow> acc_VerificationStatus a = ''verified''
      | None \<Rightarrow> (case find (\<lambda>v. drv_TenantID v = t \<and> drv_ID v = dr) (driver_rows d) of
                   None \<Rightarrow> False
                 | Some v \<Rightarrow> (case BankDetails v of None \<Rightarrow> False | Some s \<Rightarrow> length s > 5)))"

lemma Verified_ok:
  assumes "IsDriverPayoutAccountVerified e t dr w = (Inr (True, a), w')"
  shows "account_verified t dr (db w)"
proof (cases "find (\<lambda>a. acc_TenantID a = t \<and> acc_DriverID a = dr \<and> IsPrimary a) (payout_accounts (db w))")
  case None
  let ?q = "query e (\<lambda>d. case find (\<lambda>v. drv_TenantID v = t \<and> drv_ID v = dr) (driver_rows d) of
      None \<Rightarrow> None | Some v \<Rightarrow> BankDetails v)"
  let ?w = "w\<lparr>tick := Suc (tick w)\<rparr>"
  have r: "(case fst (?q ?w) of
             Inr (Some s) \<Rightarrow> if length s > 5 then ret (True, ''legacy_account'') else ret (False, '''')
           | _ \<Rightarrow> ret (False, '''')) (snd (?q ?w)) = (Inr (True, a), w')"
    using assms None
    by (auto simp: IsDriverPayoutAccountVerified_def andThen_ok [of "query _ _"] query_ok andThen_attempt)
  obtain s where s: "fst (?q ?w) = Inr (Some s)" "length s > 5"
    using r by (cases "fst (?q ?w)") (auto split: option.splits if_splits)
  then have "?q ?w = (Inr (Some s), snd (?q ?w))" by (simp add: prod_eq_iff)
  then show ?thesis using None s(2) by (auto simp: query_ok account_verified_def split: option.splits)
next
  case (Some x)
  then show ?thesis
    using assms by (auto simp: IsDriverPayoutAccountVerified_def andThen_ok query_ok account_verified_def)
qed

section \<open>Payouts\<close>

text \<open>The tables after a payout: one instruction and one debit more.\<close>

definition paid_out ::
  "PayoutInstruction \<Rightarrow> LedgerEntry \<Rightarrow> settle_db \<Rightarrow> settle_db" where
  "paid_out p r d = d\<lparr>payouts := payouts d @ [p], ledger := ledger d @ [r]\<rparr>"

text \<open>What a new instruction and its debit look like.\<close>

definition new_payout ::
  "gostring \<Rightarrow> gostring \<Rightarrow> InitiatePayoutRequest \<Rightarrow> PayoutInstruction \<Rightarrow> bool" where
  "new_payout t dr req p \<longleftrightarrow> pay_TenantID p = t \<and> pay_DriverID p = dr \<and> pay_Amount p = ipr_Amount req
     \<and> IdempotencyKey p = ipr_IdempotencyKey req \<and> pay_Status p = PayoutInitiated"

definition fresh_payout :: "PayoutInstruction \<Rightarrow> settle_db \<Rightarrow> bool" where
  "fresh_payout p d \<longleftrightarrow> (\<forall>q \<in> set (payouts d). pay_ID q \<noteq> pay_ID p
     \<and> \<not> (pay_TenantID q = pay_TenantID p \<and> IdempotencyKey q = IdempotencyKey p))"

lemma posted_payouts [simp]: "posted t en now (d\<lparr>payouts := ps\<rparr>) = posted t en now d"
  by (simp add: posted_def ledger_balance_def entries_of_def)

lemma insert_payout_ok:
  "insert_payout p d = Inr d' \<longleftrightarrow> fresh_payout p d \<and> d' = d\<lparr>payouts := payouts d @ [p]\<rparr>"
  by (auto simp: insert_payout_def fresh_payout_def)

lemma disburse_ok:
  assumes "disburse e True t dr acc req w = (Inr resp, w')"
  obtains p u k where "new_payout t dr req p" and "fresh_payout p (db w)"
    and "tick w \<le> k" and "k < tick w'"
    and "db w' = paid_out p (posted t (payout_entry u t dr (pay_ID p) (ipr_Amount req)) (now_at e k) (db w)) (db w)"
    and "resp = \<lparr>resp_PayoutID = pay_ID p, resp_DriverID = dr, resp_Amount = ipr_Amount req,
                 resp_Status = PayoutInitiated, resp_IdempotencyKey = ipr_IdempotencyKey req,
                 IsDuplicate = False\<rparr>"
proof -
  define n where "n = tick w"
  define p where "p = \<lparr>pay_ID = ''pout_'' @ uuid_at e n, pay_TenantID = t, pay_DriverID = dr,
             PayoutAccountID = acc, pay_Amount = ipr_Amount req, pay_Currency = ''INR'',
             IdempotencyKey = ipr_IdempotencyKey req, ProviderPayoutID = None,
             pay_Status = PayoutInitiated, FailureReason = None, UTR = None,
             InitiatedAt = now_at e (Suc n), CompletedAt = None, pay_CreatedAt = now_at e (Suc (Suc n)),
             pay_UpdatedAt = now_at e (Suc (Suc (Suc n)))\<rparr>"
  obtain w1 u where w1: "CreatePayoutInstruction e t p (w\<lparr>tick := Suc (Suc (Suc (Suc n)))\<rparr>) = (Inr (), w1)"
    and w2: "AppendLedgerEntry e True t (payout_entry u t dr (pay_ID p) (ipr_Amount req))
               (w1\<lparr>tick := Suc (tick w1)\<rparr>) = (Inr (), w')"
    and resp: "resp = \<lparr>resp_PayoutID = pay_ID p, resp_DriverID = dr, resp_Amount = ipr_Amount req,
                 resp_Status = PayoutInitiated, resp_IdempotencyKey = ipr_IdempotencyKey req,
                 IsDuplicate = False\<rparr>"
  proof -
    let ?c = "CreatePayoutInstruction e t p (w\<lparr>tick := Suc (Suc (Suc (Suc n)))\<rparr>)"
    have run: "(case fst ?c of
          Inl err \<Rightarrow> if isUniqueConflict err then fail (ErrSentinel errPayoutKeyConflict)
                     else fail (ErrWrap ''failed creating payout instruction: '' err)
        | Inr _ \<Rightarrow> andThen (new_uuid e) (\<lambda>ledUuid.
            andThen (wrap ''append payout ledger entry: '' (AppendLedgerEntry e True t
               (payout_entry ledUuid t dr (pay_ID p) (ipr_Amount req))))
             (\<lambda>_. ret \<lparr>resp_PayoutID = pay_ID p, resp_DriverID = dr, resp_Amount = pay_Amount p,
               resp_Status = pay_Status p, resp_IdempotencyKey = IdempotencyKey p,
               IsDuplicate = False\<rparr>))) (snd ?c) = (Inr resp, w')"
      using assms unfolding disburse_def by (simp add: Let_def andThen_attempt p_def n_def cong: sum.case_cong)
    then obtain w1 where c: "?c = (Inr (), w1)" by (cases ?c; cases "fst ?c") (auto split: if_splits)
    then show ?thesis using run that [of w1 "uuid_at e (tick w1)"]
      by (auto simp: andThen_ok [of "wrap _ _"] p_def)
  qed
  have c: "fresh_payout p (db w)" "db w1 = (db w)\<lparr>payouts := payouts (db w) @ [p]\<rparr>" "tick w1 = n + 5"
    using w1 by (auto simp: CreatePayoutInstruction_def exec_stmt_ok insert_payout_ok p_def)
  obtain k where k: "tick (w1\<lparr>tick := Suc (tick w1)\<rparr>) \<le> k" "k < tick w'"
    "db w' = (db w1)\<lparr>ledger := ledger (db w1) @
       [posted t (payout_entry u t dr (pay_ID p) (ipr_Amount req)) (now_at e k) (db w1)]\<rparr>"
    using AppendLedgerEntry_ok [OF w2] by auto
  have np: "new_payout t dr req p" by (simp add: new_payout_def p_def)
  have "db w' = paid_out p (posted t (payout_entry u t dr (pay_ID p) (ipr_Amount req)) (now_at e k) (db w)) (db w)"
    using k(3) c(2) by (simp add: paid_out_def)
  then show ?thesis using that [OF np c(1), of k u] k(1,2) c(3) resp by (simp add: n_def)
qed

text \<open>A payout in the transaction: a duplicate is read back, or the checks passed and it was paid.\<close>

definition paid_now ::
  "env \<Rightarrow> SettlementAppService \<Rightarrow> gostring \<Rightarrow> gostring \<Rightarrow> InitiatePayoutRequest
    \<Rightarrow> settle_db world \<Rightarrow> settle_db world \<Rightarrow> PayoutResponse \<Rightarrow> bool" where
  "paid_now e s t dr req w w' resp \<longleftrightarrow>
     account_verified t dr (db w)
   \<and> ValidatePayoutEligibility (ledger_balance t dr (db w)) (ipr_Amount req) True (minPayoutLimit s) = None
   \<and> (\<exists>p u k. new_payout t dr req p \<and> fresh_payout p (db w) \<and> tick w \<le> k \<and> k < tick w'
        \<and> db w' = paid_out p (posted t (payout_entry u t dr (pay_ID p) (ipr_Amount req)) (now_at e k) (db w)) (db w)
        \<and> resp = \<lparr>resp_PayoutID = pay_ID p, resp_DriverID = dr, resp_Amount = ipr_Amount req,
                 resp_Status = PayoutInitiated, resp_IdempotencyKey = ipr_IdempotencyKey req,
                 IsDuplicate = False\<rparr>)"

definition read_back :: "gostring \<Rightarrow> InitiatePayoutRequest \<Rightarrow> settle_db \<Rightarrow> PayoutResponse \<Rightarrow> bool" where
  "read_back t req d resp \<longleftrightarrow>
     (\<exists>p \<in> set (payouts d). pay_TenantID p = t \<and> IdempotencyKey p = ipr_IdempotencyKey req
        \<and> resp = duplicateOf p)"

lemma by_key_in:
  "payout_by_key t k d = Some p \<Longrightarrow> p \<in> set (payouts d) \<and> pay_TenantID p = t \<and> IdempotencyKey p = k"
  by (auto simp: payout_by_key_def find_Some_iff)

lemma reads_by_key: "reads (GetPayoutByIdempotencyKey e t k)"
  by (simp add: GetPayoutByIdempotencyKey_def reading)

lemma by_key_ok:
  "GetPayoutByIdempotencyKey e t k w = (Inr (Some p), w') \<Longrightarrow>
   p \<in> set (payouts (db w)) \<and> pay_TenantID p = t \<and> IdempotencyKey p = k"
  by (auto simp: GetPayoutByIdempotencyKey_def query_ok dest: by_key_in [OF sym])

lemma paid_now_same:
  assumes "same w w1" and "paid_now e s t dr req w1 w2 resp" and "same w2 w'"
  shows "paid_now e s t dr req w w' resp"
proof -
  have eq: "db w1 = db w" "db w2 = db w'" and le: "tick w \<le> tick w1" "tick w2 \<le> tick w'"
    using assms(1,3) by (simp_all add: same_def)
  obtain p u k where pk: "account_verified t dr (db w)"
    "ValidatePayoutEligibility (ledger_balance t dr (db w)) (ipr_Amount req) True (minPayoutLimit s) = None"
    "new_payout t dr req p" "fresh_payout p (db w)" "tick w1 \<le> k" "k < tick w2"
    "db w' = paid_out p (posted t (payout_entry u t dr (pay_ID p) (ipr_Amount req)) (now_at e k) (db w)) (db w)"
    "resp = \<lparr>resp_PayoutID = pay_ID p, resp_DriverID = dr, resp_Amount = ipr_Amount req,
             resp_Status = PayoutInitiated, resp_IdempotencyKey = ipr_IdempotencyKey req,
             IsDuplicate = False\<rparr>"
    using assms(2) unfolding paid_now_def eq by blast
  have "tick w \<le> k" "k < tick w'" using pk(5,6) le by linarith+
  then show ?thesis
    unfolding paid_now_def
    by (intro conjI exI [of _ p] exI [of _ u] exI [of _ k] pk)
qed

lemma moves_on_disburse: "moves_on (disburse e True t dr acc req)"
  unfolding disburse_def Let_def CreatePayoutInstruction_def by (intro moving moves_on_Append)

lemma moves_on_payout_checked: "moves_on (payout_checked e x s t dr req True)"
  unfolding payout_checked_def
  by (auto split: sum.split prod.split bool.split
      intro!: moving moves_on_disburse moves_on_reads [OF reads_GetDriverWallet]
        moves_on_reads [OF reads_Verified])

lemma moves_on_payout_tx: "moves_on (payout_tx e x s t dr req True)"
  unfolding payout_tx_def LockDriverPayout_def
  by (intro moving moves_on_reads [OF reads_by_key] moves_on_payout_checked)

lemma payout_checked_ok:
  assumes "payout_checked e x s t dr req True w = (Inr resp, w')"
  shows "paid_now e s t dr req w w' resp"
proof -
  obtain account w3 where v: "IsDriverPayoutAccountVerified e t dr w = (account, w3)"
    by (cases "IsDriverPayoutAccountVerified e t dr w")
  have w3: "same w w3" by (rule readsD [OF reads_Verified v])
  obtain acc where acc: "account = Inr (True, acc)"
    using assms v unfolding payout_checked_def
    by (cases account) (auto simp: andThen_attempt split: bool.splits)
  obtain wal w4 where wal: "GetDriverWallet e (sql_sum x) t dr w3 = (Inr wal, w4)"
    and r4: "(case ValidatePayoutEligibility (AvailableBalance wal) (ipr_Amount req) True
                        (minPayoutLimit s) of
                   Some err \<Rightarrow> fail (ErrMsg (payout_error_text err))
                 | None \<Rightarrow> disburse e True t dr acc req) w4 = (Inr resp, w')"
    using assms v acc unfolding payout_checked_def
    by (auto simp: andThen_attempt andThen_ok [of "GetDriverWallet _ _ _ _"])
  have w4: "same w w4" using w3 readsD [OF reads_GetDriverWallet wal] by (rule same_trans)
  have verified: "account_verified t dr (db w)" using Verified_ok v acc by simp
  have ok: "ValidatePayoutEligibility (ledger_balance t dr (db w)) (ipr_Amount req) True (minPayoutLimit s) = None"
    and d: "disburse e True t dr acc req w4 = (Inr resp, w')"
    using r4 GetDriverWallet_ok [OF wal] w3 by (auto simp: same_def split: option.splits)
  have "\<exists>p u k. new_payout t dr req p \<and> fresh_payout p (db w4) \<and> tick w4 \<le> k \<and> k < tick w'
      \<and> db w' = paid_out p (posted t (payout_entry u t dr (pay_ID p) (ipr_Amount req)) (now_at e k) (db w4)) (db w4)
      \<and> resp = \<lparr>resp_PayoutID = pay_ID p, resp_DriverID = dr, resp_Amount = ipr_Amount req,
               resp_Status = PayoutInitiated, resp_IdempotencyKey = ipr_IdempotencyKey req,
               IsDuplicate = False\<rparr>"
    by (rule disburse_ok [OF d]) blast
  then have "paid_now e s t dr req w4 w' resp"
    using verified ok w4 unfolding paid_now_def by (simp add: same_def)
  then show ?thesis using paid_now_same [OF w4 _ same_refl] by blast
qed

lemma payout_tx_ok:
  assumes "payout_tx e x s t dr req True w = (Inr resp, w')"
  shows "same w w' \<and> read_back t req (db w) resp \<or> paid_now e s t dr req w w' resp"
proof -
  obtain u w1 where lock: "LockDriverPayout e t dr w = (Inr u, w1)"
    using assms unfolding payout_tx_def andThen_ok by blast
  then have w1: "same w w1" by (auto simp: LockDriverPayout_def exec_stmt_ok same_def)
  obtain found w2 where g: "GetPayoutByIdempotencyKey e t (ipr_IdempotencyKey req) w1 = (found, w2)"
    by (cases "GetPayoutByIdempotencyKey e t (ipr_IdempotencyKey req) w1")
  have w2: "same w w2" using w1 readsD [OF reads_by_key g] by (rule same_trans)
  have rest: "(case found of
         Inr (Some existing) \<Rightarrow> ret (duplicateOf existing)
       | _ \<Rightarrow> payout_checked e x s t dr req True) w2 = (Inr resp, w')"
    using assms lock g by (simp add: payout_tx_def andThen_def attempt_def)
  show ?thesis
  proof (cases "\<exists>p. found = Inr (Some p)")
    case True
    then obtain p where p: "found = Inr (Some p)" by blast
    then have "w' = w2" "resp = duplicateOf p" using rest by simp_all
    then show ?thesis using by_key_ok [OF g [unfolded p]] w1 w2 by (auto simp: read_back_def same_def)
  next
    case False
    then have "payout_checked e x s t dr req True w2 = (Inr resp, w')"
      using rest by (cases found) (auto split: option.splits)
    then show ?thesis using payout_checked_ok paid_now_same [OF w2 _ same_refl] by blast
  qed
qed

lemma InitiatePayout_effect:
  assumes "InitiatePayout e x s t dr req w = (r, w')"
  shows "tick w \<le> tick w' \<and> (case r of
      Inl err \<Rightarrow> db w' = db w
    | Inr resp \<Rightarrow> same w w' \<and> read_back t req (db w) resp \<or> paid_now e s t dr req w w' resp)"
proof (cases "t = '''' \<or> dr = '''' \<or> ipr_IdempotencyKey req = ''''")
  case True
  then show ?thesis using assms by (auto simp: InitiatePayout_def split: if_splits)
next
  case False
  let ?key = "GetPayoutByIdempotencyKey e t (ipr_IdempotencyKey req)"
  let ?tx = "with_tx e False (payout_tx e x s t dr req)"
  obtain found w1 where g: "?key w = (found, w1)" by (cases "?key w")
  have w1: "same w w1" using readsD [OF reads_by_key g] .
  show ?thesis
  proof (cases "\<exists>p. found = Inr (Some p)")
    case True
    then obtain p where p: "found = Inr (Some p)" by blast
    then have "w' = w1" "r = Inr (duplicateOf p)"
      using assms g False by (simp_all add: InitiatePayout_def andThen_attempt)
    then show ?thesis using by_key_ok [OF g [unfolded p]] w1 by (auto simp: read_back_def same_def)
  next
    case nf: False
    obtain outcome w2 where tx: "?tx w1 = (outcome, w2)" by (cases "?tx w1")
    have mv: "tick w1 \<le> tick w2" "\<And>err. outcome = Inl err \<Longrightarrow> db w2 = db w1"
      using with_tx_cases [OF tx moves_on_payout_tx] by auto
    have rest: "(case outcome of
                  Inr resp \<Rightarrow> ret resp
                | Inl err \<Rightarrow>
                    if errors_Is err errPayoutKeyConflict
                    then andThen (attempt ?key)
                           (\<lambda>again. case again of
                              Inr (Some existing) \<Rightarrow> ret (duplicateOf existing)
                            | _ \<Rightarrow> fail err)
                    else fail err) w2 = (r, w')"
      using assms g tx nf False
      by (cases found) (auto simp: InitiatePayout_def andThen_attempt split: option.splits)
    show ?thesis
    proof (cases outcome)
      case (Inr resp)
      then have "r = Inr resp" "w' = w2" using rest by simp_all
      moreover obtain w3 w4 where "same w1 w3" "payout_tx e x s t dr req True w3 = (Inr resp, w4)" "same w4 w2"
        using with_tx_ok [OF tx [unfolded Inr]] by blast
      ultimately show ?thesis
        using payout_tx_ok [of e x s t dr req w3 resp w4] w1 mv(1)
          same_trans paid_now_same [of w w3 e s t dr req w4 resp w2]
        by (fastforce simp: same_def)
    next
      case (Inl err)
      obtain again w3 where a: "?key w2 = (again, w3)" by (cases "?key w2")
      have same: "same w w2" using w1 mv Inl by (auto simp: same_def)
      have w3: "same w w3" using same readsD [OF reads_by_key a] by (rule same_trans)
      show ?thesis
      proof (cases "errors_Is err errPayoutKeyConflict \<and> (\<exists>p. again = Inr (Some p))")
        case True
        then obtain p where "again = Inr (Some p)" by blast
        then show ?thesis
          using True rest Inl a by_key_ok [of e t "ipr_IdempotencyKey req" w2 p w3] same w3
          by (auto simp: andThen_attempt read_back_def same_def)
      next
        case False
        then show ?thesis
          using rest Inl a same w3
          by (cases again) (auto simp: andThen_attempt same_def split: if_splits option.splits)
      qed
    qed
  qed
qed

section \<open>Settlements\<close>

text \<open>The entries a settlement asks for, and the appends as one loop over them.\<close>

type_synonym item = "EntryType \<times> float64 \<times> gostring"

definition items :: "ledgerAmounts \<Rightarrow> item list" where
  "items a =
     (if Fin 0 < gross a then [(EntryTripEarning, gross a, ''Trip '' @ tripID a @ '' gross fare'')] else [])
   @ (if Fin 0 < commission a
      then [(EntryCommission, - commission a,
             ''Platform commission ('' @ fmt_f 1 (commissionRate a * F 100) @ ''%)'')] else [])
   @ (if Fin 0 < toll a then [(EntryTollAdjustment, toll a, ''FASTag / Toll reimbursement'')] else [])
   @ (if Fin 0 < advance a
      then [(EntryAdvanceDeduction, - advance a, ''Fuel / Cash advance deduction'')] else [])
   @ (if Fin 0 < tds a
      then [(EntryPenalty, - tds a,
             ''TDS deduction (Sec 194C '' @ fmt_f 1 (tdsRate a * F 100) @ ''%)'')] else [])"

lemma items_types: "map fst (items a) = expectedEntryTypes a"
  by (simp add: items_def expectedEntryTypes_def)

lemma distinct_types: "distinct (expectedEntryTypes a)"
  by (simp add: expectedEntryTypes_def)

lemma for_each_if:
  "for_each f ((if b then [x] else []) @ xs) = andThen (if b then f x else ret ()) (\<lambda>_. for_each f xs)"
  by (cases b) (simp_all add: fun_eq_iff)

lemma andThen_ret_unit: "andThen m (\<lambda>_. ret ()) = (m :: ('d, unit) act)"
  by (auto simp: fun_eq_iff andThen_def ret_def split: prod.split sum.split)

lemma for_each_last: "for_each f (if b then [x] else []) = (if b then f x else ret ())"
  by (cases b) (simp_all add: andThen_ret_unit [unfolded ret_def [abs_def]] fun_eq_iff andThen_def ret_def split: prod.split sum.split)

lemma appendSettlementLedger_loop:
  "appendSettlementLedger e tx t a st =
     for_each (\<lambda>(typ, amount, desc). appendOne e tx t a st typ amount desc) (items a)"
  unfolding items_def for_each_if for_each_last appendSettlementLedger_def by (simp only: prod.case)

definition entry_for :: "ledgerAmounts \<Rightarrow> gostring \<Rightarrow> item \<Rightarrow> LedgerEntry \<Rightarrow> bool" where
  "entry_for a t it en \<longleftrightarrow>
     (\<exists>u. en = settlement_entry a t u (fst it) (fst (snd it)) (snd (snd it)))"

lemma appendOne_effect:
  assumes "appendOne e tx t a st typ amount desc w = (r, w')"
  shows "tick w \<le> tick w' \<and> (case r of
      Inl err \<Rightarrow> db w' = db w
    | Inr _ \<Rightarrow> if st typ then db w' = db w
         else \<exists>en. entry_for a t (typ, amount, desc) en \<and> posts e t (tick w) (db w) [en] (db w') (tick w'))"
proof (cases "st typ")
  case True
  then show ?thesis using assms by (auto simp: appendOne_def)
next
  case False
  define en where "en = settlement_entry a t (uuid_at e (tick w)) typ amount desc"
  let ?w = "w\<lparr>tick := Suc (tick w)\<rparr>"
  have r: "wrap ''append settlement ledger entry: '' (AppendLedgerEntry e tx t en) ?w = (r, w')"
    using assms False by (simp add: appendOne_def en_def)
  have en: "entry_for a t (typ, amount, desc) en" by (auto simp: entry_for_def en_def)
  show ?thesis
  proof (cases r)
    case (Inl err)
    then obtain e0 where "AppendLedgerEntry e tx t en ?w = (Inl e0, w')" using r by (auto simp: wrap_err)
    then have "same ?w w'" by (rule atomicD [OF atomic_Append])
    then show ?thesis using Inl by (simp add: same_def)
  next
    case (Inr u)
    then have "AppendLedgerEntry e tx t en ?w = (Inr u, w')" using r by simp
    then obtain k where k: "tick ?w \<le> k" "k < tick w'"
      "db w' = (db ?w)\<lparr>ledger := ledger (db ?w) @ [posted t en (now_at e k) (db ?w)]\<rparr>"
      by (rule AppendLedgerEntry_ok)
    have "posts e t (tick w) (db w) [en] (db w') (tick w')"
      using posts_one [of "tick w" k "tick w'" e t "db w" en] k by simp
    then show ?thesis using Inr False en k(1,2) by auto
  qed
qed

text \<open>The loop writes the missing entries in order, up to the first failure.\<close>

definition writes_items ::
  "env \<Rightarrow> gostring \<Rightarrow> ledgerAmounts \<Rightarrow> item list \<Rightarrow> settle_db world \<Rightarrow> settle_db world \<Rightarrow> bool" where
  "writes_items e t a its w w' \<longleftrightarrow>
     (\<exists>ens. list_all2 (entry_for a t) its ens \<and> posts e t (tick w) (db w) ens (db w') (tick w'))"

lemma writes_Nil: "same w w' \<Longrightarrow> writes_items e t a [] w w'"
  unfolding writes_items_def same_def by (auto intro!: posts_nil)

lemma writes_append:
  assumes "writes_items e t a its w w1" and "writes_items e t a its2 w1 w2"
  shows "writes_items e t a (its @ its2) w w2"
  using assms unfolding writes_items_def by (blast intro: list_all2_appendI posts_trans)

lemma loop_effect:
  assumes "for_each (\<lambda>(typ, amount, desc). appendOne e tx t a st typ amount desc) its w = (r, w')"
  shows "\<exists>pre. prefix pre (filter (\<lambda>it. \<not> st (fst it)) its) \<and> writes_items e t a pre w w'
    \<and> (r = Inr () \<longrightarrow> pre = filter (\<lambda>it. \<not> st (fst it)) its)"
  using assms
proof (induction its arbitrary: w)
  case Nil
  then show ?case by (auto intro: writes_Nil)
next
  case (Cons it its)
  obtain ty amount desc where it: "it = (ty, amount, desc)" by (cases it)
  let ?one = "appendOne e tx t a st ty amount desc"
  from Cons.prems have "andThen ?one (\<lambda>_. for_each (\<lambda>(typ, amount, desc).
      appendOne e tx t a st typ amount desc) its) w = (r, w')" by (simp add: it)
  then show ?case
  proof (rule andThen_cases)
    fix err0
    assume "?one w = (Inl err0, w')" and "r = Inl err0"
    then have "same w w'" using appendOne_effect by (fastforce simp: same_def)
    then show ?case using \<open>r = Inl err0\<close> by (intro exI [of _ "[]"]) (simp add: writes_Nil)
  next
    fix u w1
    assume one: "?one w = (Inr u, w1)" and rest: "for_each (\<lambda>(typ, amount, desc).
        appendOne e tx t a st typ amount desc) its w1 = (r, w')"
    from Cons.IH [OF rest] obtain pre where pre: "prefix pre (filter (\<lambda>it. \<not> st (fst it)) its)"
      "writes_items e t a pre w1 w'" "r = Inr () \<longrightarrow> pre = filter (\<lambda>it. \<not> st (fst it)) its" by blast
    let ?first = "if st ty then [] else [it]"
    have "writes_items e t a ?first w w1"
    proof (cases "st ty")
      case True
      then have "same w w1" using appendOne_effect [OF one] by (simp add: same_def)
      then show ?thesis using True writes_Nil by simp
    next
      case False
      then obtain en where "entry_for a t it en" "posts e t (tick w) (db w) [en] (db w1) (tick w1)"
        using appendOne_effect [OF one] by (auto simp: it)
      then show ?thesis using False unfolding writes_items_def by (intro exI [of _ "[en]"]) simp
    qed
    then have "writes_items e t a (?first @ pre) w w'" using pre(2) by (rule writes_append)
    then show ?case
      using pre(1,3) by (intro exI [of _ "?first @ pre"]) (simp add: it)
  qed
qed

lemma appendSettlementLedger_effect:
  assumes "appendSettlementLedger e tx t a st w = (r, w')"
  shows "\<exists>pre. prefix pre (filter (\<lambda>it. \<not> st (fst it)) (items a)) \<and> writes_items e t a pre w w'
    \<and> (r = Inr () \<longrightarrow> pre = filter (\<lambda>it. \<not> st (fst it)) (items a))"
  using assms unfolding appendSettlementLedger_loop by (rule loop_effect)

text \<open>What creating a settlement does: error, an existing header, or header and entries.\<close>

definition header_of :: "gostring \<Rightarrow> gostring \<Rightarrow> settle_db \<Rightarrow> Settlement option" where
  "header_of t trip d = map_option Settlement.Settlement.truncate
     (find (\<lambda>x. set_TenantID x = t \<and> set_TripID x = trip) (settlements d))"

lemma reads_Get: "reads (GetSettlementByTripID e t trip)"
  by (simp add: GetSettlementByTripID_def reading)

lemma Get_ok: "GetSettlementByTripID e t trip w = (Inr z, w') \<Longrightarrow> z = header_of t trip (db w)"
  by (auto simp: GetSettlementByTripID_def query_ok header_of_def)

text \<open>The repair writes entries of its header that are missing, each type once, and never fails.\<close>

definition repairs :: "env \<Rightarrow> gostring \<Rightarrow> Settlement \<Rightarrow> settle_db world \<Rightarrow> settle_db world \<Rightarrow> bool" where
  "repairs e t s w w' \<longleftrightarrow>
     (\<exists>w1 pre. same w w1 \<and> writes_items e t (amounts_of s) pre w1 w'
        \<and> prefix pre (filter (\<lambda>it. \<not> (\<exists>r \<in> set (ledger (db w)). led_TenantID r = t
              \<and> ReferenceType r = ''settlement'' \<and> ReferenceID r = set_ID s \<and> EntryType r = fst it))
            (items (amounts_of s))))"

lemma repairs_same: "same w w' \<Longrightarrow> repairs e t s w w'"
  unfolding repairs_def by (intro exI [of _ w'] exI [of _ "[]"] conjI writes_Nil) simp_all

lemma repairs_from:
  assumes "same w w1" and "repairs e t s w1 w'"
  shows "repairs e t s w w'"
proof -
  have eq: "db w1 = db w" using assms(1) by (simp add: same_def)
  show ?thesis using assms(2) same_trans [OF assms(1)] unfolding repairs_def eq by blast
qed

lemma repairs_ticks: "repairs e t s w w' \<Longrightarrow> tick w \<le> tick w'"
  unfolding repairs_def writes_items_def same_def by (auto dest: posts_ticks)

lemma backfill_effect:
  assumes "backfillOwnLedger e t s w = (r, w')"
  shows "r = Inr () \<and> repairs e t s w w'"
proof (cases "prefix ''set_'' (set_ID s)")
  case False
  then show ?thesis using assms by (simp add: backfillOwnLedger_def repairs_same)
next
  case True
  let ?leg = "HasLegacySettlementLines e (set_TripID s)"
  let ?list = "ListLedgerEntryTypes e t ''settlement'' (set_ID s)"
  obtain legacy w1 where l: "?leg w = (legacy, w1)" by (cases "?leg w")
  have "reads ?leg" by (simp add: HasLegacySettlementLines_def reading)
  from readsD [OF this l] have w1: "same w w1" .
  obtain listed w2 where s: "?list w1 = (listed, w2)" by (cases "?list w1")
  have "reads ?list" by (simp add: ListLedgerEntryTypes_def reading)
  from readsD [OF this s] w1 have w2: "same w w2" using same_trans by blast
  show ?thesis
  proof (cases "legacy = Inr True \<or> (\<exists>err. listed = Inl err)
      \<or> (\<exists>types. listed = Inr types \<and> list_all (\<lambda>t. t \<in> set types) (expectedEntryTypes (amounts_of s)))")
    case stop: True
    then have "r = Inr () \<and> same w w'"
      using assms l s True w1 w2
      by (auto simp: backfillOwnLedger_def andThen_attempt Let_def split: if_splits)
    then show ?thesis by (simp add: repairs_same)
  next
    case False
    then obtain types where ty: "listed = Inr types" by (cases listed) auto
    let ?app = "appendSettlementLedger e False t (amounts_of s) (\<lambda>t. t \<in> set types)"
    obtain out w3 where app: "?app w2 = (out, w3)" by (cases "?app w2")
    have "r = Inr ()" "w' = w3"
      using assms l s True False app by (auto simp: backfillOwnLedger_def andThen_attempt Let_def ty)
    moreover have "types = remdups (map EntryType (filter (\<lambda>r. led_TenantID r = t
       \<and> ReferenceType r = ''settlement'' \<and> ReferenceID r = set_ID s) (ledger (db w))))"
      using s w1 by (simp add: ty ListLedgerEntryTypes_def query_ok same_def)
    then have "(\<lambda>it :: item. \<not> fst it \<in> set types) = (\<lambda>it. \<not> (\<exists>r \<in> set (ledger (db w)). led_TenantID r = t
       \<and> ReferenceType r = ''settlement'' \<and> ReferenceID r = set_ID s \<and> EntryType r = fst it))"
      by (auto simp: fun_eq_iff)
    ultimately show ?thesis
      using appendSettlementLedger_effect [OF app] w2 unfolding repairs_def by fastforce
  qed
qed

definition settlement_row :: "gostring \<Rightarrow> Settlement \<Rightarrow> SettlementRow" where
  "settlement_row t s = Settlement.Settlement.extend (s\<lparr>set_TenantID := t\<rparr>)
     (SettlementRow.fields (CommissionAmount s + AdvanceDeductions s + TDSAmount s - TollAdjustment s))"

definition fresh_settlement :: "Settlement \<Rightarrow> settle_db \<Rightarrow> bool" where
  "fresh_settlement s d \<longleftrightarrow>
     (\<forall>x \<in> set (settlements d). set_ID x \<noteq> set_ID s \<and> set_TripID x \<noteq> set_TripID s)"

definition requested :: "gotime \<Rightarrow> gostring \<Rightarrow> gostring \<Rightarrow> CalculateSettlementRequest \<Rightarrow> Settlement" where
  "requested now u t req = CalculateSettlement now (''set_'' @ u) t (req_TripID req)
     (req_DriverID req) (req_GrossFare req) (req_TollAdjustment req)
     (req_AdvanceDeductions req) (req_CommissionRate req) (req_TDSRate req)"

definition created ::
  "env \<Rightarrow> gostring \<Rightarrow> Settlement \<Rightarrow> settle_db world \<Rightarrow> settle_db world \<Rightarrow> bool" where
  "created e t s w w' \<longleftrightarrow>
     fresh_settlement s (db w)
   \<and> (\<exists>k ens. tick w \<le> k \<and> list_all2 (entry_for (amounts_of s) t) (items (amounts_of s)) ens
        \<and> posts e t k ((db w)\<lparr>settlements := settlements (db w) @ [settlement_row t s]\<rparr>) ens
            (db w') (tick w'))"

lemma created_from:
  assumes "same w w1" and "created e t s w1 w2" and "same w2 w'"
  shows "created e t s w w'"
proof -
  have eq: "db w1 = db w" "db w2 = db w'" and le: "tick w \<le> tick w1" "tick w2 \<le> tick w'"
    using assms(1,3) by (simp_all add: same_def)
  obtain k ens where k: "fresh_settlement s (db w)" "tick w1 \<le> k"
    "list_all2 (entry_for (amounts_of s) t) (items (amounts_of s)) ens"
    "posts e t k ((db w)\<lparr>settlements := settlements (db w) @ [settlement_row t s]\<rparr>) ens (db w') (tick w2)"
    using assms(2) unfolding created_def eq by blast
  show ?thesis
    unfolding created_def
    by (intro conjI exI [of _ k] exI [of _ ens] k le_trans [OF le(1) k(2)]
        posts_widen [OF k(4) le_refl le(2)])
qed

lemma row_fields [simp]:
  "set_Status (settlement_row t s) = set_Status s" "set_ID (settlement_row t s) = set_ID s"
  "set_TripID (settlement_row t s) = set_TripID s" "set_TenantID (settlement_row t s) = t"
  by (simp_all add: settlement_row_def Settlement.Settlement.extend_def SettlementRow.fields_def)

lemma moves_on_create: "moves_on (CreateSettlement e True t s)"
  unfolding CreateSettlement_def createSettlementTx_def Let_def by (intro moving)

lemma moves_on_ledger: "moves_on (appendSettlementLedger e tx t a st)"
  unfolding appendSettlementLedger_def appendOne_def by (intro moving moves_on_Append)

lemma CreateSettlement_ok:
  assumes "CreateSettlement e True t s w = (Inr u, w')"
  shows "fresh_settlement s (db w) \<and> tick w \<le> tick w'
    \<and> db w' = (db w)\<lparr>settlements := settlements (db w) @ [settlement_row t s]\<rparr>"
  using assms
  by (auto simp: CreateSettlement_def createSettlementTx_def andThen_ok query_ok exec_stmt_ok Let_def
      insert_settlement_def fresh_settlement_def settlement_row_def [symmetric] split: if_splits)

lemma CreateSettlement_err: "CreateSettlement e True t s w = (Inl err, w') \<Longrightarrow> same w w'"
proof -
  have "atomic (CreateSettlement e True t s)"
    unfolding CreateSettlement_def createSettlementTx_def Let_def
    by (auto intro!: atomic_andThen reading atomic_wrap atomic_exec_stmt atomic_reads [OF reads_fail])
  then show "CreateSettlement e True t s w = (Inl err, w') \<Longrightarrow> same w w'" by (rule atomicD)
qed

text \<open>The body of the creating transaction.\<close>

definition create_body ::
  "env \<Rightarrow> gostring \<Rightarrow> gostring \<Rightarrow> Settlement \<Rightarrow> bool \<Rightarrow> Settlement sact" where
  "create_body e t trip s tx =
     andThen (attempt (CreateSettlement e tx t s)) (\<lambda>made.
       case made of
         Inl err \<Rightarrow>
           andThen (attempt (GetSettlementByTripID e t trip)) (\<lambda>again.
             case again of
               Inr (Some existing) \<Rightarrow> ret existing
             | _ \<Rightarrow> fail (ErrWrap ''failed creating settlement: '' err))
       | Inr _ \<Rightarrow>
           andThen (appendSettlementLedger e tx t (amounts_of s) (\<lambda>_. False)) (\<lambda>_. ret s))"

lemma moves_on_create_body: "moves_on (create_body e t trip s True)"
  unfolding create_body_def
  by (intro moving moves_on_create moves_on_ledger moves_on_reads [OF reads_Get])

lemma create_body_ok:
  assumes "create_body e t trip s True w = (Inr out, w')"
  shows "same w w' \<and> header_of t trip (db w) = Some out \<or> out = s \<and> created e t s w w'"
proof -
  obtain made w1 where c: "CreateSettlement e True t s w = (made, w1)"
    by (cases "CreateSettlement e True t s w")
  show ?thesis
  proof (cases made)
    case (Inl err)
    have w1: "same w w1" using CreateSettlement_err c Inl by blast
    obtain again w2 where g: "GetSettlementByTripID e t trip w1 = (again, w2)"
      by (cases "GetSettlementByTripID e t trip w1")
    have "again = Inr (Some out)" "w' = w2"
      using assms c Inl g
      by (auto simp: create_body_def andThen_attempt split: sum.splits option.splits)
    moreover from this have "header_of t trip (db w1) = Some out" using Get_ok g by metis
    ultimately show ?thesis
      using w1 same_trans [OF w1 readsD [OF reads_Get g]] by (simp add: same_def)
  next
    case (Inr u)
    obtain w2 where a: "appendSettlementLedger e True t (amounts_of s) (\<lambda>_. False) w1 = (Inr (), w2)"
      and out: "out = s" "w' = w2"
      using assms c Inr by (auto simp: create_body_def andThen_attempt andThen_ok)
    have "writes_items e t (amounts_of s) (items (amounts_of s)) w1 w2"
      using appendSettlementLedger_effect [OF a] by simp
    then show ?thesis
      using CreateSettlement_ok [OF c [unfolded Inr]] out
      unfolding created_def writes_items_def by fastforce
  qed
qed

lemma Calculate_effect:
  assumes "CalculateAndCreateSettlement e t req w = (r, w')"
  shows "tick w \<le> tick w' \<and> (case r of
      Inl err \<Rightarrow> db w' = db w
    | Inr s \<Rightarrow> header_of t (req_TripID req) (db w) = Some s \<and> repairs e t s w w'
        \<or> (\<exists>now u. s = requested now u t req \<and> created e t s w w'))"
proof (cases "t = '''' \<or> req_TripID req = '''' \<or> req_DriverID req = ''''")
  case True
  then show ?thesis using assms by (auto simp: CalculateAndCreateSettlement_def split: if_splits)
next
  case False
  let ?get = "GetSettlementByTripID e t (req_TripID req)"
  obtain u1 w1 where warn: "warnIfLegacySettlement e (req_TripID req) w = (u1, w1)"
    by (cases "warnIfLegacySettlement e (req_TripID req) w")
  have "reads (warnIfLegacySettlement e (req_TripID req))"
    unfolding warnIfLegacySettlement_def HasLegacySettlementLines_def by (intro reading)
  from readsD [OF this warn] have w1: "same w w1" .
  have u1: "u1 = Inr ()" using warn by (auto simp: warnIfLegacySettlement_def andThen_attempt)
  obtain found w2 where g: "?get w1 = (found, w2)" by (cases "?get w1")
  have w2: "same w w2" using w1 readsD [OF reads_Get g] by (rule same_trans)
  show ?thesis
  proof (cases "\<exists>s. found = Inr (Some s)")
    case True
    then obtain s where s: "found = Inr (Some s)" by blast
    then have h: "header_of t (req_TripID req) (db w) = Some s" using Get_ok g w1 by (metis same_def)
    obtain r3 w3 where b: "backfillOwnLedger e t s w2 = (r3, w3)" by (cases "backfillOwnLedger e t s w2")
    have "r3 = Inr ()" "repairs e t s w2 w3" using backfill_effect [OF b] by simp_all
    moreover from this have "r = Inr s" "w' = w3"
      using assms False warn u1 g s b by (simp_all add: CalculateAndCreateSettlement_def andThen_def attempt_def)
    ultimately have "r = Inr s \<and> repairs e t s w w'" using repairs_from [OF w2] by simp
    then show ?thesis using h repairs_ticks by fastforce
  next
    case nf: False
    define u where "u = uuid_at e (tick w2)"
    define now where "now = now_at e (Suc (tick w2))"
    let ?s = "requested now u t req"
    let ?w = "w2\<lparr>tick := Suc (Suc (tick w2))\<rparr>"
    have tx: "with_tx e False (create_body e t (req_TripID req) ?s) ?w = (r, w')"
      using assms False warn u1 g nf
      by (cases found)
         (auto simp: CalculateAndCreateSettlement_def create_body_def [abs_def] requested_def Let_def
            andThen_def [of "warnIfLegacySettlement _ _"] andThen_attempt u_def now_def split: option.splits)
    have ticks: "tick w \<le> tick w'"
      using with_tx_cases [OF tx moves_on_create_body] w2 by (simp add: same_def)
    show ?thesis
    proof (cases r)
      case (Inl err)
      then show ?thesis using with_tx_cases [OF tx moves_on_create_body] w2 ticks by (simp add: same_def)
    next
      case (Inr out)
      obtain w3 w4 where w3: "same ?w w3" and body: "create_body e t (req_TripID req) ?s True w3 = (Inr out, w4)"
        and w4: "same w4 w'" using with_tx_ok [OF tx [unfolded Inr]] by blast
      have w03: "same w w3" using w2 w3 by (simp add: same_def)
      from create_body_ok [OF body] show ?thesis
      proof
        assume h: "same w3 w4 \<and> header_of t (req_TripID req) (db w3) = Some out"
        then have "same w w'" using w03 w4 same_trans by blast
        then have "repairs e t out w w'" by (rule repairs_same)
        then show ?thesis using h w03 ticks Inr by (simp add: same_def)
      next
        assume c: "out = ?s \<and> created e t ?s w3 w4"
        then have "created e t ?s w w'" using created_from [OF w03 _ w4] by blast
        then show ?thesis using c ticks Inr by auto
      qed
    qed
  qed
qed

section \<open>Callbacks\<close>

text \<open>What admission establishes, as a fact of the request and the tables.\<close>

definition admissible ::
  "externals \<Rightarrow> SettlementAppService \<Rightarrow> gostring \<Rightarrow> gostring \<Rightarrow> gostring \<Rightarrow> settle_db
    \<Rightarrow> PayoutInstruction \<Rightarrow> RazorpayWebhookPayload \<Rightarrow> bool" where
  "admissible x s evid signature body d p payload \<longleftrightarrow>
     evid \<noteq> '''' \<and> webhookSecret s \<noteq> '''' \<and> signature = hmac_sha256_hex x (webhookSecret s) body
   \<and> unmarshal_webhook x body = Inr payload
   \<and> find (\<lambda>q. pay_ID q = ent_Reference (payload_Entity payload)) (payouts d) = Some p
   \<and> reconcile_error (payload_Entity payload) p = None
   \<and> payout_move (pay_Status p) (outcome_status (payload_Entity payload))"

lemma reads_ByIDGlobal: "reads (GetPayoutByIDGlobal e i)"
  unfolding GetPayoutByIDGlobal_def by (intro reading)

lemma ByIDGlobal_ok:
  "GetPayoutByIDGlobal e i w = (Inr p, w') \<Longrightarrow> find (\<lambda>q. pay_ID q = i) (payouts (db w)) = Some p"
  by (auto simp: GetPayoutByIDGlobal_def andThen_ok query_ok split: option.splits)

lemma reads_admit: "reads (webhook_admit e x s evid signature body)"
  unfolding webhook_admit_def IsProviderEventProcessed_def Let_def
  by (intro reading reads_ByIDGlobal)

lemma admit_ok:
  assumes "webhook_admit e x s evid signature body w = (Inr (Some (p, payload)), w')"
  shows "admissible x s evid signature body (db w) p payload"
proof -
  let ?done = "IsProviderEventProcessed e ''razorpay'' evid"
  obtain processed w1 where d: "?done w = (processed, w1)" by (cases "?done w")
  have "reads ?done" by (simp add: IsProviderEventProcessed_def reading)
  from readsD [OF this d] have w1: "db w1 = db w" by (simp add: same_def)
  have pre: "evid \<noteq> ''''" "webhookSecret s \<noteq> ''''" "signature = hmac_sha256_hex x (webhookSecret s) body"
    "processed \<noteq> Inr True"
    using assms d by (auto simp: webhook_admit_def andThen_attempt split: if_splits)
  obtain q where q: "unmarshal_webhook x body = Inr q"
    using assms d pre by (cases "unmarshal_webhook x body") (auto simp: webhook_admit_def andThen_attempt split: if_splits)
  obtain found w2 where g: "GetPayoutByIDGlobal e (ent_Reference (payload_Entity q)) w1 = (Inr found, w2)"
    and rest: "(case reconcile_error (payload_Entity q) found of
                      Some err \<Rightarrow> fail err
                    | None \<Rightarrow>
                        (case CanTransitionTo found (outcome_status (payload_Entity q)) of
                           Some err \<Rightarrow> fail (ErrMsg (payout_error_text err))
                         | None \<Rightarrow> ret (Some (found, q)))) w2 = (Inr (Some (p, payload)), w')"
    using assms d pre q
    by (auto simp: webhook_admit_def andThen_attempt andThen_ok [of "wrap _ _"] Let_def split: if_splits)
  have "reconcile_error (payload_Entity q) found = None"
    "CanTransitionTo found (outcome_status (payload_Entity q)) = None" "found = p" "q = payload"
    using rest by (auto split: option.splits)
  then show ?thesis
    using pre q ByIDGlobal_ok [OF g] w1 by (simp add: admissible_def CanTransitionTo_None)
qed

text \<open>What the transaction of an admitted callback writes.\<close>

definition closing :: "PayoutStatus \<Rightarrow> bool" where
  "closing st \<longleftrightarrow> st = PayoutFailed \<or> st = PayoutReversed"

definition reconciled ::
  "env \<Rightarrow> PayoutInstruction \<Rightarrow> RazorpayWebhookPayload \<Rightarrow> settle_db world \<Rightarrow> settle_db world \<Rightarrow> bool" where
  "reconciled e p payload w w' \<longleftrightarrow>
     (\<exists>now done_at d1 ens d2 evs.
        let ent = payload_Entity payload; st = outcome_status ent in
        d1 = update_payout (pay_TenantID p) (pay_ID p) st (Some (ent_ID ent)) (non_empty (ent_UTR ent))
               (non_empty (ent_ErrorDesc ent)) done_at now (db w)
      \<and> posts e (pay_TenantID p) (tick w) d1 ens d2 (tick w')
      \<and> (if closing st \<and> \<not> has_entry (pay_TenantID p) ''payout_reversal'' (pay_ID p) d1
         then \<exists>u. ens = [reversal_entry u (pay_TenantID p) p st] else ens = [])
      \<and> db w' = d2\<lparr>provider_events := provider_events d2 @ evs\<rparr>)"

lemma moves_on_webhook_tx: "moves_on (webhook_tx e evid body p payload True)"
  unfolding webhook_tx_def Let_def UpdatePayoutStatus_def HasCompensatingLedgerEntry_def RecordProviderEvent_def
  by (intro moving moves_on_Append)

lemma reconciled_from:
  assumes "same w w1" and "reconciled e p payload w1 w2" and "same w2 w'"
  shows "reconciled e p payload w w'"
proof -
  have eq: "db w1 = db w" "db w2 = db w'" and le: "tick w \<le> tick w1" "tick w2 \<le> tick w'"
    using assms(1,3) by (simp_all add: same_def)
  show ?thesis
    using assms(2) posts_widen [OF _ le] unfolding reconciled_def Let_def eq by blast
qed

lemma Update_ok:
  assumes "UpdatePayoutStatus e t i st prov utr reason w = (Inr u, w')"
  obtains now done_at where "db w' = update_payout t i st prov utr reason done_at now (db w)"
    and "tick w \<le> tick w'"
  using assms by (auto simp: UpdatePayoutStatus_def exec_stmt_ok Let_def split: if_splits)

lemma Record_effect:
  assumes "RecordProviderEvent e t pr i ty b w = (r, w')"
  obtains evs where "db w' = (db w)\<lparr>provider_events := provider_events (db w) @ evs\<rparr>"
    and "tick w \<le> tick w'"
proof -
  have "tick w \<le> tick w' \<and> (db w' = db w \<or> (\<exists>v. db w' = (db w)\<lparr>provider_events := provider_events (db w) @ [v]\<rparr>))"
    using assms by (auto simp: RecordProviderEvent_def exec_stmt_def insert_event_def Let_def
        split: option.splits sum.splits if_splits)
  then show ?thesis using that [of "[]"] that by fastforce
qed

lemma webhook_tx_ok:
  assumes "webhook_tx e evid body p payload True w = (Inr u, w')"
  shows "reconciled e p payload w w'"
proof -
  define ent where "ent = payload_Entity payload"
  define st where "st = outcome_status ent"
  define t where "t = pay_TenantID p"
  let ?upd = "UpdatePayoutStatus e t (pay_ID p) st (Some (ent_ID ent)) (non_empty (ent_UTR ent))
              (non_empty (ent_ErrorDesc ent))"
  let ?comp = "if st = PayoutFailed \<or> st = PayoutReversed
            then andThen (wrap ''check compensating ledger entry: ''
                   (HasCompensatingLedgerEntry e t ''payout_reversal'' (pay_ID p))) (\<lambda>hasComp.
                   if \<not> hasComp
                   then andThen (new_uuid e) (\<lambda>uuid.
                          wrap ''append compensating ledger entry: ''
                            (AppendLedgerEntry e True t (reversal_entry uuid t p st)))
                   else ret ())
            else ret ()"
  obtain u1 w1 u2 w2 r3 w3 where w1: "?upd w = (Inr u1, w1)" and w2: "?comp w1 = (Inr u2, w2)"
    and w3: "RecordProviderEvent e t ''razorpay'' evid (Event payload) body w2 = (r3, w3)"
    and w': "w' = w3"
  proof -
    let ?rec = "RecordProviderEvent e t ''razorpay'' evid (Event payload) body"
    let ?fin = "\<lambda>r. case r of Inr _ \<Rightarrow> ret ()
            | Inl err \<Rightarrow> if isUniqueConflict err then ret ()
                         else fail (ErrWrap ''record provider event: '' err)"
    have "andThen (wrap ''failed updating payout status: '' ?upd) (\<lambda>_. andThen ?comp
        (\<lambda>_. andThen (attempt ?rec) ?fin)) w = (Inr u, w')"
      using assms unfolding webhook_tx_def Let_def ent_def st_def t_def .
    then obtain u1 w1 u2 w2 where 1: "?upd w = (Inr u1, w1)" "?comp w1 = (Inr u2, w2)"
        and 2: "?fin (fst (?rec w2)) (snd (?rec w2)) = (Inr u, w')"
      unfolding andThen_ok [of "wrap _ ?upd"] andThen_ok [of ?comp] wrap_ok andThen_attempt by blast
    have "w' = snd (?rec w2)" using 2 by (auto split: sum.splits if_splits)
    then show ?thesis using that [OF 1, of "fst (?rec w2)" "snd (?rec w2)"] by simp
  qed
  obtain now done_at where d1: "db w1 = update_payout t (pay_ID p) st (Some (ent_ID ent))
      (non_empty (ent_UTR ent)) (non_empty (ent_ErrorDesc ent)) done_at now (db w)" and t1: "tick w \<le> tick w1"
    using Update_ok [OF w1] by blast
  obtain evs where d3: "db w3 = (db w2)\<lparr>provider_events := provider_events (db w2) @ evs\<rparr>" and t3: "tick w2 \<le> tick w3"
    using Record_effect [OF w3] by blast
  have "\<exists>ens. posts e t (tick w1) (db w1) ens (db w2) (tick w2)
      \<and> (if closing st \<and> \<not> has_entry t ''payout_reversal'' (pay_ID p) (db w1)
         then \<exists>u. ens = [reversal_entry u t p st] else ens = [])"
  proof (cases "closing st \<and> \<not> has_entry t ''payout_reversal'' (pay_ID p) (db w1)")
    case True
    let ?wa = "w1\<lparr>tick := Suc (Suc (tick w1))\<rparr>"
    from True have "AppendLedgerEntry e True t (reversal_entry (uuid_at e (Suc (tick w1))) t p st) ?wa = (Inr u2, w2)"
      using w2 by (auto simp: closing_def andThen_ok HasCompensatingLedgerEntry_def query_ok split: if_splits)
    then obtain u wa where wa: "db wa = db w1" "tick w1 \<le> tick wa"
      "AppendLedgerEntry e True t (reversal_entry u t p st) wa = (Inr u2, w2)"
      using that [of ?wa] by simp
    then obtain k where "tick wa \<le> k" "k < tick w2"
      "db w2 = (db w1)\<lparr>ledger := ledger (db w1) @ [posted t (reversal_entry u t p st) (now_at e k) (db w1)]\<rparr>"
      using AppendLedgerEntry_ok by metis
    then have "posts e t (tick w1) (db w1) [reversal_entry u t p st] (db w2) (tick w2)"
      using posts_one [of "tick w1" k "tick w2"] wa(2) by simp
    then show ?thesis using True by auto
  next
    case False
    then have "same w1 w2"
      using w2 by (auto simp: closing_def andThen_ok HasCompensatingLedgerEntry_def query_ok same_def split: if_splits)
    then show ?thesis using False by (intro exI [of _ "[]"]) (simp add: same_def posts_nil)
  qed
  then obtain ens where ens: "posts e t (tick w1) (db w1) ens (db w2) (tick w2)"
    "if closing st \<and> \<not> has_entry t ''payout_reversal'' (pay_ID p) (db w1)
     then \<exists>u. ens = [reversal_entry u t p st] else ens = []" by blast
  have "posts e t (tick w) (db w1) ens (db w2) (tick w3)" by (rule posts_widen [OF ens(1) t1 t3])
  then show ?thesis
    unfolding reconciled_def Let_def ent_def [symmetric] st_def [symmetric] t_def [symmetric]
    using d1 d3 ens(2) w'
    by (intro exI [of _ now] exI [of _ done_at] exI [of _ "db w1"] exI [of _ ens] exI [of _ "db w2"]
        exI [of _ evs] conjI) (simp_all only:)
qed

lemma Webhook_effect:
  assumes "ProcessProviderWebhook e x s ct evid signature body w = (r, w')"
  shows "tick w \<le> tick w' \<and> (case r of
      Inl err \<Rightarrow> db w' = db w
    | Inr _ \<Rightarrow> same w w' \<or> (\<exists>p payload. admissible x s evid signature body (db w) p payload
                                      \<and> reconciled e p payload w w'))"
proof -
  obtain r1 w1 where a: "webhook_admit e x s evid signature body w = (r1, w1)"
    by (cases "webhook_admit e x s evid signature body w")
  have w1: "same w w1" by (rule readsD [OF reads_admit a])
  show ?thesis
  proof (cases "\<exists>p payload. r1 = Inr (Some (p, payload))")
    case True
    then obtain p payload where r1: "r1 = Inr (Some (p, payload))" by blast
    have tx: "with_tx e False (webhook_tx e evid body p payload) w1 = (r, w')"
      using assms a r1 by (simp add: ProcessProviderWebhook_def andThen_def webhook_apply_def)
    have ticks: "tick w \<le> tick w'" and err: "\<And>x. r = Inl x \<Longrightarrow> db w' = db w"
      using with_tx_cases [OF tx moves_on_webhook_tx] w1 by (auto simp: same_def)
    show ?thesis
    proof (cases r)
      case (Inl er)
      then show ?thesis using ticks err by simp
    next
      case (Inr u)
      obtain w2 w3 where "same w1 w2" "webhook_tx e evid body p payload True w2 = (Inr u, w3)" "same w3 w'"
        using with_tx_ok [OF tx [unfolded Inr]] by blast
      then have "reconciled e p payload w w'"
        using webhook_tx_ok same_trans [OF w1] reconciled_from by blast
      then show ?thesis using admit_ok a r1 ticks Inr by fastforce
    qed
  next
    case False
    then have "same w w'"
      using assms a w1
      by (cases r1) (auto simp: ProcessProviderWebhook_def andThen_def split: option.splits)
    then show ?thesis by (cases r) (simp_all add: same_def)
  qed
qed

end
