(* ===== verification/SettleProps.thy ===== *)
theory SettleProps
  imports SettleBooks
begin

text \<open>
  The books of the settlement service over every sequence of its calls, with failures at any
  point: the invariant, its preservation, and the properties that rest on it.
\<close>

section \<open>The books\<close>

definition refs :: "gostring \<Rightarrow> gostring \<Rightarrow> settle_db \<Rightarrow> LedgerEntry list" where
  "refs kind i d = filter (\<lambda>r. ReferenceType r = kind \<and> ReferenceID r = i) (ledger d)"

definition for_payout :: "PayoutInstruction \<Rightarrow> float64 \<Rightarrow> LedgerEntry \<Rightarrow> bool" where
  "for_payout p amt r \<longleftrightarrow>
     led_TenantID r = pay_TenantID p \<and> led_DriverID r = pay_DriverID p \<and> led_Amount r = amt"

text \<open>
  A payout is booked when exactly one debit of its amount refers to it, and exactly one credit of
  its amount if it failed or was reversed, none otherwise.
\<close>

definition booked :: "settle_db \<Rightarrow> PayoutInstruction \<Rightarrow> bool" where
  "booked d p \<longleftrightarrow>
     (\<exists>r. refs ''payout'' (pay_ID p) d = [r] \<and> for_payout p (- pay_Amount p) r)
   \<and> (if closing (pay_Status p)
      then \<exists>r. refs ''payout_reversal'' (pay_ID p) d = [r] \<and> for_payout p (pay_Amount p) r
      else refs ''payout_reversal'' (pay_ID p) d = [])"

definition payout_key :: "PayoutInstruction \<Rightarrow> gostring \<times> gostring" where
  "payout_key p = (pay_TenantID p, IdempotencyKey p)"

definition books :: "settle_db \<Rightarrow> bool" where
  "books d \<longleftrightarrow> distinct (map pay_ID (payouts d)) \<and> distinct (map payout_key (payouts d))
   \<and> (\<forall>p \<in> set (payouts d). booked d p)
   \<and> (\<forall>r \<in> set (ledger d). ReferenceType r \<in> {''payout'', ''payout_reversal''}
        \<longrightarrow> ReferenceID r \<in> pay_ID ` set (payouts d))"

definition solvent :: "settle_db \<Rightarrow> bool" where
  "solvent d \<longleftrightarrow> (\<forall>r \<in> set (ledger d). EntryType r = EntryPayout \<longrightarrow> \<not> BalanceAfter r < Fin 0)"

definition one_per_trip :: "settle_db \<Rightarrow> bool" where
  "one_per_trip d \<longleftrightarrow> distinct (map set_TripID (settlements d))
     \<and> (\<forall>x \<in> set (settlements d). settlement_status_ok (set_Status x))"

lemma refs_append [simp]:
  "refs kind i (d\<lparr>ledger := ledger d @ rs\<rparr>) =
     refs kind i d @ filter (\<lambda>r. ReferenceType r = kind \<and> ReferenceID r = i) rs"
  by (simp add: refs_def)

lemma refs_cong: "ledger d = ledger d' \<Longrightarrow> refs kind i d = refs kind i d'"
  by (simp add: refs_def)

lemma books_cong: "ledger d = ledger d' \<Longrightarrow> payouts d = payouts d' \<Longrightarrow> books d = books d'"
  by (simp add: books_def booked_def refs_cong [of d d'])

section \<open>Preservation by appends\<close>

text \<open>Rows of other kinds leave the books as they are.\<close>

lemma books_other_rows:
  assumes "books d" and "\<And>r. r \<in> set rs \<Longrightarrow> ReferenceType r = ''settlement''"
  shows "books (d\<lparr>ledger := ledger d @ rs\<rparr>)"
proof -
  have none: "filter (\<lambda>r. ReferenceType r = kind \<and> ReferenceID r = i) rs = []"
    if "kind \<noteq> ''settlement''" for kind i
    using assms(2) that by (auto simp: filter_empty_conv)
  then have "refs kind i (d\<lparr>ledger := ledger d @ rs\<rparr>) = refs kind i d" if "kind \<noteq> ''settlement''" for kind i
    using that by simp
  then have eq: "booked (d\<lparr>ledger := ledger d @ rs\<rparr>) p = booked d p" for p
    by (simp add: booked_def del: refs_append)
  have sel: "payouts (d\<lparr>ledger := ledger d @ rs\<rparr>) = payouts d"
    "ledger (d\<lparr>ledger := ledger d @ rs\<rparr>) = ledger d @ rs" by simp_all
  have "ReferenceType r \<notin> {''payout'', ''payout_reversal''}" if "r \<in> set rs" for r
    using assms(2) [OF that] by simp
  then show ?thesis using assms(1) unfolding books_def eq sel set_append by blast
qed

lemma no_orphans:
  assumes "books d" and "kind \<in> {''payout'', ''payout_reversal''}" and "i \<notin> pay_ID ` set (payouts d)"
  shows "refs kind i d = []"
proof -
  have "ReferenceID r \<noteq> i" if "r \<in> set (ledger d)" "ReferenceType r = kind" for r
    using assms that unfolding books_def by blast
  then show ?thesis by (auto simp: refs_def filter_empty_conv)
qed

lemma items_entry:
  assumes "entry_for a t it en"
  shows "ReferenceType en = ''settlement''" "ReferenceID en = settlementID a" "led_CreatedAt en = 0"
    "EntryType en = fst it" "led_Amount en = fst (snd it)" "led_DriverID en = driverID a"
  using assms by (auto simp: entry_for_def settlement_entry_def)

lemma item_type_not_payout: "it \<in> set (items a) \<Longrightarrow> fst it \<noteq> EntryPayout"
  by (auto simp: items_def split: if_splits)

lemma list_all2_in1: "list_all2 R xs ys \<Longrightarrow> y \<in> set ys \<Longrightarrow> \<exists>x \<in> set xs. R x y"
  by (induction rule: list_all2_induct) auto

text \<open>Writing a settlement's entries, in whole or in part, keeps everything.\<close>

lemma posts_items:
  assumes "posts e t k d ens d' k'" and "list_all2 (entry_for a t) its ens"
    and "\<And>it. it \<in> set its \<Longrightarrow> it \<in> set (items a)"
    and "timed e k d" and "books d" and "solvent d" and "one_per_trip d"
  shows "timed e k' d' \<and> books d' \<and> solvent d' \<and> one_per_trip d'"
proof -
  have en: "\<exists>it \<in> set (items a). entry_for a t it en" if "en \<in> set ens" for en
    using list_all2_in1 [OF assms(2) that] assms(3) by blast
  have "timed e k' d'" using assms(1,4) by (rule timed_posts) (use en items_entry(3) in blast)
  moreover obtain rows where d': "d' = d\<lparr>ledger := ledger d @ rows\<rparr>" and st: "list_all2 (stamped t) ens rows"
    using posts_rows [OF assms(1)] by blast
  have row: "ReferenceType r = ''settlement''" "EntryType r \<noteq> EntryPayout" if r: "r \<in> set rows" for r
  proof -
    obtain en0 where en0: "en0 \<in> set ens" "stamped t en0 r" using list_all2_in1 [OF st r] by blast
    obtain it where "it \<in> set (items a)" "entry_for a t it en0" using en [OF en0(1)] by blast
    with stampedD(4,6) [OF en0(2)] show "ReferenceType r = ''settlement''" "EntryType r \<noteq> EntryPayout"
      using items_entry(1,4) item_type_not_payout by auto
  qed
  have "books d'" unfolding d' using assms(5) row(1) by (rule books_other_rows)
  moreover have "solvent d'" using assms(6) row(2) by (auto simp: d' solvent_def)
  moreover have "one_per_trip d'" using assms(7) by (simp add: d' one_per_trip_def)
  ultimately show ?thesis by blast
qed

section \<open>Preservation by payouts\<close>

text \<open>A balance that covers an amount is not negative after the debit.\<close>

lemma fl_nonneg: "0 \<le> v \<Longrightarrow> \<not> fl v < Fin 0"
  using fl_val_nonneg [of v] by (auto simp: fl_def Let_def)

lemma round2_nonneg: "\<not> x < Fin 0 \<Longrightarrow> \<not> round2 x < Fin 0"
proof (cases x)
  case (Fin v)
  assume "\<not> x < Fin 0"
  then have "0 \<le> v * 100" using Fin by simp
  then have "\<not> fl (v * 100) < Fin 0" by (rule fl_nonneg)
  then show ?thesis
  proof (cases "fl (v * 100)")
    case (Fin z)
    moreover assume "\<not> fl (v * 100) < Fin 0"
    ultimately have "0 \<le> round_away z" by (simp add: round_away_def)
    then have "\<not> fl (of_int (round_away z) / 100) < Fin 0" by (intro fl_nonneg) simp
    then show ?thesis using Fin \<open>x = float64.Fin v\<close> by (simp add: round2_def float_ops)
  qed (use \<open>x = float64.Fin v\<close> in \<open>simp_all add: round2_def float_ops\<close>)
qed (simp_all add: round2_def float_ops)

lemma debit_nonneg:
  assumes "\<not> b < a"
  shows "\<not> round2 (b + - a) < Fin 0"
proof (rule round2_nonneg)
  show "\<not> b + - a < Fin 0"
    using assms fl_nonneg by (cases a; cases b) (auto simp: float_ops)
qed

lemma validated:
  assumes "ValidatePayoutEligibility b a True m = None"
  shows "\<not> a \<le> Fin 0" and "\<not> (Fin 0 < m \<and> a < m)" and "\<not> b < a"
  using assms by (auto simp: ValidatePayoutEligibility_def split: if_splits)

lemma payout_entry_sel [simp]:
  "ReferenceType (payout_entry u t dr i amt) = ''payout''" "ReferenceID (payout_entry u t dr i amt) = i"
  "led_DriverID (payout_entry u t dr i amt) = dr" "led_Amount (payout_entry u t dr i amt) = - amt"
  "led_CreatedAt (payout_entry u t dr i amt) = 0" "EntryType (payout_entry u t dr i amt) = EntryPayout"
  by (simp_all add: payout_entry_def)

lemma posted_sel [simp]:
  "led_TenantID (posted t en now d) = t" "led_DriverID (posted t en now d) = led_DriverID en"
  "EntryType (posted t en now d) = EntryType en" "led_Amount (posted t en now d) = led_Amount en"
  "ReferenceType (posted t en now d) = ReferenceType en"
  "ReferenceID (posted t en now d) = ReferenceID en"
  "BalanceAfter (posted t en now d) = round2 (ledger_balance t (led_DriverID en) d + led_Amount en)"
  by (simp_all add: posted_def)

lemma books_paid_out:
  assumes "books d" and "fresh_payout p d" and "new_payout t dr req p"
    and "ReferenceType r = ''payout''" and "ReferenceID r = pay_ID p"
    and "for_payout p (- pay_Amount p) r"
  shows "books (paid_out p r d)"
proof -
  have nid: "pay_ID p \<notin> pay_ID ` set (payouts d)" and nkey: "payout_key p \<notin> payout_key ` set (payouts d)"
    using assms(2) by (auto simp: fresh_payout_def payout_key_def)
  have none: "refs kind (pay_ID p) d = []" if "kind \<in> {''payout'', ''payout_reversal''}" for kind
    using assms(1) that nid by (rule no_orphans)
  have r1: "refs ''payout'' i (paid_out p r d) = refs ''payout'' i d @ (if i = pay_ID p then [r] else [])"
    and r2: "refs ''payout_reversal'' i (paid_out p r d) = refs ''payout_reversal'' i d" for i
    using assms(4,5) by (auto simp: refs_def paid_out_def)
  have "\<not> closing (pay_Status p)" using assms(3) by (simp add: new_payout_def closing_def)
  then have "booked (paid_out p r d) p" using assms(6) none by (simp add: booked_def r1 r2)
  moreover have "booked (paid_out p r d) q" if "q \<in> set (payouts d)" for q
  proof -
    have "pay_ID q \<noteq> pay_ID p" using nid that by (metis imageI)
    moreover have "booked d q" using assms(1) that by (simp add: books_def)
    ultimately show ?thesis by (simp add: booked_def r1 r2)
  qed
  moreover have "payouts (paid_out p r d) = payouts d @ [p]" "ledger (paid_out p r d) = ledger d @ [r]"
    by (simp_all add: paid_out_def)
  moreover have "pay_ID ` set (payouts d) \<subseteq> pay_ID ` set (payouts d @ [p])" by auto
  ultimately show ?thesis
    using assms(1,5) nid nkey unfolding books_def by (simp only: map_append distinct_append set_append) auto
qed

section \<open>Preservation by callbacks\<close>

text \<open>The update of a payout's row: only its status and its provider's fields change.\<close>

lemma update_payout_rows:
  assumes "books d" and "p \<in> set (payouts d)"
  obtains up where "payouts (update_payout (pay_TenantID p) (pay_ID p) st prov utr why da now d) = map up (payouts d)"
    and "\<And>q. pay_ID (up q) = pay_ID q \<and> payout_key (up q) = payout_key q
           \<and> for_payout (up q) = for_payout q \<and> pay_Amount (up q) = pay_Amount q"
    and "pay_Status (up p) = st"
    and "\<And>q. q \<in> set (payouts d) \<Longrightarrow> q \<noteq> p \<Longrightarrow> pay_ID q \<noteq> pay_ID p \<and> up q = q"
proof -
  let ?up = "\<lambda>q. if pay_TenantID q = pay_TenantID p \<and> pay_ID q = pay_ID p
         then q\<lparr>pay_Status := st, ProviderPayoutID := coalesce prov (ProviderPayoutID q),
                UTR := coalesce utr (UTR q), FailureReason := coalesce why (FailureReason q),
                CompletedAt := coalesce da (CompletedAt q), pay_UpdatedAt := now\<rparr>
         else q"
  have "pay_ID q \<noteq> pay_ID p" if "q \<in> set (payouts d)" "q \<noteq> p" for q
    using assms that by (auto simp: books_def distinct_map inj_on_def)
  then show ?thesis
    by (intro that [of ?up]) (auto simp: update_payout_def payout_key_def for_payout_def fun_eq_iff)
qed

lemma refs_by_ledger: "refs kind i d = filter (\<lambda>r. ReferenceType r = kind \<and> ReferenceID r = i) (ledger d)"
  by (rule refs_def)

lemma has_entry_refs: "has_entry t kind i d \<longleftrightarrow> (\<exists>r \<in> set (refs kind i d). led_TenantID r = t)"
  by (auto simp: has_entry_def refs_def filter_empty_conv)

lemma booked_closing:
  assumes "booked d p"
  shows "has_entry (pay_TenantID p) ''payout_reversal'' (pay_ID p) d \<longleftrightarrow> closing (pay_Status p)"
  using assms by (auto simp: booked_def has_entry_refs for_payout_def split: if_splits)

lemma move_from_closing: "payout_move st st' \<Longrightarrow> closing st \<Longrightarrow> st' = st"
  by (auto simp: payout_move_def closing_def)

lemma books_reconciled:
  assumes books: "books d" and p: "p \<in> set (payouts d)" and move: "payout_move (pay_Status p) st"
    and upd: "payouts d' = payouts (update_payout (pay_TenantID p) (pay_ID p) st prov utr why da now d)"
    and led: "ledger d' = ledger d @ rows"
    and rows: "if closing st \<and> \<not> closing (pay_Status p)
      then \<exists>r. rows = [r] \<and> ReferenceType r = ''payout_reversal'' \<and> ReferenceID r = pay_ID p
               \<and> for_payout p (pay_Amount p) r
      else rows = []"
  shows "books d'"
proof -
  obtain up where up: "payouts d' = map up (payouts d)" "pay_Status (up p) = st"
    and sel: "\<And>q. pay_ID (up q) = pay_ID q" "\<And>q. payout_key (up q) = payout_key q"
      "\<And>q. for_payout (up q) = for_payout q" "\<And>q. pay_Amount (up q) = pay_Amount q"
    and others: "\<And>q. q \<in> set (payouts d) \<Longrightarrow> q \<noteq> p \<Longrightarrow> pay_ID q \<noteq> pay_ID p \<and> up q = q"
    using update_payout_rows [OF books p] unfolding upd by metis
  have row: "ReferenceType r = ''payout_reversal''" "ReferenceID r = pay_ID p" if "r \<in> set rows" for r
    using rows that by (auto split: if_splits)
  have debit: "refs ''payout'' i d' = refs ''payout'' i d" for i
    using row(1) by (auto simp: refs_def led filter_empty_conv)
  have credit: "refs ''payout_reversal'' i d' = refs ''payout_reversal'' i d @ (if i = pay_ID p then rows else [])" for i
    using row by (auto simp: refs_def led filter_empty_conv filter_id_conv)
  have bp: "booked d q" if "q \<in> set (payouts d)" for q using books that by (simp add: books_def)
  have "booked d' (up q)" if q: "q \<in> set (payouts d)" for q
  proof (cases "q = p")
    case True
    show ?thesis
      using bp [OF p] rows up(2) move_from_closing [OF move]
      by (auto simp: True booked_def sel debit credit split: if_splits)
  next
    case False
    then show ?thesis using bp [OF q] others [OF q False] by (simp add: booked_def debit credit)
  qed
  moreover have "ReferenceID r \<in> pay_ID ` set (payouts d')"
    if "r \<in> set (ledger d')" "ReferenceType r \<in> {''payout'', ''payout_reversal''}" for r
  proof -
    have "pay_ID ` set (payouts d') = pay_ID ` set (payouts d)" by (simp add: up sel image_image)
    then show ?thesis using that row(2) p books by (auto simp: led books_def)
  qed
  moreover have "map pay_ID (payouts d') = map pay_ID (payouts d)"
    "map payout_key (payouts d') = map payout_key (payouts d)" by (simp_all add: up sel)
  moreover have "\<forall>q \<in> set (payouts d'). booked d' q" using calculation(1) by (simp add: up)
  ultimately show ?thesis using books unfolding books_def by simp
qed

section \<open>The invariant of the service\<close>

definition settle_inv :: "env \<Rightarrow> settle_db world \<Rightarrow> bool" where
  "settle_inv e w \<longleftrightarrow> timed e (tick w) (db w) \<and> books (db w) \<and> solvent (db w) \<and> one_per_trip (db w)"

lemma settle_inv_same: "settle_inv e w \<Longrightarrow> db w' = db w \<Longrightarrow> tick w \<le> tick w' \<Longrightarrow> settle_inv e w'"
  using timed_later by (auto simp: settle_inv_def)

lemma payout_keeps:
  assumes inv: "settle_inv e w" and call: "InitiatePayout e x s t dr req w = (r, w')"
  shows "settle_inv e w'"
proof -
  note eff = InitiatePayout_effect [OF call]
  show ?thesis
  proof (cases "db w' = db w")
    case True
    then show ?thesis using settle_inv_same [OF inv] eff by blast
  next
    case False
    then obtain resp where "paid_now e s t dr req w w' resp"
      using eff by (cases r) (auto simp: same_def)
    then obtain p u k where v: "ValidatePayoutEligibility (ledger_balance t dr (db w)) (ipr_Amount req) True (minPayoutLimit s) = None"
      and np: "new_payout t dr req p" and fr: "fresh_payout p (db w)" and k: "tick w \<le> k" "k < tick w'"
      and d': "db w' = paid_out p (posted t (payout_entry u t dr (pay_ID p) (ipr_Amount req)) (now_at e k) (db w)) (db w)"
      unfolding paid_now_def by blast
    let ?en = "payout_entry u t dr (pay_ID p) (ipr_Amount req)"
    let ?r = "posted t ?en (now_at e k) (db w)"
    let ?d1 = "(db w)\<lparr>payouts := payouts (db w) @ [p]\<rparr>"
    have d1: "db w' = ?d1\<lparr>ledger := ledger ?d1 @ [posted t ?en (now_at e k) ?d1]\<rparr>"
      by (simp add: d' paid_out_def)
    have "timed e (tick w) ?d1" using inv timed_later by (auto simp: settle_inv_def)
    then have "timed e (tick w') (db w')" unfolding d1 using k by (rule timed_posted) simp
    moreover have "books (db w')" unfolding d'
      by (rule books_paid_out [OF _ fr np])
         (use inv np in \<open>simp_all add: settle_inv_def for_payout_def new_payout_def\<close>)
    moreover have "\<not> BalanceAfter ?r < Fin 0" using debit_nonneg [OF validated(3) [OF v]] by simp
    then have "solvent (db w')" using inv by (auto simp: settle_inv_def solvent_def d' paid_out_def)
    moreover have "one_per_trip (db w')" using inv by (simp add: settle_inv_def one_per_trip_def d' paid_out_def)
    ultimately show ?thesis by (simp add: settle_inv_def)
  qed
qed

lemma writes_keeps:
  assumes "writes_items e t a its w w'" and "\<And>it. it \<in> set its \<Longrightarrow> it \<in> set (items a)" and "settle_inv e w"
  shows "settle_inv e w'"
  using assms posts_items [of e t "tick w" "db w" _ "db w'" "tick w'" a its]
  unfolding writes_items_def settle_inv_def by blast

lemma repairs_keeps: "repairs e t s w w' \<Longrightarrow> settle_inv e w \<Longrightarrow> settle_inv e w'"
proof -
  assume "repairs e t s w w'" and inv: "settle_inv e w"
  then obtain w1 pre where w1: "same w w1" and wr: "writes_items e t (amounts_of s) pre w1 w'"
    and pre: "prefix pre (filter (\<lambda>it. \<not> (\<exists>r \<in> set (ledger (db w)). led_TenantID r = t
              \<and> ReferenceType r = ''settlement'' \<and> ReferenceID r = set_ID s \<and> EntryType r = fst it))
            (items (amounts_of s)))"
    unfolding repairs_def by blast
  have "settle_inv e w1" using settle_inv_same [OF inv] w1 by (simp add: same_def)
  then show ?thesis using writes_keeps [OF wr] set_mono_prefix [OF pre] by fastforce
qed

lemma create_keeps:
  assumes inv: "settle_inv e w" and call: "CalculateAndCreateSettlement e t req w = (r, w')"
  shows "settle_inv e w'"
proof -
  note eff = Calculate_effect [OF call]
  consider "db w' = db w" | z where "r = Inr z" "repairs e t z w w'"
    | now u where "created e t (requested now u t req) w w'"
    using eff by (cases r) auto
  then show ?thesis
  proof cases
    case 1
    then show ?thesis using settle_inv_same [OF inv] eff by blast
  next
    case 2
    then show ?thesis using repairs_keeps inv by blast
  next
    case 3
    let ?s = "requested now u t req"
    let ?d1 = "(db w)\<lparr>settlements := settlements (db w) @ [settlement_row t ?s]\<rparr>"
    obtain k ens where fr: "fresh_settlement ?s (db w)" and k: "tick w \<le> k"
      and ens: "list_all2 (entry_for (amounts_of ?s) t) (items (amounts_of ?s)) ens"
      and po: "posts e t k ?d1 ens (db w') (tick w')"
      using 3 unfolding created_def by blast
    have row: "set_TripID (settlement_row t ?s) = set_TripID ?s" "set_Status (settlement_row t ?s) = ''pending''"
      by (simp_all add: settlement_row_def Settlement.Settlement.defs requested_def CalculateSettlement_def Let_def)
    have "timed e k ?d1" using inv k timed_later by (auto simp: settle_inv_def)
    moreover have "books ?d1" using inv books_cong [of ?d1 "db w"] by (simp add: settle_inv_def)
    moreover have "solvent ?d1" using inv by (simp add: settle_inv_def solvent_def)
    moreover have "one_per_trip ?d1"
      using inv fr row by (auto simp: settle_inv_def one_per_trip_def fresh_settlement_def settlement_status_ok_def)
    ultimately show ?thesis using posts_items [OF po ens] by (simp add: settle_inv_def)
  qed
qed

lemma reversal_entry_sel [simp]:
  "ReferenceType (reversal_entry u t p st) = ''payout_reversal''" "ReferenceID (reversal_entry u t p st) = pay_ID p"
  "led_DriverID (reversal_entry u t p st) = pay_DriverID p" "led_Amount (reversal_entry u t p st) = pay_Amount p"
  "led_CreatedAt (reversal_entry u t p st) = 0" "EntryType (reversal_entry u t p st) = EntryPayoutReversal"
  by (simp_all add: reversal_entry_def)

lemma webhook_keeps:
  assumes inv: "settle_inv e w" and call: "ProcessProviderWebhook e x s ct evid sig body w = (r, w')"
  shows "settle_inv e w'"
proof -
  note eff = Webhook_effect [OF call]
  show ?thesis
  proof (cases "db w' = db w")
    case True
    then show ?thesis using settle_inv_same [OF inv] eff by blast
  next
    case False
    then obtain p payload where adm: "admissible x s evid sig body (db w) p payload" and rec: "reconciled e p payload w w'"
      using eff by (cases r) (auto simp: same_def)
    define st where "st = outcome_status (payload_Entity payload)"
    define t where "t = pay_TenantID p"
    obtain now da ens d2 evs prov utr why where
      po: "posts e t (tick w) (update_payout t (pay_ID p) st prov utr why da now (db w)) ens d2 (tick w')"
      and ens: "if closing st \<and> \<not> has_entry t ''payout_reversal'' (pay_ID p)
                  (update_payout t (pay_ID p) st prov utr why da now (db w))
         then \<exists>u. ens = [reversal_entry u t p st] else ens = []"
      and d': "db w' = d2\<lparr>provider_events := provider_events d2 @ evs\<rparr>"
      using rec unfolding reconciled_def Let_def st_def [symmetric] t_def [symmetric] by blast
    let ?d1 = "update_payout t (pay_ID p) st prov utr why da now (db w)"
    have p: "p \<in> set (payouts (db w))" using adm by (auto simp: admissible_def find_Some_iff)
    have bk: "books (db w)" using inv by (simp add: settle_inv_def)
    then have "booked (db w) p" using p by (simp add: books_def)
    then have has: "has_entry t ''payout_reversal'' (pay_ID p) ?d1 \<longleftrightarrow> closing (pay_Status p)"
      using booked_closing by (simp add: t_def has_entry_def update_payout_def)
    obtain rows where d2: "d2 = ?d1\<lparr>ledger := ledger ?d1 @ rows\<rparr>" and st2: "list_all2 (stamped t) ens rows"
      using posts_rows [OF po] by blast
    have l1: "ledger ?d1 = ledger (db w)" by (simp add: update_payout_def)
    have rows: "if closing st \<and> \<not> closing (pay_Status p)
      then \<exists>r. rows = [r] \<and> ReferenceType r = ''payout_reversal'' \<and> ReferenceID r = pay_ID p
               \<and> for_payout p (pay_Amount p) r \<and> EntryType r = EntryPayoutReversal
      else rows = []"
    proof (cases "closing st \<and> \<not> closing (pay_Status p)")
      case True
      then obtain u r where "rows = [r]" "stamped t (reversal_entry u t p st) r"
        using ens st2 unfolding has by (auto simp: list_all2_Cons1)
      with stampedD [OF this(2)] True show ?thesis by (simp add: for_payout_def t_def)
    next
      case False
      then show ?thesis using ens st2 unfolding has by auto
    qed
    then have et: "EntryType r \<noteq> EntryPayout" if "r \<in> set rows" for r
      using that by (auto split: if_splits)
    have "timed e (tick w) ?d1" using inv l1 timed_later by (auto simp: settle_inv_def)
    then have "timed e (tick w') d2"
      by (rule timed_posts [OF po]) (use ens in \<open>auto split: if_splits\<close>)
    then have "timed e (tick w') (db w')" unfolding d' by (rule timed_later) simp_all
    moreover have "books (db w')"
      by (rule books_reconciled [OF bk p, where st = st and prov = prov and utr = utr and why = why and da = da and now = now])
         (use adm rows l1 in \<open>auto simp: admissible_def st_def t_def d' d2 split: if_splits\<close>)
    moreover have "solvent (db w')" using inv et by (auto simp: settle_inv_def solvent_def d' d2 l1)
    moreover have "one_per_trip (db w')"
      using inv by (simp add: settle_inv_def one_per_trip_def d' d2 update_payout_def)
    ultimately show ?thesis by (simp add: settle_inv_def)
  qed
qed

section \<open>Sequences of calls\<close>

text \<open>
  The service's operations as commands of an aggregate whose log is the ledger: whatever fails, a
  failed call leaves the ledger, a successful one only appends to it.
\<close>

datatype settle_call =
    CallCreate gostring CalculateSettlementRequest
  | CallPayout gostring gostring InitiatePayoutRequest
  | CallWebhook gostring gostring gostring gostring
  | CallWallet gostring gostring

fun settle_step ::
  "env \<Rightarrow> externals \<Rightarrow> SettlementAppService \<Rightarrow> settle_call \<Rightarrow> settle_db world
    \<Rightarrow> settle_db world \<times> goerr option" where
  "settle_step e x s (CallCreate t req) w =
     (case CalculateAndCreateSettlement e t req w of (r, w') \<Rightarrow> (w', case r of Inl err \<Rightarrow> Some err | Inr _ \<Rightarrow> None))"
| "settle_step e x s (CallPayout t dr req) w =
     (case InitiatePayout e x s t dr req w of (r, w') \<Rightarrow> (w', case r of Inl err \<Rightarrow> Some err | Inr _ \<Rightarrow> None))"
| "settle_step e x s (CallWebhook ct evid sig body) w =
     (case ProcessProviderWebhook e x s ct evid sig body w of (r, w') \<Rightarrow>
        (w', case r of Inl err \<Rightarrow> Some err | Inr _ \<Rightarrow> None))"
| "settle_step e x s (CallWallet t dr) w =
     (case ServiceGetDriverWallet e x t dr w of (r, w') \<Rightarrow> (w', case r of Inl err \<Rightarrow> Some err | Inr _ \<Rightarrow> None))"

lemma wallet_reads: "ServiceGetDriverWallet e x t dr w = (r, w') \<Longrightarrow> same w w'"
proof -
  have "reads (ServiceGetDriverWallet e x t dr)"
    by (auto simp: ServiceGetDriverWallet_def intro: reading reads_GetDriverWallet)
  then show "ServiceGetDriverWallet e x t dr w = (r, w') \<Longrightarrow> same w w'" by (rule readsD)
qed

lemma posts_log: "posts e t k d ens d' k' \<Longrightarrow> \<exists>new. ledger d' = ledger d @ new"
  by (erule posts_rows) simp

lemma settle_step_log:
  "\<exists>new. ledger (db (fst (settle_step e x s c w))) = ledger (db w) @ new
    \<and> (snd (settle_step e x s c w) \<noteq> None \<longrightarrow> new = [])"
proof (cases c)
  case (CallCreate t req)
  obtain r w' where call: "CalculateAndCreateSettlement e t req w = (r, w')"
    by (cases "CalculateAndCreateSettlement e t req w")
  show ?thesis
    using Calculate_effect [OF call] posts_log
    by (cases r) (fastforce simp: CallCreate call created_def repairs_def writes_items_def same_def)+
next
  case (CallPayout t dr req)
  obtain r w' where call: "InitiatePayout e x s t dr req w = (r, w')"
    by (cases "InitiatePayout e x s t dr req w")
  show ?thesis
    using InitiatePayout_effect [OF call]
    by (cases r) (auto simp: CallPayout call paid_now_def paid_out_def same_def)
next
  case (CallWebhook ct evid sig body)
  obtain r w' where call: "ProcessProviderWebhook e x s ct evid sig body w = (r, w')"
    by (cases "ProcessProviderWebhook e x s ct evid sig body w")
  show ?thesis
    using Webhook_effect [OF call] posts_log
    by (cases r) (fastforce simp: CallWebhook call reconciled_def update_payout_def Let_def same_def)+
next
  case (CallWallet t dr)
  obtain r w' where call: "ServiceGetDriverWallet e x t dr w = (r, w')"
    by (cases "ServiceGetDriverWallet e x t dr w")
  show ?thesis using wallet_reads [OF call] by (simp add: CallWallet call same_def)
qed

lemma settle_step_inv: "settle_inv e w \<Longrightarrow> settle_inv e (fst (settle_step e x s c w))"
  by (cases c)
     (auto split: prod.splits intro: create_keeps payout_keeps webhook_keeps
        dest!: wallet_reads simp: same_def intro: settle_inv_same)

interpretation settle: aggregate "settle_step e x s" "\<lambda>w. ledger (db w)" "settle_inv e" for e x s
proof
  fix c and w w' :: "settle_db world" and err
  show "settle_step e x s c w = (w', Some err) \<Longrightarrow> ledger (db w') = ledger (db w)"
    using settle_step_log [of e x s c w] by auto
  show "settle_step e x s c w = (w', None) \<Longrightarrow> \<exists>new. ledger (db w') = ledger (db w) @ new"
    using settle_step_log [of e x s c w] by auto
  show "settle_inv e w \<Longrightarrow> settle_inv e (fst (settle_step e x s c w))" by (rule settle_step_inv)
qed

end
