(* ===== verification/SettleRuns.thy ===== *)
theory SettleRuns
  imports SettleProps
begin

text \<open>
  What the settlement service guarantees, on top of the invariant of its calls: the books of every
  run, exact wallets, payouts that go through and are paid once, settlements and their repair,
  authenticated callbacks, and the two places where the code does not do what it means to.
\<close>

section \<open>Runs without failures\<close>

text \<open>In an environment whose database never fails, an action is a function of its inputs.\<close>

definition no_failures :: "env \<Rightarrow> bool" where
  "no_failures e \<longleftrightarrow> (\<forall>k. db_fails e k = None)"

named_theorems running "evaluation of actions that cannot fail from outside"

lemma query_runs [running]:
  "no_failures e \<Longrightarrow> query e f w = (Inr (f (db w)), w\<lparr>tick := Suc (tick w)\<rparr>)"
  by (simp add: no_failures_def query_def Let_def)

lemma query_then [running]:
  "no_failures e \<Longrightarrow> andThen (query e f) g w = g (f (db w)) (w\<lparr>tick := Suc (tick w)\<rparr>)"
  by (simp add: andThen_def query_runs)

lemma andThen_assoc [running]: "andThen (andThen m f) g w = andThen m (\<lambda>x. andThen (f x) g) w"
  by (simp add: andThen_def split: prod.split sum.split)

lemma wrap_then [running]:
  "andThen (wrap s m) f w = (case m w of (Inl err, w1) \<Rightarrow> (Inl (ErrWrap s err), w1) | (Inr x, w1) \<Rightarrow> f x w1)"
  by (simp add: andThen_def wrap_def split: prod.split sum.split)

lemma stmt_runs [running]:
  "no_failures e \<Longrightarrow> exec_stmt e f w =
     (case f (db w) of Inl err \<Rightarrow> (Inl err, w\<lparr>tick := Suc (tick w)\<rparr>)
      | Inr d \<Rightarrow> (Inr (), w\<lparr>tick := Suc (tick w), db := d\<rparr>))"
  by (simp add: no_failures_def exec_stmt_def Let_def)

lemma tx_runs:
  assumes "no_failures e" and "fn True (w\<lparr>tick := Suc (tick w)\<rparr>) = (Inr x, w2)"
  shows "with_tx e False fn w = (Inr x, w2\<lparr>tick := Suc (tick w2)\<rparr>)"
  using assms by (simp add: with_tx_def query_runs)

text \<open>Identifiers still to be handed out are unused and differ from each other.\<close>

definition fresh_ids :: "env \<Rightarrow> settle_db world \<Rightarrow> bool" where
  "fresh_ids e w \<longleftrightarrow> inj (uuid_at e)
   \<and> (\<forall>j \<ge> tick w. ''led_'' @ uuid_at e j \<notin> led_ID ` set (ledger (db w))
        \<and> ''pout_'' @ uuid_at e j \<notin> pay_ID ` set (payouts (db w))
        \<and> ''set_'' @ uuid_at e j \<notin> set_ID ` set (settlements (db w)))"

lemma fresh_ids_later:
  "fresh_ids e w \<Longrightarrow> tick w \<le> tick w' \<Longrightarrow> db w' = db w \<Longrightarrow> fresh_ids e w'"
  by (auto simp: fresh_ids_def)

lemma append_tx_runs:
  assumes "no_failures e" and "led_ID en \<notin> led_ID ` set (ledger (db w))" and "led_CreatedAt en = 0"
  shows "appendLedgerEntryTx e t en w =
    (Inr (), w\<lparr>tick := tick w + 3, db := (db w)\<lparr>ledger := ledger (db w) @
        [posted t en (now_at e (Suc (tick w))) (db w)]\<rparr>\<rparr>)"
proof -
  have "posted t en (now_at e (Suc (tick w))) (db w) = en\<lparr>BalanceAfter := round2 (ledger_balance t (led_DriverID en) (db w)
      + led_Amount en), led_CreatedAt := now_at e (Suc (tick w)), led_TenantID := t\<rparr>"
    using assms(3) by (simp add: posted_def)
  moreover have "insert_ledger r (db w) = Inr ((db w)\<lparr>ledger := ledger (db w) @ [r]\<rparr>)" if "led_ID r = led_ID en" for r
    using assms(2) that unfolding insert_ledger_def by (metis (no_types, lifting) imageI)
  ultimately show ?thesis
    using assms(1,3)
    by (simp add: appendLedgerEntryTx_def wrap_def running round2_def Let_def)
qed

lemma append_runs:
  assumes "no_failures e" and "led_ID en \<notin> led_ID ` set (ledger (db w))" and "led_CreatedAt en = 0"
  shows "\<exists>w' k. AppendLedgerEntry e tx t en w = (Inr (), w') \<and> tick w < tick w'
    \<and> db w' = (db w)\<lparr>ledger := ledger (db w) @ [posted t en (now_at e k) (db w)]\<rparr>"
proof (cases tx)
  case True
  then show ?thesis using append_tx_runs [OF assms] by (auto simp: AppendLedgerEntry_def)
next
  case False
  let ?w = "w\<lparr>tick := Suc (tick w)\<rparr>"
  have "appendLedgerEntryTx e t en ?w = (Inr (), ?w\<lparr>tick := tick ?w + 3, db := (db w)\<lparr>ledger := ledger (db w) @
        [posted t en (now_at e (Suc (tick ?w))) (db w)]\<rparr>\<rparr>)"
    using append_tx_runs [of e en ?w t] assms by simp
  then show ?thesis
    using False tx_runs [OF assms(1), of "\<lambda>_. appendLedgerEntryTx e t en" w]
    by (auto simp: AppendLedgerEntry_def)
qed

section \<open>The books of every run\<close>

lemma start_inv:
  assumes "mono (now_at e)" and "ledger (db w) = []" and "payouts (db w) = []" and "settlements (db w) = []"
  shows "settle_inv e w"
  using assms
  by (simp add: settle_inv_def timed_def kept_nil books_def solvent_def one_per_trip_def)

text \<open>
  C15: whatever calls the service serves, one after the other and with failures at any point, the
  books close: payout identifiers and idempotency keys are unique per tenant, every payout has
  exactly one debit of its amount, exactly one compensating credit if it failed or was reversed and
  none otherwise, no ledger row refers to a payout that is not there, and a trip has at most one
  settlement.
\<close>

theorem payout_books:
  assumes "mono (now_at e)" and "ledger (db w) = []" and "payouts (db w) = []" and "settlements (db w) = []"
  shows "books (db (settle.run e x s cs w)) \<and> one_per_trip (db (settle.run e x s cs w))"
  using settle.run_invar [OF start_inv [OF assms]] by (simp add: settle_inv_def)

definition plain_env :: env where
  "plain_env = \<lparr>now_at = int, uuid_at = \<lambda>k. replicate k CHR ''x'', db_fails = \<lambda>_. None\<rparr>"

definition plain_externals :: externals where
  "plain_externals = \<lparr>sql_sum = \<lambda>xs. if xs = [] then None else Some (foldl (+) (Fin 0) xs),
     hmac_sha256_hex = \<lambda>k b. k @ b, unmarshal_webhook = \<lambda>b. Inl (ErrMsg b)\<rparr>"

definition plain_service :: SettlementAppService where
  "plain_service = NewSettlementAppService ''secret'' (F 100)"

definition empty_world :: "settle_db world" where
  "empty_world = \<lparr>db = \<lparr>settlements = [], ledger = [], payouts = [], provider_events = [],
     payout_accounts = [\<lparr>acc_ID = ''a'', acc_TenantID = ''t'', acc_DriverID = ''d'', IsPrimary = True,
       acc_VerificationStatus = ''verified'', acc_HoldPayouts = False\<rparr>],
     driver_rows = [], settlement_lines = []\<rparr>, tick = 0\<rparr>"

lemma plain_simps [simp]:
  "mono (now_at plain_env)" "ledger (db empty_world) = []" "payouts (db empty_world) = []"
  "settlements (db empty_world) = []" "no_failures plain_env" "tick empty_world = 0"
  by (simp_all add: plain_env_def empty_world_def mono_def no_failures_def)

theorem payout_books_witness:
  "books (db (settle.run plain_env plain_externals plain_service
     [CallPayout ''t'' ''d'' \<lparr>ipr_IdempotencyKey = ''k'', ipr_Amount = F 500\<rparr>] empty_world))"
  by (rule conjunct1 [OF payout_books [OF plain_simps(1-4)]])

text \<open>What identifies a payout never changes, and payouts are never removed.\<close>

definition core :: "PayoutInstruction \<Rightarrow> gostring \<times> gostring \<times> gostring \<times> float64 \<times> gostring" where
  "core p = (pay_ID p, pay_TenantID p, pay_DriverID p, pay_Amount p, IdempotencyKey p)"

lemma posts_payouts: "posts e t k d ens d' k' \<Longrightarrow> payouts d' = payouts d"
  by (erule posts_rows) simp

lemma core_update: "map core (payouts (update_payout t i st prov utr why da now d)) = map core (payouts d)"
  by (simp add: update_payout_def core_def)

lemma step_cores:
  "prefix (map core (payouts (db w))) (map core (payouts (db (fst (settle_step e x s c w)))))"
proof (cases c)
  case (CallCreate t req)
  obtain r w' where call: "CalculateAndCreateSettlement e t req w = (r, w')"
    by (cases "CalculateAndCreateSettlement e t req w")
  have "payouts (db w') = payouts (db w)"
    using Calculate_effect [OF call]
    by (cases r) (auto simp: created_def repairs_def writes_items_def same_def dest!: posts_payouts)
  then show ?thesis by (simp add: CallCreate call)
next
  case (CallPayout t dr req)
  obtain r w' where call: "InitiatePayout e x s t dr req w = (r, w')"
    by (cases "InitiatePayout e x s t dr req w")
  show ?thesis
    using InitiatePayout_effect [OF call]
    by (cases r) (auto simp: CallPayout call paid_now_def paid_out_def same_def)
next
  case (CallWebhook ct evid sig body)
  obtain r w' where call: "ProcessProviderWebhook e x s ct evid sig body w = (r, w')"
    by (cases "ProcessProviderWebhook e x s ct evid sig body w")
  have "map core (payouts (db w')) = map core (payouts (db w))"
    using Webhook_effect [OF call]
    by (cases r) (auto simp: reconciled_def same_def Let_def core_update dest!: posts_payouts)
  then show ?thesis by (simp add: CallWebhook call)
next
  case (CallWallet t dr)
  obtain r w' where call: "ServiceGetDriverWallet e x t dr w = (r, w')"
    by (cases "ServiceGetDriverWallet e x t dr w")
  show ?thesis using wallet_reads [OF call] by (simp add: CallWallet call same_def)
qed

lemma run_cores: "prefix (map core (payouts (db w))) (map core (payouts (db (settle.run e x s cs w))))"
  by (rule settle.run_stable [where P = "\<lambda>v. prefix (map core (payouts (db w))) (map core (payouts (db v)))"])
     (use step_cores prefix_order.trans in blast, simp)

section \<open>Payouts\<close>

text \<open>
  C16: a payout request that fails leaves the tables as they were. One that succeeds either reads
  back the payout stored under its key, or passed the account and balance checks and wrote one
  instruction and one debit of the amount, with the balance after it.
\<close>

theorem payout_call:
  "case InitiatePayout e x s t dr req w of
      (Inl err, w') \<Rightarrow> db w' = db w
    | (Inr resp, w') \<Rightarrow> db w' = db w \<and> read_back t req (db w) resp
        \<or> account_verified t dr (db w) \<and> \<not> ipr_Amount req \<le> Fin 0
          \<and> \<not> ledger_balance t dr (db w) < ipr_Amount req
          \<and> (\<exists>p r. new_payout t dr req p \<and> fresh_payout p (db w) \<and> db w' = paid_out p r (db w)
                \<and> led_TenantID r = t \<and> led_DriverID r = dr \<and> led_Amount r = - ipr_Amount req
                \<and> ReferenceType r = ''payout'' \<and> ReferenceID r = pay_ID p
                \<and> BalanceAfter r = round2 (ledger_balance t dr (db w) - ipr_Amount req)
                \<and> resp_PayoutID resp = pay_ID p \<and> \<not> IsDuplicate resp)"
proof (cases "InitiatePayout e x s t dr req w")
  case (Pair r w')
  show ?thesis
  proof (cases r)
    case (Inl err)
    then show ?thesis using InitiatePayout_effect [OF Pair] Pair by simp
  next
    case (Inr resp)
    consider "same w w'" "read_back t req (db w) resp" | "paid_now e s t dr req w w' resp"
      using InitiatePayout_effect [OF Pair] Inr by auto
    then show ?thesis
    proof cases
      case 1
      then show ?thesis using Pair Inr by (simp add: same_def)
    next
      case 2
      then obtain p u k where v: "account_verified t dr (db w)"
          "ValidatePayoutEligibility (ledger_balance t dr (db w)) (ipr_Amount req) True (minPayoutLimit s) = None"
        and p: "new_payout t dr req p" "fresh_payout p (db w)"
        and d: "db w' = paid_out p (posted t (payout_entry u t dr (pay_ID p) (ipr_Amount req)) (now_at e k) (db w)) (db w)"
        and r: "resp_PayoutID resp = pay_ID p" "\<not> IsDuplicate resp"
        unfolding paid_now_def by auto
      show ?thesis
        unfolding Pair Inr prod.case sum.case
        using v validated [OF v(2)] p d r
        by (intro disjI2 conjI exI [of _ p]
            exI [of _ "posted t (payout_entry u t dr (pay_ID p) (ipr_Amount req)) (now_at e k) (db w)"])
           (simp_all add: float_ops)
    qed
  qed
qed

text \<open>
  C17: an idempotency key pays once: after a successful request and any further calls, a request
  with the same key, for whatever driver and amount, returns the first payout as a duplicate and
  changes nothing.
\<close>

theorem payout_once:
  assumes "settle_inv e w" and "InitiatePayout e x s t dr req w = (Inr resp, w1)"
    and "no_failures e" and "ipr_IdempotencyKey req2 = ipr_IdempotencyKey req" and "dr2 \<noteq> ''''"
  shows "\<exists>resp2 w3. InitiatePayout e x s t dr2 req2 (settle.run e x s cs w1) = (Inr resp2, w3)
     \<and> db w3 = db (settle.run e x s cs w1) \<and> IsDuplicate resp2
     \<and> resp_PayoutID resp2 = resp_PayoutID resp \<and> resp_DriverID resp2 = resp_DriverID resp
     \<and> resp_Amount resp2 = resp_Amount resp"
proof -
  let ?w2 = "settle.run e x s cs w1" and ?k = "ipr_IdempotencyKey req"
  have "\<exists>p \<in> set (payouts (db w1)). pay_TenantID p = t \<and> IdempotencyKey p = ?k
      \<and> resp_PayoutID resp = pay_ID p \<and> resp_DriverID resp = pay_DriverID p \<and> resp_Amount resp = pay_Amount p"
    using InitiatePayout_effect [OF assms(2)]
    by (auto simp: same_def read_back_def duplicateOf_def paid_now_def paid_out_def new_payout_def)
  then obtain p where p: "p \<in> set (payouts (db w1))" "pay_TenantID p = t" "IdempotencyKey p = ?k"
    "resp_PayoutID resp = pay_ID p" "resp_DriverID resp = pay_DriverID p" "resp_Amount resp = pay_Amount p" by blast
  have "core p \<in> set (map core (payouts (db ?w2)))" using set_mono_prefix [OF run_cores [of w1 e x s cs]] p(1) by auto
  then obtain q where q: "q \<in> set (payouts (db ?w2))" "core q = core p" by auto
  have "settle_inv e ?w2" using settle.run_invar [OF payout_keeps [OF assms(1,2)]] .
  then have d: "distinct (map payout_key (payouts (db ?w2)))" by (simp add: settle_inv_def books_def)
  have kq: "pay_TenantID q = t" "IdempotencyKey q = ?k" using q(2) p by (auto simp: core_def)
  have "payout_by_key t ?k (db ?w2) = Some q"
  proof (cases "payout_by_key t ?k (db ?w2)")
    case None
    then show ?thesis using q(1) kq by (auto simp: payout_by_key_def find_None_iff)
  next
    case (Some q')
    then have "q' \<in> set (payouts (db ?w2))" "payout_key q' = payout_key q"
      using by_key_in [OF Some] kq by (auto simp: payout_key_def)
    then show ?thesis using Some d q(1) by (auto simp: distinct_map inj_on_def)
  qed
  moreover have "t \<noteq> ''''" "?k \<noteq> ''''"
    using assms(2) by (auto simp: InitiatePayout_def split: if_splits)
  ultimately have "InitiatePayout e x s t dr2 req2 ?w2 = (Inr (duplicateOf q), ?w2\<lparr>tick := Suc (tick ?w2)\<rparr>)"
    using assms(3-5) by (simp add: InitiatePayout_def andThen_attempt GetPayoutByIdempotencyKey_def running)
  then show ?thesis using q(2) p by (simp add: duplicateOf_def core_def)
qed

lemma Verified_runs:
  assumes "no_failures e" and "account_verified t dr (db w)"
  shows "\<exists>a k. IsDriverPayoutAccountVerified e t dr w = (Inr (True, a), w\<lparr>tick := k\<rparr>) \<and> tick w \<le> k"
proof (cases "find (\<lambda>a. acc_TenantID a = t \<and> acc_DriverID a = dr \<and> IsPrimary a) (payout_accounts (db w))")
  case None
  then obtain v s where "find (\<lambda>v. drv_TenantID v = t \<and> drv_ID v = dr) (driver_rows (db w)) = Some v"
    "BankDetails v = Some s" "length s > 5"
    using assms(2) by (auto simp: account_verified_def split: option.splits)
  then show ?thesis
    using assms(1) None
    by (intro exI [of _ "''legacy_account''"] exI [of _ "Suc (Suc (tick w))"])
       (simp add: IsDriverPayoutAccountVerified_def running andThen_attempt)
next
  case (Some a)
  then show ?thesis
    using assms
    by (intro exI [of _ "acc_ID a"] exI [of _ "Suc (tick w)"])
       (simp add: IsDriverPayoutAccountVerified_def running account_verified_def)
qed

lemma Wallet_runs:
  assumes "no_failures e"
  shows "\<exists>wal k. GetDriverWallet e sm t dr w = (Inr wal, w\<lparr>tick := k\<rparr>) \<and> tick w \<le> k
    \<and> AvailableBalance wal = ledger_balance t dr (db w)"
  using assms
  by (auto simp: GetDriverWallet_def GetDriverBalance_def sum_or_zero_def GetRecentLedgerEntries_def
      running andThen_attempt Let_def)

lemma insert_runs:
  assumes "pay_ID p \<notin> pay_ID ` set (payouts d)" and "payout_by_key (pay_TenantID p) (IdempotencyKey p) d = None"
  shows "insert_payout p d = Inr (d\<lparr>payouts := payouts d @ [p]\<rparr>)"
proof -
  have "pay_ID q \<noteq> pay_ID p" if "q \<in> set (payouts d)" for q using assms(1) that by (metis imageI)
  moreover have "\<not> (pay_TenantID q = pay_TenantID p \<and> IdempotencyKey q = IdempotencyKey p)"
    if "q \<in> set (payouts d)" for q
    using that assms(2) by (auto simp: payout_by_key_def find_None_iff)
  ultimately show ?thesis by (simp add: insert_payout_ok fresh_payout_def)
qed

lemma disburse_runs:
  assumes "no_failures e" and "fresh_ids e w" and "payout_by_key t (ipr_IdempotencyKey req) (db w) = None"
  shows "\<exists>resp w'. disburse e True t dr acc req w = (Inr resp, w') \<and> \<not> IsDuplicate resp"
proof -
  have "''pout_'' @ uuid_at e (tick w) \<notin> pay_ID ` set (payouts (db w))"
    and "''led_'' @ uuid_at e (Suc (Suc (Suc (Suc (Suc (tick w)))))) \<notin> led_ID ` set (ledger (db w))"
    using assms(2) by (simp_all add: fresh_ids_def)
  then show ?thesis
    using assms(1,3)
    by (simp add: disburse_def CreatePayoutInstruction_def insert_runs andThen_attempt running
        AppendLedgerEntry_def wrap_def append_tx_runs Let_def payout_entry_def)
qed

lemma payout_runs:
  assumes "no_failures e" and "fresh_ids e w"
    and "t \<noteq> ''''" and "dr \<noteq> ''''" and "ipr_IdempotencyKey req \<noteq> ''''"
    and "payout_by_key t (ipr_IdempotencyKey req) (db w) = None" and "account_verified t dr (db w)"
    and "ValidatePayoutEligibility (ledger_balance t dr (db w)) (ipr_Amount req) True (minPayoutLimit s) = None"
  shows "\<exists>resp w'. InitiatePayout e x s t dr req w = (Inr resp, w') \<and> paid_now e s t dr req w w' resp"
proof -
  let ?w1 = "w\<lparr>tick := tick w + 4\<rparr>"
  obtain a k where v: "IsDriverPayoutAccountVerified e t dr ?w1 = (Inr (True, a), ?w1\<lparr>tick := k\<rparr>)" "tick ?w1 \<le> k"
    using Verified_runs [OF assms(1), of t dr ?w1] assms(7) by auto
  let ?w2 = "w\<lparr>tick := k\<rparr>"
  obtain wal j where g: "GetDriverWallet e (sql_sum x) t dr ?w2 = (Inr wal, ?w2\<lparr>tick := j\<rparr>)" "k \<le> j"
    "AvailableBalance wal = ledger_balance t dr (db w)"
    using Wallet_runs [OF assms(1), of "sql_sum x" t dr ?w2] by auto
  have fr: "fresh_ids e (w\<lparr>tick := j\<rparr>)" using fresh_ids_later [OF assms(2)] v(2) g(2) by simp
  then obtain resp w3 where d: "disburse e True t dr a req (w\<lparr>tick := j\<rparr>) = (Inr resp, w3)" "\<not> IsDuplicate resp"
    using disburse_runs [OF assms(1) fr, of t req dr a] assms(6) by auto
  have "payout_checked e x s t dr req True ?w1 = (Inr resp, w3)"
    using v(1) g d assms(8) by (simp add: payout_checked_def andThen_attempt andThen_def [of "GetDriverWallet _ _ _ _"])
  then have "payout_tx e x s t dr req True (w\<lparr>tick := tick w + 2\<rparr>) = (Inr resp, w3)"
    using assms(1,6)
    by (simp add: payout_tx_def LockDriverPayout_def GetPayoutByIdempotencyKey_def running andThen_attempt
        andThen_def [of "exec_stmt _ _"] numeral_eq_Suc)
  then have "with_tx e False (payout_tx e x s t dr req) (w\<lparr>tick := Suc (tick w)\<rparr>) = (Inr resp, w3\<lparr>tick := Suc (tick w3)\<rparr>)"
    using tx_runs [OF assms(1), of "payout_tx e x s t dr req" "w\<lparr>tick := Suc (tick w)\<rparr>"] by (simp add: numeral_eq_Suc)
  then have call: "InitiatePayout e x s t dr req w = (Inr resp, w3\<lparr>tick := Suc (tick w3)\<rparr>)"
    using assms(1,3-6) by (simp add: InitiatePayout_def andThen_attempt GetPayoutByIdempotencyKey_def running)
  moreover have "paid_now e s t dr req w (w3\<lparr>tick := Suc (tick w3)\<rparr>) resp"
    using InitiatePayout_effect [OF call] d(2) by (auto simp: read_back_def duplicateOf_def)
  ultimately show ?thesis by blast
qed

text \<open>
  A payout that meets the documented conditions goes through when the database does not fail:
  a new instruction is stored and returned as no duplicate.
\<close>

theorem payout_goes_through:
  assumes "no_failures e" and "fresh_ids e w"
    and "t \<noteq> ''''" and "dr \<noteq> ''''" and "ipr_IdempotencyKey req \<noteq> ''''"
    and "payout_by_key t (ipr_IdempotencyKey req) (db w) = None" and "account_verified t dr (db w)"
    and "ValidatePayoutEligibility (ledger_balance t dr (db w)) (ipr_Amount req) True (minPayoutLimit s) = None"
  shows "\<exists>resp w' p. InitiatePayout e x s t dr req w = (Inr resp, w') \<and> \<not> IsDuplicate resp
    \<and> new_payout t dr req p \<and> payouts (db w') = payouts (db w) @ [p]"
  using payout_runs [OF assms] by (fastforce simp: paid_now_def paid_out_def)

section \<open>Wallets\<close>

text \<open>
  C18: the available balance the wallet reports after any calls is the exact sum of the driver's
  ledger rows, as long as they are in paise and total at most 2^44 of them, and no payout has ever
  taken a balance below zero.
\<close>

theorem wallet_exact:
  assumes start: "settle_inv e w0"
    and w: "w = settle.run e x s cs w0"
    and paise: "\<And>r. r \<in> set (ledger (db w)) \<Longrightarrow> led_Amount r = rupees (n r)"
    and bound: "sum_list (map (\<lambda>r. \<bar>n r\<bar>) (entries_of t dr (db w))) \<le> 2 ^ 44"
    and call: "ServiceGetDriverWallet e x t dr w = (Inr wal, w')"
  shows "AvailableBalance wal = rupees (paise_total n t dr (db w))
    \<and> (\<forall>r \<in> set (ledger (db w)). EntryType r = EntryPayout \<longrightarrow> \<not> BalanceAfter r < Fin 0)"
proof -
  have inv: "settle_inv e w" unfolding w using start by (rule settle.run_invar)
  have "AvailableBalance wal = ledger_balance t dr (db w)"
    using call GetDriverWallet_ok by (auto simp: ServiceGetDriverWallet_def split: if_splits)
  also have "\<dots> = rupees (paise_total n t dr (db w))"
    using inv paise bound by (intro kept_balance_exact) (auto simp: settle_inv_def timed_def)
  finally show ?thesis using inv by (simp add: settle_inv_def solvent_def)
qed

section \<open>Settlements\<close>

definition entry_rows :: "gostring \<Rightarrow> gostring \<Rightarrow> EntryType \<Rightarrow> settle_db \<Rightarrow> LedgerEntry list" where
  "entry_rows t i ty d = filter (\<lambda>r. led_TenantID r = t \<and> ReferenceType r = ''settlement''
     \<and> ReferenceID r = i \<and> EntryType r = ty) (ledger d)"

text \<open>What the entries of a settlement's items look like in the ledger.\<close>

definition item_row :: "ledgerAmounts \<Rightarrow> gostring \<Rightarrow> item \<Rightarrow> LedgerEntry \<Rightarrow> bool" where
  "item_row a t it r \<longleftrightarrow> led_TenantID r = t \<and> led_DriverID r = driverID a \<and> ReferenceType r = ''settlement''
     \<and> ReferenceID r = settlementID a \<and> EntryType r = fst it \<and> led_Amount r = fst (snd it)"

lemma writes_rows:
  assumes "list_all2 (entry_for a t) its ens" and "posts e t k d ens d' k'"
  shows "\<exists>rows. d' = d\<lparr>ledger := ledger d @ rows\<rparr> \<and> list_all2 (item_row a t) its rows"
proof -
  obtain rows where d': "d' = d\<lparr>ledger := ledger d @ rows\<rparr>" and st: "list_all2 (stamped t) ens rows"
    using posts_rows [OF assms(2)] by blast
  have "item_row a t it r" if "entry_for a t it en" "stamped t en r" for it en r
    using items_entry [OF that(1)] stampedD [OF that(2)] by (simp add: item_row_def)
  then have "list_all2 (item_row a t) its rows"
    using list_all2_trans [of "entry_for a t" "stamped t" "item_row a t", OF _ assms(1) st] by blast
  then show ?thesis using d' by blast
qed

lemma item_rows_count:
  assumes "list_all2 (item_row a t) its rows"
  shows "length (filter (\<lambda>r. led_TenantID r = t \<and> ReferenceType r = ''settlement''
     \<and> ReferenceID r = settlementID a \<and> EntryType r = ty) rows) = count_list (map fst its) ty"
  using assms by (induction rule: list_all2_induct) (auto simp: item_row_def)

lemma count_distinct: "distinct xs \<Longrightarrow> count_list xs y = (if y \<in> set xs then 1 else 0)"
  by (induction xs) auto

lemma appendOne_runs:
  assumes "no_failures e" and "fresh_ids e w"
  shows "\<exists>w'. appendOne e tx t a st ty amt desc w = (Inr (), w') \<and> fresh_ids e w'"
proof (cases "st ty")
  case True
  then show ?thesis using assms(2) by (simp add: appendOne_def)
next
  case False
  let ?w = "w\<lparr>tick := Suc (tick w)\<rparr>" and ?en = "settlement_entry a t (uuid_at e (tick w)) ty amt desc"
  have en: "led_ID ?en = ''led_'' @ uuid_at e (tick w)" "led_CreatedAt ?en = 0"
    by (simp_all add: settlement_entry_def)
  have "led_ID ?en \<notin> led_ID ` set (ledger (db ?w))" using assms(2) unfolding en(1) by (simp add: fresh_ids_def)
  then obtain w' k where w': "AppendLedgerEntry e tx t ?en ?w = (Inr (), w')" "tick ?w < tick w'"
    "db w' = (db ?w)\<lparr>ledger := ledger (db ?w) @ [posted t ?en (now_at e k) (db ?w)]\<rparr>"
    using append_runs [OF assms(1), of ?en ?w tx t] en(2) by blast
  have "uuid_at e j \<noteq> uuid_at e (tick w)" if "tick w' \<le> j" for j
    using assms(2) that w'(2) by (auto simp: fresh_ids_def inj_eq)
  moreover have "led_ID (posted t ?en (now_at e k) (db ?w)) = ''led_'' @ uuid_at e (tick w)"
    by (simp add: posted_def settlement_entry_def)
  ultimately have "fresh_ids e w'" using assms(2) w'(2,3) by (auto simp: fresh_ids_def)
  then show ?thesis using w'(1) False by (auto simp: appendOne_def wrap_def)
qed

lemma ledger_runs:
  assumes "no_failures e" and "fresh_ids e w"
  shows "\<exists>w'. appendSettlementLedger e tx t a st w = (Inr (), w')"
proof -
  have "\<exists>w'. for_each (\<lambda>(ty, amount, desc). appendOne e tx t a st ty amount desc) its w = (Inr (), w')" for its
    using assms(2)
  proof (induction its arbitrary: w)
    case (Cons it its)
    obtain ty amt desc where it: "it = (ty, amt, desc)" by (cases it)
    obtain w1 where w1: "appendOne e tx t a st ty amt desc w = (Inr (), w1)" "fresh_ids e w1"
      using appendOne_runs [OF assms(1) Cons.prems] by blast
    then show ?case using Cons.IH [OF w1(2)] by (simp add: it andThen_def)
  qed simp
  then show ?thesis by (simp add: appendSettlementLedger_loop)
qed

text \<open>
  When the database does not fail, the repair of a settlement leaves exactly one entry of every
  type it expects that was missing, and touches no other type.
\<close>

theorem repair_completes:
  assumes "no_failures e" and "fresh_ids e w" and "prefix ''set_'' (set_ID z)"
    and "set_TripID z \<notin> set (settlement_lines (db w))"
    and "backfillOwnLedger e t z w = (r, w')"
  shows "length (entry_rows t (set_ID z) ty (db w')) =
    (if ty \<in> set (expectedEntryTypes (amounts_of z)) then max 1 (length (entry_rows t (set_ID z) ty (db w)))
     else length (entry_rows t (set_ID z) ty (db w)))"
proof -
  define types where "types = remdups (map EntryType (filter (\<lambda>r. led_TenantID r = t
       \<and> ReferenceType r = ''settlement'' \<and> ReferenceID r = set_ID z) (ledger (db w))))"
  let ?st = "\<lambda>ty. ty \<in> set types" and ?a = "amounts_of z"
  have st: "?st ty \<longleftrightarrow> entry_rows t (set_ID z) ty (db w) \<noteq> []" for ty
    by (auto simp: types_def entry_rows_def filter_empty_conv)
  obtain k where k: "tick w \<le> k" and run: "backfillOwnLedger e t z w =
     (if list_all ?st (expectedEntryTypes ?a) then (Inr (), w\<lparr>tick := k\<rparr>)
      else (Inr (), snd (appendSettlementLedger e False t ?a ?st (w\<lparr>tick := k\<rparr>))))"
  proof (rule that [of "if set_TripID z = '''' then Suc (tick w) else Suc (Suc (tick w))"])
    have "filter (\<lambda>x. x = set_TripID z) (settlement_lines (db w)) = []"
      using assms(4) by (auto simp: filter_empty_conv)
    then show "backfillOwnLedger e t z w =
     (if list_all ?st (expectedEntryTypes ?a)
      then (Inr (), w\<lparr>tick := if set_TripID z = '''' then Suc (tick w) else Suc (Suc (tick w))\<rparr>)
      else (Inr (), snd (appendSettlementLedger e False t ?a ?st
        (w\<lparr>tick := if set_TripID z = '''' then Suc (tick w) else Suc (Suc (tick w))\<rparr>))))"
      using assms(1,3)
      by (simp add: backfillOwnLedger_def HasLegacySettlementLines_def ListLedgerEntryTypes_def running
          andThen_attempt types_def ret_def Let_def)
  qed simp
  show ?thesis
  proof (cases "list_all ?st (expectedEntryTypes ?a)")
    case True
    then have "db w' = db w" using assms(5) run by auto
    moreover have "ty \<in> set (expectedEntryTypes ?a) \<Longrightarrow> entry_rows t (set_ID z) ty (db w) \<noteq> []"
      using True st by (auto simp: list_all_iff)
    ultimately show ?thesis by (auto simp: max_def not_le less_Suc_eq_0_disj)
  next
    case False
    let ?its = "filter (\<lambda>it. \<not> ?st (fst it)) (items ?a)"
    have "fresh_ids e (w\<lparr>tick := k\<rparr>)" using fresh_ids_later [OF assms(2)] k by simp
    then obtain w1 where w1: "appendSettlementLedger e False t ?a ?st (w\<lparr>tick := k\<rparr>) = (Inr (), w1)"
      using ledger_runs [OF assms(1)] by blast
    then have "w' = w1" using assms(5) run False by auto
    then obtain ens where "list_all2 (entry_for ?a t) ?its ens" "posts e t k (db w) ens (db w') (tick w')"
      using appendSettlementLedger_effect [OF w1] by (auto simp: writes_items_def)
    then obtain rows where d': "db w' = (db w)\<lparr>ledger := ledger (db w) @ rows\<rparr>"
      and rows: "list_all2 (item_row ?a t) ?its rows" using writes_rows by blast
    have id: "settlementID ?a = set_ID z" by (simp add: amounts_of_def)
    have "length (entry_rows t (set_ID z) ty (db w')) =
        length (entry_rows t (set_ID z) ty (db w)) + count_list (map fst ?its) ty"
      using item_rows_count [OF rows, of ty] by (simp add: entry_rows_def d' id)
    moreover have "map fst ?its = filter (\<lambda>ty. \<not> ?st ty) (expectedEntryTypes ?a)"
      by (simp add: items_types [symmetric] filter_map o_def)
    moreover have "distinct (filter (\<lambda>ty. \<not> ?st ty) (expectedEntryTypes ?a))" by (simp add: distinct_types)
    ultimately show ?thesis using st [of ty] by (auto simp: count_distinct Suc_leI max_def)
  qed
qed

text \<open>
  Settling a trip that fails changes nothing. Otherwise the trip's stored settlement comes
  back, with entries it lacked appended, in order, to the ledger, or a new settlement is stored
  together with exactly the entries it asks for.
\<close>

theorem settlement_call:
  "case CalculateAndCreateSettlement e t req w of
      (Inl err, w') \<Rightarrow> db w' = db w
    | (Inr z, w') \<Rightarrow>
        header_of t (req_TripID req) (db w) = Some z
          \<and> (\<exists>pre rows. db w' = (db w)\<lparr>ledger := ledger (db w) @ rows\<rparr> \<and> list_all2 (item_row (amounts_of z) t) pre rows
               \<and> prefix pre (filter (\<lambda>it. entry_rows t (set_ID z) (fst it) (db w) = []) (items (amounts_of z))))
      \<or> (\<exists>now u rows. z = requested now u t req \<and> fresh_settlement z (db w)
           \<and> db w' = (db w)\<lparr>settlements := settlements (db w) @ [settlement_row t z], ledger := ledger (db w) @ rows\<rparr>
           \<and> list_all2 (item_row (amounts_of z) t) (items (amounts_of z)) rows)"
proof (cases "CalculateAndCreateSettlement e t req w")
  case (Pair r w')
  note eff = Calculate_effect [OF Pair]
  show ?thesis
  proof (cases r)
    case (Inl err)
    then show ?thesis using eff Pair by simp
  next
    case (Inr z)
    have none: "(\<not> (\<exists>r \<in> set (ledger (db w)). led_TenantID r = t \<and> ReferenceType r = ''settlement''
        \<and> ReferenceID r = set_ID z \<and> EntryType r = ty)) \<longleftrightarrow> entry_rows t (set_ID z) ty (db w) = []" for ty
      by (auto simp: entry_rows_def filter_empty_conv)
    consider "header_of t (req_TripID req) (db w) = Some z" "repairs e t z w w'"
      | now u where "z = requested now u t req" "created e t z w w'"
      using eff Inr by auto
    then show ?thesis
    proof cases
      case 1
      then obtain w1 pre ens where w1: "same w w1" and ens: "list_all2 (entry_for (amounts_of z) t) pre ens"
        "posts e t (tick w1) (db w1) ens (db w') (tick w')"
        and pre: "prefix pre (filter (\<lambda>it. entry_rows t (set_ID z) (fst it) (db w) = []) (items (amounts_of z)))"
        unfolding repairs_def writes_items_def none by blast
      obtain rows where "db w' = (db w1)\<lparr>ledger := ledger (db w1) @ rows\<rparr>" "list_all2 (item_row (amounts_of z) t) pre rows"
        using writes_rows [OF ens] by blast
      then show ?thesis using 1(1) w1 pre by (auto simp: Pair Inr same_def)
    next
      case 2
      let ?d = "(db w)\<lparr>settlements := settlements (db w) @ [settlement_row t z]\<rparr>"
      obtain k ens where fr: "fresh_settlement z (db w)" and ens: "list_all2 (entry_for (amounts_of z) t) (items (amounts_of z)) ens"
        "posts e t k ?d ens (db w') (tick w')"
        using 2(2) unfolding created_def by blast
      obtain rows where "db w' = ?d\<lparr>ledger := ledger ?d @ rows\<rparr>"
        "list_all2 (item_row (amounts_of z) t) (items (amounts_of z)) rows"
        using writes_rows [OF ens] by blast
      then have "db w' = (db w)\<lparr>settlements := settlements (db w) @ [settlement_row t z], ledger := ledger (db w) @ rows\<rparr>
          \<and> list_all2 (item_row (amounts_of z) t) (items (amounts_of z)) rows" by simp
      then show ?thesis unfolding Pair Inr prod.case sum.case using 2(1) fr by blast
    qed
  qed
qed

section \<open>The status constraint of settlements\<close>

lemma unset_sum:
  assumes "sum_or_zero e sm f w = (Inr v, w')" and "sm (f (db w)) = None"
  shows "v = Fin 0"
  using assms by (auto simp: sum_or_zero_def andThen_attempt query_def Let_def split: option.splits)

text \<open>
  Under the status constraint of the table, approving a settlement always fails, and the
  pending balance of every wallet is zero: no row can have the statuses these queries write and
  read.
\<close>

theorem settlement_status_blocked:
  assumes ok: "\<forall>z \<in> set (settlements (db w)). settlement_status_ok (set_Status z)" and unset: "sql_sum x [] = None"
    and row: "z \<in> set (settlements (db w))"
    and wal: "ServiceGetDriverWallet e x (set_TenantID z) (set_DriverID z) w = (Inr wal, w2)"
  shows "PendingBalance wal = Fin 0
    \<and> (\<exists>err w'. ApproveSettlement e (set_TenantID z) (set_ID z) w = (Inl err, w') \<and> db w' = db w)"
proof
  let ?f = "\<lambda>d. map NetPayout (filter (\<lambda>s. set_TenantID s = set_TenantID z \<and> set_DriverID s = set_DriverID z
      \<and> set_Status s = ''calculated'') (settlements d))"
  obtain av w1 p w3 where av: "GetDriverBalance e (set_TenantID z) (set_DriverID z) w = (Inr av, w1)"
    and p: "sum_or_zero e (sql_sum x) ?f w1 = (Inr p, w3)" and pend: "PendingBalance wal = p"
    using wal by (auto simp: ServiceGetDriverWallet_def GetDriverWallet_def andThen_ok [of "GetDriverBalance _ _ _"]
        andThen_ok [of "sum_or_zero _ _ _"] andThen_attempt split: if_splits)
  have "db w1 = db w" using av by (auto simp: GetDriverBalance_def query_ok)
  moreover have "?f (db w) = []" using ok by (auto simp: filter_empty_conv settlement_status_ok_def)
  ultimately show "PendingBalance wal = Fin 0" using unset_sum [OF p] unset pend by simp
  have "\<not> settlement_status_ok ''approved''" by (simp add: settlement_status_ok_def)
  then show "\<exists>err w'. ApproveSettlement e (set_TenantID z) (set_ID z) w = (Inl err, w') \<and> db w' = db w"
    using row by (auto simp: ApproveSettlement_def exec_stmt_def Let_def split: option.split)
qed

section \<open>Callbacks\<close>

lemma reconciled_rows:
  assumes "reconciled e p payload w w'"
  obtains prov utr why da now rows evs where
    "db w' = (update_payout (pay_TenantID p) (pay_ID p) (outcome_status (payload_Entity payload)) prov utr why da now (db w))
       \<lparr>ledger := ledger (db w) @ rows, provider_events := provider_events (db w) @ evs\<rparr>"
proof -
  obtain now da d1 ens d2 evs prov utr why where
      d1: "d1 = update_payout (pay_TenantID p) (pay_ID p) (outcome_status (payload_Entity payload)) prov utr why da now (db w)"
    and po: "posts e (pay_TenantID p) (tick w) d1 ens d2 (tick w')"
    and d': "db w' = d2\<lparr>provider_events := provider_events d2 @ evs\<rparr>"
    using assms unfolding reconciled_def Let_def by blast
  obtain rows where d2: "d2 = d1\<lparr>ledger := ledger d1 @ rows\<rparr>" using posts_rows [OF po] by blast
  show ?thesis
    by (rule that [where rows = rows and evs = evs and prov = prov and utr = utr and why = why and da = da and now = now])
       (simp add: d' d2 d1 update_payout_def)
qed

text \<open>
  C19: a callback changes the tables only with a valid signature over its body, for a payout it
  names, with matching amount, currency and reference and along an allowed status change; it leaves
  settlements, the other payouts and the identity of all payouts as they were.
\<close>

theorem callback_authentic:
  assumes "ProcessProviderWebhook e x s ct evid sig body w = (r, w')" and "db w' \<noteq> db w"
  shows "webhookSecret s \<noteq> '''' \<and> sig = hmac_sha256_hex x (webhookSecret s) body
    \<and> (\<exists>payload p. unmarshal_webhook x body = Inr payload \<and> p \<in> set (payouts (db w))
        \<and> pay_ID p = ent_Reference (payload_Entity payload)
        \<and> reconcile_error (payload_Entity payload) p = None
        \<and> payout_move (pay_Status p) (outcome_status (payload_Entity payload))
        \<and> settlements (db w') = settlements (db w)
        \<and> map core (payouts (db w')) = map core (payouts (db w))
        \<and> (\<forall>q \<in> set (payouts (db w)). pay_ID q = pay_ID p \<or> q \<in> set (payouts (db w'))))"
proof -
  obtain p payload where adm: "admissible x s evid sig body (db w) p payload" and rec: "reconciled e p payload w w'"
    using Webhook_effect [OF assms(1)] assms(2) by (cases r) (auto simp: same_def)
  obtain prov utr why da now rows evs where
    d': "db w' = (update_payout (pay_TenantID p) (pay_ID p) (outcome_status (payload_Entity payload)) prov utr why da now (db w))
       \<lparr>ledger := ledger (db w) @ rows, provider_events := provider_events (db w) @ evs\<rparr>"
    by (rule reconciled_rows [OF rec])
  have "q \<in> set (payouts (db w'))" if "q \<in> set (payouts (db w))" "pay_ID q \<noteq> pay_ID p" for q
    using that by (force simp: d' update_payout_def)
  moreover have "map core (payouts (db w')) = map core (payouts (db w))" using core_update by (simp add: d')
  moreover have "settlements (db w') = settlements (db w)" by (simp add: d' update_payout_def)
  moreover have "p \<in> set (payouts (db w))" "pay_ID p = ent_Reference (payload_Entity payload)"
    using adm by (auto simp: admissible_def find_Some_iff)
  ultimately show ?thesis using adm unfolding admissible_def by blast
qed

lemma has_entry_update [simp]: "has_entry t k i (update_payout t' i' st prov utr why da now d) = has_entry t k i d"
  by (simp add: has_entry_def update_payout_def)

lemma update_hits:
  assumes "p \<in> set (payouts d)" and "pay_ID p = i" and "pay_TenantID p = t"
  shows "\<exists>q \<in> set (payouts (update_payout t i st prov utr why da now d)). pay_ID q = i \<and> pay_Status q = st"
proof -
  obtain xs ys where "payouts d = xs @ p # ys" using assms(1) by (auto simp: in_set_conv_decomp)
  then show ?thesis using assms(2,3) by (simp add: update_payout_def bex_Un)
qed

lemma apply_ok:
  assumes "webhook_apply e evid body (p, payload) w = (Inr u, w')"
  shows "reconciled e p payload w w'"
proof -
  obtain w1 w2 where "same w w1" "webhook_tx e evid body p payload True w1 = (Inr u, w2)" "same w2 w'"
    using with_tx_ok [OF assms [unfolded webhook_apply_def fst_conv snd_conv]] by blast
  then show ?thesis using webhook_tx_ok reconciled_from by blast
qed

text \<open>
  Two callbacks of one payout that are admitted before either is applied can leave it paid with
  a compensating credit, which breaks the books: the status check is not part of the transaction.
\<close>

theorem callbacks_race:
  assumes inv: "settle_inv e w"
    and first: "webhook_admit e x s ev1 sig1 body1 w = (Inr (Some (p, f)), w1)"
    and second: "webhook_admit e x s ev2 sig2 body2 w1 = (Inr (Some (p, g)), w2)"
    and failed: "outcome_status (payload_Entity f) = PayoutFailed"
    and paid: "outcome_status (payload_Entity g) = PayoutPaid"
    and apply1: "webhook_apply e ev1 body1 (p, f) w2 = (Inr u1, w3)"
    and apply2: "webhook_apply e ev2 body2 (p, g) w3 = (Inr u2, w4)"
  shows "\<exists>q \<in> set (payouts (db w4)). pay_ID q = pay_ID p \<and> pay_Status q = PayoutPaid
     \<and> refs ''payout_reversal'' (pay_ID q) (db w4) \<noteq> [] \<and> \<not> booked (db w4) q"
proof -
  let ?t = "pay_TenantID p"
  have adm: "admissible x s ev1 sig1 body1 (db w) p f" using admit_ok [OF first] .
  then have p: "p \<in> set (payouts (db w))" by (auto simp: admissible_def find_Some_iff)
  have db1: "db w1 = db w" and db2: "db w2 = db w"
    using readsD [OF reads_admit first] readsD [OF reads_admit second] by (simp_all add: same_def)
  have "admissible x s ev2 sig2 body2 (db w) p g" using admit_ok [OF second] db1 by simp
  then have "payout_move (pay_Status p) PayoutPaid" "payout_move (pay_Status p) PayoutFailed"
    using adm failed paid by (simp_all add: admissible_def)
  then have "\<not> closing (pay_Status p)"
    using move_from_closing [of "pay_Status p" PayoutPaid] move_from_closing [of "pay_Status p" PayoutFailed] by auto
  then have none: "\<not> has_entry ?t ''payout_reversal'' (pay_ID p) (db w)"
    using booked_closing inv p by (auto simp: settle_inv_def books_def)
  obtain d1 u d3 evs now da prov utr why where
      d1: "d1 = update_payout ?t (pay_ID p) PayoutFailed prov utr why da now (db w)"
    and po: "posts e ?t (tick w2) d1 [reversal_entry u ?t p PayoutFailed] d3 (tick w3)"
    and w3: "db w3 = d3\<lparr>provider_events := provider_events d3 @ evs\<rparr>"
    using apply_ok [OF apply1] none
    unfolding reconciled_def Let_def failed db2 by (auto simp: closing_def)
  obtain r where r: "d3 = d1\<lparr>ledger := ledger d1 @ [r]\<rparr>" "ReferenceType r = ''payout_reversal''" "ReferenceID r = pay_ID p"
  proof -
    obtain rows where "d3 = d1\<lparr>ledger := ledger d1 @ rows\<rparr>" "list_all2 (stamped ?t) [reversal_entry u ?t p PayoutFailed] rows"
      using posts_rows [OF po] by blast
    then show ?thesis using that stampedD(6,7) by (fastforce simp: list_all2_Cons1)
  qed
  have l3: "ledger (db w3) = ledger (db w) @ [r]" by (simp add: w3 r(1) d1 update_payout_def)
  obtain d5 evs2 now2 da2 prov2 utr2 why2 where
      d5: "posts e ?t (tick w3) (update_payout ?t (pay_ID p) PayoutPaid prov2 utr2 why2 da2 now2 (db w3)) [] d5 (tick w4)"
    and w4: "db w4 = d5\<lparr>provider_events := provider_events d5 @ evs2\<rparr>"
    using apply_ok [OF apply2] by (auto simp: reconciled_def Let_def paid closing_def)
  have d5': "d5 = update_payout ?t (pay_ID p) PayoutPaid prov2 utr2 why2 da2 now2 (db w3)"
    by (rule posts_rows [OF d5]) simp
  have "map core (payouts (db w3)) = map core (payouts (db w))" by (simp add: w3 r(1) d1 core_update)
  then have "core p \<in> core ` set (payouts (db w3))" using p by (metis image_eqI list.set_map)
  then obtain p3 where p3: "p3 \<in> set (payouts (db w3))" "pay_ID p3 = pay_ID p" "pay_TenantID p3 = ?t"
    by (auto simp: core_def)
  then obtain q where q: "q \<in> set (payouts (db w4))" "pay_ID q = pay_ID p" "pay_Status q = PayoutPaid"
    using that update_hits [OF p3, of PayoutPaid prov2 utr2 why2 da2 now2] by (auto simp: w4 d5')
  have "r \<in> set (refs ''payout_reversal'' (pay_ID q) (db w4))"
    using l3 r(2,3) q(2) by (simp add: refs_def w4 d5' update_payout_def)
  then have "refs ''payout_reversal'' (pay_ID q) (db w4) \<noteq> []" by auto
  moreover from this have "\<not> booked (db w4) q" using q(3) by (simp add: booked_def closing_def)
  ultimately show ?thesis using q by blast
qed

lemma update_runs:
  assumes "no_failures e"
  obtains da now where "UpdatePayoutStatus e t i st prov utr why w =
    (Inr (), w\<lparr>tick := Suc (Suc (tick w)), db := update_payout t i st prov utr why da now (db w)\<rparr>)"
  using assms that by (simp add: UpdatePayoutStatus_def running Let_def)

definition unrecorded :: "gostring \<Rightarrow> settle_db \<Rightarrow> bool" where
  "unrecorded ev d \<longleftrightarrow> (\<forall>v \<in> set (provider_events d). ev_ID v \<noteq> ''pe_'' @ ev \<and> ProviderEventID v \<noteq> ev)"

lemma record_runs:
  assumes "no_failures e" and "unrecorded ev (db w)"
  shows "\<exists>v. RecordProviderEvent e t pr ev ty b w = (Inr (), w\<lparr>tick := Suc (Suc (tick w)),
     db := (db w)\<lparr>provider_events := provider_events (db w) @ [v]\<rparr>\<rparr>) \<and> ProviderEventID v = ev \<and> ev_ID v = ''pe_'' @ ev"
  using assms by (auto simp: RecordProviderEvent_def running insert_event_def unrecorded_def)

lemma credit_runs:
  assumes "no_failures e" and "fresh_ids e w"
  shows "\<exists>w1. (if st = PayoutFailed \<or> st = PayoutReversed
            then andThen (wrap ''check compensating ledger entry: ''
                   (HasCompensatingLedgerEntry e t ''payout_reversal'' (pay_ID p))) (\<lambda>hasComp.
                   if \<not> hasComp
                   then andThen (new_uuid e) (\<lambda>uuid.
                          wrap ''append compensating ledger entry: ''
                            (AppendLedgerEntry e True t (reversal_entry uuid t p st)))
                   else ret ())
            else ret ()) w = (Inr (), w1) \<and> fresh_ids e w1 \<and> provider_events (db w1) = provider_events (db w)"
proof (cases "(st = PayoutFailed \<or> st = PayoutReversed) \<and> \<not> has_entry t ''payout_reversal'' (pay_ID p) (db w)")
  case True
  let ?en = "reversal_entry (uuid_at e (Suc (tick w))) t p st" and ?w = "w\<lparr>tick := Suc (Suc (tick w))\<rparr>"
  have id: "led_ID ?en = ''led_'' @ uuid_at e (Suc (tick w))" by (simp add: reversal_entry_def)
  then have "led_ID ?en \<notin> led_ID ` set (ledger (db ?w))" using assms(2) by (simp add: fresh_ids_def)
  then obtain w1 k where w1: "AppendLedgerEntry e True t ?en ?w = (Inr (), w1)" "tick ?w < tick w1"
    "db w1 = (db ?w)\<lparr>ledger := ledger (db ?w) @ [posted t ?en (now_at e k) (db ?w)]\<rparr>"
    using append_runs [OF assms(1), of ?en ?w True t] by auto
  have "uuid_at e j \<noteq> uuid_at e (Suc (tick w))" if "tick w1 \<le> j" for j
    using assms(2) that w1(2) by (auto simp: fresh_ids_def inj_eq)
  then have "fresh_ids e w1" using assms(2) w1(2,3) id by (auto simp: fresh_ids_def posted_def)
  then show ?thesis
    using True assms(1) w1 by (auto simp: HasCompensatingLedgerEntry_def running wrap_def)
next
  case False
  then show ?thesis
    using assms fresh_ids_later [OF assms(2), of "w\<lparr>tick := Suc (tick w)\<rparr>"]
    by (auto simp: HasCompensatingLedgerEntry_def running)
qed

lemma andThen_Inr: "m w = (Inr x, w1) \<Longrightarrow> andThen m f w = f x w1"
  by (simp add: andThen_def)

lemma andThen_wrap: "m w = (Inr x, w1) \<Longrightarrow> andThen (wrap s m) f w = f x w1"
  by (simp add: wrap_then)

lemma ids_update: "map pay_ID (payouts (update_payout t i st prov utr why da now d)) = map pay_ID (payouts d)"
  by (simp add: update_payout_def)

lemma callback_runs:
  assumes "no_failures e" and "fresh_ids e w" and "unrecorded ev (db w)"
  shows "\<exists>w' v. webhook_apply e ev body (p, payload) w = (Inr (), w') \<and> fresh_ids e w'
    \<and> provider_events (db w') = provider_events (db w) @ [v] \<and> ProviderEventID v = ev \<and> ev_ID v = ''pe_'' @ ev"
proof -
  define w0 where "w0 = w\<lparr>tick := Suc (tick w)\<rparr>"
  let ?t = "pay_TenantID p" and ?ent = "payload_Entity payload"
  let ?st = "outcome_status ?ent"
  obtain da now where up: "UpdatePayoutStatus e ?t (pay_ID p) ?st (Some (ent_ID ?ent)) (non_empty (ent_UTR ?ent))
      (non_empty (ent_ErrorDesc ?ent)) w0 = (Inr (), w0\<lparr>tick := Suc (Suc (tick w0)), db := update_payout ?t (pay_ID p) ?st
        (Some (ent_ID ?ent)) (non_empty (ent_UTR ?ent)) (non_empty (ent_ErrorDesc ?ent)) da now (db w0)\<rparr>)"
    by (rule update_runs [OF assms(1)])
  define w1 where "w1 = w0\<lparr>tick := Suc (Suc (tick w0)), db := update_payout ?t (pay_ID p) ?st
        (Some (ent_ID ?ent)) (non_empty (ent_UTR ?ent)) (non_empty (ent_ErrorDesc ?ent)) da now (db w0)\<rparr>"
  define comp where "comp = (if ?st = PayoutFailed \<or> ?st = PayoutReversed
            then andThen (wrap ''check compensating ledger entry: ''
                   (HasCompensatingLedgerEntry e ?t ''payout_reversal'' (pay_ID p))) (\<lambda>hasComp.
                   if \<not> hasComp
                   then andThen (new_uuid e) (\<lambda>uuid.
                          wrap ''append compensating ledger entry: ''
                            (AppendLedgerEntry e True ?t (reversal_entry uuid ?t p ?st)))
                   else ret ())
            else ret ())"
  have ids: "pay_ID ` set (payouts (db w1)) = pay_ID ` set (payouts (db w))"
    using arg_cong [where f = set, OF ids_update [of ?t "pay_ID p" ?st]] by (simp add: w1_def w0_def)
  have "fresh_ids e w1"
    using assms(2) unfolding fresh_ids_def ids by (simp add: w1_def w0_def update_payout_def)
  then obtain w2 where w2: "comp w1 = (Inr (), w2)" "fresh_ids e w2" "provider_events (db w2) = provider_events (db w1)"
    using credit_runs [OF assms(1)] unfolding comp_def by blast
  have ev: "provider_events (db w2) = provider_events (db w)" using w2(3) by (simp add: w1_def w0_def update_payout_def)
  then have "unrecorded ev (db w2)" using assms(3) by (simp add: unrecorded_def)
  then obtain v where v: "RecordProviderEvent e ?t ''razorpay'' ev (Event payload) body w2 =
      (Inr (), w2\<lparr>tick := Suc (Suc (tick w2)), db := (db w2)\<lparr>provider_events := provider_events (db w2) @ [v]\<rparr>\<rparr>)"
    "ProviderEventID v = ev" "ev_ID v = ''pe_'' @ ev"
    using record_runs [OF assms(1)] by blast
  let ?w3 = "w2\<lparr>tick := Suc (Suc (tick w2)), db := (db w2)\<lparr>provider_events := provider_events (db w2) @ [v]\<rparr>\<rparr>"
  have upd_then: "andThen (wrap ''failed updating payout status: ''
           (UpdatePayoutStatus e ?t (pay_ID p) ?st (Some (ent_ID ?ent))
              (non_empty (ent_UTR ?ent)) (non_empty (ent_ErrorDesc ?ent)))) f w0 = f () w1" for f :: "unit \<Rightarrow> unit sact"
    by (rule andThen_wrap) (rule up [folded w1_def])
  have comp_then: "andThen comp f w1 = f () w2" for f :: "unit \<Rightarrow> unit sact"
    by (rule andThen_Inr) (rule w2(1))
  have "webhook_tx e ev body p payload True w0 = (Inr (), ?w3)"
    unfolding webhook_tx_def Let_def comp_def [symmetric] upd_then comp_then andThen_attempt v(1)
      fst_conv snd_conv sum.case by simp
  then have "webhook_apply e ev body (p, payload) w = (Inr (), ?w3\<lparr>tick := Suc (tick ?w3)\<rparr>)"
    using tx_runs [OF assms(1), of "webhook_tx e ev body p payload" w] by (simp add: webhook_apply_def w0_def)
  moreover have "fresh_ids e (?w3\<lparr>tick := Suc (tick ?w3)\<rparr>)" using w2(2) by (simp add: fresh_ids_def)
  ultimately show ?thesis using ev v(2,3) by auto
qed

section \<open>Concrete worlds\<close>

definition seed_entry :: LedgerEntry where
  "seed_entry = \<lparr>led_ID = ''seed'', led_TenantID = ''t'', led_DriverID = ''d'', led_TripID = None,
     EntryType = EntryTripEarning, led_Amount = rupees 100000, led_Currency = ''INR'',
     ReferenceType = ''settlement'', ReferenceID = ''s1'', BalanceAfter = rupees 100000,
     led_Description = '''', led_CreatedAt = 0\<rparr>"

definition sample_row :: SettlementRow where
  "sample_row = settlement_row ''t'' (CalculateSettlement 0 ''s1'' ''t'' ''trip'' ''d'' (F 1000) 0 0 0 0)"

definition funded_world :: "settle_db world" where
  "funded_world = \<lparr>db = (db empty_world)\<lparr>settlements := [sample_row], ledger := [seed_entry]\<rparr>, tick = 1\<rparr>"

lemma fl_numeral: "(numeral n :: int) < 2 ^ 53 \<Longrightarrow> fl (numeral n) = Fin (numeral n)"
  using fl_of_int [of "numeral n"] by simp

lemma rupees_sample:
  "rupees 100000 = Fin 1000" "rupees 50000 = Fin 500" "rupees (- 50000) = Fin (- 500)"
  using fl_of_int [of "- 500"] by (simp_all add: rupees_def fl_numeral)

lemma round2_sample: "round2 (Fin 1000) = Fin 1000" "round2 (Fin 500) = Fin 500"
  using round2_rupees [of 100000] round2_rupees [of 50000] by (simp_all add: rupees_sample)

lemma sample_row_fields [simp]:
  "set_TripID sample_row = ''trip''" "set_Status sample_row = ''pending''" "set_ID sample_row = ''s1''"
  "set_TenantID sample_row = ''t''" "set_DriverID sample_row = ''d''"
  by (simp_all add: sample_row_def settlement_row_def Settlement.Settlement.defs CalculateSettlement_def Let_def)

lemma funded_kept: "kept_ledger [seed_entry]"
proof -
  have "kept_ledger ([] @ [seed_entry])"
    by (rule kept_snoc [OF kept_nil])
       (simp_all add: seed_entry_def rows_balance_def float_ops rupees_sample round2_sample fl_numeral)
  then show ?thesis by simp
qed

lemma funded_inv: "settle_inv plain_env funded_world"
  using funded_kept
  by (simp add: settle_inv_def timed_def funded_world_def books_def solvent_def one_per_trip_def
      settlement_status_ok_def empty_world_def seed_entry_def plain_env_def mono_def)

lemma plain_fresh: "fresh_ids plain_env funded_world"
  by (simp add: fresh_ids_def plain_env_def funded_world_def empty_world_def seed_entry_def inj_def)

abbreviation sample_request :: InitiatePayoutRequest where
  "sample_request \<equiv> \<lparr>ipr_IdempotencyKey = ''k'', ipr_Amount = Fin 500\<rparr>"

lemma funded_balance: "ledger_balance ''t'' ''d'' (db funded_world) = Fin 1000"
  by (simp add: ledger_balance_def latest_first_def entries_of_def funded_world_def seed_entry_def rupees_sample)

lemma sample_conditions:
  "fresh_ids plain_env funded_world" "''t'' \<noteq> ''''" "''d'' \<noteq> ''''" "ipr_IdempotencyKey sample_request \<noteq> ''''"
  "payout_by_key ''t'' (ipr_IdempotencyKey sample_request) (db funded_world) = None"
  "account_verified ''t'' ''d'' (db funded_world)"
  "ValidatePayoutEligibility (ledger_balance ''t'' ''d'' (db funded_world)) (ipr_Amount sample_request) True
          (minPayoutLimit plain_service) = None"
proof -
  show "account_verified ''t'' ''d'' (db funded_world)"
    by (simp add: account_verified_def funded_world_def empty_world_def)
  show "ValidatePayoutEligibility (ledger_balance ''t'' ''d'' (db funded_world)) (ipr_Amount sample_request) True
          (minPayoutLimit plain_service) = None"
    by (simp add: funded_balance ValidatePayoutEligibility_def plain_service_def NewSettlementAppService_def)
  show "fresh_ids plain_env funded_world" by (rule plain_fresh)
qed (simp_all add: payout_by_key_def funded_world_def empty_world_def)

theorem payout_goes_through_witness:
  "\<exists>resp w' p. InitiatePayout plain_env plain_externals plain_service ''t'' ''d'' sample_request funded_world = (Inr resp, w')
     \<and> \<not> IsDuplicate resp \<and> new_payout ''t'' ''d'' sample_request p \<and> payouts (db w') = payouts (db funded_world) @ [p]"
  by (rule payout_goes_through [OF plain_simps(5) sample_conditions])

lemma sample_payout:
  "\<exists>resp w'. InitiatePayout plain_env plain_externals plain_service ''t'' ''d'' sample_request funded_world = (Inr resp, w')
     \<and> paid_now plain_env plain_service ''t'' ''d'' sample_request funded_world w' resp"
  by (rule payout_runs [OF plain_simps(5) sample_conditions])

theorem payout_once_witness:
  "\<exists>resp w1 resp2 w3.
      InitiatePayout plain_env plain_externals plain_service ''t'' ''d'' sample_request funded_world = (Inr resp, w1)
    \<and> InitiatePayout plain_env plain_externals plain_service ''t'' ''other'' \<lparr>ipr_IdempotencyKey = ''k'', ipr_Amount = Fin 9\<rparr>
        (settle.run plain_env plain_externals plain_service [CallWallet ''t'' ''d''] w1) = (Inr resp2, w3)
    \<and> IsDuplicate resp2 \<and> resp_PayoutID resp2 = resp_PayoutID resp \<and> resp_Amount resp2 = resp_Amount resp"
proof -
  obtain resp w1 where call: "InitiatePayout plain_env plain_externals plain_service ''t'' ''d'' sample_request funded_world = (Inr resp, w1)"
    using sample_payout by blast
  show ?thesis
    using payout_once [OF funded_inv call plain_simps(5),
        of "\<lparr>ipr_IdempotencyKey = ''k'', ipr_Amount = Fin 9\<rparr>" "''other''" "[CallWallet ''t'' ''d'']"] call by auto
qed

theorem wallet_exact_witness:
  "\<exists>resp w1 wal w2.
      InitiatePayout plain_env plain_externals plain_service ''t'' ''d'' sample_request funded_world = (Inr resp, w1)
    \<and> ServiceGetDriverWallet plain_env plain_externals ''t'' ''d'' w1 = (Inr wal, w2)
    \<and> AvailableBalance wal = rupees 50000"
proof -
  obtain resp w1 where call: "InitiatePayout plain_env plain_externals plain_service ''t'' ''d'' sample_request funded_world = (Inr resp, w1)"
    and paid: "paid_now plain_env plain_service ''t'' ''d'' sample_request funded_world w1 resp"
    using sample_payout by blast
  obtain wal w2 where wal: "ServiceGetDriverWallet plain_env plain_externals ''t'' ''d'' w1 = (Inr wal, w2)"
    using Wallet_runs [OF plain_simps(5), of "sql_sum plain_externals" "''t''" "''d''" w1]
    by (auto simp: ServiceGetDriverWallet_def)
  let ?n = "\<lambda>r. if EntryType r = EntryPayout then - 50000 else 100000 :: int"
  obtain r where led: "ledger (db w1) = [seed_entry, r]" and r: "led_TenantID r = ''t''" "led_DriverID r = ''d''"
    "EntryType r = EntryPayout" "led_Amount r = Fin (- 500)"
    using paid by (auto simp: paid_now_def paid_out_def funded_world_def float_ops)
  have w: "w1 = settle.run plain_env plain_externals plain_service [CallPayout ''t'' ''d'' sample_request] funded_world"
    using call by simp
  have paise: "led_Amount ra = rupees (?n ra)" if "ra \<in> set (ledger (db w1))" for ra
    using that by (auto simp: led r seed_entry_def rupees_sample)
  have bound: "sum_list (map (\<lambda>r. \<bar>?n r\<bar>) (entries_of ''t'' ''d'' (db w1))) \<le> 2 ^ 44"
    using led r by (simp add: entries_of_def seed_entry_def)
  have "AvailableBalance wal = rupees (paise_total ?n ''t'' ''d'' (db w1))"
    by (rule conjunct1 [OF wallet_exact [OF funded_inv w paise bound wal]])
  also have "paise_total ?n ''t'' ''d'' (db w1) = 50000"
    using led r by (simp add: paise_total_def entries_of_def seed_entry_def)
  finally show ?thesis using call wal by blast
qed

theorem settlement_status_blocked_witness:
  "\<exists>err w' wal w2. ApproveSettlement plain_env ''t'' ''s1'' funded_world = (Inl err, w')
     \<and> ServiceGetDriverWallet plain_env plain_externals ''t'' ''d'' funded_world = (Inr wal, w2) \<and> PendingBalance wal = Fin 0"
proof -
  obtain wal w2 where wal: "ServiceGetDriverWallet plain_env plain_externals ''t'' ''d'' funded_world = (Inr wal, w2)"
    using Wallet_runs [OF plain_simps(5), of "sql_sum plain_externals" "''t''" "''d''" funded_world]
    by (auto simp: ServiceGetDriverWallet_def)
  then show ?thesis
    using settlement_status_blocked [of funded_world plain_externals sample_row plain_env wal w2]
    by (auto simp: funded_world_def settlement_status_ok_def plain_externals_def)
qed

definition open_payout :: PayoutInstruction where
  "open_payout = \<lparr>pay_ID = ''p'', pay_TenantID = ''t'', pay_DriverID = ''d'', PayoutAccountID = ''a'',
     pay_Amount = Fin 500, pay_Currency = ''INR'', IdempotencyKey = ''k'', ProviderPayoutID = None,
     pay_Status = PayoutInitiated, FailureReason = None, UTR = None, InitiatedAt = 0, CompletedAt = None,
     pay_CreatedAt = 0, pay_UpdatedAt = 0\<rparr>"

definition open_debit :: LedgerEntry where
  "open_debit = (payout_entry '''' ''t'' ''d'' ''p'' (Fin 500))\<lparr>BalanceAfter := Fin 500\<rparr>"

definition open_world :: "settle_db world" where
  "open_world = \<lparr>db = (db funded_world)\<lparr>ledger := [seed_entry, open_debit], payouts := [open_payout]\<rparr>, tick = 1\<rparr>"

text \<open>The body of a callback is its status here.\<close>

definition callback :: "gostring \<Rightarrow> RazorpayWebhookPayload" where
  "callback st = \<lparr>Event = ''payout'', payload_Entity = \<lparr>ent_ID = ''r'', ent_Amount = Fin 0, ent_Currency = ''INR'',
     ent_Status = st, ent_UTR = '''', ent_Reference = ''p'', ent_ErrorDesc = ''''\<rparr>\<rparr>"

definition callback_externals :: externals where
  "callback_externals = plain_externals\<lparr>unmarshal_webhook := \<lambda>b. Inr (callback b)\<rparr>"

lemma open_inv: "settle_inv plain_env open_world"
proof -
  have "kept_ledger ([seed_entry] @ [open_debit])"
    by (rule kept_snoc [OF funded_kept])
       (simp_all add: seed_entry_def open_debit_def payout_entry_def rows_balance_def mine_def float_ops
         rupees_sample round2_sample fl_numeral)
  then show ?thesis
    by (auto simp: settle_inv_def timed_def open_world_def funded_world_def books_def solvent_def one_per_trip_def
      booked_def refs_def for_payout_def closing_def open_payout_def open_debit_def payout_entry_def
      settlement_status_ok_def empty_world_def seed_entry_def plain_env_def mono_def float_ops)
qed

lemma callback_admitted:
  assumes "db w = db open_world" and "ev \<noteq> ''''" and "st = ''failed'' \<or> st = ''processed''"
  shows "webhook_admit plain_env callback_externals plain_service ev (''secret'' @ st) st w
     = (Inr (Some (open_payout, callback st)), w\<lparr>tick := Suc (Suc (tick w))\<rparr>)"
  using assms
  by (auto simp: webhook_admit_def plain_service_def NewSettlementAppService_def callback_externals_def
      plain_externals_def IsProviderEventProcessed_def event_recorded_def GetPayoutByIDGlobal_def running
      andThen_attempt callback_def reconcile_error_def open_world_def funded_world_def empty_world_def open_payout_def
      float_ops gabs_def EqualFold_def CanTransitionTo_def outcome_status_def Let_def ret_def)

lemma open_fresh: "fresh_ids plain_env open_world"
  by (simp add: fresh_ids_def plain_env_def open_world_def funded_world_def empty_world_def seed_entry_def
      open_payout_def open_debit_def payout_entry_def inj_def)

lemma open_unrecorded: "unrecorded ev (db open_world)"
  by (simp add: unrecorded_def open_world_def funded_world_def empty_world_def)

theorem callbacks_race_witness:
  "\<exists>w1 w2 u1 w3 u2 w4.
      webhook_admit plain_env callback_externals plain_service ''e1'' ''secretfailed'' ''failed'' open_world
        = (Inr (Some (open_payout, callback ''failed'')), w1)
    \<and> webhook_admit plain_env callback_externals plain_service ''e2'' ''secretprocessed'' ''processed'' w1
        = (Inr (Some (open_payout, callback ''processed'')), w2)
    \<and> webhook_apply plain_env ''e1'' ''failed'' (open_payout, callback ''failed'') w2 = (Inr u1, w3)
    \<and> webhook_apply plain_env ''e2'' ''processed'' (open_payout, callback ''processed'') w3 = (Inr u2, w4)
    \<and> (\<exists>q \<in> set (payouts (db w4)). pay_Status q = PayoutPaid \<and> refs ''payout_reversal'' (pay_ID q) (db w4) \<noteq> [])"
proof -
  let ?w1 = "open_world\<lparr>tick := Suc (Suc (tick open_world))\<rparr>"
  let ?w2 = "?w1\<lparr>tick := Suc (Suc (tick ?w1))\<rparr>"
  have a1: "webhook_admit plain_env callback_externals plain_service ''e1'' (''secret'' @ ''failed'') ''failed'' open_world
        = (Inr (Some (open_payout, callback ''failed'')), ?w1)" by (rule callback_admitted) simp_all
  have a2: "webhook_admit plain_env callback_externals plain_service ''e2'' (''secret'' @ ''processed'') ''processed'' ?w1
        = (Inr (Some (open_payout, callback ''processed'')), ?w2)" by (rule callback_admitted) simp_all
  have "fresh_ids plain_env ?w2" using fresh_ids_later [OF open_fresh] by simp
  then obtain w3 v where b1: "webhook_apply plain_env ''e1'' ''failed'' (open_payout, callback ''failed'') ?w2 = (Inr (), w3)"
    and f3: "fresh_ids plain_env w3" "provider_events (db w3) = provider_events (db ?w2) @ [v]"
      "ProviderEventID v = ''e1''" "ev_ID v = ''pe_e1''"
    using callback_runs [OF plain_simps(5), of ?w2 "''e1''" "''failed''" open_payout "callback ''failed''"] open_unrecorded
    by auto
  have "unrecorded ''e2'' (db w3)" using f3(2-4) open_unrecorded [of "''e2''"] by (simp add: unrecorded_def)
  then obtain w4 where b2: "webhook_apply plain_env ''e2'' ''processed'' (open_payout, callback ''processed'') w3 = (Inr (), w4)"
    using callback_runs [OF plain_simps(5) f3(1)] by blast
  have st: "outcome_status (payload_Entity (callback ''failed'')) = PayoutFailed"
    "outcome_status (payload_Entity (callback ''processed'')) = PayoutPaid"
    by (simp_all add: callback_def outcome_status_def)
  show ?thesis using callbacks_race [OF open_inv a1 a2 st b1 b2] a1 a2 b1 b2 by auto
qed

theorem callback_authentic_witness:
  "\<exists>w'. ProcessProviderWebhook plain_env callback_externals plain_service ''t'' ''e1'' ''secretprocessed'' ''processed'' open_world
       = (Inr (), w')
     \<and> (\<exists>p \<in> set (payouts (db open_world)). payout_move (pay_Status p) PayoutPaid)"
proof -
  let ?w1 = "open_world\<lparr>tick := Suc (Suc (tick open_world))\<rparr>"
  have a: "webhook_admit plain_env callback_externals plain_service ''e1'' (''secret'' @ ''processed'') ''processed'' open_world
        = (Inr (Some (open_payout, callback ''processed'')), ?w1)" by (rule callback_admitted) simp_all
  have "fresh_ids plain_env ?w1" using fresh_ids_later [OF open_fresh] by simp
  then obtain w' v where b: "webhook_apply plain_env ''e1'' ''processed'' (open_payout, callback ''processed'') ?w1 = (Inr (), w')"
    and ev: "provider_events (db w') = provider_events (db ?w1) @ [v]"
    using callback_runs [OF plain_simps(5), of ?w1 "''e1''" "''processed''" open_payout "callback ''processed''"] open_unrecorded
    by auto
  have call: "ProcessProviderWebhook plain_env callback_externals plain_service ''t'' ''e1'' ''secretprocessed'' ''processed'' open_world
       = (Inr (), w')" using a b by (simp add: ProcessProviderWebhook_def andThen_def)
  have "db w' \<noteq> db open_world" using ev by auto
  from callback_authentic [OF call this] show ?thesis
    using call by (auto simp: callback_externals_def callback_def outcome_status_def)
qed

definition unwritten_world :: "settle_db world" where
  "unwritten_world = \<lparr>db = (db empty_world)\<lparr>settlements := [sample_row]\<rparr>, tick = 1\<rparr>"

definition unwritten :: Settlement where
  "unwritten = \<lparr>set_ID = ''set_1'', set_TenantID = ''t'', set_TripID = ''trip'', set_DriverID = ''d'',
     GrossFare = Fin 1000, CommissionRate = 0, CommissionAmount = Fin 100, TollAdjustment = Fin 0,
     AdvanceDeductions = Fin 0, TDSRate = 0, TDSAmount = Fin 9, NetPayout = Fin 891, set_Status = ''pending'',
     set_CreatedAt = 0, set_UpdatedAt = 0\<rparr>"

theorem repair_completes_witness:
  "length (entry_rows ''t'' ''set_1'' EntryCommission
     (db (snd (backfillOwnLedger plain_env ''t'' unwritten unwritten_world)))) = 1"
proof -
  obtain r w' where run: "backfillOwnLedger plain_env ''t'' unwritten unwritten_world = (r, w')"
    by (cases "backfillOwnLedger plain_env ''t'' unwritten unwritten_world")
  have "fresh_ids plain_env unwritten_world"
    by (simp add: fresh_ids_def plain_env_def unwritten_world_def empty_world_def inj_def)
  from repair_completes [OF plain_simps(5) this _ _ run, of EntryCommission] show ?thesis
    unfolding run snd_conv
    by (simp add: unwritten_def unwritten_world_def empty_world_def entry_rows_def expectedEntryTypes_def amounts_of_def)
qed

end
