(* ===== verification/Frames.thy ===== *)
theory Frames
  imports GoBytes
begin

text \<open>
  The provider-neutral frame every decoder produces (\<open>internal/telemetry/providers/provider.go\<close>) and
  the clamp of coordinates the binary decoders share. \<open>RawPayload\<close> is kept as its bytes. A
  \<open>time.Time\<close> has a location: that of the device time is kept as the text \<open>String\<close> prints of it.
\<close>

record RawFrame =
  IMEI :: gostring
  DeviceTime :: gotime
  DeviceZone :: gostring
  Latitude :: float64
  Longitude :: float64
  Speed :: float64
  Heading :: float64
  frame_Ignition :: "bool option"
  EngineHours :: "float64 option"
  Accuracy :: "float64 option"
  FuelLevel :: "float64 option"
  frame_Odometer :: "float64 option"
  Satellites :: "int option"
  BatteryLevel :: "float64 option"
  ExternalVoltage :: "float64 option"
  GSMSignal :: "int option"
  Motion :: "bool option"
  frame_Valid :: "bool option"
  FixTime :: "gotime option"
  frame_DriverID :: gostring
  frame_TripID :: gostring
  SOS :: bool
  frame_Provider :: gostring
  ProviderMsgID :: gostring
  RawPayload :: bytes

text \<open>The zero value of the struct.\<close>

definition no_frame :: RawFrame where
  "no_frame = \<lparr>IMEI = '''', DeviceTime = 0, DeviceZone = ''+0000 UTC'', Latitude = Fin 0, Longitude = Fin 0, Speed = Fin 0,
     Heading = Fin 0, frame_Ignition = None, EngineHours = None, Accuracy = None, FuelLevel = None,
     frame_Odometer = None, Satellites = None, BatteryLevel = None, ExternalVoltage = None,
     GSMSignal = None, Motion = None, frame_Valid = None, FixTime = None, frame_DriverID = '''',
     frame_TripID = '''', SOS = False, frame_Provider = '''', ProviderMsgID = '''', RawPayload = []\<rparr>"

text \<open>\<open>if math.IsNaN(v) || math.Abs(v) > limit { v = 0 }\<close>.\<close>

definition clamp_coordinate :: "float64 \<Rightarrow> float64 \<Rightarrow> float64" where
  "clamp_coordinate limit v = (if v = NaN \<or> limit < math_Abs v then Fin 0 else v)"

text \<open>A position on the globe: finite coordinates within 90 and 180 degrees.\<close>

definition on_globe :: "RawFrame \<Rightarrow> bool" where
  "on_globe f \<longleftrightarrow> (\<exists>lat lng. Latitude f = Fin lat \<and> Longitude f = Fin lng \<and> \<bar>lat\<bar> \<le> 90 \<and> \<bar>lng\<bar> \<le> 180)"

lemma clamp_range: "\<exists>q. clamp_coordinate (Fin m) v = Fin q \<and> (0 \<le> m \<longrightarrow> \<bar>q\<bar> \<le> m)"
  by (cases v) (auto simp: clamp_coordinate_def)

lemma no_frame_on_globe: "on_globe no_frame"
  by (simp add: on_globe_def no_frame_def)

lemma fl_90 [simp]: "F 90 = Fin 90" and fl_180 [simp]: "F 180 = Fin 180"
  using fl_of_int [of 90] fl_of_int [of 180] by simp_all

end
