(* ===== verification/Gt06.thy ===== *)
theory Gt06
  imports Frames
begin

text \<open>
  The GT06/Concox binary protocol (\<open>internal/telemetry/providers/gt06.go\<close>): the packet parser with
  its login, location and heartbeat payloads, the acknowledgement and its CRC. \<open>now\<close> is
  \<open>time.Now().UTC()\<close>.
\<close>

section \<open>The protocol\<close>

definition GT06PacketLogin :: uint8 where "GT06PacketLogin = 0x01"
definition GT06PacketLocation :: uint8 where "GT06PacketLocation = 0x12"
definition GT06PacketStatus :: uint8 where "GT06PacketStatus = 0x13"
definition GT06PacketAlarm :: uint8 where "GT06PacketAlarm = 0x16"
definition GT06PacketGPSLBS1 :: uint8 where "GT06PacketGPSLBS1 = 0x19"
definition GT06PacketGPSLBS2 :: uint8 where "GT06PacketGPSLBS2 = 0x22"

lemmas packet_types = GT06PacketLogin_def GT06PacketLocation_def GT06PacketStatus_def
  GT06PacketAlarm_def GT06PacketGPSLBS1_def GT06PacketGPSLBS2_def

record GT06DecodedResult =
  gt_Frame :: "RawFrame option"
  ProtocolType :: uint8
  SerialNumber :: uint16
  gt_ACK :: bytes
  gt_IMEI :: gostring

section \<open>Acknowledgements\<close>

definition CalculateGT06CRC :: "bytes \<Rightarrow> uint16" where
  "CalculateGT06CRC data = NOT (foldl (crc_byte 0x8408) 0xFFFF data)"

definition buildGT06ACK :: "uint8 \<Rightarrow> uint16 \<Rightarrow> bytes" where
  "buildGT06ACK protocolType serial =
     (let body = [0x05, protocolType] @ be_bytes 2 (unat serial)
      in [0x78, 0x78] @ body @ be_bytes 2 (unat (CalculateGT06CRC body)) @ [0x0D, 0x0A])"

section \<open>Payloads\<close>

definition decodeBCDIMEI :: "bytes \<Rightarrow> gostring" where
  "decodeBCDIMEI b =
     (let hexStr = EncodeToString b in
      if length hexStr = 16 \<and> hexStr ! 0 = CHR ''0'' then drop 1 hexStr
      else if length hexStr > 15 then take 15 hexStr
      else hexStr)"

definition parseLocationData :: "bytes \<Rightarrow> uint8 \<Rightarrow> gostring \<Rightarrow> (RawFrame \<times> uint16) go" where
  "parseLocationData payload protocolType imei =
     (if length payload < 18 then Fails ''gt06: location payload too short''
      else
        go_then (byte_at payload 0) (\<lambda>yy. go_then (byte_at payload 1) (\<lambda>mo.
        go_then (byte_at payload 2) (\<lambda>dd. go_then (byte_at payload 3) (\<lambda>hh.
        go_then (byte_at payload 4) (\<lambda>mi. go_then (byte_at payload 5) (\<lambda>ss.
        go_then (byte_at payload 6) (\<lambda>satByte.
        go_then (be_at payload 7 4) (\<lambda>rawLat. go_then (be_at payload 11 4) (\<lambda>rawLng.
        go_then (byte_at payload 15) (\<lambda>spd. go_then (be_at payload 16 2) (\<lambda>cs.
        let deviceTime = time_Date (2000 + uint yy) (uint mo) (uint dd) (uint hh) (uint mi) (uint ss) 0;
            satellites = uint (satByte AND 0x0F);
            lat = fdiv (float_of_int (int rawLat)) (F 1800000);
            lng = fdiv (float_of_int (int rawLng)) (F 1800000);
            speed = float_of_int (uint spd);
            courseStatus = (of_nat cs :: uint16);
            heading = float_of_int (uint (courseStatus AND 0x03FF));
            isNorth = (courseStatus AND 0x0400 \<noteq> 0);
            isEast = (courseStatus AND 0x0800 \<noteq> 0);
            isValid = (courseStatus AND 0x1000 \<noteq> 0);
            lat1 = clamp_coordinate (F 90) (if \<not> isNorth then - lat else lat);
            lng1 = clamp_coordinate (F 180) (if \<not> isEast then - lng else lng);
            motion = F 2 < speed;
            ignition = (if Fin 0 < speed then Some True else None)
        in go_then (if 22 \<le> length payload then be_at payload (length payload - 4) 2 else Returns 0) (\<lambda>serial.
           Returns (no_frame\<lparr>IMEI := imei, DeviceTime := deviceTime, Latitude := lat1, Longitude := lng1,
             Speed := speed, Heading := heading, Satellites := Some satellites, frame_Valid := Some isValid,
             Motion := Some motion, frame_Ignition := ignition, SOS := (protocolType = GT06PacketAlarm),
             frame_Provider := ''gt06''\<rparr>, of_nat serial))))))))))))))"

record gt06Status =
  Serial :: uint16
  BatteryPct :: "float64 option"
  ExtVoltage :: "float64 option"
  st_GSMSignal :: "int option"
  st_Ignition :: "bool option"

definition parseStatusData :: "bytes \<Rightarrow> gt06Status go" where
  "parseStatusData payload =
     (if length payload < 5 then Fails ''gt06: status payload too short''
      else
        go_then (byte_at payload 0) (\<lambda>terminalInfo.
        go_then (byte_at payload 1) (\<lambda>voltageLevel.
        go_then (byte_at payload 2) (\<lambda>gsm.
        let ign = (terminalInfo AND 0x02 \<noteq> 0);
            pct = float_of_int (uint voltageLevel) * F (50 / 3);
            batteryPct = (if F 100 < pct then F 100 else pct)
        in go_then (if 7 \<le> length payload then be_at payload (length payload - 4) 2 else Returns 0) (\<lambda>serial.
           Returns \<lparr>Serial = of_nat serial, BatteryPct = Some batteryPct, ExtVoltage = None,
             st_GSMSignal = Some (uint gsm), st_Ignition = Some ign\<rparr>)))))"

section \<open>Packets\<close>

definition gt06_login :: "bytes \<Rightarrow> nat \<Rightarrow> uint8 \<Rightarrow> GT06DecodedResult go" where
  "gt06_login data offset protocolType =
     (if length data < offset + 8 then Fails ''gt06: login packet too short for IMEI''
      else
        go_then (byte_slice data offset (offset + 8)) (\<lambda>imeiBytes.
        go_then (if offset + 10 \<le> length data then be_at data (offset + 8) 2 else Returns 0) (\<lambda>serial.
          Returns \<lparr>gt_Frame = None, ProtocolType = protocolType, SerialNumber = of_nat serial,
            gt_ACK = buildGT06ACK protocolType (of_nat serial), gt_IMEI = decodeBCDIMEI imeiBytes\<rparr>)))"

definition gt06_location :: "bytes \<Rightarrow> nat \<Rightarrow> uint8 \<Rightarrow> gostring \<Rightarrow> GT06DecodedResult go" where
  "gt06_location data offset protocolType sessionIMEI =
     go_then (byte_slice data offset (length data)) (\<lambda>payload.
     go_then (parseLocationData payload protocolType sessionIMEI) (\<lambda>(frame, serial).
       Returns \<lparr>gt_Frame = Some frame, ProtocolType = protocolType, SerialNumber = serial,
         gt_ACK = (if protocolType = GT06PacketAlarm \<or> protocolType = GT06PacketLocation
                   then buildGT06ACK protocolType serial else []),
         gt_IMEI = sessionIMEI\<rparr>))"

definition gt06_status :: "gotime \<Rightarrow> bytes \<Rightarrow> nat \<Rightarrow> uint8 \<Rightarrow> gostring \<Rightarrow> GT06DecodedResult go" where
  "gt06_status now data offset protocolType sessionIMEI =
     go_then (byte_slice data offset (length data)) (\<lambda>payload.
     go_then (parseStatusData payload) (\<lambda>st.
       Returns \<lparr>gt_Frame = Some (no_frame\<lparr>IMEI := sessionIMEI, DeviceTime := now,
             BatteryLevel := BatteryPct st, ExternalVoltage := ExtVoltage st,
             GSMSignal := st_GSMSignal st, frame_Ignition := st_Ignition st,
             Motion := Some (st_Ignition st = Some True), frame_Provider := ''gt06''\<rparr>),
         ProtocolType = protocolType, SerialNumber = Serial st,
         gt_ACK = buildGT06ACK protocolType (Serial st), gt_IMEI = sessionIMEI\<rparr>))"

definition gt06_other :: "bytes \<Rightarrow> nat \<Rightarrow> uint8 \<Rightarrow> gostring \<Rightarrow> GT06DecodedResult go" where
  "gt06_other data offset protocolType sessionIMEI =
     (if offset + 2 \<le> length data
      then go_then (byte_slice data (length data - 4) (length data - 2)) (\<lambda>b.
           go_then (big_endian 2 b) (\<lambda>serial.
             Returns \<lparr>gt_Frame = None, ProtocolType = protocolType, SerialNumber = of_nat serial,
               gt_ACK = buildGT06ACK protocolType (of_nat serial), gt_IMEI = sessionIMEI\<rparr>))
      else Returns \<lparr>gt_Frame = None, ProtocolType = protocolType, SerialNumber = 0, gt_ACK = [],
             gt_IMEI = sessionIMEI\<rparr>)"

definition gt06_body :: "gotime \<Rightarrow> bytes \<Rightarrow> nat \<Rightarrow> nat \<Rightarrow> gostring \<Rightarrow> GT06DecodedResult go" where
  "gt06_body now data offset packetLength sessionIMEI =
     (if length data < offset + packetLength + 2
      then Fails (''gt06: incomplete packet, expected length '' @ nat_text (offset + packetLength + 2)
                  @ '', got '' @ nat_text (length data))
      else
        go_then (byte_at data offset) (\<lambda>protocolType.
          if protocolType = GT06PacketLogin then gt06_login data (offset + 1) protocolType
          else if protocolType \<in> {GT06PacketLocation, GT06PacketAlarm, GT06PacketGPSLBS1, GT06PacketGPSLBS2}
          then gt06_location data (offset + 1) protocolType sessionIMEI
          else if protocolType = GT06PacketStatus
          then gt06_status now data (offset + 1) protocolType sessionIMEI
          else gt06_other data (offset + 1) protocolType sessionIMEI))"

definition ParseGT06Packet :: "gotime \<Rightarrow> bytes \<Rightarrow> gostring \<Rightarrow> GT06DecodedResult go" where
  "ParseGT06Packet now data sessionIMEI =
     (if length data < 5 then Fails ''gt06: packet too short''
      else
        go_then (byte_at data 0) (\<lambda>b0. go_then (byte_at data 1) (\<lambda>b1.
          if b0 = 0x78 \<and> b1 = 0x78
          then go_then (byte_at data 2) (\<lambda>packetLength. gt06_body now data 3 (unat packetLength) sessionIMEI)
          else if b0 = 0x79 \<and> b1 = 0x79
          then (if length data < 6 then Fails ''gt06: extended packet too short''
                else go_then (be_at data 2 2) (\<lambda>packetLength. gt06_body now data 4 packetLength sessionIMEI))
          else Fails (''gt06: invalid start bytes 0x'' @ fmt_02X b0 @ '' 0x'' @ fmt_02X b1))))"

definition DecodeGT06Packet :: "gotime \<Rightarrow> bytes \<Rightarrow> gostring \<Rightarrow> (RawFrame option \<times> bytes) go" where
  "DecodeGT06Packet now data sessionIMEI =
     go_then (ParseGT06Packet now data sessionIMEI) (\<lambda>res. Returns (gt_Frame res, gt_ACK res))"

definition gt06_HandleWebhook :: "gotime \<Rightarrow> bytes \<Rightarrow> RawFrame list go" where
  "gt06_HandleWebhook now rawBody =
     go_then (DecodeGT06Packet now rawBody '''') (\<lambda>(frame, _).
       Returns (case frame of None \<Rightarrow> [] | Some f \<Rightarrow> [f]))"

section \<open>No packet makes the parser panic\<close>

definition gt06_fine :: "gostring \<Rightarrow> GT06DecodedResult go \<Rightarrow> bool" where
  "gt06_fine s r \<longleftrightarrow> (case r of
      Panics \<Rightarrow> False
    | Fails err \<Rightarrow> True
    | Returns res \<Rightarrow> length (gt_ACK res) \<in> {0, 10}
        \<and> (case gt_Frame res of None \<Rightarrow> True | Some f \<Rightarrow> on_globe f \<and> IMEI f = s \<and> gt_IMEI res = s))"

lemma length_ACK [simp]: "length (buildGT06ACK p n) = 10"
  by (simp add: buildGT06ACK_def Let_def)

lemma clamped_on_globe:
  assumes "Latitude f = clamp_coordinate (F 90) x" and "Longitude f = clamp_coordinate (F 180) y"
  shows "on_globe f"
proof -
  obtain p q where "clamp_coordinate (Fin 90) x = Fin p" "\<bar>p\<bar> \<le> 90"
    "clamp_coordinate (Fin 180) y = Fin q" "\<bar>q\<bar> \<le> 180"
    using clamp_range [of 90 x] clamp_range [of 180 y] by auto
  then show ?thesis using assms by (simp add: on_globe_def)
qed

lemma parseLocationData_ok:
  "case parseLocationData payload p s of
      Panics \<Rightarrow> False | Fails err \<Rightarrow> True | Returns (f, serial) \<Rightarrow> on_globe f \<and> IMEI f = s"
proof (cases "length payload < 18")
  case True
  then show ?thesis by (simp add: parseLocationData_def)
next
  case False
  moreover from this have "payload \<noteq> []" by auto
  ultimately show ?thesis
    by (simp add: parseLocationData_def Let_def) (auto intro!: clamped_on_globe)
qed

lemma parseStatusData_ok: "parseStatusData payload \<noteq> Panics"
proof (cases "length payload < 5")
  case False
  moreover from this have "payload \<noteq> []" by auto
  ultimately show ?thesis by (simp add: parseStatusData_def Let_def)
qed (simp add: parseStatusData_def)

lemma gt06_body_fine:
  assumes "5 \<le> length data" and "offset = 3 \<or> offset = 4 \<and> 6 \<le> length data"
  shows "gt06_fine s (gt06_body now data offset n s)"
proof (cases "length data < offset + n + 2")
  case True
  then show ?thesis by (simp add: gt06_fine_def gt06_body_def)
next
  case False
  then have len: "offset < length data" "Suc offset \<le> length data" "4 \<le> length data" using assms by auto
  let ?p = "data ! offset" and ?payload = "drop (Suc offset) data"
  have login: "gt06_fine s (gt06_login data (Suc offset) p)" for p
    by (simp add: gt06_fine_def gt06_login_def)
  have loc: "gt06_fine s (gt06_location data (Suc offset) p s)" for p
    using len parseLocationData_ok [where payload = ?payload and p = p and s = s]
    by (cases "parseLocationData ?payload p s") (auto simp: gt06_fine_def gt06_location_def)
  have st: "gt06_fine s (gt06_status now data (Suc offset) p s)" for p
    using len parseStatusData_ok [of ?payload]
    by (cases "parseStatusData ?payload")
       (auto simp: gt06_fine_def gt06_status_def on_globe_def no_frame_def)
  have other: "gt06_fine s (gt06_other data (Suc offset) p s)" for p
  proof -
    have "2 \<le> length data - Suc (Suc (length data - 4))" using len(3) by linarith
    then show ?thesis using len by (simp add: gt06_fine_def gt06_other_def big_endian_def)
  qed
  show ?thesis using False len login loc st other by (simp add: gt06_body_def)
qed

lemma gt06_fine_result: "gt06_fine s (ParseGT06Packet now data s)"
proof (cases "length data < 5")
  case True
  then show ?thesis by (simp add: ParseGT06Packet_def gt06_fine_def)
next
  case False
  moreover from this have "data \<noteq> []" by auto
  ultimately show ?thesis
    using gt06_body_fine [of data 3 s now "unat (data ! 2)"]
      gt06_body_fine [of data 4 s now "be_nat (take 2 (drop 2 data))"]
    by (simp add: ParseGT06Packet_def gt06_fine_def)
qed

theorem gt06_total: "gt06_fine s (ParseGT06Packet now data s)"
  by (rule gt06_fine_result)

section \<open>Logins\<close>

text \<open>Decimal digits packed two to a byte, and the login packet of a device.\<close>

definition digit :: "char \<Rightarrow> nat" where
  "digit c = of_char c - 48"

fun bcd :: "gostring \<Rightarrow> bytes" where
  "bcd (c # d # cs) = of_nat (16 * digit c + digit d) # bcd cs"
| "bcd cs = []"

definition is_digit :: "char \<Rightarrow> bool" where
  "is_digit c \<longleftrightarrow> c \<in> set ''0123456789''"

definition gt06_packet :: "uint8 \<Rightarrow> bytes \<Rightarrow> uint16 \<Rightarrow> uint16 \<Rightarrow> bytes" where
  "gt06_packet p content serial crc =
     [0x78, 0x78, of_nat (length content + 5), p] @ content @ be_bytes 2 (unat serial) @ be_bytes 2 (unat crc)
       @ [0x0D, 0x0A]"

lemma hex_digit: "is_digit c \<Longrightarrow> hex_lower ! digit c = c \<and> digit c < 10"
  by (auto simp: is_digit_def hex_lower_def digit_def)

lemma Encode_bcd:
  assumes "even (length cs)" and "\<forall>c \<in> set cs. is_digit c"
  shows "EncodeToString (bcd cs) = cs"
  using assms
proof (induction cs rule: bcd.induct)
  case (1 c d cs)
  have c: "hex_lower ! digit c = c" "digit c < 10" and d: "hex_lower ! digit d = d" "digit d < 10"
    using hex_digit 1(3) by auto
  then have "unat (of_nat (16 * digit c + digit d) :: uint8) = 16 * digit c + digit d"
    by (simp only: unat_of_nat) simp
  then show ?case using 1 c d by (simp add: EncodeToString_def)
qed (simp_all add: EncodeToString_def)

lemma length_bcd: "length (bcd cs) = length cs div 2"
  by (induction cs rule: bcd.induct) simp_all

lemma gt06_login_prefix:
  assumes "length imei = 15" and "\<forall>c \<in> set imei. is_digit c"
  shows "ParseGT06Packet now (gt06_packet 0x01 (bcd (CHR ''0'' # imei)) serial crc @ rest) s
     = Returns \<lparr>gt_Frame = None, ProtocolType = 0x01, SerialNumber = serial,
         gt_ACK = buildGT06ACK 0x01 serial, gt_IMEI = imei\<rparr>"
proof -
  let ?b = "bcd (CHR ''0'' # imei)"
  have len: "length ?b = 8" using assms(1) by (simp add: length_bcd)
  have "EncodeToString ?b = CHR ''0'' # imei" using assms by (intro Encode_bcd) (auto simp: is_digit_def)
  then have imei: "decodeBCDIMEI ?b = imei" using assms(1) by (simp add: decodeBCDIMEI_def)
  show ?thesis
    using len imei
    by (simp add: ParseGT06Packet_def gt06_packet_def gt06_body_def gt06_login_def packet_types)
qed

theorem gt06_login:
  assumes "length imei = 15" and "\<forall>c \<in> set imei. is_digit c"
  shows "ParseGT06Packet now (gt06_packet 0x01 (bcd (CHR ''0'' # imei)) serial crc) s
     = Returns \<lparr>gt_Frame = None, ProtocolType = 0x01, SerialNumber = serial,
         gt_ACK = buildGT06ACK 0x01 serial, gt_IMEI = imei\<rparr>"
  using gt06_login_prefix [OF assms, where rest = "[]"] by simp

theorem gt06_login_witness:
  "gt_IMEI (case ParseGT06Packet 0 (gt06_packet 0x01 (bcd ''0864209048123456'') 1 0x8408) '''' of Returns res \<Rightarrow> res)
     = ''864209048123456''"
  using gt06_login [where imei = "''864209048123456''" and now = 0 and serial = 1 and crc = "0x8408" and s = "''''"]
  by (simp add: is_digit_def)

section \<open>Serial numbers\<close>

lemma location_serial:
  assumes "22 \<le> length payload"
  shows "\<exists>f. parseLocationData payload p s
     = Returns (f, of_nat (be_nat (take 2 (drop (length payload - 4) payload))))"
proof -
  have "payload \<noteq> []" using assms by auto
  then show ?thesis using assms by (simp add: parseLocationData_def Let_def)
qed

theorem gt06_serial_is_crc:
  assumes "18 \<le> length content" and "length content \<le> 250" and "p = 0x12 \<or> p = 0x16"
  shows "\<exists>f. ParseGT06Packet now (gt06_packet p content serial crc) s
     = Returns \<lparr>gt_Frame = Some f, ProtocolType = p, SerialNumber = crc, gt_ACK = buildGT06ACK p crc, gt_IMEI = s\<rparr>"
proof -
  let ?data = "gt06_packet p content serial crc"
  let ?payload = "content @ be_bytes 2 (unat serial) @ be_bytes 2 (unat crc) @ [0x0D, 0x0A]"
  have pay: "drop 4 ?data = ?payload" "length ?data = length content + 10" "?data ! 3 = p"
    "?data ! 0 = 0x78" "?data ! Suc 0 = 0x78" "?data ! 2 = of_nat (length content + 5)"
    by (simp_all add: gt06_packet_def)
  have n: "unat (of_nat (length content + 5) :: uint8) = length content + 5"
    using assms(2) by (simp only: unat_of_nat) simp
  have "22 \<le> length ?payload" using assms(1) by simp
  then obtain f where "parseLocationData ?payload p s
      = Returns (f, of_nat (be_nat (take 2 (drop (length ?payload - 4) ?payload))))"
    using location_serial by blast
  then have "parseLocationData ?payload p s = Returns (f, crc)" by simp
  then have "gt06_location ?data 4 p s
     = Returns \<lparr>gt_Frame = Some f, ProtocolType = p, SerialNumber = crc, gt_ACK = buildGT06ACK p crc, gt_IMEI = s\<rparr>"
    using assms(3) pay(1,2) by (auto simp: gt06_location_def packet_types)
  then show ?thesis
    using assms(1,3) pay n
    by (auto simp: ParseGT06Packet_def gt06_body_def packet_types)
qed

theorem gt06_serial_is_crc_witness:
  "\<exists>f. ParseGT06Packet 0 (gt06_packet 0x12 (replicate 18 0) 2 0x1234) ''86''
     = Returns \<lparr>gt_Frame = Some f, ProtocolType = 0x12, SerialNumber = 0x1234, gt_ACK = buildGT06ACK 0x12 0x1234, gt_IMEI = ''86''\<rparr>"
  by (rule gt06_serial_is_crc) simp_all

section \<open>The checksum\<close>

interpretation gt06_crc: byte_checksum "crc_byte 0x8408"
  by (rule crc_checksum) (simp add: bit_numeral_word_iff)

definition ack_valid :: "bytes \<Rightarrow> bool" where
  "ack_valid a \<longleftrightarrow> length a = 10 \<and> take 2 a = [0x78, 0x78] \<and> drop 8 a = [0x0D, 0x0A]
     \<and> be_nat (take 2 (drop 6 a)) = unat (CalculateGT06CRC (take 4 (drop 2 a)))"

theorem ack_protected:
  assumes "2 \<le> i" and "i < 6"
  shows "ack_valid ((buildGT06ACK p n)[i := b]) \<longleftrightarrow> b = buildGT06ACK p n ! i"
proof -
  define body where "body = [0x05, p] @ be_bytes 2 (unat n)"
  define j where "j = i - 2"
  have len: "length body = 4" by (simp add: body_def)
  have j: "j < length body" "i = Suc (Suc j)" using assms by (simp_all add: j_def len)
  have ack: "buildGT06ACK p n = [0x78, 0x78] @ body @ be_bytes 2 (unat (CalculateGT06CRC body)) @ [0x0D, 0x0A]"
    by (simp add: buildGT06ACK_def body_def)
  have upd: "(buildGT06ACK p n)[i := b] = [0x78, 0x78] @ body[j := b] @ be_bytes 2 (unat (CalculateGT06CRC body)) @ [0x0D, 0x0A]"
    using j by (simp add: ack list_update_append)
  have "ack_valid ((buildGT06ACK p n)[i := b]) \<longleftrightarrow> CalculateGT06CRC body = CalculateGT06CRC (body[j := b])"
    unfolding ack_valid_def upd using len by (simp add: word_unat_eq_iff)
  also have "\<dots> \<longleftrightarrow> foldl (crc_byte 0x8408) 0xFFFF body = foldl (crc_byte 0x8408) 0xFFFF (body[j := b])"
    by (simp add: CalculateGT06CRC_def)
  also have "\<dots> \<longleftrightarrow> body ! j = b"
    using gt06_crc.one_byte [of "0xFFFF" "take j body" "body ! j" "drop (Suc j) body" b] j(1)
    by (simp add: upd_conv_take_nth_drop id_take_nth_drop [symmetric])
  finally show ?thesis using j len by (auto simp: ack nth_append)
qed

theorem ack_protected_witness: "\<not> ack_valid ((buildGT06ACK 0x01 1)[3 := 0x12])"
  using ack_protected [of 3 "0x01" 1 "0x12"] by (simp add: buildGT06ACK_def)

end
