(* ===== verification/Teltonika.thy ===== *)
theory Teltonika
  imports Frames GoText
begin

text \<open>
  The Teltonika protocol (\<open>internal/telemetry/providers/teltonika.go\<close>): handshakes, Codec 8 and
  Codec 8 Extended data packets with their AVL records and IO elements, the webhook, and the packet builders.
  The four loops over IO elements of each codec differ in the widths they read, which are
  parameters here. A Go map is iterated in any order: the builder takes the order as the order of a
  list of its entries.
\<close>

section \<open>The protocol\<close>

definition CodecIDCodec8 :: uint8 where "CodecIDCodec8 = 0x08"
definition CodecIDCodec8Extended :: uint8 where "CodecIDCodec8Extended = 0x8E"
definition CodecIDCodec16 :: uint8 where "CodecIDCodec16 = 0x10"

lemmas codec_ids = CodecIDCodec8_def CodecIDCodec8Extended_def CodecIDCodec16_def

type_synonym uint64 = "64 word"

text \<open>\<open>map[uint16]uint64\<close>.\<close>

type_synonym io_items = "uint16 \<rightharpoonup> uint64"

record TeltonikaDataRecord =
  rec_Timestamp :: gotime
  Priority :: uint8
  rec_Longitude :: float64
  rec_Latitude :: float64
  Altitude :: uint16
  Angle :: uint16
  rec_Satellites :: uint8
  rec_Speed :: uint16
  EventIOID :: uint16
  IOItems :: "(uint16 \<times> uint64) list"

record TeltonikaDecodedResult =
  tel_Frames :: "RawFrame list"
  tel_Frame :: "RawFrame option"
  tel_ACK :: bytes
  tel_IMEI :: gostring
  IsHandshake :: bool
  CodecID :: uint8
  RecordCount :: int

section \<open>IO elements\<close>

text \<open>
  One loop \<open>for j := 0; j < n; j++\<close> over elements of an identifier of \<open>iw\<close> and a value of \<open>vw\<close>
  bytes.
\<close>

fun io_loop :: "nat \<Rightarrow> nat \<Rightarrow> gostring \<Rightarrow> bytes \<Rightarrow> nat \<Rightarrow> nat \<Rightarrow> io_items \<Rightarrow> (nat \<times> io_items) go" where
  "io_loop iw vw err data 0 offset io = Returns (offset, io)"
| "io_loop iw vw err data (Suc n) offset io =
     (if length data < offset + iw + vw then Fails err
      else go_then (be_at data offset iw) (\<lambda>i.
           go_then (be_at data (offset + iw) vw) (\<lambda>v.
             io_loop iw vw err data n (offset + iw + vw) (io(of_nat i \<mapsto> of_nat v)))))"

text \<open>A group: its count of \<open>iw\<close> bytes, then its loop.\<close>

definition io_group ::
  "nat \<Rightarrow> nat \<Rightarrow> gostring \<Rightarrow> gostring \<Rightarrow> bytes \<Rightarrow> nat \<times> io_items \<Rightarrow> (nat \<times> io_items) go" where
  "io_group iw vw err_n err data st =
     (case st of (offset, io) \<Rightarrow>
        if length data < offset + iw then Fails err_n
        else go_then (be_at data offset iw) (\<lambda>n. io_loop iw vw err data n (offset + iw) io))"

text \<open>The elements of variable length at the end of an extended record; a truncated one ends the loop.\<close>

fun io_variable :: "bytes \<Rightarrow> nat \<Rightarrow> nat \<Rightarrow> io_items \<Rightarrow> (nat \<times> io_items) go" where
  "io_variable data 0 offset io = Returns (offset, io)"
| "io_variable data (Suc n) offset io =
     (if length data < offset + 4 then Returns (offset, io)
      else go_then (be_at data offset 2) (\<lambda>i.
           go_then (be_at data (offset + 2) 2) (\<lambda>len.
             if length data < offset + 4 + len then Returns (offset + 4, io)
             else go_then (byte_slice data (offset + 4) (offset + 4 + len)) (\<lambda>b.
                    io_variable data n (offset + 4 + len)
                      (if len \<le> 8 \<and> 0 < len then io(of_nat i \<mapsto> of_nat (be_nat b)) else io)))))"

definition io_extended :: "bytes \<Rightarrow> nat \<Rightarrow> (uint16 \<times> nat \<times> io_items) go" where
  "io_extended data offset =
     (if length data < offset + 4 then Fails ''codec8 extended io header truncated''
      else go_then (be_at data offset 2) (\<lambda>ev.
        go_then (io_group 2 1 ''codec8 extended n1 truncated'' ''codec8 extended 1b io truncated'' data
                   (offset + 4, Map.empty)) (\<lambda>s1.
        go_then (io_group 2 2 ''codec8 extended n2 truncated'' ''codec8 extended 2b io truncated'' data s1) (\<lambda>s2.
        go_then (io_group 2 4 ''codec8 extended n4 truncated'' ''codec8 extended 4b io truncated'' data s2) (\<lambda>s4.
        go_then (io_group 2 8 ''codec8 extended n8 truncated'' ''codec8 extended 8b io truncated'' data s4) (\<lambda>s8.
        case s8 of (off, io) \<Rightarrow>
          if off + 2 \<le> length data
          then go_then (be_at data off 2) (\<lambda>nx.
               go_then (io_variable data nx (off + 2) io) (\<lambda>sx. Returns (of_nat ev, sx)))
          else Returns (of_nat ev, off, io)))))))"

definition io_standard :: "bytes \<Rightarrow> nat \<Rightarrow> (uint16 \<times> nat \<times> io_items) go" where
  "io_standard data offset =
     (if length data < offset + 2 then Fails ''codec8 io header truncated''
      else go_then (byte_at data offset) (\<lambda>ev.
        go_then (io_group 1 1 ''codec8 n1 truncated'' ''codec8 1b io truncated'' data
                   (offset + 2, Map.empty)) (\<lambda>s1.
        go_then (io_group 1 2 ''codec8 n2 truncated'' ''codec8 2b io truncated'' data s1) (\<lambda>s2.
        go_then (io_group 1 4 ''codec8 n4 truncated'' ''codec8 4b io truncated'' data s2) (\<lambda>s4.
        go_then (io_group 1 8 ''codec8 n8 truncated'' ''codec8 8b io truncated'' data s4) (\<lambda>s8.
          Returns (ucast ev, s8)))))))"

section \<open>What the elements mean\<close>

definition io_ignition :: "io_items \<Rightarrow> float64 \<Rightarrow> bool option" where
  "io_ignition io speed =
     (case io 239 of Some v \<Rightarrow> Some (v = 1)
      | None \<Rightarrow> (case io 1 of Some v \<Rightarrow> Some (v = 1)
         | None \<Rightarrow> if Fin 0 < speed then Some True else None))"

definition float_of_uint64 :: "uint64 \<Rightarrow> float64" where
  "float_of_uint64 v = float_of_int (uint v)"

definition io_battery :: "io_items \<Rightarrow> float64 option" where
  "io_battery io =
     (case io 113 of
        Some v \<Rightarrow> (let pct = float_of_uint64 v in Some (if F 100 < pct then F 100 else pct))
      | None \<Rightarrow> (case io 67 of
          Some v \<Rightarrow>
            (let pct = fdiv (float_of_uint64 v - F 3600) (F 600) * F 100;
                 pct1 = (if pct < Fin 0 then Fin 0 else pct)
             in Some (if F 100 < pct1 then F 100 else pct1))
        | None \<Rightarrow> None))"

definition io_odometer :: "io_items \<Rightarrow> float64 option" where
  "io_odometer io =
     (case io 16 of
        Some v \<Rightarrow> Some (fdiv (float_of_uint64 v) (F 1000))
      | None \<Rightarrow> map_option (\<lambda>v. fdiv (float_of_uint64 v) (F 1000)) (io 87))"

definition io_fuel :: "io_items \<Rightarrow> float64 option" where
  "io_fuel io =
     (case io 48 of
        Some v \<Rightarrow> Some (float_of_uint64 v)
      | None \<Rightarrow> (case io 84 of
          Some v \<Rightarrow> Some (float_of_uint64 v)
        | None \<Rightarrow> map_option float_of_uint64 (io 9)))"

definition io_panic :: "uint8 \<Rightarrow> uint16 \<Rightarrow> io_items \<Rightarrow> bool" where
  "io_panic priority eventIOID io \<longleftrightarrow>
     priority = 2 \<or> eventIOID = 246 \<or> eventIOID = 14 \<or> io 246 = Some 1 \<or> io 14 = Some 1"

section \<open>Records\<close>

text \<open>The frame of the decoded fields.\<close>

definition tel_frame ::
  "gostring \<Rightarrow> gotime \<Rightarrow> uint8 \<Rightarrow> float64 \<Rightarrow> float64 \<Rightarrow> float64 \<Rightarrow> int \<Rightarrow> float64 \<Rightarrow> uint16 \<Rightarrow> io_items \<Rightarrow> RawFrame" where
  "tel_frame sessionIMEI deviceTime priority lon0 lat0 angle sat speed eventIOID io =
     (let lat = clamp_coordinate (F 90) lat0;
          lon = clamp_coordinate (F 180) lon0;
          isValid = (3 \<le> sat \<and> (\<not> feq lat (Fin 0) \<or> \<not> feq lon (Fin 0)))
      in no_frame\<lparr>IMEI := sessionIMEI, DeviceTime := deviceTime, Latitude := lat, Longitude := lon,
           Speed := speed, Heading := angle, Satellites := Some sat, frame_Valid := Some isValid,
           Motion := Some (case io 240 of Some v \<Rightarrow> v = 1 | None \<Rightarrow> F 2 < speed),
           frame_Ignition := io_ignition io speed, BatteryLevel := io_battery io,
           ExternalVoltage := map_option (\<lambda>v. fdiv (float_of_uint64 v) (F 1000)) (io 66),
           frame_Odometer := io_odometer io,
           GSMSignal := map_option sint (io 21),
           FuelLevel := io_fuel io, SOS := io_panic priority eventIOID io,
           FixTime := Some deviceTime, frame_Provider := ''teltonika''\<rparr>)"

definition parseTeltonikaRecord ::
  "bytes \<Rightarrow> nat \<Rightarrow> uint8 \<Rightarrow> gostring \<Rightarrow> (RawFrame \<times> nat) go" where
  "parseTeltonikaRecord data offset codecID sessionIMEI =
     (if length data < offset + 24 then Fails ''avl record truncated in gps element''
      else
        go_then (be_at data offset 8) (\<lambda>tsMs.
        go_then (byte_at data (offset + 8)) (\<lambda>priority.
        go_then (be_at data (offset + 9) 4) (\<lambda>rawLon.
        go_then (be_at data (offset + 13) 4) (\<lambda>rawLat.
        go_then (be_at data (offset + 17) 2) (\<lambda>alt.
        go_then (be_at data (offset + 19) 2) (\<lambda>ang.
        go_then (byte_at data (offset + 21)) (\<lambda>satByte.
        go_then (be_at data (offset + 22) 2) (\<lambda>spd.
        go_then (if codecID = CodecIDCodec8Extended then io_extended data (offset + 24)
                 else io_standard data (offset + 24)) (\<lambda>(eventIOID, next, io).
          Returns
            (tel_frame sessionIMEI (UnixMilli (sint (of_nat tsMs :: int64))) priority
               (fdiv (float_of_int (sint (of_nat rawLon :: uint32))) (F 10000000))
               (fdiv (float_of_int (sint (of_nat rawLat :: uint32))) (F 10000000))
               (float_of_int (int ang)) (uint satByte) (float_of_int (int spd)) eventIOID io,
             next)))))))))))"

section \<open>Packets\<close>

definition isAllASCIIPrintable :: "bytes \<Rightarrow> bool" where
  "isAllASCIIPrintable s \<longleftrightarrow> s \<noteq> [] \<and> (\<forall>c \<in> set s. \<not> (c < 32 \<or> 126 < c))"

definition handshake_result :: "gotime \<Rightarrow> gostring \<Rightarrow> TeltonikaDecodedResult" where
  "handshake_result now imei =
     \<lparr>tel_Frames = [], tel_Frame = Some (no_frame\<lparr>IMEI := imei, DeviceTime := now, frame_Provider := ''teltonika''\<rparr>),
      tel_ACK = [0x01], tel_IMEI = imei, IsHandshake = True, CodecID = 0, RecordCount = 0\<rparr>"

text \<open>The loop over the records: \<open>i\<close> counts up to \<open>i + n\<close>.\<close>

fun record_loop ::
  "bytes \<Rightarrow> uint8 \<Rightarrow> gostring \<Rightarrow> nat \<Rightarrow> nat \<Rightarrow> nat \<Rightarrow> RawFrame list \<Rightarrow> (nat \<times> RawFrame list) go" where
  "record_loop data codecID sessionIMEI i 0 offset frames = Returns (offset, frames)"
| "record_loop data codecID sessionIMEI i (Suc n) offset frames =
     go_then (go_wrap (''teltonika: record '' @ nat_text i @ '' parse error: '')
                (parseTeltonikaRecord data offset codecID sessionIMEI)) (\<lambda>(frame, nextOffset).
       record_loop data codecID sessionIMEI (Suc i) n nextOffset (frames @ [frame]))"

definition teltonika_data :: "bytes \<Rightarrow> nat \<Rightarrow> gostring \<Rightarrow> TeltonikaDecodedResult go" where
  "teltonika_data data offset sessionIMEI =
     (if length data < offset + 8 then Fails ''teltonika: data packet too short''
      else
        go_then (be_at data offset 4) (\<lambda>dataLength.
          if length data < offset + 4 + dataLength
          then Fails (''teltonika: incomplete packet, expected length '' @ nat_text (offset + 4 + dataLength)
                      @ '', got '' @ nat_text (length data))
          else
            go_then (byte_at data (offset + 4)) (\<lambda>codecID.
              if codecID \<notin> {CodecIDCodec8, CodecIDCodec8Extended, CodecIDCodec16}
              then Fails (''teltonika: unsupported codec id 0x'' @ fmt_02X codecID)
              else
                go_then (byte_at data (offset + 5)) (\<lambda>recordCount.
                go_then (record_loop data codecID sessionIMEI 0 (unat recordCount) (offset + 6) []) (\<lambda>(_, frames).
                  Returns \<lparr>tel_Frames = frames, tel_Frame = (if frames = [] then None else Some (last frames)),
                    tel_ACK = [0, 0, 0, recordCount], tel_IMEI = sessionIMEI, IsHandshake = False,
                    CodecID = codecID, RecordCount = uint recordCount\<rparr>)))))"

definition ParseTeltonikaPacket :: "gotime \<Rightarrow> bytes \<Rightarrow> gostring \<Rightarrow> TeltonikaDecodedResult go" where
  "ParseTeltonikaPacket now data sessionIMEI =
     (if length data < 2 then Fails ''teltonika: packet too short''
      else
        go_then (byte_at data 0) (\<lambda>b0. go_then (byte_at data 1) (\<lambda>b1.
        if 17 \<le> length data \<and> b0 = 0x00 \<and> b1 = 0x0F
        then go_then (byte_slice data 2 17) (\<lambda>s. Returns (handshake_result now (text_of s)))
        else
          go_then (if 2 < length data \<and> b0 = 0x00 then be_at data 0 2 else Returns 0) (\<lambda>expectedLen.
          if 2 < length data \<and> b0 = 0x00 \<and> 0 < expectedLen \<and> expectedLen \<le> 32
             \<and> length data = 2 + expectedLen \<and> isAllASCIIPrintable (drop 2 data)
          then Returns (handshake_result now (text_of (drop 2 data)))
          else if 4 \<le> length data \<and> take 4 data = [0, 0, 0, 0]
          then teltonika_data data 4 sessionIMEI
          else if length data < 12
          then Fails (''teltonika: invalid packet header 0x'' @ fmt_02X b0 @ '' 0x'' @ fmt_02X b1)
          else teltonika_data data 0 sessionIMEI))))"

definition DecodeTeltonikaPacket :: "gotime \<Rightarrow> bytes \<Rightarrow> RawFrame go" where
  "DecodeTeltonikaPacket now data =
     go_then (ParseTeltonikaPacket now data '''') (\<lambda>res.
       case tel_Frame res of
         Some f \<Rightarrow> Returns f
       | None \<Rightarrow>
           if tel_Frames res \<noteq> [] then Returns (last (tel_Frames res))
           else if IsHandshake res \<and> tel_IMEI res \<noteq> ''''
           then Returns (no_frame\<lparr>IMEI := tel_IMEI res, DeviceTime := now, frame_Provider := ''teltonika''\<rparr>)
           else Fails ''teltonika: no records decoded'')"

text \<open>\<open>hex.DecodeString\<close>, \<open>None\<close> for its errors.\<close>

fun hex_decode :: "gostring \<Rightarrow> bytes option" where
  "hex_decode [] = Some []"
| "hex_decode [c] = None"
| "hex_decode (c # d # cs) =
     (case (hex_digit c, hex_digit d, hex_decode cs) of
        (Some h, Some l, Some b) \<Rightarrow> Some (of_nat (16 * h + l) # b)
      | _ \<Rightarrow> None)"

definition teltonika_HandleWebhook :: "gotime \<Rightarrow> bytes \<Rightarrow> RawFrame list go" where
  "teltonika_HandleWebhook now rawBody =
     (let data = bytes_of (TrimSpace (text_of rawBody))
      in if data = [] then Returns []
         else
           let data = (case hex_decode (TrimSpace (text_of data)) of
                         Some b \<Rightarrow> if 10 \<le> length b then b else data
                       | None \<Rightarrow> data)
           in go_then (ParseTeltonikaPacket now data '''') (\<lambda>res. Returns (tel_Frames res)))"

section \<open>Builders\<close>

definition BuildTeltonikaHandshake :: "gostring \<Rightarrow> bytes" where
  "BuildTeltonikaHandshake imei = be_bytes 2 (length imei) @ bytes_of imei"

definition CalculateTeltonikaCRC :: "bytes \<Rightarrow> uint16" where
  "CalculateTeltonikaCRC data = foldl (crc_byte 0xA001) 0 data"

text \<open>The width of the group an element is written in: 1, 2, 4 or 8 bytes.\<close>

definition io_width :: "uint16 \<times> uint64 \<Rightarrow> nat" where
  "io_width item = (case item of (i, v) \<Rightarrow>
     if i \<in> {239, 1, 240, 113, 21, 246} then 1
     else if i \<in> {66, 67, 9} then 2
     else if i \<in> {16, 87, 199, 84} then 4
     else if v \<le> 0xFF then 1 else if v \<le> 0xFFFF then 2 else if v \<le> 0xFFFFFFFF then 4 else 8)"

definition build_group :: "nat \<Rightarrow> (uint16 \<times> uint64) list \<Rightarrow> bytes" where
  "build_group w items =
     (let b = filter (\<lambda>item. io_width item = w) items
      in of_nat (length b) # concat (map (\<lambda>(i, v). ucast i # be_bytes w (unat v)) b))"

text \<open>\<open>int32(x)\<close>: truncation, and amd64's value outside the range.\<close>

definition int32_of_float :: "float64 \<Rightarrow> uint32" where
  "int32_of_float x =
     (case x of
        Fin q \<Rightarrow> (let n = trunc_rat q in
                  if - (2 ^ 31) \<le> n \<and> n < 2 ^ 31 then word_of_int n else word_of_int (- (2 ^ 31)))
      | _ \<Rightarrow> word_of_int (- (2 ^ 31)))"

definition build_record :: "TeltonikaDataRecord \<Rightarrow> bytes" where
  "build_record r =
     be_bytes 8 (unat (word_of_int (to_UnixMilli (rec_Timestamp r)) :: uint64)) @ [Priority r]
   @ be_bytes 4 (unat (int32_of_float (rec_Longitude r * F 10000000)))
   @ be_bytes 4 (unat (int32_of_float (rec_Latitude r * F 10000000)))
   @ be_bytes 2 (unat (Altitude r)) @ be_bytes 2 (unat (Angle r)) @ [rec_Satellites r]
   @ be_bytes 2 (unat (rec_Speed r))
   @ [ucast (EventIOID r), of_nat (length (IOItems r))]
   @ build_group 1 (IOItems r) @ build_group 2 (IOItems r) @ build_group 4 (IOItems r)
   @ build_group 8 (IOItems r)"

definition BuildTeltonikaCodec8Packet :: "TeltonikaDataRecord list \<Rightarrow> bytes" where
  "BuildTeltonikaCodec8Packet records =
     (let body = [CodecIDCodec8, of_nat (length records)] @ concat (map build_record records)
            @ [of_nat (length records)]
      in [0, 0, 0, 0] @ be_bytes 4 (length body) @ body
           @ be_bytes 4 (unat (CalculateTeltonikaCRC body)))"

section \<open>No packet makes the parser panic\<close>

lemma io_loop_total: "io_loop iw vw err data n offset io \<noteq> Panics"
  by (induction n arbitrary: offset io) simp_all

lemma io_group_total: "io_group iw vw err_n err data st \<noteq> Panics"
  by (auto simp: io_group_def io_loop_total split: prod.split)

lemma io_variable_total: "io_variable data n offset io \<noteq> Panics"
  by (induction n arbitrary: offset io) simp_all

lemma io_extended_total: "io_extended data offset \<noteq> Panics"
  unfolding io_extended_def
  by (auto simp: go_then_Panics io_group_total io_variable_total split: prod.splits if_splits)

lemma io_standard_total: "io_standard data offset \<noteq> Panics"
  unfolding io_standard_def by (auto simp: go_then_Panics io_group_total)

lemma tel_frame_ok: "on_globe (tel_frame s ts pr lon lat ang sat sp ev io) \<and> IMEI (tel_frame s ts pr lon lat ang sat sp ev io) = s"
proof -
  obtain p q where "clamp_coordinate (Fin 90) lat = Fin p" "\<bar>p\<bar> \<le> 90"
    "clamp_coordinate (Fin 180) lon = Fin q" "\<bar>q\<bar> \<le> 180"
    using clamp_range [of 90 lat] clamp_range [of 180 lon] by auto
  then show ?thesis by (simp add: tel_frame_def on_globe_def Let_def)
qed

lemma parseTeltonikaRecord_ok:
  "case parseTeltonikaRecord data offset codec s of
     Panics \<Rightarrow> False | Fails err \<Rightarrow> True | Returns (f, next) \<Rightarrow> on_globe f \<and> IMEI f = s"
proof (cases "length data < offset + 24")
  case False
  let ?io = "if codec = CodecIDCodec8Extended then io_extended data (offset + 24) else io_standard data (offset + 24)"
  have "?io \<noteq> Panics" using io_extended_total io_standard_total by simp
  then show ?thesis
    using False
    by (cases ?io) (simp_all add: parseTeltonikaRecord_def tel_frame_ok split: prod.split)
qed (simp add: parseTeltonikaRecord_def)

lemma record_loop_ok:
  assumes "\<forall>f \<in> set fs. on_globe f \<and> IMEI f = s"
  shows "case record_loop data codec s i n offset fs of
     Panics \<Rightarrow> False | Fails err \<Rightarrow> True
   | Returns (off, gs) \<Rightarrow> length gs = length fs + n \<and> (\<forall>f \<in> set gs. on_globe f \<and> IMEI f = s)"
  using assms
proof (induction n arbitrary: i offset fs)
  case (Suc n)
  note rec = parseTeltonikaRecord_ok [where data = data and offset = offset and codec = codec and s = s]
  show ?case
  proof (cases "parseTeltonikaRecord data offset codec s")
    case (Returns x)
    obtain f nxt where x: "x = (f, nxt)" by (cases x)
    have "\<forall>g \<in> set (fs @ [f]). on_globe g \<and> IMEI g = s" using Suc.prems rec Returns x by auto
    from Suc.IH [OF this, where i = "Suc i" and offset = nxt] show ?thesis
      by (auto simp: Returns x split: go.splits)
  qed (use rec in simp_all)
qed simp

definition tel_fine :: "gostring \<Rightarrow> TeltonikaDecodedResult go \<Rightarrow> bool" where
  "tel_fine s r \<longleftrightarrow> (case r of
      Panics \<Rightarrow> False
    | Fails err \<Rightarrow> True
    | Returns res \<Rightarrow>
        if IsHandshake res then tel_Frames res = [] \<and> tel_ACK res = [1]
        else int (length (tel_Frames res)) = RecordCount res \<and> tel_ACK res = [0, 0, 0, word_of_int (RecordCount res)]
          \<and> (\<forall>f \<in> set (tel_Frames res). on_globe f \<and> IMEI f = s))"

lemma teltonika_data_fine: "tel_fine s (teltonika_data data offset s)"
proof (cases "length data < offset + 8")
  case False
  let ?n = "data ! (offset + 5)" and ?c = "data ! (offset + 4)"
  note loop = record_loop_ok [where fs = "[]" and s = s and data = data and codec = ?c and i = 0
      and n = "unat ?n" and offset = "offset + 6", simplified]
  have at: "byte_at data (offset + 4) = Returns ?c" "byte_at data (offset + 5) = Returns ?n"
    using False by simp_all
  show ?thesis
  proof (cases "record_loop data ?c s 0 (unat ?n) (offset + 6) []")
    case (Returns x)
    then obtain off fs where x: "x = (off, fs)" "length fs = unat ?n" "\<forall>f \<in> set fs. on_globe f \<and> IMEI f = s"
      using loop by (cases x) auto
    show ?thesis
      using False x(2,3) by (simp add: teltonika_data_def at Returns x(1) tel_fine_def)
  next
    case (Fails err)
    then show ?thesis using False by (simp add: teltonika_data_def at tel_fine_def)
  next
    case Panics
    then show ?thesis using loop by simp
  qed
qed (simp add: tel_fine_def teltonika_data_def)

lemma teltonika_fine: "tel_fine s (ParseTeltonikaPacket now data s)"
proof (cases "length data < 2")
  case True
  then show ?thesis by (simp add: tel_fine_def ParseTeltonikaPacket_def)
next
  case False
  then have "data \<noteq> []" "2 \<le> length data" by auto
  moreover have "tel_fine s (Returns (handshake_result now x))" for x
    by (simp add: tel_fine_def handshake_result_def)
  moreover have "tel_fine s (Fails x)" for x by (simp add: tel_fine_def)
  ultimately show ?thesis
    using teltonika_data_fine by (simp add: ParseTeltonikaPacket_def)
qed

theorem teltonika_total: "tel_fine s (ParseTeltonikaPacket now data s)"
  by (rule teltonika_fine)

lemma webhook_total: "teltonika_HandleWebhook now rawBody \<noteq> Panics"
proof -
  have "ParseTeltonikaPacket now data s \<noteq> Panics" for data s
    using teltonika_fine [of s now data] by (auto simp: tel_fine_def)
  then show ?thesis by (simp add: teltonika_HandleWebhook_def Let_def go_then_Panics)
qed

section \<open>Handshakes\<close>

lemma printable_bytes:
  "isAllASCIIPrintable (bytes_of s) \<longleftrightarrow> s \<noteq> '''' \<and> (\<forall>c \<in> set s. 32 \<le> (of_char c :: nat) \<and> (of_char c :: nat) \<le> 126)"
proof -
  have "(of_nat (of_char c) :: uint8) < 32 \<longleftrightarrow> (of_char c :: nat) < 32"
    "(126 :: uint8) < of_nat (of_char c) \<longleftrightarrow> 126 < (of_char c :: nat)" for c :: char
  proof -
    have "(of_char c :: nat) < 256" by simp
    then have "unat (of_nat (of_char c) :: uint8) = of_char c" by (simp add: unat_of_nat)
    then show "(of_nat (of_char c) :: uint8) < 32 \<longleftrightarrow> (of_char c :: nat) < 32"
      "(126 :: uint8) < of_nat (of_char c) \<longleftrightarrow> 126 < (of_char c :: nat)"
      by (simp_all add: word_less_nat_alt)
  qed
  then have k: "(\<not> ((of_nat (of_char c) :: uint8) < 32 \<or> 126 < (of_nat (of_char c) :: uint8)))
      \<longleftrightarrow> 32 \<le> (of_char c :: nat) \<and> (of_char c :: nat) \<le> 126" for c :: char
    by (metis not_less)
  show ?thesis unfolding isAllASCIIPrintable_def bytes_of_def set_map ball_simps k by simp
qed

theorem handshake_roundtrip:
  assumes "imei \<noteq> ''''" and "length imei \<le> 32" and "\<forall>c \<in> set imei. 32 \<le> (of_char c :: nat) \<and> (of_char c :: nat) \<le> 126"
  shows "ParseTeltonikaPacket now (BuildTeltonikaHandshake imei) s = Returns (handshake_result now imei)"
proof -
  let ?d = "BuildTeltonikaHandshake imei"
  have n: "length imei div 256 = 0" using assms(2) by simp
  have d: "?d = 0 # of_nat (length imei) # bytes_of imei"
    using n by (simp add: BuildTeltonikaHandshake_def numeral_2_eq_2)
  have len: "length ?d = length imei + 2" "0 < length imei" using assms(1) by (simp_all add: d)
  have be: "be_nat (take 2 ?d) = length imei"
    using assms(2) by (simp add: BuildTeltonikaHandshake_def be_nat_bytes)
  have pr: "isAllASCIIPrintable (drop 2 ?d)" using assms(1,3) by (simp add: d printable_bytes)
  have tx: "text_of (drop 2 ?d) = imei" by (simp add: d)
  have "of_nat (length imei) = (0x0F :: uint8) \<Longrightarrow> length imei = 15"
  proof -
    assume "of_nat (length imei) = (0x0F :: uint8)"
    then have "unat (of_nat (length imei) :: uint8) = 15" by simp
    then show "length imei = 15" using assms(2) by (simp add: unat_of_nat)
  qed
  then have t17: "take 15 (drop 2 ?d) = drop 2 ?d" if "?d ! Suc 0 = 0x0F"
    using that len(1) by (simp add: d)
  show ?thesis
    using len be pr tx t17 assms(2)
    by (simp add: ParseTeltonikaPacket_def) (simp add: d)
qed

theorem handshake_roundtrip_witness:
  "ParseTeltonikaPacket 7 (BuildTeltonikaHandshake ''356307042441013'') '''' = Returns (handshake_result 7 ''356307042441013'')"
  by (rule handshake_roundtrip) simp_all

section \<open>Building and parsing\<close>

lemma be_at_here [simp]: "be_at (pre @ be_bytes n v @ post) (length pre) n = Returns (v mod 256 ^ n)"
  by (simp add: be_nat_bytes)

text \<open>A piece of a packet at an offset.\<close>

definition placed :: "bytes \<Rightarrow> nat \<Rightarrow> bytes \<Rightarrow> bool" where
  "placed data offset piece \<longleftrightarrow> offset + length piece \<le> length data \<and> take (length piece) (drop offset data) = piece"

lemma placed_append: "placed data offset (xs @ ys) \<longleftrightarrow> placed data offset xs \<and> placed data (offset + length xs) ys"
  by (auto simp: placed_def take_add add.commute add.left_commute append_eq_append_conv)

lemma placed_be: "placed data offset (be_bytes n v) \<Longrightarrow> be_at data offset n = Returns (v mod 256 ^ n)"
  using be_nat_bytes [of n v] by (auto simp: placed_def)

lemma placed_byte: "placed data offset [x] \<Longrightarrow> byte_at data offset = Returns x"
  by (cases "drop offset data") (auto simp: placed_def byte_at_def nth_via_drop)

lemma placed_Cons: "placed data offset (x # xs) \<longleftrightarrow> placed data offset [x] \<and> placed data (Suc offset) xs"
  using placed_append [of data offset "[x]" xs] by simp

lemma length_one: "length [x] = (1 :: nat)"
  by simp

lemma placed_prefix: "data = xs @ ys \<Longrightarrow> placed data 0 xs"
  by (simp add: placed_def)

lemma placed_length: "placed data offset xs \<Longrightarrow> offset + length xs \<le> length data"
  by (simp add: placed_def)

definition enc :: "nat \<Rightarrow> uint16 \<times> uint64 \<Rightarrow> bytes" where
  "enc w item = ucast (fst item) # be_bytes w (unat (snd item))"

lemma enc_pair: "enc w (i, v) = ucast i # be_bytes w (unat v)"
  by (simp add: enc_def)

lemma build_group_enc:
  "build_group w items = (let b = filter (\<lambda>item. io_width item = w) items
     in of_nat (length b) # concat (map (enc w) b))"
  by (simp add: build_group_def enc_def [abs_def] case_prod_beta')

lemma byte_be: "[of_nat n] = be_bytes 1 n" "[ucast (i :: uint16)] = be_bytes 1 (unat i)"
  by simp_all

lemma io_loop_placed:
  assumes "placed data offset (concat (map (enc w) b))"
    and "\<forall>item \<in> set b. fst item < 256 \<and> unat (snd item) < 256 ^ w"
  shows "io_loop 1 w err data (length b) offset io
    = Returns (offset + length (concat (map (enc w) b)), io ++ map_of (rev b))"
  using assms
proof (induction b arbitrary: offset io)
  case (Cons item b)
  obtain i v where it: "item = (i, v)" by (cases item)
  have i: "unat i < 256" "unat v < 256 ^ w" using Cons.prems(2) by (simp_all add: it word_less_nat_alt)
  have "placed data offset ([ucast i] @ be_bytes w (unat v) @ concat (map (enc w) b))"
    using Cons.prems(1) by (simp add: it enc_pair)
  then have p1: "placed data offset (be_bytes 1 (unat i))" and p2: "placed data (offset + 1) (be_bytes w (unat v))"
    and p3: "placed data (offset + 1 + w) (concat (map (enc w) b))"
    by (simp_all only: placed_append byte_be) simp_all
  have "be_at data offset 1 = Returns (unat i)" using placed_be [OF p1] i(1) by simp
  moreover have "be_at data (offset + 1) w = Returns (unat v)" using placed_be [OF p2] i(2) by simp
  moreover have "\<not> length data < offset + 1 + w" using placed_length [OF p2] by simp
  ultimately have "io_loop 1 w err data (length (item # b)) offset io
      = io_loop 1 w err data (length b) (offset + 1 + w) (io(i \<mapsto> v))" by simp
  also have "\<dots> = Returns (offset + 1 + w + length (concat (map (enc w) b)), io(i \<mapsto> v) ++ map_of (rev b))"
    using Cons.IH [OF p3] Cons.prems(2) by simp
  finally show ?case by (simp add: it enc_pair map_add_def fun_eq_iff split: option.splits)
qed simp

lemma io_group_placed:
  assumes "placed data offset (build_group w items)"
    and "\<forall>item \<in> set items. io_width item = w \<longrightarrow> fst item < 256 \<and> unat (snd item) < 256 ^ w"
    and "length (filter (\<lambda>item. io_width item = w) items) < 256"
  shows "io_group 1 w err_n err data (offset, io)
    = Returns (offset + length (build_group w items), io ++ map_of (rev (filter (\<lambda>item. io_width item = w) items)))"
proof -
  let ?b = "filter (\<lambda>item. io_width item = w) items"
  have "placed data offset ([of_nat (length ?b)] @ concat (map (enc w) ?b))"
    using assms(1) by (simp add: build_group_enc Let_def)
  then have p1: "placed data offset (be_bytes 1 (length ?b))" and p2: "placed data (offset + 1) (concat (map (enc w) ?b))"
    by (simp_all only: placed_append byte_be) simp_all
  have "be_at data offset 1 = Returns (length ?b)" using placed_be [OF p1] assms(3) by simp
  moreover have "\<not> length data < offset + 1" using placed_length [OF p1] by simp
  ultimately show ?thesis
    using io_loop_placed [OF p2, of err io] assms(2) by (simp add: io_group_def build_group_enc Let_def)
qed

definition encodable :: "TeltonikaDataRecord \<Rightarrow> bool" where
  "encodable r \<longleftrightarrow> distinct (map fst (IOItems r)) \<and> EventIOID r < 256
   \<and> (\<forall>item \<in> set (IOItems r). fst item < 256 \<and> unat (snd item) < 256 ^ io_width item)
   \<and> (\<forall>w \<in> {1, 2, 4, 8}. length (filter (\<lambda>item. io_width item = w) (IOItems r)) < 256)
   \<and> - (2 ^ 63) \<le> to_UnixMilli (rec_Timestamp r) \<and> to_UnixMilli (rec_Timestamp r) < 2 ^ 63"

text \<open>A coordinate as it travels: truncated to 10^-7 degrees.\<close>

definition wire_coordinate :: "float64 \<Rightarrow> float64" where
  "wire_coordinate v = fdiv (float_of_int (sint (int32_of_float (v * F 10000000)))) (F 10000000)"

definition record_frame :: "gostring \<Rightarrow> TeltonikaDataRecord \<Rightarrow> RawFrame" where
  "record_frame s r = tel_frame s (UnixMilli (to_UnixMilli (rec_Timestamp r))) (Priority r)
     (wire_coordinate (rec_Longitude r)) (wire_coordinate (rec_Latitude r)) (float_of_int (uint (Angle r)))
     (uint (rec_Satellites r)) (float_of_int (uint (rec_Speed r))) (EventIOID r) (map_of (IOItems r))"

lemma option_None: "(\<And>u. z \<noteq> Some u) \<Longrightarrow> z = None"
  by (cases z) auto

lemma groups_make_map:
  assumes "distinct (map fst items)"
  shows "Map.empty ++ map_of (rev (filter (\<lambda>item. io_width item = 1) items))
     ++ map_of (rev (filter (\<lambda>item. io_width item = 2) items))
     ++ map_of (rev (filter (\<lambda>item. io_width item = 4) items))
     ++ map_of (rev (filter (\<lambda>item. io_width item = 8) items)) = map_of items"
proof
  fix i
  let ?g = "\<lambda>w. map_of (rev (filter (\<lambda>item. io_width item = w) items))"
  have g: "?g w i = Some v \<longleftrightarrow> (i, v) \<in> set items \<and> io_width (i, v) = w" for w v
    using assms by (subst map_of_eq_Some_iff) (auto simp: rev_map distinct_map intro: inj_on_subset)
  have w: "io_width (i, v) \<in> {1, 2, 4, 8}" for v by (simp add: io_width_def)
  show "(Map.empty ++ ?g 1 ++ ?g 2 ++ ?g 4 ++ ?g 8) i = map_of items i"
  proof (cases "map_of items i")
    case None
    then have "(i, v) \<notin> set items" for v using assms by (simp add: map_of_eq_None_iff) force
    then have "?g w i = None" for w using g by (cases "?g w i") auto
    then show ?thesis by (simp add: None map_add_def)
  next
    case (Some v)
    then have v: "(i, v) \<in> set items" by (rule map_of_SomeD)
    then have uniq: "u = v" if "(i, u) \<in> set items" for u using that v assms by (metis eq_key_imp_eq_value)
    have "?g w i = (if io_width (i, v) = w then Some v else None)" for w
    proof (cases "io_width (i, v) = w")
      case True
      then have "?g w i = Some v" using g v by blast
      then show ?thesis using True by simp
    next
      case False
      then have "?g w i \<noteq> Some u" for u using g uniq by blast
      then have "?g w i = None" by (rule option_None)
      then show ?thesis using False by simp
    qed
    then show ?thesis using w [of v] by (auto simp: Some map_add_def)
  qed
qed

lemma ucast_small: "(e :: uint16) < 256 \<Longrightarrow> ucast (ucast e :: uint8) = e"
proof (rule bit_word_eqI)
  fix n
  assume e: "e < 256" and "n < LENGTH(16)"
  have "unat (take_bit 8 e) = unat e"
    using e by (simp add: unsigned_take_bit_eq take_bit_nat_eq_self word_less_nat_alt)
  then have "take_bit 8 e = e" by (simp add: word_unat_eq_iff)
  then show "bit (ucast (ucast e :: uint8) :: uint16) n = bit e n"
    using \<open>n < LENGTH(16)\<close> bit_take_bit_iff [of 8 e n] by (auto simp: bit_ucast_iff)
qed

lemma io_standard_placed:
  assumes p: "placed data offset ([ucast (EventIOID r)] @ [n] @ build_group 1 (IOItems r) @ build_group 2 (IOItems r)
      @ build_group 4 (IOItems r) @ build_group 8 (IOItems r))"
    and r: "encodable r"
  shows "io_standard data offset = Returns (EventIOID r, offset + 2 + length (build_group 1 (IOItems r))
    + length (build_group 2 (IOItems r)) + length (build_group 4 (IOItems r)) + length (build_group 8 (IOItems r)),
    map_of (IOItems r))"
proof -
  let ?l = "\<lambda>w. length (build_group w (IOItems r))"
  have pe: "placed data offset [ucast (EventIOID r)]" and pn: "placed data (offset + 1) [n]"
    and p1: "placed data (offset + 2) (build_group 1 (IOItems r))"
    and p2: "placed data (offset + 2 + ?l 1) (build_group 2 (IOItems r))"
    and p4: "placed data (offset + 2 + ?l 1 + ?l 2) (build_group 4 (IOItems r))"
    and p8: "placed data (offset + 2 + ?l 1 + ?l 2 + ?l 4) (build_group 8 (IOItems r))"
    using p unfolding placed_append by simp_all
  have fit: "\<forall>item \<in> set (IOItems r). io_width item = w \<longrightarrow> fst item < 256 \<and> unat (snd item) < 256 ^ w" for w
    using r by (auto simp: encodable_def)
  have count: "length (filter (\<lambda>item. io_width item = w) (IOItems r)) < 256" if "w \<in> {1, 2, 4, 8}" for w
    using r that by (auto simp: encodable_def)
  have ev: "ucast (ucast (EventIOID r) :: uint8) = EventIOID r" using r by (simp add: encodable_def ucast_small)
  let ?m = "\<lambda>w. map_of (rev (filter (\<lambda>item. io_width item = w) (IOItems r)))"
  have group: "io_group 1 w en er data (off, io) = Returns (off + ?l w, io ++ ?m w)"
    if "placed data off (build_group w (IOItems r))" "w \<in> {1, 2, 4, 8}" for w en er off io
    by (rule io_group_placed [OF that(1) fit count [OF that(2)]])
  have g1: "io_group 1 1 en er data (offset + 2, io) = Returns (offset + 2 + ?l 1, io ++ ?m 1)" for en er io
    by (rule group [OF p1]) simp
  have g2: "io_group 1 2 en er data (offset + 2 + ?l 1, io) = Returns (offset + 2 + ?l 1 + ?l 2, io ++ ?m 2)" for en er io
    by (rule group [OF p2]) simp
  have g4: "io_group 1 4 en er data (offset + 2 + ?l 1 + ?l 2, io)
      = Returns (offset + 2 + ?l 1 + ?l 2 + ?l 4, io ++ ?m 4)" for en er io
    by (rule group [OF p4]) simp
  have g8: "io_group 1 8 en er data (offset + 2 + ?l 1 + ?l 2 + ?l 4, io)
      = Returns (offset + 2 + ?l 1 + ?l 2 + ?l 4 + ?l 8, io ++ ?m 8)" for en er io
    by (rule group [OF p8]) simp
  have d: "distinct (map fst (IOItems r))" using r by (simp add: encodable_def)
  have "\<not> length data < offset + 2" using placed_length [OF pn] by simp
  then show ?thesis
    by (simp only: io_standard_def placed_byte [OF pe] go_then.simps if_False ev g1 g2 g4 g8 groups_make_map [OF d])
qed

lemma be_values:
  "unat (x32 :: uint32) mod 256 ^ 4 = unat x32" "unat (x64 :: uint64) mod 256 ^ 8 = unat x64"
  "unat (x16 :: uint16) mod 256 ^ 2 = unat x16"
proof -
  have "unat x32 < 2 ^ LENGTH(32)" by (rule unsigned_less)
  then show "unat x32 mod 256 ^ 4 = unat x32" by simp
  have "unat x64 < 2 ^ LENGTH(64)" by (rule unsigned_less)
  then show "unat x64 mod 256 ^ 8 = unat x64" by simp
  have "unat x16 < 2 ^ LENGTH(16)" by (rule unsigned_less)
  then show "unat x16 mod 256 ^ 2 = unat x16" by simp
qed

lemma millis: "- (2 ^ 63) \<le> n \<Longrightarrow> n < 2 ^ 63 \<Longrightarrow> sint (word_of_int n :: uint64) = n"
  by (rule sint_of_int64)

lemma parse_built_record:
  assumes p: "placed data offset (build_record r)" and r: "encodable r"
  shows "parseTeltonikaRecord data offset CodecIDCodec8 s = Returns (record_frame s r, offset + length (build_record r))"
proof -
  define ts where "ts = (word_of_int (to_UnixMilli (rec_Timestamp r)) :: uint64)"
  define lon where "lon = int32_of_float (rec_Longitude r * F 10000000)"
  define lat where "lat = int32_of_float (rec_Latitude r * F 10000000)"
  let ?ts = "unat ts" and ?lon = "unat lon" and ?lat = "unat lat"
  let ?io = "[ucast (EventIOID r)] @ [of_nat (length (IOItems r))] @ build_group 1 (IOItems r)
      @ build_group 2 (IOItems r) @ build_group 4 (IOItems r) @ build_group 8 (IOItems r)"
  have build: "build_record r = be_bytes 8 ?ts @ [Priority r] @ be_bytes 4 ?lon @ be_bytes 4 ?lat
      @ be_bytes 2 (unat (Altitude r)) @ be_bytes 2 (unat (Angle r)) @ [rec_Satellites r]
      @ be_bytes 2 (unat (rec_Speed r)) @ ?io"
    by (simp only: build_record_def ts_def lon_def lat_def append_Cons append_Nil append_assoc)
  have offs: "offset + 8 + 1 = offset + 9" "offset + 9 + 4 = offset + 13" "offset + 13 + 4 = offset + 17"
    "offset + 17 + 2 = offset + 19" "offset + 19 + 2 = offset + 21" "offset + 21 + 1 = offset + 22"
    "offset + 22 + 2 = offset + 24" by simp_all
  have parts: "placed data offset (be_bytes 8 ?ts)" "placed data (offset + 8) [Priority r]"
    "placed data (offset + 9) (be_bytes 4 ?lon)" "placed data (offset + 13) (be_bytes 4 ?lat)"
    "placed data (offset + 17) (be_bytes 2 (unat (Altitude r)))" "placed data (offset + 19) (be_bytes 2 (unat (Angle r)))"
    "placed data (offset + 21) [rec_Satellites r]" "placed data (offset + 22) (be_bytes 2 (unat (rec_Speed r)))"
    "placed data (offset + 24) ?io"
    using p unfolding build placed_append length_be_bytes length_one offs by simp_all
  have "\<not> length data < offset + 24" using placed_length [OF parts(8)] by simp
  moreover have "be_at data offset 8 = Returns ?ts" "be_at data (offset + 9) 4 = Returns ?lon"
    "be_at data (offset + 13) 4 = Returns ?lat" "be_at data (offset + 17) 2 = Returns (unat (Altitude r))"
    "be_at data (offset + 19) 2 = Returns (unat (Angle r))" "be_at data (offset + 22) 2 = Returns (unat (rec_Speed r))"
    using parts(1,3,4,5,6,8) [THEN placed_be] by (simp_all only: be_values)
  moreover have "sint (of_nat ?ts :: uint64) = to_UnixMilli (rec_Timestamp r)"
    using r by (simp add: encodable_def millis ts_def)
  moreover have "length (build_record r) = 26 + length (build_group 1 (IOItems r)) + length (build_group 2 (IOItems r))
      + length (build_group 4 (IOItems r)) + length (build_group 8 (IOItems r))"
    by (simp add: build_record_def)
  ultimately show ?thesis
    using placed_byte [OF parts(2)] placed_byte [OF parts(7)] io_standard_placed [OF parts(9) r]
    by (simp add: parseTeltonikaRecord_def codec_ids record_frame_def wire_coordinate_def
        lon_def lat_def)
qed

lemma parse_built_records:
  assumes "placed data offset (concat (map build_record rs))" and "\<forall>r \<in> set rs. encodable r"
  shows "record_loop data CodecIDCodec8 s i (length rs) offset fs
    = Returns (offset + length (concat (map build_record rs)), fs @ map (record_frame s) rs)"
  using assms
proof (induction rs arbitrary: i offset fs)
  case (Cons r rs)
  then show ?case using parse_built_record [of data offset r s] by (simp add: placed_append)
qed simp

lemma codec8_parse:
  assumes "\<forall>r \<in> set records. encodable r" and "length records < 256"
    and "length (concat (map build_record records)) < 2 ^ 31"
  shows "ParseTeltonikaPacket now (BuildTeltonikaCodec8Packet records) s = Returns
     \<lparr>tel_Frames = map (record_frame s) records,
      tel_Frame = (if records = [] then None else Some (record_frame s (last records))),
      tel_ACK = [0, 0, 0, of_nat (length records)], tel_IMEI = s, IsHandshake = False, CodecID = CodecIDCodec8,
      RecordCount = int (length records)\<rparr>"
proof -
  let ?recs = "concat (map build_record records)" and ?n = "of_nat (length records) :: uint8"
  define body where "body = [CodecIDCodec8, ?n] @ ?recs @ [?n]"
  define data where "data = [0, 0, 0, 0] @ be_bytes 4 (length body) @ body @ be_bytes 4 (unat (CalculateTeltonikaCRC body))"
  have data: "BuildTeltonikaCodec8Packet records = data"
    by (simp add: BuildTeltonikaCodec8Packet_def data_def body_def Let_def)
  have n: "unat ?n = length records" "uint ?n = int (length records)"
    using assms(2) by (simp_all add: unat_of_nat uint_nat)
  have len: "length data = length body + 12" "length body = length ?recs + 3" by (simp_all add: data_def body_def)
  have offs: "0 + length [0, 0, 0, 0 :: uint8] = 4" "(4 :: nat) + 4 = 8" "(8 :: nat) + 1 = 9" "(9 :: nat) + 1 = 10" by simp_all
  have "placed data 0 ([0, 0, 0, 0] @ be_bytes 4 (length body) @ [CodecIDCodec8] @ [?n] @ ?recs)"
    by (rule placed_prefix [where ys = "[?n] @ be_bytes 4 (unat (CalculateTeltonikaCRC body))"])
       (simp add: data_def body_def)
  then have parts: "placed data 4 (be_bytes 4 (length body))" "placed data 8 [CodecIDCodec8]" "placed data 9 [?n]"
    "placed data 10 ?recs"
    unfolding placed_append length_be_bytes length_one offs by simp_all
  have "be_at data 4 4 = Returns (length body)" using placed_be [OF parts(1)] len(2) assms(3) by simp
  then have "teltonika_data data 4 s = Returns
     \<lparr>tel_Frames = map (record_frame s) records,
      tel_Frame = (if records = [] then None else Some (record_frame s (last records))),
      tel_ACK = [0, 0, 0, ?n], tel_IMEI = s, IsHandshake = False, CodecID = CodecIDCodec8,
      RecordCount = int (length records)\<rparr>"
    using placed_byte [OF parts(2)] placed_byte [OF parts(3)] len n
      parse_built_records [OF parts(4) assms(1), of s 0 "[]"]
    by (simp add: teltonika_data_def last_map)
  moreover have "take 4 data = [0, 0, 0, 0]" "data ! 0 = 0" "data ! Suc 0 = 0" "be_nat (take 2 data) = 0"
    by (simp_all add: data_def be_nat_def)
  moreover have "data \<noteq> []" "2 \<le> length data" using len by auto
  ultimately show ?thesis unfolding data using len by (simp add: ParseTeltonikaPacket_def)
qed

definition sample_record :: TeltonikaDataRecord where
  "sample_record = \<lparr>rec_Timestamp = UnixMilli 1700000000000, Priority = 1, rec_Longitude = F 72, rec_Latitude = F 19,
     Altitude = 14, Angle = 270, rec_Satellites = 9, rec_Speed = 54, EventIOID = 239,
     IOItems = [(239, 1), (66, 12600), (16, 5000000), (78, 0x1122334455667788)]\<rparr>"

lemma sample_fits: "encodable sample_record" "length (build_record sample_record) < 100"
proof -
  have w: "io_width (239, 1) = 1" "io_width (66, 12600) = 2" "io_width (16, 5000000) = 4"
    "io_width (78, 0x1122334455667788) = 8"
    by (simp_all add: io_width_def)
  show "encodable sample_record"
    by (simp add: encodable_def sample_record_def w to_UnixMilli_def UnixMilli_def)
  show "length (build_record sample_record) < 100"
    by (simp add: build_record_def sample_record_def build_group_def w)
qed

lemma sample_packet:
  "ParseTeltonikaPacket 0 (BuildTeltonikaCodec8Packet [sample_record]) ''356307042441013'' = Returns
     \<lparr>tel_Frames = [record_frame ''356307042441013'' sample_record],
      tel_Frame = Some (record_frame ''356307042441013'' sample_record),
      tel_ACK = [0, 0, 0, 1], tel_IMEI = ''356307042441013'', IsHandshake = False, CodecID = 8, RecordCount = 1\<rparr>"
  using codec8_parse [where records = "[sample_record]" and now = 0 and s = "''356307042441013''"] sample_fits
  by (simp add: CodecIDCodec8_def)

text \<open>
  C22: the parser reads back what the builder wrote: for records whose elements fit their groups,
  it returns one frame per record with the values of the record, and acknowledges their number.
\<close>

theorem codec8_roundtrip:
  assumes "\<forall>r \<in> set records. encodable r" and "length records < 256"
    and "length (concat (map build_record records)) < 2 ^ 31"
  shows "ParseTeltonikaPacket now (BuildTeltonikaCodec8Packet records) s = Returns
     \<lparr>tel_Frames = map (record_frame s) records,
      tel_Frame = (if records = [] then None else Some (record_frame s (last records))),
      tel_ACK = [0, 0, 0, of_nat (length records)], tel_IMEI = s, IsHandshake = False, CodecID = CodecIDCodec8,
      RecordCount = int (length records)\<rparr>"
  by (rule codec8_parse [OF assms])

theorem codec8_roundtrip_witness:
  "ParseTeltonikaPacket 0 (BuildTeltonikaCodec8Packet [sample_record]) ''356307042441013'' = Returns
     \<lparr>tel_Frames = [record_frame ''356307042441013'' sample_record],
      tel_Frame = Some (record_frame ''356307042441013'' sample_record),
      tel_ACK = [0, 0, 0, 1], tel_IMEI = ''356307042441013'', IsHandshake = False, CodecID = 8, RecordCount = 1\<rparr>"
  using codec8_roundtrip [where records = "[sample_record]" and now = 0 and s = "''356307042441013''"] sample_fits
  by (simp add: CodecIDCodec8_def)

section \<open>The checksum\<close>

interpretation teltonika_crc: byte_checksum "crc_byte 0xA001"
  by (rule crc_checksum) (simp add: bit_numeral_word_iff)

lemma CRC_detects:
  "CalculateTeltonikaCRC (xs @ b # ys) = CalculateTeltonikaCRC (xs @ b' # ys) \<longleftrightarrow> b = b'"
  unfolding CalculateTeltonikaCRC_def by (rule teltonika_crc.one_byte)

end
