(* ===== verification/Ais140.thy ===== *)
theory Ais140
  imports Frames GoText
begin

text \<open>
  The AIS-140 text protocol (\<open>internal/telemetry/providers/ais140.go\<close>): the checksum, the full and the
  compact field layouts, NMEA coordinates and timestamps. \<open>now\<close> is \<open>time.Now().UTC()\<close>.
\<close>

section \<open>Decoding\<close>

definition convertNMEAToDecimal :: "float64 \<Rightarrow> bool \<Rightarrow> float64" where
  "convertNMEAToDecimal raw isPositive =
     (if feq raw (Fin 0) then Fin 0
      else
        let degrees = float_of_int64 (int64_of_float (fdiv raw (F 100)));
            minutes = raw - degrees * F 100;
            decimal = degrees + fdiv minutes (F 60)
        in if \<not> isPositive then - decimal else decimal)"

definition parseAIS140DateTime :: "gotime \<Rightarrow> gostring \<Rightarrow> gostring \<Rightarrow> gotime" where
  "parseAIS140DateTime now dateStr timeStr =
     (if length dateStr = 8 \<and> 6 \<le> length timeStr
      then time_Date (Atoi (slice 4 8 dateStr)) (Atoi (slice 2 4 dateStr)) (Atoi (slice 0 2 dateStr))
             (Atoi (slice 0 2 timeStr)) (Atoi (slice 2 4 timeStr)) (Atoi (slice 4 6 timeStr)) 0
      else now)"

definition xor_bytes :: "gostring \<Rightarrow> uint8" where
  "xor_bytes s = foldl (XOR) 0 (bytes_of s)"

text \<open>The text between \<open>$\<close> and the checksum, verified when one is present.\<close>

definition ais_body :: "gostring \<Rightarrow> gostring go" where
  "ais_body body =
     (case find_index (\<lambda>c. c = CHR ''*'') body of
        None \<Rightarrow> Returns body
      | Some idx \<Rightarrow>
          (case ParseUint_16_8 (TrimSpace (drop (idx + 1) body)) of
             None \<Rightarrow> Fails ''ais140: malformed checksum suffix''
           | Some want \<Rightarrow>
               let got = xor_bytes (take idx body)
               in if want \<noteq> got
                  then Fails (''ais140: checksum mismatch: want '' @ fmt_02X want @ '', got '' @ fmt_02X got)
                  else Returns (take idx body)))"

definition flag_set :: "gostring \<Rightarrow> gostring \<Rightarrow> bool" where
  "flag_set word s \<longleftrightarrow> s = ''1'' \<or> fold_caps s word"

definition ais_fields :: "gotime \<Rightarrow> gostring list \<Rightarrow> RawFrame go" where
  "ais_fields now parts =
     (if length parts < 10 then Fails ''ais140: insufficient fields''
      else
        let header = parts ! 0
        in if header \<notin> {''PVT'', ''AIS140'', ''POS'', ''EMR''}
           then Fails (''ais140: unsupported packet type '' @ header)
           else
             let full = (18 \<le> length parts \<and> 15 \<le> length (parts ! 6));
                 imei = (if full then parts ! 6 else parts ! 1);
                 deviceTime = (if full then parseAIS140DateTime now (parts ! 9) (parts ! 10)
                               else parseAIS140DateTime now (parts ! 2) (parts ! 3));
                 p = (if full then 11 else 4);
                 lat = convertNMEAToDecimal (ParseFloat (parts ! p)) (parts ! (p + 1) = ''N'');
                 lng = convertNMEAToDecimal (ParseFloat (parts ! (p + 2))) (parts ! (p + 3) = ''E'');
                 speed = ParseFloat (parts ! (p + 4));
                 heading = ParseFloat (parts ! (p + 5));
                 satellites = (if p + 6 < length parts then Atoi (parts ! (p + 6)) else 0);
                 ign = (if full then 22 else 11); emr = (if full then 25 else 12);
                 ignition = (ign < length parts \<and> flag_set ''ON'' (parts ! ign));
                 isEmergency = (emr < length parts \<and> flag_set ''SOS'' (parts ! emr))
             in if imei = '''' then Fails ''ais140: empty imei''
                else Returns (no_frame\<lparr>IMEI := imei, DeviceTime := deviceTime, Latitude := lat, Longitude := lng,
                       Speed := speed, Heading := heading, Satellites := Some satellites, frame_Valid := Some True,
                       Motion := Some (F 2 < speed), frame_Ignition := Some ignition,
                       SOS := (isEmergency \<or> header = ''EMR''), frame_Provider := ''ais140''\<rparr>))"

definition DecodeAIS140Packet :: "gotime \<Rightarrow> gostring \<Rightarrow> RawFrame go" where
  "DecodeAIS140Packet now raw =
     (let raw = TrimSpace raw
      in if \<not> starts_with ''$'' raw then Fails ''ais140: missing leading $ delimiter''
         else go_then (ais_body (drop 1 raw)) (\<lambda>body. ais_fields now (Split CHR '','' body)))"

definition ais140_HandleWebhook :: "gotime \<Rightarrow> bytes \<Rightarrow> RawFrame list go" where
  "ais140_HandleWebhook now rawBody =
     go_then (DecodeAIS140Packet now (text_of rawBody)) (\<lambda>frame. Returns [frame])"

section \<open>The checksum\<close>

interpretation nmea: byte_checksum "(XOR) :: uint8 \<Rightarrow> uint8 \<Rightarrow> uint8"
proof
  show "c = c'" if "c XOR b = c' XOR b" for c c' b :: uint8
  proof -
    have "(c XOR b) XOR b = (c' XOR b) XOR b" using that by simp
    then show ?thesis by (simp add: xor.assoc)
  qed
  show "b = b'" if "c XOR b = c XOR b'" for c b b' :: uint8
  proof -
    have "c XOR (c XOR b) = c XOR (c XOR b')" using that by simp
    then show ?thesis by (simp add: xor.assoc [symmetric])
  qed
qed

lemma trim_left_id:
  assumes "s \<noteq> []" and "\<forall>w \<in> set ws. w = [] \<or> hd w \<noteq> hd s"
  shows "trim_left ws s = s"
proof -
  have "\<not> starts_with w s" if "w \<in> set ws" "w \<noteq> []" for w
    using assms that by (cases s; cases w) (auto simp: starts_with_def)
  then have "find (\<lambda>w. w \<noteq> [] \<and> s \<noteq> [] \<and> starts_with w s) ws = None" by (auto simp: find_None_iff)
  then show ?thesis by (simp add: trim_left.simps)
qed

lemma TrimSpace_id:
  assumes "s \<noteq> []" and "hd s \<notin> hd ` set white_space" and "last s \<notin> last ` set white_space"
  shows "TrimSpace s = s"
proof -
  have "trim_left white_space s = s" "trim_left (map rev white_space) (rev s) = rev s"
    using assms by (auto intro!: trim_left_id simp: hd_rev image_iff) metis
  then show ?thesis by (simp add: TrimSpace_def)
qed

lemma visible:
  assumes "c = CHR ''$'' \<or> c \<in> set hex_upper"
  shows "c \<notin> hd ` set white_space" and "c \<notin> last ` set white_space"
proof -
  have "list_all (\<lambda>c. list_all (\<lambda>w. hd w \<noteq> c \<and> last w \<noteq> c) white_space) (CHR ''$'' # hex_upper)"
    by code_simp
  then show "c \<notin> hd ` set white_space" "c \<notin> last ` set white_space"
    using assms unfolding list_all_iff by auto
qed

lemma hex_upper_digit:
  assumes "n < 16"
  shows "hex_digit (hex_upper ! n) = Some n" and "hex_upper ! n \<in> set hex_upper"
proof -
  have "list_all (\<lambda>n. hex_digit (hex_upper ! n) = Some n) [0..<16]" by code_simp
  then show "hex_digit (hex_upper ! n) = Some n" using assms unfolding list_all_iff by simp
  show "hex_upper ! n \<in> set hex_upper" using assms by (intro nth_mem) (simp add: hex_upper_def)
qed

lemma byte_halves: "unat (b :: uint8) div 16 < 16" "unat (b :: uint8) mod 16 < 16"
proof -
  have "unat b < 2 ^ LENGTH(8)" by (rule unsigned_less)
  then show "unat b div 16 < 16" "unat b mod 16 < 16" by simp_all
qed

lemma ParseUint_fmt: "ParseUint_16_8 (fmt_02X b) = Some b"
proof -
  have "unat b < 2 ^ LENGTH(8)" by (rule unsigned_less)
  then have "hex_loop 0 (fmt_02X b) = Some (unat b)"
    using byte_halves [of b, THEN hex_upper_digit(1)] by (simp add: fmt_02X_def)
  then show ?thesis by (simp add: ParseUint_16_8_def fmt_02X_def)
qed

lemma find_star: "CHR ''*'' \<notin> set body \<Longrightarrow> find_index (\<lambda>c. c = CHR ''*'') (body @ CHR ''*'' # rest) = Some (length body)"
  by (induction body) auto

text \<open>A message with its checksum.\<close>

definition ais_message :: "gostring \<Rightarrow> uint8 \<Rightarrow> gostring" where
  "ais_message body check = ''$'' @ body @ ''*'' @ fmt_02X check"

lemma decode_message:
  assumes "CHR ''*'' \<notin> set body"
  shows "DecodeAIS140Packet now (ais_message body check) =
     (if check = xor_bytes body then ais_fields now (Split CHR '','' body)
      else Fails (''ais140: checksum mismatch: want '' @ fmt_02X check @ '', got '' @ fmt_02X (xor_bytes body)))"
proof -
  note h = byte_halves [of check, THEN hex_upper_digit(2)]
  have "TrimSpace (fmt_02X check) = fmt_02X check"
    using h visible by (intro TrimSpace_id) (simp_all add: fmt_02X_def)
  moreover have "TrimSpace (ais_message body check) = ais_message body check"
    using h visible by (intro TrimSpace_id) (simp_all add: ais_message_def fmt_02X_def)
  ultimately show ?thesis
    using find_star [OF assms] by (simp add: DecodeAIS140Packet_def ais_message_def starts_with_def ais_body_def ParseUint_fmt Let_def)
qed

text \<open>
  A message with its checksum is decoded from its fields, and a message in which one byte of
  the body was changed (to anything but a star) is rejected.
\<close>

theorem ais140_checksum:
  assumes "CHR ''*'' \<notin> set (xs @ c # ys)" and "d \<noteq> c" and "d \<noteq> CHR ''*''"
  shows "DecodeAIS140Packet now (ais_message (xs @ c # ys) (xor_bytes (xs @ c # ys))) = ais_fields now (Split CHR '','' (xs @ c # ys))
    \<and> (\<exists>err. DecodeAIS140Packet now (ais_message (xs @ d # ys) (xor_bytes (xs @ c # ys))) = Fails err)"
proof
  show "DecodeAIS140Packet now (ais_message (xs @ c # ys) (xor_bytes (xs @ c # ys))) = ais_fields now (Split CHR '','' (xs @ c # ys))"
    using decode_message [OF assms(1)] by simp
  have "of_nat (of_char d) \<noteq> (of_nat (of_char c) :: uint8)"
    using assms(2) text_bytes_of [of "[c]"] text_bytes_of [of "[d]"] by (metis bytes_of_def list.map(1,2) list.inject)
  then have "xor_bytes (xs @ c # ys) \<noteq> xor_bytes (xs @ d # ys)"
    by (simp add: xor_bytes_def bytes_of_def nmea.one_byte eq_commute del: foldl_append)
  moreover have "CHR ''*'' \<notin> set (xs @ d # ys)" using assms(1,3) by auto
  ultimately show "\<exists>err. DecodeAIS140Packet now (ais_message (xs @ d # ys) (xor_bytes (xs @ c # ys))) = Fails err"
    using decode_message by simp
qed

theorem ais140_checksum_witness:
  "\<exists>err. DecodeAIS140Packet 0 (ais_message ''PVT,867322031234561,08072026,112233,1912.3456,S,07252.3456,E,0,90'' (xor_bytes ''PVT,867322031234561,08072026,112233,1912.3456,N,07252.3456,E,0,90'')) = Fails err"
  using ais140_checksum [where xs = "''PVT,867322031234561,08072026,112233,1912.3456,''" and c = "CHR ''N''" and d = "CHR ''S''"
      and ys = "'',07252.3456,E,0,90''" and now = 0]
  by simp

section \<open>Coordinates are not checked\<close>

lemma ais140_unchecked:
  "\<exists>f. DecodeAIS140Packet now ''$PVT,867322031234561,08072026,112233,NaN,N,07252.3456,E,0,90'' = Returns f
      \<and> Latitude f = NaN \<and> frame_Valid f = Some True"
proof -
  let ?m = "''$PVT,867322031234561,08072026,112233,NaN,N,07252.3456,E,0,90''"
  have "CHR ''0'' \<in> set hex_upper" by (simp add: hex_upper_def)
  then have "TrimSpace ?m = ?m" by (intro TrimSpace_id) (simp_all add: visible)
  moreover have "find_index (\<lambda>c. c = CHR ''*'') (drop 1 ?m) = None" by (subst find_index_None) simp
  moreover have "ParseFloat ''NaN'' = NaN" by (rule number_texts)
  moreover have "fadd x NaN = NaN" for x by (cases x) simp_all
  then have "convertNMEAToDecimal NaN True = NaN" by (simp add: convertNMEAToDecimal_def feq_def float_ops)
  ultimately show ?thesis
    by (simp add: DecodeAIS140Packet_def ais_body_def starts_with_def ais_fields_def Let_def)
qed

end
