(* ===== verification/AsyncQueue.thy ===== *)
theory AsyncQueue
  imports Frames "HOL-Library.Multiset"
begin

text \<open>
  The asynchronous ingest queue (\<open>internal/telemetry/async_queue.go\<close>): a bounded channel between the
  receivers of frames and a pool of workers, drained at shutdown. Goroutines interleave between
  their atomic actions: the check and the send of \<open>Push\<close>, the two arms of a worker's \<open>select\<close> and
  the ingestion of its frame, the phases of \<open>DrainContext\<close>. The lists after \<open>pushing\<close> record what
  became of the frames. What \<open>IngestRawFrame\<close> returns is any of the outcomes the queue
  distinguishes.
\<close>

section \<open>State\<close>

datatype worker = Waiting | Busy RawFrame | Stopped

datatype drain_phase = NotDraining | Closing | Awaiting | FlushCheck bool | FlushPoll bool
  | FlushBusy bool RawFrame | Flushed bool | TimedOut nat

datatype outcome = Persisted | Canceled | DeadlineExceeded | Rejected | NoIngestor

record queue_state =
  capacity :: nat
  queue :: "RawFrame list"
  closed :: bool
  quit :: bool
  cancelled :: bool
  expired :: bool
  workers :: "worker list"
  drain :: drain_phase
  droppedCount :: "64 word"
  failedCount :: "64 word"
  pushing :: "RawFrame list"
  accepted :: "RawFrame list"
  turned_away :: "RawFrame list"
  dropped :: "RawFrame list"
  persisted :: "RawFrame list"
  failed :: "RawFrame list"
  uncounted :: "(RawFrame \<times> outcome) list"

section \<open>Operations\<close>

definition NewAsyncIngestQueue :: "int \<Rightarrow> queue_state" where
  "NewAsyncIngestQueue cap =
     \<lparr>capacity = nat (if cap \<le> 0 then 10000 else cap), queue = [], closed = False, quit = False,
      cancelled = False, expired = False, workers = [], drain = NotDraining, droppedCount = 0,
      failedCount = 0, pushing = [], accepted = [], turned_away = [], dropped = [], persisted = [],
      failed = [], uncounted = []\<rparr>"

text \<open>\<open>Start\<close> with the number of workers given to the constructor.\<close>

definition Start :: "int \<Rightarrow> queue_state \<Rightarrow> queue_state" where
  "Start n s = s\<lparr>workers := workers s @ replicate (nat (if n \<le> 0 then 4 else n)) Waiting\<rparr>"

text \<open>\<open>Push\<close>: the load of \<open>closed\<close>, then the send.\<close>

definition push_check :: "RawFrame \<Rightarrow> queue_state \<Rightarrow> queue_state" where
  "push_check f s =
     (if closed s then s\<lparr>turned_away := f # turned_away s\<rparr> else s\<lparr>pushing := f # pushing s\<rparr>)"

definition push_send :: "RawFrame \<Rightarrow> queue_state \<Rightarrow> queue_state" where
  "push_send f s =
     (let s = s\<lparr>pushing := remove1 f (pushing s)\<rparr>
      in if length (queue s) < capacity s
         then s\<lparr>queue := queue s @ [f], accepted := f # accepted s\<rparr>
         else s\<lparr>droppedCount := droppedCount s + 1, dropped := f # dropped s\<rparr>)"

text \<open>
  A frame taken from the queue has been ingested, or not; an error is counted where the code counts it.
  Frames whose end is not counted anywhere are kept with it.
\<close>

definition record_outcome :: "(outcome \<Rightarrow> bool) \<Rightarrow> outcome \<Rightarrow> RawFrame \<Rightarrow> queue_state \<Rightarrow> queue_state" where
  "record_outcome counts out f s =
     (if out = Persisted then s\<lparr>persisted := f # persisted s\<rparr>
      else if counts out then s\<lparr>failedCount := failedCount s + 1, failed := f # failed s\<rparr>
      else s\<lparr>uncounted := (f, out) # uncounted s\<rparr>)"

definition worker_receive :: "nat \<Rightarrow> queue_state \<Rightarrow> queue_state" where
  "worker_receive i s =
     (case queue s of
        [] \<Rightarrow> s
      | f # fs \<Rightarrow> s\<lparr>queue := fs, workers := (workers s)[i := Busy f]\<rparr>)"

definition worker_return :: "nat \<Rightarrow> queue_state \<Rightarrow> queue_state" where
  "worker_return i s = s\<lparr>workers := (workers s)[i := Stopped]\<rparr>"

definition worker_ingest :: "nat \<Rightarrow> outcome \<Rightarrow> queue_state \<Rightarrow> queue_state" where
  "worker_ingest i out s =
     (case workers s ! i of
        Busy f \<Rightarrow> record_outcome (\<lambda>out. out \<notin> {Canceled, NoIngestor}) out f (s\<lparr>workers := (workers s)[i := Waiting]\<rparr>)
      | _ \<Rightarrow> s)"

definition drain_start :: "queue_state \<Rightarrow> queue_state" where
  "drain_start s = (if closed s then s else s\<lparr>closed := True, drain := Closing\<rparr>)"

text \<open>One action of \<open>DrainContext\<close>; while it waits, \<open>late\<close> tells which arm of the select is taken.\<close>

definition drain_act :: "bool \<Rightarrow> outcome \<Rightarrow> queue_state \<Rightarrow> queue_state" where
  "drain_act late out s =
     (case drain s of
        Closing \<Rightarrow> s\<lparr>quit := True, drain := Awaiting\<rparr>
      | Awaiting \<Rightarrow> s\<lparr>drain := FlushCheck late, cancelled := True\<rparr>
      | FlushCheck stuck \<Rightarrow>
          s\<lparr>drain := (if expired s then TimedOut (length (queue s)) else FlushPoll stuck)\<rparr>
      | FlushPoll stuck \<Rightarrow>
          (case queue s of
             [] \<Rightarrow> s\<lparr>drain := Flushed stuck\<rparr>
           | f # fs \<Rightarrow> s\<lparr>queue := fs, drain := FlushBusy stuck f\<rparr>)
      | FlushBusy stuck f \<Rightarrow> record_outcome (\<lambda>out. out = Rejected) out f (s\<lparr>drain := FlushCheck stuck\<rparr>)
      | _ \<Rightarrow> s)"

definition finished :: "drain_phase \<Rightarrow> bool" where
  "finished d = (case d of Flushed _ \<Rightarrow> True | TimedOut _ \<Rightarrow> True | _ \<Rightarrow> False)"

text \<open>\<open>DrainContext\<close> can act: it waits for the workers, or for its deadline.\<close>

definition can_drain :: "bool \<Rightarrow> queue_state \<Rightarrow> bool" where
  "can_drain late s =
     (case drain s of
        NotDraining \<Rightarrow> False
      | Awaiting \<Rightarrow> if late then expired s else list_all (\<lambda>w. w = Stopped) (workers s)
      | d \<Rightarrow> \<not> finished d)"

section \<open>Interleavings\<close>

text \<open>Actions the queue itself performs.\<close>

inductive internal :: "queue_state \<Rightarrow> queue_state \<Rightarrow> bool" where
  send: "f \<in> set (pushing s) \<Longrightarrow> internal s (push_send f s)"
| receive: "i < length (workers s) \<Longrightarrow> workers s ! i = Waiting \<Longrightarrow> queue s \<noteq> [] \<Longrightarrow> internal s (worker_receive i s)"
| leave: "i < length (workers s) \<Longrightarrow> workers s ! i = Waiting \<Longrightarrow> quit s \<or> cancelled s \<Longrightarrow> internal s (worker_return i s)"
| ingest: "i < length (workers s) \<Longrightarrow> workers s ! i = Busy f \<Longrightarrow> internal s (worker_ingest i out s)"
| flush: "can_drain late s \<Longrightarrow> internal s (drain_act late out s)"

text \<open>And what its environment does: calls, a cancelled context, a deadline.\<close>

inductive queue_step :: "queue_state \<Rightarrow> queue_state \<Rightarrow> bool" where
  inner: "internal s t \<Longrightarrow> queue_step s t"
| call: "queue_step s (push_check f s)"
| shut: "queue_step s (drain_start s)"
| cancel: "queue_step s (s\<lparr>cancelled := True\<rparr>)"
| expire: "queue_step s (s\<lparr>expired := True\<rparr>)"

inductive reachable :: "queue_state \<Rightarrow> bool" where
  begun: "reachable (Start n (NewAsyncIngestQueue cap))"
| later: "reachable s \<Longrightarrow> queue_step s t \<Longrightarrow> reachable t"

inductive_cases queue_stepE: "queue_step s t"
inductive_cases internalE: "internal s t"

lemmas queue_ops = push_check_def push_send_def worker_receive_def worker_return_def worker_ingest_def
  drain_start_def drain_act_def record_outcome_def Let_def

lemma reachable_inner: "reachable s \<Longrightarrow> internal s t \<Longrightarrow> reachable t"
  by (blast intro: later inner)

lemma reachable_steps: "queue_step\<^sup>*\<^sup>* s t \<Longrightarrow> reachable s \<Longrightarrow> reachable t"
  by (induction rule: rtranclp_induct) (auto intro: later)

section \<open>No accepted frame is lost from the books\<close>

fun held :: "worker \<Rightarrow> RawFrame multiset" where
  "held (Busy f) = {#f#}"
| "held w = {#}"

definition in_flight :: "queue_state \<Rightarrow> RawFrame multiset" where
  "in_flight s = sum_list (map held (workers s)) + (case drain s of FlushBusy stuck f \<Rightarrow> {#f#} | _ \<Rightarrow> {#})"

text \<open>How a frame ends that no counter tells of: its context was cancelled or ran out of time, or there is no ingestor.\<close>

definition silent :: "outcome set" where
  "silent = {Canceled, DeadlineExceeded, NoIngestor}"

definition balanced :: "queue_state \<Rightarrow> bool" where
  "balanced s \<longleftrightarrow>
     snd ` set (uncounted s) \<subseteq> silent \<and>
     mset (accepted s) = mset (persisted s) + mset (failed s) + mset (map fst (uncounted s)) + mset (queue s) + in_flight s
   \<and> length (queue s) \<le> capacity s
   \<and> failedCount s = of_nat (length (failed s)) \<and> droppedCount s = of_nat (length (dropped s))"

lemma sum_list_replace:
  fixes f :: "'a \<Rightarrow> 'b :: comm_monoid_add"
  assumes "i < length xs"
  shows "sum_list (map f (xs[i := x])) + f (xs ! i) = sum_list (map f xs) + f x"
proof -
  have "xs = take i xs @ xs ! i # drop (Suc i) xs" using assms by (rule id_take_nth_drop)
  then have "sum_list (map f xs) = sum_list (map f (take i xs)) + (f (xs ! i) + sum_list (map f (drop (Suc i) xs)))"
    by (metis list.simps(9) map_append sum_list.Cons sum_list_append)
  then show ?thesis using assms by (simp add: upd_conv_take_nth_drop ac_simps)
qed

lemmas held_update = sum_list_replace [where f = held]

lemma balanced_record:
  assumes "mset (accepted s) = mset (persisted s) + mset (failed s) + mset (map fst (uncounted s)) + mset (queue s) + in_flight s + {#f#}"
    and "length (queue s) \<le> capacity s" and "failedCount s = of_nat (length (failed s))"
    and "droppedCount s = of_nat (length (dropped s))" and "snd ` set (uncounted s) \<subseteq> silent"
    and "out = Persisted \<or> counts out \<or> out \<in> silent"
  shows "balanced (record_outcome counts out f s)"
  using assms by (auto simp: balanced_def record_outcome_def in_flight_def)

lemma balanced_drain:
  assumes "balanced s" and "can_drain late s"
  shows "balanced (drain_act late out s)"
proof (cases "drain s")
  case (FlushBusy stuck f)
  have "balanced (record_outcome (\<lambda>out. out = Rejected) out f (s\<lparr>drain := FlushCheck stuck\<rparr>))"
    using assms(1) FlushBusy by (intro balanced_record; cases out) (simp_all add: balanced_def in_flight_def silent_def)
  then show ?thesis using FlushBusy by (simp add: drain_act_def)
next
  case (FlushPoll stuck)
  then show ?thesis
    using assms(1) by (cases "queue s") (auto simp: drain_act_def balanced_def in_flight_def)
qed (use assms in \<open>auto simp: drain_act_def balanced_def in_flight_def\<close>)

lemma balanced_internal: "internal s t \<Longrightarrow> balanced s \<Longrightarrow> balanced t"
proof (induction rule: internal.induct)
  case (send f s)
  then show ?case by (auto simp: push_send_def Let_def balanced_def in_flight_def)
next
  case (receive i s)
  then obtain f fs where "queue s = f # fs" by (cases "queue s") auto
  then show ?case
    using receive held_update [of i "workers s" "Busy f"]
    by (simp add: worker_receive_def balanced_def in_flight_def)
next
  case (leave i s)
  then show ?case
    using held_update [of i "workers s" Stopped] by (simp add: worker_return_def balanced_def in_flight_def)
next
  case (ingest i s f out)
  then have "balanced (record_outcome (\<lambda>out. out \<notin> {Canceled, NoIngestor}) out f (s\<lparr>workers := (workers s)[i := Waiting]\<rparr>))"
    using held_update [of i "workers s" Waiting]
    by (intro balanced_record) (auto simp: balanced_def in_flight_def silent_def)
  then show ?case using ingest by (simp add: worker_ingest_def)
next
  case (flush late s out)
  then show ?case by (rule balanced_drain [rotated])
qed

text \<open>\<open>DrainContext\<close> closes the queue first, and signals the workers before it waits for them.\<close>

definition orderly :: "queue_state \<Rightarrow> bool" where
  "orderly s \<longleftrightarrow> (closed s \<longleftrightarrow> drain s \<noteq> NotDraining) \<and> (quit s \<or> drain s \<in> {NotDraining, Closing})"

lemma orderly_internal: "internal s t \<Longrightarrow> orderly s \<Longrightarrow> orderly t"
proof (induction rule: internal.induct)
  case (receive i s)
  then show ?case by (cases "queue s") (simp_all add: worker_receive_def orderly_def)
next
  case (flush late s out)
  then show ?case
    by (cases "drain s"; cases "queue s")
       (auto simp: drain_act_def record_outcome_def orderly_def can_drain_def)
qed (auto simp: queue_ops orderly_def)

lemma orderly_step: "queue_step s t \<Longrightarrow> orderly s \<Longrightarrow> orderly t"
proof (induction rule: queue_step.induct)
  case (inner s t)
  then show ?case by (rule orderly_internal)
qed (auto simp: push_check_def drain_start_def orderly_def)

lemma reachable_orderly: "reachable s \<Longrightarrow> orderly s"
proof (induction rule: reachable.induct)
  case (begun n cap)
  show ?case by (simp add: Start_def NewAsyncIngestQueue_def orderly_def)
next
  case (later s t)
  then show ?case by (blast intro: orderly_step)
qed

lemma balanced_step: "queue_step s t \<Longrightarrow> orderly s \<Longrightarrow> balanced s \<Longrightarrow> balanced t"
proof (induction rule: queue_step.induct)
  case (inner s t)
  then show ?case by (simp add: balanced_internal)
qed (auto simp: balanced_def in_flight_def push_check_def drain_start_def orderly_def)

lemma held_waiting: "sum_list (map held (replicate n Waiting)) = {#}"
  by (induction n) simp_all

lemma queue_balanced: "reachable s \<Longrightarrow> balanced s"
proof (induction rule: reachable.induct)
  case (begun n cap)
  show ?case
    unfolding balanced_def in_flight_def
    by (simp add: NewAsyncIngestQueue_def Start_def held_waiting del: map_replicate)
next
  case (later s t)
  then show ?case by (blast intro: balanced_step reachable_orderly)
qed

section \<open>Draining terminates\<close>

fun worker_weight :: "worker \<Rightarrow> nat" where
  "worker_weight Waiting = 1"
| "worker_weight (Busy f) = 2"
| "worker_weight Stopped = 0"

fun drain_weight :: "drain_phase \<Rightarrow> nat" where
  "drain_weight Closing = 4"
| "drain_weight Awaiting = 3"
| "drain_weight (FlushCheck _) = 2"
| "drain_weight (FlushPoll _) = 1"
| "drain_weight (FlushBusy _ _) = 3"
| "drain_weight _ = 0"

text \<open>A bound on the actions the queue has left when nobody calls it any more.\<close>

definition work_left :: "queue_state \<Rightarrow> nat" where
  "work_left s = 4 * length (pushing s) + 3 * length (queue s) + sum_list (map worker_weight (workers s))
     + drain_weight (drain s)"

lemmas weight_update = sum_list_replace [where f = worker_weight]

lemma work_record [simp]: "work_left (record_outcome counts out f s) = work_left s"
  by (simp add: record_outcome_def work_left_def)

lemma work_decreases: "internal s t \<Longrightarrow> work_left t < work_left s"
proof (induction rule: internal.induct)
  case (send f s)
  then have "length (pushing s) = Suc (length (remove1 f (pushing s)))"
    by (simp add: length_remove1) (metis Suc_pred length_pos_if_in_set)
  then show ?case by (simp add: push_send_def work_left_def Let_def)
next
  case (receive i s)
  then obtain f fs where "queue s = f # fs" by (cases "queue s") auto
  then show ?case
    using receive weight_update [of i "workers s" "Busy f"] by (simp add: worker_receive_def work_left_def)
next
  case (leave i s)
  then show ?case using weight_update [of i "workers s" Stopped] by (simp add: worker_return_def work_left_def)
next
  case (ingest i s f out)
  have "work_left (worker_ingest i out s) = work_left (s\<lparr>workers := (workers s)[i := Waiting]\<rparr>)"
    using ingest by (simp add: worker_ingest_def)
  then show ?case using ingest weight_update [of i "workers s" Waiting] by (simp add: work_left_def)
next
  case (flush late s out)
  show ?case
  proof (cases "drain s")
    case (FlushBusy stuck f)
    have "work_left (drain_act late out s) = work_left (s\<lparr>drain := FlushCheck stuck\<rparr>)"
      using FlushBusy by (simp add: drain_act_def)
    then show ?thesis using FlushBusy by (simp add: work_left_def)
  next
    case (FlushPoll stuck)
    then show ?thesis by (cases "queue s") (simp_all add: drain_act_def work_left_def)
  qed (use flush in \<open>simp_all add: drain_act_def work_left_def can_drain_def finished_def\<close>)
qed

lemma work_bound: "(internal ^^ n) s t \<Longrightarrow> n + work_left t \<le> work_left s"
proof (induction n arbitrary: t)
  case (Suc n)
  then obtain u where "(internal ^^ n) s u" "internal u t" by auto
  then show ?case using Suc.IH [of u] work_decreases [of u t] by simp
qed simp

text \<open>While a drain is under way, some action of the queue is possible.\<close>

lemma drain_progress:
  assumes "orderly s" and "drain s \<noteq> NotDraining" and "\<not> finished (drain s)"
  shows "\<exists>t. internal s t"
proof (cases "drain s = Awaiting \<and> \<not> list_all (\<lambda>w. w = Stopped) (workers s)")
  case True
  then obtain i where i: "i < length (workers s)" "workers s ! i \<noteq> Stopped" by (auto simp: list_all_length)
  show ?thesis
  proof (cases "workers s ! i")
    case Waiting
    then show ?thesis using i True assms(1) internal.leave [of i s] by (auto simp: orderly_def)
  next
    case (Busy f)
    then show ?thesis using i internal.ingest [of i s f] by blast
  qed (use i in simp)
next
  case False
  then have "can_drain False s" using assms by (auto simp: can_drain_def split: drain_phase.splits)
  then show ?thesis using internal.flush by blast
qed

lemma internal_orderly: "(internal ^^ n) s t \<Longrightarrow> orderly s \<Longrightarrow> orderly t"
proof (induction n arbitrary: t)
  case (Suc n)
  then obtain u where "(internal ^^ n) s u" "internal u t" by auto
  then show ?case using Suc orderly_internal by blast
qed simp

lemma drain_stays:
  assumes "internal s t" and "drain s \<noteq> NotDraining"
  shows "drain t \<noteq> NotDraining"
  using assms
proof (induction rule: internal.induct)
  case (receive i s)
  then show ?case by (cases "queue s") (simp_all add: worker_receive_def)
next
  case (flush late s out)
  then show ?case
    by (cases "drain s"; cases "queue s") (auto simp: drain_act_def record_outcome_def)
qed (auto simp: queue_ops)

lemma drain_stays_n: "(internal ^^ n) s t \<Longrightarrow> drain s \<noteq> NotDraining \<Longrightarrow> drain t \<noteq> NotDraining"
proof (induction n arbitrary: t)
  case (Suc n)
  then obtain u where "(internal ^^ n) s u" "internal u t" by auto
  then show ?case using Suc drain_stays by blast
qed simp

text \<open>
  C24: a drain terminates: once it has begun, the queue can take only a bounded number of actions
  of its own, and as long as the drain has not returned, some action is possible.
\<close>

theorem drain_terminates:
  assumes "reachable s" and "drain s \<noteq> NotDraining" and "(internal ^^ n) s t"
  shows "n \<le> work_left s \<and> (finished (drain t) \<or> (\<exists>u. internal t u))"
  using work_bound [OF assms(3)] drain_progress [of t] drain_stays_n [OF assms(3,2)]
    internal_orderly [OF assms(3) reachable_orderly [OF assms(1)]]
  by auto

theorem drain_terminates_witness:
  "1 \<le> work_left (drain_start (Start 4 (NewAsyncIngestQueue 10000)))"
proof -
  let ?s = "drain_start (Start 4 (NewAsyncIngestQueue 10000))"
  have s: "drain ?s = Closing" by (simp add: drain_start_def Start_def NewAsyncIngestQueue_def)
  have "reachable ?s" by (rule later [OF begun shut])
  moreover have "can_drain False ?s" by (simp add: can_drain_def finished_def s)
  then have "(internal ^^ 1) ?s (drain_act False Persisted ?s)" by (simp only: relpowp_1) (rule flush)
  ultimately show ?thesis using drain_terminates [of ?s 1] s by simp
qed

text \<open>
  C23: in every interleaving of pushes, workers and drain, each accepted frame is in exactly one
  place: persisted, failed and counted as failed, in the queue, in the hands of a worker or of the drain,
  or taken off the queue without being counted at all, which happens only where its ingestion was
  cancelled or ran out of time or where there is no ingestor. The queue never exceeds its capacity and
  the counters of dropped and failed frames are right.
\<close>

theorem queue_conserves:
  assumes "reachable s"
  shows "mset (accepted s)
      = mset (persisted s) + mset (failed s) + mset (map fst (uncounted s)) + mset (queue s) + in_flight s
    \<and> snd ` set (uncounted s) \<subseteq> {Canceled, DeadlineExceeded, NoIngestor}
    \<and> length (queue s) \<le> capacity s
    \<and> failedCount s = of_nat (length (failed s)) \<and> droppedCount s = of_nat (length (dropped s))"
  using queue_balanced [OF assms] unfolding balanced_def silent_def by blast

text \<open>A frame a worker has taken, one in the queue, and one the queue has no room for.\<close>

definition busy_queue :: queue_state where
  "busy_queue = push_send no_frame (push_check no_frame (push_send no_frame (push_check no_frame
     (worker_receive 0 (push_send no_frame (push_check no_frame (Start 1 (NewAsyncIngestQueue 1))))))))"

theorem queue_conserves_witness:
  "accepted busy_queue = [no_frame, no_frame] \<and> mset (queue busy_queue) + in_flight busy_queue = {#no_frame, no_frame#}
   \<and> droppedCount busy_queue = 1"
proof -
  note eval = queue_ops Start_def NewAsyncIngestQueue_def
  let ?a = "push_send no_frame (push_check no_frame (Start 1 (NewAsyncIngestQueue 1)))"
  have "reachable ?a" by (rule reachable_inner [OF later [OF begun call] send]) (simp add: eval)
  then have "reachable (worker_receive 0 ?a)" by (rule reachable_inner [OF _ receive]) (simp_all add: eval)
  from later [OF this inner [OF internal.send]] have "reachable (push_send no_frame (push_check no_frame (worker_receive 0 ?a)))"
    using \<open>reachable (worker_receive 0 ?a)\<close> by (intro reachable_inner [OF later [OF _ call] send]) (simp_all add: eval)
  then have r: "reachable busy_queue" unfolding busy_queue_def
    by (rule reachable_inner [OF later [OF _ call] send]) (simp add: eval)
  have "accepted busy_queue = [no_frame, no_frame]" "persisted busy_queue = []" "failed busy_queue = []"
      "uncounted busy_queue = []" "dropped busy_queue = [no_frame]"
    by (simp_all add: busy_queue_def eval)
  then show ?thesis using queue_conserves [OF r] by simp
qed

section \<open>A clean drain leaves nothing behind\<close>

text \<open>No call of \<open>Push\<close> is between its check and its send, and the drain has seen the workers stop.\<close>

definition quiet :: "queue_state \<Rightarrow> bool" where
  "quiet s \<longleftrightarrow> closed s \<and> pushing s = []
     \<and> (drain s \<in> {FlushCheck False, FlushPoll False, Flushed False} \<or> (\<exists>f. drain s = FlushBusy False f)
        \<longrightarrow> list_all (\<lambda>w. w = Stopped) (workers s))
     \<and> (drain s = Flushed False \<longrightarrow> queue s = [])"

lemma quiet_internal: "internal s t \<Longrightarrow> quiet s \<Longrightarrow> quiet t \<and> accepted t = accepted s"
proof (induction rule: internal.induct)
  case (receive i s)
  then show ?case by (cases "queue s") (auto simp: worker_receive_def quiet_def list_all_length)
next
  case (ingest i s f out)
  then show ?case by (auto simp: worker_ingest_def record_outcome_def quiet_def list_all_length)
next
  case (flush late s out)
  then show ?case
    by (cases "drain s"; cases "queue s")
       (auto simp: drain_act_def record_outcome_def quiet_def can_drain_def)
qed (auto simp: queue_ops quiet_def list_all_length nth_list_update)

lemma quiet_step: "queue_step s t \<Longrightarrow> quiet s \<Longrightarrow> quiet t \<and> accepted t = accepted s"
proof (induction rule: queue_step.induct)
  case (inner s t)
  then show ?case by (rule quiet_internal)
qed (auto simp: quiet_def push_check_def drain_start_def)

lemma quiet_run: "queue_step\<^sup>*\<^sup>* s t \<Longrightarrow> quiet s \<Longrightarrow> quiet t \<and> accepted t = accepted s"
  by (induction rule: rtranclp_induct) (auto dest: quiet_step)

lemma held_stopped: "list_all (\<lambda>w. w = Stopped) ws \<Longrightarrow> sum_list (map held ws) = {#}"
  by (induction ws) auto

text \<open>
  C25: when a drain that no push overlaps ends cleanly, the queue is empty and every frame accepted
  before it was persisted, or failed and was counted as failed, or is one of those the code counts
  nowhere: its ingestion was cancelled or ran out of time, or there is no ingestor.
\<close>

theorem clean_drain:
  assumes "reachable s" and "drain s = Closing" and "pushing s = []"
    and "queue_step\<^sup>*\<^sup>* s t" and "drain t = Flushed False"
  shows "queue t = [] \<and> mset (accepted s) = mset (persisted t) + mset (failed t) + mset (map fst (uncounted t))
    \<and> failedCount t = of_nat (length (failed t)) \<and> snd ` set (uncounted t) \<subseteq> {Canceled, DeadlineExceeded, NoIngestor}"
proof -
  have "quiet s" using assms(2,3) reachable_orderly [OF assms(1)] by (simp add: quiet_def orderly_def)
  then have t: "quiet t" "accepted t = accepted s" using quiet_run [OF assms(4)] by simp_all
  moreover have "balanced t" by (intro queue_balanced reachable_steps [OF assms(4,1)])
  ultimately show ?thesis using assms(5) held_stopped unfolding silent_def [symmetric]
    by (auto simp: quiet_def balanced_def in_flight_def)
qed

lemma run_inner: "queue_step\<^sup>*\<^sup>* s t \<Longrightarrow> internal t u \<Longrightarrow> queue_step\<^sup>*\<^sup>* s u"
  by (erule rtranclp.rtrancl_into_rtrancl) (rule inner)

theorem clean_drain_witness:
  "\<exists>t :: queue_state. drain t = Flushed False \<and> persisted t = [no_frame] \<and> queue t = []"
proof -
  define s where "s = drain_start (push_send no_frame (push_check no_frame (Start 1 (NewAsyncIngestQueue 1))))"
  define a where "a = worker_return 0 (drain_act False Persisted s)"
  define b where "b = drain_act False Persisted (drain_act False Persisted (drain_act False Persisted a))"
  define c where "c = drain_act False Persisted b"
  define t where "t = drain_act False Persisted (drain_act False Persisted c)"
  note eval = queue_ops can_drain_def finished_def Start_def NewAsyncIngestQueue_def
  have "reachable (push_send no_frame (push_check no_frame (Start 1 (NewAsyncIngestQueue 1))))"
    by (rule reachable_inner [OF later [OF begun call] send]) (simp add: eval)
  then have r: "reachable s" unfolding s_def by (rule later [OF _ shut])
  have s: "drain s = Closing" "pushing s = []" "accepted s = [no_frame]" by (simp_all add: s_def eval)
  have "queue_step\<^sup>*\<^sup>* s (drain_act False Persisted s)"
    by (rule run_inner [OF rtranclp.rtrancl_refl flush]) (simp add: s_def eval)
  then have "queue_step\<^sup>*\<^sup>* s a"
    unfolding a_def by (rule run_inner [OF _ leave]) (simp_all add: s_def eval)
  then have "queue_step\<^sup>*\<^sup>* s (drain_act False Persisted a)"
    by (rule run_inner [OF _ flush]) (simp add: a_def s_def eval)
  then have "queue_step\<^sup>*\<^sup>* s (drain_act False Persisted (drain_act False Persisted a))"
    by (rule run_inner [OF _ flush]) (simp add: a_def s_def eval)
  then have "queue_step\<^sup>*\<^sup>* s b"
    unfolding b_def by (rule run_inner [OF _ flush]) (simp add: a_def s_def eval)
  then have "queue_step\<^sup>*\<^sup>* s c"
    unfolding c_def by (rule run_inner [OF _ flush]) (simp add: b_def a_def s_def eval)
  then have "queue_step\<^sup>*\<^sup>* s (drain_act False Persisted c)"
    by (rule run_inner [OF _ flush]) (simp add: c_def b_def a_def s_def eval)
  then have "queue_step\<^sup>*\<^sup>* s t"
    unfolding t_def by (rule run_inner [OF _ flush]) (simp add: c_def b_def a_def s_def eval)
  moreover have t: "drain t = Flushed False" "failed t = []" "uncounted t = []" by (simp_all add: t_def c_def b_def a_def s_def eval)
  ultimately have "queue t = [] \<and> mset [no_frame] = mset (persisted t)"
    using clean_drain [OF r s(1,2)] s(3) by simp
  then have "persisted t = [no_frame]" "queue t = []" by (simp_all add: mset_single_iff_right)
  then show ?thesis using t(1) by blast
qed

text \<open>A frame that a cancelled worker gave up is in none of the counters, although its queue was drained cleanly.\<close>

lemma cancelled_uncounted:
  "\<exists>t. reachable t \<and> accepted t = [no_frame] \<and> persisted t = [] \<and> queue t = [] \<and> in_flight t = {#}
     \<and> failedCount t = 0 \<and> droppedCount t = 0"
proof -
  note eval = queue_ops Start_def NewAsyncIngestQueue_def
  let ?a = "push_send no_frame (push_check no_frame (Start 1 (NewAsyncIngestQueue 1)))"
  have "reachable ?a" by (rule reachable_inner [OF later [OF begun call] send]) (simp add: eval)
  then have "reachable (worker_receive 0 ?a)" by (rule reachable_inner [OF _ receive]) (simp_all add: eval)
  then have "reachable (worker_ingest 0 Canceled (worker_receive 0 ?a))"
    by (rule reachable_inner [OF _ ingest]) (simp_all add: eval)
  then show ?thesis by (intro exI [of _ "worker_ingest 0 Canceled (worker_receive 0 ?a)"]) (simp add: eval in_flight_def)
qed

section \<open>A push that races with the drain\<close>

definition dead :: "queue_state \<Rightarrow> bool" where
  "dead s \<longleftrightarrow> closed s \<and> finished (drain s) \<and> list_all (\<lambda>w. w = Stopped) (workers s)"

lemma dead_step:
  assumes "queue_step s t" and "dead s"
  shows "dead t \<and> set (queue s) \<subseteq> set (queue t) \<and> persisted t = persisted s"
  using assms(1)
proof cases
  case inner
  then show ?thesis
    using assms(2)
  proof (induction rule: internal.induct)
    case (flush late s out)
    then show ?case by (auto simp: dead_def can_drain_def finished_def split: drain_phase.splits)
  qed (auto simp: queue_ops dead_def list_all_length)
qed (use assms(2) in \<open>auto simp: dead_def push_check_def drain_start_def\<close>)

lemma dead_run:
  "queue_step\<^sup>*\<^sup>* s t \<Longrightarrow> dead s \<Longrightarrow> dead t \<and> set (queue s) \<subseteq> set (queue t) \<and> persisted t = persisted s"
proof (induction rule: rtranclp_induct)
  case (step t u)
  then show ?case using dead_step [of t u] by auto
qed simp

text \<open>The check of \<open>Push\<close>, then a whole drain, then the send.\<close>

definition late_push :: "RawFrame \<Rightarrow> queue_state" where
  "late_push f =
     (let s = drain_act False Persisted (drain_start (push_check f (Start 4 (NewAsyncIngestQueue 10000))));
          s = worker_return 3 (worker_return 2 (worker_return 1 (worker_return 0 s)));
          s = drain_act False Persisted (drain_act False Persisted (drain_act False Persisted s))
      in push_send f s)"

lemma started:
  "Start 4 (NewAsyncIngestQueue 10000) = (NewAsyncIngestQueue 10000)\<lparr>workers := [Waiting, Waiting, Waiting, Waiting]\<rparr>"
  "capacity (NewAsyncIngestQueue 10000) = 10000" "queue (NewAsyncIngestQueue 10000) = []"
  "\<not> closed (NewAsyncIngestQueue 10000)" "\<not> expired (NewAsyncIngestQueue 10000)"
  "\<not> quit (NewAsyncIngestQueue 10000)" "drain (NewAsyncIngestQueue 10000) = NotDraining"
  "pushing (NewAsyncIngestQueue 10000) = []" "accepted (NewAsyncIngestQueue 10000) = []"
  "persisted (NewAsyncIngestQueue 10000) = []"
proof -
  have "replicate 4 Waiting = [Waiting, Waiting, Waiting, Waiting]" by (simp add: eval_nat_numeral)
  then show "Start 4 (NewAsyncIngestQueue 10000)
      = (NewAsyncIngestQueue 10000)\<lparr>workers := [Waiting, Waiting, Waiting, Waiting]\<rparr>"
    by (simp add: Start_def NewAsyncIngestQueue_def)
qed (simp_all add: NewAsyncIngestQueue_def)

lemma late_push_reachable: "reachable (late_push f)"
proof -
  define s1 where "s1 = drain_act False Persisted (drain_start (push_check f (Start 4 (NewAsyncIngestQueue 10000))))"
  define s2 where "s2 = worker_return 1 (worker_return 0 s1)"
  define s3 where "s3 = worker_return 3 (worker_return 2 s2)"
  define s4 where "s4 = drain_act False Persisted s3"
  define s5 where "s5 = drain_act False Persisted s4"
  define s6 where "s6 = drain_act False Persisted s5"
  note defs = s1_def s2_def s3_def s4_def s5_def s6_def
  note eval = queue_ops can_drain_def finished_def started numeral_2_eq_2 numeral_3_eq_3
  have "reachable (drain_start (push_check f (Start 4 (NewAsyncIngestQueue 10000))))"
    by (rule later [OF later [OF begun call] shut])
  then have "reachable s1"
    unfolding s1_def by (rule reachable_inner [OF _ flush]) (simp add: eval)
  then have "reachable (worker_return 0 s1)"
    by (rule reachable_inner [OF _ leave]) (simp_all add: s1_def eval)
  then have "reachable s2"
    unfolding s2_def by (rule reachable_inner [OF _ leave]) (simp_all add: s1_def eval)
  then have "reachable (worker_return 2 s2)"
    by (rule reachable_inner [OF _ leave]) (simp_all add: s1_def s2_def eval)
  then have "reachable s3"
    unfolding s3_def by (rule reachable_inner [OF _ leave]) (simp_all add: s1_def s2_def eval)
  then have "reachable s4"
    unfolding s4_def by (rule reachable_inner [OF _ flush]) (simp add: defs eval)
  then have "reachable s5"
    unfolding s5_def by (rule reachable_inner [OF _ flush]) (simp add: defs eval)
  then have "reachable s6"
    unfolding s6_def by (rule reachable_inner [OF _ flush]) (simp add: defs eval)
  then have "reachable (push_send f s6)"
    by (rule reachable_inner [OF _ send]) (simp add: defs eval)
  then show ?thesis by (simp only: late_push_def defs Let_def)
qed

theorem late_push_lost:
  "reachable (late_push f) \<and> drain (late_push f) = Flushed False \<and> accepted (late_push f) = [f]
   \<and> (\<forall>t. queue_step\<^sup>*\<^sup>* (late_push f) t \<longrightarrow> f \<in> set (queue t) \<and> persisted t = [])"
proof -
  have "dead (late_push f) \<and> drain (late_push f) = Flushed False \<and> accepted (late_push f) = [f]
      \<and> queue (late_push f) = [f] \<and> persisted (late_push f) = []"
    by (simp add: late_push_def dead_def finished_def queue_ops started numeral_2_eq_2 numeral_3_eq_3)
  then show ?thesis using late_push_reachable dead_run [of "late_push f"] by auto
qed

theorem late_push_lost_witness: "\<exists>s. reachable s \<and> drain s = Flushed False \<and> no_frame \<in> set (queue s)"
  using late_push_lost [of no_frame] by (meson rtranclp.rtrancl_refl)

end
