(* ===== verification/TcpIngest.thy ===== *)
theory TcpIngest
  imports Gt06 Teltonika Ais140 AsyncQueue
begin

text \<open>
  One connection of the telemetry TCP server (\<open>handleConnection\<close> in \<open>internal/telemetry/tcp_ingest.go\<close>):
  the protocol is detected per read, frames go to \<open>IngestAsync\<close> (\<open>internal/telemetry/ingest.go\<close>), and the
  device gets an acknowledgement. A session keeps the IMEI of its device and the history of what it
  did; \<open>ingest\<close> tells, given that history, whether the next call of \<open>IngestAsync\<close> returns nil, so that
  it stands for anything the queue, the database and the other connections do in between.
\<close>

section \<open>Ingestion\<close>

text \<open>
  \<open>IngestAsync\<close>, with the queue (if one is attached) and the result of \<open>IngestRawFrame\<close> on the frame.
\<close>

definition Push :: "RawFrame \<Rightarrow> queue_state \<Rightarrow> queue_state \<times> bool" where
  "Push f q =
     (let q1 = push_check f q
      in if closed q then (q1, False) else (push_send f q1, length (queue q) < capacity q))"

definition IngestAsync :: "bool \<Rightarrow> queue_state option \<Rightarrow> RawFrame \<Rightarrow> queue_state option \<times> bool" where
  "IngestAsync raw_ok q f =
     (case q of
        None \<Rightarrow> (None, raw_ok)
      | Some q \<Rightarrow> (case Push f q of (q', pushed) \<Rightarrow> (Some q', if \<not> pushed then raw_ok else True)))"

section \<open>Sessions\<close>

datatype tcp_event = Ingest RawFrame bool | Write bytes

record session =
  sessionIMEI :: gostring
  events :: "tcp_event list"

definition new_session :: session where
  "new_session = \<lparr>sessionIMEI = '''', events = []\<rparr>"

definition ingest_frame :: "(tcp_event list \<Rightarrow> RawFrame \<Rightarrow> bool) \<Rightarrow> RawFrame \<Rightarrow> session \<Rightarrow> session \<times> bool" where
  "ingest_frame ingest f s =
     (let ok = ingest (events s) f in (s\<lparr>events := events s @ [Ingest f ok]\<rparr>, ok))"

text \<open>\<open>if len(ack) > 0 { conn.Write(ack) }\<close>; a failed write is only logged.\<close>

definition write_ack :: "bytes \<Rightarrow> session \<Rightarrow> session" where
  "write_ack ack s = (if ack \<noteq> [] then s\<lparr>events := events s @ [Write ack]\<rparr> else s)"

definition identify :: "gostring \<Rightarrow> session \<Rightarrow> session" where
  "identify imei s = (if imei \<noteq> '''' then s\<lparr>sessionIMEI := imei\<rparr> else s)"

definition handle_ais140 :: "(tcp_event list \<Rightarrow> RawFrame \<Rightarrow> bool) \<Rightarrow> gotime \<Rightarrow> bytes \<Rightarrow> session \<Rightarrow> session go" where
  "handle_ais140 ingest now packet s =
     (case DecodeAIS140Packet now (text_of packet) of
        Panics \<Rightarrow> Panics
      | Fails err \<Rightarrow> Returns s
      | Returns frame \<Rightarrow>
          Returns (if IMEI frame \<noteq> '''' then fst (ingest_frame ingest frame (s\<lparr>sessionIMEI := IMEI frame\<rparr>)) else s))"

text \<open>The records of a data packet; the count is of those accepted.\<close>

fun ingest_all :: "(tcp_event list \<Rightarrow> RawFrame \<Rightarrow> bool) \<Rightarrow> RawFrame list \<Rightarrow> session \<Rightarrow> nat \<Rightarrow> session \<times> nat" where
  "ingest_all ingest [] s n = (s, n)"
| "ingest_all ingest (f # fs) s n =
     (if IMEI f \<noteq> ''''
      then case ingest_frame ingest f s of (s', ok) \<Rightarrow> ingest_all ingest fs s' (if ok then n + 1 else n)
      else ingest_all ingest fs s n)"

definition handle_teltonika ::
  "(tcp_event list \<Rightarrow> RawFrame \<Rightarrow> bool) \<Rightarrow> TeltonikaDecodedResult \<Rightarrow> session \<Rightarrow> session" where
  "handle_teltonika ingest res s =
     (let s = identify (tel_IMEI res) s
      in if IsHandshake res then write_ack (tel_ACK res) s
         else case ingest_all ingest (tel_Frames res) s 0 of
                (s, k) \<Rightarrow>
                  write_ack (if int k < RecordCount res then [0, 0, 0, of_nat k] else tel_ACK res) s)"

definition handle_gt06 :: "(tcp_event list \<Rightarrow> RawFrame \<Rightarrow> bool) \<Rightarrow> gotime \<Rightarrow> bytes \<Rightarrow> session \<Rightarrow> session go" where
  "handle_gt06 ingest now packet s =
     (case ParseGT06Packet now packet (sessionIMEI s) of
        Panics \<Rightarrow> Panics
      | Fails err \<Rightarrow> Returns s
      | Returns res \<Rightarrow>
          let s = identify (gt_IMEI res) s
          in case gt_Frame res of
               None \<Rightarrow> Returns (write_ack (gt_ACK res) s)
             | Some f \<Rightarrow>
                 if IMEI f = '''' then Returns (write_ack (gt_ACK res) s)
                 else case ingest_frame ingest f s of
                        (s, ok) \<Rightarrow> if \<not> ok then Returns s else Returns (write_ack (gt_ACK res) s))"

definition handle_packet :: "(tcp_event list \<Rightarrow> RawFrame \<Rightarrow> bool) \<Rightarrow> gotime \<Rightarrow> bytes \<Rightarrow> session \<Rightarrow> session go" where
  "handle_packet ingest now packet s =
     (if packet = [] then Returns s
      else
        go_then (byte_at packet 0) (\<lambda>b0.
          if b0 = 0x24 then handle_ais140 ingest now packet s
          else if 2 \<le> length packet \<and> b0 = 0x00
          then (case ParseTeltonikaPacket now packet (sessionIMEI s) of
                  Panics \<Rightarrow> Panics
                | Fails err \<Rightarrow> handle_gt06 ingest now packet s
                | Returns res \<Rightarrow> Returns (handle_teltonika ingest res s))
          else handle_gt06 ingest now packet s))"

text \<open>The loop: the packets read, each with its time, until a read fails or the server stops.\<close>

fun handleConnection ::
  "(tcp_event list \<Rightarrow> RawFrame \<Rightarrow> bool) \<Rightarrow> (gotime \<times> bytes) list \<Rightarrow> session \<Rightarrow> session go" where
  "handleConnection ingest [] s = Returns s"
| "handleConnection ingest ((now, packet) # reads) s =
     go_then (handle_packet ingest now packet s) (handleConnection ingest reads)"

section \<open>What an acknowledgement promises\<close>

fun is_accepted :: "tcp_event \<Rightarrow> bool" where
  "is_accepted (Ingest f ok) \<longleftrightarrow> ok"
| "is_accepted (Write b) \<longleftrightarrow> False"

fun is_write :: "tcp_event \<Rightarrow> bool" where
  "is_write (Write b) \<longleftrightarrow> True"
| "is_write (Ingest f ok) \<longleftrightarrow> False"

lemma session_eqs [simp]:
  "events (identify i s) = events s" "sessionIMEI (write_ack a s) = sessionIMEI s"
  by (simp_all add: identify_def write_ack_def)

lemma ingest_all_events:
  "case ingest_all ingest fs s n of (s', k) \<Rightarrow> sessionIMEI s' = sessionIMEI s \<and>
     (\<exists>new. events s' = events s @ new \<and> filter is_write new = []
        \<and> k = n + length (filter is_accepted new) \<and> k \<le> n + length fs)"
proof (induction fs arbitrary: s n)
  case (Cons f fs)
  show ?case
  proof (cases "IMEI f \<noteq> ''''")
    case True
    define ok where "ok = ingest (events s) f"
    let ?s = "s\<lparr>events := events s @ [Ingest f ok]\<rparr>" and ?n = "if ok then n + 1 else n"
    obtain s' k where r: "ingest_all ingest fs ?s ?n = (s', k)" by (cases "ingest_all ingest fs ?s ?n")
    obtain new where new: "events s' = events ?s @ new" "filter is_write new = []"
      "k = ?n + length (filter is_accepted new)" "k \<le> ?n + length fs" "sessionIMEI s' = sessionIMEI s"
      using Cons.IH [of ?s ?n] r by (auto simp del: append_assoc)
    have "ingest_all ingest (f # fs) s n = (s', k)"
      using True r by (simp add: ingest_frame_def ok_def Let_def)
    then show ?thesis
      using new by (intro case_prodI2) (auto intro!: exI [of _ "Ingest f ok # new"])
  next
    case False
    then show ?thesis using Cons.IH [of s n] by (auto split: prod.splits)
  qed
qed simp

text \<open>
  A data packet of Teltonika is answered by the number of its records that were accepted, in four
  bytes.
\<close>

theorem teltonika_ack_counts:
  assumes "ParseTeltonikaPacket now packet imei = Returns res" and "\<not> IsHandshake res"
  shows "\<exists>new k. events (handle_teltonika ingest res s) = events s @ new @ [Write [0, 0, 0, of_nat k]]
     \<and> k = length (filter is_accepted new) \<and> k \<le> length (tel_Frames res) \<and> filter is_write new = []"
proof -
  let ?s = "identify (tel_IMEI res) s"
  have fine: "int (length (tel_Frames res)) = RecordCount res" "tel_ACK res = [0, 0, 0, word_of_int (RecordCount res)]"
    using teltonika_fine [of imei now packet] assms by (simp_all add: tel_fine_def)
  obtain s' k where r: "ingest_all ingest (tel_Frames res) ?s 0 = (s', k)"
    by (cases "ingest_all ingest (tel_Frames res) ?s 0")
  obtain new where new: "events s' = events s @ new" "filter is_write new = []"
    "k = length (filter is_accepted new)" "k \<le> length (tel_Frames res)"
    using ingest_all_events [where ingest = ingest and fs = "tel_Frames res" and s = ?s and n = 0] r by auto
  have "(if int k < RecordCount res then [0, 0, 0, of_nat k] else tel_ACK res) = [0, 0, 0, of_nat k :: uint8]"
    using fine new(4) by (auto simp: fine(1) [symmetric])
  then have "events (handle_teltonika ingest res s) = events s @ new @ [Write [0, 0, 0, of_nat k]]"
    using assms(2) r new(1) by (simp add: handle_teltonika_def write_ack_def)
  then show ?thesis using new by blast
qed

theorem teltonika_ack_counts_witness:
  "\<exists>res new. ParseTeltonikaPacket 0 (BuildTeltonikaCodec8Packet [sample_record]) ''356307042441013'' = Returns res
     \<and> length (tel_Frames res) = 1
     \<and> events (handle_teltonika (\<lambda>_ _. False) res new_session) = new @ [Write [0, 0, 0, 0]]"
proof -
  let ?s = "''356307042441013''"
  obtain res where res: "ParseTeltonikaPacket 0 (BuildTeltonikaCodec8Packet [sample_record]) ?s = Returns res"
    "\<not> IsHandshake res" "tel_Frames res = [record_frame ?s sample_record]"
    using sample_packet by auto
  have none: "filter is_accepted new = []"
    if "events (handle_teltonika (\<lambda>_ _. False) res new_session) = events new_session @ new @ [Write w]" for new w
  proof -
    have "filter is_accepted (events (handle_teltonika (\<lambda>_ _. False) res new_session)) = []"
      using res(3) by (simp add: handle_teltonika_def ingest_frame_def write_ack_def new_session_def identify_def
          record_frame_def Let_def)
    then show ?thesis unfolding that by simp
  qed
  show ?thesis
    using teltonika_ack_counts [OF res(1,2), of "\<lambda>_ _. False" new_session] none res
    by (auto simp: new_session_def)
qed

lemma gt06_frame_of_session:
  assumes "ParseGT06Packet now packet imei = Returns res" and "gt_Frame res = Some f"
  shows "IMEI f = imei \<and> gt_IMEI res = imei"
  using gt06_fine_result [of imei now packet] assms by (simp add: gt06_fine_def)

text \<open>
  C21: a GT06 data packet of an identified device leads to one call of \<open>IngestAsync\<close>, and is
  acknowledged exactly if that accepted the frame (and the packet type has an acknowledgement).
\<close>

theorem gt06_ack_after_acceptance:
  assumes "sessionIMEI s \<noteq> ''''" and "ParseGT06Packet now packet (sessionIMEI s) = Returns res"
    and "gt_Frame res = Some f"
  shows "handle_gt06 ingest now packet s
     = Returns (s\<lparr>events := events s @ Ingest f (ingest (events s) f)
         # (if ingest (events s) f \<and> gt_ACK res \<noteq> [] then [Write (gt_ACK res)] else [])\<rparr>)"
  using assms gt06_frame_of_session [OF assms(2,3)]
  by (simp add: handle_gt06_def ingest_frame_def identify_def write_ack_def Let_def)

theorem gt06_ack_after_acceptance_witness:
  "\<exists>f. handle_gt06 (\<lambda>_ _. False) 0 (gt06_packet 0x12 (replicate 18 0) 2 0x1234) \<lparr>sessionIMEI = ''86'', events = []\<rparr>
     = Returns \<lparr>sessionIMEI = ''86'', events = [Ingest f False]\<rparr>"
proof -
  obtain f where "ParseGT06Packet 0 (gt06_packet 0x12 (replicate 18 0) 2 0x1234) ''86''
     = Returns \<lparr>gt_Frame = Some f, ProtocolType = 0x12, SerialNumber = 0x1234, gt_ACK = buildGT06ACK 0x12 0x1234, gt_IMEI = ''86''\<rparr>"
    using gt06_serial_is_crc [where content = "replicate 18 0" and p = "0x12" and serial = 2 and crc = "0x1234" and now = 0 and s = "''86''"]
    by auto
  then show ?thesis
    using gt06_ack_after_acceptance [where s = "\<lparr>sessionIMEI = ''86'', events = []\<rparr>" and now = 0
        and packet = "gt06_packet 0x12 (replicate 18 0) 2 0x1234" and ingest = "\<lambda>_ _. False"]
    by simp
qed

text \<open>
  Before a login the frame carries no IMEI: the packet is acknowledged all the same, and its
  position reaches no one.
\<close>

theorem gt06_unidentified_acked:
  assumes "sessionIMEI s = ''''" and "ParseGT06Packet now packet '''' = Returns res"
    and "gt_Frame res = Some f" and "gt_ACK res \<noteq> []"
  shows "handle_gt06 ingest now packet s = Returns (s\<lparr>events := events s @ [Write (gt_ACK res)]\<rparr>)"
  using assms gt06_frame_of_session [OF assms(2,3)]
  by (simp add: handle_gt06_def identify_def write_ack_def Let_def)

section \<open>A connection never panics\<close>

lemma find_index_ok: "find_index p xs = Some i \<Longrightarrow> i < length xs" by (rule find_index_SomeD)

lemma ais140_total: "DecodeAIS140Packet now raw \<noteq> Panics"
  by (auto simp: DecodeAIS140Packet_def ais_body_def ais_fields_def Let_def go_then_Panics split: option.splits)

text \<open>A step extends the history, and an identified session stays identified.\<close>

definition extends :: "session \<Rightarrow> session \<Rightarrow> bool" where
  "extends s t \<longleftrightarrow> (\<exists>new. events t = events s @ new) \<and> (sessionIMEI s \<noteq> '''' \<longrightarrow> sessionIMEI t \<noteq> '''')"

lemma extends_refl [simp]: "extends s s"
  by (simp add: extends_def)

lemma extends_trans: "extends s t \<Longrightarrow> extends t u \<Longrightarrow> extends s u"
  by (auto simp: extends_def)

lemma extends_ops [simp]:
  "extends s (identify i s)" "extends s (write_ack a s)" "extends s (fst (ingest_frame ingest f s))"
  by (simp_all add: extends_def identify_def write_ack_def ingest_frame_def Let_def)

lemma extends_teltonika: "extends s (handle_teltonika ingest res s)"
proof -
  let ?s = "identify (tel_IMEI res) s"
  obtain s' k where r: "ingest_all ingest (tel_Frames res) ?s 0 = (s', k)"
    by (cases "ingest_all ingest (tel_Frames res) ?s 0")
  have "extends ?s s'"
    using ingest_all_events [where ingest = ingest and fs = "tel_Frames res" and s = ?s and n = 0] r
    by (auto simp: extends_def)
  then have "extends s (write_ack a s')" for a by (metis extends_trans extends_ops(1,2))
  moreover have "extends s (write_ack a ?s)" for a by (metis extends_trans extends_ops(1,2))
  ultimately show ?thesis by (simp add: handle_teltonika_def r Let_def)
qed

lemma extends_gt06: "\<exists>t. handle_gt06 ingest now packet s = Returns t \<and> extends s t"
proof (cases "ParseGT06Packet now packet (sessionIMEI s)")
  case (Returns res)
  have w: "extends s (write_ack a (identify i s))" for a i by (metis extends_trans extends_ops(1,2))
  have i: "extends s (fst (ingest_frame ingest f (identify i s)))" for f i by (metis extends_trans extends_ops(1,3))
  then have "extends s (write_ack a (fst (ingest_frame ingest f (identify i s))))" for a f i
    by (metis extends_trans extends_ops(2))
  with w i show ?thesis
    by (auto simp: handle_gt06_def Returns Let_def split: option.splits prod.splits) (metis fst_conv)+
qed (use gt06_fine_result [of "sessionIMEI s" now packet] in \<open>simp_all add: handle_gt06_def gt06_fine_def\<close>)

lemma extends_ais140: "\<exists>t. handle_ais140 ingest now packet s = Returns t \<and> extends s t"
proof (cases "DecodeAIS140Packet now (text_of packet)")
  case (Returns f)
  have "extends s (fst (ingest_frame ingest f (s\<lparr>sessionIMEI := IMEI f\<rparr>)))" if "IMEI f \<noteq> ''''"
    using that by (simp add: extends_def ingest_frame_def Let_def)
  then show ?thesis by (simp add: handle_ais140_def Returns)
qed (use ais140_total in \<open>simp_all add: handle_ais140_def\<close>)

lemma extends_packet: "\<exists>t. handle_packet ingest now packet s = Returns t \<and> extends s t"
proof (cases "packet = []")
  case False
  then show ?thesis
    using extends_gt06 extends_ais140 extends_teltonika teltonika_fine [of "sessionIMEI s" now packet]
    by (auto simp: handle_packet_def tel_fine_def split: go.splits)
qed (simp add: handle_packet_def)

text \<open>
  C20: no sequence of packets makes a connection panic: the handler returns, the history of the
  session only grows, and a session that knows its device keeps knowing it.
\<close>

theorem connection_total: "\<exists>t. handleConnection ingest reads s = Returns t \<and> extends s t"
proof (induction reads arbitrary: s)
  case (Cons r reads)
  obtain now packet where r: "r = (now, packet)" by (cases r)
  obtain t where "handle_packet ingest now packet s = Returns t" "extends s t"
    using extends_packet by blast
  then show ?case using Cons.IH [of t] extends_trans by (auto simp: r)
qed simp

section \<open>One read is one packet\<close>

text \<open>What follows a login in the same read is dropped.\<close>

theorem coalesced_login:
  assumes "length imei = 15" and "\<forall>c \<in> set imei. is_digit c"
  shows "handle_packet ingest now (gt06_packet 0x01 (bcd (CHR ''0'' # imei)) serial crc @ rest) s
     = Returns (s\<lparr>sessionIMEI := imei, events := events s @ [Write (buildGT06ACK 0x01 serial)]\<rparr>)"
proof -
  have "imei \<noteq> ''''" "buildGT06ACK 0x01 serial \<noteq> []"
    using assms(1) length_ACK [of "0x01" serial] by (auto simp del: length_ACK)
  then show ?thesis
    using gt06_login_prefix [OF assms, where now = now and serial = serial and crc = crc and rest = rest and s = "sessionIMEI s"]
    by (simp add: handle_packet_def handle_gt06_def gt06_packet_def identify_def write_ack_def Let_def)
qed

section \<open>Returning nil\<close>

text \<open>
  \<open>IngestAsync\<close> returns nil only when \<open>IngestRawFrame\<close> did or the queue took the frame; a full or
  closed queue falls back to \<open>IngestRawFrame\<close>, and its calls are steps of the queue.
\<close>

lemma Push_result:
  assumes "Push f q = (q', ok)"
  shows "queue_step\<^sup>*\<^sup>* q q'" and "accepted q' = (if ok then f # accepted q else accepted q)"
proof -
  have open': "f \<in> set (pushing (push_check f q))" if "\<not> closed q" using that by (simp add: push_check_def)
  show "queue_step\<^sup>*\<^sup>* q q'"
  proof (cases "closed q")
    case True
    then have "q' = push_check f q" using assms by (simp add: Push_def)
    then show ?thesis using call [of q f] by simp
  next
    case False
    then have "q' = push_send f (push_check f q)" using assms by (simp add: Push_def)
    then show ?thesis using call [of q f] inner [OF send [OF open' [OF False]]]
      by (metis rtranclp.rtrancl_refl rtranclp.rtrancl_into_rtrancl)
  qed
  show "accepted q' = (if ok then f # accepted q else accepted q)"
    using assms by (auto simp: Push_def push_check_def push_send_def Let_def split: if_splits)
qed

lemma IngestAsync_nil:
  "IngestAsync raw_ok q f = (q', True) \<Longrightarrow>
     raw_ok \<or> (\<exists>p p'. q = Some p \<and> q' = Some p' \<and> queue_step\<^sup>*\<^sup>* p p' \<and> accepted p' = f # accepted p)"
  using Push_result by (auto simp: IngestAsync_def split: option.splits prod.splits if_splits)

end
