(* ===== verification/Leader.thy ===== *)
theory Leader
  imports Prelude
begin

text \<open>
  The lease lock that elects one replica per background worker (\<open>internal/leader/leader.go\<close>): the rows
  of \<open>worker_leases\<close>, the upsert that claims or renews one, and the fleet of replicas running
  \<open>RunAsLeader\<close> as a step relation. Times are milliseconds of one clock.
\<close>

section \<open>Leases\<close>

text \<open>A row: its holder and its expiry.\<close>

type_synonym leases = "gostring \<rightharpoonup> gostring \<times> int"

definition DefaultTTL :: int where
  "DefaultTTL = 30 * 1000"

text \<open>\<open>NewManager\<close>: the time to live, in milliseconds.\<close>

definition manager_ttl :: "int \<Rightarrow> int" where
  "manager_ttl ttl = (if ttl \<le> 0 then DefaultTTL else ttl)"

text \<open>
  The upsert: it inserts a missing row; on a conflict it updates when the row has expired or is the
  caller's own, and otherwise affects no row.
\<close>

definition tryAcquire :: "int \<Rightarrow> int \<Rightarrow> gostring \<Rightarrow> gostring \<Rightarrow> leases \<Rightarrow> leases \<times> bool" where
  "tryAcquire ttl now holder name ls =
     (let expiry = now + ttl
      in case ls name of
           None \<Rightarrow> (ls(name \<mapsto> (holder, expiry)), True)
         | Some (h, e) \<Rightarrow>
             if e < now \<or> h = holder then (ls(name \<mapsto> (holder, expiry)), True) else (ls, False))"

definition Release :: "gostring \<Rightarrow> gostring \<Rightarrow> leases \<Rightarrow> leases" where
  "Release holder name ls =
     (case ls name of Some (h, e) \<Rightarrow> if h = holder then ls(name := None) else ls | None \<Rightarrow> ls)"

section \<open>The fleet\<close>

text \<open>
  A replica runs a worker with the expiry of its last successful claim; \<open>Lost\<close> is a run whose
  context was cancelled because a renewal failed, and which has not returned yet.
\<close>

datatype phase = Idle | Running int | Lost int

record fleet =
  time :: int
  leases :: leases
  phase :: "gostring \<times> gostring \<Rightarrow> phase"

definition new_fleet :: "int \<Rightarrow> leases \<Rightarrow> fleet" where
  "new_fleet t ls = \<lparr>time = t, leases = ls, phase = (\<lambda>_. Idle)\<rparr>"

text \<open>The claim before a run, repeated until it wins; a failing statement changes nothing.\<close>

definition claim :: "int \<Rightarrow> gostring \<Rightarrow> gostring \<Rightarrow> fleet \<Rightarrow> fleet" where
  "claim ttl name holder s =
     (case tryAcquire ttl (time s) holder name (leases s) of
        (ls, won) \<Rightarrow>
          if won then s\<lparr>leases := ls, phase := (phase s)((name, holder) := Running (time s + ttl))\<rparr> else s)"

text \<open>A tick of the renewal loop; \<open>err\<close> tells that the statement failed.\<close>

definition renew :: "bool \<Rightarrow> int \<Rightarrow> gostring \<Rightarrow> gostring \<Rightarrow> fleet \<Rightarrow> fleet" where
  "renew err ttl name holder s =
     (case phase s (name, holder) of
        Running e \<Rightarrow>
          (case (if err then (leases s, False) else tryAcquire ttl (time s) holder name (leases s)) of
             (ls, won) \<Rightarrow>
               if won then s\<lparr>leases := ls, phase := (phase s)((name, holder) := Running (time s + ttl))\<rparr>
               else s\<lparr>phase := (phase s)((name, holder) := Lost e)\<rparr>)
      | _ \<Rightarrow> s)"

text \<open>The worker returns or panics, and the deferred release runs (or fails).\<close>

definition return :: "bool \<Rightarrow> gostring \<Rightarrow> gostring \<Rightarrow> fleet \<Rightarrow> fleet" where
  "return err name holder s =
     s\<lparr>leases := (if err then leases s else Release holder name (leases s)),
       phase := (phase s)((name, holder) := Idle)\<rparr>"

definition crash :: "gostring \<Rightarrow> gostring \<Rightarrow> fleet \<Rightarrow> fleet" where
  "crash name holder s = s\<lparr>phase := (phase s)((name, holder) := Idle)\<rparr>"

inductive fleet_step :: "int \<Rightarrow> fleet \<Rightarrow> fleet \<Rightarrow> bool" for ttl where
  tick: "0 \<le> d \<Longrightarrow> fleet_step ttl s (s\<lparr>time := time s + d\<rparr>)"
| start: "phase s (name, holder) = Idle \<Longrightarrow> fleet_step ttl s (claim ttl name holder s)"
| keep: "fleet_step ttl s (renew err ttl name holder s)"
| stop: "phase s (name, holder) \<noteq> Idle \<Longrightarrow> fleet_step ttl s (return err name holder s)"
| fall: "fleet_step ttl s (crash name holder s)"

inductive_cases fleet_stepE: "fleet_step ttl s t"

section \<open>Mutual exclusion\<close>

text \<open>A replica's claim holds: it is running a worker and the claim has not expired.\<close>

definition holds_lease :: "fleet \<Rightarrow> gostring \<Rightarrow> gostring \<Rightarrow> bool" where
  "holds_lease s name holder \<longleftrightarrow>
     (case phase s (name, holder) of Idle \<Rightarrow> False | Running e \<Rightarrow> time s \<le> e | Lost e \<Rightarrow> time s \<le> e)"

text \<open>An unexpired claim is the row of the table.\<close>

definition backed :: "fleet \<Rightarrow> bool" where
  "backed s \<longleftrightarrow> (\<forall>name holder e. phase s (name, holder) \<in> {Running e, Lost e} \<and> time s \<le> e
     \<longrightarrow> leases s name = Some (holder, e))"

lemma tryAcquire_cases:
  assumes "tryAcquire ttl now holder name ls = (ls', won)"
  shows "won \<longleftrightarrow> (\<forall>h e. ls name = Some (h, e) \<longrightarrow> e < now \<or> h = holder)"
    and "ls' = (if won then ls(name \<mapsto> (holder, now + ttl)) else ls)"
  using assms by (auto simp: tryAcquire_def Let_def split: option.splits prod.splits if_splits)

lemma backed_claim:
  assumes "backed s" and "tryAcquire ttl (time s) holder name (leases s) = (ls, True)"
  shows "backed (s\<lparr>leases := ls, phase := (phase s)((name, holder) := Running (time s + ttl))\<rparr>)"
proof -
  note won = tryAcquire_cases [OF assms(2), simplified]
  show ?thesis
    unfolding backed_def
  proof (intro allI impI)
    fix n h e
    let ?s = "s\<lparr>leases := ls, phase := (phase s)((name, holder) := Running (time s + ttl))\<rparr>"
    assume p: "phase ?s (n, h) \<in> {Running e, Lost e} \<and> time ?s \<le> e"
    show "leases ?s n = Some (h, e)"
    proof (cases "(n, h) = (name, holder)")
      case True
      then show ?thesis using p won(2) by auto
    next
      case False
      then have "leases s n = Some (h, e)" using p assms(1) by (auto simp: backed_def)
      moreover from this have "n \<noteq> name" using won(1) p False by fastforce
      ultimately show ?thesis using won(2) by simp
    qed
  qed
qed

lemma backed_step: "fleet_step ttl s t \<Longrightarrow> backed s \<Longrightarrow> backed t"
proof (induction rule: fleet_step.induct)
  case (tick d s)
  then show ?case by (auto simp: backed_def)
next
  case (start s name holder)
  then show ?case
    using backed_claim [of s ttl holder name]
    by (cases "tryAcquire ttl (time s) holder name (leases s)") (auto simp: claim_def)
next
  case (keep s err name holder)
  show ?case
  proof (cases "phase s (name, holder)")
    case (Running e)
    have lost: "backed (s\<lparr>phase := (phase s)((name, holder) := Lost e)\<rparr>)"
      using keep Running by (auto simp: backed_def)
    then show ?thesis
      using keep Running backed_claim [of s ttl holder name]
      by (cases "tryAcquire ttl (time s) holder name (leases s)") (auto simp: renew_def)
  qed (use keep in \<open>simp_all add: renew_def\<close>)
next
  case (stop s name holder err)
  have "Release holder name ls n = Some (h, e)" if "ls n = Some (h, e)" "(n, h) \<noteq> (name, holder)" for ls n h e
    using that by (auto simp: Release_def split: option.splits)
  then show ?case using stop by (auto simp: return_def backed_def)
next
  case (fall s name holder)
  then show ?case by (auto simp: crash_def backed_def)
qed

lemma backed_run: "(fleet_step ttl)\<^sup>*\<^sup>* (new_fleet t0 ls) s \<Longrightarrow> backed s"
proof (induction rule: rtranclp_induct)
  case base
  show ?case by (simp add: backed_def new_fleet_def)
next
  case (step s t)
  then show ?case by (blast intro: backed_step)
qed

text \<open>
  C26: whatever the replicas do, at most one of them holds an unexpired claim on a worker, no other can
  claim it, and its own renewals go through when the database does not fail: a replica that renews
  in time runs the worker alone.
\<close>

theorem one_leader:
  assumes "(fleet_step ttl)\<^sup>*\<^sup>* (new_fleet t0 ls) s" and "holds_lease s name h"
  shows "(\<forall>h'. holds_lease s name h' \<longrightarrow> h' = h) \<and> (\<forall>h'. h' \<noteq> h \<longrightarrow> claim ttl name h' s = s)
    \<and> (\<forall>e. phase s (name, h) = Running e \<longrightarrow> phase (renew False ttl name h s) (name, h) = Running (time s + ttl))"
proof -
  have row: "\<exists>e. leases s name = Some (g, e) \<and> time s \<le> e" if "holds_lease s name g" for g
    using backed_run [OF assms(1)] that by (auto simp: holds_lease_def backed_def split: phase.splits)
  obtain e where e: "leases s name = Some (h, e)" "time s \<le> e" using row [OF assms(2)] by blast
  have "h' = h" if "holds_lease s name h'" for h' using row [OF that] e by auto
  moreover have "claim ttl name h' s = s" if "h' \<noteq> h" for h'
    using that e by (simp add: claim_def tryAcquire_def Let_def)
  moreover have "phase (renew False ttl name h s) (name, h) = Running (time s + ttl)" if "phase s (name, h) = Running e'" for e'
    using that e by (simp add: renew_def tryAcquire_def Let_def)
  ultimately show ?thesis by blast
qed

lemma start_fleet:
  assumes "claim ttl name h (new_fleet t0 Map.empty) = s"
  shows "(fleet_step ttl)\<^sup>*\<^sup>* (new_fleet t0 Map.empty) s" and "phase s = (\<lambda>_. Idle)((name, h) := Running (t0 + ttl))"
    and "leases s = [name \<mapsto> (h, t0 + ttl)]" and "time s = t0"
  using assms fleet_step.start [of "new_fleet t0 Map.empty" name h ttl]
  by (auto simp: claim_def tryAcquire_def new_fleet_def Let_def)

theorem one_leader_witness:
  "claim 30000 ''sweeper'' ''b'' (claim 30000 ''sweeper'' ''a'' (new_fleet 5 Map.empty))
     = claim 30000 ''sweeper'' ''a'' (new_fleet 5 Map.empty)"
proof -
  define s where "s = claim 30000 ''sweeper'' ''a'' (new_fleet 5 Map.empty)"
  note st = start_fleet [OF s_def [symmetric]]
  have "holds_lease s ''sweeper'' ''a''" by (simp add: holds_lease_def st(2,4))
  then show ?thesis using one_leader [OF st(1)] by (simp add: s_def)
qed

text \<open>When a replica has died, its row can be claimed as soon as it has expired.\<close>

lemma failover: "ls name = Some (h, e) \<Longrightarrow> e < now \<Longrightarrow> tryAcquire ttl now h' name ls = (ls(name \<mapsto> (h', now + ttl)), True)"
  by (simp add: tryAcquire_def Let_def)

text \<open>
  A replica that does not get to renew before its claim expires goes on running the worker while
  another one starts: only its next renewal tells it.
\<close>

lemma leader_overlap:
  assumes "0 \<le> ttl"
  shows "\<exists>s. (fleet_step ttl)\<^sup>*\<^sup>* (new_fleet t0 Map.empty) s \<and> phase s (name, ''a'') = Running (t0 + ttl)
    \<and> phase s (name, ''b'') = Running (t0 + ttl + 1 + ttl)"
proof -
  define s where "s = claim ttl name ''a'' (new_fleet t0 Map.empty)"
  note st = start_fleet [OF s_def [symmetric]]
  define u where "u = s\<lparr>time := time s + (ttl + 1)\<rparr>"
  have "fleet_step ttl s u" unfolding u_def using assms by (intro tick) simp
  moreover have "fleet_step ttl u (claim ttl name ''b'' u)" by (intro start) (simp add: u_def st(2))
  ultimately have "(fleet_step ttl)\<^sup>*\<^sup>* (new_fleet t0 Map.empty) (claim ttl name ''b'' u)" using st(1) by auto
  moreover have "phase (claim ttl name ''b'' u) (name, ''a'') = Running (t0 + ttl)
      \<and> phase (claim ttl name ''b'' u) (name, ''b'') = Running (t0 + ttl + 1 + ttl)"
    by (simp add: claim_def tryAcquire_def u_def st(2-4) Let_def)
  ultimately show ?thesis by blast
qed

end
