(* ===== verification/IngestStore.thy ===== *)
theory IngestStore
  imports Frames Along GoText "HOL-Library.List_Lexorder" "HOL-Library.Char_ord"
begin

text \<open>
  The tables of the telemetry ingestion and the statements on them
  (\<open>internal/telemetry/device_store.go\<close>, \<open>quarantine.go\<close>, \<open>odometer_guard.go\<close> and the inserts of
  \<open>ingest.go\<close>), with the outbox writer (\<open>internal/shared/outbox/outbox.go\<close>). A table is the list of
  its rows in insertion order. The uniqueness, foreign key, NOT NULL and CHECK constraints of
  \<open>db/schema.sql\<close> the rows can meet are part of the statements; the engine is SQLite, which stores
  a NaN as NULL. Rows that carry JSON hold the value that was marshalled. Device times are compared
  as the text the driver writes.
\<close>

section \<open>Stored instants\<close>

text \<open>
  The driver writes an instant as \<open>String\<close> prints it: the wall clock of its location, then the offset
  and the name of the location. SQLite orders the texts: for years of four digits that is first by the
  wall clock, fractions of seconds included, then by the text of the location.
\<close>

datatype db_time = DbTime (db_wall: gotime) (db_zone: gostring)

definition digit_at :: "gostring \<Rightarrow> nat \<Rightarrow> int" where
  "digit_at z i = (case dec_digit (z ! i) of None \<Rightarrow> 0 | Some n \<Rightarrow> int n)"

text \<open>Seconds east of UTC, of a text such as \<open>+0530 IST\<close>.\<close>

definition zone_offset :: "gostring \<Rightarrow> int" where
  "zone_offset z =
     (if length z < 5 then 0
      else (if z ! 0 = CHR ''-'' then -1 else 1)
        * (((digit_at z 1 * 10 + digit_at z 2) * 60 + digit_at z 3 * 10 + digit_at z 4) * 60))"

definition stored_at :: "gotime \<Rightarrow> gostring \<Rightarrow> db_time" where
  "stored_at t z = DbTime (t + zone_offset z * 1000000000) z"

definition instant :: "db_time \<Rightarrow> gotime" where
  "instant x = db_wall x - zone_offset (db_zone x) * 1000000000"

instantiation db_time :: linorder
begin

definition less_eq_db_time :: "db_time \<Rightarrow> db_time \<Rightarrow> bool" where
  "x \<le> y \<longleftrightarrow> db_wall x < db_wall y \<or> db_wall x = db_wall y \<and> db_zone x \<le> db_zone y"

definition less_db_time :: "db_time \<Rightarrow> db_time \<Rightarrow> bool" where
  "x < y \<longleftrightarrow> db_wall x < db_wall y \<or> db_wall x = db_wall y \<and> db_zone x < db_zone y"

instance
  by standard (auto simp: less_eq_db_time_def less_db_time_def intro: db_time.expand)

end

lemma instant_stored [simp]: "instant (stored_at t z) = t"
  by (simp add: instant_def stored_at_def)

text \<open>Of instants in one location the texts are ordered as the instants; else they need not be.\<close>

lemma same_zone_order: "db_zone x = db_zone y \<Longrightarrow> x < y \<longleftrightarrow> instant x < instant y"
  by (auto simp: less_db_time_def instant_def)

lemma zones_misordered:
  "stored_at t ''+0000 UTC'' < stored_at (t - 1000000000) ''+0530 +0530''"
  by (simp add: less_db_time_def stored_at_def zone_offset_def digit_at_def dec_digit_def)

section \<open>Tables\<close>

record DeviceRow =
  dev_ID :: gostring
  dev_TenantID :: gostring
  dev_IMEI :: gostring
  dev_SerialNumber :: "gostring option"
  dev_FirmwareVersion :: "gostring option"
  dev_SimNumber :: "gostring option"
  dev_ICCID :: "gostring option"
  dev_WarrantyUntil :: "gotime option"
  DeviceType :: gostring
  dev_Status :: gostring
  dev_VehicleID :: "gostring option"
  dev_CustomerID :: "gostring option"
  dev_ActivatedAt :: "gotime option"
  LastSeenAt :: "gotime option"
  dev_SecretHash :: "gostring option"
  dev_CreatedAt :: gotime
  dev_UpdatedAt :: gotime

record QuarantineEntry =
  q_ID :: gostring
  q_TenantID :: gostring
  q_IMEI :: gostring
  Source :: gostring
  q_RawPayload :: RawFrame
  Reason :: gostring
  q_Status :: gostring
  ResolvedBy :: "gostring option"
  ResolvedAt :: "gotime option"
  q_CreatedAt :: gotime

record RawEventRow =
  raw_ID :: gostring
  raw_TenantID :: gostring
  raw_IMEI :: gostring
  raw_MsgID :: "gostring option"
  raw_Payload :: RawFrame

text \<open>The columns \<open>telemetry_positions\<close> and \<open>vehicle_latest_position\<close> share.\<close>

record fix_columns =
  fix_TenantID :: gostring
  fix_IMEI :: gostring
  fix_DeviceTime :: db_time
  fix_ReceivedAt :: gotime
  fix_Latitude :: float64
  fix_Longitude :: float64
  fix_Speed :: "float64 option"
  fix_Heading :: "float64 option"
  fix_Ignition :: "bool option"
  fix_EngineHours :: "float64 option"
  fix_Accuracy :: "float64 option"
  fix_FuelLevel :: "float64 option"
  fix_Odometer :: "float64 option"
  fix_Satellites :: "int option"
  fix_Battery :: "float64 option"
  fix_Voltage :: "float64 option"
  fix_GSM :: "int option"
  fix_Motion :: "bool option"
  fix_Valid :: bool

record PositionRow = fix_columns +
  pos_ID :: gostring
  pos_FixTime :: "gotime option"
  pos_DriverID :: "gostring option"
  pos_TripID :: "gostring option"
  pos_VehicleID :: "gostring option"
  pos_Provider :: gostring
  pos_RawEventID :: gostring

record LatestRow = fix_columns +
  lat_DriverID :: gostring
  lat_TripID :: gostring

record SnapshotRow =
  snap_ID :: gostring
  snap_TripID :: "gostring option"
  snap_VehicleID :: "gostring option"
  Timestamp :: gotime
  snap_Latitude :: "float64 option"
  snap_Longitude :: "float64 option"
  snap_Speed :: "float64 option"
  snap_FuelLevel :: "float64 option"
  snap_Odometer :: "float64 option"
  snap_Heading :: "float64 option"
  snap_Ignition :: "bool option"
  snap_EngineHours :: "float64 option"
  snap_Accuracy :: "float64 option"
  snap_DriverID :: gostring

text \<open>Events, in the order of their fields; the text of an alert's details by what it is made of.\<close>

record Position_Event =
  pe_EventID :: gostring
  pe_TenantID :: gostring
  pe_DeviceIMEI :: gostring
  pe_VehicleID :: gostring
  pe_DriverID :: gostring
  pe_TripID :: gostring
  pe_Latitude :: float64
  pe_Longitude :: float64
  pe_Speed :: float64
  pe_Heading :: float64
  pe_Ignition :: "bool option"
  pe_EngineHours :: "float64 option"
  pe_Accuracy :: "float64 option"
  pe_FuelLevel :: "float64 option"
  pe_Odometer :: "float64 option"
  pe_DeviceTime :: gotime
  pe_ReceivedAt :: gotime

datatype alert_details = VoltageDropped float64 float64 gostring | BatteryDropped float64 float64 gostring
  | SignalDropped int int gostring

record Alert_Event =
  al_EventID :: gostring
  al_TenantID :: gostring
  al_DeviceIMEI :: gostring
  al_VehicleID :: gostring
  al_DriverID :: gostring
  AlertType :: gostring
  Severity :: gostring
  al_Latitude :: float64
  al_Longitude :: float64
  Details :: alert_details
  al_OccurredAt :: gotime

record SOS_Event =
  so_EventID :: gostring
  so_TenantID :: gostring
  so_DeviceIMEI :: gostring
  so_VehicleID :: gostring
  so_DriverID :: gostring
  so_Latitude :: float64
  so_Longitude :: float64
  so_OccurredAt :: gotime
  so_DeviceTime :: gotime

datatype telemetry_event = PositionEvent Position_Event | AlertEvent Alert_Event | SOSEvent SOS_Event

record OutboxRow =
  out_ID :: gostring
  out_AggregateID :: gostring
  out_AggregateType :: gostring
  out_EventType :: gostring
  out_Payload :: telemetry_event
  out_CreatedAt :: gotime

datatype audit_values = LastOdometer float64 | OdometerRollback float64 float64 float64
  | LastFuel float64 | FuelClamp float64 float64 float64

record AuditRow =
  au_ID :: gostring
  au_Action :: gostring
  au_TableName :: gostring
  au_RecordID :: gostring
  au_Old :: "audit_values option"
  au_New :: "audit_values option"
  au_TenantID :: gostring

record TripRow =
  trow_ID :: gostring
  trow_TenantID :: gostring
  trow_DriverID :: "gostring option"
  trow_VehicleID :: "gostring option"
  trow_Status :: gostring
  trow_Departure :: gotime

record DriverIdentity =
  drow_ID :: gostring
  drow_TenantID :: gostring
  drow_DriverID :: gostring
  drow_Email :: "gostring option"

record UserIdentity =
  urow_ID :: gostring
  urow_TenantID :: gostring
  urow_Email :: gostring

record ingest_db =
  devices :: "DeviceRow list"
  quarantined :: "QuarantineEntry list"
  raw_events :: "RawEventRow list"
  positions :: "PositionRow list"
  latest :: "gostring \<rightharpoonup> LatestRow"
  snapshots :: "SnapshotRow list"
  outbox :: "OutboxRow list"
  audit_logs :: "AuditRow list"
  trips :: "TripRow list"
  drivers :: "DriverIdentity list"
  users :: "UserIdentity list"
  vehicles :: "gostring list"

type_synonym 'a iact = "(ingest_db, 'a) act"

section \<open>Statements\<close>

text \<open>A value bound to a REAL column, and the texts \<open>nullStr\<close> makes NULL.\<close>

definition sql_real :: "float64 \<Rightarrow> float64 option" where
  "sql_real x = (if x = NaN then None else Some x)"

definition sql_real_opt :: "float64 option \<Rightarrow> float64 option" where
  "sql_real_opt x = (case x of None \<Rightarrow> None | Some v \<Rightarrow> sql_real v)"

definition nullStr :: "gostring \<Rightarrow> gostring option" where
  "nullStr s = (if s = '''' then None else Some s)"

definition validInt :: "bool option \<Rightarrow> bool" where
  "validInt v = (case v of None \<Rightarrow> True | Some b \<Rightarrow> b)"

text \<open>\<open>ORDER BY key DESC LIMIT 1\<close>; rows with the same key in their order.\<close>

fun newest :: "('r \<Rightarrow> 'k::linorder) \<Rightarrow> 'r list \<Rightarrow> 'r option" where
  "newest key [] = None"
| "newest key (x # xs) =
     (case newest key xs of None \<Rightarrow> Some x | Some y \<Rightarrow> if key y \<le> key x then Some x else Some y)"

section \<open>Devices\<close>

definition GetByIMEI :: "env \<Rightarrow> gostring \<Rightarrow> DeviceRow option iact" where
  "GetByIMEI e imei = wrap ''device lookup: '' (query e (\<lambda>d. find (\<lambda>x. dev_IMEI x = imei) (devices d)))"

definition GetByVehicleID :: "env \<Rightarrow> gostring \<Rightarrow> DeviceRow option iact" where
  "GetByVehicleID e vid =
     wrap ''device by vehicle lookup: '' (query e (\<lambda>d. find (\<lambda>x. dev_VehicleID x = Some vid) (devices d)))"

definition UpdateLastSeen :: "env \<Rightarrow> gostring \<Rightarrow> unit iact" where
  "UpdateLastSeen e imei =
     andThen (clock e) (\<lambda>now.
       exec_stmt e (\<lambda>d. Inr (d\<lparr>devices := map (\<lambda>x. if dev_IMEI x = imei
         then x\<lparr>LastSeenAt := Some now, dev_UpdatedAt := now\<rparr> else x) (devices d)\<rparr>)))"

text \<open>
  These three read through the connection pool, outside the transaction: \<open>committed\<close> is the
  database they see.
\<close>

definition GetLastOdometer :: "env \<Rightarrow> ingest_db \<Rightarrow> gostring \<Rightarrow> float64 option iact" where
  "GetLastOdometer e committed imei =
     query e (\<lambda>_. Option.bind
       (newest fix_DeviceTime (filter (\<lambda>p. fix_IMEI p = imei \<and> fix_Odometer p \<noteq> None) (positions committed)))
       fix_Odometer)"

definition GetLastFuelLevel :: "env \<Rightarrow> ingest_db \<Rightarrow> gostring \<Rightarrow> float64 option iact" where
  "GetLastFuelLevel e committed imei =
     query e (\<lambda>_. Option.bind
       (newest fix_DeviceTime (filter (\<lambda>p. fix_IMEI p = imei \<and> fix_FuelLevel p \<noteq> None) (positions committed)))
       fix_FuelLevel)"

definition GetLastPositionTime :: "env \<Rightarrow> ingest_db \<Rightarrow> gostring \<Rightarrow> gotime option iact" where
  "GetLastPositionTime e committed imei =
     query e (\<lambda>_. map_option (instant \<circ> fix_DeviceTime)
       (newest fix_DeviceTime (filter (\<lambda>p. fix_IMEI p = imei) (positions committed))))"

section \<open>Quarantine\<close>

definition insert_quarantine :: "QuarantineEntry \<Rightarrow> ingest_db \<Rightarrow> goerr + ingest_db" where
  "insert_quarantine r d =
     (if Source r \<notin> {''own'', ''loconav'', ''wheelseye''} \<or> q_Status r \<notin> {''open'', ''resolved'', ''rejected''}
        then Inl (ErrMsg ''CHECK constraint failed: device_quarantine'')
      else if \<exists>x \<in> set (quarantined d). q_ID x = q_ID r
        then Inl (ErrMsg ''UNIQUE constraint failed: device_quarantine.id'')
      else Inr (d\<lparr>quarantined := quarantined d @ [r]\<rparr>))"

definition Quarantine :: "env \<Rightarrow> QuarantineEntry \<Rightarrow> unit iact" where
  "Quarantine e entry = wrap ''quarantine insert: '' (exec_stmt e (insert_quarantine entry))"

definition ListOpen :: "env \<Rightarrow> gostring \<Rightarrow> nat \<Rightarrow> QuarantineEntry list iact" where
  "ListOpen e tenantID limit =
     query e (\<lambda>d. take limit (sort_key (\<lambda>x. - q_CreatedAt x)
       (filter (\<lambda>x. q_TenantID x = tenantID \<and> q_Status x = ''open'') (quarantined d))))"

definition Resolve :: "env \<Rightarrow> gostring \<Rightarrow> gostring \<Rightarrow> gostring \<Rightarrow> unit iact" where
  "Resolve e qid status resolvedBy =
     andThen (clock e) (\<lambda>now. exec_stmt e (\<lambda>d.
       let hit = (\<lambda>x. q_ID x = qid \<and> q_Status x = ''open'') in
       if \<not> list_ex hit (quarantined d) then Inr d
       else if status \<notin> {''open'', ''resolved'', ''rejected''}
         then Inl (ErrMsg ''CHECK constraint failed: device_quarantine'')
       else if resolvedBy \<notin> urow_ID ` set (users d) then Inl (ErrMsg ''FOREIGN KEY constraint failed'')
       else Inr (d\<lparr>quarantined := map (\<lambda>x. if hit x
           then x\<lparr>q_Status := status, ResolvedBy := Some resolvedBy, ResolvedAt := Some now\<rparr> else x)
         (quarantined d)\<rparr>)))"


section \<open>The odometer and fuel guard\<close>

record OdometerGuard =
  maxRegressionKM :: float64
  fuelClampDeltaPct :: float64

text \<open>
  \<open>auditLogAdapter\<close>: the tenant is that of the request, else that of the device row, which is read
  outside the transaction, else the bootstrap tenant. Values that JSON cannot express become NULL.
\<close>

definition resolveTenant :: "env \<Rightarrow> ingest_db \<Rightarrow> gostring \<Rightarrow> gostring \<Rightarrow> gostring \<Rightarrow> gostring iact" where
  "resolveTenant e committed reqTenant tableName recordID =
     (if reqTenant \<noteq> '''' then ret reqTenant
      else if tableName = ''telemetry_devices''
      then andThen (attempt (query e (\<lambda>_. find (\<lambda>x. dev_IMEI x = recordID) (devices committed)))) (\<lambda>r.
             ret (case r of Inr (Some x) \<Rightarrow> if dev_TenantID x \<noteq> '''' then dev_TenantID x else ''1'' | _ \<Rightarrow> ''1''))
      else ret ''1'')"

fun is_finite :: "float64 \<Rightarrow> bool" where
  "is_finite (Fin q) = True"
| "is_finite (Inf s) = False"
| "is_finite NaN = False"

fun audit_json :: "audit_values \<Rightarrow> audit_values option" where
  "audit_json (LastOdometer a) = (if is_finite a then Some (LastOdometer a) else None)"
| "audit_json (OdometerRollback a b c) =
     (if is_finite a \<and> is_finite b \<and> is_finite c then Some (OdometerRollback a b c) else None)"
| "audit_json (LastFuel a) = (if is_finite a then Some (LastFuel a) else None)"
| "audit_json (FuelClamp a b c) =
     (if is_finite a \<and> is_finite b \<and> is_finite c then Some (FuelClamp a b c) else None)"

definition LogAction :: "env \<Rightarrow> ingest_db \<Rightarrow> gostring \<Rightarrow> gostring \<Rightarrow> gostring \<Rightarrow> gostring \<Rightarrow> audit_values
    \<Rightarrow> audit_values \<Rightarrow> unit iact" where
  "LogAction e committed reqTenant action tableName recordID old new =
     andThen (new_uuid e) (\<lambda>id.
     andThen (resolveTenant e committed reqTenant tableName recordID) (\<lambda>tenant.
       exec_stmt e (\<lambda>d.
         if id \<in> au_ID ` set (audit_logs d) then Inl (ErrMsg ''UNIQUE constraint failed: audit_logs.id'')
         else Inr (d\<lparr>audit_logs := audit_logs d @
           [\<lparr>au_ID = id, au_Action = action, au_TableName = tableName, au_RecordID = recordID,
             au_Old = audit_json old, au_New = audit_json new, au_TenantID = tenant\<rparr>]\<rparr>))))"

definition CheckOdometer :: "env \<Rightarrow> ingest_db \<Rightarrow> gostring \<Rightarrow> OdometerGuard \<Rightarrow> gostring \<Rightarrow> float64
    \<Rightarrow> (float64 \<times> bool) iact" where
  "CheckOdometer e committed reqTenant g imei odometer =
     (if odometer \<le> 0 then ret (odometer, False)
      else andThen (wrap ''odometer guard lookup: '' (GetLastOdometer e committed imei)) (\<lambda>last.
        case last of
          None \<Rightarrow> ret (odometer, False)
        | Some lastOdometer \<Rightarrow>
            (let regression = lastOdometer - odometer
             in if maxRegressionKM g < regression
                then andThen (attempt (LogAction e committed reqTenant ''odometer_rollback_guard''
                       ''telemetry_devices'' imei (LastOdometer lastOdometer)
                       (OdometerRollback odometer regression lastOdometer)))
                     (\<lambda>_. ret (lastOdometer, True))
                else ret (odometer, False))))"

text \<open>The value \<open>ClampFuelLevel\<close> moves to.\<close>

definition fuel_clamp :: "OdometerGuard \<Rightarrow> float64 \<Rightarrow> float64 \<Rightarrow> float64" where
  "fuel_clamp g lastFuel fuelLevel =
     (let clamped = if lastFuel < fuelLevel then lastFuel + fuelClampDeltaPct g else lastFuel - fuelClampDeltaPct g;
          clamped = if clamped < 0 then 0 else clamped
      in if F 100 < clamped then F 100 else clamped)"

definition ClampFuelLevel :: "env \<Rightarrow> ingest_db \<Rightarrow> gostring \<Rightarrow> OdometerGuard \<Rightarrow> gostring \<Rightarrow> float64
    \<Rightarrow> (float64 \<times> bool) iact" where
  "ClampFuelLevel e committed reqTenant g imei fuelLevel =
     (if fuelLevel \<le> 0 then ret (fuelLevel, False)
      else andThen (wrap ''fuel clamp lookup: '' (GetLastFuelLevel e committed imei)) (\<lambda>last.
        case last of
          None \<Rightarrow> ret (fuelLevel, False)
        | Some lastFuel \<Rightarrow>
            (let delta = math_Abs (fuelLevel - lastFuel)
             in if fuelClampDeltaPct g < delta
                then andThen (attempt (LogAction e committed reqTenant ''fuel_level_clamp''
                       ''telemetry_devices'' imei (LastFuel lastFuel)
                       (FuelClamp fuelLevel delta (fuel_clamp g lastFuel fuelLevel))))
                     (\<lambda>_. ret (fuel_clamp g lastFuel fuelLevel, True))
                else ret (fuelLevel, False))))"


section \<open>Frames in the tables\<close>

definition insertRawEvent :: "env \<Rightarrow> gostring \<Rightarrow> gostring \<Rightarrow> RawFrame \<Rightarrow> bool iact" where
  "insertRawEvent e rid tenantID frame =
     andThen (exec_count e (\<lambda>d.
       let msg = nullStr (ProviderMsgID frame) in
       if \<exists>x \<in> set (raw_events d). raw_ID x = rid \<or> (msg \<noteq> None \<and> raw_IMEI x = IMEI frame \<and> raw_MsgID x = msg)
         then Inr (0, d)
       else if IMEI frame \<notin> dev_IMEI ` set (devices d) then Inl (ErrMsg ''FOREIGN KEY constraint failed'')
       else Inr (1, d\<lparr>raw_events := raw_events d @
         [\<lparr>raw_ID = rid, raw_TenantID = tenantID, raw_IMEI = IMEI frame, raw_MsgID = msg, raw_Payload = frame\<rparr>]\<rparr>)))
     (\<lambda>affected. ret (affected = 0))"

text \<open>The values bound to the columns both position tables have; coordinates are NOT NULL.\<close>

definition columns_of :: "gostring \<Rightarrow> RawFrame \<Rightarrow> float64 option \<Rightarrow> float64 option \<Rightarrow> gotime \<Rightarrow> fix_columns option" where
  "columns_of tenantID frame odometer fuel receivedAt =
     (case (sql_real (Latitude frame), sql_real (Longitude frame)) of
        (Some lat, Some lng) \<Rightarrow> Some
          \<lparr>fix_TenantID = tenantID, fix_IMEI = IMEI frame, fix_DeviceTime = stored_at (DeviceTime frame) (DeviceZone frame),
           fix_ReceivedAt = receivedAt, fix_Latitude = lat, fix_Longitude = lng,
           fix_Speed = sql_real (Speed frame), fix_Heading = sql_real (Heading frame),
           fix_Ignition = frame_Ignition frame, fix_EngineHours = sql_real_opt (EngineHours frame),
           fix_Accuracy = sql_real_opt (Accuracy frame), fix_FuelLevel = sql_real_opt fuel,
           fix_Odometer = sql_real_opt odometer, fix_Satellites = Satellites frame,
           fix_Battery = sql_real_opt (BatteryLevel frame), fix_Voltage = sql_real_opt (ExternalVoltage frame),
           fix_GSM = GSMSignal frame, fix_Motion = Motion frame, fix_Valid = validInt (frame_Valid frame)\<rparr>
      | _ \<Rightarrow> None)"

text \<open>Foreign keys of a row: absent, or the key of a row there is.\<close>

definition refers :: "gostring option \<Rightarrow> gostring set \<Rightarrow> bool" where
  "refers k keys = (case k of None \<Rightarrow> True | Some x \<Rightarrow> x \<in> keys)"

definition insertPosition :: "env \<Rightarrow> gostring \<Rightarrow> gostring \<Rightarrow> gostring \<Rightarrow> RawFrame \<Rightarrow> float64 option
    \<Rightarrow> float64 option \<Rightarrow> gostring \<Rightarrow> gotime \<Rightarrow> unit iact" where
  "insertPosition e pid tenantID vehicleID frame odometer fuel rawEventID receivedAt =
     exec_stmt e (\<lambda>d.
       case columns_of tenantID frame odometer fuel receivedAt of
         None \<Rightarrow> Inl (ErrMsg ''NOT NULL constraint failed: telemetry_positions'')
       | Some c \<Rightarrow>
           if pid \<in> pos_ID ` set (positions d) then Inl (ErrMsg ''UNIQUE constraint failed: telemetry_positions.id'')
           else if \<not> (refers (nullStr (frame_DriverID frame)) (drow_ID ` set (drivers d))
             \<and> refers (nullStr (frame_TripID frame)) (trow_ID ` set (trips d))
             \<and> refers (nullStr vehicleID) (set (vehicles d)) \<and> rawEventID \<in> raw_ID ` set (raw_events d))
             then Inl (ErrMsg ''FOREIGN KEY constraint failed'')
           else Inr (d\<lparr>positions := positions d @
             [fix_columns.extend c (PositionRow.fields pid (FixTime frame) (nullStr (frame_DriverID frame))
                (nullStr (frame_TripID frame)) (nullStr vehicleID) (frame_Provider frame) rawEventID)]\<rparr>))"

text \<open>The upsert replaces a row only by one whose stored device time comes later.\<close>

definition upsertLatestPosition :: "env \<Rightarrow> gostring \<Rightarrow> gostring \<Rightarrow> RawFrame \<Rightarrow> float64 option
    \<Rightarrow> float64 option \<Rightarrow> gotime \<Rightarrow> unit iact" where
  "upsertLatestPosition e vehicleID tenantID frame odometer fuel receivedAt =
     exec_stmt e (\<lambda>d.
       case columns_of tenantID frame odometer fuel receivedAt of
         None \<Rightarrow> Inl (ErrMsg ''NOT NULL constraint failed: vehicle_latest_position'')
       | Some c \<Rightarrow>
           let row = fix_columns.extend c (LatestRow.fields (frame_DriverID frame) (frame_TripID frame)) in
           case latest d vehicleID of
             None \<Rightarrow>
               if vehicleID \<in> set (vehicles d) then Inr (d\<lparr>latest := (latest d)(vehicleID \<mapsto> row)\<rparr>)
               else Inl (ErrMsg ''FOREIGN KEY constraint failed'')
           | Some old \<Rightarrow>
               if fix_DeviceTime old < fix_DeviceTime row then Inr (d\<lparr>latest := (latest d)(vehicleID \<mapsto> row)\<rparr>)
               else Inr d)"

definition insertSnapshot :: "env \<Rightarrow> RawFrame \<Rightarrow> DeviceRow \<Rightarrow> gostring \<Rightarrow> float64 option \<Rightarrow> float64 option
    \<Rightarrow> unit iact" where
  "insertSnapshot e frame device vehicleID odometer fuel =
     andThen (new_uuid e) (\<lambda>id.
       let vehicleID = (case dev_VehicleID device of Some v \<Rightarrow> if vehicleID = '''' then v else vehicleID
                        | None \<Rightarrow> vehicleID);
           row = \<lparr>snap_ID = id, snap_TripID = nullStr (frame_TripID frame), snap_VehicleID = nullStr vehicleID,
                  Timestamp = DeviceTime frame, snap_Latitude = sql_real (Latitude frame),
                  snap_Longitude = sql_real (Longitude frame), snap_Speed = sql_real (Speed frame),
                  snap_FuelLevel = sql_real_opt fuel, snap_Odometer = sql_real_opt odometer,
                  snap_Heading = sql_real (Heading frame), snap_Ignition = frame_Ignition frame,
                  snap_EngineHours = sql_real_opt (EngineHours frame),
                  snap_Accuracy = sql_real_opt (Accuracy frame), snap_DriverID = frame_DriverID frame\<rparr>
       in exec_stmt e (\<lambda>d.
            if \<not> (refers (snap_TripID row) (trow_ID ` set (trips d)) \<and> refers (snap_VehicleID row) (set (vehicles d)))
              then Inl (ErrMsg ''FOREIGN KEY constraint failed'')
            else if id \<in> snap_ID ` set (snapshots d)
              then Inr (d\<lparr>snapshots := map (\<lambda>x. if snap_ID x = id then row else x) (snapshots d)\<rparr>)
            else Inr (d\<lparr>snapshots := snapshots d @ [row]\<rparr>)))"

section \<open>The outbox writer\<close>

text \<open>What \<open>json.Marshal\<close> accepts: finite numbers, and instants of the years 0 to 9999.\<close>

definition json_time :: "gotime \<Rightarrow> bool" where
  "json_time t \<longleftrightarrow> - 366 * 86400000000000 \<le> t \<and> t < 3652059 * 86400000000000"

definition json_real_opt :: "float64 option \<Rightarrow> bool" where
  "json_real_opt x = (case x of None \<Rightarrow> True | Some v \<Rightarrow> is_finite v)"

fun json_ok :: "telemetry_event \<Rightarrow> bool" where
  "json_ok (PositionEvent p) =
     (is_finite (pe_Latitude p) \<and> is_finite (pe_Longitude p) \<and> is_finite (pe_Speed p) \<and> is_finite (pe_Heading p)
      \<and> json_real_opt (pe_EngineHours p) \<and> json_real_opt (pe_Accuracy p) \<and> json_real_opt (pe_FuelLevel p)
      \<and> json_real_opt (pe_Odometer p) \<and> json_time (pe_DeviceTime p) \<and> json_time (pe_ReceivedAt p))"
| "json_ok (AlertEvent a) = (is_finite (al_Latitude a) \<and> is_finite (al_Longitude a) \<and> json_time (al_OccurredAt a))"
| "json_ok (SOSEvent s) =
     (is_finite (so_Latitude s) \<and> is_finite (so_Longitude s) \<and> json_time (so_OccurredAt s) \<and> json_time (so_DeviceTime s))"

fun getEventTypeName :: "telemetry_event \<Rightarrow> gostring" where
  "getEventTypeName (PositionEvent _) = ''PositionEvent''"
| "getEventTypeName (AlertEvent _) = ''AlertEvent''"
| "getEventTypeName (SOSEvent _) = ''SOSEvent''"

definition save_event :: "env \<Rightarrow> gostring \<Rightarrow> gostring \<Rightarrow> telemetry_event \<Rightarrow> unit iact" where
  "save_event e aggregateID aggregateType ev =
     (if \<not> json_ok ev then fail (ErrMsg ''json: unsupported value'')
      else andThen (new_uuid e) (\<lambda>id. andThen (clock e) (\<lambda>now.
        exec_stmt e (\<lambda>d.
          if id \<in> out_ID ` set (outbox d) then Inl (ErrMsg ''UNIQUE constraint failed: outbox_events.id'')
          else Inr (d\<lparr>outbox := outbox d @
            [\<lparr>out_ID = id, out_AggregateID = aggregateID, out_AggregateType = aggregateType,
              out_EventType = getEventTypeName ev, out_Payload = ev, out_CreatedAt = now\<rparr>]\<rparr>)))))"

definition SaveEvents :: "env \<Rightarrow> gostring \<Rightarrow> gostring \<Rightarrow> telemetry_event list \<Rightarrow> unit iact" where
  "SaveEvents e aggregateID aggregateType events = for_each (save_event e aggregateID aggregateType) events"

end
