(* ===== verification/Ingest.thy ===== *)
theory Ingest
  imports IngestStore GoMath
begin

text \<open>
  The ingestion pipeline (\<open>internal/telemetry/ingest.go\<close>): \<open>IngestRawFrame\<close> runs the steps on one
  frame in one transaction and then publishes to the in-memory bus. The functions of package \<open>math\<close>
  behind the distance of two fixes are an argument.
\<close>

section \<open>Configuration\<close>

record IngestConfig =
  OdometerMaxRegressionKM :: float64
  FuelClampDeltaPct :: float64
  RawRetentionDays :: int
  BatchSize :: int
  FlushInterval :: int
  BatteryLowPct :: float64
  LowVoltageV :: float64
  GSMPoorLevel :: int
  ParkedDedupWindow :: int
  ParkedDedupMaxM :: float64
  MovingDedupWindow :: int
  MovingDedupMinM :: float64
  MovingDedupMinDeg :: float64

definition applyDefaults :: "IngestConfig \<Rightarrow> IngestConfig" where
  "applyDefaults c = c\<lparr>
     BatteryLowPct := (if BatteryLowPct c \<le> 0 then F 20 else BatteryLowPct c),
     LowVoltageV := (if LowVoltageV c \<le> 0 then F 6 else LowVoltageV c),
     GSMPoorLevel := (if GSMPoorLevel c \<le> 0 then 1 else GSMPoorLevel c),
     ParkedDedupWindow := (if ParkedDedupWindow c \<le> 0 then 10 * 60 * 1000000000 else ParkedDedupWindow c),
     ParkedDedupMaxM := (if ParkedDedupMaxM c \<le> 0 then F 50 else ParkedDedupMaxM c)\<rparr>"

text \<open>The ingestor: its environment, its configuration, and the tenant of the context it runs in.\<close>

record ingestor =
  ing_env :: env
  ing_cfg :: IngestConfig
  ing_math :: gomath
  ing_tenant :: gostring

definition NewIngestor :: "env \<Rightarrow> IngestConfig \<Rightarrow> gomath \<Rightarrow> gostring \<Rightarrow> ingestor" where
  "NewIngestor e cfg ma tenant =
     \<lparr>ing_env = e, ing_cfg = applyDefaults cfg, ing_math = ma, ing_tenant = tenant\<rparr>"

definition ing_guard :: "ingestor \<Rightarrow> OdometerGuard" where
  "ing_guard ing = \<lparr>maxRegressionKM = OdometerMaxRegressionKM (ing_cfg ing),
     fuelClampDeltaPct = FuelClampDeltaPct (ing_cfg ing)\<rparr>"

section \<open>Trust, distance, redundancy\<close>

definition fixTrusted :: "RawFrame \<Rightarrow> bool" where
  "fixTrusted frame =
     (case frame_Valid frame of
        Some v \<Rightarrow> v
      | None \<Rightarrow>
          if feq (Latitude frame) 0 \<and> feq (Longitude frame) 0 then False
          else (case Satellites frame of Some n \<Rightarrow> \<not> n < 3 | None \<Rightarrow> True))"

definition haversineMeters :: "gomath \<Rightarrow> float64 \<Rightarrow> float64 \<Rightarrow> float64 \<Rightarrow> float64 \<Rightarrow> float64" where
  "haversineMeters ma lat1 lon1 lat2 lon2 =
     (let dLat = fdiv ((lat2 - lat1) * math_Pi) (F 180);
          dLon = fdiv ((lon2 - lon1) * math_Pi) (F 180);
          a = math_Sin ma (fdiv dLat (F 2)) * math_Sin ma (fdiv dLat (F 2))
              + math_Cos ma (fdiv (lat1 * math_Pi) (F 180)) * math_Cos ma (fdiv (lat2 * math_Pi) (F 180))
                * math_Sin ma (fdiv dLon (F 2)) * math_Sin ma (fdiv dLon (F 2))
      in F 12742000 * math_Asin ma (math_Sqrt ma a))"

record dedupStatus =
  Parked :: bool
  MovingDedup :: bool

definition not_redundant :: dedupStatus where
  "not_redundant = \<lparr>Parked = False, MovingDedup = False\<rparr>"

text \<open>The comparison of a frame with the row of the latest fix.\<close>

definition compare_fix :: "ingestor \<Rightarrow> RawFrame \<Rightarrow> PositionRow \<Rightarrow> dedupStatus" where
  "compare_fix ing frame row =
     (let cfg = ing_cfg ing;
          gap = time_Sub (DeviceTime frame) (instant (fix_DeviceTime row));
          dist = haversineMeters (ing_math ing) (fix_Latitude row) (fix_Longitude row) (Latitude frame) (Longitude frame);
          isParked = (Motion frame = Some False);
          prevParked = (fix_Motion row = Some False)
      in if gap < 0 then not_redundant
         else if isParked \<and> prevParked \<and> gap \<le> ParkedDedupWindow cfg \<and> dist \<le> ParkedDedupMaxM cfg
           then not_redundant\<lparr>Parked := True\<rparr>
         else if \<not> isParked \<and> 0 < MovingDedupMinM cfg \<and> gap \<le> MovingDedupWindow cfg \<and> dist \<le> MovingDedupMinM cfg
           then (case fix_Heading row of
                   None \<Rightarrow> not_redundant\<lparr>MovingDedup := True\<rparr>
                 | Some heading \<Rightarrow>
                     (let hDiff = math_Abs (Heading frame - heading);
                          hDiff = if F 180 < hDiff then F 360 - hDiff else hDiff
                      in if MovingDedupMinDeg cfg < hDiff then not_redundant
                         else not_redundant\<lparr>MovingDedup := True\<rparr>))
         else not_redundant)"

definition checkDedup :: "ingestor \<Rightarrow> RawFrame \<Rightarrow> dedupStatus iact" where
  "checkDedup ing frame =
     andThen (attempt (query (ing_env ing) (\<lambda>d.
         newest fix_DeviceTime (filter (\<lambda>p. fix_IMEI p = IMEI frame) (positions d))))) (\<lambda>r.
       ret (case r of Inr (Some row) \<Rightarrow> compare_fix ing frame row | _ \<Rightarrow> not_redundant))"

section \<open>Attribution\<close>

definition active_status :: "gostring \<Rightarrow> bool" where
  "active_status s \<longleftrightarrow> s \<in> {''assigned'', ''started'', ''reached_pickup'', ''in_transit''}"

text \<open>\<open>d.id = k OR d.driver_id = k\<close>, and \<open>u.email = d.email\<close>.\<close>

definition is_driver :: "gostring \<Rightarrow> DriverIdentity \<Rightarrow> bool" where
  "is_driver k d \<longleftrightarrow> drow_ID d = k \<or> drow_DriverID d = k"

definition same_person :: "UserIdentity \<Rightarrow> DriverIdentity \<Rightarrow> bool" where
  "same_person u d \<longleftrightarrow> urow_TenantID u = drow_TenantID d \<and> drow_Email d = Some (urow_Email u)"

definition fallbackVehicleSQL :: "gostring \<Rightarrow> gostring \<Rightarrow> ingest_db \<Rightarrow> gostring option" where
  "fallbackVehicleSQL imei tenantID d =
     Option.bind (newest trow_Departure (filter (\<lambda>t.
         trow_TenantID t = tenantID \<and> active_status (trow_Status t)
         \<and> trow_VehicleID t \<noteq> None \<and> trow_VehicleID t \<noteq> Some ''''
         \<and> (case trow_DriverID t of
              None \<Rightarrow> False
            | Some k \<Rightarrow>
                k = imei
                \<or> (\<exists>dr \<in> set (drivers d). drow_TenantID dr = tenantID \<and> is_driver imei dr \<and> k = drow_ID dr)
                \<or> (\<exists>u \<in> set (users d). urow_TenantID u = tenantID \<and> urow_ID u = imei \<and> k = urow_ID u)
                \<or> (\<exists>dr \<in> set (drivers d). \<exists>u \<in> set (users d). same_person u dr \<and> drow_TenantID dr = tenantID
                     \<and> is_driver imei dr \<and> k = drow_ID dr))) (trips d)))
       trow_VehicleID"

definition fallbackVehicleID :: "ingestor \<Rightarrow> gostring \<Rightarrow> gostring \<Rightarrow> gostring iact" where
  "fallbackVehicleID ing tenantID imei =
     andThen (attempt (query (ing_env ing) (fallbackVehicleSQL imei tenantID))) (\<lambda>r.
       ret (case r of Inr (Some v) \<Rightarrow> v | _ \<Rightarrow> ''''))"

definition active_trip :: "gostring \<Rightarrow> gostring \<Rightarrow> gostring \<Rightarrow> ingest_db \<Rightarrow> TripRow option" where
  "active_trip tenantID vehicleID driverID d =
     newest trow_Departure (filter (\<lambda>t.
       trow_TenantID t = tenantID \<and> trow_VehicleID t = Some vehicleID \<and> active_status (trow_Status t)
       \<and> (driverID = ''''
          \<or> (case trow_DriverID t of
               None \<Rightarrow> False
             | Some k \<Rightarrow>
                 k = '''' \<or> k = driverID
                 \<or> (\<exists>dr \<in> set (drivers d). drow_TenantID dr = trow_TenantID t \<and> is_driver k dr \<and> is_driver driverID dr)
                 \<or> (\<exists>u \<in> set (users d). \<exists>dr \<in> set (drivers d). same_person u dr \<and> urow_ID u = k
                      \<and> urow_TenantID u = trow_TenantID t \<and> is_driver driverID dr)))) (trips d))"

definition activeTripID :: "ingestor \<Rightarrow> gostring \<Rightarrow> gostring \<Rightarrow> gostring \<Rightarrow> gostring iact" where
  "activeTripID ing tenantID vehicleID driverID =
     andThen (attempt (query (ing_env ing) (active_trip tenantID vehicleID driverID))) (\<lambda>r.
       ret (case r of Inr (Some t) \<Rightarrow> trow_ID t | _ \<Rightarrow> ''''))"

section \<open>Device health\<close>

definition mk_alert :: "ingestor \<Rightarrow> DeviceRow \<Rightarrow> gostring \<Rightarrow> RawFrame \<Rightarrow> gostring \<Rightarrow> gostring \<Rightarrow> alert_details
    \<Rightarrow> Alert_Event option iact" where
  "mk_alert ing device vehicleID frame kind severity details =
     andThen (new_uuid (ing_env ing)) (\<lambda>id. andThen (clock (ing_env ing)) (\<lambda>now.
       ret (Some \<lparr>al_EventID = id, al_TenantID = dev_TenantID device, al_DeviceIMEI = IMEI frame,
         al_VehicleID = vehicleID, al_DriverID = frame_DriverID frame, AlertType = kind, Severity = severity,
         al_Latitude = Latitude frame, al_Longitude = Longitude frame, Details = details, al_OccurredAt = now\<rparr>)))"

text \<open>\<open>cur != nil && prev.Valid && prev > limit && *cur <= limit\<close>: the two values of a crossing.\<close>

definition crossing :: "'a::ord \<Rightarrow> 'a option \<Rightarrow> 'a option \<Rightarrow> ('a \<times> 'a) option" where
  "crossing limit prev cur =
     (case (prev, cur) of (Some p, Some c) \<Rightarrow> if limit < p \<and> c \<le> limit then Some (p, c) else None | _ \<Rightarrow> None)"

definition health_alert :: "ingestor \<Rightarrow> DeviceRow \<Rightarrow> gostring \<Rightarrow> RawFrame \<Rightarrow> PositionRow \<Rightarrow> Alert_Event option iact" where
  "health_alert ing device vehicleID frame prev =
     (case crossing (LowVoltageV (ing_cfg ing)) (fix_Voltage prev) (ExternalVoltage frame) of
        Some (p, c) \<Rightarrow>
          mk_alert ing device vehicleID frame
            (if DeviceType device = ''hardware'' then ''tamper'' else ''power_cut'') ''critical'' (VoltageDropped p c (IMEI frame))
      | None \<Rightarrow>
     (case crossing (BatteryLowPct (ing_cfg ing)) (fix_Battery prev) (BatteryLevel frame) of
        Some (p, c) \<Rightarrow> mk_alert ing device vehicleID frame ''low_battery'' ''warning'' (BatteryDropped p c (IMEI frame))
      | None \<Rightarrow>
     (case crossing (GSMPoorLevel (ing_cfg ing)) (fix_GSM prev) (GSMSignal frame) of
        Some (p, c) \<Rightarrow> mk_alert ing device vehicleID frame ''poor_signal'' ''warning'' (SignalDropped p c (IMEI frame))
      | None \<Rightarrow> ret None)))"

definition deviceHealthGuard :: "ingestor \<Rightarrow> gostring \<Rightarrow> DeviceRow \<Rightarrow> gostring \<Rightarrow> RawFrame
    \<Rightarrow> Alert_Event option iact" where
  "deviceHealthGuard ing excludeID device vehicleID frame =
     (if BatteryLevel frame = None \<and> ExternalVoltage frame = None \<and> GSMSignal frame = None then ret None
      else andThen (attempt (query (ing_env ing) (\<lambda>d.
          newest fix_DeviceTime (filter (\<lambda>p. fix_IMEI p = IMEI frame \<and> pos_ID p \<noteq> excludeID) (positions d))))) (\<lambda>r.
        case r of Inr (Some prev) \<Rightarrow> health_alert ing device vehicleID frame prev | _ \<Rightarrow> ret None))"
section \<open>The pipeline\<close>

record IngestResult =
  Accepted :: bool
  Deduped :: bool
  Quarantined :: bool
  res_Reason :: gostring

definition no_result :: IngestResult where
  "no_result = \<lparr>Accepted = False, Deduped = False, Quarantined = False, res_Reason = ''''\<rparr>"

lemma no_result_sel [simp]: "\<not> Accepted no_result" "\<not> Deduped no_result"
  by (simp_all add: no_result_def)

text \<open>What the steps in the transaction hand to the publication after it.\<close>

record effects =
  eff_result :: IngestResult
  eff_position :: "Position_Event option"
  eff_sos :: "SOS_Event option"
  eff_alert :: "Alert_Event option"

definition no_effects :: effects where
  "no_effects = \<lparr>eff_result = no_result, eff_position = None, eff_sos = None, eff_alert = None\<rparr>"

definition quarantineFrame :: "ingestor \<Rightarrow> RawFrame \<Rightarrow> gostring \<Rightarrow> unit iact" where
  "quarantineFrame ing frame reason =
     (let e = ing_env ing in
      andThen (attempt (GetByIMEI e (IMEI frame))) (\<lambda>dev.
      andThen (new_uuid e) (\<lambda>id. andThen (clock e) (\<lambda>now.
        Quarantine e \<lparr>q_ID = id, q_TenantID = (case dev of Inr (Some x) \<Rightarrow> dev_TenantID x | _ \<Rightarrow> ''1''),
          q_IMEI = IMEI frame, Source = frame_Provider frame, q_RawPayload = frame, Reason = reason,
          q_Status = ''open'', ResolvedBy = None, ResolvedAt = None, q_CreatedAt = now\<rparr>))))"

text \<open>\<open>quarantineUnknown\<close>, for the HTTP handler's unknown device tokens.\<close>

definition quarantineUnknown :: "ingestor \<Rightarrow> gostring \<Rightarrow> RawFrame \<Rightarrow> unit iact" where
  "quarantineUnknown ing imei frame =
     (let e = ing_env ing in
      andThen (new_uuid e) (\<lambda>id. andThen (clock e) (\<lambda>now.
        Quarantine e \<lparr>q_ID = id, q_TenantID = ''1'', q_IMEI = imei, Source = frame_Provider frame,
          q_RawPayload = frame, Reason = ''unknown_device'', q_Status = ''open'', ResolvedBy = None,
          ResolvedAt = None, q_CreatedAt = now\<rparr>)))"

text \<open>Steps 5 and 6: the odometer and the fuel level that are stored.\<close>

definition guarded :: "(float64 \<Rightarrow> (float64 \<times> bool) iact) \<Rightarrow> float64 option \<Rightarrow> float64 option iact" where
  "guarded check v =
     (case v of
        None \<Rightarrow> ret None
      | Some x \<Rightarrow> andThen (check x) (\<lambda>(adj, fired). ret (if fired then Some adj else v)))"

definition adjust_odometer :: "ingestor \<Rightarrow> ingest_db \<Rightarrow> RawFrame \<Rightarrow> float64 option iact" where
  "adjust_odometer ing committed frame =
     guarded (\<lambda>x. wrap ''odometer guard: ''
       (CheckOdometer (ing_env ing) committed (ing_tenant ing) (ing_guard ing) (IMEI frame) x)) (frame_Odometer frame)"

definition adjust_fuel :: "ingestor \<Rightarrow> ingest_db \<Rightarrow> RawFrame \<Rightarrow> float64 option iact" where
  "adjust_fuel ing committed frame =
     guarded (\<lambda>x. wrap ''fuel clamp: ''
       (ClampFuelLevel (ing_env ing) committed (ing_tenant ing) (ing_guard ing) (IMEI frame) x)) (FuelLevel frame)"

definition resolve_vehicle :: "ingestor \<Rightarrow> DeviceRow \<Rightarrow> RawFrame \<Rightarrow> gostring iact" where
  "resolve_vehicle ing device frame =
     (let vehicleID = (case dev_VehicleID device of Some v \<Rightarrow> v | None \<Rightarrow> '''')
      in if vehicleID = '''' then fallbackVehicleID ing (dev_TenantID device) (IMEI frame) else ret vehicleID)"

definition resolve_trip :: "ingestor \<Rightarrow> DeviceRow \<Rightarrow> gostring \<Rightarrow> RawFrame \<Rightarrow> RawFrame iact" where
  "resolve_trip ing device vehicleID frame =
     (if frame_TripID frame = '''' \<and> vehicleID \<noteq> ''''
      then andThen (activeTripID ing (dev_TenantID device) vehicleID (frame_DriverID frame)) (\<lambda>t.
             ret (frame\<lparr>frame_TripID := t\<rparr>))
      else ret frame)"

definition if_do :: "bool \<Rightarrow> unit iact \<Rightarrow> unit iact" where
  "if_do b m = (if b then m else ret ())"

definition position_event :: "gostring \<Rightarrow> DeviceRow \<Rightarrow> gostring \<Rightarrow> RawFrame \<Rightarrow> float64 option \<Rightarrow> float64 option
    \<Rightarrow> gotime \<Rightarrow> Position_Event" where
  "position_event pid device vehicleID frame odo fuel receivedAt =
     \<lparr>pe_EventID = pid, pe_TenantID = dev_TenantID device, pe_DeviceIMEI = IMEI frame,
      pe_VehicleID = vehicleID, pe_DriverID = frame_DriverID frame, pe_TripID = frame_TripID frame,
      pe_Latitude = Latitude frame, pe_Longitude = Longitude frame, pe_Speed = Speed frame,
      pe_Heading = Heading frame, pe_Ignition = frame_Ignition frame, pe_EngineHours = EngineHours frame,
      pe_Accuracy = Accuracy frame, pe_FuelLevel = fuel, pe_Odometer = odo,
      pe_DeviceTime = DeviceTime frame, pe_ReceivedAt = receivedAt\<rparr>"

definition sos_event :: "ingestor \<Rightarrow> DeviceRow \<Rightarrow> gostring \<Rightarrow> RawFrame \<Rightarrow> gotime \<Rightarrow> SOS_Event option iact" where
  "sos_event ing device vehicleID frame receivedAt =
     (if SOS frame then andThen (new_uuid (ing_env ing)) (\<lambda>id.
        ret (Some \<lparr>so_EventID = id, so_TenantID = dev_TenantID device, so_DeviceIMEI = IMEI frame,
          so_VehicleID = vehicleID, so_DriverID = frame_DriverID frame, so_Latitude = Latitude frame,
          so_Longitude = Longitude frame, so_OccurredAt = receivedAt, so_DeviceTime = DeviceTime frame\<rparr>))
      else ret None)"

text \<open>Steps 7b, 8 and 10: the rows of a frame.\<close>

definition write_rows :: "ingestor \<Rightarrow> DeviceRow \<Rightarrow> gostring \<Rightarrow> gostring \<Rightarrow> gostring \<Rightarrow> gotime \<Rightarrow> float64 option
    \<Rightarrow> float64 option \<Rightarrow> bool \<Rightarrow> bool \<Rightarrow> RawFrame \<Rightarrow> unit iact" where
  "write_rows ing device rawID positionID vehicleID receivedAt odo fuel skipHistory writeLive frame =
     (let e = ing_env ing in
      andThen (if_do (\<not> skipHistory) (wrap ''position insert: ''
        (insertPosition e positionID (dev_TenantID device) vehicleID frame odo fuel rawID receivedAt))) (\<lambda>_.
      andThen (if_do (vehicleID \<noteq> '''' \<and> writeLive \<and> fixTrusted frame) (wrap ''latest position upsert: ''
        (upsertLatestPosition e vehicleID (dev_TenantID device) frame odo fuel receivedAt))) (\<lambda>_.
      if_do (\<not> skipHistory) (wrap ''snapshot insert: ''
        (insertSnapshot e frame device vehicleID odo fuel)))))"

text \<open>Step 11: the events of a frame, in the outbox.\<close>

definition frame_events :: "bool \<Rightarrow> Position_Event \<Rightarrow> Alert_Event option \<Rightarrow> SOS_Event option \<Rightarrow> telemetry_event list" where
  "frame_events writeLive ev alert sos =
     (if writeLive then [PositionEvent ev] else [])
     @ (case alert of Some a \<Rightarrow> [AlertEvent a] | None \<Rightarrow> [])
     @ (case sos of Some s \<Rightarrow> [SOSEvent s] | None \<Rightarrow> [])"

definition write_events :: "ingestor \<Rightarrow> DeviceRow \<Rightarrow> gostring \<Rightarrow> gostring \<Rightarrow> gotime \<Rightarrow> bool \<Rightarrow> bool
    \<Rightarrow> Position_Event \<Rightarrow> RawFrame \<Rightarrow> (Alert_Event option \<times> SOS_Event option) iact" where
  "write_events ing device positionID vehicleID receivedAt parked writeLive ev frame =
     andThen (if parked then ret None else deviceHealthGuard ing positionID device vehicleID frame) (\<lambda>alert.
     andThen (sos_event ing device vehicleID frame receivedAt) (\<lambda>sos.
     andThen (wrap ''outbox write: '' (SaveEvents (ing_env ing) (if vehicleID = '''' then IMEI frame else vehicleID)
       ''Vehicle'' (frame_events writeLive ev alert sos))) (\<lambda>_. ret (alert, sos))))"

definition store_frame :: "ingestor \<Rightarrow> DeviceRow \<Rightarrow> gostring \<Rightarrow> gostring \<Rightarrow> float64 option \<Rightarrow> float64 option
    \<Rightarrow> dedupStatus \<Rightarrow> RawFrame \<Rightarrow> effects iact" where
  "store_frame ing device rawID vehicleID odo fuel dedup frame =
     (let e = ing_env ing;
          skipHistory = (Parked dedup \<or> MovingDedup dedup) \<and> \<not> SOS frame;
          writeLive = (\<not> Parked dedup \<or> SOS frame)
      in
      andThen (new_uuid e) (\<lambda>positionID. andThen (clock e) (\<lambda>receivedAt.
      andThen (write_rows ing device rawID positionID vehicleID receivedAt odo fuel skipHistory writeLive frame) (\<lambda>_.
      let ev = position_event positionID device vehicleID frame odo fuel receivedAt in
      andThen (write_events ing device positionID vehicleID receivedAt (Parked dedup) writeLive ev frame) (\<lambda>(alert, sos).
      andThen (wrap ''last_seen update: '' (UpdateLastSeen e (IMEI frame))) (\<lambda>_.
        ret \<lparr>eff_result = no_result\<lparr>Accepted := True\<rparr>, eff_position = Some ev, eff_sos = sos,
             eff_alert = alert\<rparr>))))))"

text \<open>Steps 1 to 6 around it.\<close>

definition process_frame :: "ingestor \<Rightarrow> ingest_db \<Rightarrow> DeviceRow \<Rightarrow> RawFrame \<Rightarrow> effects iact" where
  "process_frame ing committed device frame =
     (let e = ing_env ing in
      andThen (new_uuid e) (\<lambda>rawID.
      andThen (wrap ''raw event insert: '' (insertRawEvent e rawID (dev_TenantID device) frame)) (\<lambda>deduped.
      if deduped then ret (no_effects\<lparr>eff_result := no_result\<lparr>Accepted := True, Deduped := True\<rparr>\<rparr>)
      else
        andThen (adjust_odometer ing committed frame) (\<lambda>odo.
        andThen (adjust_fuel ing committed frame) (\<lambda>fuel.
        andThen (resolve_vehicle ing device frame) (\<lambda>vehicleID.
        andThen (checkDedup ing frame) (\<lambda>dedup.
        andThen (resolve_trip ing device vehicleID frame) (\<lambda>frame.
          store_frame ing device rawID vehicleID odo fuel dedup frame))))))))"

definition ingest_tx :: "ingestor \<Rightarrow> ingest_db \<Rightarrow> RawFrame \<Rightarrow> effects iact" where
  "ingest_tx ing committed frame =
     andThen (wrap ''device lookup: '' (GetByIMEI (ing_env ing) (IMEI frame))) (\<lambda>dev.
       case dev of
         None \<Rightarrow> andThen (quarantineFrame ing frame ''unknown_device'') (\<lambda>_. ret no_effects)
       | Some device \<Rightarrow>
           if dev_Status device \<noteq> ''active''
           then andThen (quarantineFrame ing frame
                  (if dev_Status device = ''quarantined'' then ''quarantined_device'' else ''retired_device''))
                (\<lambda>_. ret no_effects)
           else process_frame ing committed device frame)"

text \<open>Step 12: what is published to the bus after the commit, in order.\<close>

datatype bus_event = TelemetrySnapshot Position_Event | SOSPublished SOS_Event | TelemetryAlert Alert_Event

definition publications :: "effects \<Rightarrow> bus_event list" where
  "publications x =
     (if Accepted (eff_result x) \<and> \<not> Deduped (eff_result x)
      then (case eff_position x of
              None \<Rightarrow> []
            | Some p \<Rightarrow> TelemetrySnapshot p # (case eff_sos x of Some s \<Rightarrow> [SOSPublished s] | None \<Rightarrow> []))
           @ (case eff_alert x of Some a \<Rightarrow> [TelemetryAlert a] | None \<Rightarrow> [])
      else [])"

definition IngestRawFrame :: "ingestor \<Rightarrow> RawFrame \<Rightarrow> (IngestResult \<times> bus_event list) iact" where
  "IngestRawFrame ing frame w =
     andThen (with_tx (ing_env ing) False (\<lambda>_. ingest_tx ing (db w) frame))
       (\<lambda>x. ret (eff_result x, publications x)) w"

end
