(* ===== verification/IngestProps.thy ===== *)
theory IngestProps
  imports Ingest
begin

text \<open>
  What the ingestion pipeline promises: a failure leaves the database as it was, every frame has one
  of four outcomes, a replayed message has no further effect, the live position of a vehicle never
  goes back in time, an emergency is never lost, the guard bounds what is stored.
\<close>

section \<open>The tables only grow\<close>

text \<open>The tables are consistent: message keys are unique, rows refer to rows, the live map shows trusted fixes.\<close>

definition store_ok :: "ingest_db \<Rightarrow> bool" where
  "store_ok d \<longleftrightarrow>
     distinct (map raw_ID (raw_events d))
     \<and> distinct (map (\<lambda>r. (raw_IMEI r, raw_MsgID r)) (filter (\<lambda>r. raw_MsgID r \<noteq> None) (raw_events d)))
     \<and> distinct (map out_ID (outbox d)) \<and> distinct (map pos_ID (positions d))
     \<and> pos_RawEventID ` set (positions d) \<subseteq> raw_ID ` set (raw_events d)
     \<and> dom (latest d) \<subseteq> set (vehicles d) \<and> (\<forall>row \<in> ran (latest d). fix_Valid row)"

definition static_part :: "ingest_db \<Rightarrow> DeviceRow list \<times> TripRow list \<times> DriverIdentity list \<times> UserIdentity list \<times> gostring list" where
  "static_part d = (map (\<lambda>x. x\<lparr>LastSeenAt := None, dev_UpdatedAt := 0\<rparr>) (devices d), trips d, drivers d, users d, vehicles d)"

text \<open>
  No row is changed or lost, and the live position of a vehicle is only replaced by one whose stored device
  time comes strictly later.
\<close>

definition grows :: "ingest_db \<Rightarrow> ingest_db \<Rightarrow> bool" where
  "grows d d' \<longleftrightarrow>
     prefix (raw_events d) (raw_events d') \<and> prefix (positions d) (positions d') \<and> prefix (outbox d) (outbox d')
     \<and> prefix (audit_logs d) (audit_logs d') \<and> prefix (quarantined d) (quarantined d')
     \<and> static_part d' = static_part d
     \<and> (\<forall>v a. latest d v = Some a \<longrightarrow> (\<exists>b. latest d' v = Some b \<and> (b = a \<or> fix_DeviceTime a < fix_DeviceTime b)))
     \<and> (store_ok d \<longrightarrow> store_ok d')"

lemma grows_refl [simp]: "grows d d"
  by (simp add: grows_def)

lemma grows_trans:
  assumes "grows d d'" and "grows d' d''"
  shows "grows d d''"
proof -
  have live: "\<exists>c. latest d'' v = Some c \<and> (c = a \<or> fix_DeviceTime a < fix_DeviceTime c)" if a: "latest d v = Some a" for v a
  proof -
    obtain b where b: "latest d' v = Some b" "b = a \<or> fix_DeviceTime a < fix_DeviceTime b"
      using assms(1) a unfolding grows_def by blast
    obtain c where "latest d'' v = Some c" "c = b \<or> fix_DeviceTime b < fix_DeviceTime c"
      using assms(2) b(1) unfolding grows_def by blast
    then show ?thesis using b(2) by (auto intro: order.strict_trans)
  qed
  show ?thesis
    unfolding grows_def using assms live by (intro conjI) (simp_all add: grows_def, (blast intro: prefix_order.trans)+)
qed

interpretation growth: db_preorder grows
  by unfold_locales (simp, rule grows_trans)

lemmas growing = growth.along_intros

lemma grows_devices:
  "grows d (d\<lparr>devices := map (\<lambda>x. if p x then x\<lparr>LastSeenAt := t, dev_UpdatedAt := u\<rparr> else x) (devices d)\<rparr>)"
  by (auto simp: grows_def static_part_def store_ok_def)

lemma grows_audit: "grows d (d\<lparr>audit_logs := audit_logs d @ rs\<rparr>)"
  by (simp add: grows_def static_part_def store_ok_def)

lemma grows_quarantined: "grows d (d\<lparr>quarantined := quarantined d @ rs\<rparr>)"
  by (simp add: grows_def static_part_def store_ok_def)

lemma grows_snapshots: "grows d (d\<lparr>snapshots := rs\<rparr>)"
  by (simp add: grows_def static_part_def store_ok_def)

lemma grows_outbox: "out_ID r \<notin> out_ID ` set (outbox d) \<Longrightarrow> grows d (d\<lparr>outbox := outbox d @ [r]\<rparr>)"
  by (simp add: grows_def static_part_def store_ok_def)

lemma grows_positions:
  "pos_ID r \<notin> pos_ID ` set (positions d) \<Longrightarrow> pos_RawEventID r \<in> raw_ID ` set (raw_events d)
   \<Longrightarrow> grows d (d\<lparr>positions := positions d @ [r]\<rparr>)"
  by (simp add: grows_def static_part_def store_ok_def)

lemma grows_raw:
  assumes "raw_ID r \<notin> raw_ID ` set (raw_events d)"
    and "raw_MsgID r = None \<or> (raw_IMEI r, raw_MsgID r) \<notin> (\<lambda>x. (raw_IMEI x, raw_MsgID x)) ` set (raw_events d)"
  shows "grows d (d\<lparr>raw_events := raw_events d @ [r]\<rparr>)"
proof -
  have "store_ok (d\<lparr>raw_events := raw_events d @ [r]\<rparr>)" if ok: "store_ok d"
  proof (cases "raw_MsgID r")
    case None
    then show ?thesis using ok assms(1) by (auto simp: store_ok_def)
  next
    case (Some m)
    then have "(raw_IMEI r, raw_MsgID r) \<notin> (\<lambda>x. (raw_IMEI x, raw_MsgID x)) ` {x \<in> set (raw_events d). raw_MsgID x \<noteq> None}"
      using assms(2) by auto
    then show ?thesis using ok assms(1) Some by (simp add: store_ok_def subset_insertI2)
  qed
  then show ?thesis by (simp add: grows_def static_part_def)
qed

lemma grows_latest:
  assumes "\<And>a. latest d v = Some a \<Longrightarrow> fix_DeviceTime a < fix_DeviceTime r" and "v \<in> set (vehicles d) \<or> v \<in> dom (latest d)"
    and "fix_Valid r"
  shows "grows d (d\<lparr>latest := (latest d)(v \<mapsto> r)\<rparr>)"
proof -
  have "store_ok (d\<lparr>latest := (latest d)(v \<mapsto> r)\<rparr>)" if "store_ok d"
    using that assms(2,3) unfolding store_ok_def by (auto simp: ran_def)
  then show ?thesis using assms(1) by (auto simp: grows_def static_part_def)
qed

lemma grows_LogAction: "along grows (LogAction e committed t action tab rid old new)"
  unfolding LogAction_def resolveTenant_def
  by (intro growing growth.along_exec_stmt) (auto simp: grows_audit split: if_splits)

lemma grows_guarded: "(\<And>x. along grows (check x)) \<Longrightarrow> along grows (guarded check v)"
  unfolding guarded_def by (intro growing) assumption

lemma grows_CheckOdometer: "along grows (CheckOdometer e committed t g imei odo)"
  unfolding CheckOdometer_def GetLastOdometer_def Let_def by (intro growing grows_LogAction)

lemma grows_ClampFuelLevel: "along grows (ClampFuelLevel e committed t g imei fuel)"
  unfolding ClampFuelLevel_def GetLastFuelLevel_def Let_def by (intro growing grows_LogAction)

lemma grows_Quarantine: "along grows (Quarantine e q)"
  unfolding Quarantine_def
  by (intro growing growth.along_exec_stmt) (auto simp: insert_quarantine_def grows_quarantined split: if_splits)

lemma grows_quarantineFrame: "along grows (quarantineFrame ing frame reason)"
  unfolding quarantineFrame_def Let_def GetByIMEI_def by (intro growing grows_Quarantine)

lemma grows_insertRawEvent: "along grows (insertRawEvent e rid t frame)"
  unfolding insertRawEvent_def Let_def
  by (intro growing growth.along_exec_count) (auto split: if_splits intro!: grows_raw)

lemma grows_insertPosition: "along grows (insertPosition e pid t v frame odo fuel rid rt)"
  unfolding insertPosition_def
  by (intro growing growth.along_exec_stmt)
     (auto split: if_splits option.splits intro!: grows_positions simp: fix_columns.extend_def PositionRow.fields_def)

lemma columns_valid: "columns_of t frame odo fuel rt = Some c \<Longrightarrow> fixTrusted frame \<Longrightarrow> fix_Valid c"
  by (auto simp: columns_of_def fixTrusted_def validInt_def split: option.splits prod.splits)

lemma grows_upsert: "fixTrusted frame \<Longrightarrow> along grows (upsertLatestPosition e v t frame odo fuel rt)"
  unfolding upsertLatestPosition_def Let_def
  by (intro growing growth.along_exec_stmt)
     (auto split: if_splits option.splits intro!: grows_latest
        simp: fix_columns.extend_def LatestRow.fields_def columns_valid)

lemma grows_insertSnapshot: "along grows (insertSnapshot e frame device v odo fuel)"
  unfolding insertSnapshot_def Let_def
  by (intro growing growth.along_exec_stmt) (auto split: if_splits intro!: grows_snapshots)

lemma grows_SaveEvents: "along grows (SaveEvents e i k evs)"
  unfolding SaveEvents_def save_event_def
  by (intro growing growth.along_exec_stmt) (auto split: if_splits intro!: grows_outbox)

lemma grows_UpdateLastSeen: "along grows (UpdateLastSeen e imei)"
  unfolding UpdateLastSeen_def by (intro growing growth.along_exec_stmt) (auto simp: grows_devices)

lemma grows_reads: "reads m \<Longrightarrow> along grows m"
  by (rule growth.along_reads)

lemma reads_mk_alert [reading]: "reads (mk_alert ing device v frame k sv dt)"
  unfolding mk_alert_def by (intro reading)

lemma reads_health: "reads (deviceHealthGuard ing pid device v frame)"
  unfolding deviceHealthGuard_def health_alert_def by (auto intro!: reading split: option.splits sum.splits prod.splits)

lemma reads_sos: "reads (sos_event ing device v frame rt)"
  unfolding sos_event_def by (intro reading)

lemma reads_dedup: "reads (checkDedup ing frame)"
  unfolding checkDedup_def by (intro reading)

lemma reads_trip: "reads (resolve_trip ing device v frame)"
  unfolding resolve_trip_def activeTripID_def by (intro reading)

lemma reads_vehicle: "reads (resolve_vehicle ing device frame)"
  unfolding resolve_vehicle_def fallbackVehicleID_def Let_def by (intro reading)

lemmas grows_parts =
  reads_health [THEN grows_reads] reads_sos [THEN grows_reads] reads_dedup [THEN grows_reads]
  reads_trip [THEN grows_reads] reads_vehicle [THEN grows_reads] grows_insertRawEvent grows_insertPosition
  grows_insertSnapshot grows_SaveEvents grows_UpdateLastSeen grows_quarantineFrame

lemma grows_if_do: "(b \<Longrightarrow> along grows m) \<Longrightarrow> along grows (if_do b m)"
  by (auto simp: if_do_def intro: growing)

lemma grows_store_frame: "along grows (store_frame ing device rid v odo fuel dedup frame)"
  unfolding store_frame_def write_rows_def write_events_def Let_def by (intro growing grows_if_do grows_parts grows_upsert) simp_all

lemma grows_process_frame: "along grows (process_frame ing committed device frame)"
  unfolding process_frame_def Let_def adjust_odometer_def adjust_fuel_def
  by (intro growing grows_parts grows_guarded grows_CheckOdometer grows_ClampFuelLevel grows_store_frame)

lemma grows_ingest_tx: "along grows (ingest_tx ing committed frame)"
  unfolding ingest_tx_def GetByIMEI_def by (intro growing grows_parts grows_process_frame)

lemma grows_IngestRawFrame: "along grows (IngestRawFrame ing frame)"
  unfolding along_def IngestRawFrame_def
  by (auto elim!: andThen_cases intro: growth.along_tx [OF grows_ingest_tx])

lemma ingest_failed: "IngestRawFrame ing frame w = (Inl err, w') \<Longrightarrow> db w' = db w"
  by (auto simp: IngestRawFrame_def andThen_err dest: with_tx_err)

text \<open>Frames ingested one after the other, each by its own ingestor; some fail.\<close>

fun ingest_run :: "(ingestor \<times> RawFrame) list \<Rightarrow> ingest_db world \<Rightarrow> ingest_db world" where
  "ingest_run [] w = w"
| "ingest_run ((ing, frame) # fs) w = ingest_run fs (snd (IngestRawFrame ing frame w))"

lemma grows_run: "grows (db w) (db (ingest_run fs w))"
proof (induction fs w rule: ingest_run.induct)
  case (1 w)
  show ?case by simp
next
  case (2 ing frame fs w)
  have "grows (db w) (db (snd (IngestRawFrame ing frame w)))"
    using grows_IngestRawFrame unfolding along_def by (metis surjective_pairing)
  then show ?case using 2 grows_trans by simp
qed

section \<open>What an accepted frame leaves\<close>

lemma insertPosition_ok:
  assumes "insertPosition e pid t v frame odo fuel rid rt w = (Inr u, w')"
  shows "\<exists>row. db w' = (db w)\<lparr>positions := positions (db w) @ [row]\<rparr> \<and> pos_ID row = pid \<and> pos_RawEventID row = rid
    \<and> columns_of t frame odo fuel rt = Some (fix_columns.truncate row)"
  using assms unfolding insertPosition_def exec_stmt_ok
  by (auto simp: fix_columns.defs PositionRow.defs split: option.splits if_splits)

text \<open>A row shows the fix of a frame.\<close>

definition frame_time :: "RawFrame \<Rightarrow> db_time" where
  "frame_time frame = stored_at (DeviceTime frame) (DeviceZone frame)"

definition shows_fix :: "'x fix_columns_scheme \<Rightarrow> RawFrame \<Rightarrow> bool" where
  "shows_fix row frame \<longleftrightarrow> fix_IMEI row = IMEI frame \<and> fix_DeviceTime row = frame_time frame
     \<and> Latitude frame = fix_Latitude row \<and> Longitude frame = fix_Longitude row
     \<and> fix_Speed row = sql_real (Speed frame) \<and> fix_Heading row = sql_real (Heading frame)"

lemma columns_fix: "columns_of t frame odo fuel rt = Some c \<Longrightarrow> shows_fix c frame"
  by (auto simp: columns_of_def sql_real_def shows_fix_def frame_time_def split: option.splits if_splits)

lemma shows_extend [simp]: "shows_fix (fix_columns.extend c m) frame = shows_fix c frame"
  "shows_fix (fix_columns.truncate row) frame = shows_fix row frame"
  by (simp_all add: shows_fix_def fix_columns.defs)

text \<open>The live map after a fix: the row of the vehicle shows it, or is one that is no older.\<close>

definition shown_live :: "ingest_db \<Rightarrow> ingest_db \<Rightarrow> gostring \<Rightarrow> RawFrame \<Rightarrow> bool" where
  "shown_live d d' v frame \<longleftrightarrow>
     (\<exists>row. latest d' = (latest d)(v \<mapsto> row) \<and> shows_fix row frame)
     \<or> latest d' = latest d \<and> (\<exists>row. latest d v = Some row \<and> frame_time frame \<le> fix_DeviceTime row)"

lemma upsert_ok:
  assumes "upsertLatestPosition e v t frame odo fuel rt w = (Inr u, w')"
  shows "\<exists>l. db w' = (db w)\<lparr>latest := l\<rparr>" and "shown_live (db w) (db w') v frame"
proof -
  obtain c where c: "columns_of t frame odo fuel rt = Some c"
    using assms unfolding upsertLatestPosition_def exec_stmt_ok Let_def by (auto split: option.splits)
  let ?row = "fix_columns.extend c (LatestRow.fields (frame_DriverID frame) (frame_TripID frame))"
  have row: "shows_fix ?row frame" "fix_DeviceTime ?row = frame_time frame"
    using columns_fix [OF c] by (simp_all add: shows_fix_def fix_columns.defs)
  have w': "db w' = (db w)\<lparr>latest := (latest (db w))(v \<mapsto> ?row)\<rparr>
      \<or> db w' = db w \<and> (\<exists>old. latest (db w) v = Some old \<and> \<not> fix_DeviceTime old < frame_time frame)"
    using assms row(2) unfolding upsertLatestPosition_def exec_stmt_ok Let_def c by (auto split: option.splits if_splits)
  from w' show "\<exists>l. db w' = (db w)\<lparr>latest := l\<rparr>"
    by (elim disjE) (blast, rule exI [of _ "latest (db w)"], simp)
  from w' show "shown_live (db w) (db w') v frame"
    unfolding shown_live_def using row(1) by (auto simp: not_less)
qed

text \<open>The snapshot of a frame: a new row, or in place of one with the identifier that was drawn.\<close>

definition put_snapshot :: "SnapshotRow \<Rightarrow> SnapshotRow list \<Rightarrow> SnapshotRow list" where
  "put_snapshot row rows =
     (if snap_ID row \<in> snap_ID ` set rows then map (\<lambda>x. if snap_ID x = snap_ID row then row else x) rows else rows @ [row])"

definition wrote_snapshot :: "ingest_db \<Rightarrow> ingest_db \<Rightarrow> RawFrame \<Rightarrow> bool" where
  "wrote_snapshot d d' frame \<longleftrightarrow>
     (\<exists>row. snapshots d' = put_snapshot row (snapshots d)
        \<and> Timestamp row = DeviceTime frame \<and> snap_Latitude row = sql_real (Latitude frame)
        \<and> snap_Longitude row = sql_real (Longitude frame) \<and> snap_Speed row = sql_real (Speed frame)
        \<and> snap_Heading row = sql_real (Heading frame) \<and> snap_DriverID row = frame_DriverID frame)"

lemma snapshot_ok:
  assumes "insertSnapshot e frame device v odo fuel w = (Inr u, w')"
  shows "\<exists>rs. db w' = (db w)\<lparr>snapshots := rs\<rparr>" and "wrote_snapshot (db w) (db w') frame"
proof -
  have "\<exists>row. db w' = (db w)\<lparr>snapshots := put_snapshot row (snapshots (db w))\<rparr>
        \<and> Timestamp row = DeviceTime frame \<and> snap_Latitude row = sql_real (Latitude frame)
        \<and> snap_Longitude row = sql_real (Longitude frame) \<and> snap_Speed row = sql_real (Speed frame)
        \<and> snap_Heading row = sql_real (Heading frame) \<and> snap_DriverID row = frame_DriverID frame"
    using assms unfolding insertSnapshot_def andThen_steps Let_def exec_stmt_ok
    by (elim conjE exE) (rule exI [where x = "SnapshotRow.make _ _ _ _ _ _ _ _ _ _ _ _ _ _"],
        auto simp: put_snapshot_def SnapshotRow.defs split: if_splits)
  then show "\<exists>rs. db w' = (db w)\<lparr>snapshots := rs\<rparr>" "wrote_snapshot (db w) (db w') frame"
    unfolding wrote_snapshot_def by auto
qed

lemma last_seen_ok: "UpdateLastSeen e imei w = (Inr u, w') \<Longrightarrow> \<exists>ds. db w' = (db w)\<lparr>devices := ds\<rparr>"
  unfolding UpdateLastSeen_def by (auto simp: exec_stmt_ok)

lemma save_events_ok:
  assumes "SaveEvents e i k evs w = (Inr u, w')"
  shows "\<exists>rows. db w' = (db w)\<lparr>outbox := outbox (db w) @ rows\<rparr> \<and> map out_Payload rows = evs
    \<and> (\<forall>r \<in> set rows. out_EventType r = getEventTypeName (out_Payload r) \<and> out_AggregateID r = i)"
  using assms unfolding SaveEvents_def
proof (induction evs arbitrary: w)
  case Nil
  then show ?case by (auto intro!: exI [of _ "[]"])
next
  case (Cons ev evs)
  then obtain w1 where 1: "save_event e i k ev w = (Inr (), w1)" and 2: "for_each (save_event e i k) evs w1 = (Inr u, w')"
    by (auto simp: andThen_ok)
  obtain r where r: "db w1 = (db w)\<lparr>outbox := outbox (db w) @ [r]\<rparr>" "out_Payload r = ev"
      "out_EventType r = getEventTypeName ev" "out_AggregateID r = i"
    using 1 unfolding save_event_def by (fastforce simp: exec_stmt_ok split: if_splits)
  obtain rows where "db w' = (db w1)\<lparr>outbox := outbox (db w1) @ rows\<rparr>" "map out_Payload rows = evs"
      "\<forall>r \<in> set rows. out_EventType r = getEventTypeName (out_Payload r) \<and> out_AggregateID r = i"
    using Cons.IH [OF 2] by blast
  then show ?case using r by (auto intro!: exI [of _ "r # rows"])
qed

lemma if_do_ok: "if_do b m w = (Inr u, w') \<longleftrightarrow> (if b then m w = (Inr u, w') else w' = w)"
  by (auto simp: if_do_def)

lemma sos_ok:
  assumes "sos_event ing device v frame rt w = (Inr sos, w')"
  shows "db w' = db w \<and> (if SOS frame then \<exists>s. sos = Some s \<and> so_DeviceIMEI s = IMEI frame \<and> so_VehicleID s = v
    \<and> so_Latitude s = Latitude frame \<and> so_Longitude s = Longitude frame \<and> so_DeviceTime s = DeviceTime frame
    else sos = None)"
  using assms by (auto simp: sos_event_def)

text \<open>The history row of a frame, of the message it came in.\<close>

definition wrote_history :: "gostring \<Rightarrow> ingest_db \<Rightarrow> ingest_db \<Rightarrow> RawFrame \<Rightarrow> bool" where
  "wrote_history rid d d' frame \<longleftrightarrow>
     (\<exists>row. positions d' = positions d @ [row] \<and> shows_fix row frame \<and> pos_RawEventID row = rid)"

lemma position_history:
  assumes "insertPosition e pid t v frame odo fuel rid rt w = (Inr u, w')"
  shows "wrote_history rid (db w) (db w') frame \<and> (\<exists>ps. db w' = (db w)\<lparr>positions := ps\<rparr>)"
proof -
  obtain row where r: "db w' = (db w)\<lparr>positions := positions (db w) @ [row]\<rparr>" "pos_RawEventID row = rid"
      "columns_of t frame odo fuel rt = Some (fix_columns.truncate row)"
    using insertPosition_ok [OF assms] by blast
  then show ?thesis using columns_fix [OF r(3)] by (auto simp: wrote_history_def)
qed

lemma write_rows_ok:
  assumes "write_rows ing device rid pid v rt odo fuel skip live frame w = (Inr u, w')"
  shows "\<exists>ps l rs. db w' = (db w)\<lparr>positions := ps, latest := l, snapshots := rs\<rparr>
    \<and> (if skip then ps = positions (db w) \<and> rs = snapshots (db w)
       else wrote_history rid (db w) (db w') frame \<and> wrote_snapshot (db w) (db w') frame)
    \<and> (if v \<noteq> '''' \<and> live \<and> fixTrusted frame then shown_live (db w) (db w') v frame else l = latest (db w))"
proof -
  obtain w1 w2 where
      1: "if_do (\<not> skip) (wrap ''position insert: ''
        (insertPosition (ing_env ing) pid (dev_TenantID device) v frame odo fuel rid rt)) w = (Inr (), w1)"
    and 2: "if_do (v \<noteq> '''' \<and> live \<and> fixTrusted frame) (wrap ''latest position upsert: ''
        (upsertLatestPosition (ing_env ing) v (dev_TenantID device) frame odo fuel rt)) w1 = (Inr (), w2)"
    and 3: "if_do (\<not> skip) (wrap ''snapshot insert: '' (insertSnapshot (ing_env ing) frame device v odo fuel)) w2 = (Inr u, w')"
    using assms unfolding write_rows_def Let_def andThen_ok by auto
  obtain ps where p: "db w1 = (db w)\<lparr>positions := ps\<rparr>" "skip \<longrightarrow> ps = positions (db w)"
      "\<not> skip \<longrightarrow> wrote_history rid (db w) (db w1) frame"
  proof (cases skip)
    case True
    then have "db w1 = (db w)\<lparr>positions := positions (db w)\<rparr>" using 1 by (simp add: if_do_ok)
    then show ?thesis using that True by blast
  next
    case False
    then have "insertPosition (ing_env ing) pid (dev_TenantID device) v frame odo fuel rid rt w = (Inr (), w1)"
      using 1 by (simp add: if_do_ok)
    then show ?thesis using position_history that False by blast
  qed
  obtain l where l: "db w2 = (db w1)\<lparr>latest := l\<rparr>" "if v \<noteq> '''' \<and> live \<and> fixTrusted frame 
        then shown_live (db w1) (db w2) v frame else l = latest (db w1)"
  proof (cases "v \<noteq> '''' \<and> live \<and> fixTrusted frame")
    case True
    then have "upsertLatestPosition (ing_env ing) v (dev_TenantID device) frame odo fuel rt w1 = (Inr (), w2)"
      using 2 by (simp add: if_do_ok)
    from upsert_ok [OF this] show ?thesis using that True by (metis (no_types, lifting))
  next
    case False
    then have "db w2 = (db w1)\<lparr>latest := latest (db w1)\<rparr>" using 2 by (simp add: if_do_ok)
    then show ?thesis using that [of "latest (db w1)"] False by simp
  qed
  obtain rs where r: "db w' = (db w2)\<lparr>snapshots := rs\<rparr>" "skip \<longrightarrow> rs = snapshots (db w2)"
      "\<not> skip \<longrightarrow> wrote_snapshot (db w2) (db w') frame"
  proof (cases skip)
    case True
    then have "db w' = (db w2)\<lparr>snapshots := snapshots (db w2)\<rparr>" using 3 by (simp add: if_do_ok)
    then show ?thesis by (rule that) (simp_all add: True)
  next
    case False
    then have "insertSnapshot (ing_env ing) frame device v odo fuel w2 = (Inr u, w')" using 3 by (simp add: if_do_ok)
    then obtain rs where "db w' = (db w2)\<lparr>snapshots := rs\<rparr>" "wrote_snapshot (db w2) (db w') frame"
      using snapshot_ok by blast
    then show ?thesis using False by (intro that) simp_all
  qed
  show ?thesis
    using p l r by (intro exI [of _ ps] exI [of _ l] exI [of _ rs]) (auto simp: wrote_history_def shown_live_def wrote_snapshot_def)
qed

lemma write_events_ok:
  assumes "write_events ing device pid v rt parked live ev frame w = (Inr (alert, sos), w')"
  shows "\<exists>rows. db w' = (db w)\<lparr>outbox := outbox (db w) @ rows\<rparr> \<and> map out_Payload rows = frame_events live ev alert sos
    \<and> (if SOS frame then \<exists>s. sos = Some s \<and> so_DeviceIMEI s = IMEI frame \<and> so_VehicleID s = v
         \<and> so_Latitude s = Latitude frame \<and> so_Longitude s = Longitude frame else sos = None)"
proof -
  obtain w1 w2 where 1: "(if parked then ret None else deviceHealthGuard ing pid device v frame) w = (Inr alert, w1)"
    and 2: "sos_event ing device v frame rt w1 = (Inr sos, w2)"
    and 3: "SaveEvents (ing_env ing) (if v = '''' then IMEI frame else v) ''Vehicle'' (frame_events live ev alert sos) w2
      = (Inr (), w')"
    using assms unfolding write_events_def andThen_ok by auto
  have "db w1 = db w" using 1 readsD [OF reads_health] by (fastforce simp: same_def split: if_splits)
  then show ?thesis using sos_ok [OF 2] save_events_ok [OF 3] by (auto split: if_splits)
qed

lemma store_frame_ok:
  assumes "store_frame ing device rid v odo fuel dedup frame w = (Inr x, w')"
  defines "skip \<equiv> (Parked dedup \<or> MovingDedup dedup) \<and> \<not> SOS frame" and "live \<equiv> \<not> Parked dedup \<or> SOS frame"
  obtains ps l rs rows ds ev where
    "db w' = (db w)\<lparr>positions := ps, latest := l, snapshots := rs, outbox := outbox (db w) @ rows, devices := ds\<rparr>"
    "eff_result x = no_result\<lparr>Accepted := True\<rparr>" "eff_position x = Some ev"
    "pe_DeviceIMEI ev = IMEI frame" "pe_Latitude ev = Latitude frame" "pe_Longitude ev = Longitude frame"
    "pe_DeviceTime ev = DeviceTime frame"
    "if skip then ps = positions (db w) \<and> rs = snapshots (db w)
     else wrote_history rid (db w) (db w') frame \<and> wrote_snapshot (db w) (db w') frame"
    "if v \<noteq> '''' \<and> live \<and> fixTrusted frame then shown_live (db w) (db w') v frame else l = latest (db w)"
    "map out_Payload rows = frame_events live ev (eff_alert x) (eff_sos x)"
    "if SOS frame then \<exists>s. eff_sos x = Some s \<and> so_DeviceIMEI s = IMEI frame \<and> so_VehicleID s = v
       \<and> so_Latitude s = Latitude frame \<and> so_Longitude s = Longitude frame else eff_sos x = None"
proof -
  from assms(1) obtain pid rt w1 w2 w3 alert sos ev where
      1: "write_rows ing device rid pid v rt odo fuel skip live frame w1 = (Inr (), w2)" "db w1 = db w"
        "ev = position_event pid device v frame odo fuel rt"
    and 2: "write_events ing device pid v rt (Parked dedup) live ev frame w2 = (Inr (alert, sos), w3)"
    and 3: "UpdateLastSeen (ing_env ing) (IMEI frame) w3 = (Inr (), w')"
    and x: "x = \<lparr>eff_result = no_result\<lparr>Accepted := True\<rparr>, eff_position = Some ev, eff_sos = sos, eff_alert = alert\<rparr>"
    unfolding store_frame_def Let_def skip_def live_def by (fastforce simp: andThen_ok)
  from write_rows_ok [OF 1(1), unfolded 1(2)] obtain ps l rs where r: "db w2 = (db w)\<lparr>positions := ps, latest := l, snapshots := rs\<rparr>"
      "if skip then ps = positions (db w) \<and> rs = snapshots (db w)
       else wrote_history rid (db w) (db w2) frame \<and> wrote_snapshot (db w) (db w2) frame"
      "if v \<noteq> '''' \<and> live \<and> fixTrusted frame then shown_live (db w) (db w2) v frame else l = latest (db w)"
    by blast
  from write_events_ok [OF 2] obtain rows where e: "db w3 = (db w2)\<lparr>outbox := outbox (db w2) @ rows\<rparr>"
      "map out_Payload rows = frame_events live ev alert sos"
      "if SOS frame then \<exists>s. sos = Some s \<and> so_DeviceIMEI s = IMEI frame \<and> so_VehicleID s = v
         \<and> so_Latitude s = Latitude frame \<and> so_Longitude s = Longitude frame else sos = None"
    by blast
  from last_seen_ok [OF 3] obtain ds where d: "db w' = (db w3)\<lparr>devices := ds\<rparr>" by blast
  show ?thesis
    using r e d by (intro that [where ps = ps and l = l and rs = rs and rows = rows and ds = ds and ev = ev]) (auto simp: x 1(3) position_event_def wrote_history_def shown_live_def wrote_snapshot_def)
qed


section \<open>The outcomes of a frame\<close>

text \<open>The audit log is all the guard writes.\<close>

definition audits :: "ingest_db \<Rightarrow> ingest_db \<Rightarrow> bool" where
  "audits d d' \<longleftrightarrow> (\<exists>rs. d' = d\<lparr>audit_logs := rs\<rparr>)"

interpretation auditing: db_preorder audits
proof unfold_locales
  show "audits d d" for d unfolding audits_def by (rule exI [of _ "audit_logs d"]) simp
qed (auto simp: audits_def)

lemma audits_LogAction: "along audits (LogAction e committed t action tab rid old new)"
  unfolding LogAction_def resolveTenant_def
  by (intro auditing.along_intros auditing.along_exec_stmt) (auto simp: audits_def split: if_splits)

lemma audits_guarded: "(\<And>x. along audits (check x)) \<Longrightarrow> along audits (guarded check v)"
  unfolding guarded_def by (intro auditing.along_intros) assumption

lemma audits_odometer: "along audits (adjust_odometer ing committed frame)"
  unfolding adjust_odometer_def CheckOdometer_def GetLastOdometer_def Let_def
  by (intro audits_guarded auditing.along_intros audits_LogAction)

lemma audits_fuel: "along audits (adjust_fuel ing committed frame)"
  unfolding adjust_fuel_def ClampFuelLevel_def GetLastFuelLevel_def Let_def
  by (intro audits_guarded auditing.along_intros audits_LogAction)

text \<open>The message of the frame has been stored before, or the identifier drawn for it is taken.\<close>

definition known :: "ingest_db \<Rightarrow> RawFrame \<Rightarrow> bool" where
  "known d frame \<longleftrightarrow> (\<exists>x \<in> set (raw_events d). raw_MsgID x = nullStr (ProviderMsgID frame) \<and> raw_MsgID x \<noteq> None
     \<and> raw_IMEI x = IMEI frame)"

definition id_taken :: "gostring \<Rightarrow> ingest_db \<Rightarrow> bool" where
  "id_taken rid d \<longleftrightarrow> rid \<in> raw_ID ` set (raw_events d)"

text \<open>The identifier an ingestion that starts in \<open>w\<close> draws for its message, after it began its transaction and read the device.\<close>

definition drawn_id :: "ingestor \<Rightarrow> ingest_db world \<Rightarrow> gostring" where
  "drawn_id ing w = uuid_at (ing_env ing) (Suc (Suc (tick w)))"

lemma raw_event_ok:
  assumes "insertRawEvent e rid t frame w = (Inr deduped, w')"
  shows "if deduped then db w' = db w \<and> (known (db w) frame \<or> rid \<in> raw_ID ` set (raw_events (db w)))
    else \<not> known (db w) frame \<and> db w' = (db w)\<lparr>raw_events := raw_events (db w) @
      [\<lparr>raw_ID = rid, raw_TenantID = t, raw_IMEI = IMEI frame, raw_MsgID = nullStr (ProviderMsgID frame),
        raw_Payload = frame\<rparr>]\<rparr>"
  using assms unfolding insertRawEvent_def Let_def known_def andThen_ok exec_count_ok
  by (auto split: if_splits)

text \<open>What an accepted frame leaves: its message, its last-seen stamp and, unless it is redundant, its position.\<close>

definition wrote_frame :: "ingest_db \<Rightarrow> ingest_db \<Rightarrow> RawFrame \<Rightarrow> effects \<Rightarrow> bool" where
  "wrote_frame d d' frame x \<longleftrightarrow>
     eff_result x = no_result\<lparr>Accepted := True\<rparr> \<and> quarantined d' = quarantined d
     \<and> (\<exists>r. raw_events d' = raw_events d @ [r] \<and> raw_Payload r = frame \<and> raw_IMEI r = IMEI frame
          \<and> raw_MsgID r = nullStr (ProviderMsgID frame)
          \<and> (positions d' = positions d \<or> wrote_history (raw_ID r) d d' frame)
          \<and> (SOS frame \<longrightarrow> wrote_history (raw_ID r) d d' frame))
     \<and> (latest d' = latest d \<or> fixTrusted frame \<and> (\<exists>v. shown_live d d' v frame))
     \<and> (\<exists>ev live rows. outbox d' = outbox d @ rows \<and> eff_position x = Some ev
          \<and> pe_DeviceIMEI ev = IMEI frame \<and> pe_Latitude ev = Latitude frame \<and> pe_Longitude ev = Longitude frame
          \<and> pe_DeviceTime ev = DeviceTime frame
          \<and> map out_Payload rows = frame_events live ev (eff_alert x) (eff_sos x)
          \<and> (SOS frame \<longrightarrow> live \<and> wrote_snapshot d d' frame
               \<and> (\<exists>s. eff_sos x = Some s \<and> so_DeviceIMEI s = IMEI frame
                    \<and> so_Latitude s = Latitude frame \<and> so_Longitude s = Longitude frame))
          \<and> (\<not> live \<longrightarrow> positions d' = positions d \<and> snapshots d' = snapshots d \<and> latest d' = latest d))"

lemma process_frame_ok:
  assumes "process_frame ing committed device frame w = (Inr x, w')"
  shows "if Deduped (eff_result x)
    then db w' = db w \<and> eff_result x = no_result\<lparr>Accepted := True, Deduped := True\<rparr>
      \<and> (known (db w) frame \<or> id_taken (uuid_at (ing_env ing) (tick w)) (db w))
    else \<not> known (db w) frame \<and> wrote_frame (db w) (db w') frame x"
proof -
  let ?e = "ing_env ing"
  obtain w1 deduped where
      1: "insertRawEvent ?e (uuid_at ?e (tick w)) (dev_TenantID device) frame (w\<lparr>tick := Suc (tick w)\<rparr>) = (Inr deduped, w1)"
    and 2: "(if deduped then ret (no_effects\<lparr>eff_result := no_result\<lparr>Accepted := True, Deduped := True\<rparr>\<rparr>) else
        andThen (adjust_odometer ing committed frame) (\<lambda>odo.
        andThen (adjust_fuel ing committed frame) (\<lambda>fuel.
        andThen (resolve_vehicle ing device frame) (\<lambda>vehicleID.
        andThen (checkDedup ing frame) (\<lambda>dedup.
        andThen (resolve_trip ing device vehicleID frame) (\<lambda>frame.
          store_frame ing device (uuid_at ?e (tick w)) vehicleID odo fuel dedup frame)))))) w1 = (Inr x, w')"
    using assms unfolding process_frame_def Let_def by (auto simp: andThen_ok)
  note raw = raw_event_ok [OF 1, simplified]
  show ?thesis
  proof (cases deduped)
    case True
    then show ?thesis using raw 2 by (auto simp: no_effects_def id_taken_def)
  next
    case False
    then obtain odo fuel v dedup fr w2 w3 w4 w5 w6 where
        o: "adjust_odometer ing committed frame w1 = (Inr odo, w2)"
      and f: "adjust_fuel ing committed frame w2 = (Inr fuel, w3)"
      and v: "resolve_vehicle ing device frame w3 = (Inr v, w4)"
      and dd: "checkDedup ing frame w4 = (Inr dedup, w5)"
      and t: "resolve_trip ing device v frame w5 = (Inr fr, w6)"
      and st: "store_frame ing device (uuid_at ?e (tick w)) v odo fuel dedup fr w6 = (Inr x, w')"
      using 2 by (auto simp: andThen_ok)
    obtain trip where fr: "fr = frame\<lparr>frame_TripID := trip\<rparr>"
    proof -
      have "fr = frame \<or> (\<exists>trip. fr = frame\<lparr>frame_TripID := trip\<rparr>)"
        using t unfolding resolve_trip_def by (auto simp: andThen_ok split: if_splits)
      moreover have "frame = frame\<lparr>frame_TripID := frame_TripID frame\<rparr>" by simp
      ultimately show thesis using that by blast
    qed
    have "Satellites fr = Satellites frame" "frame_Valid fr = frame_Valid frame" "Latitude fr = Latitude frame"
        "Longitude fr = Longitude frame"
      by (simp_all add: fr)
    then have same_fix: "shows_fix row fr = shows_fix row frame" "fixTrusted fr = fixTrusted frame" "frame_time fr = frame_time frame"
      for row :: "'y fix_columns_scheme"
      by (simp only: fixTrusted_def | simp add: shows_fix_def frame_time_def fr)+
    have "audits (db w1) (db w2)" "audits (db w2) (db w3)"
      using audits_odometer audits_fuel o f unfolding along_def by blast+
    then obtain au where "db w3 = (db w1)\<lparr>audit_logs := au\<rparr>" by (auto simp: audits_def)
    moreover have "db w4 = db w3" "db w5 = db w4" "db w6 = db w5"
      using readsD [OF reads_vehicle v] readsD [OF reads_dedup dd] readsD [OF reads_trip t] by (simp_all add: same_def)
    ultimately have d6: "db w6 = (db w1)\<lparr>audit_logs := au\<rparr>" by simp
    let ?skip = "(Parked dedup \<or> MovingDedup dedup) \<and> \<not> SOS frame" and ?live = "\<not> Parked dedup \<or> SOS frame"
    define r where "r = \<lparr>raw_ID = uuid_at ?e (tick w), raw_TenantID = dev_TenantID device, raw_IMEI = IMEI frame,
        raw_MsgID = nullStr (ProviderMsgID frame), raw_Payload = frame\<rparr>"
    have r_sel: "raw_ID r = uuid_at ?e (tick w)" "raw_Payload r = frame" "raw_IMEI r = IMEI frame"
        "raw_MsgID r = nullStr (ProviderMsgID frame)"
      by (simp_all add: r_def)
    have w1: "\<not> known (db w) frame" "db w1 = (db w)\<lparr>raw_events := raw_events (db w) @ [r]\<rparr>"
      using raw False by (simp_all add: r_def)
    have parts: "positions (db w6) = positions (db w)" "snapshots (db w6) = snapshots (db w)" "latest (db w6) = latest (db w)"
        "outbox (db w6) = outbox (db w)"
      by (simp_all add: d6 w1(2))
    obtain ps l rs rows ds ev where
        d': "db w' = (db w6)\<lparr>positions := ps, latest := l, snapshots := rs, outbox := outbox (db w6) @ rows, devices := ds\<rparr>"
      and x: "eff_result x = no_result\<lparr>Accepted := True\<rparr>" "eff_position x = Some ev"
      and ev: "pe_DeviceIMEI ev = IMEI frame" "pe_Latitude ev = Latitude frame" "pe_Longitude ev = Longitude frame"
        "pe_DeviceTime ev = DeviceTime frame"
      and skip: "if ?skip then ps = positions (db w6) \<and> rs = snapshots (db w6)
        else wrote_history (raw_ID r) (db w6) (db w') fr \<and> wrote_snapshot (db w6) (db w') fr"
      and live: "if v \<noteq> '''' \<and> ?live \<and> fixTrusted fr then shown_live (db w6) (db w') v fr else l = latest (db w6)"
      and rows: "map out_Payload rows = frame_events ?live ev (eff_alert x) (eff_sos x)"
      and sos: "if SOS frame then \<exists>s. eff_sos x = Some s \<and> so_DeviceIMEI s = IMEI frame \<and> so_VehicleID s = v
        \<and> so_Latitude s = Latitude frame \<and> so_Longitude s = Longitude frame else eff_sos x = None"
    proof -
      have sel: "IMEI fr = IMEI frame" "DeviceTime fr = DeviceTime frame" "Latitude fr = Latitude frame"
          "Longitude fr = Longitude frame" "SOS fr = SOS frame"
        by (simp_all add: fr)
      show thesis
        using st
        by (rule store_frame_ok) (rule that, assumption+, (simp only: sel r_sel)+)
    qed
    have hist: "wrote_history (raw_ID r) (db w6) (db w') fr = wrote_history (raw_ID r) (db w) (db w') frame"
        "wrote_snapshot (db w6) (db w') fr = wrote_snapshot (db w) (db w') frame"
        "shown_live (db w6) (db w') v fr = shown_live (db w) (db w') v frame"
      by (simp_all add: wrote_history_def wrote_snapshot_def shown_live_def same_fix parts) (simp_all add: fr)
    have fields: "positions (db w') = ps" "latest (db w') = l" "snapshots (db w') = rs" by (simp_all add: d')
    have pos: "positions (db w') = positions (db w) \<or> wrote_history (raw_ID r) (db w) (db w') frame"
      using skip unfolding hist parts fields by (auto split: if_splits)
    have map: "latest (db w') = latest (db w) \<or> fixTrusted frame \<and> (\<exists>v. shown_live (db w) (db w') v frame)"
      using live unfolding hist parts fields same_fix by (auto split: if_splits)
    have still: "\<not> ?live \<longrightarrow> positions (db w') = positions (db w) \<and> snapshots (db w') = snapshots (db w)
        \<and> latest (db w') = latest (db w)"
      using skip live unfolding parts fields by auto
    have alarm: "SOS frame \<longrightarrow> wrote_history (raw_ID r) (db w) (db w') frame \<and> wrote_snapshot (db w) (db w') frame
        \<and> (\<exists>s. eff_sos x = Some s \<and> so_DeviceIMEI s = IMEI frame \<and> so_Latitude s = Latitude frame
             \<and> so_Longitude s = Longitude frame)"
      using skip sos unfolding hist by auto
    have out: "outbox (db w') = outbox (db w) @ rows" "quarantined (db w') = quarantined (db w)"
        "raw_events (db w') = raw_events (db w) @ [r]"
      by (simp_all add: d' d6 w1(2))
    have "wrote_frame (db w) (db w') frame x"
      unfolding wrote_frame_def using pos map still alarm out rows x ev r_sel
      by (intro conjI exI [of _ ev] exI [of _ ?live] exI [of _ rows] exI [of _ r]) simp_all
    then show ?thesis using w1(1) x by simp
  qed
qed

lemma quarantineFrame_ok:
  assumes "quarantineFrame ing frame reason w = (Inr u, w')"
  shows "\<exists>q. db w' = (db w)\<lparr>quarantined := quarantined (db w) @ [q]\<rparr> \<and> q_RawPayload q = frame \<and> Reason q = reason
    \<and> q_Status q = ''open'' \<and> Source q \<in> {''own'', ''loconav'', ''wheelseye''} \<and> Source q = frame_Provider frame"
proof -
  obtain dev w1 q where g: "attempt (GetByIMEI (ing_env ing) (IMEI frame)) w = (Inr dev, w1)"
    and q: "Quarantine (ing_env ing) q (w1\<lparr>tick := Suc (Suc (tick w1))\<rparr>) = (Inr u, w')" "q_RawPayload q = frame"
      "Reason q = reason" "q_Status q = ''open''" "Source q = frame_Provider frame"
    using assms unfolding quarantineFrame_def Let_def andThen_ok by fastforce
  then have "db w1 = db w"
    by (auto simp: GetByIMEI_def wrap_def query_def Let_def split: prod.splits sum.splits option.splits)
  then show ?thesis using q unfolding Quarantine_def by (fastforce simp: exec_stmt_ok insert_quarantine_def split: if_splits)
qed

text \<open>The four ways a frame can be disposed of.\<close>

definition set_aside :: "ingest_db \<Rightarrow> ingest_db \<Rightarrow> RawFrame \<Rightarrow> gostring \<Rightarrow> bool" where
  "set_aside d d' frame reason \<longleftrightarrow> (\<exists>q. d' = d\<lparr>quarantined := quarantined d @ [q]\<rparr> \<and> q_RawPayload q = frame
     \<and> Reason q = reason \<and> q_Status q = ''open'' \<and> Source q = frame_Provider frame
     \<and> Source q \<in> {''own'', ''loconav'', ''wheelseye''})"

definition disposed :: "gostring \<Rightarrow> ingest_db \<Rightarrow> ingest_db \<Rightarrow> RawFrame \<Rightarrow> effects \<Rightarrow> bool" where
  "disposed rid d d' frame x \<longleftrightarrow>
     (case find (\<lambda>x. dev_IMEI x = IMEI frame) (devices d) of
        None \<Rightarrow> x = no_effects \<and> set_aside d d' frame ''unknown_device''
      | Some device \<Rightarrow>
          if dev_Status device \<noteq> ''active''
          then x = no_effects \<and> set_aside d d' frame
            (if dev_Status device = ''quarantined'' then ''quarantined_device'' else ''retired_device'')
          else if Deduped (eff_result x)
          then eff_result x = no_result\<lparr>Accepted := True, Deduped := True\<rparr> \<and> d' = d \<and> (known d frame \<or> id_taken rid d)
          else \<not> known d frame \<and> wrote_frame d d' frame x)"

lemma ingest_tx_ok:
  assumes "ingest_tx ing committed frame w = (Inr x, w')"
  shows "disposed (uuid_at (ing_env ing) (Suc (tick w))) (db w) (db w') frame x"
proof -
  let ?dev = "find (\<lambda>x. dev_IMEI x = IMEI frame) (devices (db w))"
  define w1 where "w1 = w\<lparr>tick := Suc (tick w)\<rparr>"
  then have w1: "db w1 = db w" by simp
  have rest: "(case ?dev of
         None \<Rightarrow> andThen (quarantineFrame ing frame ''unknown_device'') (\<lambda>_. ret no_effects)
       | Some device \<Rightarrow>
           if dev_Status device \<noteq> ''active''
           then andThen (quarantineFrame ing frame
                  (if dev_Status device = ''quarantined'' then ''quarantined_device'' else ''retired_device''))
                (\<lambda>_. ret no_effects)
           else process_frame ing committed device frame) w1 = (Inr x, w')"
    using assms unfolding ingest_tx_def GetByIMEI_def
    by (simp only: andThen_ok wrap_ok query_ok w1_def) auto
  show ?thesis
  proof (cases ?dev)
    case None
    then show ?thesis
      using rest quarantineFrame_ok unfolding disposed_def set_aside_def by (fastforce simp: andThen_ok w1)
  next
    case (Some device)
    show ?thesis
    proof (cases "dev_Status device = ''active''")
      case True
      then have "process_frame ing committed device frame w1 = (Inr x, w')" using rest Some by simp
      from process_frame_ok [OF this, unfolded w1] show ?thesis
        using True Some by (auto simp: disposed_def w1_def split: if_splits)
    next
      case False
      then obtain u where "quarantineFrame ing frame
          (if dev_Status device = ''quarantined'' then ''quarantined_device'' else ''retired_device'') w1 = (Inr u, w')"
          and "x = no_effects"
        using rest Some by (auto simp: andThen_ok)
      from quarantineFrame_ok [OF this(1)] this(2) show ?thesis
        using False Some by (auto simp: disposed_def set_aside_def w1)
    qed
  qed
qed

lemma ingest_ok:
  assumes "IngestRawFrame ing frame w = (Inr (res, pubs), w')"
  obtains x where "res = eff_result x" and "pubs = publications x" and "disposed (drawn_id ing w) (db w) (db w') frame x"
proof -
  obtain x where run: "with_tx (ing_env ing) False (\<lambda>_. ingest_tx ing (db w) frame) w = (Inr x, w')"
      and x: "res = eff_result x" "pubs = publications x"
    using assms by (auto simp: IngestRawFrame_def andThen_ok)
  obtain w2 where "ingest_tx ing (db w) frame (w\<lparr>tick := Suc (tick w)\<rparr>) = (Inr x, w2)" "db w' = db w2"
    using run by (auto simp: with_tx_def query_def Let_def split: prod.splits sum.splits option.splits)
  then have "disposed (drawn_id ing w) (db w) (db w') frame x" using ingest_tx_ok by (fastforce simp: drawn_id_def)
  with x that show ?thesis by blast
qed

text \<open>
  C27: every ingestion ends in one of these ways: it fails and leaves the database as it was; the device is
  unknown or not active and the frame is set aside for triage, and nothing else is written or
  published; the message was stored before and nothing is written or published; or it is stored, with
  its events in the outbox of the same commit, and its position is published after it.
\<close>

theorem ingest_outcomes:
  "case IngestRawFrame ing frame w of
     (Inl err, w') \<Rightarrow> db w' = db w
   | (Inr (res, pubs), w') \<Rightarrow> \<exists>x. res = eff_result x \<and> disposed (drawn_id ing w) (db w) (db w') frame x
       \<and> (if Accepted res \<and> \<not> Deduped res
          then \<exists>p. eff_position x = Some p \<and> hd pubs = TelemetrySnapshot p
          else pubs = [])"
proof -
  have ok: "\<exists>x. res = eff_result x \<and> disposed (drawn_id ing w) (db w) (db w') frame x
       \<and> (if Accepted res \<and> \<not> Deduped res
          then \<exists>p. eff_position x = Some p \<and> hd pubs = TelemetrySnapshot p
          else pubs = [])"
    if run: "IngestRawFrame ing frame w = (Inr (res, pubs), w')" for res pubs w'
  proof -
    obtain x where x: "res = eff_result x" "pubs = publications x" "disposed (drawn_id ing w) (db w) (db w') frame x"
      using ingest_ok [OF run] .
    show ?thesis
    proof (cases "Accepted res \<and> \<not> Deduped res")
      case False
      then show ?thesis using x by (auto simp: publications_def)
    next
      case True
      then have wf: "wrote_frame (db w) (db w') frame x"
        using x by (auto simp: disposed_def no_effects_def split: option.splits if_splits)
      then obtain p where "eff_position x = Some p" by (auto simp: wrote_frame_def)
      then show ?thesis using x True by (intro exI [of _ x]) (auto simp: publications_def)
    qed
  qed
  obtain r w' where run: "IngestRawFrame ing frame w = (r, w')" by force
  show ?thesis
  proof (cases r)
    case (Inl err)
    then show ?thesis using run ingest_failed by simp
  next
    case (Inr out)
    obtain res pubs where "out = (res, pubs)" by force
    then show ?thesis using ok [of res pubs w'] run Inr by (simp only: prod.case sum.case)
  qed
qed


text \<open>
  A frame of an unknown device can only be set aside when its provider is one the table admits: those of
  the hardware protocols fail, and leave no trace.
\<close>

lemma hardware_not_quarantined:
  assumes "find (\<lambda>x. dev_IMEI x = IMEI frame) (devices (db w)) = None"
    and "frame_Provider frame \<in> {''gt06'', ''teltonika'', ''ais140''}"
  shows "\<exists>err w'. IngestRawFrame ing frame w = (Inl err, w') \<and> db w' = db w"
proof -
  obtain r w' where run: "IngestRawFrame ing frame w = (r, w')" by force
  show ?thesis
  proof (cases r)
    case (Inl err)
    then show ?thesis using run ingest_failed by blast
  next
    case (Inr out)
    obtain res pubs where "out = (res, pubs)" by force
    then obtain x where "disposed (drawn_id ing w) (db w) (db w') frame x" using ingest_ok run Inr by metis
    then show ?thesis using assms by (auto simp: disposed_def set_aside_def)
  qed
qed

text \<open>
  C29: an emergency is never lost: when a frame with SOS is stored, whatever the redundancy checks say, the
  same commit has its message, its position of that message in the history, its snapshot, and in the
  outbox its position event and its SOS event; and both are published after it.
\<close>

theorem sos_never_lost:
  assumes "IngestRawFrame ing frame w = (Inr (res, pubs), w')" and "Accepted res" and "\<not> Deduped res" and "SOS frame"
  shows "\<exists>r rows p s rest. raw_events (db w') = raw_events (db w) @ [r] \<and> raw_Payload r = frame
    \<and> wrote_history (raw_ID r) (db w) (db w') frame \<and> wrote_snapshot (db w) (db w') frame
    \<and> outbox (db w') = outbox (db w) @ rows
    \<and> PositionEvent p \<in> set (map out_Payload rows) \<and> SOSEvent s \<in> set (map out_Payload rows)
    \<and> pubs = TelemetrySnapshot p # SOSPublished s # rest
    \<and> pe_DeviceIMEI p = IMEI frame \<and> pe_Latitude p = Latitude frame \<and> pe_Longitude p = Longitude frame
    \<and> so_DeviceIMEI s = IMEI frame \<and> so_Latitude s = Latitude frame \<and> so_Longitude s = Longitude frame"
proof -
  obtain x where x: "res = eff_result x" "pubs = publications x" "disposed (drawn_id ing w) (db w) (db w') frame x"
    using ingest_ok [OF assms(1)] .
  then have "wrote_frame (db w) (db w') frame x"
    using assms(2,3) by (auto simp: disposed_def no_effects_def split: option.splits if_splits)
  then obtain r ev live rows s where o: "outbox (db w') = outbox (db w) @ rows" "eff_position x = Some ev"
      "map out_Payload rows = frame_events live ev (eff_alert x) (eff_sos x)" "live"
      "eff_sos x = Some s" "so_DeviceIMEI s = IMEI frame" "so_Latitude s = Latitude frame" "so_Longitude s = Longitude frame"
    and e: "pe_DeviceIMEI ev = IMEI frame" "pe_Latitude ev = Latitude frame" "pe_Longitude ev = Longitude frame"
    and h: "raw_events (db w') = raw_events (db w) @ [r]" "raw_Payload r = frame"
      "wrote_history (raw_ID r) (db w) (db w') frame" "wrote_snapshot (db w) (db w') frame"
    using assms(4) unfolding wrote_frame_def by blast
  have "PositionEvent ev \<in> set (map out_Payload rows)" "SOSEvent s \<in> set (map out_Payload rows)"
    using o(4,5) by (simp_all only: o(3) frame_events_def) auto
  moreover have "\<exists>rest. pubs = TelemetrySnapshot ev # SOSPublished s # rest"
    using x assms(2,3) o by (auto simp: publications_def)
  ultimately show ?thesis using o e h by blast
qed

text \<open>A frame with the message of a frame that was stored, at any later time.\<close>

lemma known_grows: "known d frame \<Longrightarrow> grows d d' \<Longrightarrow> known d' frame"
  unfolding known_def grows_def by (auto dest: set_mono_prefix)

lemma status_grows:
  assumes "static_part d' = static_part d"
  shows "map_option dev_Status (find (\<lambda>x. dev_IMEI x = k) (devices d'))
    = map_option dev_Status (find (\<lambda>x. dev_IMEI x = k) (devices d))"
proof -
  have *: "map_option dev_Status (find (\<lambda>x. dev_IMEI x = k) xs)
      = map_option dev_Status (find (\<lambda>x. dev_IMEI x = k) (map (\<lambda>x. x\<lparr>LastSeenAt := None, dev_UpdatedAt := 0\<rparr>) xs))"
    for xs :: "DeviceRow list"
    by (induction xs) auto
  show ?thesis using assms by (subst (1 2) *) (simp add: static_part_def)
qed

lemma disposed_accepted:
  assumes "disposed rid d d' frame x" and "Accepted (eff_result x)" and "\<not> id_taken rid d"
  shows "map_option dev_Status (find (\<lambda>x. dev_IMEI x = IMEI frame) (devices d)) = Some ''active''
    \<and> (if Deduped (eff_result x) then known d frame else wrote_frame d d' frame x)"
  using assms by (auto simp: disposed_def no_effects_def split: option.splits if_splits)

text \<open>
  C28: ingestion is idempotent for messages that carry an identifier of their provider: once such a frame
  has been accepted, and after any other ingestions, another frame of that device with that identifier
  that is ingested is answered as a duplicate, and neither writes nor publishes anything. (The
  identifier drawn for the row of the first one must not be that of another row.)
\<close>

theorem replay_ignored:
  assumes "IngestRawFrame ing frame w = (Inr (res, pubs), w1)" and "Accepted res" and "\<not> id_taken (drawn_id ing w) (db w)"
    and "ProviderMsgID frame \<noteq> ''''"
    and "IngestRawFrame ing' frame' (ingest_run fs w1) = (Inr (res', pubs'), w')"
    and "IMEI frame' = IMEI frame" and "ProviderMsgID frame' = ProviderMsgID frame"
  shows "Deduped res' \<and> Accepted res' \<and> pubs' = [] \<and> db w' = db (ingest_run fs w1)"
proof -
  let ?w = "ingest_run fs w1"
  obtain x where x: "res = eff_result x" "disposed (drawn_id ing w) (db w) (db w1) frame x" using ingest_ok [OF assms(1)] .
  have act: "map_option dev_Status (find (\<lambda>x. dev_IMEI x = IMEI frame) (devices (db w))) = Some ''active''"
    and out: "if Deduped res then known (db w) frame else wrote_frame (db w) (db w1) frame x"
    using disposed_accepted [OF x(2)] assms(2,3) x(1) by simp_all
  have g1: "grows (db w) (db w1)" using assms(1) grows_IngestRawFrame unfolding along_def by blast
  have "known (db w1) frame"
  proof (cases "Deduped res")
    case True
    then show ?thesis using out g1 known_grows by simp
  next
    case False
    then show ?thesis using out assms(4) by (auto simp: wrote_frame_def known_def nullStr_def)
  qed
  then have k: "known (db ?w) frame'" using known_grows [OF _ grows_run] assms(6,7) by (simp add: known_def)
  have "static_part (db ?w) = static_part (db w)"
    using grows_trans [OF g1 grows_run] unfolding grows_def by blast
  then have "map_option dev_Status (find (\<lambda>x. dev_IMEI x = IMEI frame') (devices (db ?w))) = Some ''active''"
    using act status_grows [of "db ?w" "db w" "IMEI frame"] by (simp only: assms(6))
  then obtain device where "find (\<lambda>x. dev_IMEI x = IMEI frame') (devices (db ?w)) = Some device" "dev_Status device = ''active''"
    by (auto simp: map_option_eq_Some)
  moreover obtain y where "res' = eff_result y" "pubs' = publications y" "disposed (drawn_id ing' ?w) (db ?w) (db w') frame' y"
    using ingest_ok [OF assms(5)] .
  ultimately show ?thesis using k by (auto simp: disposed_def publications_def split: if_splits)
qed

text \<open>Frames without an identifier of their provider are never taken for duplicates.\<close>

lemma keyless_stored:
  assumes "IngestRawFrame ing frame w = (Inr (res, pubs), w')" and "Accepted res" and "ProviderMsgID frame = ''''"
    and "\<not> id_taken (drawn_id ing w) (db w)"
  shows "\<not> Deduped res"
proof -
  obtain x where "res = eff_result x" "disposed (drawn_id ing w) (db w) (db w') frame x" using ingest_ok [OF assms(1)] .
  then show ?thesis using assms(2-4) by (auto simp: disposed_def no_effects_def known_def nullStr_def split: option.splits if_splits)
qed

section \<open>Where the rows come from\<close>

text \<open>
  Every position shows the fix of the message it refers to, and every row of the live map a trusted fix of
  a stored message.
\<close>

definition sourced :: "ingest_db \<Rightarrow> bool" where
  "sourced d \<longleftrightarrow>
     (\<forall>p \<in> set (positions d). \<exists>r \<in> set (raw_events d). raw_ID r = pos_RawEventID p \<and> shows_fix p (raw_Payload r))
     \<and> (\<forall>row \<in> ran (latest d). \<exists>r \<in> set (raw_events d). shows_fix row (raw_Payload r) \<and> fixTrusted (raw_Payload r))"

lemma sourced_same:
  "sourced d \<Longrightarrow> positions d' = positions d \<Longrightarrow> latest d' = latest d \<Longrightarrow> raw_events d' = raw_events d \<Longrightarrow> sourced d'"
  by (simp add: sourced_def)

lemma sourced_wrote:
  assumes "sourced d" and "wrote_frame d d' frame x"
  shows "sourced d'"
proof -
  obtain r where r: "raw_events d' = raw_events d @ [r]" "raw_Payload r = frame"
      "positions d' = positions d \<or> wrote_history (raw_ID r) d d' frame"
    using assms(2) unfolding wrote_frame_def by blast
  have "\<exists>x \<in> set (raw_events d'). raw_ID x = pos_RawEventID p \<and> shows_fix p (raw_Payload x)" if "p \<in> set (positions d')" for p
    using r that assms(1) unfolding sourced_def wrote_history_def by auto
  moreover have "\<exists>x \<in> set (raw_events d'). shows_fix row (raw_Payload x) \<and> fixTrusted (raw_Payload x)"
    if row: "row \<in> ran (latest d')" for row
  proof -
    have "latest d' = latest d \<or> fixTrusted frame \<and> (\<exists>v. shown_live d d' v frame)"
      using assms(2) unfolding wrote_frame_def by blast
    then have "row \<in> ran (latest d) \<or> fixTrusted frame \<and> shows_fix row frame"
      using row unfolding shown_live_def ran_def by (auto split: if_splits)
    then show ?thesis using r(1,2) assms(1) unfolding sourced_def by auto
  qed
  ultimately show ?thesis unfolding sourced_def by blast
qed

lemma sourced_ingest:
  assumes "sourced (db w)"
  shows "sourced (db (snd (IngestRawFrame ing frame w)))"
proof -
  obtain out w' where run: "IngestRawFrame ing frame w = (out, w')" by force
  have "sourced (db w')"
  proof (cases out)
    case (Inl err)
    then show ?thesis using assms ingest_failed run by simp
  next
    case (Inr result)
    obtain res pubs where "result = (res, pubs)" by force
    then obtain x where "disposed (drawn_id ing w) (db w) (db w') frame x" using run Inr ingest_ok by metis
    then show ?thesis
      using assms sourced_wrote [OF assms] unfolding disposed_def set_aside_def
      by (auto intro: sourced_same split: option.splits if_splits)
  qed
  then show ?thesis using run by simp
qed

lemma sourced_run: "sourced (db w) \<Longrightarrow> sourced (db (ingest_run fs w))"
  by (induction fs w rule: ingest_run.induct) (simp_all add: sourced_ingest)

lemma grows_same_zone:
  assumes "grows d d'" and "latest d v = Some a" and "latest d' v = Some b" and "db_zone (fix_DeviceTime a) = db_zone (fix_DeviceTime b)"
  shows "b = a \<or> instant (fix_DeviceTime a) < instant (fix_DeviceTime b)"
proof -
  obtain c where "latest d' v = Some c" "c = a \<or> fix_DeviceTime a < fix_DeviceTime c"
    using assms(1,2) unfolding grows_def by blast
  then show ?thesis using assms(3) same_zone_order [OF assms(4)] by simp
qed

text \<open>
  C30: whatever frames come in, in whatever order, and whichever statements fail: messages, positions and
  outbox events are neither changed nor lost; the live row of a vehicle is only replaced by one whose
  stored device time, the text SQLite compares, comes strictly later, which for two fixes in one
  location is a later instant; every position shows the fix of the message it refers to, every live row a
  trusted fix of a stored message, and message keys stay unique.
\<close>

theorem ingest_history:
  assumes "store_ok (db w)" and "sourced (db w)"
  shows "grows (db w) (db (ingest_run fs w)) \<and> store_ok (db (ingest_run fs w)) \<and> sourced (db (ingest_run fs w))
    \<and> (\<forall>v a b. latest (db w) v = Some a \<longrightarrow> latest (db (ingest_run fs w)) v = Some b
         \<longrightarrow> db_zone (fix_DeviceTime a) = db_zone (fix_DeviceTime b)
         \<longrightarrow> b = a \<or> instant (fix_DeviceTime a) < instant (fix_DeviceTime b))"
proof (intro conjI)
  show "grows (db w) (db (ingest_run fs w))" by (rule grows_run)
  then show "store_ok (db (ingest_run fs w))" using assms(1) unfolding grows_def by blast
  show "sourced (db (ingest_run fs w))" by (rule sourced_run [OF assms(2)])
qed (metis grows_same_zone [OF grows_run])

text \<open>A fix that is an hour older, but whose wall clock is ahead, replaces the live row.\<close>

lemma live_moves_back:
  assumes "latest (db w) v = Some old" and "fix_DeviceTime old = stored_at t ''+0000 UTC''"
    and "DeviceTime frame = t - 3600000000000" and "DeviceZone frame = ''+0530 +0530''"
    and "columns_of k frame odo fuel rt = Some c" and "db_fails e (tick w) = None"
  shows "\<exists>row w'. upsertLatestPosition e v k frame odo fuel rt w = (Inr (), w') \<and> latest (db w') v = Some row
    \<and> instant (fix_DeviceTime row) = instant (fix_DeviceTime old) - 3600000000000"
proof -
  have c: "fix_DeviceTime c = stored_at (t - 3600000000000) ''+0530 +0530''"
    using columns_fix [OF assms(5)] assms(3,4) by (simp add: shows_fix_def frame_time_def)
  moreover have "fix_DeviceTime old < fix_DeviceTime c"
    unfolding c assms(2) by (simp add: less_db_time_def stored_at_def zone_offset_def digit_at_def dec_digit_def)
  ultimately show ?thesis
    using assms(1,2,5,6) by (auto simp: upsertLatestPosition_def exec_stmt_def Let_def fix_columns.defs LatestRow.defs)
qed

section \<open>The guard\<close>

text \<open>The odometer and the fuel level the guard compares with.\<close>

definition last_odometer :: "ingest_db \<Rightarrow> gostring \<Rightarrow> float64 option" where
  "last_odometer d imei =
     Option.bind (newest fix_DeviceTime (filter (\<lambda>p. fix_IMEI p = imei \<and> fix_Odometer p \<noteq> None) (positions d))) fix_Odometer"

definition last_fuel :: "ingest_db \<Rightarrow> gostring \<Rightarrow> float64 option" where
  "last_fuel d imei =
     Option.bind (newest fix_DeviceTime (filter (\<lambda>p. fix_IMEI p = imei \<and> fix_FuelLevel p \<noteq> None) (positions d))) fix_FuelLevel"

lemma check_odometer_ok:
  assumes "CheckOdometer e d t g imei odo w = (Inr (v, fired), w')"
  shows "if fired then last_odometer d imei = Some v \<and> maxRegressionKM g < v - odo
    else v = odo \<and> (odo \<le> 0 \<or> (\<forall>l. last_odometer d imei = Some l \<longrightarrow> \<not> maxRegressionKM g < l - odo))"
  using assms unfolding CheckOdometer_def GetLastOdometer_def Let_def last_odometer_def
  by (auto simp: andThen_ok query_ok split: if_splits option.splits)

lemma clamp_fuel_ok:
  assumes "ClampFuelLevel e d t g imei fuel w = (Inr (v, fired), w')"
  shows "if fired then \<exists>l. last_fuel d imei = Some l \<and> v = fuel_clamp g l fuel \<and> fuelClampDeltaPct g < math_Abs (fuel - l)
    else v = fuel \<and> (fuel \<le> 0 \<or> (\<forall>l. last_fuel d imei = Some l \<longrightarrow> \<not> fuelClampDeltaPct g < math_Abs (fuel - l)))"
  using assms unfolding ClampFuelLevel_def GetLastFuelLevel_def Let_def last_fuel_def
  by (auto simp: andThen_ok query_ok split: if_splits option.splits)

lemma fuel_clamp_range: "\<exists>q. fuel_clamp g l f = Fin q \<and> 0 \<le> q \<and> q \<le> 100" if "fuelClampDeltaPct g < math_Abs (f - l)"
proof -
  have "\<exists>q. (let c = if (x::float64) < 0 then 0 else x in if F 100 < c then F 100 else c) = Fin q \<and> 0 \<le> q \<and> q \<le> 100"
    if "x \<noteq> NaN" for x
    using that by (cases x) (auto simp: Let_def zero_float64_def)
  moreover have "(if l < f then l + fuelClampDeltaPct g else l - fuelClampDeltaPct g) \<noteq> NaN"
    using that by (cases f; cases l; cases "fuelClampDeltaPct g") (auto simp: float_ops fl_def Let_def split: if_splits)
  ultimately show ?thesis unfolding fuel_clamp_def Let_def by blast
qed

text \<open>When the database answers, the guard does: a failing audit entry does not fail the frame.\<close>

lemma guard_answers:
  assumes "\<And>n. db_fails e n = None"
  shows "\<exists>v fired w'. CheckOdometer e d t g imei odo w = (Inr (v, fired), w')"
    and "\<exists>u moved w'. ClampFuelLevel e d t g imei fuel w = (Inr (u, moved), w')"
proof -
  have audit: "andThen (attempt m) (\<lambda>_. ret y) w = (Inr y, snd (m w))" for m :: "unit iact" and y :: "float64 \<times> bool" and w
    by (simp add: andThen_attempt ret_def)
  show "\<exists>v fired w'. CheckOdometer e d t g imei odo w = (Inr (v, fired), w')"
    unfolding CheckOdometer_def GetLastOdometer_def Let_def
    by (auto simp: andThen_ok query_ok assms audit split: option.splits)
  show "\<exists>u moved w'. ClampFuelLevel e d t g imei fuel w = (Inr (u, moved), w')"
    unfolding ClampFuelLevel_def GetLastFuelLevel_def Let_def
    by (auto simp: andThen_ok query_ok assms audit split: option.splits)
qed

lemma diff_self_not_above: "\<not> m < l - l" if "\<not> m < (0::float64)" for m l :: float64
  using that by (cases l; cases m) (auto simp: float_ops)

text \<open>
  What the guard lets through: the odometer is the one reported or the last stored one, and it falls
  behind the last stored one by no more than the limit; a fuel level that is moved lies between 0
  and 100 percent.
\<close>

theorem guard_bounds:
  assumes "CheckOdometer e d t g imei odo w = (Inr (v, fired), w1)" and "0 < odo" and "\<not> maxRegressionKM g < 0"
    and "last_odometer d imei = Some l" and "ClampFuelLevel e d t g imei fuel w1 = (Inr (u, moved), w2)"
  shows "v \<in> {odo, l} \<and> \<not> maxRegressionKM g < l - v
    \<and> (if moved then \<exists>q. u = Fin q \<and> 0 \<le> q \<and> q \<le> 100 else u = fuel)"
proof -
  have "\<not> odo \<le> 0" using assms(2) by (cases odo) (auto simp: zero_float64_def)
  then have "v \<in> {odo, l} \<and> \<not> maxRegressionKM g < l - v"
    using check_odometer_ok [OF assms(1)] diff_self_not_above [OF assms(3), of l] assms(4) by (auto split: if_splits)
  moreover have "if moved then \<exists>q. u = Fin q \<and> 0 \<le> q \<and> q \<le> 100 else u = fuel"
    using clamp_fuel_ok [OF assms(5)] fuel_clamp_range by (auto split: if_splits)
  ultimately show ?thesis by blast
qed

section \<open>Examples\<close>

lemma andThen_weak_cong: "m = m' \<Longrightarrow> w = w' \<Longrightarrow> andThen m f w = andThen m' f w'"
  by simp

text \<open>A database with one active device, and an ingestor whose statements do not fail.\<close>

definition ex_device :: DeviceRow where
  "ex_device = \<lparr>dev_ID = ''d'', dev_TenantID = ''t'', dev_IMEI = ''i'', dev_SerialNumber = None, dev_FirmwareVersion = None,
     dev_SimNumber = None, dev_ICCID = None, dev_WarrantyUntil = None, DeviceType = ''hardware'', dev_Status = ''active'',
     dev_VehicleID = Some ''v'', dev_CustomerID = None, dev_ActivatedAt = None, LastSeenAt = None, dev_SecretHash = None,
     dev_CreatedAt = 0, dev_UpdatedAt = 0\<rparr>"

definition ex_db :: ingest_db where
  "ex_db = \<lparr>devices = [ex_device], quarantined = [], raw_events = [], positions = [], latest = Map.empty,
     snapshots = [], outbox = [], audit_logs = [], trips = [], drivers = [], users = [], vehicles = [''v'']\<rparr>"

definition ex_env :: env where
  "ex_env = \<lparr>now_at = int, uuid_at = (\<lambda>n. replicate n CHR ''u''), db_fails = (\<lambda>_. None)\<rparr>"

definition ex_ing :: ingestor where
  "ex_ing = NewIngestor ex_env
     \<lparr>OdometerMaxRegressionKM = Fin 5, FuelClampDeltaPct = Fin 10, RawRetentionDays = 0, BatchSize = 0, FlushInterval = 0, BatteryLowPct = 0, LowVoltageV = 0, GSMPoorLevel = 0,
      ParkedDedupWindow = 0, ParkedDedupMaxM = 0, MovingDedupWindow = 0, MovingDedupMinM = 0, MovingDedupMinDeg = 0\<rparr>
     \<lparr>math_Sin = (\<lambda>x. x), math_Cos = (\<lambda>x. x), math_Asin = (\<lambda>x. x),
      math_Atan2 = (\<lambda>x y. x), math_Sqrt = (\<lambda>x. x), math_Hypot = (\<lambda>x y. x)\<rparr> ''''"

definition ex_frame :: RawFrame where
  "ex_frame = no_frame\<lparr>IMEI := ''i'', SOS := True, frame_Provider := ''gt06'', ProviderMsgID := ''m'', frame_Valid := Some True\<rparr>"

definition ex_w :: "ingest_db world" where
  "ex_w = \<lparr>db = ex_db, tick = 1\<rparr>"

lemma ex_simps [simp]:
  "ing_env ex_ing = ex_env" "now_at ex_env n = int n" "uuid_at ex_env n = replicate n CHR ''u''" "db_fails ex_env n = None"
  by (simp_all add: ex_ing_def NewIngestor_def ex_env_def)


lemma ex_frame_sel:
  "IMEI ex_frame = ''i''" "SOS ex_frame" "frame_Valid ex_frame = Some True" "ProviderMsgID ex_frame = ''m''"
  "frame_Odometer ex_frame = None" "FuelLevel ex_frame = None" "frame_TripID ex_frame = ''''" "frame_DriverID ex_frame = ''''"
  "Latitude ex_frame = Fin 0" "Longitude ex_frame = Fin 0" "Speed ex_frame = Fin 0" "Heading ex_frame = Fin 0"
  "EngineHours ex_frame = None" "Accuracy ex_frame = None" "BatteryLevel ex_frame = None" "ExternalVoltage ex_frame = None"
  "GSMSignal ex_frame = None" "DeviceTime ex_frame = 0" "Motion ex_frame = None"
  by (simp_all add: ex_frame_def no_frame_def)

lemmas run_simps =
  exec_stmt_def exec_count_def query_def wrap_def attempt_def andThen_def ret_def fail_def clock_def new_uuid_def
  with_tx_def Let_def IngestRawFrame_def ingest_tx_def GetByIMEI_def process_frame_def insertRawEvent_def nullStr_def
  adjust_odometer_def adjust_fuel_def guarded_def resolve_vehicle_def checkDedup_def not_redundant_def
  resolve_trip_def activeTripID_def active_trip_def store_frame_def write_rows_def if_do_def insertPosition_def
  columns_of_def sql_real_def sql_real_opt_def fix_columns.defs PositionRow.defs LatestRow.defs refers_def
  validInt_def fixTrusted_def upsertLatestPosition_def insertSnapshot_def write_events_def deviceHealthGuard_def
  sos_event_def frame_events_def position_event_def SaveEvents_def save_event_def json_time_def json_real_opt_def
  UpdateLastSeen_def

lemma ex_run:
  obtains res pubs w' where "IngestRawFrame ex_ing ex_frame ex_w = (Inr (res, pubs), w')" and "Accepted res" and "\<not> Deduped res"
proof -
  have "case IngestRawFrame ex_ing ex_frame ex_w of (Inr (res, pubs), w') \<Rightarrow> Accepted res \<and> \<not> Deduped res | _ \<Rightarrow> False"
    by (simp add: ex_frame_sel run_simps ex_w_def ex_db_def ex_device_def cong: andThen_weak_cong)
  then show ?thesis by (auto split: prod.splits sum.splits intro: that)
qed

lemma ex_rerun:
  obtains res pubs w' where
    "IngestRawFrame ex_ing ex_frame (snd (IngestRawFrame ex_ing ex_frame ex_w)) = (Inr (res, pubs), w')"
proof -
  have "case IngestRawFrame ex_ing ex_frame (snd (IngestRawFrame ex_ing ex_frame ex_w)) of (Inr (res, pubs), w') \<Rightarrow> True | _ \<Rightarrow> False"
    by (simp add: ex_frame_sel run_simps ex_w_def ex_db_def ex_device_def cong: andThen_weak_cong)
  then show ?thesis by (auto split: prod.splits sum.splits intro: that)
qed

theorem sos_never_lost_witness:
  "\<exists>w' s r. snd (IngestRawFrame ex_ing ex_frame ex_w) = w' \<and> SOSEvent s \<in> out_Payload ` set (outbox (db w'))
     \<and> so_DeviceIMEI s = ''i'' \<and> wrote_history r ex_db (db w') ex_frame \<and> length (snapshots (db w')) = 1"
proof (rule ex_run)
  fix res pubs w'
  assume run: "IngestRawFrame ex_ing ex_frame ex_w = (Inr (res, pubs), w')" "Accepted res" "\<not> Deduped res"
  obtain r rows p s rest where all: "raw_events (db w') = raw_events (db ex_w) @ [r] \<and> raw_Payload r = ex_frame
      \<and> wrote_history (raw_ID r) (db ex_w) (db w') ex_frame \<and> wrote_snapshot (db ex_w) (db w') ex_frame
      \<and> outbox (db w') = outbox (db ex_w) @ rows
      \<and> PositionEvent p \<in> set (map out_Payload rows) \<and> SOSEvent s \<in> set (map out_Payload rows)
      \<and> pubs = TelemetrySnapshot p # SOSPublished s # rest
      \<and> pe_DeviceIMEI p = IMEI ex_frame \<and> pe_Latitude p = Latitude ex_frame \<and> pe_Longitude p = Longitude ex_frame
      \<and> so_DeviceIMEI s = IMEI ex_frame \<and> so_Latitude s = Latitude ex_frame \<and> so_Longitude s = Longitude ex_frame"
    using sos_never_lost [OF run ex_frame_sel(2)] by (elim exE) (rule that)
  then have "SOSEvent s \<in> set (map out_Payload (outbox (db w')))" "so_DeviceIMEI s = ''i''"
      "wrote_history (raw_ID r) ex_db (db w') ex_frame"
    by (simp_all add: ex_frame_sel ex_w_def)
  moreover have "length (snapshots (db w')) = 1"
    using all by (auto simp: wrote_snapshot_def put_snapshot_def ex_w_def ex_db_def)
  ultimately show ?thesis using run(1) by (metis snd_conv list.set_map)
qed

theorem replay_ignored_witness:
  "\<exists>res. fst (IngestRawFrame ex_ing ex_frame (snd (IngestRawFrame ex_ing ex_frame ex_w))) = Inr (res, []) \<and> Deduped res"
proof (rule ex_run)
  fix res pubs w1
  assume 1: "IngestRawFrame ex_ing ex_frame ex_w = (Inr (res, pubs), w1)" "Accepted res" "\<not> Deduped res"
  obtain res' pubs' w' where 2: "IngestRawFrame ex_ing ex_frame w1 = (Inr (res', pubs'), w')"
    using ex_rerun 1(1) by auto
  have "\<not> id_taken (drawn_id ex_ing ex_w) (db ex_w)" by (simp add: id_taken_def ex_w_def ex_db_def)
  from replay_ignored [OF 1(1,2) this, of ex_ing ex_frame "[]" res' pubs' w'] 1(1) 2 show ?thesis by (simp add: ex_frame_sel)
qed

theorem ingest_history_witness:
  "sourced (db (ingest_run [(ex_ing, ex_frame), (ex_ing, ex_frame)] ex_w))"
proof -
  have "store_ok (db ex_w)" "sourced (db ex_w)" by (simp_all add: store_ok_def sourced_def ex_w_def ex_db_def)
  from ingest_history [OF this] show ?thesis by blast
qed

definition ex_row :: PositionRow where
  "ex_row = \<lparr>fix_TenantID = ''t'', fix_IMEI = ''i'', fix_DeviceTime = stored_at 0 ''+0000 UTC'', fix_ReceivedAt = 0, fix_Latitude = Fin 0,
     fix_Longitude = Fin 0, fix_Speed = None, fix_Heading = None, fix_Ignition = None, fix_EngineHours = None,
     fix_Accuracy = None, fix_FuelLevel = Some (Fin 80), fix_Odometer = Some (Fin 100), fix_Satellites = None,
     fix_Battery = None, fix_Voltage = None, fix_GSM = None, fix_Motion = None, fix_Valid = True, pos_ID = ''p'',
     pos_FixTime = None, pos_DriverID = None, pos_TripID = None, pos_VehicleID = None, pos_Provider = ''own'',
     pos_RawEventID = ''r''\<rparr>"

theorem guard_bounds_witness:
  "\<exists>v fired w1 u moved w2. CheckOdometer ex_env (ex_db\<lparr>positions := [ex_row]\<rparr>) '''' (ing_guard ex_ing) ''i'' (Fin 50) ex_w
       = (Inr (v, fired), w1)
     \<and> ClampFuelLevel ex_env (ex_db\<lparr>positions := [ex_row]\<rparr>) '''' (ing_guard ex_ing) ''i'' (Fin 20) w1 = (Inr (u, moved), w2)
     \<and> v \<in> {Fin 50, Fin 100} \<and> (if moved then \<exists>q. u = Fin q \<and> 0 \<le> q \<and> q \<le> 100 else u = Fin 20)"
proof -
  let ?d = "ex_db\<lparr>positions := [ex_row]\<rparr>" and ?g = "ing_guard ex_ing"
  have g: "?g = \<lparr>maxRegressionKM = Fin 5, fuelClampDeltaPct = Fin 10\<rparr>"
    by (simp add: ing_guard_def ex_ing_def NewIngestor_def applyDefaults_def)
  obtain v fired w1 where 1: "CheckOdometer ex_env ?d '''' ?g ''i'' (Fin 50) ex_w = (Inr (v, fired), w1)"
    using guard_answers(1) by (metis ex_simps(4))
  obtain u moved w2 where 2: "ClampFuelLevel ex_env ?d '''' ?g ''i'' (Fin 20) w1 = (Inr (u, moved), w2)"
    using guard_answers(2) by (metis ex_simps(4))
  have "0 < Fin 50" "\<not> maxRegressionKM ?g < 0" "last_odometer ?d ''i'' = Some (Fin 100)"
    by (simp_all add: g zero_float64_def last_odometer_def ex_row_def)
  from guard_bounds [OF 1 this 2] 1 2 show ?thesis by blast
qed

end
