(* ===== verification/Outbox.thy ===== *)
theory Outbox
  imports Along
begin

text \<open>
  The in-memory event bus (\<open>internal/events/bus.go\<close>) and the relay that publishes the events of the
  outbox table on it (\<open>internal/shared/outbox/relay.go\<close>). What a handler does with an event, when the
  context is cancelled and which texts are JSON is the environment's; every call of a handler is
  recorded with its result.
\<close>

section \<open>State\<close>

record event =
  Type :: gostring
  Payload :: gostring

datatype handler_result = Handled | HandlerError goerr | HandlerPanic gostring

text \<open>Handlers are known by the identity of their registration.\<close>

record bus_env = env +
  ctx_err :: "nat \<Rightarrow> goerr option"
  handles :: "nat \<Rightarrow> nat \<Rightarrow> event \<Rightarrow> handler_result"
  json_valid :: "gostring \<Rightarrow> bool"

record pendingEvent =
  row_id :: gostring
  aggregateID :: gostring
  aggregateType :: gostring
  eventType :: gostring
  payload :: gostring
  published_at :: "gotime option"

record hub =
  subs :: "gostring \<Rightarrow> nat list"
  registered :: nat
  calls :: "(nat \<times> event \<times> handler_result) list"
  rows :: "pendingEvent list"
  attempts :: "gostring \<Rightarrow> nat"
  nextAttempt :: "gostring \<rightharpoonup> gotime"

type_synonym 'a hact = "(hub, 'a) act"

section \<open>The bus\<close>

definition Subscribe :: "gostring \<Rightarrow> hub \<Rightarrow> nat \<times> hub" where
  "Subscribe ty d = (registered d, d\<lparr>subs := (subs d)(ty := subs d ty @ [registered d]), registered := registered d + 1\<rparr>)"

definition unsubscribe :: "gostring \<Rightarrow> nat \<Rightarrow> hub \<Rightarrow> hub" where
  "unsubscribe ty rh d = d\<lparr>subs := (subs d)(ty := remove1 rh (subs d ty))\<rparr>"

definition ctx_Err :: "bus_env \<Rightarrow> goerr option hact" where
  "ctx_Err e w = (Inr (ctx_err e (tick w)), w\<lparr>tick := Suc (tick w)\<rparr>)"

text \<open>One handler, with its panics recovered: the error it leaves, if any.\<close>

definition call_handler :: "bus_env \<Rightarrow> event \<Rightarrow> nat \<Rightarrow> goerr option hact" where
  "call_handler e ev h w =
     (let r = handles e (tick w) h ev
      in (Inr (case r of Handled \<Rightarrow> None | HandlerError err \<Rightarrow> Some err
               | HandlerPanic p \<Rightarrow> Some (ErrMsg (''event handler panicked: '' @ p))),
          w\<lparr>tick := Suc (tick w), db := (db w)\<lparr>calls := calls (db w) @ [(h, ev, r)]\<rparr>\<rparr>))"

fun publish_loop :: "bus_env \<Rightarrow> event \<Rightarrow> nat list \<Rightarrow> goerr list \<Rightarrow> goerr list hact" where
  "publish_loop e ev [] errs = ret errs"
| "publish_loop e ev (h # hs) errs =
     andThen (ctx_Err e) (\<lambda>c.
       case c of
         Some err \<Rightarrow> ret (errs @ [err])
       | None \<Rightarrow>
           andThen (call_handler e ev h) (\<lambda>r.
             publish_loop e ev hs (case r of None \<Rightarrow> errs | Some err \<Rightarrow> errs @ [err])))"

text \<open>\<open>Publish\<close>: the errors it joins; none is success.\<close>

definition Publish :: "bus_env \<Rightarrow> event \<Rightarrow> goerr list hact" where
  "Publish e ev =
     andThen (ctx_Err e) (\<lambda>c.
       case c of
         Some err \<Rightarrow> ret [err]
       | None \<Rightarrow> (\<lambda>w. publish_loop e ev (subs (db w) (Type ev)) [] w))"

section \<open>The relay\<close>

definition DefaultPollInterval :: int where
  "DefaultPollInterval = 5 * 1000000000"

definition maxAttempts :: nat where
  "maxAttempts = 5"

definition shouldSkip :: "bus_env \<Rightarrow> gostring \<Rightarrow> bool hact" where
  "shouldSkip e rid w =
     (case nextAttempt (db w) rid of
        None \<Rightarrow> (Inr False, w)
      | Some t \<Rightarrow> (Inr (now_at (env.truncate e) (tick w) < t), w\<lparr>tick := Suc (tick w)\<rparr>))"

text \<open>The retry is due after the interval, doubled for each attempt so far.\<close>

definition markFailed :: "bus_env \<Rightarrow> gostring \<Rightarrow> unit hact" where
  "markFailed e rid w =
     (let d = db w; n = attempts d rid + 1
      in if maxAttempts \<le> n
         then (Inr (), w\<lparr>db := d\<lparr>attempts := (attempts d)(rid := 0), nextAttempt := (nextAttempt d)(rid := None)\<rparr>\<rparr>)
         else (Inr (), w\<lparr>tick := Suc (tick w),
           db := d\<lparr>attempts := (attempts d)(rid := n),
             nextAttempt := (nextAttempt d)(rid \<mapsto> now_at (env.truncate e) (tick w) + DefaultPollInterval * 2 ^ n)\<rparr>\<rparr>))"

definition markPublished :: "gostring \<Rightarrow> unit hact" where
  "markPublished rid w =
     (Inr (), w\<lparr>db := (db w)\<lparr>attempts := (attempts (db w))(rid := 0), nextAttempt := (nextAttempt (db w))(rid := None)\<rparr>\<rparr>)"

definition publish :: "bus_env \<Rightarrow> bool \<Rightarrow> pendingEvent \<Rightarrow> unit hact" where
  "publish e has_bus p =
     (if \<not> json_valid e (payload p) then fail (ErrMsg ''invalid payload'')
      else if \<not> has_bus then fail (ErrMsg ''outbox relay: no event bus, leaving event pending'')
      else andThen (Publish e \<lparr>Type = eventType p, Payload = payload p\<rparr>) (\<lambda>errs.
        if errs \<noteq> [] then fail (hd errs)
        else andThen (clock (env.truncate e)) (\<lambda>now.
          exec_stmt (env.truncate e) (\<lambda>d. Inr (d\<lparr>rows := map (\<lambda>r.
            if row_id r = row_id p \<and> published_at r = None then r\<lparr>published_at := Some now\<rparr> else r) (rows d)\<rparr>)))))"

text \<open>One row of a pass, and a pass over the rows that were pending at its start.\<close>

definition relay_one :: "bus_env \<Rightarrow> bool \<Rightarrow> pendingEvent \<Rightarrow> unit hact" where
  "relay_one e has_bus p =
     andThen (shouldSkip e (row_id p)) (\<lambda>skip.
       if skip then ret ()
       else andThen (attempt (publish e has_bus p)) (\<lambda>r.
         case r of Inl err \<Rightarrow> markFailed e (row_id p) | Inr _ \<Rightarrow> markPublished (row_id p)))"

definition dispatch :: "bus_env \<Rightarrow> bool \<Rightarrow> unit hact" where
  "dispatch e has_bus =
     andThen (attempt (query (env.truncate e) (\<lambda>d. filter (\<lambda>r. published_at r = None) (rows d)))) (\<lambda>r.
       case r of Inl err \<Rightarrow> ret () | Inr pending \<Rightarrow> for_each (relay_one e has_bus) pending)"


section \<open>What the relay promises\<close>

definition event_of :: "pendingEvent \<Rightarrow> event" where
  "event_of p = \<lparr>Type = eventType p, Payload = payload p\<rparr>"

text \<open>Every subscriber of the row's event has handled it.\<close>

definition delivered :: "hub \<Rightarrow> pendingEvent \<Rightarrow> bool" where
  "delivered d p \<longleftrightarrow> (\<forall>h \<in> set (subs d (eventType p)). (h, event_of p, Handled) \<in> set (calls d))"

text \<open>No row changes but for its publication, which only follows its delivery.\<close>

definition relayed :: "hub \<Rightarrow> hub \<Rightarrow> bool" where
  "relayed d d' \<longleftrightarrow>
     length (rows d') = length (rows d) \<and> subs d' = subs d \<and> prefix (calls d) (calls d')
     \<and> (\<forall>i < length (rows d). (rows d' ! i)\<lparr>published_at := None\<rparr> = (rows d ! i)\<lparr>published_at := None\<rparr>
          \<and> (published_at (rows d ! i) \<noteq> None \<longrightarrow> rows d' ! i = rows d ! i)
          \<and> (published_at (rows d ! i) = None \<and> published_at (rows d' ! i) \<noteq> None \<longrightarrow> delivered d' (rows d ! i)))"

lemma delivered_mono:
  "subs d' = subs d \<Longrightarrow> prefix (calls d) (calls d') \<Longrightarrow> delivered d p \<Longrightarrow> delivered d' p"
  unfolding delivered_def by (auto dest: set_mono_prefix)

lemma delivered_cong: "p\<lparr>published_at := None\<rparr> = q\<lparr>published_at := None\<rparr> \<Longrightarrow> delivered d p = delivered d q"
  by (cases p; cases q) (simp add: delivered_def event_of_def)

interpretation relaying: db_preorder relayed
proof unfold_locales
  show "relayed d d" for d by (auto simp: relayed_def)
  fix d d' d'' assume 1: "relayed d d'" and 2: "relayed d' d''"
  have "(rows d'' ! i)\<lparr>published_at := None\<rparr> = (rows d ! i)\<lparr>published_at := None\<rparr>
      \<and> (published_at (rows d ! i) \<noteq> None \<longrightarrow> rows d'' ! i = rows d ! i)
      \<and> (published_at (rows d ! i) = None \<and> published_at (rows d'' ! i) \<noteq> None \<longrightarrow> delivered d'' (rows d ! i))"
    if i: "i < length (rows d)" for i
  proof -
    have i': "i < length (rows d')" using 1 i by (simp add: relayed_def)
    note a = 1 [unfolded relayed_def] and b = 2 [unfolded relayed_def]
    have "delivered d'' (rows d ! i)" if "published_at (rows d ! i) = None" "published_at (rows d'' ! i) \<noteq> None"
    proof (cases "published_at (rows d' ! i) = None")
      case True
      then have "delivered d'' (rows d' ! i)" using b i' that(2) by blast
      moreover have "delivered d'' (rows d' ! i) = delivered d'' (rows d ! i)" using a i delivered_cong by blast
      ultimately show ?thesis by simp
    next
      case False
      then have "delivered d' (rows d ! i)" using a i that(1) by blast
      then show ?thesis using b delivered_mono by blast
    qed
    then show ?thesis using a b i i' by metis
  qed
  then show "relayed d d''" using 1 2 unfolding relayed_def by (auto intro: prefix_order.trans)
qed

text \<open>Publishing on the bus only calls handlers; without an error it has called them all.\<close>

lemma publish_loop_calls:
  assumes "publish_loop e ev hs errs w = (r, w')"
  shows "\<exists>cs out. db w' = (db w)\<lparr>calls := calls (db w) @ cs\<rparr> \<and> r = Inr out
    \<and> (out = [] \<longrightarrow> errs = [] \<and> (\<forall>h \<in> set hs. (h, ev, Handled) \<in> set cs))"
  using assms
proof (induction hs arbitrary: errs w)
  case Nil
  then show ?case by (auto intro!: exI [of _ "[]"])
next
  case (Cons h hs)
  show ?case
  proof (cases "ctx_err e (tick w)")
    case (Some err)
    then show ?thesis using Cons.prems by (auto simp: andThen_def ctx_Err_def intro!: exI [of _ "[]"])
  next
    case None
    let ?res = "handles e (Suc (tick w)) h ev" and ?w1 = "w\<lparr>tick := Suc (tick w)\<rparr>"
    obtain o1 w1 where c: "call_handler e ev h ?w1 = (Inr o1, w1)" "db w1 = (db w)\<lparr>calls := calls (db w) @ [(h, ev, ?res)]\<rparr>"
        "o1 = None \<longleftrightarrow> ?res = Handled"
      by (auto simp: call_handler_def Let_def split: handler_result.splits)
    then have "publish_loop e ev hs (case o1 of None \<Rightarrow> errs | Some err \<Rightarrow> errs @ [err]) w1 = (r, w')"
      using Cons.prems None by (simp add: andThen_def ctx_Err_def)
    from Cons.IH [OF this] show ?thesis using c by (auto split: option.splits)
  qed
qed

lemma Publish_calls:
  assumes "Publish e ev w = (r, w')"
  shows "\<exists>cs out. db w' = (db w)\<lparr>calls := calls (db w) @ cs\<rparr> \<and> r = Inr out
    \<and> (out = [] \<longrightarrow> (\<forall>h \<in> set (subs (db w) (Type ev)). (h, ev, Handled) \<in> set cs))"
proof (cases "ctx_err e (tick w)")
  case (Some err)
  then show ?thesis using assms by (auto simp: Publish_def andThen_def ctx_Err_def intro!: exI [of _ "[]"])
next
  case None
  then have "publish_loop e ev (subs (db w) (Type ev)) [] (w\<lparr>tick := Suc (tick w)\<rparr>) = (r, w')"
    using assms by (simp add: Publish_def andThen_def ctx_Err_def)
  from publish_loop_calls [OF this] show ?thesis by auto
qed

lemma relayed_calls: "relayed d (d\<lparr>calls := calls d @ cs\<rparr>)"
  by (auto simp: relayed_def)

lemma relayed_retry: "relayed d (d\<lparr>attempts := a, nextAttempt := n\<rparr>)"
  by (auto simp: relayed_def)

text \<open>The row that is published is the one that was read.\<close>

definition still_there :: "hub \<Rightarrow> pendingEvent \<Rightarrow> bool" where
  "still_there d p \<longleftrightarrow> (\<forall>r \<in> set (rows d). row_id r = row_id p \<longrightarrow> eventType r = eventType p \<and> payload r = payload p)"

lemma relayed_still:
  assumes "relayed d d'" and "still_there d p"
  shows "still_there d' p"
  unfolding still_there_def
proof (intro ballI impI)
  fix r assume "r \<in> set (rows d')" and id: "row_id r = row_id p"
  then obtain i where i: "i < length (rows d')" "r = rows d' ! i" by (metis in_set_conv_nth)
  then have "i < length (rows d)" "r\<lparr>published_at := None\<rparr> = (rows d ! i)\<lparr>published_at := None\<rparr>"
    using assms(1) by (simp_all add: relayed_def)
  moreover from this have "eventType r = eventType (rows d ! i)" "payload r = payload (rows d ! i)" "row_id r = row_id (rows d ! i)"
    by (cases r; cases "rows d ! i"; simp)+
  ultimately show "eventType r = eventType p \<and> payload r = payload p"
    using assms(2) id by (simp add: still_there_def)
qed

lemma relayed_publish:
  assumes "publish e hb p w = (r, w')" and "still_there (db w) p"
  shows "relayed (db w) (db w')"
proof (cases "json_valid e (payload p) \<and> hb")
  case False
  then show ?thesis using assms(1) by (auto simp: publish_def relaying.R_refl split: if_splits)
next
  case True
  obtain out w1 where P: "Publish e (event_of p) w = (Inr out, w1)" using Publish_calls [of e "event_of p" w] by (metis surjective_pairing)
  then obtain cs where d1: "db w1 = (db w)\<lparr>calls := calls (db w) @ cs\<rparr>"
      and all: "out = [] \<longrightarrow> (\<forall>h \<in> set (subs (db w) (eventType p)). (h, event_of p, Handled) \<in> set cs)"
    using Publish_calls [OF P] by (auto simp: event_of_def)
  have rest: "(if out \<noteq> [] then fail (hd out)
        else andThen (clock (env.truncate e)) (\<lambda>now.
          exec_stmt (env.truncate e) (\<lambda>d. Inr (d\<lparr>rows := map (\<lambda>r.
            if row_id r = row_id p \<and> published_at r = None then r\<lparr>published_at := Some now\<rparr> else r) (rows d)\<rparr>)))) w1 = (r, w')"
    using assms(1) True P by (simp add: publish_def andThen_def event_of_def)
  show ?thesis
  proof (cases "out = []")
    case False
    then show ?thesis using rest d1 relayed_calls by simp
  next
    case True
    have "relayed (db w1) (db w1\<lparr>rows := map (\<lambda>r. if row_id r = row_id p \<and> published_at r = None
        then r\<lparr>published_at := Some now\<rparr> else r) (rows (db w1))\<rparr>)" for now
    proof -
      have "delivered (db w1\<lparr>rows := rs\<rparr>) q" if "q \<in> set (rows (db w1))" "row_id q = row_id p" for q rs
        using that assms(2) True all d1 by (auto simp: delivered_def still_there_def event_of_def)
      then show ?thesis by (auto simp: relayed_def)
    qed
    then have "relayed (db w1) (db w')"
      using rest True by (auto simp: exec_stmt_def Let_def relaying.R_refl split: option.splits)
    then show ?thesis using d1 relayed_calls relaying.R_trans by metis
  qed
qed

lemma relayed_one:
  assumes "relay_one e hb p w = (r, w')" and "still_there (db w) p"
  shows "relayed (db w) (db w')"
proof -
  obtain skip w1 where s: "shouldSkip e (row_id p) w = (Inr skip, w1)" "db w1 = db w"
    by (cases "nextAttempt (db w) (row_id p)") (auto simp: shouldSkip_def)
  obtain x w2 where p: "publish e hb p w1 = (x, w2)" by force
  have "relayed (db w1) (db w2)" using relayed_publish [OF p] assms(2) s(2) by simp
  moreover have "db w' = db w1 \<or> db w' = db w2 \<or> relayed (db w2) (db w')"
    using assms(1) s(1) p
    by (cases x) (auto simp: relay_one_def andThen_def attempt_def markFailed_def markPublished_def Let_def
        relayed_retry split: if_splits)
  ultimately show ?thesis using s(2) relaying.R_trans relaying.R_refl by metis
qed

text \<open>
  C31: a row of the outbox is marked as published only after every subscriber of its event has handled it,
  in any pass, whatever handlers, the context and the database do; nothing else about a row ever
  changes, and a published row stays as it is.
\<close>

theorem published_after_delivery:
  assumes "dispatch e hb w = (r, w')" and "distinct (map row_id (rows (db w)))"
  shows "relayed (db w) (db w')"
proof -
  have loop: "for_each (relay_one e hb) ps v = (x, v') \<Longrightarrow> \<forall>p \<in> set ps. still_there (db v) p \<Longrightarrow> relayed (db v) (db v')"
    for ps v x v'
  proof (induction ps arbitrary: v)
    case Nil
    then show ?case by (simp add: relaying.R_refl)
  next
    case (Cons p ps)
    obtain y v1 where 1: "relay_one e hb p v = (y, v1)" by force
    have g: "relayed (db v) (db v1)" using relayed_one [OF 1] Cons.prems(2) by simp
    show ?case
    proof (cases y)
      case (Inl err)
      then show ?thesis using Cons.prems(1) 1 g by (simp add: andThen_def)
    next
      case (Inr u)
      then have "for_each (relay_one e hb) ps v1 = (x, v')" using Cons.prems(1) 1 by (simp add: andThen_def)
      moreover have "\<forall>p \<in> set ps. still_there (db v1) p" using Cons.prems(2) g relayed_still by simp
      ultimately show ?thesis using Cons.IH g relaying.R_trans by blast
    qed
  qed
  have "still_there (db w) p" if "p \<in> set (rows (db w))" for p
    using that assms(2) unfolding still_there_def by (metis distinct_map inj_onD)
  then have "\<forall>p \<in> set (filter (\<lambda>r. published_at r = None) (rows (db w))). still_there (db w) p" by simp
  with assms(1) loop [of "filter (\<lambda>r. published_at r = None) (rows (db w))" "w\<lparr>tick := Suc (tick w)\<rparr>" r w'] show ?thesis
    unfolding dispatch_def by (auto simp: andThen_attempt query_def Let_def relaying.R_refl split: option.splits)
qed


section \<open>Progress and retries\<close>

text \<open>Nothing fails: the database answers, the context lives, every handler succeeds, payloads are JSON.\<close>

definition healthy :: "bus_env \<Rightarrow> bool" where
  "healthy e \<longleftrightarrow> (\<forall>n. db_fails e n = None) \<and> (\<forall>n. ctx_err e n = None) \<and> (\<forall>n h ev. handles e n h ev = Handled)
     \<and> (\<forall>s. json_valid e s)"

definition due :: "bus_env \<Rightarrow> hub \<Rightarrow> bool" where
  "due e d \<longleftrightarrow> (\<forall>rid t n. nextAttempt d rid = Some t \<longrightarrow> t \<le> now_at e n)"

lemma healthy_loop:
  assumes "healthy e"
  shows "\<exists>cs w'. publish_loop e ev hs errs w = (Inr errs, w') \<and> db w' = (db w)\<lparr>calls := calls (db w) @ cs\<rparr>"
proof (induction hs arbitrary: w)
  case Nil
  show ?case by (auto intro!: exI [of _ "[]"])
next
  case (Cons h hs)
  let ?w = "w\<lparr>tick := Suc (tick w)\<rparr>"
  obtain w1 where c: "call_handler e ev h ?w = (Inr None, w1)" "db w1 = (db w)\<lparr>calls := calls (db w) @ [(h, ev, Handled)]\<rparr>"
    using assms by (simp add: call_handler_def Let_def healthy_def)
  obtain cs w' where "publish_loop e ev hs errs w1 = (Inr errs, w')" "db w' = (db w1)\<lparr>calls := calls (db w1) @ cs\<rparr>"
    using Cons by blast
  then show ?case using c assms by (auto simp: andThen_def ctx_Err_def healthy_def)
qed

lemma healthy_publish:
  assumes "healthy e"
  shows "\<exists>w' cs now. publish e True p w = (Inr (), w') \<and> db w' = (db w)\<lparr>calls := calls (db w) @ cs,
    rows := map (\<lambda>r. if row_id r = row_id p \<and> published_at r = None then r\<lparr>published_at := Some now\<rparr> else r) (rows (db w))\<rparr>"
proof -
  obtain cs w1 where "publish_loop e (event_of p) (subs (db w) (eventType p)) [] (w\<lparr>tick := Suc (tick w)\<rparr>) = (Inr [], w1)"
      "db w1 = (db w)\<lparr>calls := calls (db w) @ cs\<rparr>"
    using healthy_loop [OF assms, of "event_of p" "subs (db w) (eventType p)" "[]" "w\<lparr>tick := Suc (tick w)\<rparr>"] by auto
  then show ?thesis
    using assms by (auto simp: publish_def Publish_def andThen_def ctx_Err_def healthy_def event_of_def clock_def exec_stmt_def
        Let_def env.defs)
qed

lemma healthy_one:
  assumes "healthy e" and "due e (db w)"
  shows "\<exists>w' now. relay_one e True p w = (Inr (), w') \<and> due e (db w')
    \<and> rows (db w') = map (\<lambda>r. if row_id r = row_id p \<and> published_at r = None then r\<lparr>published_at := Some now\<rparr> else r) (rows (db w))"
proof -
  obtain w1 where s: "shouldSkip e (row_id p) w = (Inr False, w1)" "db w1 = db w"
    using assms(2) by (cases "nextAttempt (db w) (row_id p)") (auto simp: shouldSkip_def due_def env.defs not_less)
  obtain w2 cs now where "publish e True p w1 = (Inr (), w2)" "db w2 = (db w1)\<lparr>calls := calls (db w1) @ cs,
      rows := map (\<lambda>r. if row_id r = row_id p \<and> published_at r = None then r\<lparr>published_at := Some now\<rparr> else r) (rows (db w1))\<rparr>"
    using healthy_publish [OF assms(1)] by blast
  then show ?thesis
    using s assms(2) by (auto simp: relay_one_def andThen_def attempt_def markPublished_def due_def)
qed

text \<open>
  C32: no event is stuck: once the database, the context and the handlers work and the retries are due, one
  pass publishes every row there is.
\<close>

theorem relay_delivers:
  assumes "healthy e" and "due e (db w)"
  shows "\<exists>w'. dispatch e True w = (Inr (), w') \<and> (\<forall>r \<in> set (rows (db w')). published_at r \<noteq> None)
    \<and> map row_id (rows (db w')) = map row_id (rows (db w))"
proof -
  have loop: "\<exists>v'. for_each (relay_one e True) ps v = (Inr (), v') \<and> map row_id (rows (db v')) = map row_id (rows (db v))
      \<and> (\<forall>r \<in> set (rows (db v')). published_at r = None \<longrightarrow>
           row_id r \<notin> row_id ` set ps \<and> (\<exists>q \<in> set (rows (db v)). published_at q = None \<and> row_id q = row_id r))"
    if "due e (db v)" for ps v
    using that
  proof (induction ps arbitrary: v)
    case Nil
    then show ?case by auto
  next
    case (Cons p ps)
    obtain v1 now where 1: "relay_one e True p v = (Inr (), v1)" "due e (db v1)"
      and r1: "rows (db v1) = map (\<lambda>r. if row_id r = row_id p \<and> published_at r = None then r\<lparr>published_at := Some now\<rparr> else r) (rows (db v))"
      using healthy_one [OF assms(1) Cons.prems] by blast
    obtain v' where 2: "for_each (relay_one e True) ps v1 = (Inr (), v')" "map row_id (rows (db v')) = map row_id (rows (db v1))"
      and left: "\<forall>r \<in> set (rows (db v')). published_at r = None \<longrightarrow>
           row_id r \<notin> row_id ` set ps \<and> (\<exists>q \<in> set (rows (db v1)). published_at q = None \<and> row_id q = row_id r)"
      using Cons.IH [OF 1(2)] by blast
    have "map row_id (rows (db v1)) = map row_id (rows (db v))" by (simp add: r1 comp_def if_distrib cong: if_cong)
    moreover have "row_id q \<noteq> row_id p \<and> (\<exists>q' \<in> set (rows (db v)). published_at q' = None \<and> row_id q' = row_id q)"
      if "q \<in> set (rows (db v1))" "published_at q = None" for q
      using that by (auto simp: r1 split: if_splits)
    ultimately show ?case using 1(1) 2 left by (fastforce simp: andThen_def)
  qed
  let ?ps = "filter (\<lambda>r. published_at r = None) (rows (db w))" and ?w = "w\<lparr>tick := Suc (tick w)\<rparr>"
  obtain w' where w': "for_each (relay_one e True) ?ps ?w = (Inr (), w')" "map row_id (rows (db w')) = map row_id (rows (db w))"
      "\<forall>r \<in> set (rows (db w')). published_at r = None \<longrightarrow>
           row_id r \<notin> row_id ` set ?ps \<and> (\<exists>q \<in> set (rows (db w)). published_at q = None \<and> row_id q = row_id r)"
    using loop [of ?w ?ps] assms(2) by auto
  have "\<forall>r \<in> set (rows (db w')). published_at r \<noteq> None"
  proof (intro ballI notI)
    fix r assume "r \<in> set (rows (db w'))" "published_at r = None"
    then obtain q where "row_id r \<notin> row_id ` set ?ps" "q \<in> set ?ps" "row_id q = row_id r" using w'(3) by auto
    then show False by (metis image_eqI)
  qed
  moreover have "dispatch e True w = (Inr (), w')"
    using w'(1) assms(1) by (simp add: dispatch_def andThen_attempt query_def Let_def healthy_def env.defs)
  ultimately show ?thesis using w'(2) by blast
qed

text \<open>
  The fifth failure of an event is logged as its dead-lettering, but its row stays pending and its
  counter and delay are forgotten: the next pass tries it again at once.
\<close>

lemma dead_letter_retried:
  assumes "attempts (db w) rid = 4"
  shows "\<exists>w'. markFailed e rid w = (Inr (), w') \<and> rows (db w') = rows (db w) \<and> attempts (db w') rid = 0
    \<and> shouldSkip e rid w' = (Inr False, w')"
  using assms by (simp add: markFailed_def maxAttempts_def Let_def shouldSkip_def)

text \<open>A retry waits at most sixteen intervals.\<close>

lemma backoff_bounded:
  assumes "markFailed e rid w = (r, w')" and "nextAttempt (db w') rid = Some t"
  shows "t \<le> now_at e (tick w) + 16 * DefaultPollInterval"
proof -
  let ?n = "attempts (db w) rid + 1"
  have "\<not> maxAttempts \<le> ?n" "t = now_at e (tick w) + DefaultPollInterval * 2 ^ ?n"
    using assms by (auto simp: markFailed_def Let_def env.defs split: if_splits)
  moreover from this have "(2::int) ^ ?n \<le> 2 ^ 4" by (intro power_increasing) (simp_all add: maxAttempts_def)
  ultimately show ?thesis by (simp add: DefaultPollInterval_def)
qed

section \<open>Examples\<close>

definition ex_bus_env :: bus_env where
  "ex_bus_env = \<lparr>now_at = int, uuid_at = (\<lambda>n. ''''), db_fails = (\<lambda>_. None), ctx_err = (\<lambda>_. None),
     handles = (\<lambda>_ _ _. Handled), json_valid = (\<lambda>_. True)\<rparr>"

definition ex_hub :: "hub world" where
  "ex_hub = \<lparr>db = \<lparr>subs = (\<lambda>_. [0, 1]), registered = 2, calls = [], rows = [\<lparr>row_id = ''r'', aggregateID = ''v'', aggregateType = ''Vehicle'', eventType = ''PositionEvent'',
     payload = ''{}'', published_at = None\<rparr>], attempts = (\<lambda>_. 0), nextAttempt = Map.empty\<rparr>, tick = 0\<rparr>"

lemma ex_bus: "healthy ex_bus_env" "due ex_bus_env (db ex_hub)"
  by (simp_all add: healthy_def due_def ex_bus_env_def ex_hub_def)

theorem relay_delivers_witness:
  "\<exists>w'. dispatch ex_bus_env True ex_hub = (Inr (), w') \<and> (\<forall>r \<in> set (rows (db w')). published_at r \<noteq> None)"
  using relay_delivers [OF ex_bus] by blast

theorem published_after_delivery_witness:
  "relayed (db ex_hub) (db (snd (dispatch ex_bus_env True ex_hub)))"
proof -
  have "distinct (map row_id (rows (db ex_hub)))" by (simp add: ex_hub_def)
  from published_after_delivery [OF surjective_pairing this] show ?thesis .
qed

end
