(* ===== verification/Resilience.thy ===== *)
theory Resilience
  imports GoText Effects
begin

text \<open>
  The retry wrapper of every service call (\<open>internal/shared/resilience/resilience.go\<close>): which errors are
  transient, and the loop of \<open>Do\<close> with its backoff. The operation is a sequence of outcomes, one for
  each call; what the context says after a call and during a wait is the environment's. Durations
  are nanoseconds.
\<close>

section \<open>Errors worth retrying\<close>

text \<open>
  \<open>strings.ToLower\<close> as far as ASCII text can be found in its result: besides the ASCII letters, the
  Kelvin sign and the dotted capital I become ASCII letters.
\<close>

fun ToLower :: "gostring \<Rightarrow> gostring" where
  "ToLower [] = []"
| "ToLower (c # cs) =
     (if take 3 (c # cs) = map char_of [0xE2 :: nat, 0x84, 0xAA] then CHR ''k'' # ToLower (drop 2 cs)
      else if take 2 (c # cs) = map char_of [0xC4 :: nat, 0xB0] then ''i'' @ map char_of [0xCC :: nat, 0x87] @ ToLower (drop 1 cs)
      else lower_char c # ToLower cs)"

fun Contains :: "gostring \<Rightarrow> gostring \<Rightarrow> bool" where
  "Contains [] t \<longleftrightarrow> t = []"
| "Contains (c # cs) t \<longleftrightarrow> starts_with t (c # cs) \<or> Contains cs t"

definition transient_words :: "gostring list" where
  "transient_words = [''locked'', ''busy'', ''deadline'', ''timeout'', ''temporar'', ''connection refused'',
     ''connection reset'', ''too many requests'', '' 500'', '' 502'', '' 503'', '' 504'']"

definition cancellation :: "goerr \<Rightarrow> bool" where
  "cancellation err \<longleftrightarrow> errors_Is err ''context deadline exceeded'' \<or> errors_Is err ''context canceled''"

text \<open>\<open>net_timeout\<close>: the error wraps a network error that is a timeout.\<close>

definition IsRetryable :: "(goerr \<Rightarrow> bool) \<Rightarrow> goerr \<Rightarrow> bool" where
  "IsRetryable net_timeout err =
     (if cancellation err then False
      else if net_timeout err then True
      else list_ex (Contains (ToLower (err_text err))) transient_words)"

section \<open>The loop\<close>

record Config =
  MaxAttempts :: int
  InitialDelay :: int
  MaxDelay :: int
  Multiplier :: float64
  Retryable :: "(goerr \<Rightarrow> bool) option"

definition DefaultConfig :: Config where
  "DefaultConfig = \<lparr>MaxAttempts = 3, InitialDelay = 100000000, MaxDelay = 1000000000, Multiplier = F 2, Retryable = None\<rparr>"

definition QuickConfig :: Config where
  "QuickConfig = \<lparr>MaxAttempts = 3, InitialDelay = 200000000, MaxDelay = 800000000, Multiplier = F 2, Retryable = None\<rparr>"

text \<open>The defaults \<open>Do\<close> puts in.\<close>

definition with_defaults :: "Config \<Rightarrow> Config" where
  "with_defaults c = c\<lparr>
     MaxAttempts := (if MaxAttempts c \<le> 0 then 3 else MaxAttempts c),
     InitialDelay := (if InitialDelay c \<le> 0 then 100000000 else InitialDelay c),
     MaxDelay := (if MaxDelay c \<le> 0 then 1000000000 else MaxDelay c),
     Multiplier := (if Multiplier c \<le> 0 then F 2 else Multiplier c)\<rparr>"

datatype 'a do_outcome = Value 'a | OpError goerr | OpPanic gostring

record 'a surroundings =
  op_at :: "nat \<Rightarrow> 'a do_outcome"
  ctx_after :: "nat \<Rightarrow> goerr option"
  ctx_waiting :: "nat \<Rightarrow> goerr option"
  is_net_timeout :: "goerr \<Rightarrow> bool"

fun safeCall :: "'a do_outcome \<Rightarrow> goerr + 'a" where
  "safeCall (Value x) = Inr x"
| "safeCall (OpError err) = Inl err"
| "safeCall (OpPanic p) = Inl (ErrMsg (''panic recovered: '' @ p))"

definition Safe :: "'a surroundings \<Rightarrow> goerr + 'a" where
  "Safe s = safeCall (op_at s 1)"

definition retryable :: "Config \<Rightarrow> 'a surroundings \<Rightarrow> goerr \<Rightarrow> bool" where
  "retryable cfg s = (case Retryable cfg of None \<Rightarrow> IsRetryable (is_net_timeout s) | Some f \<Rightarrow> f)"

definition next_delay :: "Config \<Rightarrow> int \<Rightarrow> int" where
  "next_delay cfg delay =
     (let d = sint (int64_of_float (float_of_int delay * Multiplier cfg))
      in if MaxDelay cfg < d then MaxDelay cfg else d)"

text \<open>
  From attempt \<open>k\<close> on, with \<open>rest\<close> attempts left after it: the result, the number of the last attempt, and
  the waits that were begun.
\<close>

fun do_loop :: "Config \<Rightarrow> 'a surroundings \<Rightarrow> nat \<Rightarrow> nat \<Rightarrow> int \<Rightarrow> (goerr + 'a) \<times> nat \<times> int list" where
  "do_loop cfg s rest k delay =
     (case safeCall (op_at s k) of
        Inr x \<Rightarrow> (Inr x, k, [])
      | Inl err \<Rightarrow>
          if cancellation err then (Inl err, k, [])
          else (case ctx_after s k of
            Some c \<Rightarrow> (Inl c, k, [])
          | None \<Rightarrow>
              if \<not> retryable cfg s err then (Inl err, k, [])
              else (case rest of
                0 \<Rightarrow> (Inl (ErrWrap (''resilience: failed after '' @ nat_text (nat (MaxAttempts cfg)) @ '' attempts: '') err), k, [])
              | Suc r \<Rightarrow>
                  (case ctx_waiting s k of
                     Some c \<Rightarrow> (Inl c, k, [delay])
                   | None \<Rightarrow>
                       (case do_loop cfg s r (k + 1) (next_delay cfg delay) of
                          (res, n, ws) \<Rightarrow> (res, n, delay # ws))))))"

declare do_loop.simps [simp del]

definition Do :: "Config \<Rightarrow> 'a surroundings \<Rightarrow> (goerr + 'a) \<times> nat \<times> int list" where
  "Do cfg s = (let cfg = with_defaults cfg in do_loop cfg s (nat (MaxAttempts cfg) - 1) 1 (InitialDelay cfg))"

section \<open>What the wrapper promises\<close>

text \<open>An attempt that failed and is followed by another one, if there are any left.\<close>

definition retried :: "Config \<Rightarrow> 'a surroundings \<Rightarrow> nat \<Rightarrow> bool" where
  "retried cfg s k \<longleftrightarrow> (\<exists>err. safeCall (op_at s k) = Inl err \<and> \<not> cancellation err \<and> ctx_after s k = None \<and> retryable cfg s err
     \<and> ctx_waiting s k = None)"

definition answers :: "Config \<Rightarrow> 'a surroundings \<Rightarrow> nat \<Rightarrow> nat \<Rightarrow> goerr + 'a \<Rightarrow> bool" where
  "answers cfg s m n r \<longleftrightarrow>
     (case r of
        Inr x \<Rightarrow> op_at s n = Value x
      | Inl e \<Rightarrow> \<exists>err. safeCall (op_at s n) = Inl err
          \<and> (e = err \<and> (cancellation err \<or> \<not> retryable cfg s err)
             \<or> ctx_after s n = Some e \<or> ctx_waiting s n = Some e
             \<or> n = m \<and> (\<exists>text. e = ErrWrap text err)))"

lemma do_loop_spec:
  assumes "do_loop cfg s rest k delay = (r, n, ws)"
  shows "k \<le> n \<and> n \<le> k + rest \<and> (\<forall>j. k \<le> j \<and> j < n \<longrightarrow> retried cfg s j) \<and> answers cfg s (k + rest) n r
    \<and> length ws \<in> {n - k, Suc n - k} \<and> ws = map (\<lambda>i. (next_delay cfg ^^ i) delay) [0..<length ws]"
  using assms
proof (induction rest arbitrary: k delay r n ws)
  case 0
  then show ?case
    by (subst (asm) do_loop.simps)
       (cases "op_at s k"; auto simp: answers_def split: if_splits option.splits)
next
  case (Suc rest)
  show ?case
  proof (cases "retried cfg s k")
    case False
    then show ?thesis
      using Suc.prems
      by (subst (asm) do_loop.simps)
         (cases "op_at s k"; auto simp: answers_def retried_def split: if_splits option.splits prod.splits)
  next
    case True
    then obtain r' n' ws' where l: "do_loop cfg s rest (k + 1) (next_delay cfg delay) = (r', n', ws')"
        "r = r'" "n = n'" "ws = delay # ws'"
      using Suc.prems
      by (subst (asm) do_loop.simps) (auto simp: retried_def split: prod.splits)
    note ih = Suc.IH [OF l(1)]
    have ws: "ws = map (\<lambda>i. (next_delay cfg ^^ i) delay) [0..<length ws]"
    proof -
      have "map (\<lambda>i. (next_delay cfg ^^ i) delay) [0..<Suc (length ws')]
          = delay # map (\<lambda>i. (next_delay cfg ^^ i) (next_delay cfg delay)) [0..<length ws']"
        by (simp only: map_upt_Suc) (simp add: funpow_swap1)
      then show ?thesis using ih l(4) by simp
    qed
    have "retried cfg s j" if "k \<le> j" "j < n" for j
      using that True ih l(3) by (cases "j = k") auto
    moreover have "length ws \<in> {n - k, Suc n - k}" using ih l by auto
    moreover have "answers cfg s (k + Suc rest) n r" using ih l by simp
    ultimately show ?thesis using ih l(3) ws by auto
  qed
qed


lemma next_delay_capped: "next_delay cfg d \<le> MaxDelay cfg"
  by (simp add: next_delay_def Let_def)

lemma next_delay_double:
  assumes "Multiplier cfg = Fin 2" and "0 < d" and "d < 2 ^ 52"
  shows "next_delay cfg d = min (MaxDelay cfg) (2 * d)"
proof -
  have f: "float_of_int d = Fin (of_int d)" unfolding float_of_int_def by (rule fl_of_int) (use assms in simp)
  have "fl (of_int (d * 2)) = Fin (of_int (d * 2))" by (rule fl_of_int) (use assms in simp)
  then have "float_of_int d * Multiplier cfg = Fin (of_int (2 * d))" by (simp add: f assms(1) times_float64_def mult.commute)
  moreover have "int64_of_float (Fin (of_int (2 * d))) = word_of_int (2 * d)" by (rule int64_of_float_of_int) (use assms in simp_all)
  moreover have "sint (word_of_int (2 * d) :: int64) = 2 * d" by (rule sint_of_int64) (use assms in simp_all)
  ultimately show ?thesis by (simp add: next_delay_def Let_def min_def)
qed

lemma backoff_pow:
  assumes "Multiplier cfg = Fin 2" and "0 < d" and "d < 2 ^ 52" and "0 < MaxDelay cfg" and "MaxDelay cfg < 2 ^ 52"
  shows "(next_delay cfg ^^ Suc i) d = min (MaxDelay cfg) (d * 2 ^ Suc i)"
proof (induction i)
  case 0
  show ?case using next_delay_double [OF assms(1-3)] by (simp add: mult.commute)
next
  case (Suc i)
  let ?m = "min (MaxDelay cfg) (d * 2 ^ Suc i)"
  have "(next_delay cfg ^^ Suc (Suc i)) d = next_delay cfg ?m" by (subst funpow.simps(2)) (simp add: Suc del: funpow.simps)
  also have "\<dots> = min (MaxDelay cfg) (2 * ?m)" by (rule next_delay_double) (use assms in \<open>auto simp: min_def\<close>)
  also have "\<dots> = min (MaxDelay cfg) (d * 2 ^ Suc (Suc i))" using assms(4) by (auto simp: min_def)
  finally show ?case .
qed

text \<open>
  C38: \<open>Do\<close> calls the operation at least once and at most \<open>MaxAttempts\<close> times; each attempt before the last failed
  with a transient error; the result is the last attempt's value, its error, or the context's; and
  the waits double from the initial delay and never exceed the cap, the first one apart.
\<close>

theorem do_contract:
  assumes "Do cfg s = (r, n, ws)" and "Multiplier (with_defaults cfg) = Fin 2"
    and "InitialDelay (with_defaults cfg) < 2 ^ 52" and "MaxDelay (with_defaults cfg) < 2 ^ 52"
  shows "1 \<le> n \<and> int n \<le> MaxAttempts (with_defaults cfg) \<and> (\<forall>j \<in> {1..<n}. retried (with_defaults cfg) s j)
    \<and> answers (with_defaults cfg) s (nat (MaxAttempts (with_defaults cfg))) n r \<and> length ws \<in> {n - 1, n}
    \<and> ws = map (\<lambda>i. if i = 0 then InitialDelay (with_defaults cfg)
        else min (MaxDelay (with_defaults cfg)) (InitialDelay (with_defaults cfg) * 2 ^ i)) [0..<length ws]"
proof -
  let ?c = "with_defaults cfg"
  have pos: "0 < MaxAttempts ?c" "0 < InitialDelay ?c" "0 < MaxDelay ?c" by (simp_all add: with_defaults_def)
  have "do_loop ?c s (nat (MaxAttempts ?c) - 1) 1 (InitialDelay ?c) = (r, n, ws)" using assms(1) by (simp add: Do_def Let_def)
  note spec = do_loop_spec [OF this]
  have m: "1 + (nat (MaxAttempts ?c) - 1) = nat (MaxAttempts ?c)" using pos(1) by simp
  have "map (\<lambda>i. (next_delay ?c ^^ i) (InitialDelay ?c)) [0..<length ws]
      = map (\<lambda>i. if i = 0 then InitialDelay ?c else min (MaxDelay ?c) (InitialDelay ?c * 2 ^ i)) [0..<length ws]"
  proof (rule map_cong [OF refl])
    fix i
    show "(next_delay ?c ^^ i) (InitialDelay ?c) = (if i = 0 then InitialDelay ?c else min (MaxDelay ?c) (InitialDelay ?c * 2 ^ i))"
      using backoff_pow [OF assms(2) pos(2) assms(3) pos(3) assms(4)] by (cases i) auto
  qed
  then have "ws = map (\<lambda>i. if i = 0 then InitialDelay ?c else min (MaxDelay ?c) (InitialDelay ?c * 2 ^ i)) [0..<length ws]"
    using spec by simp
  moreover have "int n \<le> MaxAttempts ?c" using spec pos(1) by linarith
  ultimately show ?thesis using spec m by auto
qed

theorem do_contract_witness:
  "\<exists>r n ws. Do DefaultConfig \<lparr>op_at = (\<lambda>k. if k < 3 then OpError (ErrMsg ''database is locked'') else Value ''row''),
      ctx_after = (\<lambda>_. None), ctx_waiting = (\<lambda>_. None), is_net_timeout = (\<lambda>_. False)\<rparr> = (r, n, ws)
    \<and> n \<le> 3 \<and> ws = map (\<lambda>i. if i = 0 then 100000000 else min 1000000000 (100000000 * 2 ^ i)) [0..<length ws]"
proof -
  let ?s = "\<lparr>op_at = (\<lambda>k. if k < 3 then OpError (ErrMsg ''database is locked'') else Value ''row''),
      ctx_after = (\<lambda>_. None), ctx_waiting = (\<lambda>_. None), is_net_timeout = (\<lambda>_. False)\<rparr>"
  have two: "F 2 = Fin 2" using fl_of_int [of 2] by simp
  have c: "with_defaults DefaultConfig = DefaultConfig" by (simp add: with_defaults_def DefaultConfig_def two zero_float64_def)
  obtain r n ws where run: "Do DefaultConfig ?s = (r, n, ws)" by (metis surj_pair)
  have "Multiplier (with_defaults DefaultConfig) = Fin 2" "InitialDelay (with_defaults DefaultConfig) < 2 ^ 52"
      "MaxDelay (with_defaults DefaultConfig) < 2 ^ 52"
    by (simp_all add: c) (simp_all add: DefaultConfig_def two)
  note t = do_contract [OF run this, unfolded c]
  have sel: "InitialDelay DefaultConfig = 100000000" "MaxDelay DefaultConfig = 1000000000" "MaxAttempts DefaultConfig = 3"
    by (simp_all add: DefaultConfig_def)
  have "int n \<le> 3" "ws = map (\<lambda>i. if i = 0 then 100000000 else min 1000000000 (100000000 * 2 ^ i)) [0..<length ws]"
    using t unfolding sel by blast+
  then show ?thesis using run by auto
qed

end
