(* ===== verification/Geofencing.thy ===== *)
theory Geofencing
  imports GoMath
begin

text \<open>
  Geofences (\<open>internal/geofence/domain/geo.go\<close>, \<open>geofence.go\<close>): distances on the sphere and in the
  plane, points in polygons, and the entry and exit tests of a zone.
\<close>

section \<open>Geometry\<close>

record Point =
  Lat :: float64
  Lng :: float64

definition EarthRadiusM :: rat where
  "EarthRadiusM = 6371000"

definition Haversine :: "gomath \<Rightarrow> float64 \<Rightarrow> float64 \<Rightarrow> float64 \<Rightarrow> float64 \<Rightarrow> float64" where
  "Haversine ma lat1 lng1 lat2 lng2 =
     (let lat1r = fdiv (lat1 * math_Pi) (F 180);
          lat2r = fdiv (lat2 * math_Pi) (F 180);
          dLat = fdiv ((lat2 - lat1) * math_Pi) (F 180);
          dLng = fdiv ((lng2 - lng1) * math_Pi) (F 180);
          a = math_Sin ma (fdiv dLat (F 2)) * math_Sin ma (fdiv dLat (F 2))
              + math_Cos ma lat1r * math_Cos ma lat2r * math_Sin ma (fdiv dLng (F 2)) * math_Sin ma (fdiv dLng (F 2))
      in F (EarthRadiusM * 2) * math_Atan2 ma (math_Sqrt ma a) (math_Sqrt ma (F 1 - a)))"

definition onSegment :: "Point \<Rightarrow> Point \<Rightarrow> Point \<Rightarrow> float64 \<Rightarrow> bool" where
  "onSegment a b c eps =
     (let cross = (Lat c - Lat a) * (Lng b - Lng a) - (Lng c - Lng a) * (Lat b - Lat a)
      in if eps < math_Abs cross then False
         else if Lat c < math_Min (Lat a) (Lat b) - eps \<or> math_Max (Lat a) (Lat b) + eps < Lat c then False
         else if Lng c < math_Min (Lng a) (Lng b) - eps \<or> math_Max (Lng a) (Lng b) + eps < Lng c then False
         else True)"

definition same_point :: "Point \<Rightarrow> Point \<Rightarrow> bool" where
  "same_point a b \<longleftrightarrow> feq (Lat a) (Lat b) \<and> feq (Lng a) (Lng b)"

text \<open>The number of points of a ring without the duplicate that closes it, and its edges.\<close>

definition ring_size :: "Point list \<Rightarrow> nat" where
  "ring_size ring = (let n = length ring in if same_point (ring ! 0) (ring ! (n - 1)) then n - 1 else n)"

definition edges :: "Point list \<Rightarrow> nat \<Rightarrow> (Point \<times> Point) list" where
  "edges ring n = map (\<lambda>i. (ring ! i, ring ! ((i + 1) mod n))) [0..<n]"

text \<open>The edge crosses the ray from \<open>p\<close> to the east.\<close>

definition crosses :: "Point \<Rightarrow> Point \<Rightarrow> Point \<Rightarrow> bool" where
  "crosses p a b \<longleftrightarrow>
     ((Lat p < Lat a) \<noteq> (Lat p < Lat b))
     \<and> Lng p < Lng a + fdiv ((Lat p - Lat a) * (Lng b - Lng a)) (Lat b - Lat a)"

fun ray_cast :: "Point \<Rightarrow> bool \<Rightarrow> (Point \<times> Point) list \<Rightarrow> bool" where
  "ray_cast p inside [] = inside"
| "ray_cast p inside ((a, b) # es) =
     (if onSegment a b p (F (1 / 10 ^ 9)) then True
      else ray_cast p (if crosses p a b then \<not> inside else inside) es)"

definition PointInPolygon :: "float64 \<Rightarrow> float64 \<Rightarrow> Point list \<Rightarrow> bool" where
  "PointInPolygon lat lng ring =
     (if length ring < 3 then False
      else let n = ring_size ring
           in if n < 3 then False else ray_cast \<lparr>Lat = lat, Lng = lng\<rparr> False (edges ring n))"

definition equirectM :: "gomath \<Rightarrow> float64 \<Rightarrow> float64 \<Rightarrow> float64 \<Rightarrow> float64 \<times> float64" where
  "equirectM ma lat lng anchorLat =
     (let latScale = F 111320; lngScale = F 111320 * math_Cos ma (fdiv (anchorLat * math_Pi) (F 180))
      in (lng * lngScale, lat * latScale))"

definition PointToSegmentDistance :: "gomath \<Rightarrow> Point \<Rightarrow> Point \<Rightarrow> Point \<Rightarrow> float64" where
  "PointToSegmentDistance ma p a b =
     (let (ax, ay) = equirectM ma (Lat a) (Lng a) (Lat p);
          (bx, byy) = equirectM ma (Lat b) (Lng b) (Lat p);
          (px, py) = equirectM ma (Lat p) (Lng p) (Lat p);
          dx = bx - ax; dy = byy - ay
      in if feq dx 0 \<and> feq dy 0 then math_Hypot ma (px - ax) (py - ay)
         else let t = fdiv ((px - ax) * dx + (py - ay) * dy) (dx * dx + dy * dy)
              in if t < 0 then math_Hypot ma (px - ax) (py - ay)
                 else if F 1 < t then math_Hypot ma (px - bx) (py - byy)
                 else math_Hypot ma (px - (ax + t * dx)) (py - (ay + t * dy)))"

fun min_distance :: "gomath \<Rightarrow> Point \<Rightarrow> (Point \<times> Point) list \<Rightarrow> float64 \<Rightarrow> float64" where
  "min_distance ma p [] m = m"
| "min_distance ma p ((a, b) # es) m =
     (let d = PointToSegmentDistance ma p a b in min_distance ma p es (if d < m then d else m))"

definition PointToPolygonDistance :: "gomath \<Rightarrow> Point \<Rightarrow> Point list \<Rightarrow> float64" where
  "PointToPolygonDistance ma p ring =
     (if PointInPolygon (Lat p) (Lng p) ring then 0
      else if length ring < 2 then math_MaxFloat64
      else min_distance ma p (edges ring (ring_size ring)) math_MaxFloat64)"

definition CircleContains :: "gomath \<Rightarrow> float64 \<Rightarrow> float64 \<Rightarrow> float64 \<Rightarrow> float64 \<Rightarrow> float64 \<Rightarrow> bool" where
  "CircleContains ma centerLat centerLng radiusM lat lng \<longleftrightarrow> Haversine ma centerLat centerLng lat lng \<le> radiusM"

definition isLeft :: "Point \<Rightarrow> Point \<Rightarrow> Point \<Rightarrow> float64" where
  "isLeft a b p = (Lng b - Lng a) * (Lat p - Lat a) - (Lng p - Lng a) * (Lat b - Lat a)"

fun winding :: "Point \<Rightarrow> (Point \<times> Point) list \<Rightarrow> int \<Rightarrow> int" where
  "winding p [] w = w"
| "winding p ((a, b) # es) w =
     winding p es
       (if Lat a \<le> Lat p then (if Lat p < Lat b \<and> 0 < isLeft a b p then w + 1 else w)
        else (if Lat b \<le> Lat p \<and> isLeft a b p < 0 then w - 1 else w))"

definition PointInPolygonWinding :: "float64 \<Rightarrow> float64 \<Rightarrow> Point list \<Rightarrow> bool" where
  "PointInPolygonWinding lat lng ring =
     (if length ring < 3 then False
      else let n = ring_size ring; p = \<lparr>Lat = lat, Lng = lng\<rparr>
           in if n < 3 then False
              else if list_ex (\<lambda>(a, b). onSegment a b p (F (1 / 10 ^ 9))) (edges ring n) then True
              else winding p (edges ring n) 0 \<noteq> 0)"

section \<open>Zones\<close>

record Geofence =
  zone_ID :: gostring
  zone_TenantID :: gostring
  zone_Name :: gostring
  zone_Kind :: gostring
  Shape :: gostring
  CenterLat :: float64
  CenterLng :: float64
  RadiusM :: float64
  Polygon :: "Point list"
  RouteName :: gostring
  Priority :: int
  IsActive :: bool

definition ContainsEntry :: "gomath \<Rightarrow> Geofence \<Rightarrow> float64 \<Rightarrow> float64 \<Rightarrow> float64 \<Rightarrow> bool" where
  "ContainsEntry ma g lat lng bufferM =
     (if Shape g = ''circle'' then
        (let r = RadiusM g + bufferM in 0 < r \<and> CircleContains ma (CenterLat g) (CenterLng g) r lat lng)
      else if Shape g = ''polygon'' then
        PointInPolygon lat lng (Polygon g)
        \<or> PointToPolygonDistance ma \<lparr>Lat = lat, Lng = lng\<rparr> (Polygon g) \<le> bufferM
      else False)"

definition ContainsExit :: "gomath \<Rightarrow> Geofence \<Rightarrow> float64 \<Rightarrow> float64 \<Rightarrow> float64 \<Rightarrow> bool" where
  "ContainsExit ma g lat lng hysteresisM =
     (if Shape g = ''circle'' then
        (let r = RadiusM g - hysteresisM in 0 < r \<and> CircleContains ma (CenterLat g) (CenterLng g) r lat lng)
      else if Shape g = ''polygon'' then
        PointInPolygon lat lng (Polygon g)
        \<and> hysteresisM < PointToPolygonDistance ma \<lparr>Lat = lat, Lng = lng\<rparr> (Polygon g)
      else False)"

text \<open>The exit test is the stricter one: a fix that keeps a vehicle inside would also let it enter.\<close>

lemma exit_within_entry:
  assumes "ContainsExit ma g lat lng h" and "0 \<le> h" and "0 \<le> b" and "RadiusM g \<noteq> Inf True"
  shows "ContainsEntry ma g lat lng b"
proof (cases "Shape g = ''circle''")
  case True
  let ?d = "Haversine ma (CenterLat g) (CenterLng g) lat lng"
  have in': "0 < RadiusM g - h" "?d \<le> RadiusM g - h"
    using assms(1) True by (simp_all add: ContainsExit_def CircleContains_def Let_def)
  have "?d \<le> RadiusM g + b" using float_diff_le_add assms(2-4) in'(2) by blast
  moreover have "0 < RadiusM g + b"
  proof -
    have "RadiusM g - h \<le> RadiusM g - h" using in'(1) by (cases "RadiusM g - h") (auto simp: zero_float64_def)
    then have "RadiusM g - h \<le> RadiusM g + b" using float_diff_le_add assms(2-4) by blast
    then show ?thesis using in'(1) by (cases "RadiusM g - h"; cases "RadiusM g + b") (auto simp: zero_float64_def)
  qed
  ultimately show ?thesis using True by (simp add: ContainsEntry_def CircleContains_def Let_def)
next
  case False
  then show ?thesis using assms(1) by (auto simp: ContainsExit_def ContainsEntry_def split: if_splits)
qed

text \<open>
  A point inside a polygon is at distance 0 from it, so the polygon's exit test can only hold for a
  hysteresis below 0.
\<close>

lemma polygon_exit_never: "Shape g = ''polygon'' \<Longrightarrow> 0 \<le> h \<Longrightarrow> \<not> ContainsExit ma g lat lng h"
  by (cases h) (auto simp: ContainsExit_def PointToPolygonDistance_def zero_float64_def)

end
