(* ===== verification/Dwell.thy ===== *)
theory Dwell
  imports Geofencing
begin

text \<open>
  The dwell engine (\<open>internal/geofence/application/dwell_engine.go\<close>): the state machine
  outside, entering, inside, leaving of one vehicle, fed with its fixes in order. A dereference of a
  missing zone would be a panic.
\<close>

section \<open>State\<close>

record EngineConfig =
  Debounce :: int
  BufferMetres :: float64
  HysteresisMetres :: float64

record Fix =
  fix_VehicleID :: gostring
  fix_TripID :: "gostring option"
  fix_Timestamp :: gotime
  fix_Lat :: float64
  fix_Lng :: float64
  fx_Speed :: float64

record EngineState =
  st_VehicleID :: gostring
  st_TenantID :: gostring
  State :: gostring
  st_TripID :: "gostring option"
  GeofenceID :: "gostring option"
  ZoneKind :: "gostring option"
  ZoneEnteredAt :: "gotime option"
  ConfirmedAt :: "gotime option"
  ExitStartedAt :: "gotime option"
  LastFixAt :: gotime
  LastLat :: float64
  LastLng :: float64

record ZoneEvent =
  EventType :: gostring
  Zone :: Geofence
  ev_Lat :: float64
  ev_Lng :: float64
  At :: gotime
  Details :: gostring

definition new_state :: "gostring \<Rightarrow> gostring \<Rightarrow> EngineState" where
  "new_state vehicle tenant = \<lparr>st_VehicleID = vehicle, st_TenantID = tenant, State = ''outside'', st_TripID = None, GeofenceID = None, ZoneKind = None, ZoneEnteredAt = None,
     ConfirmedAt = None, ExitStartedAt = None, LastFixAt = 0, LastLat = Fin 0, LastLng = Fin 0\<rparr>"

section \<open>Evaluating a fix\<close>

definition bestZoneFor :: "gomath \<Rightarrow> Geofence list \<Rightarrow> float64 \<Rightarrow> float64 \<Rightarrow> float64 \<Rightarrow> Geofence option" where
  "bestZoneFor ma zones lat lng buffer = find (\<lambda>z. ContainsEntry ma z lat lng buffer) zones"

definition zoneByID :: "Geofence list \<Rightarrow> gostring option \<Rightarrow> Geofence option" where
  "zoneByID zones k = (case k of None \<Rightarrow> None | Some i \<Rightarrow> find (\<lambda>z. zone_ID z = i) zones)"

text \<open>The start of an entry probe, and the state without a zone.\<close>

definition probe :: "gotime \<Rightarrow> Geofence \<Rightarrow> EngineState \<Rightarrow> EngineState" where
  "probe now z s = s\<lparr>ZoneEnteredAt := Some now, GeofenceID := Some (zone_ID z), ZoneKind := Some (zone_Kind z)\<rparr>"

definition without_zone :: "EngineState \<Rightarrow> EngineState" where
  "without_zone s = s\<lparr>GeofenceID := None, ZoneKind := None, ZoneEnteredAt := None\<rparr>"

definition zone_event :: "gostring \<Rightarrow> Geofence \<Rightarrow> Fix \<Rightarrow> gostring \<Rightarrow> ZoneEvent" where
  "zone_event ty z fx details =
     \<lparr>EventType = ty, Zone = z, ev_Lat = fix_Lat fx, ev_Lng = fix_Lng fx, At = fix_Timestamp fx, Details = details\<rparr>"

definition debounced :: "EngineConfig \<Rightarrow> gotime \<Rightarrow> gotime option \<Rightarrow> bool" where
  "debounced cfg now start = (case start of None \<Rightarrow> True | Some t \<Rightarrow> Debounce cfg \<le> time_Sub now t)"

definition eval_outside :: "Fix \<Rightarrow> Geofence option \<Rightarrow> EngineState \<Rightarrow> EngineState \<times> ZoneEvent list" where
  "eval_outside fx entryZone s =
     (case entryZone of None \<Rightarrow> (s, []) | Some z \<Rightarrow> (probe (fix_Timestamp fx) z (s\<lparr>State := ''entering''\<rparr>), []))"

definition eval_entering :: "EngineConfig \<Rightarrow> Fix \<Rightarrow> Geofence option \<Rightarrow> EngineState
    \<Rightarrow> (EngineState \<times> ZoneEvent list) go" where
  "eval_entering cfg fx entryZone s =
     (let now = fix_Timestamp fx in
      case entryZone of
        None \<Rightarrow> Returns (without_zone (s\<lparr>State := ''outside''\<rparr>), [])
      | Some z \<Rightarrow>
          (case GeofenceID s of
             None \<Rightarrow> Panics
           | Some k \<Rightarrow>
               if zone_ID z \<noteq> k then Returns (probe now z s, [])
               else if debounced cfg now (ZoneEnteredAt s) then
                 Returns (s\<lparr>State := ''inside'', ConfirmedAt := Some now\<rparr>,
                   zone_event ''entering'' z fx ''''
                   # (if zone_Kind z = ''restricted'' \<or> zone_Kind z = ''no_entry''
                      then [zone_event ''breach'' z fx (''vehicle entered '' @ zone_Kind z @ '' zone'')] else []))
               else Returns (s, [])))"

definition eval_inside :: "gomath \<Rightarrow> EngineConfig \<Rightarrow> Fix \<Rightarrow> Geofence list \<Rightarrow> Geofence option \<Rightarrow> EngineState
    \<Rightarrow> EngineState \<times> ZoneEvent list" where
  "eval_inside ma cfg fx zones entryZone s =
     (let now = fix_Timestamp fx in
      case (if GeofenceID s \<noteq> None then zoneByID zones (GeofenceID s) else entryZone) of
        None \<Rightarrow>
          (case entryZone of
             Some z \<Rightarrow> (probe now z (s\<lparr>State := ''entering'', ConfirmedAt := None, ExitStartedAt := None\<rparr>), [])
           | None \<Rightarrow> (without_zone (s\<lparr>State := ''outside'', ConfirmedAt := None, ExitStartedAt := None\<rparr>), []))
      | Some cur \<Rightarrow>
          (let s1 = (if GeofenceID s = None
                     then s\<lparr>GeofenceID := Some (zone_ID cur), ZoneKind := Some (zone_Kind cur)\<rparr> else s)
           in if \<not> ContainsExit ma cur (fix_Lat fx) (fix_Lng fx) (HysteresisMetres cfg)
              then (s1\<lparr>State := ''leaving'', ExitStartedAt := Some now\<rparr>, []) else (s1, [])))"

definition eval_leaving :: "EngineConfig \<Rightarrow> Fix \<Rightarrow> Geofence list \<Rightarrow> Geofence option \<Rightarrow> EngineState
    \<Rightarrow> EngineState \<times> ZoneEvent list" where
  "eval_leaving cfg fx zones entryZone s =
     (let now = fix_Timestamp fx in
      case entryZone of
        Some z \<Rightarrow>
          if GeofenceID s = None \<or> GeofenceID s \<noteq> Some (zone_ID z)
          then (probe now z (s\<lparr>State := ''entering'', ExitStartedAt := None\<rparr>), [])
          else (s\<lparr>State := ''inside'', ExitStartedAt := None\<rparr>, [])
      | None \<Rightarrow>
          if debounced cfg now (ExitStartedAt s)
          then (without_zone (s\<lparr>State := ''outside'', ConfirmedAt := None, ExitStartedAt := None\<rparr>),
                case zoneByID zones (GeofenceID s) of Some cur \<Rightarrow> [zone_event ''leaving'' cur fx ''''] | None \<Rightarrow> [])
          else (s, []))"

definition Evaluate :: "gomath \<Rightarrow> EngineConfig \<Rightarrow> EngineState \<Rightarrow> Fix \<Rightarrow> Geofence list
    \<Rightarrow> (EngineState \<times> ZoneEvent list) go" where
  "Evaluate ma cfg current fx zones =
     (let s = current\<lparr>LastFixAt := fix_Timestamp fx, LastLat := fix_Lat fx, LastLng := fix_Lng fx,
                     st_TripID := (if fix_TripID fx \<noteq> None then fix_TripID fx else st_TripID current)\<rparr>;
          entryZone = bestZoneFor ma zones (fix_Lat fx) (fix_Lng fx) (BufferMetres cfg)
      in if State current = ''outside'' then Returns (eval_outside fx entryZone s)
         else if State current = ''entering'' then eval_entering cfg fx entryZone s
         else if State current = ''inside'' then Returns (eval_inside ma cfg fx zones entryZone s)
         else if State current = ''leaving'' then Returns (eval_leaving cfg fx zones entryZone s)
         else Returns (s, []))"

section \<open>Runs\<close>

text \<open>
  The engine over the fixes of a vehicle, each with the zones that applied then: the states after each
  of them with the events it emitted.
\<close>

fun dwell_run :: "gomath \<Rightarrow> EngineConfig \<Rightarrow> EngineState \<Rightarrow> (Fix \<times> Geofence list) list
    \<Rightarrow> (EngineState \<times> ZoneEvent list) list go" where
  "dwell_run ma cfg s [] = Returns []"
| "dwell_run ma cfg s ((fx, zones) # fs) =
     go_then (Evaluate ma cfg s fx zones) (\<lambda>(t, evs). go_then (dwell_run ma cfg t fs) (\<lambda>rest. Returns ((t, evs) # rest)))"

text \<open>The states a run can be in.\<close>

definition engine_ok :: "EngineState \<Rightarrow> bool" where
  "engine_ok s \<longleftrightarrow>
     State s \<in> {''outside'', ''entering'', ''inside'', ''leaving''}
     \<and> (State s = ''outside'' \<longrightarrow> GeofenceID s = None \<and> ZoneKind s = None \<and> ZoneEnteredAt s = None)
     \<and> (State s \<noteq> ''outside'' \<longrightarrow> GeofenceID s \<noteq> None \<and> ZoneKind s \<noteq> None \<and> ZoneEnteredAt s \<noteq> None)
     \<and> (State s \<in> {''inside'', ''leaving''} \<longrightarrow> ConfirmedAt s \<noteq> None)
     \<and> (State s = ''leaving'' \<longleftrightarrow> ExitStartedAt s \<noteq> None)"

lemma new_state_ok: "engine_ok (new_state v t)"
  by (simp add: engine_ok_def new_state_def)

text \<open>The part of a state the machine looks at.\<close>

lemmas zone_parts = probe_def without_zone_def engine_ok_def

lemma outside_ok: "engine_ok s \<Longrightarrow> State s = ''outside'' \<Longrightarrow> engine_ok (fst (eval_outside fx z s))"
  by (cases z) (simp_all add: eval_outside_def zone_parts)

lemma entering_ok:
  assumes "engine_ok s" and "State s = ''entering''"
  shows "\<exists>t evs. eval_entering cfg fx z s = Returns (t, evs) \<and> engine_ok t"
proof (cases z)
  case None
  then show ?thesis using assms by (simp add: eval_entering_def zone_parts)
next
  case (Some zone)
  obtain k where "GeofenceID s = Some k" using assms by (auto simp: engine_ok_def)
  then show ?thesis using assms Some by (simp add: eval_entering_def Let_def) (simp add: zone_parts)
qed

lemma inside_ok:
  assumes "engine_ok s" and "State s = ''inside''"
  shows "engine_ok (fst (eval_inside ma cfg fx zones z s))"
proof -
  have "GeofenceID s \<noteq> None" using assms by (simp add: engine_ok_def)
  then show ?thesis
    using assms
    by (cases "zoneByID zones (GeofenceID s)"; cases z) (simp_all add: eval_inside_def Let_def, simp_all add: zone_parts)
qed

lemma leaving_ok:
  assumes "engine_ok s" and "State s = ''leaving''"
  shows "engine_ok (fst (eval_leaving cfg fx zones z s))"
  using assms by (cases z) (simp_all add: eval_leaving_def Let_def, simp_all add: zone_parts)

text \<open>The bookkeeping of a fix that does not depend on the state.\<close>

definition note_fix :: "Fix \<Rightarrow> EngineState \<Rightarrow> EngineState" where
  "note_fix fx s = s\<lparr>LastFixAt := fix_Timestamp fx, LastLat := fix_Lat fx, LastLng := fix_Lng fx,
     st_TripID := (if fix_TripID fx \<noteq> None then fix_TripID fx else st_TripID s)\<rparr>"

lemma note_fix_sel [simp]:
  "State (note_fix fx s) = State s" "GeofenceID (note_fix fx s) = GeofenceID s" "ZoneKind (note_fix fx s) = ZoneKind s"
  "ZoneEnteredAt (note_fix fx s) = ZoneEnteredAt s" "ConfirmedAt (note_fix fx s) = ConfirmedAt s"
  "ExitStartedAt (note_fix fx s) = ExitStartedAt s"
  by (simp_all add: note_fix_def)

lemma note_fix_ok: "engine_ok (note_fix fx s) = engine_ok s"
  by (simp add: engine_ok_def)

lemma Evaluate_cases:
  "Evaluate ma cfg s fx zones =
     (let z = bestZoneFor ma zones (fix_Lat fx) (fix_Lng fx) (BufferMetres cfg); n = note_fix fx s
      in if State s = ''outside'' then Returns (eval_outside fx z n)
         else if State s = ''entering'' then eval_entering cfg fx z n
         else if State s = ''inside'' then Returns (eval_inside ma cfg fx zones z n)
         else if State s = ''leaving'' then Returns (eval_leaving cfg fx zones z n)
         else Returns (n, []))"
  by (simp add: Evaluate_def note_fix_def Let_def)

lemma Evaluate_ok:
  assumes "engine_ok s"
  shows "\<exists>t evs. Evaluate ma cfg s fx zones = Returns (t, evs) \<and> engine_ok t"
proof -
  let ?z = "bestZoneFor ma zones (fix_Lat fx) (fix_Lng fx) (BufferMetres cfg)" and ?n = "note_fix fx s"
  have n: "engine_ok ?n" using assms by (simp add: note_fix_ok)
  consider "State s = ''outside''" | "State s = ''entering''" | "State s = ''inside''" | "State s = ''leaving''"
    using assms by (auto simp: engine_ok_def)
  then show ?thesis
  proof cases
    case 1
    then have "engine_ok (fst (eval_outside fx ?z ?n))" by (intro outside_ok n) simp
    then show ?thesis using 1 by (cases "eval_outside fx ?z ?n") (simp add: Evaluate_cases Let_def)
  next
    case 2
    then have "\<exists>t evs. eval_entering cfg fx ?z ?n = Returns (t, evs) \<and> engine_ok t" by (intro entering_ok n) simp
    then show ?thesis using 2 by (simp add: Evaluate_cases Let_def)
  next
    case 3
    then have "engine_ok (fst (eval_inside ma cfg fx zones ?z ?n))" by (intro inside_ok n) simp
    then show ?thesis using 3 by (cases "eval_inside ma cfg fx zones ?z ?n") (simp add: Evaluate_cases Let_def)
  next
    case 4
    then have "engine_ok (fst (eval_leaving cfg fx zones ?z ?n))" by (intro leaving_ok n) simp
    then show ?thesis using 4 by (cases "eval_leaving cfg fx zones ?z ?n") (simp add: Evaluate_cases Let_def)
  qed
qed

section \<open>What an event says about the fixes\<close>

text \<open>
  What the past of a vehicle guarantees about its state. Entering: a last stretch of the fixes all had
  the probed zone as their best zone, and the probe started with the first of them. Leaving: after the
  fix at which the exit started, no fix was in the entry range of any zone.
\<close>

definition best_id :: "gomath \<Rightarrow> EngineConfig \<Rightarrow> Fix \<times> Geofence list \<Rightarrow> gostring option" where
  "best_id ma cfg f = (case f of (fx, zones) \<Rightarrow>
     map_option zone_ID (bestZoneFor ma zones (fix_Lat fx) (fix_Lng fx) (BufferMetres cfg)))"

definition stretch :: "(Fix \<times> Geofence list) list \<Rightarrow> (Fix \<times> Geofence list \<Rightarrow> bool) \<Rightarrow> gotime \<Rightarrow> bool" where
  "stretch past holds t \<longleftrightarrow>
     (\<exists>old f rec. past = old @ f # rec \<and> fix_Timestamp (fst f) = t \<and> list_all holds (f # rec))"

definition since :: "(Fix \<times> Geofence list) list \<Rightarrow> (Fix \<times> Geofence list \<Rightarrow> bool) \<Rightarrow> gotime \<Rightarrow> bool" where
  "since past holds t \<longleftrightarrow>
     (\<exists>old f rec. past = old @ f # rec \<and> fix_Timestamp (fst f) = t \<and> list_all holds rec)"

definition warranted :: "gomath \<Rightarrow> EngineConfig \<Rightarrow> (Fix \<times> Geofence list) list \<Rightarrow> EngineState \<Rightarrow> bool" where
  "warranted ma cfg past s \<longleftrightarrow>
     engine_ok s
     \<and> (State s = ''entering'' \<longrightarrow>
          stretch past (\<lambda>f. best_id ma cfg f = GeofenceID s) (the (ZoneEnteredAt s)))
     \<and> (State s = ''leaving'' \<longrightarrow>
          since past (\<lambda>f. best_id ma cfg f = None) (the (ExitStartedAt s)))"

text \<open>
  What an event promises: an entry, and the breach of a forbidden zone, that the zone was the best one
  at every fix of a stretch that ends at the fix and lasts at least the debounce time; an exit that for
  at least that long no fix after the first was in the range of a zone.
\<close>

definition event_warranted :: "gomath \<Rightarrow> EngineConfig \<Rightarrow> (Fix \<times> Geofence list) list \<Rightarrow> ZoneEvent \<Rightarrow> bool" where
  "event_warranted ma cfg past ev \<longleftrightarrow>
     (\<exists>t. Debounce cfg \<le> time_Sub (At ev) t
        \<and> (if EventType ev = ''leaving'' then since past (\<lambda>f. best_id ma cfg f = None) t
           else stretch past (\<lambda>f. best_id ma cfg f = Some (zone_ID (Zone ev))) t))
     \<and> EventType ev \<in> {''entering'', ''breach'', ''leaving''}
     \<and> (EventType ev = ''breach'' \<longrightarrow> zone_Kind (Zone ev) \<in> {''restricted'', ''no_entry''})
     \<and> (\<exists>old fx zones. past = old @ [(fx, zones)]
        \<and> Zone ev \<in> set zones \<and> At ev = fix_Timestamp fx \<and> ev_Lat ev = fix_Lat fx \<and> ev_Lng ev = fix_Lng fx)"

lemma stretch_start: "holds (fx, zones) \<Longrightarrow> stretch (past @ [(fx, zones)]) holds (fix_Timestamp fx)"
  unfolding stretch_def by (rule exI [of _ past], rule exI [of _ "(fx, zones)"], rule exI [of _ "[]"]) simp

lemma stretch_extend:
  assumes "stretch past holds t" and "holds f"
  shows "stretch (past @ [f]) holds t"
proof -
  obtain old g rec where "past = old @ g # rec" "fix_Timestamp (fst g) = t" "list_all holds (g # rec)"
    using assms(1) by (auto simp: stretch_def)
  then show ?thesis
    unfolding stretch_def using assms(2)
    by (intro exI [of _ old] exI [of _ g] exI [of _ "rec @ [f]"]) simp
qed

lemma since_start: "since (past @ [(fx, zones)]) holds (fix_Timestamp fx)"
  unfolding since_def by (rule exI [of _ past], rule exI [of _ "(fx, zones)"], rule exI [of _ "[]"]) simp

lemma since_extend:
  assumes "since past holds t" and "holds f"
  shows "since (past @ [f]) holds t"
proof -
  obtain old g rec where "past = old @ g # rec" "fix_Timestamp (fst g) = t" "list_all holds rec"
    using assms(1) by (auto simp: since_def)
  then show ?thesis
    unfolding since_def using assms(2)
    by (intro exI [of _ old] exI [of _ g] exI [of _ "rec @ [f]"]) simp
qed

lemma best_id_eq: "bestZoneFor ma zones (fix_Lat fx) (fix_Lng fx) (BufferMetres cfg) = z \<Longrightarrow>
    best_id ma cfg (fx, zones) = map_option zone_ID z"
  by (simp add: best_id_def)

lemma bestZoneFor_in: "bestZoneFor ma zones lat lng b = Some z \<Longrightarrow> z \<in> set zones"
  by (auto simp: bestZoneFor_def find_Some_iff)

lemma zoneByID_in: "zoneByID zones k = Some z \<Longrightarrow> z \<in> set zones \<and> k = Some (zone_ID z)"
  by (auto simp: zoneByID_def find_Some_iff split: option.splits)

text \<open>The cases of a step, one per state, for a state that the past warrants.\<close>

lemma step_outside:
  assumes "warranted ma cfg past s" and "State s = ''outside''"
    and "eval_outside fx (bestZoneFor ma zones (fix_Lat fx) (fix_Lng fx) (BufferMetres cfg)) (note_fix fx s) = (t, evs)"
  shows "warranted ma cfg (past @ [(fx, zones)]) t \<and> evs = []"
proof (cases "bestZoneFor ma zones (fix_Lat fx) (fix_Lng fx) (BufferMetres cfg)")
  case None
  then have "t = note_fix fx s" "evs = []" using assms(3) by (simp_all add: eval_outside_def)
  then show ?thesis using assms(1,2) by (simp add: warranted_def note_fix_ok)
next
  case (Some z)
  then have t: "t = probe (fix_Timestamp fx) z (note_fix fx s\<lparr>State := ''entering''\<rparr>)" "evs = []"
    using assms(3) by (simp_all add: eval_outside_def)
  have "engine_ok t" using t assms(1,2) by (simp add: warranted_def zone_parts)
  moreover have "stretch (past @ [(fx, zones)]) (\<lambda>f. best_id ma cfg f = Some (zone_ID z)) (fix_Timestamp fx)"
    by (rule stretch_start) (simp add: best_id_eq [OF Some])
  ultimately show ?thesis using t by (simp add: warranted_def probe_def)
qed

lemma step_entering:
  assumes w: "warranted ma cfg past s" and s: "State s = ''entering''"
    and e: "eval_entering cfg fx (bestZoneFor ma zones (fix_Lat fx) (fix_Lng fx) (BufferMetres cfg)) (note_fix fx s)
      = Returns (t, evs)"
  shows "warranted ma cfg (past @ [(fx, zones)]) t \<and> (\<forall>ev\<in>set evs. event_warranted ma cfg (past @ [(fx, zones)]) ev)"
proof (cases "bestZoneFor ma zones (fix_Lat fx) (fix_Lng fx) (BufferMetres cfg)")
  case None
  then have "t = without_zone (note_fix fx s\<lparr>State := ''outside''\<rparr>)" "evs = []" using e by (simp_all add: eval_entering_def)
  then show ?thesis using w s by (simp add: warranted_def zone_parts)
next
  case (Some z)
  let ?h = "past @ [(fx, zones)]"
  obtain k t0 where k: "GeofenceID s = Some k" and t0: "ZoneEnteredAt s = Some t0"
    using w s by (auto simp: warranted_def engine_ok_def)
  have ok: "engine_ok s" and st: "stretch past (\<lambda>f. best_id ma cfg f = Some k) t0"
    using w s k t0 by (simp_all add: warranted_def)
  have b: "best_id ma cfg (fx, zones) = Some (zone_ID z)" by (simp add: best_id_eq [OF Some])
  have start: "stretch ?h (\<lambda>f. best_id ma cfg f = Some (zone_ID z)) (fix_Timestamp fx)"
    by (rule stretch_start) (rule b)
  show ?thesis
  proof (cases "zone_ID z = k")
    case False
    then have "t = probe (fix_Timestamp fx) z (note_fix fx s)" "evs = []"
      using e Some k by (simp_all add: eval_entering_def Let_def)
    then show ?thesis using ok s start by (simp add: warranted_def zone_parts)
  next
    case True
    have ext: "stretch ?h (\<lambda>f. best_id ma cfg f = Some k) t0"
      using st by (rule stretch_extend) (simp add: b True)
    show ?thesis
    proof (cases "debounced cfg (fix_Timestamp fx) (Some t0)")
      case False
      then have "t = note_fix fx s" "evs = []"
        using e Some k t0 True by (simp_all add: eval_entering_def Let_def)
      then show ?thesis using ok s k t0 ext by (simp add: warranted_def note_fix_ok)
    next
      case True': True
      have evs: "evs = zone_event ''entering'' z fx ''''
            # (if zone_Kind z = ''restricted'' \<or> zone_Kind z = ''no_entry''
               then [zone_event ''breach'' z fx (''vehicle entered '' @ zone_Kind z @ '' zone'')] else [])"
        and "t = note_fix fx s\<lparr>State := ''inside'', ConfirmedAt := Some (fix_Timestamp fx)\<rparr>"
        using e Some k t0 True True' by (simp_all add: eval_entering_def Let_def)
      then have t: "State t = ''inside''" "engine_ok t" using ok s by (simp_all add: engine_ok_def)
      have "event_warranted ma cfg ?h (zone_event ty z fx det)"
        if "ty = ''entering'' \<or> ty = ''breach'' \<and> (zone_Kind z = ''restricted'' \<or> zone_Kind z = ''no_entry'')" for ty det
        using that ext True True' bestZoneFor_in [OF Some]
        by (auto simp: event_warranted_def zone_event_def debounced_def)
      then have "\<forall>ev\<in>set evs. event_warranted ma cfg ?h ev" unfolding evs by simp
      then show ?thesis using t by (simp add: warranted_def)
    qed
  qed
qed

lemma step_inside:
  assumes w: "warranted ma cfg past s" and s: "State s = ''inside''"
    and e: "eval_inside ma cfg fx zones (bestZoneFor ma zones (fix_Lat fx) (fix_Lng fx) (BufferMetres cfg)) (note_fix fx s)
      = (t, evs)"
  shows "warranted ma cfg (past @ [(fx, zones)]) t \<and> evs = []"
proof -
  have g: "GeofenceID s \<noteq> None" and ok: "engine_ok s" using w s by (simp_all add: warranted_def engine_ok_def)
  have ok': "engine_ok t"
    using inside_ok [of "note_fix fx s"] ok s e by (metis fst_conv note_fix_ok note_fix_sel(1))
  consider (kept) cur where "zoneByID zones (GeofenceID s) = Some cur"
    | (lost) "zoneByID zones (GeofenceID s) = None" "bestZoneFor ma zones (fix_Lat fx) (fix_Lng fx) (BufferMetres cfg) = None"
    | (other) z where "zoneByID zones (GeofenceID s) = None"
        "bestZoneFor ma zones (fix_Lat fx) (fix_Lng fx) (BufferMetres cfg) = Some z"
    by fastforce
  then show ?thesis
  proof cases
    case kept
    then have "evs = []" "State t = ''inside'' \<or> State t = ''leaving'' \<and> ExitStartedAt t = Some (fix_Timestamp fx)"
      using e g s by (auto simp: eval_inside_def Let_def split: if_splits)
    then show ?thesis using ok' by (auto simp: warranted_def intro: since_start)
  next
    case lost
    then show ?thesis using e g ok' by (auto simp: eval_inside_def Let_def warranted_def without_zone_def)
  next
    case other
    then have "evs = []" "State t = ''entering''" "GeofenceID t = Some (zone_ID z)" "ZoneEnteredAt t = Some (fix_Timestamp fx)"
      using e g by (auto simp: eval_inside_def Let_def probe_def)
    moreover have "stretch (past @ [(fx, zones)]) (\<lambda>f. best_id ma cfg f = Some (zone_ID z)) (fix_Timestamp fx)"
      by (rule stretch_start) (simp add: best_id_eq [OF other(2)])
    ultimately show ?thesis using ok' by (simp add: warranted_def)
  qed
qed

lemma step_leaving:
  assumes w: "warranted ma cfg past s" and s: "State s = ''leaving''"
    and e: "eval_leaving cfg fx zones (bestZoneFor ma zones (fix_Lat fx) (fix_Lng fx) (BufferMetres cfg)) (note_fix fx s)
      = (t, evs)"
  shows "warranted ma cfg (past @ [(fx, zones)]) t \<and> (\<forall>ev\<in>set evs. event_warranted ma cfg (past @ [(fx, zones)]) ev)"
proof -
  let ?h = "past @ [(fx, zones)]"
  obtain t0 where t0: "ExitStartedAt s = Some t0" using w s by (auto simp: warranted_def engine_ok_def)
  have ok: "engine_ok s" and st: "since past (\<lambda>f. best_id ma cfg f = None) t0"
    using w s t0 by (simp_all add: warranted_def)
  have ok': "engine_ok t"
    using leaving_ok [of "note_fix fx s"] ok s e by (metis fst_conv note_fix_ok note_fix_sel(1))
  show ?thesis
  proof (cases "bestZoneFor ma zones (fix_Lat fx) (fix_Lng fx) (BufferMetres cfg)")
    case (Some z)
    have "stretch ?h (\<lambda>f. best_id ma cfg f = Some (zone_ID z)) (fix_Timestamp fx)"
      by (rule stretch_start) (simp add: best_id_eq [OF Some])
    moreover have "evs = []" and "State t = ''inside''
        \<or> State t = ''entering'' \<and> GeofenceID t = Some (zone_ID z) \<and> ZoneEnteredAt t = Some (fix_Timestamp fx)"
      using e Some by (auto simp: eval_leaving_def Let_def probe_def split: if_splits)
    ultimately show ?thesis using ok' by (auto simp: warranted_def)
  next
    case None
    have ext: "since ?h (\<lambda>f. best_id ma cfg f = None) t0"
      using st by (rule since_extend) (simp add: best_id_eq [OF None])
    show ?thesis
    proof (cases "debounced cfg (fix_Timestamp fx) (Some t0)")
      case False
      then have "t = note_fix fx s" "evs = []" using e None t0 by (simp_all add: eval_leaving_def Let_def)
      then show ?thesis using ok s t0 ext by (simp add: warranted_def note_fix_ok)
    next
      case True
      then have t: "State t = ''outside''"
        and evs: "\<forall>ev\<in>set evs. \<exists>cur. zoneByID zones (GeofenceID s) = Some cur \<and> ev = zone_event ''leaving'' cur fx ''''"
        using e None t0 by (auto simp: eval_leaving_def Let_def without_zone_def split: option.splits)
      have "\<forall>ev\<in>set evs. event_warranted ma cfg ?h ev"
        using evs ext True zoneByID_in by (fastforce simp: event_warranted_def zone_event_def debounced_def)
      then show ?thesis using t ok' by (simp add: warranted_def)
    qed
  qed
qed

lemma Evaluate_warranted:
  assumes w: "warranted ma cfg past s"
  shows "\<exists>t evs. Evaluate ma cfg s fx zones = Returns (t, evs) \<and> warranted ma cfg (past @ [(fx, zones)]) t
    \<and> (\<forall>ev\<in>set evs. event_warranted ma cfg (past @ [(fx, zones)]) ev)"
proof -
  obtain t evs where e: "Evaluate ma cfg s fx zones = Returns (t, evs)"
    using Evaluate_ok w by (metis warranted_def)
  have "warranted ma cfg (past @ [(fx, zones)]) t \<and> (\<forall>ev\<in>set evs. event_warranted ma cfg (past @ [(fx, zones)]) ev)"
  proof -
    consider "State s = ''outside''" | "State s = ''entering''" | "State s = ''inside''" | "State s = ''leaving''"
      using w by (auto simp: warranted_def engine_ok_def)
    then show ?thesis
    proof cases
      case 1
      then show ?thesis using step_outside [OF w 1, of fx zones t evs] e by (simp add: Evaluate_cases Let_def)
    next
      case 2
      then show ?thesis using step_entering [OF w 2, of fx zones t evs] e by (simp add: Evaluate_cases Let_def)
    next
      case 3
      then show ?thesis using step_inside [OF w 3, of fx zones t evs] e by (simp add: Evaluate_cases Let_def)
    next
      case 4
      then show ?thesis using step_leaving [OF w 4, of fx zones t evs] e by (simp add: Evaluate_cases Let_def)
    qed
  qed
  then show ?thesis using e by blast
qed

lemma run_warranted:
  assumes "warranted ma cfg past s"
  shows "\<exists>rs. dwell_run ma cfg s fs = Returns rs \<and> length rs = length fs
    \<and> (\<forall>i<length fs. warranted ma cfg (past @ take (Suc i) fs) (fst (rs ! i))
        \<and> (\<forall>ev\<in>set (snd (rs ! i)). event_warranted ma cfg (past @ take (Suc i) fs) ev))"
  using assms
proof (induction fs arbitrary: past s)
  case Nil
  then show ?case by simp
next
  case (Cons f fs)
  obtain fx zones where f: "f = (fx, zones)" by (cases f)
  obtain t evs where e: "Evaluate ma cfg s fx zones = Returns (t, evs)"
    and t: "warranted ma cfg (past @ [f]) t" "\<forall>ev\<in>set evs. event_warranted ma cfg (past @ [f]) ev"
    using Evaluate_warranted [OF Cons.prems] f by blast
  obtain rs where rs: "dwell_run ma cfg t fs = Returns rs" "length rs = length fs"
    and each: "\<forall>i<length fs. warranted ma cfg ((past @ [f]) @ take (Suc i) fs) (fst (rs ! i))
        \<and> (\<forall>ev\<in>set (snd (rs ! i)). event_warranted ma cfg ((past @ [f]) @ take (Suc i) fs) ev)"
    using Cons.IH [OF t(1)] by blast
  have "warranted ma cfg (past @ take (Suc i) (f # fs)) (fst (((t, evs) # rs) ! i))
      \<and> (\<forall>ev\<in>set (snd (((t, evs) # rs) ! i)). event_warranted ma cfg (past @ take (Suc i) (f # fs)) ev)"
    if "i < length (f # fs)" for i
    using t each that by (cases i) auto
  then show ?case using e rs f by (intro exI [of _ "(t, evs) # rs"]) simp
qed

lemma new_state_warranted: "warranted ma cfg [] (new_state v t)"
  using new_state_ok by (simp add: warranted_def new_state_def)

section \<open>Entries and exits alternate\<close>

text \<open>
  A log of events read from the outside: \<open>z\<close> is the zone a vehicle is confirmed to be in. A breach is
  reported in that zone, and only an exit from it.
\<close>

fun paired :: "gostring option \<Rightarrow> ZoneEvent list \<Rightarrow> bool" where
  "paired z [] \<longleftrightarrow> True"
| "paired z (ev # evs) \<longleftrightarrow>
     (if EventType ev = ''entering'' then paired (Some (zone_ID (Zone ev))) evs
      else if EventType ev = ''breach'' then z = Some (zone_ID (Zone ev)) \<and> paired z evs
      else EventType ev = ''leaving'' \<and> z = Some (zone_ID (Zone ev)) \<and> paired None evs)"

fun confirmed :: "gostring option \<Rightarrow> ZoneEvent list \<Rightarrow> gostring option" where
  "confirmed z [] = z"
| "confirmed z (ev # evs) =
     confirmed (if EventType ev = ''entering'' then Some (zone_ID (Zone ev))
                else if EventType ev = ''leaving'' then None else z) evs"

lemma paired_append: "paired z (xs @ ys) \<longleftrightarrow> paired z xs \<and> paired (confirmed z xs) ys"
  by (induction xs arbitrary: z) auto

text \<open>While a vehicle is inside or leaving, the log says that it is in its zone.\<close>

definition logged :: "gostring option \<Rightarrow> EngineState \<Rightarrow> bool" where
  "logged z s \<longleftrightarrow> (State s \<in> {''inside'', ''leaving''} \<longrightarrow> z = GeofenceID s)"

lemma Evaluate_logged:
  assumes ok: "engine_ok s" and l: "logged z s" and e: "Evaluate ma cfg s fx zones = Returns (t, evs)"
  shows "paired z evs \<and> logged (confirmed z evs) t"
proof -
  let ?z = "bestZoneFor ma zones (fix_Lat fx) (fix_Lng fx) (BufferMetres cfg)" and ?n = "note_fix fx s"
  consider "State s = ''outside''" | "State s = ''entering''" | "State s = ''inside''" | "State s = ''leaving''"
    using ok by (auto simp: engine_ok_def)
  then show ?thesis
  proof cases
    case 1
    then show ?thesis using e by (cases ?z) (auto simp: Evaluate_cases eval_outside_def probe_def logged_def)
  next
    case 2
    then show ?thesis
      using e by (auto simp: Evaluate_cases Let_def eval_entering_def zone_event_def probe_def without_zone_def logged_def
        split: option.splits if_splits)
  next
    case 3
    then show ?thesis
      using e l ok by (auto simp: Evaluate_cases Let_def eval_inside_def probe_def without_zone_def logged_def engine_ok_def
        split: option.splits if_splits)
  next
    case 4
    then show ?thesis
      using e l ok zoneByID_in [of zones "GeofenceID s"]
      by (auto simp: Evaluate_cases Let_def eval_leaving_def zone_event_def probe_def without_zone_def logged_def
        split: option.splits if_splits)
  qed
qed

lemma run_paired:
  assumes "engine_ok s" and "logged z s"
  shows "\<exists>rs. dwell_run ma cfg s fs = Returns rs \<and> paired z (concat (map snd rs))"
  using assms
proof (induction fs arbitrary: s z)
  case Nil
  then show ?case by simp
next
  case (Cons f fs)
  obtain fx zones where f: "f = (fx, zones)" by (cases f)
  obtain t evs where e: "Evaluate ma cfg s fx zones = Returns (t, evs)" "engine_ok t"
    using Evaluate_ok [OF Cons.prems(1)] by blast
  have t: "paired z evs" "logged (confirmed z evs) t" using Evaluate_logged [OF Cons.prems e(1)] by simp_all
  obtain rs where "dwell_run ma cfg t fs = Returns rs" "paired (confirmed z evs) (concat (map snd rs))"
    using Cons.IH [OF e(2) t(2)] by blast
  then show ?case using e t f by (simp add: paired_append)
qed

text \<open>
  A run: a vehicle is parked in a small restricted zone A, smaller than the hysteresis, and then a zone
  B of higher priority that covers the place is added.
\<close>

definition some_math :: gomath where
  "some_math = \<lparr>math_Sin = (\<lambda>x. x), math_Cos = (\<lambda>x. Fin 1), math_Asin = (\<lambda>x. x), math_Atan2 = (\<lambda>x y. Fin 0),
     math_Sqrt = (\<lambda>x. x), math_Hypot = (\<lambda>x y. math_Max (math_Abs x) (math_Abs y))\<rparr>"

definition spot :: "gostring \<Rightarrow> gostring \<Rightarrow> Geofence" where
  "spot k kind = \<lparr>zone_ID = k, zone_TenantID = ''t'', zone_Name = k, zone_Kind = kind, Shape = ''circle'', CenterLat = Fin 19, CenterLng = Fin 73,
     RadiusM = Fin 20, Polygon = [],
     RouteName = '''', Priority = 0, IsActive = True\<rparr>"

definition thirty :: EngineConfig where
  "thirty = \<lparr>Debounce = 30, BufferMetres = Fin 50, HysteresisMetres = Fin 25\<rparr>"

definition parked :: "(Fix \<times> Geofence list) list" where
  "parked = map (\<lambda>(t, zs). (\<lparr>fix_VehicleID = ''v'', fix_TripID = None, fix_Timestamp = t, fix_Lat = Fin 19,
       fix_Lng = Fin 73, fx_Speed = 0\<rparr>, zs))
     [(1, [spot ''A'' ''restricted'']), (31, [spot ''A'' ''restricted'']), (61, [spot ''A'' ''restricted'']),
      (91, [spot ''B'' ''customer'', spot ''A'' ''restricted'']),
      (121, [spot ''B'' ''customer'', spot ''A'' ''restricted''])]"

lemma spot_entry [simp]: "ContainsEntry some_math (spot k kind) lat lng (Fin 50)"
proof -
  have "F (EarthRadiusM * 2) * Fin 0 = Fin 0"
    using fl_of_int [of 12742000] by (simp add: EarthRadiusM_def float_ops)
  then have "Haversine some_math a b c d = Fin 0" for a b c d by (simp add: Haversine_def some_math_def Let_def)
  moreover have "Fin 20 + Fin 50 = Fin 70" by code_simp
  ultimately show ?thesis by (simp add: ContainsEntry_def CircleContains_def spot_def Let_def zero_float64_def)
qed

lemma spot_exit [simp]: "\<not> ContainsExit some_math (spot k kind) lat lng (Fin 25)"
proof -
  have "Fin 20 - Fin 25 = Fin (- 5)" by code_simp
  then show ?thesis by (simp add: ContainsExit_def spot_def Let_def zero_float64_def)
qed

definition summary :: "EngineState \<times> ZoneEvent list \<Rightarrow> gostring \<times> (gostring \<times> gostring) list" where
  "summary r = (State (fst r), map (\<lambda>ev. (EventType ev, zone_ID (Zone ev))) (snd r))"

lemma parked_run:
  "\<exists>rs. dwell_run some_math thirty (new_state ''v'' ''t'') parked = Returns rs \<and> map summary rs
     = [(''entering'', []), (''inside'', [(''entering'', ''A''), (''breach'', ''A'')]), (''leaving'', []),
        (''entering'', []), (''inside'', [(''entering'', ''B'')])]"
  by (simp add: parked_def thirty_def new_state_def Evaluate_def bestZoneFor_def zoneByID_def time_Sub_def summary_def
      eval_outside_def eval_entering_def eval_inside_def eval_leaving_def probe_def debounced_def zone_event_def Let_def,
      simp add: spot_def)

text \<open>
  C33: from a fresh state the engine never panics: it answers every sequence of fixes, with a
  well-formed state after each. And every event is debounced. An \<open>entering\<close> or \<open>breach\<close> event of a
  zone is emitted at a fix only when the zone was the best one at every fix of a stretch that ends
  there and lasts at least the debounce time, and a breach only of a restricted or forbidden zone; a
  \<open>leaving\<close> event only when, for at least the debounce time, no fix was in the entry range of a zone.
\<close>

theorem dwell_debounced:
  "\<exists>rs. dwell_run ma cfg (new_state v t) fs = Returns rs \<and> length rs = length fs
    \<and> (\<forall>i<length fs. engine_ok (fst (rs ! i))
        \<and> (\<forall>ev\<in>set (snd (rs ! i)). event_warranted ma cfg (take (Suc i) fs) ev))"
  using run_warranted [OF new_state_warranted, of ma cfg v t fs] unfolding warranted_def append_Nil by blast

lemma dwell_debounced_witness:
  "\<exists>rs ev. dwell_run some_math thirty (new_state ''v'' ''t'') parked = Returns rs \<and> ev \<in> set (snd (rs ! 1))
    \<and> EventType ev = ''breach'' \<and> event_warranted some_math thirty (take 2 parked) ev"
proof -
  obtain rs where rs: "dwell_run some_math thirty (new_state ''v'' ''t'') parked = Returns rs"
    and m: "map summary rs = [(''entering'', []), (''inside'', [(''entering'', ''A''), (''breach'', ''A'')]),
      (''leaving'', []), (''entering'', []), (''inside'', [(''entering'', ''B'')])]"
    using parked_run by (elim exE conjE) (rule that)
  have "length rs = 5" using arg_cong [OF m, of length] by simp
  then have "summary (rs ! 1) = (''inside'', [(''entering'', ''A''), (''breach'', ''A'')])"
    using arg_cong [OF m, of "\<lambda>xs. xs ! 1"] by simp
  then obtain a ev where "snd (rs ! 1) = [a, ev]" "EventType ev = ''breach''" by (auto simp: summary_def)
  then have ev: "ev \<in> set (snd (rs ! 1))" "EventType ev = ''breach''" by simp_all
  have "\<forall>i<length parked. engine_ok (fst (rs ! i))
      \<and> (\<forall>ev\<in>set (snd (rs ! i)). event_warranted some_math thirty (take (Suc i) parked) ev)"
    using dwell_debounced [of some_math thirty "''v''" "''t''" parked] rs by simp
  moreover have "1 < length parked" by (simp add: parked_def)
  ultimately have "event_warranted some_math thirty (take (Suc 1) parked) ev" using ev(1) by blast
  then show ?thesis using rs ev unfolding numeral_2_eq_2 One_nat_def by blast
qed

text \<open>
  C34: the log of the events of a vehicle is consistent: an exit or a breach is only reported of the zone
  whose entry was the last one reported, and no exit twice.
\<close>

theorem dwell_events_paired:
  "\<exists>rs. dwell_run ma cfg (new_state v t) fs = Returns rs \<and> paired None (concat (map snd rs))"
  by (rule run_paired) (simp_all add: new_state_ok, simp add: logged_def new_state_def)

text \<open>
  An exit can get lost, though: when a vehicle that is leaving a zone is found in another one, the
  machine starts to probe the new zone and drops the exit from the old one.
\<close>

lemma switch_drops_exit:
  assumes "State s = ''leaving''" and "bestZoneFor ma zones (fix_Lat fx) (fix_Lng fx) (BufferMetres cfg) = Some z"
    and "GeofenceID s \<noteq> Some (zone_ID z)"
  shows "\<exists>t. Evaluate ma cfg s fx zones = Returns (t, []) \<and> State t = ''entering'' \<and> GeofenceID t = Some (zone_ID z)"
  using assms by (simp add: Evaluate_cases eval_leaving_def Let_def probe_def)

text \<open>A zone that is removed while a vehicle is inside is left without an event as well.\<close>

lemma removed_zone_drops_exit:
  assumes "State s = ''inside''" and "GeofenceID s \<noteq> None" and "zoneByID zones (GeofenceID s) = None"
  shows "\<exists>t. Evaluate ma cfg s fx zones = Returns (t, []) \<and> State t \<in> {''entering'', ''outside''}"
  using assms
  by (cases "bestZoneFor ma zones (fix_Lat fx) (fix_Lng fx) (BufferMetres cfg)")
     (simp_all add: Evaluate_cases eval_inside_def Let_def probe_def without_zone_def)

end
