(* ===== verification/Sto.thy ===== *)
theory Sto
  imports GoText Along
begin

text \<open>
  Stock transfer orders and the load board (\<open>internal/sto/sto.go\<close>, \<open>repository.go\<close>, \<open>service.go\<close>): orders
  move goods between facilities; a released order is posted as a listing on which carriers bid, and
  awarding a bid closes the listing. Every call of the service is an action over the tables, with
  the constraints of \<open>db/schema.sql\<close>. Only \<open>AwardBid\<close> runs in a transaction.
\<close>

section \<open>Tables\<close>

record Facility =
  fac_ID :: gostring
  fac_TenantID :: gostring
  fac_Name :: gostring
  fac_City :: gostring

record StockTransferOrder =
  sto_ID :: gostring
  sto_TenantID :: gostring
  STONumber :: gostring
  OriginFacilityID :: gostring
  OriginFacilityName :: gostring
  DestinationFacilityID :: gostring
  DestFacilityName :: gostring
  MaterialCode :: gostring
  MaterialDescription :: gostring
  Quantity :: float64
  UOM :: gostring
  RequiredDeliveryDate :: gostring
  sto_Status :: gostring
  sto_Notes :: gostring
  sto_CreatedBy :: gostring
  sto_CreatedAt :: gotime
  sto_UpdatedAt :: gotime

record LoadBoardListing =
  lb_ID :: gostring
  lb_TenantID :: gostring
  STOID :: "gostring option"
  lb_STONumber :: gostring
  lb_BookingID :: "gostring option"
  OriginCity :: gostring
  DestinationCity :: gostring
  VehicleTypeRequired :: gostring
  TargetRate :: float64
  MaxRate :: float64
  Visibility :: gostring
  lb_Status :: gostring
  ExpiresAt :: gotime
  lb_CreatedAt :: gotime
  lb_UpdatedAt :: gotime
  BidsCount :: nat

record LoadBoardBid =
  bid_ID :: gostring
  bid_TenantID :: gostring
  ListingID :: gostring
  CarrierID :: gostring
  CarrierName :: gostring
  BidAmount :: float64
  bid_VehicleID :: "gostring option"
  bid_DriverID :: "gostring option"
  bid_Status :: gostring
  Remarks :: gostring
  SubmittedAt :: gotime
  DecidedAt :: "gotime option"

text \<open>A row of \<open>trips\<close> as far as an award writes it.\<close>

record AwardedTrip =
  at_ID :: gostring
  at_TenantID :: gostring
  TripNumber :: gostring
  at_BookingID :: "gostring option"
  at_DriverID :: "gostring option"
  at_VehicleID :: "gostring option"
  at_RouteID :: gostring
  DepartureTime :: gotime
  at_Status :: gostring
  at_Remarks :: gostring

record sto_db =
  facilities :: "Facility list"
  orders :: "StockTransferOrder list"
  listings :: "LoadBoardListing list"
  bids :: "LoadBoardBid list"
  awarded_trips :: "AwardedTrip list"
  sto_tenants :: "gostring list"
  sto_bookings :: "gostring list"
  sto_routes :: "gostring list"

type_synonym 'a sact = "(sto_db, 'a) act"

text \<open>The environment also formats the date of an instant, in its own time zone.\<close>

record sto_env = env +
  yyyymmdd :: "gotime \<Rightarrow> gostring"

abbreviation base :: "sto_env \<Rightarrow> env" where
  "base e \<equiv> env.truncate e"

definition missing_tenant :: "sto_db \<Rightarrow> gostring \<Rightarrow> bool" where
  "missing_tenant d tenant \<longleftrightarrow> tenant \<notin> set (sto_tenants d)"

section \<open>Input\<close>

record CreateSTOInput =
  in_OriginFacilityID :: gostring
  in_DestinationFacilityID :: gostring
  in_MaterialCode :: gostring
  in_MaterialDescription :: gostring
  in_Quantity :: float64
  in_UOM :: gostring
  in_RequiredDeliveryDate :: gostring
  in_Notes :: gostring
  in_CreatedBy :: gostring

definition sto_Validate :: "CreateSTOInput \<Rightarrow> goerr option" where
  "sto_Validate i =
     (if TrimSpace (in_OriginFacilityID i) = '''' then Some (ErrMsg ''origin_facility_id is required'')
      else if TrimSpace (in_DestinationFacilityID i) = '''' then Some (ErrMsg ''destination_facility_id is required'')
      else if in_OriginFacilityID i = in_DestinationFacilityID i
        then Some (ErrMsg ''origin and destination facility cannot be identical'')
      else if TrimSpace (in_MaterialCode i) = '''' then Some (ErrMsg ''material_code is required'')
      else if in_Quantity i \<le> 0 then Some (ErrMsg ''quantity must be strictly positive'')
      else if TrimSpace (in_UOM i) = '''' then Some (ErrMsg ''uom is required'')
      else if TrimSpace (in_RequiredDeliveryDate i) = '''' then Some (ErrMsg ''required_delivery_date is required'')
      else None)"

record PostToLoadBoardInput =
  post_VehicleType :: gostring
  post_TargetRate :: float64
  post_MaxRate :: float64
  post_Visibility :: gostring
  ExpiresHours :: int

record SubmitBidInput =
  sb_CarrierID :: gostring
  sb_CarrierName :: gostring
  sb_BidAmount :: float64
  sb_VehicleID :: "gostring option"
  sb_DriverID :: "gostring option"
  sb_Remarks :: gostring

definition bid_Validate :: "SubmitBidInput \<Rightarrow> goerr option" where
  "bid_Validate i =
     (if TrimSpace (sb_CarrierID i) = '''' then Some (ErrMsg ''carrier_id is required'')
      else if TrimSpace (sb_CarrierName i) = '''' then Some (ErrMsg ''carrier_name is required'')
      else if sb_BidAmount i \<le> 0 then Some (ErrMsg ''bid_amount must be greater than zero'')
      else None)"

text \<open>\<open>if err := check; err != nil { return err }\<close>.\<close>

definition refuse_if :: "bool \<Rightarrow> goerr \<Rightarrow> 'a sact \<Rightarrow> 'a sact" where
  "refuse_if b err m = (if b then fail err else m)"

definition unless_error :: "goerr option \<Rightarrow> 'a sact \<Rightarrow> 'a sact" where
  "unless_error r m = (case r of Some err \<Rightarrow> fail err | None \<Rightarrow> m)"

section \<open>The repository: orders\<close>

definition insert_sto :: "StockTransferOrder \<Rightarrow> sto_db \<Rightarrow> goerr + sto_db" where
  "insert_sto s d =
     (if missing_tenant d (sto_TenantID s)
        then Inl (ErrMsg ''FK violation: tenants(id) missing for stock_transfer_orders.tenant_id'')
      else if \<not> 0 < Quantity s then Inl (ErrMsg ''constraint failed: stock_transfer_orders.quantity'')
      else if sto_ID s \<in> sto_ID ` set (orders d) then Inl (ErrMsg ''UNIQUE constraint failed: stock_transfer_orders.id'')
      else if \<exists>x \<in> set (orders d). sto_TenantID x = sto_TenantID s \<and> STONumber x = STONumber s
        then Inl (ErrMsg ''UNIQUE constraint failed: stock_transfer_orders.sto_number'')
      else if OriginFacilityID s \<notin> fac_ID ` set (facilities d) \<or> DestinationFacilityID s \<notin> fac_ID ` set (facilities d)
        then Inl (ErrMsg ''FOREIGN KEY constraint failed'')
      else Inr (d\<lparr>orders := orders d @ [s]\<rparr>))"

text \<open>The row of the order it is given, with its times.\<close>

definition repo_CreateSTO :: "sto_env \<Rightarrow> StockTransferOrder \<Rightarrow> StockTransferOrder sact" where
  "repo_CreateSTO e s =
     andThen (if sto_ID s = '''' then new_uuid (base e) else ret (sto_ID s)) (\<lambda>sid.
     andThen (clock (base e)) (\<lambda>now.
       let s1 = s\<lparr>sto_ID := sid, sto_CreatedAt := now, sto_UpdatedAt := now\<rparr>
       in andThen (exec_stmt (base e) (insert_sto s1)) (\<lambda>_. ret s1)))"

definition facility_name :: "sto_db \<Rightarrow> gostring \<Rightarrow> gostring \<Rightarrow> gostring" where
  "facility_name d tenant k =
     (case find (\<lambda>f. fac_ID f = k \<and> fac_TenantID f = tenant) (facilities d) of Some f \<Rightarrow> fac_Name f | None \<Rightarrow> '''')"

text \<open>An order as a query reads it: the names are those of the facilities of its tenant.\<close>

definition read_sto :: "sto_db \<Rightarrow> StockTransferOrder \<Rightarrow> StockTransferOrder" where
  "read_sto d s = s\<lparr>OriginFacilityName := facility_name d (sto_TenantID s) (OriginFacilityID s),
     DestFacilityName := facility_name d (sto_TenantID s) (DestinationFacilityID s)\<rparr>"

definition is_sto :: "gostring \<Rightarrow> gostring \<Rightarrow> StockTransferOrder \<Rightarrow> bool" where
  "is_sto tenant k s \<longleftrightarrow> sto_TenantID s = tenant \<and> sto_ID s = k"

definition GetSTOByID :: "sto_env \<Rightarrow> gostring \<Rightarrow> gostring \<Rightarrow> StockTransferOrder sact" where
  "GetSTOByID e tenant k =
     andThen (query (base e) (\<lambda>d. map_option (read_sto d) (find (is_sto tenant k) (orders d)))) (\<lambda>r.
       case r of None \<Rightarrow> fail (ErrMsg (''sto not found: '' @ k)) | Some s \<Rightarrow> ret s)"

definition set_sto_status :: "gostring \<Rightarrow> gotime \<Rightarrow> gostring \<Rightarrow> gostring \<Rightarrow> sto_db \<Rightarrow> goerr + nat \<times> sto_db" where
  "set_sto_status status now tenant k d =
     (if \<not> list_ex (is_sto tenant k) (orders d) then Inr (0, d)
      else if status \<notin> {''DRAFT'', ''RELEASED'', ''POSTED'', ''ASSIGNED'', ''IN_TRANSIT'', ''RECEIVED'', ''CANCELLED''}
        then Inl (ErrMsg ''CHECK constraint failed: stock_transfer_orders'')
      else Inr (1, d\<lparr>orders := map (\<lambda>s. if is_sto tenant k s then s\<lparr>sto_Status := status, sto_UpdatedAt := now\<rparr> else s)
        (orders d)\<rparr>))"

definition UpdateSTOStatus :: "sto_env \<Rightarrow> gostring \<Rightarrow> gostring \<Rightarrow> gostring \<Rightarrow> unit sact" where
  "UpdateSTOStatus e tenant k status =
     andThen (clock (base e)) (\<lambda>now.
     andThen (exec_count (base e) (set_sto_status status now tenant k)) (\<lambda>n.
       if n = 0 then fail (ErrMsg (''sto not found: '' @ k)) else ret ()))"

text \<open>\<open>ORDER BY created_at DESC LIMIT \<dots> OFFSET \<dots>\<close>, with the bounds the list queries put on both.\<close>

definition page :: "('r \<Rightarrow> gotime) \<Rightarrow> int \<Rightarrow> int \<Rightarrow> 'r list \<Rightarrow> 'r list" where
  "page created limit offset rs =
     take (nat (if limit \<le> 0 \<or> 100 < limit then 50 else limit))
       (drop (nat (if offset < 0 then 0 else offset)) (sort_key (\<lambda>r. - created r) rs))"

definition repo_ListSTOs :: "sto_env \<Rightarrow> gostring \<Rightarrow> gostring \<Rightarrow> int \<Rightarrow> int \<Rightarrow> (StockTransferOrder list \<times> nat) sact" where
  "repo_ListSTOs e tenant status limit offset =
     (let hit = (\<lambda>s. sto_TenantID s = tenant \<and> (status = '''' \<or> sto_Status s = status)) in
      andThen (query (base e) (\<lambda>d. length (filter hit (orders d)))) (\<lambda>total.
      andThen (query (base e) (\<lambda>d. map (read_sto d) (page sto_CreatedAt limit offset (filter hit (orders d))))) (\<lambda>rs.
        ret (rs, total))))"

section \<open>The repository: listings and bids\<close>

definition missing_ref :: "gostring option \<Rightarrow> gostring list \<Rightarrow> bool" where
  "missing_ref r ids = (case r of None \<Rightarrow> False | Some k \<Rightarrow> k \<notin> set ids)"

definition insert_listing :: "LoadBoardListing \<Rightarrow> sto_db \<Rightarrow> goerr + sto_db" where
  "insert_listing l d =
     (if missing_tenant d (lb_TenantID l)
        then Inl (ErrMsg ''FK violation: tenants(id) missing for load_board_listings.tenant_id'')
      else if \<not> (0 \<le> TargetRate l \<and> TargetRate l \<le> MaxRate l)
        \<or> Visibility l \<notin> {''PRIVATE'', ''FEDERATED'', ''PUBLIC''}
        \<or> lb_Status l \<notin> {''OPEN'', ''BIDDING'', ''AWARDED'', ''EXPIRED'', ''CANCELLED''}
        \<or> STOID l = None \<and> lb_BookingID l = None
        then Inl (ErrMsg ''constraint failed: load_board_listings'')
      else if lb_ID l \<in> lb_ID ` set (listings d) then Inl (ErrMsg ''UNIQUE constraint failed: load_board_listings.id'')
      else if missing_ref (STOID l) (map sto_ID (orders d)) \<or> missing_ref (lb_BookingID l) (sto_bookings d)
        then Inl (ErrMsg ''FOREIGN KEY constraint failed'')
      else Inr (d\<lparr>listings := listings d @ [l]\<rparr>))"

definition repo_CreateListing :: "sto_env \<Rightarrow> LoadBoardListing \<Rightarrow> LoadBoardListing sact" where
  "repo_CreateListing e l =
     andThen (if lb_ID l = '''' then new_uuid (base e) else ret (lb_ID l)) (\<lambda>lid.
     andThen (clock (base e)) (\<lambda>now.
       let l1 = l\<lparr>lb_ID := lid, lb_CreatedAt := now, lb_UpdatedAt := now\<rparr>
       in andThen (exec_stmt (base e) (insert_listing l1)) (\<lambda>_. ret l1)))"

definition visible :: "gostring \<Rightarrow> LoadBoardListing \<Rightarrow> bool" where
  "visible tenant l \<longleftrightarrow> lb_TenantID l = tenant \<or> Visibility l \<in> {''FEDERATED'', ''PUBLIC''}"

text \<open>A listing as a query reads it: the number of its order, and how many bids it has.\<close>

definition read_listing :: "sto_db \<Rightarrow> LoadBoardListing \<Rightarrow> LoadBoardListing" where
  "read_listing d l = l\<lparr>
     lb_STONumber := (case STOID l of None \<Rightarrow> '''' | Some k \<Rightarrow>
       (case find (\<lambda>s. sto_ID s = k) (orders d) of None \<Rightarrow> '''' | Some s \<Rightarrow> STONumber s)),
     BidsCount := length (filter (\<lambda>b. ListingID b = lb_ID l) (bids d))\<rparr>"

definition GetListingByID :: "sto_env \<Rightarrow> gostring \<Rightarrow> gostring \<Rightarrow> LoadBoardListing sact" where
  "GetListingByID e tenant k =
     andThen (query (base e) (\<lambda>d. map_option (read_listing d) (find (\<lambda>l. visible tenant l \<and> lb_ID l = k) (listings d)))) (\<lambda>r.
       case r of None \<Rightarrow> fail (ErrMsg (''listing not found: '' @ k)) | Some l \<Rightarrow> ret l)"

text \<open>
  \<open>s LIKE pattern\<close>: \<open>%\<close> matches any text, \<open>_\<close> one character, other characters themselves, letters of
  ASCII in either case.
\<close>

definition rest_of_char :: "char \<Rightarrow> gostring \<Rightarrow> gostring" where
  "rest_of_char c cs =
     (if (of_char c :: nat) < 192 then cs else dropWhile (\<lambda>x. 128 \<le> (of_char x :: nat) \<and> (of_char x :: nat) < 192) cs)"

lemma rest_of_char_length [termination_simp]: "length (rest_of_char c cs) < Suc (length cs)"
  by (simp add: rest_of_char_def length_dropWhile_le le_imp_less_Suc)

function like :: "gostring \<Rightarrow> gostring \<Rightarrow> bool" where
  "like [] s \<longleftrightarrow> s = []"
| "like (p # ps) s \<longleftrightarrow>
     (if p = CHR ''%'' then like ps s \<or> (case s of [] \<Rightarrow> False | c # cs \<Rightarrow> like (p # ps) cs)
      else (case s of
        [] \<Rightarrow> False
      | c # cs \<Rightarrow> if p = CHR ''_'' then like ps (rest_of_char c cs) else lower_char p = lower_char c \<and> like ps cs))"
  by pat_completeness auto
termination
  by (relation "measure (\<lambda>(p, s). length p + length s)") (auto intro: less_SucI rest_of_char_length)

definition repo_ListListings :: "sto_env \<Rightarrow> gostring \<Rightarrow> gostring \<Rightarrow> gostring \<Rightarrow> gostring \<Rightarrow> int \<Rightarrow> int
    \<Rightarrow> (LoadBoardListing list \<times> nat) sact" where
  "repo_ListListings e tenant status originCity destCity limit offset =
     (let hit = (\<lambda>l. visible tenant l \<and> (status = '''' \<or> lb_Status l = status)
            \<and> (originCity = '''' \<or> like (''%'' @ originCity @ ''%'') (OriginCity l))
            \<and> (destCity = '''' \<or> like (''%'' @ destCity @ ''%'') (DestinationCity l))) in
      andThen (query (base e) (\<lambda>d. length (filter hit (listings d)))) (\<lambda>total.
      andThen (query (base e) (\<lambda>d. map (read_listing d) (page lb_CreatedAt limit offset (filter hit (listings d))))) (\<lambda>rs.
        ret (rs, total))))"

definition insert_bid :: "LoadBoardBid \<Rightarrow> sto_db \<Rightarrow> goerr + sto_db" where
  "insert_bid b d =
     (if missing_tenant d (bid_TenantID b) then Inl (ErrMsg ''FK violation: tenants(id) missing for load_board_bids.tenant_id'')
      else if \<not> 0 < BidAmount b \<or> bid_Status b \<notin> {''SUBMITTED'', ''ACCEPTED'', ''REJECTED'', ''WITHDRAWN''}
        then Inl (ErrMsg ''constraint failed: load_board_bids'')
      else if bid_ID b \<in> bid_ID ` set (bids d) then Inl (ErrMsg ''UNIQUE constraint failed: load_board_bids.id'')
      else if ListingID b \<notin> lb_ID ` set (listings d) then Inl (ErrMsg ''FOREIGN KEY constraint failed'')
      else Inr (d\<lparr>bids := bids d @ [b]\<rparr>))"

definition repo_CreateBid :: "sto_env \<Rightarrow> LoadBoardBid \<Rightarrow> LoadBoardBid sact" where
  "repo_CreateBid e b =
     andThen (if bid_ID b = '''' then new_uuid (base e) else ret (bid_ID b)) (\<lambda>k.
     andThen (clock (base e)) (\<lambda>now.
       let b1 = b\<lparr>bid_ID := k, SubmittedAt := now, bid_Status := ''SUBMITTED''\<rparr>
       in andThen (exec_stmt (base e) (insert_bid b1)) (\<lambda>_. ret b1)))"

definition is_bid :: "gostring \<Rightarrow> gostring \<Rightarrow> gostring \<Rightarrow> LoadBoardBid \<Rightarrow> bool" where
  "is_bid tenant lid k b \<longleftrightarrow> bid_TenantID b = tenant \<and> ListingID b = lid \<and> bid_ID b = k"

definition GetBidByID :: "sto_env \<Rightarrow> gostring \<Rightarrow> gostring \<Rightarrow> gostring \<Rightarrow> LoadBoardBid sact" where
  "GetBidByID e tenant lid k =
     andThen (query (base e) (\<lambda>d. find (is_bid tenant lid k) (bids d))) (\<lambda>r.
       case r of None \<Rightarrow> fail (ErrMsg (''bid not found: '' @ k)) | Some b \<Rightarrow> ret b)"

text \<open>\<open>ORDER BY bid_amount ASC, submitted_at ASC\<close>.\<close>

definition bid_before :: "LoadBoardBid \<Rightarrow> LoadBoardBid \<Rightarrow> bool" where
  "bid_before a b \<longleftrightarrow> BidAmount a < BidAmount b \<or> (BidAmount a = BidAmount b \<and> SubmittedAt a \<le> SubmittedAt b)"

fun place_bid :: "LoadBoardBid \<Rightarrow> LoadBoardBid list \<Rightarrow> LoadBoardBid list" where
  "place_bid b [] = [b]"
| "place_bid b (x # xs) = (if bid_before b x then b # x # xs else x # place_bid b xs)"

definition ListBidsForListing :: "sto_env \<Rightarrow> gostring \<Rightarrow> gostring \<Rightarrow> LoadBoardBid list sact" where
  "ListBidsForListing e tenant lid =
     query (base e) (\<lambda>d. foldr place_bid (filter (\<lambda>b. bid_TenantID b = tenant \<and> ListingID b = lid) (bids d)) [])"

section \<open>The repository: awarding a bid\<close>

text \<open>Steps 3 to 5: the bid, its competitors, and the listing.\<close>

definition accept_bid :: "gotime \<Rightarrow> gostring \<Rightarrow> gostring \<Rightarrow> gostring \<Rightarrow> sto_db \<Rightarrow> goerr + sto_db" where
  "accept_bid now tenant lid k d = Inr (d\<lparr>bids := map (\<lambda>b.
     if is_bid tenant lid k b then b\<lparr>bid_Status := ''ACCEPTED'', DecidedAt := Some now\<rparr> else b) (bids d)\<rparr>)"

definition competes :: "gostring \<Rightarrow> gostring \<Rightarrow> gostring \<Rightarrow> LoadBoardBid \<Rightarrow> bool" where
  "competes tenant lid k b \<longleftrightarrow>
     bid_TenantID b = tenant \<and> ListingID b = lid \<and> bid_ID b \<noteq> k \<and> bid_Status b = ''SUBMITTED''"

definition reject_bids :: "gotime \<Rightarrow> gostring \<Rightarrow> gostring \<Rightarrow> gostring \<Rightarrow> sto_db \<Rightarrow> goerr + sto_db" where
  "reject_bids now tenant lid k d = Inr (d\<lparr>bids := map (\<lambda>b.
     if competes tenant lid k b then b\<lparr>bid_Status := ''REJECTED'', DecidedAt := Some now\<rparr> else b) (bids d)\<rparr>)"

definition is_listing :: "gostring \<Rightarrow> gostring \<Rightarrow> LoadBoardListing \<Rightarrow> bool" where
  "is_listing tenant lid l \<longleftrightarrow> lb_TenantID l = tenant \<and> lb_ID l = lid"

definition open_for_bids :: "gostring \<Rightarrow> bool" where
  "open_for_bids status \<longleftrightarrow> status = ''OPEN'' \<or> status = ''BIDDING''"

definition close_listing :: "gotime \<Rightarrow> gostring \<Rightarrow> gostring \<Rightarrow> sto_db \<Rightarrow> goerr + nat \<times> sto_db" where
  "close_listing now tenant lid d =
     (let hit = (\<lambda>l. is_listing tenant lid l \<and> open_for_bids (lb_Status l)) in
      Inr (length (filter hit (listings d)), d\<lparr>listings := map (\<lambda>l.
        if hit l then l\<lparr>lb_Status := ''AWARDED'', lb_UpdatedAt := now\<rparr> else l) (listings d)\<rparr>))"

text \<open>Step 7: the trip, whose foreign keys must exist where they are not null.\<close>

definition insert_trip :: "AwardedTrip \<Rightarrow> sto_db \<Rightarrow> goerr + sto_db" where
  "insert_trip t d =
     (if missing_tenant d (at_TenantID t) then Inl (ErrMsg ''FK violation: tenants(id) missing for trips.tenant_id'')
      else if \<exists>x \<in> set (awarded_trips d). at_ID x = at_ID t \<or> TripNumber x = TripNumber t
        then Inl (ErrMsg ''UNIQUE constraint failed: trips'')
      else if at_RouteID t \<notin> set (sto_routes d) \<or> missing_ref (at_BookingID t) (sto_bookings d)
        then Inl (ErrMsg ''FOREIGN KEY constraint failed'')
      else Inr (d\<lparr>awarded_trips := awarded_trips d @ [t]\<rparr>))"

record AwardResult =
  res_ListingID :: gostring
  WinningBid :: LoadBoardBid
  res_STOID :: "gostring option"
  res_BookingID :: "gostring option"
  res_TripID :: "gostring option"
  AwardedAt :: gotime

definition non_blank :: "gostring option \<Rightarrow> gostring option" where
  "non_blank k = (if k = Some '''' then None else k)"

text \<open>The trip of an award. The columns of the bid are scanned into variables that are not copied to it.\<close>

definition award_trip :: "sto_env \<Rightarrow> gostring \<Rightarrow> gostring \<Rightarrow> gotime \<Rightarrow> LoadBoardListing \<Rightarrow> LoadBoardBid \<Rightarrow> AwardedTrip" where
  "award_trip e tenant tid now l b =
     \<lparr>at_ID = tid, at_TenantID = tenant,
      TripNumber = ''TRIP-'' @ yyyymmdd e now @ ''-'' @ CarrierID b, at_BookingID = non_blank (lb_BookingID l),
      at_DriverID = bid_DriverID b, at_VehicleID = bid_VehicleID b, at_RouteID = ''route-sto-loadboard'',
      DepartureTime = now, at_Status = ''assigned'',
      at_Remarks = ''Awarded from load board listing '' @ lb_ID l\<rparr>"

definition scanned_bid :: "LoadBoardBid \<Rightarrow> LoadBoardBid" where
  "scanned_bid b = b\<lparr>bid_VehicleID := None, bid_DriverID := None, Remarks := '''', DecidedAt := None\<rparr>"

definition spawn_trip :: "sto_env \<Rightarrow> gostring \<Rightarrow> gotime \<Rightarrow> LoadBoardListing \<Rightarrow> LoadBoardBid \<Rightarrow> gostring option sact" where
  "spawn_trip e tenant now l b =
     andThen (new_uuid (base e)) (\<lambda>u.
       let tid = ''trip_lb_'' @ u in
       andThen (attempt (exec_stmt (base e) (insert_trip (award_trip e tenant tid now l b)))) (\<lambda>r.
         ret (case r of Inl _ \<Rightarrow> None | Inr _ \<Rightarrow> Some tid)))"

definition award_open :: "sto_env \<Rightarrow> gostring \<Rightarrow> LoadBoardListing \<Rightarrow> LoadBoardBid \<Rightarrow> AwardResult sact" where
  "award_open e tenant l b =
     (let lid = lb_ID l; k = bid_ID b in
      andThen (clock (base e)) (\<lambda>now.
      andThen (exec_stmt (base e) (accept_bid now tenant lid k)) (\<lambda>_.
      andThen (exec_stmt (base e) (reject_bids now tenant lid k)) (\<lambda>_.
      andThen (exec_count (base e) (close_listing now tenant lid)) (\<lambda>affected.
      refuse_if (affected = 0) (ErrMsg ''concurrent award conflict detected'')
        (andThen (case non_blank (STOID l) of
            None \<Rightarrow> ret ()
          | Some s \<Rightarrow> andThen (attempt (exec_count (base e) (set_sto_status ''ASSIGNED'' now tenant s))) (\<lambda>_. ret ())) (\<lambda>_.
         andThen (spawn_trip e tenant now l b) (\<lambda>trip.
           ret \<lparr>res_ListingID = lid, WinningBid = b\<lparr>bid_Status := ''ACCEPTED'', DecidedAt := Some now\<rparr>,
             res_STOID = non_blank (STOID l), res_BookingID = non_blank (lb_BookingID l), res_TripID = trip,
             AwardedAt = now\<rparr>))))))))"

definition award_body :: "sto_env \<Rightarrow> gostring \<Rightarrow> gostring \<Rightarrow> gostring \<Rightarrow> AwardResult sact" where
  "award_body e tenant lid k =
     andThen (query (base e) (\<lambda>d. find (is_listing tenant lid) (listings d))) (\<lambda>r.
       case r of
         None \<Rightarrow> fail (ErrMsg (''listing not found: '' @ lid))
       | Some l \<Rightarrow>
           refuse_if (\<not> open_for_bids (lb_Status l))
             (ErrMsg (''listing cannot be awarded (current status: '' @ lb_Status l @ '')''))
           (andThen (query (base e) (\<lambda>d. find (is_bid tenant lid k) (bids d))) (\<lambda>rb.
              case rb of
                None \<Rightarrow> fail (ErrMsg (''bid not found: '' @ k))
              | Some b \<Rightarrow>
                  refuse_if (bid_Status b \<noteq> ''SUBMITTED'')
                    (ErrMsg (''bid is not open for award (status: '' @ bid_Status b @ '')''))
                  (award_open e tenant l (scanned_bid b)))))"

definition AwardBidTransaction :: "sto_env \<Rightarrow> gostring \<Rightarrow> gostring \<Rightarrow> gostring \<Rightarrow> AwardResult sact" where
  "AwardBidTransaction e tenant lid k = with_tx (base e) False (\<lambda>_. award_body e tenant lid k)"

section \<open>The service\<close>

text \<open>The name of a facility, or an error when there is none or the query fails.\<close>

definition verify_facility :: "sto_env \<Rightarrow> gostring \<Rightarrow> gostring \<Rightarrow> gostring \<Rightarrow> gostring sact" where
  "verify_facility e which tenant k =
     andThen (attempt (query (base e) (\<lambda>d. find (\<lambda>f. fac_TenantID f = tenant \<and> fac_ID f = k) (facilities d)))) (\<lambda>r.
       case r of Inr (Some f) \<Rightarrow> ret (fac_Name f) | _ \<Rightarrow> fail (ErrMsg (which @ '' facility not found: '' @ k)))"

text \<open>The number is drawn at random: it is any text, like an identifier.\<close>

definition CreateSTO :: "sto_env \<Rightarrow> gostring \<Rightarrow> CreateSTOInput \<Rightarrow> StockTransferOrder sact" where
  "CreateSTO e tenant i =
     refuse_if (tenant = '''') (ErrMsg ''tenant_id is required'') (unless_error (sto_Validate i)
       (andThen (verify_facility e ''origin'' tenant (in_OriginFacilityID i)) (\<lambda>orig.
        andThen (verify_facility e ''destination'' tenant (in_DestinationFacilityID i)) (\<lambda>dest.
        andThen (clock (base e)) (\<lambda>today. andThen (new_uuid (base e)) (\<lambda>num. andThen (new_uuid (base e)) (\<lambda>k.
          wrap ''failed creating STO: '' (repo_CreateSTO e
            \<lparr>sto_ID = k, sto_TenantID = tenant, STONumber = ''STO-'' @ yyyymmdd e today @ ''-'' @ num,
             OriginFacilityID = in_OriginFacilityID i, OriginFacilityName = orig,
             DestinationFacilityID = in_DestinationFacilityID i, DestFacilityName = dest,
             MaterialCode = in_MaterialCode i, MaterialDescription = in_MaterialDescription i, Quantity = in_Quantity i,
             UOM = in_UOM i, RequiredDeliveryDate = in_RequiredDeliveryDate i, sto_Status = ''DRAFT'',
             sto_Notes = in_Notes i, sto_CreatedBy = in_CreatedBy i, sto_CreatedAt = 0, sto_UpdatedAt = 0\<rparr>))))))))"

definition GetSTO :: "sto_env \<Rightarrow> gostring \<Rightarrow> gostring \<Rightarrow> StockTransferOrder sact" where
  "GetSTO e tenant k =
     refuse_if (tenant = '''') (ErrMsg ''tenant_id is required'')
       (refuse_if (k = '''') (ErrMsg ''sto_id is required'') (GetSTOByID e tenant k))"

definition ListSTOs :: "sto_env \<Rightarrow> gostring \<Rightarrow> gostring \<Rightarrow> int \<Rightarrow> int \<Rightarrow> (StockTransferOrder list \<times> nat) sact" where
  "ListSTOs e tenant status limit offset =
     refuse_if (tenant = '''') (ErrMsg ''tenant_id is required'') (repo_ListSTOs e tenant status limit offset)"

definition ReleaseSTO :: "sto_env \<Rightarrow> gostring \<Rightarrow> gostring \<Rightarrow> StockTransferOrder sact" where
  "ReleaseSTO e tenant k =
     andThen (GetSTOByID e tenant k) (\<lambda>s.
       refuse_if (sto_Status s \<noteq> ''DRAFT'')
         (ErrMsg (''only DRAFT STOs can be released (current status: '' @ sto_Status s @ '')''))
         (andThen (UpdateSTOStatus e tenant k ''RELEASED'') (\<lambda>_.
          andThen (clock (base e)) (\<lambda>now. ret (s\<lparr>sto_Status := ''RELEASED'', sto_UpdatedAt := now\<rparr>)))))"

text \<open>A city, or a placeholder where the query fails or finds none.\<close>

definition city_of :: "sto_env \<Rightarrow> gostring \<Rightarrow> gostring \<Rightarrow> gostring sact" where
  "city_of e k placeholder =
     andThen (attempt (query (base e) (\<lambda>d. find (\<lambda>f. fac_ID f = k) (facilities d)))) (\<lambda>r.
       ret (case r of Inr (Some f) \<Rightarrow> if fac_City f = '''' then placeholder else fac_City f | _ \<Rightarrow> placeholder))"

text \<open>\<open>time.Duration(hours) * time.Hour\<close>, which wraps around.\<close>

definition hours_long :: "int \<Rightarrow> int" where
  "hours_long h = sint (word_of_int (h * 3600000000000) :: int64)"

definition PostToLoadBoard :: "sto_env \<Rightarrow> gostring \<Rightarrow> gostring \<Rightarrow> PostToLoadBoardInput \<Rightarrow> LoadBoardListing sact" where
  "PostToLoadBoard e tenant k i =
     andThen (GetSTOByID e tenant k) (\<lambda>s.
       refuse_if (sto_Status s \<noteq> ''RELEASED'')
         (ErrMsg (''only RELEASED STOs can be posted to the load board (current status: '' @ sto_Status s @ '')''))
         (andThen (city_of e (OriginFacilityID s) ''Origin Hub'') (\<lambda>orig.
          andThen (city_of e (DestinationFacilityID s) ''Dest Hub'') (\<lambda>dest.
          andThen (new_uuid (base e)) (\<lambda>lid. andThen (clock (base e)) (\<lambda>now.
          andThen (wrap ''failed creating load board listing: '' (repo_CreateListing e
            \<lparr>lb_ID = lid, lb_TenantID = tenant, STOID = Some k, lb_STONumber = STONumber s, lb_BookingID = None,
             OriginCity = orig, DestinationCity = dest,
             VehicleTypeRequired = (if post_VehicleType i = '''' then ''truck'' else post_VehicleType i),
             TargetRate = post_TargetRate i,
             MaxRate = (if post_MaxRate i < post_TargetRate i then post_TargetRate i else post_MaxRate i),
             Visibility = (if post_Visibility i = '''' then ''PRIVATE'' else post_Visibility i), lb_Status = ''OPEN'',
             ExpiresAt = now + hours_long (if ExpiresHours i \<le> 0 then 48 else ExpiresHours i),
             lb_CreatedAt = 0, lb_UpdatedAt = 0, BidsCount = 0\<rparr>)) (\<lambda>listing.
          andThen (attempt (UpdateSTOStatus e tenant k ''POSTED'')) (\<lambda>_. ret listing))))))))"

definition GetListing :: "sto_env \<Rightarrow> gostring \<Rightarrow> gostring \<Rightarrow> LoadBoardListing sact" where
  "GetListing e tenant k =
     refuse_if (tenant = '''') (ErrMsg ''tenant_id is required'')
       (refuse_if (k = '''') (ErrMsg ''listing_id is required'') (GetListingByID e tenant k))"

definition ListListings :: "sto_env \<Rightarrow> gostring \<Rightarrow> gostring \<Rightarrow> gostring \<Rightarrow> gostring \<Rightarrow> int \<Rightarrow> int
    \<Rightarrow> (LoadBoardListing list \<times> nat) sact" where
  "ListListings e tenant status originCity destCity limit offset =
     refuse_if (tenant = '''') (ErrMsg ''tenant_id is required'')
       (repo_ListListings e tenant status originCity destCity limit offset)"

definition start_bidding :: "gotime \<Rightarrow> gostring \<Rightarrow> gostring \<Rightarrow> sto_db \<Rightarrow> goerr + sto_db" where
  "start_bidding now tenant lid d = Inr (d\<lparr>listings := map (\<lambda>l.
     if is_listing tenant lid l \<and> lb_Status l = ''OPEN'' then l\<lparr>lb_Status := ''BIDDING'', lb_UpdatedAt := now\<rparr> else l)
     (listings d)\<rparr>)"

definition SubmitBid :: "sto_env \<Rightarrow> gostring \<Rightarrow> gostring \<Rightarrow> SubmitBidInput \<Rightarrow> LoadBoardBid sact" where
  "SubmitBid e tenant lid i =
     refuse_if (tenant = '''') (ErrMsg ''tenant_id is required'')
       (refuse_if (lid = '''') (ErrMsg ''listing_id is required'') (unless_error (bid_Validate i)
         (andThen (GetListingByID e tenant lid) (\<lambda>l.
            refuse_if (\<not> open_for_bids (lb_Status l))
              (ErrMsg (''listing is closed for bidding (current status: '' @ lb_Status l @ '')''))
              (andThen (clock (base e)) (\<lambda>now.
               refuse_if (ExpiresAt l < now) (ErrMsg ''listing has expired'')
                 (andThen (new_uuid (base e)) (\<lambda>k.
                  andThen (wrap ''failed submitting bid: '' (repo_CreateBid e
                    \<lparr>bid_ID = k, bid_TenantID = tenant, ListingID = lid, CarrierID = sb_CarrierID i,
                     CarrierName = sb_CarrierName i, BidAmount = sb_BidAmount i, bid_VehicleID = sb_VehicleID i,
                     bid_DriverID = sb_DriverID i, bid_Status = '''', Remarks = sb_Remarks i, SubmittedAt = 0,
                     DecidedAt = None\<rparr>)) (\<lambda>b.
                  if lb_Status l = ''OPEN''
                  then andThen (clock (base e)) (\<lambda>now. andThen (attempt (exec_stmt (base e) (start_bidding now tenant lid))) (\<lambda>_. ret b))
                  else ret b)))))))))"

definition ListBids :: "sto_env \<Rightarrow> gostring \<Rightarrow> gostring \<Rightarrow> LoadBoardBid list sact" where
  "ListBids e tenant lid =
     refuse_if (tenant = '''') (ErrMsg ''tenant_id is required'') (ListBidsForListing e tenant lid)"

definition AwardBid :: "sto_env \<Rightarrow> gostring \<Rightarrow> gostring \<Rightarrow> gostring \<Rightarrow> AwardResult sact" where
  "AwardBid e tenant lid k =
     refuse_if (tenant = '''') (ErrMsg ''tenant_id is required'')
       (refuse_if (lid = '''') (ErrMsg ''listing_id is required'')
         (refuse_if (k = '''') (ErrMsg ''bid_id is required'') (AwardBidTransaction e tenant lid k)))"

end
