(* ===== verification/StoSteps.thy ===== *)
theory StoSteps
  imports Sto Ends
begin

text \<open>
  Sequences of calls of the load board (\<open>sto_run\<close>), and what one call does to the tables whichever of its
  statements fail (\<open>board_step\<close>), derived from the actions of \<open>Sto\<close> by the rules of \<open>Ends\<close>.
\<close>

section \<open>Calls\<close>

datatype sto_call =
    Create gostring CreateSTOInput
  | Release gostring gostring
  | Post gostring gostring PostToLoadBoardInput
  | Bid gostring gostring SubmitBidInput
  | Award gostring gostring gostring
  | ReadSTO gostring gostring
  | ReadSTOs gostring gostring int int
  | ReadListing gostring gostring
  | ReadListings gostring gostring gostring gostring int int
  | ReadBids gostring gostring

fun sto_exec :: "sto_env \<Rightarrow> sto_call \<Rightarrow> sto_db world \<Rightarrow> sto_db world" where
  "sto_exec e (Create t i) w = snd (CreateSTO e t i w)"
| "sto_exec e (Release t k) w = snd (ReleaseSTO e t k w)"
| "sto_exec e (Post t k i) w = snd (PostToLoadBoard e t k i w)"
| "sto_exec e (Bid t lid i) w = snd (SubmitBid e t lid i w)"
| "sto_exec e (Award t lid k) w = snd (AwardBid e t lid k w)"
| "sto_exec e (ReadSTO t k) w = snd (GetSTO e t k w)"
| "sto_exec e (ReadSTOs t s limit offset) w = snd (ListSTOs e t s limit offset w)"
| "sto_exec e (ReadListing t k) w = snd (GetListing e t k w)"
| "sto_exec e (ReadListings t s a b limit offset) w = snd (ListListings e t s a b limit offset w)"
| "sto_exec e (ReadBids t lid) w = snd (ListBids e t lid w)"

fun sto_run :: "sto_env \<Rightarrow> sto_call list \<Rightarrow> sto_db world \<Rightarrow> sto_db world" where
  "sto_run e [] w = w"
| "sto_run e (c # cs) w = sto_run e cs (sto_exec e c w)"

lemma sto_run_append: "sto_run e (cs @ cs') w = sto_run e cs' (sto_run e cs w)"
  by (induction cs arbitrary: w) simp_all

section \<open>What a call does to the tables\<close>

text \<open>The tables after an award, apart from the trip.\<close>

definition after_award :: "gotime \<Rightarrow> gostring \<Rightarrow> gostring \<Rightarrow> gostring \<Rightarrow> sto_db \<Rightarrow> sto_db" where
  "after_award now t lid k d = d\<lparr>
     bids := map (\<lambda>x.
       if is_bid t lid k x then x\<lparr>bid_Status := ''ACCEPTED'', DecidedAt := Some now\<rparr>
       else if competes t lid k x then x\<lparr>bid_Status := ''REJECTED'', DecidedAt := Some now\<rparr> else x) (bids d),
     listings := map (\<lambda>x. if is_listing t lid x \<and> open_for_bids (lb_Status x)
       then x\<lparr>lb_Status := ''AWARDED'', lb_UpdatedAt := now\<rparr> else x) (listings d)\<rparr>"

text \<open>The status of an order set, or not when the statement failed.\<close>

definition status_set :: "gostring \<Rightarrow> gostring \<Rightarrow> gostring \<Rightarrow> sto_db \<Rightarrow> sto_db \<Rightarrow> bool" where
  "status_set status t k d d' \<longleftrightarrow> d' = d \<or> (\<exists>now n. set_sto_status status now t k d = Inr (n, d'))"

definition trip_added :: "sto_db \<Rightarrow> sto_db \<Rightarrow> bool" where
  "trip_added d d' \<longleftrightarrow> d' = d \<or> (\<exists>t. insert_trip t d = Inr d')"

inductive board_step :: "sto_db \<Rightarrow> sto_db \<Rightarrow> bool" where
  stay: "board_step d d"
| create: "insert_sto s d = Inr d' \<Longrightarrow> sto_Status s = ''DRAFT'' \<Longrightarrow> board_step d d'"
| release: "find (is_sto t k) (orders d) = Some s \<Longrightarrow> sto_Status s = ''DRAFT'' \<Longrightarrow> status_set ''RELEASED'' t k d d' \<Longrightarrow>
    board_step d d'"
| post: "find (is_sto t k) (orders d) = Some s \<Longrightarrow> sto_Status s = ''RELEASED'' \<Longrightarrow> insert_listing l d = Inr d' \<Longrightarrow>
    lb_Status l = ''OPEN'' \<Longrightarrow> lb_TenantID l = t \<Longrightarrow> STOID l = Some k \<Longrightarrow> status_set ''POSTED'' t k d' d'' \<Longrightarrow>
    board_step d d''"
| bid: "find (\<lambda>l. visible t l \<and> lb_ID l = lid) (listings d) = Some l \<Longrightarrow> open_for_bids (lb_Status l) \<Longrightarrow>
    insert_bid b d = Inr d' \<Longrightarrow> bid_Status b = ''SUBMITTED'' \<Longrightarrow> ListingID b = lid \<Longrightarrow> bid_TenantID b = t \<Longrightarrow>
    d'' = d' \<or> start_bidding now t lid d' = Inr d'' \<Longrightarrow> board_step d d''"
| award: "find (is_listing t lid) (listings d) = Some l \<Longrightarrow> open_for_bids (lb_Status l) \<Longrightarrow>
    find (is_bid t lid k) (bids d) = Some b \<Longrightarrow> bid_Status b = ''SUBMITTED'' \<Longrightarrow>
    (case non_blank (STOID l) of None \<Rightarrow> d' = after_award now t lid k d
       | Some s \<Rightarrow> status_set ''ASSIGNED'' t s (after_award now t lid k d) d') \<Longrightarrow>
    trip_added d' d'' \<Longrightarrow> board_step d d''"

lemma ends_refuse_if [ending]: "P (Inl err) d \<Longrightarrow> (\<not> b \<Longrightarrow> ends m d P) \<Longrightarrow> ends (refuse_if b err m) d P"
  by (auto simp: refuse_if_def intro: ends_fail)

lemma ends_unless_error [ending]: "(\<And>err. P (Inl err) d) \<Longrightarrow> ends m d P \<Longrightarrow> ends (unless_error r m) d P"
  by (cases r) (auto simp: unless_error_def intro: ends_fail)

lemma find_sel: "find p xs = Some x \<Longrightarrow> p x"
  by (auto simp: find_Some_iff)

lemma read_sto_sel [simp]: "sto_Status (read_sto d s) = sto_Status s"
  by (simp add: read_sto_def)

lemma read_listing_sel [simp]: "lb_Status (read_listing d l) = lb_Status l"
  by (simp add: read_listing_def)

text \<open>The reads.\<close>

lemma ends_GetSTOByID [ending]:
  assumes "\<And>err. P (Inl err) d" and "\<And>s. find (is_sto t k) (orders d) = Some s \<Longrightarrow> P (Inr (read_sto d s)) d"
  shows "ends (GetSTOByID e t k) d P"
  unfolding GetSTOByID_def by (intro ending) (auto split: option.splits intro!: ending assms)

lemma ends_GetListingByID [ending]:
  assumes "\<And>err. P (Inl err) d"
    and "\<And>l. find (\<lambda>l. visible t l \<and> lb_ID l = k) (listings d) = Some l \<Longrightarrow> P (Inr (read_listing d l)) d"
  shows "ends (GetListingByID e t k) d P"
  unfolding GetListingByID_def by (intro ending) (auto split: option.splits intro!: ending assms)

lemma ends_UpdateSTOStatus [ending]:
  assumes "\<And>err d'. status_set status t k d d' \<Longrightarrow> P (Inl err) d'" and "\<And>d'. status_set status t k d d' \<Longrightarrow> P (Inr ()) d'"
  shows "ends (UpdateSTOStatus e t k status) d P"
  unfolding UpdateSTOStatus_def
  by (intro ending) (auto intro!: assms simp: status_set_def)

lemma ends_city_of [ending]: "(\<And>c. P (Inr c) d) \<Longrightarrow> ends (city_of e k placeholder) d P"
  unfolding city_of_def by (intro ending) 

lemma ends_verify_facility [ending]:
  "(\<And>err. P (Inl err) d) \<Longrightarrow> (\<And>c. P (Inr c) d) \<Longrightarrow> ends (verify_facility e which t k) d P"
  unfolding verify_facility_def by (intro ending) (auto intro!: ending split: option.splits sum.splits)

text \<open>The writes.\<close>

lemma ends_repo_CreateSTO [ending]:
  assumes "\<And>err. P (Inl err) d"
    and "\<And>s1 d'. insert_sto s1 d = Inr d' \<Longrightarrow> sto_Status s1 = sto_Status s \<Longrightarrow> P (Inr s1) d'"
  shows "ends (repo_CreateSTO e s) d P"
  unfolding repo_CreateSTO_def
  by (intro ending assms) simp_all

lemma ends_repo_CreateListing [ending]:
  assumes "\<And>err. P (Inl err) d"
    and "\<And>l1 d'. insert_listing l1 d = Inr d' \<Longrightarrow> lb_Status l1 = lb_Status l \<Longrightarrow> lb_TenantID l1 = lb_TenantID l \<Longrightarrow>
      STOID l1 = STOID l \<Longrightarrow> P (Inr l1) d'"
  shows "ends (repo_CreateListing e l) d P"
  unfolding repo_CreateListing_def by (intro ending assms) simp_all

lemma ends_repo_CreateBid [ending]:
  assumes "\<And>err. P (Inl err) d"
    and "\<And>b1 d'. insert_bid b1 d = Inr d' \<Longrightarrow> bid_Status b1 = ''SUBMITTED'' \<Longrightarrow> ListingID b1 = ListingID b \<Longrightarrow>
      bid_TenantID b1 = bid_TenantID b \<Longrightarrow> P (Inr b1) d'"
  shows "ends (repo_CreateBid e b) d P"
  unfolding repo_CreateBid_def by (intro ending assms) simp_all

lemma ends_spawn_trip [ending]:
  assumes "\<And>r d'. trip_added d d' \<Longrightarrow> P (Inr r) d'"
  shows "ends (spawn_trip e t now l b) d P"
  unfolding spawn_trip_def
  by (intro ending assms) (auto simp: trip_added_def)

lemma CreateSTO_step: "ends (CreateSTO e t i) d (\<lambda>r. board_step d)"
  unfolding CreateSTO_def
  by (intro ending board_step.stay) (rule board_step.create, assumption, simp)

lemma ReleaseSTO_step: "ends (ReleaseSTO e t k) d (\<lambda>r. board_step d)"
  unfolding ReleaseSTO_def
  by (intro ending board_step.stay) (simp_all, (rule board_step.release, assumption+)+)

lemma PostToLoadBoard_step: "ends (PostToLoadBoard e t k i) d (\<lambda>r. board_step d)"
  unfolding PostToLoadBoard_def
  by (intro ending board_step.stay) (simp_all, (rule board_step.post, assumption+)+)

lemma SubmitBid_step: "ends (SubmitBid e t lid i) d (\<lambda>r. board_step d)"
  unfolding SubmitBid_def
  by (intro ending board_step.stay) (simp_all, (rule board_step.bid, assumption, simp, assumption+, blast)+)

text \<open>What an award leaves behind: nothing when it fails, and else the tables of the winner.\<close>

definition awarded :: "gostring \<Rightarrow> LoadBoardListing \<Rightarrow> LoadBoardBid \<Rightarrow> sto_db \<Rightarrow> AwardResult \<Rightarrow> sto_db \<Rightarrow> bool" where
  "awarded t l b d res d'' \<longleftrightarrow>
     (\<exists>d'. (case non_blank (STOID l) of None \<Rightarrow> d' = after_award (AwardedAt res) t (lb_ID l) (bid_ID b) d
            | Some s \<Rightarrow> status_set ''ASSIGNED'' t s (after_award (AwardedAt res) t (lb_ID l) (bid_ID b) d) d')
        \<and> trip_added d' d'')
     \<and> res_ListingID res = lb_ID l \<and> WinningBid res = b\<lparr>bid_Status := ''ACCEPTED'', DecidedAt := Some (AwardedAt res)\<rparr>"

lemma scanned_ID [simp]: "bid_ID (scanned_bid b) = bid_ID b"
  by (simp add: scanned_bid_def)

lemma ends_award_open [ending]:
  assumes "\<And>err d'. P (Inl err) d'" and "\<And>res d'. awarded t l b d res d' \<Longrightarrow> P (Inr res) d'"
  shows "ends (award_open e t l b) d P"
proof -
  have statements: "d3 = after_award now t (lb_ID l) (bid_ID b) d"
    if "accept_bid now t (lb_ID l) (bid_ID b) d = Inr d1" "reject_bids now t (lb_ID l) (bid_ID b) d1 = Inr d2"
      "close_listing now t (lb_ID l) d2 = Inr (n, d3)" for now d1 d2 n d3
    using that by (auto simp: accept_bid_def reject_bids_def close_listing_def after_award_def Let_def competes_def is_bid_def)
  show ?thesis
    unfolding award_open_def
    by (intro ending assms) (auto simp: awarded_def status_set_def dest!: statements)
qed

lemma AwardBid_ends [ending]:
  assumes "\<And>err. P (Inl err) d"
    and "\<And>l b res d'. find (is_listing t lid) (listings d) = Some l \<Longrightarrow> open_for_bids (lb_Status l) \<Longrightarrow>
      find (is_bid t lid k) (bids d) = Some b \<Longrightarrow> bid_Status b = ''SUBMITTED'' \<Longrightarrow>
      awarded t l (scanned_bid b) d res d' \<Longrightarrow> P (Inr res) d'"
  shows "ends (AwardBid e t lid k) d P"
  unfolding AwardBid_def AwardBidTransaction_def award_body_def
  by (intro ending TrueI) (simp_all add: assms)

lemma AwardBid_step: "ends (AwardBid e t lid k) d (\<lambda>r. board_step d)"
proof (intro ending board_step.stay)
  fix l b res d'
  assume found: "find (is_listing t lid) (listings d) = Some l" "find (is_bid t lid k) (bids d) = Some b"
    and rest: "open_for_bids (lb_Status l)" "bid_Status b = ''SUBMITTED''" "awarded t l (scanned_bid b) d res d'"
  have "lb_ID l = lid" "bid_ID b = k" using found [THEN find_sel] by (simp_all add: is_listing_def is_bid_def)
  with rest(3) obtain d1 where "case non_blank (STOID l) of None \<Rightarrow> d1 = after_award (AwardedAt res) t lid k d
      | Some s \<Rightarrow> status_set ''ASSIGNED'' t s (after_award (AwardedAt res) t lid k d) d1" "trip_added d1 d'"
    unfolding awarded_def scanned_ID by blast
  then show "board_step d d'" by (rule board_step.award [OF found(1) rest(1) found(2) rest(2)])
qed

lemma reads_stay:
  "ends (GetSTO e t k) d (\<lambda>r. board_step d)" "ends (ListSTOs e t s limit offset) d (\<lambda>r. board_step d)"
  "ends (GetListing e t k) d (\<lambda>r. board_step d)" "ends (ListListings e t s x y limit offset) d (\<lambda>r. board_step d)"
  "ends (ListBids e t k) d (\<lambda>r. board_step d)"
  unfolding GetSTO_def ListSTOs_def GetListing_def ListListings_def ListBids_def
    repo_ListSTOs_def repo_ListListings_def ListBidsForListing_def
  by (intro ending board_step.stay)+

lemma sto_exec_step: "board_step (db w) (db (sto_exec e c w))"
  by (cases c) (simp_all add: endsD [OF CreateSTO_step] endsD [OF ReleaseSTO_step] endsD [OF PostToLoadBoard_step]
    endsD [OF SubmitBid_step] endsD [OF AwardBid_step] reads_stay [THEN endsD])

end
