(* ===== verification/StoProps.thy ===== *)
theory StoProps
  imports StoSteps
begin

text \<open>
  What the load board promises over every sequence of calls, with failures of the database anywhere:
  a listing has one winner from the moment it is awarded, decisions are final, orders only move
  forward; and what does not work: awards do not create trips, bids of other tenants can never win.
\<close>

section \<open>The invariant\<close>

definition winners :: "gostring \<Rightarrow> LoadBoardBid list \<Rightarrow> LoadBoardBid list" where
  "winners lid bs = filter (\<lambda>b. ListingID b = lid \<and> bid_Status b = ''ACCEPTED'') bs"

definition listing_ok :: "LoadBoardBid list \<Rightarrow> LoadBoardListing \<Rightarrow> bool" where
  "listing_ok bs l \<longleftrightarrow>
     (if lb_Status l = ''AWARDED''
      then (\<exists>b. winners (lb_ID l) bs = [b])
        \<and> (\<forall>b \<in> set bs. ListingID b = lb_ID l \<longrightarrow> (bid_Status b = ''SUBMITTED'' \<longleftrightarrow> bid_TenantID b \<noteq> lb_TenantID l))
      else open_for_bids (lb_Status l) \<and> (\<forall>b \<in> set bs. ListingID b = lb_ID l \<longrightarrow> bid_Status b = ''SUBMITTED''))"

definition order_rank :: "gostring \<Rightarrow> nat" where
  "order_rank st = (if st = ''DRAFT'' then 0 else if st = ''RELEASED'' then 1 else if st = ''POSTED'' then 2
     else if st = ''ASSIGNED'' then 3 else 4)"

definition board_ok :: "sto_db \<Rightarrow> bool" where
  "board_ok d \<longleftrightarrow>
     distinct (map sto_ID (orders d)) \<and> distinct (map lb_ID (listings d)) \<and> distinct (map bid_ID (bids d))
     \<and> (\<forall>s \<in> set (orders d). order_rank (sto_Status s) \<le> 3)
     \<and> (\<forall>b \<in> set (bids d). ListingID b \<in> lb_ID ` set (listings d))
     \<and> (\<forall>l \<in> set (listings d). listing_ok (bids d) l)"

section \<open>Rows only move forward\<close>

definition order_moves :: "StockTransferOrder \<Rightarrow> StockTransferOrder \<Rightarrow> bool" where
  "order_moves s s' \<longleftrightarrow> (\<exists>st u. s' = s\<lparr>sto_Status := st, sto_UpdatedAt := u\<rparr> \<and> order_rank (sto_Status s) \<le> order_rank st)"

definition listing_next :: "gostring \<Rightarrow> gostring \<Rightarrow> bool" where
  "listing_next st st' \<longleftrightarrow> st' = st \<or> st = ''OPEN'' \<and> st' = ''BIDDING'' \<or> open_for_bids st \<and> st' = ''AWARDED''"

definition listing_moves :: "LoadBoardListing \<Rightarrow> LoadBoardListing \<Rightarrow> bool" where
  "listing_moves l l' \<longleftrightarrow> (\<exists>st u. l' = l\<lparr>lb_Status := st, lb_UpdatedAt := u\<rparr> \<and> listing_next (lb_Status l) st)"

definition bid_moves :: "LoadBoardBid \<Rightarrow> LoadBoardBid \<Rightarrow> bool" where
  "bid_moves b b' \<longleftrightarrow> b' = b \<or> bid_Status b = ''SUBMITTED''
     \<and> (\<exists>st u. b' = b\<lparr>bid_Status := st, DecidedAt := Some u\<rparr> \<and> st \<in> {''ACCEPTED'', ''REJECTED''})"

definition board_moves :: "sto_db \<Rightarrow> sto_db \<Rightarrow> bool" where
  "board_moves d d' \<longleftrightarrow> grown order_moves (orders d) (orders d') \<and> grown listing_moves (listings d) (listings d')
     \<and> grown bid_moves (bids d) (bids d') \<and> grown (=) (awarded_trips d) (awarded_trips d')"

lemma order_moves_refl [simp]: "order_moves s s"
  unfolding order_moves_def by (intro exI [of _ "sto_Status s"] exI [of _ "sto_UpdatedAt s"]) simp

lemma order_moves_to [simp]:
  "order_rank (sto_Status s) \<le> order_rank st \<Longrightarrow> order_moves s (s\<lparr>sto_Status := st, sto_UpdatedAt := u\<rparr>)"
  unfolding order_moves_def by blast

lemma listing_moves_refl [simp]: "listing_moves l l"
  unfolding listing_moves_def by (intro exI [of _ "lb_Status l"] exI [of _ "lb_UpdatedAt l"]) (simp add: listing_next_def)

lemma listing_moves_to [simp]:
  "listing_next (lb_Status l) st \<Longrightarrow> listing_moves l (l\<lparr>lb_Status := st, lb_UpdatedAt := u\<rparr>)"
  unfolding listing_moves_def by blast

lemma bid_moves_refl [simp]: "bid_moves b b"
  by (simp add: bid_moves_def)

lemma listing_next_trans: "listing_next x y \<Longrightarrow> listing_next y z \<Longrightarrow> listing_next x z"
  by (auto simp: listing_next_def open_for_bids_def)

lemma order_moves_trans: "order_moves x y \<Longrightarrow> order_moves y z \<Longrightarrow> order_moves x z"
  unfolding order_moves_def by (elim exE conjE) (auto intro: order_trans)

lemma listing_moves_trans: "listing_moves x y \<Longrightarrow> listing_moves y z \<Longrightarrow> listing_moves x z"
  unfolding listing_moves_def by (elim exE conjE) (auto intro: listing_next_trans)

lemma bid_moves_trans: "bid_moves x y \<Longrightarrow> bid_moves y z \<Longrightarrow> bid_moves x z"
  unfolding bid_moves_def by (elim disjE exE conjE) auto

lemma board_moves_refl [simp]: "board_moves d d"
  by (simp add: board_moves_def grown_refl)

lemma table_moves_trans:
  "grown order_moves p q \<Longrightarrow> grown order_moves q r \<Longrightarrow> grown order_moves p r"
  "grown listing_moves x y \<Longrightarrow> grown listing_moves y z \<Longrightarrow> grown listing_moves x z"
  "grown bid_moves u v \<Longrightarrow> grown bid_moves v w \<Longrightarrow> grown bid_moves u w"
  "grown (=) i j \<Longrightarrow> grown (=) j k \<Longrightarrow> grown (=) i k"
  by (erule (1) grown_trans [rotated], erule (1) order_moves_trans listing_moves_trans bid_moves_trans trans)+

lemma board_moves_trans: "board_moves x y \<Longrightarrow> board_moves y z \<Longrightarrow> board_moves x z"
  unfolding board_moves_def by (blast intro: table_moves_trans)

section \<open>Each statement keeps both\<close>

text \<open>A column that no statement writes names one row.\<close>

lemma key_unique: "distinct (map f xs) \<Longrightarrow> x \<in> set xs \<Longrightarrow> y \<in> set xs \<Longrightarrow> f x = f y \<Longrightarrow> x = y"
  by (auto simp: distinct_map dest: inj_onD)

lemma key_filter: "distinct (map f xs) \<Longrightarrow> x \<in> set xs \<Longrightarrow> filter (\<lambda>y. f y = f x) xs = [x]"
  by (induction xs) (auto simp: filter_empty_conv image_iff)

lemma board_keys:
  assumes "board_ok d"
  shows "s \<in> set (orders d) \<Longrightarrow> s' \<in> set (orders d) \<Longrightarrow> sto_ID s = sto_ID s' \<Longrightarrow> s = s'"
    and "l \<in> set (listings d) \<Longrightarrow> l' \<in> set (listings d) \<Longrightarrow> lb_ID l = lb_ID l' \<Longrightarrow> l = l'"
    and "b \<in> set (bids d) \<Longrightarrow> b' \<in> set (bids d) \<Longrightarrow> bid_ID b = bid_ID b' \<Longrightarrow> b = b'"
  using assms by (auto simp: board_ok_def intro: key_unique)

lemma find_in: "find p xs = Some x \<Longrightarrow> x \<in> set xs \<and> p x"
  by (auto simp: find_Some_iff)

lemma map_kept: "(\<And>x. f (g x) = f x) \<Longrightarrow> map f (map g xs) = map f xs"
  by simp

text \<open>What the statements that succeed do.\<close>

lemma set_status_eq:
  assumes "status_set st t k d d'"
  obtains "d' = d" | now where "d' = d\<lparr>orders := map (\<lambda>s. if is_sto t k s then s\<lparr>sto_Status := st, sto_UpdatedAt := now\<rparr> else s) (orders d)\<rparr>"
  using assms unfolding status_set_def set_sto_status_def by (auto split: if_split_asm)

lemma insert_sto_eq: "insert_sto s d = Inr d' \<Longrightarrow> d' = d\<lparr>orders := orders d @ [s]\<rparr> \<and> sto_ID s \<notin> sto_ID ` set (orders d)"
  by (simp add: insert_sto_def split: if_split_asm)

lemma insert_listing_eq:
  "insert_listing l d = Inr d' \<Longrightarrow> d' = d\<lparr>listings := listings d @ [l]\<rparr> \<and> lb_ID l \<notin> lb_ID ` set (listings d)"
  by (simp add: insert_listing_def split: if_split_asm)

lemma insert_bid_eq:
  "insert_bid b d = Inr d' \<Longrightarrow> d' = d\<lparr>bids := bids d @ [b]\<rparr> \<and> bid_ID b \<notin> bid_ID ` set (bids d)
    \<and> ListingID b \<in> lb_ID ` set (listings d)"
  by (simp add: insert_bid_def split: if_split_asm)

lemma insert_trip_eq: "insert_trip t d = Inr d' \<Longrightarrow> d' = d\<lparr>awarded_trips := awarded_trips d @ [t]\<rparr>"
  by (simp add: insert_trip_def split: if_split_asm)

lemma status_set_ok:
  assumes "status_set st t k d d'" and "board_ok d" and "order_rank st \<le> 3"
  shows "board_ok d'"
  using assms(1)
proof (cases rule: set_status_eq)
  case (2 now)
  have "sto_ID (if is_sto t k s then s\<lparr>sto_Status := st, sto_UpdatedAt := now\<rparr> else s) = sto_ID s" for s by simp
  moreover have "\<forall>s \<in> set (orders d'). order_rank (sto_Status s) \<le> 3" using assms(2,3) by (auto simp: 2 board_ok_def)
  ultimately show ?thesis using assms(2) by (simp add: 2 board_ok_def comp_def)
qed (simp add: assms(2))

lemma status_set_moves:
  assumes "status_set st t k d d'" and "\<And>s. s \<in> set (orders d) \<Longrightarrow> is_sto t k s \<Longrightarrow> order_rank (sto_Status s) \<le> order_rank st"
  shows "board_moves d d'"
  using assms(1)
proof (cases rule: set_status_eq)
  case (2 now)
  have "grown order_moves (orders d) (orders d')"
    unfolding 2 using assms(2) by (simp add: grown_map)
  then show ?thesis by (simp add: 2 board_moves_def grown_refl)
qed simp

lemma trip_added_keeps: "trip_added d d' \<Longrightarrow> board_ok d \<Longrightarrow> board_ok d' \<and> board_moves d d'"
  by (auto simp: trip_added_def board_ok_def board_moves_def grown_refl grown_append dest!: insert_trip_eq)

lemma insert_sto_keeps:
  "insert_sto s d = Inr d' \<Longrightarrow> order_rank (sto_Status s) \<le> 3 \<Longrightarrow> board_ok d \<Longrightarrow> board_ok d' \<and> board_moves d d'"
  by (drule insert_sto_eq) (simp add: board_ok_def board_moves_def grown_refl grown_append)

lemma fresh_listing_ok: "lb_Status l = ''OPEN'' \<Longrightarrow> lb_ID l \<notin> ListingID ` set bs \<Longrightarrow> listing_ok bs l"
  by (auto simp: listing_ok_def open_for_bids_def image_iff)

lemma insert_listing_keeps:
  assumes "insert_listing l d = Inr d'" and "lb_Status l = ''OPEN''" and "board_ok d"
  shows "board_ok d' \<and> board_moves d d' \<and> orders d' = orders d"
proof -
  note d' = insert_listing_eq [OF assms(1)]
  have "lb_ID l \<notin> ListingID ` set (bids d)" using d' assms(3) by (auto simp: board_ok_def)
  then have "listing_ok (bids d) l" using assms(2) by (rule fresh_listing_ok [rotated])
  then show ?thesis using d' assms(3) by (simp add: board_ok_def board_moves_def grown_refl grown_append)
qed

lemma listing_ok_bid:
  assumes "listing_ok bs l" and "bid_Status b = ''SUBMITTED''" and "ListingID b = lb_ID l \<Longrightarrow> open_for_bids (lb_Status l)"
  shows "listing_ok (bs @ [b]) l"
proof (cases "lb_Status l = ''AWARDED''")
  case True
  then have "ListingID b \<noteq> lb_ID l" using assms(3) by (auto simp: open_for_bids_def)
  then show ?thesis using True assms(1) by (simp add: listing_ok_def winners_def)
next
  case False
  then show ?thesis using assms(1,2) by (simp add: listing_ok_def)
qed

lemma insert_bid_keeps:
  assumes "insert_bid b d = Inr d'" and "bid_Status b = ''SUBMITTED''" and "board_ok d"
    and "l \<in> set (listings d)" "lb_ID l = ListingID b" "open_for_bids (lb_Status l)"
  shows "board_ok d' \<and> board_moves d d'"
proof -
  have "listing_ok (bids d @ [b]) x" if x: "x \<in> set (listings d)" for x
  proof (rule listing_ok_bid)
    show "listing_ok (bids d) x" using assms(3) x by (simp add: board_ok_def)
    show "open_for_bids (lb_Status x)" if "ListingID b = lb_ID x"
      using board_keys(2) [OF assms(3) assms(4) x] that assms(5,6) by simp
  qed (rule assms(2))
  then show ?thesis using insert_bid_eq [OF assms(1)] assms(3)
    by (simp add: board_ok_def board_moves_def grown_refl grown_append)
qed

text \<open>A statement that changes listings and bids in place.\<close>

lemma in_place_ok:
  assumes "board_ok d" and "orders d' = orders d" and "map lb_ID (listings d') = map lb_ID (listings d)"
    and "map bid_ID (bids d') = map bid_ID (bids d)" and "map ListingID (bids d') = map ListingID (bids d)"
    and "\<And>l. l \<in> set (listings d') \<Longrightarrow> listing_ok (bids d') l"
  shows "board_ok d'"
proof -
  have "ListingID ` set (bids d') \<subseteq> lb_ID ` set (listings d')"
    using assms(1) arg_cong [OF assms(3), of set] arg_cong [OF assms(5), of set] by (auto simp: board_ok_def)
  then show ?thesis using assms by (auto simp: board_ok_def)
qed

lemma start_bidding_keeps:
  assumes "start_bidding now t lid d = Inr d'" and "board_ok d"
  shows "board_ok d' \<and> board_moves d d'"
proof -
  define g where "g = (\<lambda>l. if is_listing t lid l \<and> lb_Status l = ''OPEN''
    then l\<lparr>lb_Status := ''BIDDING'', lb_UpdatedAt := now\<rparr> else l)"
  have d': "d' = d\<lparr>listings := map g (listings d)\<rparr>" using assms(1) by (simp add: start_bidding_def g_def)
  have "lb_ID (g l) = lb_ID l" "listing_moves l (g l)" "listing_ok bs l \<Longrightarrow> listing_ok bs (g l)" for l bs
    by (auto simp: g_def listing_next_def listing_ok_def open_for_bids_def)
  then show ?thesis using assms(2)
    by (auto simp: d' board_moves_def grown_refl intro!: in_place_ok [OF assms(2)] grown_map) (auto simp: board_ok_def)
qed

lemma after_award_keeps:
  assumes ok: "board_ok d" and l: "find (is_listing t lid) (listings d) = Some l" "open_for_bids (lb_Status l)"
    and b: "find (is_bid t lid k) (bids d) = Some b" "bid_Status b = ''SUBMITTED''"
  shows "board_ok (after_award now t lid k d) \<and> board_moves d (after_award now t lid k d)"
proof -
  define g where "g = (\<lambda>x. if is_bid t lid k x then x\<lparr>bid_Status := ''ACCEPTED'', DecidedAt := Some now\<rparr>
    else if competes t lid k x then x\<lparr>bid_Status := ''REJECTED'', DecidedAt := Some now\<rparr> else x)"
  define h where "h = (\<lambda>x. if is_listing t lid x \<and> open_for_bids (lb_Status x)
    then x\<lparr>lb_Status := ''AWARDED'', lb_UpdatedAt := now\<rparr> else x)"
  have d': "after_award now t lid k d = d\<lparr>bids := map g (bids d), listings := map h (listings d)\<rparr>"
    by (simp add: after_award_def g_def h_def)
  have ids [simp]: "lb_ID (h x) = lb_ID x" "bid_ID (g y) = bid_ID y" "ListingID (g y) = ListingID y" for x y
    by (simp_all add: h_def g_def)
  have bin: "b \<in> set (bids d)" "bid_TenantID b = t" "ListingID b = lid" "bid_ID b = k"
    using find_in [OF b(1)] by (simp_all add: is_bid_def)
  have lin: "l \<in> set (listings d)" "lb_TenantID l = t" "lb_ID l = lid" using find_in [OF l(1)] by (simp_all add: is_listing_def)
  have sub: "bid_Status x = ''SUBMITTED''" if "x \<in> set (bids d)" "ListingID x = lid" for x
  proof -
    have "listing_ok (bids d) l" using ok lin(1) by (simp add: board_ok_def)
    moreover have "lb_Status l \<noteq> ''AWARDED''" using l(2) by (auto simp: open_for_bids_def)
    ultimately show ?thesis using that lin(3) by (simp add: listing_ok_def)
  qed
  have k: "x = b" if "x \<in> set (bids d)" "bid_ID x = k" for x
    using board_keys(3) [OF ok that(1) bin(1)] that(2) bin(4) by simp
  have lm: "listing_moves x (h x)" for x by (simp add: h_def listing_next_def)
  have bm: "bid_moves x (g x)" if "x \<in> set (bids d)" for x
  proof (cases "is_bid t lid k x \<or> competes t lid k x")
    case True
    then have "bid_Status x = ''SUBMITTED''" using that sub by (auto simp: is_bid_def competes_def)
    then show ?thesis by (auto simp: g_def bid_moves_def)
  qed (simp add: g_def)
  have "ListingID (g x) = lid \<and> bid_Status (g x) = ''ACCEPTED'' \<longleftrightarrow> bid_ID x = bid_ID b" if x: "x \<in> set (bids d)" for x
  proof (cases "x = b")
    case True
    then show ?thesis using bin by (simp add: g_def is_bid_def)
  next
    case False
    then have "bid_ID x \<noteq> k" using k x by blast
    then show ?thesis using sub [OF x] bin(4) by (auto simp: g_def is_bid_def competes_def)
  qed
  then have "winners lid (map g (bids d)) = map g (filter (\<lambda>x. bid_ID x = bid_ID b) (bids d))"
    unfolding winners_def filter_map comp_def by (intro arg_cong [where f = "map g"] filter_cong refl)
  then have win: "winners lid (map g (bids d)) = [g b]"
    using key_filter [of bid_ID "bids d" b] ok bin(1) by (simp add: board_ok_def)
  have other: "winners i (map g (bids d)) = map g (winners i (bids d))" if "i \<noteq> lid" for i
    unfolding winners_def filter_map comp_def
    using that by (intro arg_cong [where f = "map g"] filter_cong) (auto simp: g_def is_bid_def competes_def)
  have "listing_ok (map g (bids d)) (h x)" if x: "x \<in> set (listings d)" for x
  proof (cases "lb_ID x = lid")
    case True
    then have "x = l" using board_keys(2) [OF ok x lin(1)] lin(3) by simp
    moreover have hx: "h l = l\<lparr>lb_Status := ''AWARDED'', lb_UpdatedAt := now\<rparr>" using l(2) lin by (simp add: h_def is_listing_def)
    moreover have "bid_Status (g y) = ''SUBMITTED'' \<longleftrightarrow> bid_TenantID (g y) \<noteq> t" if "y \<in> set (bids d)" "ListingID y = lid" for y
      using that sub k [of y] bin by (auto simp: g_def is_bid_def competes_def)
    ultimately show ?thesis using lin win by (simp add: hx listing_ok_def)
  next
    case False
    then have "h x = x" and "\<And>y. ListingID y = lb_ID x \<Longrightarrow> g y = y"
      by (auto simp: h_def g_def is_listing_def is_bid_def competes_def)
    moreover have "listing_ok (bids d) x" using ok x by (simp add: board_ok_def)
    ultimately show ?thesis using False other [of "lb_ID x"] by (auto simp: listing_ok_def)
  qed
  then show ?thesis using lm bm
    by (auto simp: d' board_moves_def grown_refl comp_def intro!: in_place_ok [OF ok] grown_map)
qed

lemma status_next_keeps:
  assumes "status_set st t k d d'" and "board_ok d" and "find (is_sto t k) (orders d) = Some s"
    and "order_rank (sto_Status s) \<le> order_rank st" and "order_rank st \<le> 3"
  shows "board_ok d' \<and> board_moves d d'"
proof -
  have "x = s" if "x \<in> set (orders d)" "is_sto t k x" for x
    using board_keys(1) [OF assms(2) that(1)] that(2) find_in [OF assms(3)] by (simp add: is_sto_def)
  then show ?thesis using status_set_ok [OF assms(1,2,5)] status_set_moves [OF assms(1)] assms(4) by blast
qed

lemma assign_keeps: "status_set ''ASSIGNED'' t k d d' \<Longrightarrow> board_ok d \<Longrightarrow> board_ok d' \<and> board_moves d d'"
  using status_set_ok [of "''ASSIGNED''" t k d d'] status_set_moves [of "''ASSIGNED''" t k d d']
  by (simp add: order_rank_def board_ok_def)

lemma board_step_keeps: "board_step d d' \<Longrightarrow> board_ok d \<Longrightarrow> board_ok d' \<and> board_moves d d'"
proof (induction rule: board_step.induct)
  case (create s d d')
  then show ?case by (simp add: insert_sto_keeps order_rank_def)
next
  case (release t k d s d')
  then show ?case by (intro status_next_keeps) (assumption | simp add: order_rank_def)+
next
  case (post t k d s l d' d'')
  have step: "board_ok d'" "board_moves d d'" "orders d' = orders d" using insert_listing_keeps post by auto
  have "board_ok d'' \<and> board_moves d' d''"
    by (rule status_next_keeps [OF post(7) step(1)]) (simp add: post(1) step(3), simp_all add: post(2) order_rank_def)
  then show ?case using step(2) board_moves_trans by blast
next
  case (bid t lid d l b d' d'')
  have "board_ok d' \<and> board_moves d d'"
    using find_in [OF bid(1)] bid(2,5) by (intro insert_bid_keeps [OF bid(3,4) bid(8), of l]) simp_all
  then show ?case using bid(7) start_bidding_keeps board_moves_trans by blast
next
  case (award t lid d l k b d' now d'')
  have step: "board_ok (after_award now t lid k d)" "board_moves d (after_award now t lid k d)"
    using after_award_keeps award by blast+
  have "board_ok d' \<and> board_moves d d'"
  proof (cases "non_blank (STOID l)")
    case None
    then show ?thesis using award(5) step by simp
  next
    case (Some s)
    then have "status_set ''ASSIGNED'' t s (after_award now t lid k d) d'" using award(5) by simp
    then show ?thesis using assign_keeps step board_moves_trans by blast
  qed
  then show ?case using trip_added_keeps [OF award(6)] board_moves_trans by blast
qed simp

section \<open>Every sequence of calls\<close>

definition fresh_board :: "sto_db \<Rightarrow> bool" where
  "fresh_board d \<longleftrightarrow> listings d = [] \<and> bids d = []
     \<and> distinct (map sto_ID (orders d)) \<and> (\<forall>s \<in> set (orders d). order_rank (sto_Status s) \<le> 3)"

lemma fresh_board_ok: "fresh_board d \<Longrightarrow> board_ok d"
  by (simp add: fresh_board_def board_ok_def)

lemma sto_run_keeps: "board_ok (db w) \<Longrightarrow> board_ok (db (sto_run e cs w)) \<and> board_moves (db w) (db (sto_run e cs w))"
proof (induction cs arbitrary: w)
  case (Cons c cs)
  have "board_ok (db (sto_exec e c w))" "board_moves (db w) (db (sto_exec e c w))"
    using board_step_keeps [OF sto_exec_step Cons.prems] by blast+
  then show ?case using Cons.IH board_moves_trans by simp
qed simp

text \<open>
  C35: whatever is called on a board that has no listings yet, in whichever order and with the database failing
  anywhere, an awarded listing has exactly one accepted bid and a listing not awarded has none; that bid
  is of the listing's own tenant, all other bids of that tenant on it have been rejected; the bids of a
  listing not awarded are all still open, and a listing is open, bidding or awarded.
\<close>

theorem one_winner:
  assumes "fresh_board (db w)" and l: "l \<in> set (listings (db (sto_run e cs w)))"
  shows "length (winners (lb_ID l) (bids (db (sto_run e cs w)))) = (if lb_Status l = ''AWARDED'' then 1 else 0)
    \<and> (lb_Status l = ''AWARDED'' \<or> open_for_bids (lb_Status l))
    \<and> (\<forall>b \<in> set (bids (db (sto_run e cs w))). ListingID b = lb_ID l \<longrightarrow>
      (bid_Status b = ''SUBMITTED'' \<longleftrightarrow> lb_Status l \<noteq> ''AWARDED'' \<or> bid_TenantID b \<noteq> lb_TenantID l))"
proof -
  have ok: "listing_ok (bids (db (sto_run e cs w))) l"
    using sto_run_keeps [OF fresh_board_ok [OF assms(1)], of e cs] l by (simp add: board_ok_def)
  show ?thesis
  proof (cases "lb_Status l = ''AWARDED''")
    case True
    then show ?thesis using ok by (auto simp: listing_ok_def)
  next
    case False
    then have "winners (lb_ID l) (bids (db (sto_run e cs w))) = []"
      using ok by (auto simp: listing_ok_def winners_def filter_empty_conv)
    then show ?thesis using False ok by (simp add: listing_ok_def)
  qed
qed

text \<open>
  Between any two moments of such a history every row is kept but for its status and the time of the
  change: a decided bid stays as it is, an awarded listing too, the status of an order never steps
  back, and the trips that awards created are kept.
\<close>

theorem decisions_final:
  assumes "fresh_board (db w)"
  shows "board_moves (db (sto_run e cs w)) (db (sto_run e (cs @ cs') w))"
  using sto_run_keeps [OF fresh_board_ok [OF assms], of e cs] sto_run_keeps [of "sto_run e cs w" e cs']
  by (simp add: sto_run_append)

section \<open>One award\<close>

definition award_done :: "gostring \<Rightarrow> gostring \<Rightarrow> gostring \<Rightarrow> sto_db \<Rightarrow> AwardResult \<Rightarrow> sto_db \<Rightarrow> bool" where
  "award_done t lid k d res d' \<longleftrightarrow>
     (\<exists>l b. find (is_listing t lid) (listings d) = Some l \<and> open_for_bids (lb_Status l)
        \<and> find (is_bid t lid k) (bids d) = Some b \<and> bid_Status b = ''SUBMITTED''
        \<and> WinningBid res = (scanned_bid b)\<lparr>bid_Status := ''ACCEPTED'', DecidedAt := Some (AwardedAt res)\<rparr>)
     \<and> listings d' = listings (after_award (AwardedAt res) t lid k d)
     \<and> bids d' = bids (after_award (AwardedAt res) t lid k d)"

lemma awarded_done:
  assumes l: "find (is_listing t lid) (listings d) = Some l" "open_for_bids (lb_Status l)"
    and b: "find (is_bid t lid k) (bids d) = Some b" "bid_Status b = ''SUBMITTED''"
    and res: "awarded t l (scanned_bid b) d res d'"
  shows "award_done t lid k d res d'"
proof -
  let ?d = "after_award (AwardedAt res) t lid k d"
  have keeps: "listings d1 = listings d0 \<and> bids d1 = bids d0" if "status_set st t k d0 d1 \<or> trip_added d0 d1" for st k d0 d1
    using that by (auto simp: trip_added_def elim: set_status_eq dest!: insert_trip_eq)
  have ids: "lb_ID l = lid" "bid_ID b = k" using find_sel [OF l(1)] find_sel [OF b(1)] by (simp_all add: is_listing_def is_bid_def)
  obtain d1 where d1: "trip_added d1 d'"
      "case non_blank (STOID l) of None \<Rightarrow> d1 = ?d | Some s \<Rightarrow> status_set ''ASSIGNED'' t s ?d d1"
    using res unfolding awarded_def scanned_ID ids by blast
  have "listings d1 = listings ?d \<and> bids d1 = bids ?d"
    using d1(2) keeps by (cases "non_blank (STOID l)") auto
  moreover have "listings d' = listings d1 \<and> bids d' = bids d1" using d1(1) keeps by blast
  moreover have "WinningBid res = (scanned_bid b)\<lparr>bid_Status := ''ACCEPTED'', DecidedAt := Some (AwardedAt res)\<rparr>"
    using res unfolding awarded_def by blast
  ultimately show ?thesis unfolding award_done_def using l b by auto
qed

text \<open>
  An award that reports an error has changed nothing. One that succeeds found the listing, of the
  caller's tenant, open for bids, and the bid on it, of the same tenant, submitted; it accepted that bid,
  rejected the tenant's other open bids on the listing, and closed the listing, all at one instant.
\<close>

theorem award_call:
  assumes "AwardBid e t lid k w = (r, w')"
  shows "case r of Inl _ \<Rightarrow> db w' = db w | Inr res \<Rightarrow> award_done t lid k (db w) res (db w')"
proof -
  have "ends (AwardBid e t lid k) (db w)
      (\<lambda>r d'. case r of Inl _ \<Rightarrow> d' = db w | Inr res \<Rightarrow> award_done t lid k (db w) res d')"
    by (intro ending refl) (rule awarded_done)
  from endsD [OF this, unfolded assms fst_conv snd_conv] show ?thesis .
qed

section \<open>What does not work\<close>

text \<open>The route of the trips of awards is never created, so the insertion fails and its error is dropped.\<close>

lemma award_no_trip:
  assumes "''route-sto-loadboard'' \<notin> set (sto_routes (db w))" and "spawn_trip e t now l b w = (r, w')"
  shows "r = Inr None \<and> db w' = db w"
proof -
  have "insert_trip (award_trip e t tid now l b) (db w) \<noteq> Inr d'" for tid d'
    using assms(1) by (simp add: insert_trip_def award_trip_def)
  then have "ends (spawn_trip e t now l b) (db w) (\<lambda>r d'. r = Inr None \<and> d' = db w)"
    unfolding spawn_trip_def by (intro ending) simp_all
  from endsD [OF this] show ?thesis by (simp add: assms(2))
qed

text \<open>A carrier of another tenant can bid on a federated listing, and never win: both rows must be the caller's.\<close>

lemma foreign_bid_never_wins:
  assumes "AwardBid e t lid k w = (Inr res, w')"
  shows "\<exists>l \<in> set (listings (db w)). \<exists>b \<in> set (bids (db w)). lb_ID l = lid \<and> bid_ID b = k
    \<and> lb_TenantID l = t \<and> bid_TenantID b = t"
proof -
  have "ends (AwardBid e t lid k) (db w) (\<lambda>r d'. case r of Inl _ \<Rightarrow> True | Inr res \<Rightarrow> award_done t lid k (db w) res d')"
    by (intro ending TrueI) (rule awarded_done)
  from endsD [OF this] have "award_done t lid k (db w) res (db w')" by (simp add: assms)
  then show ?thesis by (auto simp: award_done_def is_listing_def is_bid_def dest!: find_in intro!: bexI)
qed

section \<open>Example\<close>

definition ex_sto_env :: sto_env where
  "ex_sto_env = \<lparr>now_at = int, uuid_at = (\<lambda>n. replicate n (CHR ''u'')), db_fails = (\<lambda>_. None), yyyymmdd = (\<lambda>_. ''20250101'')\<rparr>"

definition ex_hub_at :: "gostring \<Rightarrow> Facility" where
  "ex_hub_at k = \<lparr>fac_ID = k, fac_TenantID = ''t'', fac_Name = k, fac_City = k\<rparr>"

definition ex_order :: StockTransferOrder where
  "ex_order = \<lparr>sto_ID = ''s'', sto_TenantID = ''t'', STONumber = ''n'', OriginFacilityID = ''p'', OriginFacilityName = '''',
     DestinationFacilityID = ''q'', DestFacilityName = '''', MaterialCode = ''m'', MaterialDescription = '''',
     Quantity = Fin 1, UOM = ''t'', RequiredDeliveryDate = ''d'', sto_Status = ''RELEASED'', sto_Notes = '''',
     sto_CreatedBy = '''', sto_CreatedAt = 0, sto_UpdatedAt = 0\<rparr>"

definition ex_board :: "sto_db world" where
  "ex_board = \<lparr>db = \<lparr>facilities = [ex_hub_at ''p'', ex_hub_at ''q''], orders = [ex_order], listings = [], bids = [],
     awarded_trips = [], sto_tenants = [''t''], sto_bookings = [], sto_routes = []\<rparr>, tick = 0\<rparr>"

definition ex_post :: PostToLoadBoardInput where
  "ex_post = \<lparr>post_VehicleType = '''', post_TargetRate = Fin 1, post_MaxRate = Fin 2, post_Visibility = '''', ExpiresHours = 1\<rparr>"

definition ex_bid :: "gostring \<Rightarrow> SubmitBidInput" where
  "ex_bid c = \<lparr>sb_CarrierID = c, sb_CarrierName = c, sb_BidAmount = Fin 1, sb_VehicleID = None, sb_DriverID = None,
     sb_Remarks = ''''\<rparr>"

definition ex_bids :: "sto_call list" where
  "ex_bids = [Post ''t'' ''s'' ex_post, Bid ''t'' ''uuu'' (ex_bid ''a''), Bid ''t'' ''uuu'' (ex_bid ''b'')]"

definition ex_award :: sto_call where
  "ex_award = Award ''t'' ''uuu'' ''uuuuuuuuuuu''"

lemma ex_trim: "TrimSpace ''a'' = ''a''" "TrimSpace ''b'' = ''b''"
  by (simp_all add: TrimSpace_def trim_left.simps white_space_def starts_with_def char_of_def)

lemmas sto_eval =
  refuse_if_def unless_error_def exec_stmt_def query_def clock_def new_uuid_def exec_count_def wrap_def ret_def attempt_def
  fail_def andThen_def Let_def with_tx_def ex_sto_env_def env.defs float_ops ex_trim
  PostToLoadBoard_def GetSTOByID_def is_sto_def read_sto_def city_of_def repo_CreateListing_def insert_listing_def
  missing_tenant_def missing_ref_def UpdateSTOStatus_def set_sto_status_def
  SubmitBid_def bid_Validate_def GetListingByID_def visible_def read_listing_def repo_CreateBid_def insert_bid_def
  start_bidding_def is_listing_def open_for_bids_def hours_long_def
  AwardBid_def AwardBidTransaction_def award_body_def award_open_def scanned_bid_def is_bid_def accept_bid_def
  reject_bids_def competes_def close_listing_def non_blank_def spawn_trip_def insert_trip_def award_trip_def
  ex_bids_def ex_award_def ex_board_def ex_order_def ex_hub_at_def ex_post_def ex_bid_def

lemma ex_sold: "map lb_Status (listings (db (sto_run ex_sto_env (ex_bids @ [ex_award]) ex_board))) = [''AWARDED'']"
  by (simp add: sto_eval)

lemma map_one: "map f xs = [y] \<Longrightarrow> \<exists>x \<in> set xs. f x = y"
  by auto

lemma ex_fresh: "fresh_board (db ex_board)"
  by (simp add: fresh_board_def ex_board_def ex_order_def order_rank_def)

theorem one_winner_witness:
  "\<exists>l \<in> set (listings (db (sto_run ex_sto_env (ex_bids @ [ex_award]) ex_board))). lb_Status l = ''AWARDED''
     \<and> length (winners (lb_ID l) (bids (db (sto_run ex_sto_env (ex_bids @ [ex_award]) ex_board)))) = 1"
proof -
  obtain l where l: "l \<in> set (listings (db (sto_run ex_sto_env (ex_bids @ [ex_award]) ex_board)))" "lb_Status l = ''AWARDED''"
    using map_one [OF ex_sold] by blast
  show ?thesis using one_winner [OF ex_fresh l(1)] l(2) by (intro bexI [OF _ l(1)]) simp
qed

theorem decisions_final_witness:
  "board_moves (db (sto_run ex_sto_env ex_bids ex_board)) (db (sto_run ex_sto_env (ex_bids @ [ex_award]) ex_board))"
  by (rule decisions_final [OF ex_fresh])

theorem award_call_witness:
  "\<exists>res w'. AwardBid ex_sto_env ''t'' ''uuu'' ''uuuuuuuuuuu'' (sto_run ex_sto_env ex_bids ex_board) = (Inr res, w')
     \<and> award_done ''t'' ''uuu'' ''uuuuuuuuuuu'' (db (sto_run ex_sto_env ex_bids ex_board)) res (db w')"
proof -
  obtain r w' where run: "AwardBid ex_sto_env ''t'' ''uuu'' ''uuuuuuuuuuu'' (sto_run ex_sto_env ex_bids ex_board) = (r, w')"
    by fastforce
  then have w': "w' = sto_run ex_sto_env (ex_bids @ [ex_award]) ex_board" by (simp add: sto_run_append ex_award_def)
  have "map lb_Status (listings (db (sto_run ex_sto_env ex_bids ex_board))) = [''BIDDING'']" by (simp add: sto_eval)
  then have "db w' \<noteq> db (sto_run ex_sto_env ex_bids ex_board)" using ex_sold [folded w'] by (intro notI) (simp only: list.inject, simp)
  then obtain res where res: "r = Inr res" using award_call [OF run] by (cases r) simp_all
  show ?thesis using run award_call [OF run] unfolding res sum.case by blast
qed

end
