(* ===== verification/ConfigReader.thy ===== *)
theory ConfigReader
  imports GoText GoMath Ends
begin

text \<open>
  The reader of \<open>company_config\<close> (\<open>internal/fuel/config.go\<close>), which the motion engines share: the rows
  of a tenant, cached for a minute in the memory of the process, as numbers and durations.
\<close>

section \<open>Memory of the process\<close>

text \<open>A read or a write of a field of the engine, which cannot fail.\<close>

definition peek :: "('d \<Rightarrow> 'a) \<Rightarrow> ('d, 'a) act" where
  "peek f w = (Inr (f (db w)), w)"

definition poke :: "('d \<Rightarrow> 'd) \<Rightarrow> ('d, unit) act" where
  "poke f w = (Inr (), w\<lparr>db := f (db w)\<rparr>)"

lemma ends_peek [ending]: "P (Inr (f d)) d \<Longrightarrow> ends (peek f) d P"
  by (auto simp: ends_def peek_def)

lemma ends_poke [ending]: "P (Inr ()) (f d) \<Longrightarrow> ends (poke f) d P"
  by (auto simp: ends_def poke_def)

section \<open>Texts as numbers\<close>

text \<open>\<open>strconv.ParseFloat(s, 64)\<close> and \<open>strconv.Atoi(s)\<close> with their errors, of syntax and of range.\<close>

definition float_text :: "gostring \<Rightarrow> float64 option" where
  "float_text s =
     (case take_sign s of (neg, r) \<Rightarrow>
        let low = map lower_char r;
            hex = (2 < length r \<and> starts_with ''0x'' low)
        in if low = ''inf'' \<or> low = ''infinity'' then Some (Inf neg)
           else if map lower_char s = ''nan'' then Some NaN
           else if CHR ''_'' \<in> set r \<and> \<not> underscoreOK r then None
           else case read_number hex (if hex then drop 2 r else r) of
                  None \<Rightarrow> None
                | Some q \<Rightarrow> (case fl q of Fin v \<Rightarrow> Some (if neg then - Fin v else Fin v) | _ \<Rightarrow> None))"

definition int_text :: "gostring \<Rightarrow> int option" where
  "int_text s =
     (case take_sign s of (neg, r) \<Rightarrow>
        (case (if r = [] then None else dec_loop 0 r) of
           None \<Rightarrow> None
         | Some n \<Rightarrow> if neg then (if n \<le> 2 ^ 63 then Some (- int n) else None)
             else if n < 2 ^ 63 then Some (int n) else None))"

text \<open>Where they are no errors these are the functions of \<open>GoText\<close>.\<close>

lemma float_text_value:
  assumes "float_text s = Some x"
  shows "ParseFloat s = x"
proof (cases "take_sign s")
  case (Pair neg r)
  define low hex where "low = map lower_char r" and "hex = (2 < length r \<and> starts_with ''0x'' low)"
  define inf nan und where "inf = (low = ''inf'' \<or> low = ''infinity'')" and "nan = (map lower_char s = ''nan'')"
    and "und = (CHR ''_'' \<in> set r \<and> \<not> underscoreOK r)"
  define num where "num = read_number hex (if hex then drop 2 r else r)"
  have p: "ParseFloat s = (if inf then Inf neg else if nan then NaN else if und then Fin 0 else
      case num of None \<Rightarrow> Fin 0 | Some q \<Rightarrow> if neg then - fl q else fl q)"
    unfolding ParseFloat_def Pair prod.case Let_def low_def hex_def inf_def nan_def und_def num_def ..
  have "float_text s = (if inf then Some (Inf neg) else if nan then Some NaN else if und then None else
      case num of None \<Rightarrow> None | Some q \<Rightarrow> (case fl q of Fin v \<Rightarrow> Some (if neg then - Fin v else Fin v) | _ \<Rightarrow> None))"
    unfolding float_text_def Pair prod.case Let_def low_def hex_def inf_def nan_def und_def num_def ..
  then show ?thesis using assms unfolding p by (auto split: if_splits option.splits float64.splits)
qed

lemma int_text_value: "int_text s = Some n \<Longrightarrow> Atoi s = n"
  by (auto simp: int_text_def Atoi_def min_def split: prod.splits option.splits if_splits)

section \<open>The reader\<close>

record cfg =
  config_rows :: "(gostring \<times> gostring \<times> gostring) list"
  cache :: "gostring \<Rightarrow> (gostring \<Rightarrow> gostring option) option"
  cacheAt :: "gostring \<Rightarrow> gotime option"

definition cacheTTL :: int where
  "cacheTTL = 60 * 1000000000"

definition rows_of :: "gostring \<Rightarrow> 'x cfg_scheme \<Rightarrow> gostring \<Rightarrow> gostring option" where
  "rows_of tenant d = map_of (rev (map snd (filter (\<lambda>r. fst r = tenant) (config_rows d))))"

definition cache_fresh :: "env \<Rightarrow> gostring \<Rightarrow> ('x cfg_scheme, bool) act" where
  "cache_fresh e tenant =
     andThen (peek (\<lambda>d. cacheAt d tenant)) (\<lambda>last.
       case last of
         None \<Rightarrow> ret False
       | Some t \<Rightarrow> if IsZero t then ret False else andThen (clock e) (\<lambda>now. ret (time_Sub now t \<le> cacheTTL)))"

definition refreshIfStale :: "env \<Rightarrow> gostring \<Rightarrow> ('x cfg_scheme, unit) act" where
  "refreshIfStale e tenant =
     andThen (cache_fresh e tenant) (\<lambda>fresh. if fresh then ret () else
     andThen (cache_fresh e tenant) (\<lambda>fresh. if fresh then ret () else
     andThen (query e (rows_of tenant)) (\<lambda>rows.
     andThen (clock e) (\<lambda>now.
       poke (\<lambda>d. d\<lparr>cache := (cache d)(tenant := Some rows), cacheAt := (cacheAt d)(tenant := Some now)\<rparr>)))))"

definition cached :: "gostring \<Rightarrow> gostring \<Rightarrow> 'x cfg_scheme \<Rightarrow> gostring" where
  "cached tenant key d =
     (case cache d tenant of None \<Rightarrow> '''' | Some m \<Rightarrow> (case m key of None \<Rightarrow> '''' | Some v \<Rightarrow> v))"

definition Get :: "env \<Rightarrow> gostring \<Rightarrow> gostring \<Rightarrow> ('x cfg_scheme, gostring) act" where
  "Get e tenant key = andThen (refreshIfStale e tenant) (\<lambda>_. peek (cached tenant key))"

definition GetFloat :: "env \<Rightarrow> gostring \<Rightarrow> gostring \<Rightarrow> float64 \<Rightarrow> ('x cfg_scheme, float64) act" where
  "GetFloat e tenant key dflt =
     andThen (Get e tenant key) (\<lambda>raw.
       ret (if raw = '''' then dflt else case float_text raw of None \<Rightarrow> dflt | Some n \<Rightarrow> n))"

definition getDuration :: "env \<Rightarrow> gostring \<Rightarrow> gostring \<Rightarrow> int \<Rightarrow> int \<Rightarrow> ('x cfg_scheme, int) act" where
  "getDuration e tenant key dflt unit =
     andThen (Get e tenant key) (\<lambda>raw.
       ret (if raw = '''' then dflt else case int_text raw of
         None \<Rightarrow> dflt
       | Some n \<Rightarrow> if n \<le> 0 then dflt else sint (word_of_int (n * unit) :: int64)))"

definition GetDurationSeconds :: "env \<Rightarrow> gostring \<Rightarrow> gostring \<Rightarrow> int \<Rightarrow> ('x cfg_scheme, int) act" where
  "GetDurationSeconds e tenant key dflt = getDuration e tenant key dflt 1000000000"

definition GetDurationMinutes :: "env \<Rightarrow> gostring \<Rightarrow> gostring \<Rightarrow> int \<Rightarrow> ('x cfg_scheme, int) act" where
  "GetDurationMinutes e tenant key dflt = getDuration e tenant key dflt 60000000000"

section \<open>The cache never invents a value\<close>

text \<open>
  The cache of a tenant is the table as it was when it was filled. A read keeps that, touches nothing
  but the cache of its tenant, and a failed one nothing at all.
\<close>

definition only_cache :: "gostring \<Rightarrow> 'x cfg_scheme \<Rightarrow> 'x cfg_scheme \<Rightarrow> bool" where
  "only_cache tenant d d' \<longleftrightarrow>
     d' = d \<or> (\<exists>now. d' = d\<lparr>cache := (cache d)(tenant := Some (rows_of tenant d)), cacheAt := (cacheAt d)(tenant := Some now)\<rparr>)"

lemma ends_cache_fresh [ending]: "(\<And>b. P (Inr b) d) \<Longrightarrow> ends (cache_fresh e tenant) d P"
  unfolding cache_fresh_def by (intro ending)

lemma ends_refresh [ending]:
  assumes "\<And>err. P (Inl err) d" and "\<And>d'. only_cache tenant d d' \<Longrightarrow> P (Inr ()) d'"
  shows "ends (refreshIfStale e tenant) d P"
  unfolding refreshIfStale_def by (intro ending assms) (auto simp: only_cache_def)

lemma ends_Get [ending]:
  assumes "\<And>err. P (Inl err) d" and "\<And>d'. only_cache tenant d d' \<Longrightarrow> P (Inr (cached tenant key d')) d'"
  shows "ends (Get e tenant key) d P"
  unfolding Get_def by (intro ending assms)

lemma ends_GetFloat [ending]:
  assumes "\<And>err. P (Inl err) d" and "\<And>x d'. only_cache tenant d d' \<Longrightarrow> P (Inr x) d'"
  shows "ends (GetFloat e tenant key dflt) d P"
  unfolding GetFloat_def by (intro ending assms)

lemma ends_GetDurationMinutes [ending]:
  assumes "\<And>err. P (Inl err) d" and "\<And>x d'. only_cache tenant d d' \<Longrightarrow> P (Inr x) d'"
  shows "ends (GetDurationMinutes e tenant key dflt) d P"
  unfolding GetDurationMinutes_def getDuration_def by (intro ending assms)

lemma only_cache_trans: "only_cache tenant d d' \<Longrightarrow> only_cache tenant d' d'' \<Longrightarrow> only_cache tenant d d''"
  unfolding only_cache_def by (elim disjE exE) (auto simp: rows_of_def)

end
