(* ===== verification/Deviation.thy ===== *)
theory Deviation
  imports Geofencing ConfigReader
begin

text \<open>
  Route deviation (\<open>internal/deviation/state.go\<close>, \<open>corridor.go\<close>, \<open>policy.go\<close>, \<open>engine.go\<close>): the corridor of
  a trip's route, the state machine of its tracker, and the engine that resolves the trip of a fix,
  steps the tracker and records an alert. The trackers live in the memory of the process.
\<close>

section \<open>Corridor and policy\<close>

record RouteCorridor =
  cor_RouteID :: gostring
  cor_Source :: gostring
  cor_Dest :: gostring
  DistanceKM :: float64
  Waypoints :: "Point list"

definition DistanceToPoint :: "gomath \<Rightarrow> RouteCorridor \<Rightarrow> float64 \<Rightarrow> float64 \<Rightarrow> float64" where
  "DistanceToPoint ma c lat lng =
     (if length (Waypoints c) < 2 then Fin 0
      else min_distance ma \<lparr>Lat = lat, Lng = lng\<rparr> (zip (Waypoints c) (tl (Waypoints c))) math_MaxFloat64)"

record DeviationPolicy =
  pol_TenantID :: gostring
  MaxDistanceMeters :: float64
  ReturnDistanceMeters :: float64
  SustainedDurationSec :: float64
  MinStreakCount :: int
  MaxAccuracyMeters :: float64
  MaxFeasibleSpeedKmh :: float64
  MinMovingSpeedKmh :: float64
  CooldownDuration :: int

definition DefaultDeviationPolicy :: "gostring \<Rightarrow> DeviationPolicy" where
  "DefaultDeviationPolicy tenant =
     \<lparr>pol_TenantID = (if tenant = '''' then ''1'' else tenant), MaxDistanceMeters = Fin 5000,
      ReturnDistanceMeters = Fin 1500, SustainedDurationSec = Fin 60, MinStreakCount = 2, MaxAccuracyMeters = Fin 50,
      MaxFeasibleSpeedKmh = Fin 180, MinMovingSpeedKmh = Fin 3, CooldownDuration = 30 * 60000000000\<rparr>"

section \<open>The tracker\<close>

datatype DeviationState = OnRoute | Deviating | Sustained | Alerted | ReturnedToRoute

record TripDeviationTracker =
  trk_TripID :: gostring
  trk_VehicleID :: gostring
  trk_DriverID :: gostring
  trk_State :: DeviationState
  DeviationStart :: gotime
  StreakCount :: int
  LastAlertAt :: gotime
  MaxDeviationDist :: float64
  trk_LastLat :: float64
  trk_LastLng :: float64
  HasLastFix :: bool
  LastFixTime :: gotime

definition NewTripDeviationTracker :: "gostring \<Rightarrow> gostring \<Rightarrow> gostring \<Rightarrow> TripDeviationTracker" where
  "NewTripDeviationTracker trip vehicle driver =
     \<lparr>trk_TripID = trip, trk_VehicleID = vehicle, trk_DriverID = driver, trk_State = OnRoute, DeviationStart = 0,
      StreakCount = 0, LastAlertAt = 0, MaxDeviationDist = Fin 0, trk_LastLat = Fin 0, trk_LastLng = Fin 0,
      HasLastFix = False, LastFixTime = 0\<rparr>"

text \<open>The two gates before the state machine.\<close>

definition poor_accuracy :: "DeviationPolicy \<Rightarrow> float64 \<Rightarrow> bool" where
  "poor_accuracy p accuracy \<longleftrightarrow> Fin 0 < accuracy \<and> Fin 0 < MaxAccuracyMeters p \<and> MaxAccuracyMeters p < accuracy"

definition impossible_jump :: "gomath \<Rightarrow> DeviationPolicy \<Rightarrow> TripDeviationTracker \<Rightarrow> float64 \<Rightarrow> float64 \<Rightarrow> gotime \<Rightarrow> bool" where
  "impossible_jump ma p t lat lng ts \<longleftrightarrow>
     HasLastFix t \<and> \<not> feq (trk_LastLat t) (Fin 0) \<and> \<not> feq (trk_LastLng t) (Fin 0) \<and> \<not> IsZero (LastFixTime t)
     \<and> (let dtSec = Seconds (time_Sub ts (LastFixTime t)) in
        Fin 0 < dtSec
        \<and> (let distM = Haversine ma (trk_LastLat t) (trk_LastLng t) lat lng;
               speedKmh = fdiv (fdiv distM (F 1000)) (fdiv dtSec (F 3600))
           in Fin 0 < MaxFeasibleSpeedKmh p \<and> MaxFeasibleSpeedKmh p < speedKmh))"

definition wider :: "float64 \<Rightarrow> TripDeviationTracker \<Rightarrow> TripDeviationTracker" where
  "wider distM t = (if MaxDeviationDist t < distM then t\<lparr>MaxDeviationDist := distM\<rparr> else t)"

definition step_state :: "DeviationPolicy \<Rightarrow> float64 \<Rightarrow> gotime \<Rightarrow> TripDeviationTracker \<Rightarrow> TripDeviationTracker \<times> bool" where
  "step_state p distM ts t =
     (case trk_State t of
        OnRoute \<Rightarrow>
          (if MaxDistanceMeters p < distM
           then t\<lparr>trk_State := Deviating, DeviationStart := ts, StreakCount := 1, MaxDeviationDist := distM\<rparr>
           else t\<lparr>trk_State := OnRoute\<rparr>, False)
      | ReturnedToRoute \<Rightarrow>
          (if MaxDistanceMeters p < distM
           then t\<lparr>trk_State := Deviating, DeviationStart := ts, StreakCount := 1, MaxDeviationDist := distM\<rparr>
           else t\<lparr>trk_State := OnRoute\<rparr>, False)
      | Deviating \<Rightarrow>
          if distM \<le> ReturnDistanceMeters p
          then (t\<lparr>trk_State := OnRoute, StreakCount := 0, DeviationStart := 0\<rparr>, False)
          else (let t1 = wider distM (t\<lparr>StreakCount := StreakCount t + 1\<rparr>) in
                if MinStreakCount p \<le> StreakCount t1 \<and> SustainedDurationSec p \<le> Seconds (time_Sub ts (DeviationStart t1))
                then (t1\<lparr>trk_State := Alerted, LastAlertAt := ts\<rparr>, True)
                else (t1, False))
      | Alerted \<Rightarrow>
          if distM \<le> ReturnDistanceMeters p
          then (t\<lparr>trk_State := ReturnedToRoute, StreakCount := 0, DeviationStart := 0\<rparr>, False)
          else (let t1 = wider distM t in
                if 0 < CooldownDuration p \<and> \<not> IsZero (LastAlertAt t1) \<and> CooldownDuration p \<le> time_Sub ts (LastAlertAt t1)
                then (t1\<lparr>LastAlertAt := ts\<rparr>, True)
                else (t1, False))
      | Sustained \<Rightarrow> (t, False))"

definition fix_seen :: "float64 \<Rightarrow> float64 \<Rightarrow> gotime \<Rightarrow> TripDeviationTracker \<Rightarrow> TripDeviationTracker" where
  "fix_seen lat lng ts t = t\<lparr>trk_LastLat := lat, trk_LastLng := lng, HasLastFix := True, LastFixTime := ts\<rparr>"

text \<open>The tracker after a fix, and what \<open>Step\<close> returns: distance, state, and whether to alert.\<close>

definition Step :: "gomath \<Rightarrow> DeviationPolicy \<Rightarrow> RouteCorridor option \<Rightarrow> float64 \<Rightarrow> float64 \<Rightarrow> float64 \<Rightarrow> float64 \<Rightarrow> gotime
    \<Rightarrow> TripDeviationTracker \<Rightarrow> TripDeviationTracker \<times> float64 \<times> DeviationState \<times> bool" where
  "Step ma p corridor lat lng speed accuracy ts t =
     (case corridor of
        None \<Rightarrow> (t, Fin 0, trk_State t, False)
      | Some c \<Rightarrow>
          if length (Waypoints c) < 2 \<or> poor_accuracy p accuracy \<or> impossible_jump ma p t lat lng ts
          then (t, Fin 0, trk_State t, False)
          else (let distM = DistanceToPoint ma c lat lng;
                    (t1, alert) = step_state p distM ts (fix_seen lat lng ts t)
                in (t1, distM, trk_State t1, alert)))"

section \<open>Tables and memory of the engine\<close>

record TelemetryPoint =
  pt_TripID :: gostring
  pt_VehicleID :: gostring
  pt_DriverID :: gostring
  pt_Latitude :: float64
  pt_Longitude :: float64
  pt_Speed :: float64
  pt_Accuracy :: float64
  pt_Timestamp :: gotime
  pt_TenantID :: gostring

record dev_trip =
  dt_ID :: gostring
  dt_TenantID :: gostring
  dt_RouteID :: gostring
  dt_VehicleID :: "gostring option"
  dt_DriverID :: "gostring option"
  dt_Status :: gostring
  dt_CreatedAt :: gotime

record tripMetadata =
  tm_ID :: gostring
  tm_TenantID :: gostring
  tm_RouteID :: gostring
  tm_VehicleID :: gostring
  tm_DriverID :: gostring
  tm_Status :: gostring

record dev_route =
  rt_ID :: gostring
  rt_source :: gostring
  rt_destination :: gostring
  rt_distance :: float64

record route_location =
  rl_route_id :: gostring
  source_at :: Point
  dest_at :: Point

text \<open>The columns of the two rows of an alert, and the two events it publishes.\<close>

datatype dev_details = Deviating_by gostring float64 gostring gostring

record dev_alert =
  da_id :: gostring
  da_trip :: gostring
  da_vehicle :: gostring
  da_driver :: gostring
  da_details :: dev_details
  da_lat :: float64
  da_lng :: float64
  da_at :: gotime

record dev_payload =
  pl_alert :: dev_alert
  pl_tenant :: gostring
  deviation_m :: float64
  pl_route :: gostring

record dev_outbox =
  do_id :: gostring
  do_aggregate :: gostring
  do_payload :: dev_payload

datatype dev_bus_event = GPSDeviationAlert dev_payload | TelemetryAlertEvent dev_alert gostring

record dev_db = cfg +
  dev_trips :: "dev_trip list"
  dev_routes :: "dev_route list"
  locations :: "route_location list"
  dev_alerts :: "dev_alert list"
  dev_events :: "dev_outbox list"
  dev_published :: "dev_bus_event list"
  trackers :: "gostring \<Rightarrow> TripDeviationTracker option"

type_synonym 'a dact = "(dev_db, 'a) act"

text \<open>The engine: whether it was given a reader and a bus, the tenant of the context, and \<open>Unix()\<close> as text.\<close>

record dev_engine =
  configReader :: bool
  event_bus :: bool
  ctx_tenant :: gostring
  unix_text :: "gotime \<Rightarrow> gostring"

section \<open>Policy and corridor from the tables\<close>

text \<open>\<open>if v, err := get; err == nil && ok(v) { p = set(v) }\<close>.\<close>

definition override :: "'b dact \<Rightarrow> ('b \<Rightarrow> bool) \<Rightarrow> ('b \<Rightarrow> 'p \<Rightarrow> 'p) \<Rightarrow> 'p \<Rightarrow> 'p dact" where
  "override get ok upd p =
     andThen (attempt get) (\<lambda>r. ret (case r of Inl _ \<Rightarrow> p | Inr v \<Rightarrow> if ok v then upd v p else p))"

definition LoadDeviationPolicy :: "env \<Rightarrow> bool \<Rightarrow> gostring \<Rightarrow> DeviationPolicy dact" where
  "LoadDeviationPolicy e reader tenant =
     (let p = DefaultDeviationPolicy tenant; pos = (\<lambda>v. Fin 0 < v);
          f = (\<lambda>key dflt. GetFloat e tenant (''deviation.'' @ key) dflt) in
      if \<not> reader then ret p else
      andThen (override (f ''max_distance_meters'' (MaxDistanceMeters p)) pos (\<lambda>v p. p\<lparr>MaxDistanceMeters := v\<rparr>) p) (\<lambda>p.
      andThen (override (f ''return_distance_meters'' (ReturnDistanceMeters p)) pos (\<lambda>v p. p\<lparr>ReturnDistanceMeters := v\<rparr>) p) (\<lambda>p.
      andThen (override (f ''sustained_duration_seconds'' (SustainedDurationSec p)) pos (\<lambda>v p. p\<lparr>SustainedDurationSec := v\<rparr>) p) (\<lambda>p.
      andThen (override (f ''min_streak_count'' (float_of_int (MinStreakCount p))) pos
                 (\<lambda>v p. p\<lparr>MinStreakCount := sint (int64_of_float v)\<rparr>) p) (\<lambda>p.
      andThen (override (f ''max_gps_accuracy_meters'' (MaxAccuracyMeters p)) pos (\<lambda>v p. p\<lparr>MaxAccuracyMeters := v\<rparr>) p) (\<lambda>p.
      andThen (override (f ''max_feasible_speed_jump_kmh'' (MaxFeasibleSpeedKmh p)) pos (\<lambda>v p. p\<lparr>MaxFeasibleSpeedKmh := v\<rparr>) p) (\<lambda>p.
      andThen (override (f ''min_moving_speed_kmh'' (MinMovingSpeedKmh p)) (\<lambda>v. Fin 0 \<le> v) (\<lambda>v p. p\<lparr>MinMovingSpeedKmh := v\<rparr>) p) (\<lambda>p.
      override (GetDurationMinutes e tenant ''deviation.cooldown_minutes'' (CooldownDuration p)) (\<lambda>v. 0 < v)
        (\<lambda>v p. p\<lparr>CooldownDuration := v\<rparr>) p))))))))"

definition LoadRouteCorridor :: "env \<Rightarrow> gostring \<Rightarrow> RouteCorridor dact" where
  "LoadRouteCorridor e k =
     (if k = '''' then fail (ErrMsg ''empty route_id'')
      else andThen (wrap (''load route '' @ k @ '': '') (andThen (query e (\<lambda>d. find (\<lambda>r. rt_ID r = k) (dev_routes d))) (\<lambda>r.
             case r of None \<Rightarrow> fail (ErrSentinel ''sql: no rows in result set'') | Some r \<Rightarrow> ret r))) (\<lambda>r.
           let c = \<lparr>cor_RouteID = k, cor_Source = rt_source r, cor_Dest = rt_destination r, DistanceKM = rt_distance r,
                    Waypoints = []\<rparr> in
           andThen (attempt (query e (\<lambda>d. find (\<lambda>l. rl_route_id l = k) (locations d)))) (\<lambda>r.
             ret (case r of
                 Inr (Some l) \<Rightarrow>
                   if \<not> (feq (Lat (source_at l)) (Fin 0) \<and> feq (Lng (source_at l)) (Fin 0)
                         \<and> feq (Lat (dest_at l)) (Fin 0) \<and> feq (Lng (dest_at l)) (Fin 0))
                   then c\<lparr>Waypoints := [source_at l, dest_at l]\<rparr> else c
               | _ \<Rightarrow> c))))"

text \<open>A row scanned into strings: a null column is an error, like no row at all.\<close>

definition scan_trip :: "dev_trip \<Rightarrow> tripMetadata option" where
  "scan_trip t =
     (case (dt_VehicleID t, dt_DriverID t) of
        (Some v, Some dr) \<Rightarrow> Some \<lparr>tm_ID = dt_ID t, tm_TenantID = dt_TenantID t, tm_RouteID = dt_RouteID t,
          tm_VehicleID = v, tm_DriverID = dr, tm_Status = dt_Status t\<rparr>
      | _ \<Rightarrow> None)"

definition trip_by_id :: "gostring \<Rightarrow> dev_db \<Rightarrow> tripMetadata option" where
  "trip_by_id k d = Option.bind (find (\<lambda>t. dt_ID t = k) (dev_trips d)) scan_trip"

definition active_trip_of :: "gostring \<Rightarrow> dev_db \<Rightarrow> tripMetadata option" where
  "active_trip_of vehicle d =
     (case sort_key (\<lambda>t. - dt_CreatedAt t) (filter (\<lambda>t. dt_VehicleID t = Some vehicle
        \<and> dt_Status t \<in> {''assigned'', ''started'', ''reached_pickup'', ''in_transit''}) (dev_trips d)) of
        [] \<Rightarrow> None
      | t # _ \<Rightarrow> scan_trip t)"

definition no_error :: "goerr + 'a option \<Rightarrow> 'a option" where
  "no_error r = (case r of Inl _ \<Rightarrow> None | Inr x \<Rightarrow> x)"

definition resolveActiveTrip :: "env \<Rightarrow> gostring \<Rightarrow> gostring \<Rightarrow> tripMetadata option dact" where
  "resolveActiveTrip e trip vehicle =
     andThen (if trip = '''' then ret None else andThen (attempt (query e (trip_by_id trip))) (\<lambda>r. ret (no_error r))) (\<lambda>found.
       case found of
         Some t \<Rightarrow> ret (Some t)
       | None \<Rightarrow> if vehicle = '''' then ret None
           else andThen (attempt (query e (active_trip_of vehicle))) (\<lambda>r. ret (no_error r)))"

section \<open>The engine\<close>

definition insert_alert :: "dev_alert \<Rightarrow> dev_db \<Rightarrow> goerr + nat \<times> dev_db" where
  "insert_alert a d =
     (if da_id a \<in> da_id ` set (dev_alerts d) then Inr (0, d) else Inr (1, d\<lparr>dev_alerts := dev_alerts d @ [a]\<rparr>))"

definition insert_dev_event :: "dev_outbox \<Rightarrow> dev_db \<Rightarrow> goerr + nat \<times> dev_db" where
  "insert_dev_event o' d =
     (if do_id o' \<in> do_id ` set (dev_events d) then Inr (0, d) else Inr (1, d\<lparr>dev_events := dev_events d @ [o']\<rparr>))"

text \<open>Rows affected by a statement whose error is only logged.\<close>

definition affected :: "nat dact \<Rightarrow> nat dact" where
  "affected m = andThen (attempt m) (\<lambda>r. ret (case r of Inl _ \<Rightarrow> 0 | Inr n \<Rightarrow> n))"

definition the_alert :: "dev_engine \<Rightarrow> TelemetryPoint \<Rightarrow> tripMetadata \<Rightarrow> RouteCorridor \<Rightarrow> float64 \<Rightarrow> dev_alert" where
  "the_alert en pt t c distM =
     \<lparr>da_id = ''dev_'' @ tm_ID t @ ''_'' @ tm_VehicleID t @ ''_'' @ unix_text en (pt_Timestamp pt), da_trip = tm_ID t,
      da_vehicle = tm_VehicleID t, da_driver = tm_DriverID t,
      da_details = Deviating_by (tm_VehicleID t) (fdiv distM (F 1000)) (cor_Source c) (cor_Dest c),
      da_lat = pt_Latitude pt, da_lng = pt_Longitude pt, da_at = pt_Timestamp pt\<rparr>"

definition raise_alert :: "env \<Rightarrow> dev_engine \<Rightarrow> TelemetryPoint \<Rightarrow> gostring \<Rightarrow> tripMetadata \<Rightarrow> RouteCorridor \<Rightarrow> float64 \<Rightarrow> unit dact" where
  "raise_alert e en pt tenant t c distM =
     (let a = the_alert en pt t c distM;
          pl = \<lparr>pl_alert = a, pl_tenant = tenant, deviation_m = distM, pl_route = tm_RouteID t\<rparr> in
      andThen (affected (exec_count e (insert_alert a))) (\<lambda>rowsAlert.
      andThen (affected (exec_count e (insert_dev_event \<lparr>do_id = ''ob_'' @ da_id a, do_aggregate = tm_ID t, do_payload = pl\<rparr>))) (\<lambda>rowsOutbox.
        if (0 < rowsAlert \<or> 0 < rowsOutbox) \<and> event_bus en
        then poke (\<lambda>d. d\<lparr>dev_published := dev_published d @ [GPSDeviationAlert pl, TelemetryAlertEvent a tenant]\<rparr>)
        else ret ())))"

definition bound_to :: "TelemetryPoint \<Rightarrow> tripMetadata \<Rightarrow> bool" where
  "bound_to pt t \<longleftrightarrow>
     tm_Status t \<notin> {''completed'', ''delivered'', ''cancelled''}
     \<and> \<not> (pt_VehicleID pt \<noteq> '''' \<and> tm_VehicleID t \<noteq> '''' \<and> pt_VehicleID pt \<noteq> tm_VehicleID t)
     \<and> \<not> (pt_DriverID pt \<noteq> '''' \<and> tm_DriverID t \<noteq> '''' \<and> pt_DriverID pt \<noteq> tm_DriverID t)"

definition tenant_of :: "dev_engine \<Rightarrow> TelemetryPoint \<Rightarrow> tripMetadata \<Rightarrow> gostring" where
  "tenant_of en pt t =
     (if pt_TenantID pt \<noteq> '''' then pt_TenantID pt else if tm_TenantID t \<noteq> '''' then tm_TenantID t else ctx_tenant en)"

definition tracker_of :: "tripMetadata \<Rightarrow> dev_db \<Rightarrow> TripDeviationTracker" where
  "tracker_of t d = (case trackers d (tm_ID t) of Some tr \<Rightarrow> tr
     | None \<Rightarrow> NewTripDeviationTracker (tm_ID t) (tm_VehicleID t) (tm_DriverID t))"

definition step_tracker :: "gomath \<Rightarrow> env \<Rightarrow> dev_engine \<Rightarrow> TelemetryPoint \<Rightarrow> gostring \<Rightarrow> tripMetadata \<Rightarrow> DeviationPolicy \<Rightarrow> RouteCorridor
    \<Rightarrow> (DeviationState \<times> float64) dact" where
  "step_tracker ma e en pt tenant t p c =
     andThen (if IsZero (pt_Timestamp pt) then clock e else ret (pt_Timestamp pt)) (\<lambda>ts.
       let pt = pt\<lparr>pt_Timestamp := ts\<rparr> in
       andThen (peek (tracker_of t)) (\<lambda>tr.
         let (tr1, distM, st, alert) =
           Step ma p (Some c) (pt_Latitude pt) (pt_Longitude pt) (pt_Speed pt) (pt_Accuracy pt) (pt_Timestamp pt) tr in
         andThen (poke (\<lambda>d. d\<lparr>trackers := (trackers d)(tm_ID t := Some tr1)\<rparr>)) (\<lambda>_.
         andThen (if alert then raise_alert e en pt tenant t c distM else ret ()) (\<lambda>_. ret (st, distM)))))"

definition ProcessTelemetry :: "gomath \<Rightarrow> env \<Rightarrow> dev_engine \<Rightarrow> TelemetryPoint \<Rightarrow> (DeviationState \<times> float64) dact" where
  "ProcessTelemetry ma e en pt =
     (if pt_TripID pt = '''' \<and> pt_VehicleID pt = '''' then ret (OnRoute, Fin 0)
      else andThen (resolveActiveTrip e (pt_TripID pt) (pt_VehicleID pt)) (\<lambda>found.
        case found of
          None \<Rightarrow> ret (OnRoute, Fin 0)
        | Some t \<Rightarrow>
            if \<not> bound_to pt t then ret (OnRoute, Fin 0)
            else let tenant = tenant_of en pt t in
              if tenant = '''' then fail (ErrMsg ''deviation: tenant required'')
              else andThen (LoadDeviationPolicy e (configReader en) tenant) (\<lambda>p.
                   andThen (attempt (LoadRouteCorridor e (tm_RouteID t))) (\<lambda>rc.
                     case rc of
                       Inl _ \<Rightarrow> ret (OnRoute, Fin 0)
                     | Inr c \<Rightarrow> if length (Waypoints c) < 2 then ret (OnRoute, Fin 0)
                         else step_tracker ma e en pt tenant t p c))))"

definition ResetTripTracker :: "gostring \<Rightarrow> unit dact" where
  "ResetTripTracker k = poke (\<lambda>d. d\<lparr>trackers := (trackers d)(k := None)\<rparr>)"

definition GetTrackerState :: "gostring \<Rightarrow> (DeviationState \<times> bool) dact" where
  "GetTrackerState k = peek (\<lambda>d. case trackers d k of None \<Rightarrow> (OnRoute, False) | Some t \<Rightarrow> (trk_State t, True))"

end
