(* ===== verification/DeviationProps.thy ===== *)
theory DeviationProps
  imports Deviation
begin

text \<open>
  Alerts of the deviation tracker are justified by the fixes before them; the engine publishes what it
  records and records no alert twice; and an alert that cannot be recorded is lost.
\<close>

section \<open>The tracker over a sequence of fixes\<close>

definition admitted :: "gomath \<Rightarrow> DeviationPolicy \<Rightarrow> TelemetryPoint \<Rightarrow> TripDeviationTracker \<Rightarrow> bool" where
  "admitted ma p pt t \<longleftrightarrow>
     \<not> poor_accuracy p (pt_Accuracy pt) \<and> \<not> impossible_jump ma p t (pt_Latitude pt) (pt_Longitude pt) (pt_Timestamp pt)"

definition step_on :: "gomath \<Rightarrow> DeviationPolicy \<Rightarrow> RouteCorridor \<Rightarrow> TelemetryPoint \<Rightarrow> TripDeviationTracker
    \<Rightarrow> TripDeviationTracker \<times> float64 \<times> DeviationState \<times> bool" where
  "step_on ma p c pt = Step ma p (Some c) (pt_Latitude pt) (pt_Longitude pt) (pt_Speed pt) (pt_Accuracy pt) (pt_Timestamp pt)"

text \<open>The tracker at the end, and the fixes it admitted, each with whether it raised an alert.\<close>

fun dev_run :: "gomath \<Rightarrow> DeviationPolicy \<Rightarrow> RouteCorridor \<Rightarrow> TripDeviationTracker \<Rightarrow> TelemetryPoint list
    \<Rightarrow> TripDeviationTracker \<times> (TelemetryPoint \<times> bool) list" where
  "dev_run ma p c t [] = (t, [])"
| "dev_run ma p c t (pt # pts) =
     (case step_on ma p c pt t of (t1, _, _, alert) \<Rightarrow>
        case dev_run ma p c t1 pts of (t2, out) \<Rightarrow> (t2, if admitted ma p pt t then (pt, alert) # out else out))"

lemma dev_run_snoc:
  "dev_run ma p c t (pts @ [pt]) =
     (case dev_run ma p c t pts of (t1, out) \<Rightarrow>
        case step_on ma p c pt t1 of (t2, _, _, alert) \<Rightarrow> (t2, if admitted ma p pt t1 then out @ [(pt, alert)] else out))"
  by (induction pts arbitrary: t) (auto split: prod.splits)

text \<open>A fix that a gate discards leaves the tracker as it was.\<close>

lemma discarded:
  "\<not> admitted ma p pt t \<Longrightarrow> step_on ma p c pt t = (t, Fin 0, trk_State t, False)"
  by (auto simp: step_on_def Step_def admitted_def)

lemma step_on_admitted:
  assumes "2 \<le> length (Waypoints c)" and "admitted ma p pt t" and "step_on ma p c pt t = (t1, d, st, alert)"
  shows "d = DistanceToPoint ma c (pt_Latitude pt) (pt_Longitude pt)"
    and "step_state p d (pt_Timestamp pt) (fix_seen (pt_Latitude pt) (pt_Longitude pt) (pt_Timestamp pt) t) = (t1, alert)"
  using assms by (auto simp: step_on_def Step_def admitted_def Let_def split: prod.splits)

section \<open>Every alert is justified\<close>

text \<open>How far from the corridor a fix is.\<close>

definition off :: "gomath \<Rightarrow> RouteCorridor \<Rightarrow> TelemetryPoint \<times> bool \<Rightarrow> float64" where
  "off ma c x = DistanceToPoint ma c (pt_Latitude (fst x)) (pt_Longitude (fst x))"

definition excursion :: "gomath \<Rightarrow> DeviationPolicy \<Rightarrow> RouteCorridor \<Rightarrow> (TelemetryPoint \<times> bool) list \<Rightarrow> bool" where
  "excursion ma p c xs \<longleftrightarrow> xs \<noteq> [] \<and> MaxDistanceMeters p < off ma c (hd xs)
     \<and> (\<forall>x \<in> set (tl xs). \<not> off ma c x \<le> ReturnDistanceMeters p)"

lemma excursion_snoc: "excursion ma p c xs \<Longrightarrow> \<not> off ma c x \<le> ReturnDistanceMeters p \<Longrightarrow> excursion ma p c (xs @ [x])"
  by (cases xs) (auto simp: excursion_def)

definition quiet :: "(TelemetryPoint \<times> bool) list \<Rightarrow> bool" where
  "quiet xs \<longleftrightarrow> (\<forall>x \<in> set xs. \<not> snd x)"

text \<open>The first alert of an excursion, and one after a cooldown.\<close>

definition first_alert :: "DeviationPolicy \<Rightarrow> (TelemetryPoint \<times> bool) list \<Rightarrow> TelemetryPoint \<Rightarrow> bool" where
  "first_alert p run pt \<longleftrightarrow> quiet run \<and> MinStreakCount p \<le> 1 + int (length run)
     \<and> SustainedDurationSec p \<le> Seconds (time_Sub (pt_Timestamp pt) (pt_Timestamp (fst (hd run))))"

definition again_alert :: "DeviationPolicy \<Rightarrow> (TelemetryPoint \<times> bool) list \<Rightarrow> TelemetryPoint \<Rightarrow> bool" where
  "again_alert p run pt \<longleftrightarrow> (\<exists>mid h rest. run = mid @ h # rest \<and> mid \<noteq> [] \<and> snd h \<and> quiet rest
     \<and> 0 < CooldownDuration p \<and> CooldownDuration p \<le> time_Sub (pt_Timestamp pt) (pt_Timestamp (fst h)))"

definition justified :: "gomath \<Rightarrow> DeviationPolicy \<Rightarrow> RouteCorridor \<Rightarrow> (TelemetryPoint \<times> bool) list \<Rightarrow> TelemetryPoint \<times> bool \<Rightarrow> bool" where
  "justified ma p c before x \<longleftrightarrow> (\<exists>pre run. before = pre @ run \<and> run \<noteq> [] \<and> excursion ma p c (run @ [x])
     \<and> (first_alert p run (fst x) \<or> again_alert p run (fst x)))"

text \<open>What the tracker remembers of the fixes it admitted.\<close>

definition tracker_inv :: "gomath \<Rightarrow> DeviationPolicy \<Rightarrow> RouteCorridor \<Rightarrow> TripDeviationTracker \<Rightarrow> (TelemetryPoint \<times> bool) list \<Rightarrow> bool" where
  "tracker_inv ma p c t out \<longleftrightarrow>
     (case trk_State t of
        OnRoute \<Rightarrow> True
      | ReturnedToRoute \<Rightarrow> True
      | Sustained \<Rightarrow> False
      | Deviating \<Rightarrow> (\<exists>pre run. out = pre @ run \<and> excursion ma p c run \<and> quiet run \<and> StreakCount t = int (length run)
          \<and> DeviationStart t = pt_Timestamp (fst (hd run)))
      | Alerted \<Rightarrow> (\<exists>pre mid h rest. out = pre @ mid @ h # rest \<and> mid \<noteq> [] \<and> excursion ma p c (mid @ h # rest) \<and> snd h
          \<and> quiet rest \<and> LastAlertAt t = pt_Timestamp (fst h)))"

lemma wider_sel [simp]:
  "trk_State (wider d t) = trk_State t" "StreakCount (wider d t) = StreakCount t"
  "DeviationStart (wider d t) = DeviationStart t" "LastAlertAt (wider d t) = LastAlertAt t"
  by (simp_all add: wider_def)

lemma fix_seen_sel [simp]:
  "trk_State (fix_seen a b ts t) = trk_State t" "StreakCount (fix_seen a b ts t) = StreakCount t"
  "DeviationStart (fix_seen a b ts t) = DeviationStart t" "LastAlertAt (fix_seen a b ts t) = LastAlertAt t"
  by (simp_all add: fix_seen_def)

lemma new_tracker_inv:
  assumes "trk_State t = OnRoute \<or> trk_State t = ReturnedToRoute"
    and "step_state p (off ma c (pt, alert)) (pt_Timestamp pt) (fix_seen a b (pt_Timestamp pt) t) = (t1, alert)"
  shows "tracker_inv ma p c t1 (out @ [(pt, alert)]) \<and> \<not> alert"
proof (cases "MaxDistanceMeters p < off ma c (pt, alert)")
  case True
  then have t1: "trk_State t1 = Deviating" "StreakCount t1 = 1" "DeviationStart t1 = pt_Timestamp pt" "\<not> alert"
    using assms by (auto simp: step_state_def)
  have "tracker_inv ma p c t1 (out @ [(pt, alert)])"
    unfolding tracker_inv_def t1(1) DeviationState.case
    by (intro exI [of _ out] exI [of _ "[(pt, alert)]"]) (use t1 True in \<open>simp add: excursion_def quiet_def\<close>)
  then show ?thesis using t1(4) by blast
next
  case False
  then show ?thesis using assms by (auto simp: step_state_def tracker_inv_def)
qed

lemma step_inv:
  assumes inv: "tracker_inv ma p c t out"
    and step: "step_state p (off ma c (pt, alert)) (pt_Timestamp pt) (fix_seen a b (pt_Timestamp pt) t) = (t1, alert)"
  shows "tracker_inv ma p c t1 (out @ [(pt, alert)]) \<and> (alert \<longrightarrow> justified ma p c out (pt, alert))"
proof (cases "trk_State t")
  case Deviating
  then obtain pre run where run: "out = pre @ run" "excursion ma p c run" "quiet run" "StreakCount t = int (length run)"
      "DeviationStart t = pt_Timestamp (fst (hd run))"
    using inv by (auto simp: tracker_inv_def)
  show ?thesis
  proof (cases "off ma c (pt, alert) \<le> ReturnDistanceMeters p")
    case True
    then show ?thesis using step Deviating by (auto simp: step_state_def tracker_inv_def)
  next
    case False
    note ex = excursion_snoc [OF run(2) False]
    have ne: "run \<noteq> []" using run(2) by (simp add: excursion_def)
    show ?thesis
    proof (cases alert)
      case True
      then have t1: "trk_State t1 = Alerted" "LastAlertAt t1 = pt_Timestamp pt"
          "MinStreakCount p \<le> 1 + int (length run)"
          "SustainedDurationSec p \<le> Seconds (time_Sub (pt_Timestamp pt) (pt_Timestamp (fst (hd run))))"
        using step Deviating False run(4,5) by (auto simp: step_state_def Let_def split: if_splits)
      have "justified ma p c out (pt, alert)"
        unfolding justified_def first_alert_def using run(1,3) ne ex t1(3,4) by (intro exI [of _ pre] exI [of _ run]) simp
      moreover have "tracker_inv ma p c t1 (out @ [(pt, alert)])"
        using t1(1,2) run(1) ne ex True unfolding tracker_inv_def
        by (simp add: quiet_def) (metis append.assoc fst_conv list.set(1) snd_conv empty_iff)
      ultimately show ?thesis by blast
    next
      case False
      then have "trk_State t1 = Deviating" "StreakCount t1 = int (length run) + 1" "DeviationStart t1 = DeviationStart t"
        using step Deviating \<open>\<not> off ma c (pt, alert) \<le> _\<close> run(4) by (auto simp: step_state_def Let_def split: if_splits)
      then show ?thesis using run ex ne False unfolding tracker_inv_def
        by simp (intro exI [of _ pre] exI [of _ "run @ [(pt, False)]"], simp add: quiet_def)
    qed
  qed
next
  case Alerted
  then obtain pre mid h rest where run: "out = pre @ mid @ h # rest" "mid \<noteq> []" "excursion ma p c (mid @ h # rest)" "snd h"
      "quiet rest" "LastAlertAt t = pt_Timestamp (fst h)"
    using inv by (auto simp: tracker_inv_def)
  show ?thesis
  proof (cases "off ma c (pt, alert) \<le> ReturnDistanceMeters p")
    case True
    then show ?thesis using step Alerted by (auto simp: step_state_def tracker_inv_def)
  next
    case False
    note ex = excursion_snoc [OF run(3) False]
    show ?thesis
    proof (cases alert)
      case True
      then have t1: "trk_State t1 = Alerted" "LastAlertAt t1 = pt_Timestamp pt" "0 < CooldownDuration p"
          "CooldownDuration p \<le> time_Sub (pt_Timestamp pt) (pt_Timestamp (fst h))"
        using step Alerted False run(6) by (auto simp: step_state_def Let_def split: if_splits)
      have "justified ma p c out (pt, alert)"
        unfolding justified_def
      proof (intro exI conjI disjI2)
        show "again_alert p (mid @ h # rest) (fst (pt, alert))"
          unfolding again_alert_def using run(2,4,5) t1(3,4)
          by (intro exI [of _ mid] exI [of _ h] exI [of _ rest]) simp
        show "excursion ma p c ((mid @ h # rest) @ [(pt, alert)])" by (rule ex)
      qed (use run(1) in simp_all)
      moreover have "tracker_inv ma p c t1 (out @ [(pt, alert)])"
        unfolding tracker_inv_def t1(1) DeviationState.case
        by (intro exI [of _ pre] exI [of _ "mid @ h # rest"] exI [of _ "(pt, True)"] exI [of _ "[]"])
          (use t1(2) run(1) ex True in \<open>simp add: quiet_def\<close>)
      ultimately show ?thesis by blast
    next
      case False
      then have t1: "trk_State t1 = Alerted" "LastAlertAt t1 = LastAlertAt t"
        using step Alerted \<open>\<not> off ma c (pt, alert) \<le> _\<close> by (auto simp: step_state_def Let_def split: if_splits)
      have "tracker_inv ma p c t1 (out @ [(pt, alert)])"
        unfolding tracker_inv_def t1(1) DeviationState.case
        by (intro exI [of _ pre] exI [of _ mid] exI [of _ h] exI [of _ "rest @ [(pt, alert)]"])
          (use t1(2) run ex False in \<open>simp add: quiet_def\<close>)
      then show ?thesis using False by blast
    qed
  qed
next
  case Sustained
  then show ?thesis using inv by (simp add: tracker_inv_def)
qed (use new_tracker_inv [OF _ step, of out] in blast)+

definition all_justified :: "gomath \<Rightarrow> DeviationPolicy \<Rightarrow> RouteCorridor \<Rightarrow> (TelemetryPoint \<times> bool) list \<Rightarrow> bool" where
  "all_justified ma p c out \<longleftrightarrow> (\<forall>before x after. out = before @ x # after \<longrightarrow> snd x \<longrightarrow> justified ma p c before x)"

lemma all_justified_snoc:
  "all_justified ma p c out \<Longrightarrow> (snd y \<Longrightarrow> justified ma p c out y) \<Longrightarrow> all_justified ma p c (out @ [y])"
  by (auto simp: all_justified_def append_eq_append_conv2 append_eq_Cons_conv Cons_eq_append_conv)

lemma run_inv:
  assumes "2 \<le> length (Waypoints c)"
  shows "dev_run ma p c (NewTripDeviationTracker k v dr) pts = (t, out) \<Longrightarrow> tracker_inv ma p c t out \<and> all_justified ma p c out"
proof (induction pts arbitrary: t out rule: rev_induct)
  case Nil
  then show ?case by (auto simp: tracker_inv_def NewTripDeviationTracker_def all_justified_def)
next
  case (snoc pt pts)
  obtain t1 out1 where run: "dev_run ma p c (NewTripDeviationTracker k v dr) pts = (t1, out1)" by fastforce
  obtain t2 d st alert where step: "step_on ma p c pt t1 = (t2, d, st, alert)" by (cases "step_on ma p c pt t1") auto
  note IH = snoc.IH [OF run]
  show ?case
  proof (cases "admitted ma p pt t1")
    case True
    note st = step_on_admitted [OF assms True step]
    have "tracker_inv ma p c t2 (out1 @ [(pt, alert)]) \<and> (alert \<longrightarrow> justified ma p c out1 (pt, alert))"
      using step_inv [of ma p c t1 out1 pt alert "pt_Latitude pt" "pt_Longitude pt" t2] IH st by (simp add: off_def)
    then show ?thesis using snoc.prems run step True IH by (auto simp: dev_run_snoc intro!: all_justified_snoc)
  next
    case False
    then show ?thesis using snoc.prems run step IH discarded [OF False, of c] by (simp add: dev_run_snoc)
  qed
qed

text \<open>
  C36: on every sequence of fixes of a trip whose route has a corridor, an alert ends an excursion: a run
  of admitted fixes of which the first was farther out than the limit and none came back within the
  return distance. It is the first alert of that run, which then has at least two fixes, at least the
  streak of the policy, and lasted at least the sustained duration; or the last alert of the run
  was a cooldown ago. The cooldown keeps the alerts of one excursion apart; the first alert of the next
  excursion does not wait for it. Fixes that a gate discards, for their accuracy or as an impossible jump,
  count for nothing: not in the run, and the tracker is as before them.
\<close>

theorem deviation_alerts:
  assumes "2 \<le> length (Waypoints c)"
    and "dev_run ma p c (NewTripDeviationTracker k v dr) pts = (t, before @ (pt, True) # after)"
  shows "\<exists>pre run. before = pre @ run \<and> run \<noteq> [] \<and> excursion ma p c (run @ [(pt, True)])
    \<and> (first_alert p run pt \<or> again_alert p run pt)"
  using run_inv [OF assms] unfolding all_justified_def justified_def by fastforce

section \<open>The engine\<close>

text \<open>What a call adds: at most one row of each table, under the key of the alert, and events exactly for new rows.\<close>

definition recorded_by :: "dev_engine \<Rightarrow> dev_payload \<Rightarrow> bool \<Rightarrow> bool \<Rightarrow> dev_db \<Rightarrow> dev_db \<Rightarrow> bool" where
  "recorded_by en pl newA newO d d' \<longleftrightarrow>
     (let a = pl_alert pl in
        (newA \<or> newO \<longrightarrow> da_id a = ''dev_'' @ da_trip a @ ''_'' @ da_vehicle a @ ''_'' @ unix_text en (da_at a))
      \<and> dev_alerts d' = dev_alerts d @ (if newA then [a] else [])
      \<and> dev_events d' = dev_events d @
          (if newO then [\<lparr>do_id = ''ob_'' @ da_id a, do_aggregate = da_trip a, do_payload = pl\<rparr>] else [])
      \<and> (newA \<longrightarrow> da_id a \<notin> da_id ` set (dev_alerts d)) \<and> (newO \<longrightarrow> ''ob_'' @ da_id a \<notin> do_id ` set (dev_events d))
      \<and> dev_published d' = dev_published d @
          (if (newA \<or> newO) \<and> event_bus en then [GPSDeviationAlert pl, TelemetryAlertEvent a (pl_tenant pl)] else [])
      \<and> dev_trips d' = dev_trips d \<and> dev_routes d' = dev_routes d \<and> locations d' = locations d
      \<and> config_rows d' = config_rows d)"

definition recorded :: "dev_engine \<Rightarrow> dev_db \<Rightarrow> dev_db \<Rightarrow> bool" where
  "recorded en d d' \<longleftrightarrow> (\<exists>pl newA newO. recorded_by en pl newA newO d d')"

lemma recordedI:
  "recorded_by en pl True True d d' \<or> recorded_by en pl True False d d' \<or> recorded_by en pl False True d d'
   \<or> recorded_by en pl False False d d' \<Longrightarrow> recorded en d d'"
  unfolding recorded_def by blast

definition same_tables :: "dev_db \<Rightarrow> dev_db \<Rightarrow> bool" where
  "same_tables d d' \<longleftrightarrow> dev_alerts d' = dev_alerts d \<and> dev_events d' = dev_events d \<and> dev_published d' = dev_published d
     \<and> dev_trips d' = dev_trips d \<and> dev_routes d' = dev_routes d \<and> locations d' = locations d
     \<and> config_rows d' = config_rows d"

lemma same_tables_recorded: "same_tables d d1 \<Longrightarrow> recorded en d1 d2 \<Longrightarrow> recorded en d d2"
  unfolding same_tables_def recorded_def recorded_by_def by simp

lemma same_recorded: "same_tables d d' \<Longrightarrow> recorded en d d'"
  by (rule recordedI) (simp add: same_tables_def recorded_by_def)

lemma same_tables_refl [simp]: "same_tables d d"
  by (simp add: same_tables_def)

lemma same_tables_trans: "same_tables d d1 \<Longrightarrow> same_tables d1 d2 \<Longrightarrow> same_tables d d2"
  by (simp add: same_tables_def)

lemma only_cache_same: "only_cache tenant d d' \<Longrightarrow> same_tables d d'"
  by (auto simp: only_cache_def same_tables_def)

lemma ends_override: "ends get d (\<lambda>r d'. \<forall>q. P (Inr q) d') \<Longrightarrow> ends (override get ok upd p) d P"
  unfolding override_def by (intro ending) (erule ends_mono, simp add: ends_ret)

lemma ends_override_float [ending]:
  "(\<And>q d'. same_tables d d' \<Longrightarrow> P (Inr q) d') \<Longrightarrow> ends (override (GetFloat e tenant key dflt) ok upd p) d P"
  by (intro ends_override ends_GetFloat) (auto dest: only_cache_same)

lemma ends_override_minutes [ending]:
  "(\<And>q d'. same_tables d d' \<Longrightarrow> P (Inr q) d') \<Longrightarrow> ends (override (GetDurationMinutes e tenant key dflt) ok upd p) d P"
  by (intro ends_override ends_GetDurationMinutes) (auto dest: only_cache_same)

lemma ends_LoadDeviationPolicy [ending]:
  assumes "\<And>p d'. same_tables d d' \<Longrightarrow> P (Inr p) d'"
  shows "ends (LoadDeviationPolicy e reader tenant) d P"
  unfolding LoadDeviationPolicy_def by (intro ending assms) (simp_all add: same_tables_def)

lemma ends_LoadRouteCorridor [ending]:
  "(\<And>err. P (Inl err) d) \<Longrightarrow> (\<And>c. P (Inr c) d) \<Longrightarrow> ends (LoadRouteCorridor e k) d P"
  unfolding LoadRouteCorridor_def by (intro ending)

lemma ends_resolveActiveTrip [ending]: "(\<And>t. P (Inr t) d) \<Longrightarrow> ends (resolveActiveTrip e trip vehicle) d P"
  unfolding resolveActiveTrip_def by (intro ending)

text \<open>A statement that adds a row under a new key, or fails.\<close>

lemma ends_insert_alert [ending]:
  assumes "P (Inr 0) d" and "da_id a \<notin> da_id ` set (dev_alerts d) \<Longrightarrow> P (Inr 1) (d\<lparr>dev_alerts := dev_alerts d @ [a]\<rparr>)"
  shows "ends (affected (exec_count e (insert_alert a))) d P"
  unfolding affected_def by (intro ending) (use assms in \<open>auto simp: insert_alert_def intro!: ends_ret split: if_splits\<close>)

lemma ends_insert_event [ending]:
  assumes "P (Inr 0) d" and "do_id a \<notin> do_id ` set (dev_events d) \<Longrightarrow> P (Inr 1) (d\<lparr>dev_events := dev_events d @ [a]\<rparr>)"
  shows "ends (affected (exec_count e (insert_dev_event a))) d P"
  unfolding affected_def by (intro ending) (use assms in \<open>auto simp: insert_dev_event_def intro!: ends_ret split: if_splits\<close>)

lemma ends_raise_alert [ending]:
  assumes "\<And>d'. recorded en d d' \<Longrightarrow> P (Inr ()) d'"
  shows "ends (raise_alert e en pt tenant t c distM) d P"
proof -
  note the_payload = recordedI [where pl = "\<lparr>pl_alert = the_alert en pt t c distM, pl_tenant = tenant,
    deviation_m = distM, pl_route = tm_RouteID t\<rparr>"]
  show ?thesis
    unfolding raise_alert_def
    by (intro ending assms the_payload) (simp_all add: recorded_by_def the_alert_def)
qed

lemma ends_step_tracker [ending]:
  assumes "\<And>r d'. recorded en d d' \<Longrightarrow> P (Inr r) d'"
  shows "ends (step_tracker ma e en pt tenant t p c) d P"
proof -
  have same: "recorded en (d\<lparr>trackers := x\<rparr>) d' \<Longrightarrow> recorded en d d'" for x d'
    by (erule same_tables_recorded [rotated]) (simp add: same_tables_def)
  show ?thesis
    unfolding step_tracker_def
    by (intro ending) (auto split: prod.splits intro!: ending assms intro: same same_recorded simp: same_tables_def)
qed

text \<open>
  C37: whatever fails in the database, a call of the engine fails only where no tenant is known. It adds at
  most one alert and one outbox row, each under a key that is new in its table and made of trip,
  vehicle and second, and publishes the
  alert's two events exactly when it added a row and there is a bus; trips, routes and configuration stay.
\<close>

theorem deviation_recorded:
  assumes "ProcessTelemetry ma e en pt w = (r, w')"
  shows "recorded en (db w) (db w') \<and> (r = Inl err \<longrightarrow> err = ErrMsg ''deviation: tenant required'')"
proof -
  have "ends (ProcessTelemetry ma e en pt) (db w)
      (\<lambda>r d'. recorded en (db w) d' \<and> (r = Inl err \<longrightarrow> err = ErrMsg ''deviation: tenant required''))"
    unfolding ProcessTelemetry_def
    by (intro ending) (auto intro!: ending intro: same_recorded same_tables_recorded)
  from endsD [OF this, unfolded assms fst_conv snd_conv] show ?thesis .
qed

text \<open>
  The tracker has stepped before the rows are written: when both statements fail nothing is published, and
  the tracker, now alerted, keeps quiet until the cooldown is over.
\<close>

lemma alert_lost:
  assumes "db_fails e (tick w) \<noteq> None" and "db_fails e (Suc (tick w)) \<noteq> None"
  shows "\<exists>w'. raise_alert e en pt tenant t c distM w = (Inr (), w') \<and> db w' = db w"
  using assms by (auto simp: raise_alert_def affected_def andThen_def attempt_def exec_count_def Let_def ret_def)

section \<open>Example\<close>

definition ex_corridor :: RouteCorridor where
  "ex_corridor = \<lparr>cor_RouteID = ''r'', cor_Source = ''a'', cor_Dest = ''b'', DistanceKM = Fin 1,
     Waypoints = [\<lparr>Lat = Fin 0, Lng = Fin 0\<rparr>, \<lparr>Lat = Fin 0, Lng = Fin 1\<rparr>]\<rparr>"

definition far_math :: gomath where
  "far_math = \<lparr>math_Sin = (\<lambda>_. Fin 0), math_Cos = (\<lambda>_. Fin 1), math_Asin = (\<lambda>_. Fin 0), math_Atan2 = (\<lambda>_ _. Fin 0),
     math_Sqrt = (\<lambda>_. Fin 0), math_Hypot = (\<lambda>_ _. Fin 6000)\<rparr>"

definition ex_point :: "int \<Rightarrow> TelemetryPoint" where
  "ex_point s = \<lparr>pt_TripID = ''t'', pt_VehicleID = ''v'', pt_DriverID = '''', pt_Latitude = Fin 0, pt_Longitude = Fin 0,
     pt_Speed = Fin 0, pt_Accuracy = Fin 0, pt_Timestamp = s * 1000000000, pt_TenantID = ''1''\<rparr>"

lemma far_everywhere [simp]: "PointToSegmentDistance far_math p a b = Fin 6000"
  by (simp add: PointToSegmentDistance_def far_math_def Let_def split: prod.split)

lemma far_off: "DistanceToPoint far_math ex_corridor lat lng = Fin 6000"
  by (simp add: DistanceToPoint_def ex_corridor_def math_MaxFloat64_def)

definition ex_tracker :: TripDeviationTracker where
  "ex_tracker = NewTripDeviationTracker ''t'' ''v'' ''d''"

lemma ex_minute: "Fin 60 \<le> Seconds (time_Sub 62000000000 1000000000)"
  using fl_of_int [of 61] fl_of_int [of 1000000000]
  by (simp add: Seconds_def duration_in_def time_Sub_def Let_def float_of_int_def float_ops)

lemma ex_point_sel [simp]:
  "pt_Latitude (ex_point s) = Fin 0" "pt_Longitude (ex_point s) = Fin 0" "pt_Accuracy (ex_point s) = Fin 0"
  "pt_Timestamp (ex_point s) = s * 1000000000"
  by (simp_all add: ex_point_def)

lemma ex_gates [simp]:
  "\<not> poor_accuracy p (Fin 0)" "trk_LastLat t = Fin 0 \<Longrightarrow> \<not> impossible_jump far_math p t lat lng ts"
  by (simp_all add: poor_accuracy_def impossible_jump_def feq_def)

lemma ex_waypoints [simp]: "length (Waypoints ex_corridor) = 2"
  by (simp add: ex_corridor_def)

lemma ex_alert:
  "snd (dev_run far_math (DefaultDeviationPolicy ''1'') ex_corridor (NewTripDeviationTracker ''t'' ''v'' ''d'')
     [ex_point 1, ex_point 62]) = [(ex_point 1, False)] @ (ex_point 62, True) # []"
  using ex_minute
  by (simp add: step_on_def Step_def far_off step_state_def admitted_def fix_seen_def wider_def Let_def
      NewTripDeviationTracker_def DefaultDeviationPolicy_def)

theorem deviation_alerts_witness:
  "\<exists>pre run. [(ex_point 1, False)] = pre @ run \<and> run \<noteq> []
     \<and> excursion far_math (DefaultDeviationPolicy ''1'') ex_corridor (run @ [(ex_point 62, True)])
     \<and> (first_alert (DefaultDeviationPolicy ''1'') run (ex_point 62) \<or> again_alert (DefaultDeviationPolicy ''1'') run (ex_point 62))"
proof -
  have "dev_run far_math (DefaultDeviationPolicy ''1'') ex_corridor (NewTripDeviationTracker ''t'' ''v'' ''d'')
      [ex_point 1, ex_point 62] = (fst (dev_run far_math (DefaultDeviationPolicy ''1'') ex_corridor
        (NewTripDeviationTracker ''t'' ''v'' ''d'') [ex_point 1, ex_point 62]), [(ex_point 1, False)] @ (ex_point 62, True) # [])"
    by (rule prod_eqI) (simp_all only: fst_conv snd_conv ex_alert)
  from deviation_alerts [OF _ this] show ?thesis by simp
qed

definition ex_dev_env :: env where
  "ex_dev_env = \<lparr>now_at = int, uuid_at = (\<lambda>n. ''''), db_fails = (\<lambda>_. None)\<rparr>"

definition ex_engine :: dev_engine where
  "ex_engine = \<lparr>configReader = True, event_bus = True, ctx_tenant = '''', unix_text = (\<lambda>_. ''0'')\<rparr>"

definition ex_dev_world :: "dev_db world" where
  "ex_dev_world = \<lparr>db = \<lparr>config_rows = [], cache = (\<lambda>_. None), cacheAt = (\<lambda>_. None),
     dev_trips = [\<lparr>dt_ID = ''t'', dt_TenantID = ''1'', dt_RouteID = ''r'', dt_VehicleID = Some ''v'', dt_DriverID = Some ''d'',
       dt_Status = ''in_transit'', dt_CreatedAt = 0\<rparr>],
     dev_routes = [\<lparr>rt_ID = ''r'', rt_source = ''a'', rt_destination = ''b'', rt_distance = Fin 1\<rparr>],
     locations = [\<lparr>rl_route_id = ''r'', source_at = \<lparr>Lat = Fin 0, Lng = Fin 0\<rparr>, dest_at = \<lparr>Lat = Fin 0, Lng = Fin 1\<rparr>\<rparr>],
     dev_alerts = [], dev_events = [], dev_published = [], trackers = (\<lambda>_. None)\<rparr>, tick = 0\<rparr>"

theorem deviation_recorded_witness:
  "recorded ex_engine (db ex_dev_world) (db (snd (ProcessTelemetry far_math ex_dev_env ex_engine (ex_point 1) ex_dev_world)))"
  using deviation_recorded [OF surjective_pairing] by blast

end
