(* ===== verification/Entitle.thy ===== *)
theory Entitle
  imports GoText Ends
begin

text \<open>
  Plans, subscriptions and metered quotas: \<open>entitlement/domain\<close> and \<open>entitlement/application/service.go\<close> over the
  tables of \<open>db/schema.sql\<close>. Instants are UTC and stored to the second; the transaction that a caller
  hands over sees the same tables, as the reads that bypass it read only tables it does not write.
\<close>

section \<open>Data\<close>

type_synonym FeatureKey = gostring
type_synonym QuotaKey = gostring
type_synonym PlanID = gostring

definition QuotaMaxTripsPerMonth :: QuotaKey where
  "QuotaMaxTripsPerMonth = ''max_trips_per_month''"

datatype OpCode =
    OpCreateBooking | OpCreateDispatch | OpCreateVehicle | OpCreateDriver | OpIngestTelemetry
  | OpCompleteStop | OpCompleteTrip | OpIssueInvoice | OpExecuteSettlement | OpReadResource
  | OtherOp gostring

datatype SubscriptionStatus =
    SubTrial | SubActive | SubPastDue | SubGrace | SubReadOnly | SubAccountClosed
  | SubOperationallyTerminated | OtherSub gostring

definition ErrSubscriptionNotFound :: goerr where
  "ErrSubscriptionNotFound = ErrSentinel ''subscription not found for tenant''"

definition ErrPlanNotFound :: goerr where
  "ErrPlanNotFound = ErrSentinel ''subscription plan not found''"

definition ErrQuotaExceeded :: goerr where
  "ErrQuotaExceeded = ErrSentinel ''quota limit exceeded for current billing period''"

definition ErrOperationBlocked :: goerr where
  "ErrOperationBlocked = ErrSentinel ''operation blocked due to subscription status''"

text \<open>
  A column that is compared as text: written by the code as RFC 3339, or by SQLite as
  \<open>CURRENT_TIMESTAMP\<close>, which has a space where RFC 3339 has a \<open>T\<close>.
\<close>

datatype stamp = Iso gotime | Plain gotime

fun stamp_time :: "stamp \<Rightarrow> gotime" where
  "stamp_time (Iso t) = t"
| "stamp_time (Plain t) = t"

definition day_of :: "gotime \<Rightarrow> int" where
  "day_of t = t div 86400000000000"

definition to_second :: "gotime \<Rightarrow> gotime" where
  "to_second t = t div 1000000000 * 1000000000"

fun before_iso :: "stamp \<Rightarrow> gotime \<Rightarrow> bool" where
  "before_iso (Iso t) cutoff \<longleftrightarrow> t < cutoff"
| "before_iso (Plain t) cutoff \<longleftrightarrow> day_of t \<le> day_of cutoff"

record TenantSubscription =
  sub_ID :: gostring
  sub_TenantID :: gostring
  sub_PlanID :: PlanID
  sub_Status :: SubscriptionStatus
  CurrentPeriodStart :: gotime
  CurrentPeriodEnd :: gotime
  TrialEnd :: "gotime option"
  ProviderSubscriptionID :: "gostring option"
  sub_CreatedAt :: gotime
  sub_UpdatedAt :: stamp

text \<open>The JSON of a plan is what it decodes to, if it does.\<close>

record plan_row =
  plan_ID :: PlanID
  plan_Name :: gostring
  plan_Description :: gostring
  MonthlyPriceINR :: float64
  features_json :: "FeatureKey list option"
  quotas_json :: "(QuotaKey \<rightharpoonup> int) option"
  plan_IsActive :: bool

record TenantEntitlementOverride =
  eo_ID :: gostring
  eo_TenantID :: gostring
  EntitlementType :: gostring
  KeyName :: gostring
  OverrideValue :: gostring
  eo_Reason :: gostring
  eo_ExpiresAt :: "gotime option"

record TenantUsageMeter =
  meter_ID :: gostring
  meter_TenantID :: gostring
  meter_QuotaKey :: QuotaKey
  PeriodStart :: gotime
  PeriodEnd :: gotime
  UsedQuantity :: int
  ReservedQuantity :: int
  MaxQuantity :: int

record TenantUsageEvent =
  ue_ID :: gostring
  ue_TenantID :: gostring
  ue_QuotaKey :: QuotaKey
  ue_Quantity :: int
  ue_IdempotencyKey :: gostring
  SourceEntityType :: gostring
  SourceEntityID :: gostring
  ue_Timestamp :: gotime

record webhook_row =
  wh_ID :: gostring
  wh_TenantID :: gostring
  wh_Provider :: gostring
  wh_EventID :: gostring
  wh_EventType :: gostring
  wh_SubscriptionID :: gostring
  wh_EventTimestamp :: gotime
  wh_Status :: gostring

record ent_db =
  subs_t :: "TenantSubscription list"
  plans_t :: "plan_row list"
  ent_overrides :: "TenantEntitlementOverride list"
  meters_t :: "TenantUsageMeter list"
  usage_events :: "TenantUsageEvent list"
  webhooks_t :: "webhook_row list"
  ent_tenants :: "gostring list"

type_synonym 'a eact = "(ent_db, 'a) act"

definition RemainingCapacity :: "TenantUsageMeter \<Rightarrow> int" where
  "RemainingCapacity m =
     (let available = MaxQuantity m - (UsedQuantity m + ReservedQuantity m) in if available < 0 then 0 else available)"

section \<open>Features\<close>

definition GetSubscription :: "env \<Rightarrow> gostring \<Rightarrow> TenantSubscription eact" where
  "GetSubscription e tenant =
     andThen (query e (\<lambda>d. find (\<lambda>s. sub_TenantID s = tenant) (subs_t d))) (\<lambda>r.
       case r of None \<Rightarrow> fail ErrSubscriptionNotFound | Some s \<Rightarrow> ret s)"

definition find_override :: "gostring \<Rightarrow> gostring \<Rightarrow> gostring \<Rightarrow> ent_db \<Rightarrow> TenantEntitlementOverride option" where
  "find_override tenant kind key d =
     find (\<lambda>x. eo_TenantID x = tenant \<and> EntitlementType x = kind \<and> KeyName x = key) (ent_overrides d)"

definition enabled_text :: "gostring \<Rightarrow> bool" where
  "enabled_text v \<longleftrightarrow> v \<in> {''true'', ''enabled'', ''1''}"

definition find_plan :: "PlanID \<Rightarrow> ent_db \<Rightarrow> plan_row option" where
  "find_plan k d = find (\<lambda>p. plan_ID p = k) (plans_t d)"

text \<open>The row of a plan; every failure to read it is that there is none.\<close>

definition plan_json :: "env \<Rightarrow> PlanID \<Rightarrow> (plan_row \<Rightarrow> 'a option) \<Rightarrow> 'a eact" where
  "plan_json e k f =
     andThen (attempt (query e (find_plan k))) (\<lambda>r.
       case r of
         Inr (Some p) \<Rightarrow> (case f p of None \<Rightarrow> fail (ErrMsg ''json'') | Some x \<Rightarrow> ret x)
       | _ \<Rightarrow> fail ErrPlanNotFound)"

definition plan_feature :: "env \<Rightarrow> gostring \<Rightarrow> FeatureKey \<Rightarrow> bool eact" where
  "plan_feature e tenant key =
     andThen (attempt (GetSubscription e tenant)) (\<lambda>r.
       case r of
         Inl err \<Rightarrow> if err = ErrSubscriptionNotFound then ret False else fail err
       | Inr s \<Rightarrow>
           if sub_Status s \<in> {SubReadOnly, SubAccountClosed, SubOperationallyTerminated} then ret False
           else andThen (plan_json e (sub_PlanID s) features_json) (\<lambda>fs. ret (key \<in> set fs)))"

definition HasFeature :: "env \<Rightarrow> gostring \<Rightarrow> FeatureKey \<Rightarrow> bool eact" where
  "HasFeature e tenant key =
     andThen (attempt (query e (find_override tenant ''FEATURE'' key))) (\<lambda>r.
       case r of
         Inr (Some x) \<Rightarrow>
           (case eo_ExpiresAt x of
              None \<Rightarrow> ret (enabled_text (OverrideValue x))
            | Some until \<Rightarrow> andThen (clock e) (\<lambda>now.
                if until < now then plan_feature e tenant key else ret (enabled_text (OverrideValue x))))
       | _ \<Rightarrow> plan_feature e tenant key)"

section \<open>Quotas\<close>

text \<open>\<open>fmt.Sscanf(s, "%d", &n)\<close>: blanks but no line ends, a sign, digits; the rest is not looked at.\<close>

definition scan_int :: "gostring \<Rightarrow> int option" where
  "scan_int s =
     (case take_sign (trim_left (filter (\<lambda>b. b \<noteq> [char_of (10 :: nat)]) white_space) s) of (neg, r) \<Rightarrow>
        let ds = takeWhile (\<lambda>c. dec_digit c \<noteq> None) r;
            n = foldl (\<lambda>n c. 10 * n + (case dec_digit c of Some d \<Rightarrow> int d | None \<Rightarrow> 0)) 0 ds in
        if ds = [] then None
        else if neg then if n \<le> 2 ^ 63 then Some (- n) else None
        else if n < 2 ^ 63 then Some n else None)"

definition plan_quota :: "env \<Rightarrow> PlanID \<Rightarrow> QuotaKey \<Rightarrow> int eact" where
  "plan_quota e k key =
     andThen (plan_json e k quotas_json) (\<lambda>qs. ret (case qs key of None \<Rightarrow> 0 | Some v \<Rightarrow> v))"

definition resolveMaxQuota :: "env \<Rightarrow> gostring \<Rightarrow> PlanID \<Rightarrow> QuotaKey \<Rightarrow> int eact" where
  "resolveMaxQuota e tenant k key =
     andThen (attempt (query e (find_override tenant ''QUOTA'' key))) (\<lambda>r.
       case r of
         Inr (Some x) \<Rightarrow> (case scan_int (OverrideValue x) of Some v \<Rightarrow> ret v | None \<Rightarrow> plan_quota e k key)
       | _ \<Rightarrow> plan_quota e k key)"

definition meter_at :: "gostring \<Rightarrow> QuotaKey \<Rightarrow> gotime \<Rightarrow> TenantUsageMeter \<Rightarrow> bool" where
  "meter_at tenant key now m \<longleftrightarrow> meter_TenantID m = tenant \<and> meter_QuotaKey m = key
     \<and> PeriodStart m \<le> to_second now \<and> to_second now \<le> PeriodEnd m"

definition insert_meter :: "TenantUsageMeter \<Rightarrow> ent_db \<Rightarrow> goerr + ent_db" where
  "insert_meter m d =
     (if meter_ID m \<in> meter_ID ` set (meters_t d) then Inl (ErrMsg ''UNIQUE constraint failed: tenant_usage_meters.id'')
      else if list_ex (\<lambda>x. meter_TenantID x = meter_TenantID m \<and> meter_QuotaKey x = meter_QuotaKey m
             \<and> PeriodStart x = PeriodStart m \<and> PeriodEnd x = PeriodEnd m) (meters_t d)
        then Inl (ErrMsg ''UNIQUE constraint failed: idx_tenant_usage_meters_period'')
      else if meter_TenantID m \<notin> set (ent_tenants d) then Inl (ErrMsg ''FOREIGN KEY constraint failed'')
      else Inr (d\<lparr>meters_t := meters_t d @ [m]\<rparr>))"

definition new_meter :: "gostring \<Rightarrow> gostring \<Rightarrow> QuotaKey \<Rightarrow> TenantSubscription \<Rightarrow> int \<Rightarrow> TenantUsageMeter" where
  "new_meter u tenant key s maxQty = \<lparr>meter_ID = u, meter_TenantID = tenant, meter_QuotaKey = key,
     PeriodStart = CurrentPeriodStart s, PeriodEnd = CurrentPeriodEnd s, UsedQuantity = 0, ReservedQuantity = 0,
     MaxQuantity = maxQty\<rparr>"

record QuotaStatus =
  qs_QuotaKey :: QuotaKey
  qs_Used :: int
  qs_Reserved :: int
  qs_Max :: int
  qs_Remaining :: int
  qs_PeriodStart :: gotime
  qs_PeriodEnd :: gotime

definition quota_status :: "TenantUsageMeter \<Rightarrow> QuotaStatus" where
  "quota_status m = \<lparr>qs_QuotaKey = meter_QuotaKey m, qs_Used = UsedQuantity m, qs_Reserved = ReservedQuantity m,
     qs_Max = MaxQuantity m, qs_Remaining = RemainingCapacity m, qs_PeriodStart = PeriodStart m,
     qs_PeriodEnd = PeriodEnd m\<rparr>"

text \<open>The meter of the current period, which is set up from the plan when it is first asked for.\<close>

definition CheckQuota :: "env \<Rightarrow> gostring \<Rightarrow> QuotaKey \<Rightarrow> QuotaStatus eact" where
  "CheckQuota e tenant key =
     andThen (GetSubscription e tenant) (\<lambda>s. andThen (clock e) (\<lambda>now.
     andThen (query e (\<lambda>d. find (meter_at tenant key now) (meters_t d))) (\<lambda>r.
       case r of
         Some m \<Rightarrow> ret (quota_status m)
       | None \<Rightarrow> andThen (resolveMaxQuota e tenant (sub_PlanID s) key) (\<lambda>maxQty. andThen (new_uuid e) (\<lambda>u.
           andThen (exec_stmt e (insert_meter (new_meter u tenant key s maxQty))) (\<lambda>_.
             ret (quota_status (new_meter u tenant key s maxQty))))))))"

definition has_event :: "gostring \<Rightarrow> gostring \<Rightarrow> ent_db \<Rightarrow> bool" where
  "has_event tenant idem d \<longleftrightarrow> list_ex (\<lambda>x. ue_TenantID x = tenant \<and> ue_IdempotencyKey x = idem) (usage_events d)"

text \<open>An update of the meters that match, and how many do.\<close>

definition update_meters :: "(TenantUsageMeter \<Rightarrow> bool) \<Rightarrow> (TenantUsageMeter \<Rightarrow> TenantUsageMeter) \<Rightarrow> ent_db \<Rightarrow> goerr + nat \<times> ent_db" where
  "update_meters hit f d =
     Inr (length (filter hit (meters_t d)), d\<lparr>meters_t := map (\<lambda>m. if hit m then f m else m) (meters_t d)\<rparr>)"

definition take_hold :: "int \<Rightarrow> TenantUsageMeter \<Rightarrow> TenantUsageMeter" where
  "take_hold n m = m\<lparr>ReservedQuantity := ReservedQuantity m + n\<rparr>"

definition give_back :: "int \<Rightarrow> TenantUsageMeter \<Rightarrow> TenantUsageMeter" where
  "give_back n m = m\<lparr>ReservedQuantity := (if 0 < ReservedQuantity m - n then ReservedQuantity m - n else 0)\<rparr>"

definition use_up :: "int \<Rightarrow> TenantUsageMeter \<Rightarrow> TenantUsageMeter" where
  "use_up n m = (give_back n m)\<lparr>UsedQuantity := UsedQuantity m + n\<rparr>"

definition ReserveQuota :: "env \<Rightarrow> gostring \<Rightarrow> QuotaKey \<Rightarrow> int \<Rightarrow> gostring \<Rightarrow> gostring \<Rightarrow> gostring \<Rightarrow> unit eact" where
  "ReserveQuota e tenant key n idem entityType entityID =
     andThen (attempt (query e (has_event tenant idem))) (\<lambda>r.
       if r = Inr True then ret ()
       else andThen (CheckQuota e tenant key) (\<lambda>_. andThen (clock e) (\<lambda>now.
            andThen (exec_count e (update_meters
              (\<lambda>m. meter_at tenant key now m \<and> UsedQuantity m + ReservedQuantity m + n \<le> MaxQuantity m) (take_hold n))) (\<lambda>rows.
              if rows = 0 then fail ErrQuotaExceeded else ret ()))))"

definition insert_usage :: "TenantUsageEvent \<Rightarrow> ent_db \<Rightarrow> goerr + ent_db" where
  "insert_usage x d =
     (if ue_ID x \<in> ue_ID ` set (usage_events d) \<or> has_event (ue_TenantID x) (ue_IdempotencyKey x) d then Inr d
      else if ue_TenantID x \<notin> set (ent_tenants d) then Inl (ErrMsg ''FOREIGN KEY constraint failed'')
      else Inr (d\<lparr>usage_events := usage_events d @ [x]\<rparr>))"

definition CommitQuota :: "env \<Rightarrow> gostring \<Rightarrow> QuotaKey \<Rightarrow> int \<Rightarrow> gostring \<Rightarrow> gostring \<Rightarrow> gostring \<Rightarrow> unit eact" where
  "CommitQuota e tenant key n idem entityType entityID =
     andThen (clock e) (\<lambda>now.
     andThen (exec_count e (update_meters (meter_at tenant key now) (use_up n))) (\<lambda>_. andThen (new_uuid e) (\<lambda>u.
       exec_stmt e (insert_usage \<lparr>ue_ID = u, ue_TenantID = tenant, ue_QuotaKey = key, ue_Quantity = n,
         ue_IdempotencyKey = idem, SourceEntityType = entityType, SourceEntityID = entityID,
         ue_Timestamp = to_second now\<rparr>))))"

definition ReleaseQuota :: "env \<Rightarrow> gostring \<Rightarrow> QuotaKey \<Rightarrow> int \<Rightarrow> unit eact" where
  "ReleaseQuota e tenant key n =
     andThen (clock e) (\<lambda>now.
     andThen (exec_count e (update_meters (meter_at tenant key now) (give_back n))) (\<lambda>_. ret ()))"

section \<open>Operations and bookings\<close>

definition ingress :: "OpCode \<Rightarrow> bool" where
  "ingress op \<longleftrightarrow> op \<in> {OpCreateBooking, OpCreateDispatch, OpCreateVehicle, OpCreateDriver}"

definition may_execute :: "SubscriptionStatus \<Rightarrow> OpCode \<Rightarrow> bool" where
  "may_execute st op =
     (if st \<in> {SubTrial, SubActive, SubPastDue, SubGrace} then True
      else if st \<in> {SubReadOnly, SubAccountClosed} then \<not> ingress op
      else if st = SubOperationallyTerminated then op = OpReadResource
      else False)"

definition CanExecuteOperation :: "env \<Rightarrow> gostring \<Rightarrow> OpCode \<Rightarrow> bool eact" where
  "CanExecuteOperation e tenant op =
     andThen (GetSubscription e tenant) (\<lambda>s. if may_execute (sub_Status s) op then ret True else fail ErrOperationBlocked)"

definition CanCreateBooking :: "env \<Rightarrow> gostring \<Rightarrow> bool eact" where
  "CanCreateBooking e tenant =
     andThen (attempt (CanExecuteOperation e tenant OpCreateBooking)) (\<lambda>r.
       case r of
         Inl err \<Rightarrow> if err = ErrSubscriptionNotFound then ret True else fail err
       | Inr ok \<Rightarrow> ret ok)"

definition reserveKey :: "gostring \<Rightarrow> gostring \<Rightarrow> gostring" where
  "reserveKey booking phase = ''booking:'' @ booking @ '':'' @ phase"

text \<open>A tenant without a subscription meters nothing.\<close>

definition metered :: "env \<Rightarrow> gostring \<Rightarrow> unit eact \<Rightarrow> unit eact" where
  "metered e tenant m =
     andThen (attempt (GetSubscription e tenant)) (\<lambda>r.
       case r of
         Inl err \<Rightarrow> if err = ErrSubscriptionNotFound then ret () else fail err
       | Inr _ \<Rightarrow> m)"

definition ReserveBooking :: "env \<Rightarrow> gostring \<Rightarrow> gostring \<Rightarrow> unit eact" where
  "ReserveBooking e tenant b = metered e tenant
     (ReserveQuota e tenant QuotaMaxTripsPerMonth 1 (reserveKey b ''reserve'') ''booking'' b)"

definition CommitBooking :: "env \<Rightarrow> gostring \<Rightarrow> gostring \<Rightarrow> unit eact" where
  "CommitBooking e tenant b = metered e tenant
     (andThen (attempt (query e (has_event tenant (reserveKey b ''commit'')))) (\<lambda>r.
        if r = Inr True then ret ()
        else CommitQuota e tenant QuotaMaxTripsPerMonth 1 (reserveKey b ''commit'') ''booking'' b))"

definition ReleaseBooking :: "env \<Rightarrow> gostring \<Rightarrow> gostring \<Rightarrow> unit eact" where
  "ReleaseBooking e tenant b = metered e tenant (ReleaseQuota e tenant QuotaMaxTripsPerMonth 1)"

end
