(* ===== verification/Subscribe.thy ===== *)
theory Subscribe
  imports Entitle
begin

text \<open>
  The life of subscriptions (\<open>entitlement/application/service.go\<close>): creation, the webhooks of the payment
  provider, overrides, the plans and the dunning sweep.
\<close>

section \<open>Creation\<close>

definition bad_sub :: "TenantSubscription \<Rightarrow> ent_db \<Rightarrow> bool" where
  "bad_sub s d \<longleftrightarrow> (case sub_Status s of OtherSub _ \<Rightarrow> True | _ \<Rightarrow> False) \<or> sub_PlanID s \<notin> plan_ID ` set (plans_t d)
     \<or> sub_TenantID s \<notin> set (ent_tenants d)"

text \<open>\<open>INSERT \<dots> ON CONFLICT (tenant_id) DO UPDATE\<close>, which dates the row with \<open>CURRENT_TIMESTAMP\<close>.\<close>

definition upsert_sub :: "gotime \<Rightarrow> TenantSubscription \<Rightarrow> ent_db \<Rightarrow> goerr + ent_db" where
  "upsert_sub now s d =
     (if bad_sub s d then Inl (ErrMsg ''constraint failed: tenant_subscriptions'')
      else if sub_TenantID s \<in> sub_TenantID ` set (subs_t d)
        then Inr (d\<lparr>subs_t := map (\<lambda>x. if sub_TenantID x = sub_TenantID s
          then x\<lparr>sub_PlanID := sub_PlanID s, sub_Status := sub_Status s, CurrentPeriodStart := CurrentPeriodStart s,
                 CurrentPeriodEnd := CurrentPeriodEnd s, sub_UpdatedAt := Plain (to_second now)\<rparr> else x) (subs_t d)\<rparr>)
      else if sub_ID s \<in> sub_ID ` set (subs_t d) then Inl (ErrMsg ''UNIQUE constraint failed: tenant_subscriptions.id'')
      else Inr (d\<lparr>subs_t := subs_t d @ [s]\<rparr>))"

definition CreateSubscription :: "env \<Rightarrow> gostring \<Rightarrow> PlanID \<Rightarrow> SubscriptionStatus \<Rightarrow> gotime \<Rightarrow> gotime \<Rightarrow> TenantSubscription eact" where
  "CreateSubscription e tenant k st periodStart periodEnd =
     andThen (new_uuid e) (\<lambda>u. andThen (clock e) (\<lambda>now.
     andThen (exec_stmt e (upsert_sub now
       \<lparr>sub_ID = u, sub_TenantID = tenant, sub_PlanID = k, sub_Status = st, CurrentPeriodStart = to_second periodStart,
        CurrentPeriodEnd = to_second periodEnd, TrialEnd = Some (to_second (now + 14 * 24 * 3600000000000)),
        ProviderSubscriptionID = None, sub_CreatedAt = to_second now, sub_UpdatedAt = Iso (to_second now)\<rparr>)) (\<lambda>_.
       GetSubscription e tenant)))"

section \<open>Webhooks\<close>

record WebhookEventPayload =
  EventID :: gostring
  EventType :: gostring
  Provider :: gostring
  payload_SubscriptionID :: gostring
  payload_PlanID :: gostring
  EventTimestamp :: gotime
  payload_PeriodStart :: gotime
  payload_PeriodEnd :: gotime

definition is_provider_sub :: "gostring \<Rightarrow> TenantSubscription \<Rightarrow> bool" where
  "is_provider_sub k s \<longleftrightarrow> ProviderSubscriptionID s = Some k"

text \<open>The status an event asks for; of other events none.\<close>

definition event_status :: "gostring \<Rightarrow> SubscriptionStatus option" where
  "event_status ty =
     (if ty \<in> {''subscription.authenticated'', ''subscription.activated'', ''subscription.resumed''} then Some SubActive
      else if ty \<in> {''payment.captured'', ''subscription.charged''} then Some SubActive
      else if ty = ''payment.failed'' then Some SubPastDue
      else if ty = ''subscription.paused'' then Some SubReadOnly
      else if ty \<in> {''subscription.cancelled'', ''subscription.expired'', ''subscription.completed''} then Some SubReadOnly
      else None)"

definition seen_event :: "gostring \<Rightarrow> gostring \<Rightarrow> ent_db \<Rightarrow> bool" where
  "seen_event provider k d \<longleftrightarrow> list_ex (\<lambda>x. wh_Provider x = provider \<and> wh_EventID x = k) (webhooks_t d)"

definition latest_event :: "gostring \<Rightarrow> ent_db \<Rightarrow> gotime option" where
  "latest_event k d =
     (case map wh_EventTimestamp (filter (\<lambda>x. wh_SubscriptionID x = k) (webhooks_t d)) of
        [] \<Rightarrow> None | ts \<Rightarrow> Some (Max (set ts)))"

definition insert_webhook :: "webhook_row \<Rightarrow> ent_db \<Rightarrow> goerr + ent_db" where
  "insert_webhook x d =
     (if wh_ID x \<in> wh_ID ` set (webhooks_t d) then Inl (ErrMsg ''UNIQUE constraint failed: subscription_webhook_events.id'')
      else if seen_event (wh_Provider x) (wh_EventID x) d
        then Inl (ErrMsg ''UNIQUE constraint failed: subscription_webhook_events.provider, subscription_webhook_events.event_id'')
      else if wh_TenantID x \<notin> set (ent_tenants d) then Inl (ErrMsg ''FOREIGN KEY constraint failed'')
      else Inr (d\<lparr>webhooks_t := webhooks_t d @ [x]\<rparr>))"

definition webhook_record :: "gostring \<Rightarrow> gostring \<Rightarrow> gostring \<Rightarrow> WebhookEventPayload \<Rightarrow> webhook_row" where
  "webhook_record u tenant status p = \<lparr>wh_ID = u, wh_TenantID = tenant, wh_Provider = Provider p, wh_EventID = EventID p,
     wh_EventType = EventType p, wh_SubscriptionID = payload_SubscriptionID p,
     wh_EventTimestamp = to_second (EventTimestamp p), wh_Status = status\<rparr>"

text \<open>
  The four updates of a subscription: its status, and its period and its plan where the event has them. They
  fail when a status or a plan is not admissible.
\<close>

definition applied :: "SubscriptionStatus \<Rightarrow> gotime \<Rightarrow> gostring \<Rightarrow> WebhookEventPayload \<Rightarrow> TenantSubscription \<Rightarrow> TenantSubscription" where
  "applied st now plan p s =
     (let s = s\<lparr>sub_Status := st, sub_UpdatedAt := Iso (to_second now)\<rparr>;
          s = (if \<not> IsZero (payload_PeriodStart p) \<and> \<not> IsZero (payload_PeriodEnd p)
               then s\<lparr>CurrentPeriodStart := to_second (payload_PeriodStart p), CurrentPeriodEnd := to_second (payload_PeriodEnd p)\<rparr> else s)
      in if plan = '''' then s else s\<lparr>sub_PlanID := plan\<rparr>)"

definition update_sub :: "gostring \<Rightarrow> (TenantSubscription \<Rightarrow> TenantSubscription) \<Rightarrow> ent_db \<Rightarrow> goerr + ent_db" where
  "update_sub k f d =
     (if list_ex (\<lambda>s. is_provider_sub k s \<and> bad_sub (f s) d) (subs_t d) then Inl (ErrMsg ''constraint failed: tenant_subscriptions'')
      else Inr (d\<lparr>subs_t := map (\<lambda>s. if is_provider_sub k s then f s else s) (subs_t d)\<rparr>))"

text \<open>The plan an event refers to, when it is an active one.\<close>

definition payload_plan :: "env \<Rightarrow> WebhookEventPayload \<Rightarrow> gostring eact" where
  "payload_plan e p =
     (if payload_PlanID p = '''' then ret ''''
      else andThen (attempt (query e (\<lambda>d. find (\<lambda>x. plan_ID x = payload_PlanID p \<and> plan_IsActive x) (plans_t d)))) (\<lambda>r.
        ret (case r of Inr (Some x) \<Rightarrow> plan_ID x | _ \<Rightarrow> '''')))"

definition event_defaults :: "env \<Rightarrow> WebhookEventPayload \<Rightarrow> WebhookEventPayload eact" where
  "event_defaults e p =
     (let p = (if Provider p = '''' then p\<lparr>Provider := ''RAZORPAY''\<rparr> else p) in
      if IsZero (EventTimestamp p) then andThen (clock e) (\<lambda>now. ret (p\<lparr>EventTimestamp := now\<rparr>)) else ret p)"

definition apply_event :: "env \<Rightarrow> TenantSubscription \<Rightarrow> WebhookEventPayload \<Rightarrow> unit eact" where
  "apply_event e s p =
     (let st = (case event_status (EventType p) of Some st \<Rightarrow> st | None \<Rightarrow> sub_Status s) in
      andThen (clock e) (\<lambda>now. andThen (payload_plan e p) (\<lambda>plan.
      with_tx e False (\<lambda>_.
        andThen (exec_stmt e (update_sub (payload_SubscriptionID p) (applied st now plan p))) (\<lambda>_.
        andThen (new_uuid e) (\<lambda>u.
          exec_stmt e (insert_webhook (webhook_record u (sub_TenantID s) ''PROCESSED'' p))))))))"

definition ignore_event :: "env \<Rightarrow> TenantSubscription \<Rightarrow> WebhookEventPayload \<Rightarrow> unit eact" where
  "ignore_event e s p =
     andThen (new_uuid e) (\<lambda>u.
     andThen (attempt (exec_stmt e (insert_webhook (webhook_record u (sub_TenantID s) ''IGNORED_OUT_OF_ORDER'' p)))) (\<lambda>_. ret ()))"

definition ProcessSubscriptionWebhook :: "env \<Rightarrow> WebhookEventPayload \<Rightarrow> unit eact" where
  "ProcessSubscriptionWebhook e p =
     andThen (event_defaults e p) (\<lambda>p.
     andThen (attempt (query e (seen_event (Provider p) (EventID p)))) (\<lambda>r.
       if r = Inr True then ret ()
       else andThen (query e (\<lambda>d. find (is_provider_sub (payload_SubscriptionID p)) (subs_t d))) (\<lambda>s.
         case s of
           None \<Rightarrow> fail ErrSubscriptionNotFound
         | Some s \<Rightarrow>
             andThen (attempt (query e (latest_event (payload_SubscriptionID p)))) (\<lambda>r.
               case r of
                 Inr (Some latest) \<Rightarrow> if EventTimestamp p < latest then ignore_event e s p else apply_event e s p
               | _ \<Rightarrow> apply_event e s p))))"

definition HandleSubscriptionWebhook :: "env \<Rightarrow> gostring \<Rightarrow> SubscriptionStatus \<Rightarrow> gotime \<Rightarrow> gotime \<Rightarrow> unit eact" where
  "HandleSubscriptionWebhook e k st periodStart periodEnd =
     andThen (clock e) (\<lambda>now. exec_stmt e (update_sub k (\<lambda>s. s\<lparr>sub_Status := st,
       CurrentPeriodStart := to_second periodStart, CurrentPeriodEnd := to_second periodEnd,
       sub_UpdatedAt := Iso (to_second now)\<rparr>)))"

section \<open>Overrides and plans\<close>

definition upsert_override :: "TenantEntitlementOverride \<Rightarrow> ent_db \<Rightarrow> goerr + ent_db" where
  "upsert_override x d =
     (let same = (\<lambda>y. eo_TenantID y = eo_TenantID x \<and> EntitlementType y = EntitlementType x \<and> KeyName y = KeyName x) in
      if EntitlementType x \<notin> {''FEATURE'', ''QUOTA''} \<or> eo_TenantID x \<notin> set (ent_tenants d)
        then Inl (ErrMsg ''constraint failed: tenant_entitlement_overrides'')
      else if list_ex same (ent_overrides d)
        then Inr (d\<lparr>ent_overrides := map (\<lambda>y. if same y then y\<lparr>OverrideValue := OverrideValue x, eo_Reason := eo_Reason x,
          eo_ExpiresAt := eo_ExpiresAt x\<rparr> else y) (ent_overrides d)\<rparr>)
      else if eo_ID x \<in> eo_ID ` set (ent_overrides d) then Inl (ErrMsg ''UNIQUE constraint failed: tenant_entitlement_overrides.id'')
      else Inr (d\<lparr>ent_overrides := ent_overrides d @ [x]\<rparr>))"

definition SetEntitlementOverride :: "env \<Rightarrow> gostring \<Rightarrow> gostring \<Rightarrow> gostring \<Rightarrow> gostring \<Rightarrow> gostring \<Rightarrow> gotime option \<Rightarrow> unit eact" where
  "SetEntitlementOverride e tenant kind key v reason until =
     andThen (new_uuid e) (\<lambda>u. exec_stmt e (upsert_override
       \<lparr>eo_ID = u, eo_TenantID = tenant, EntitlementType = kind, KeyName = key, OverrideValue = v, eo_Reason = reason,
        eo_ExpiresAt = map_option to_second until\<rparr>))"

record Plan =
  Plan_ID :: PlanID
  Plan_Name :: gostring
  Plan_Description :: gostring
  Plan_MonthlyPriceINR :: float64
  Features :: "FeatureKey set"
  Quotas :: "QuotaKey \<rightharpoonup> int"
  IsActive :: bool

fun read_plans :: "plan_row list \<Rightarrow> goerr + Plan list" where
  "read_plans [] = Inr []"
| "read_plans (r # rs) =
     (case (features_json r, quotas_json r) of
        (Some fs, Some qs) \<Rightarrow> (case read_plans rs of
            Inl err \<Rightarrow> Inl err
          | Inr ps \<Rightarrow> Inr (\<lparr>Plan_ID = plan_ID r, Plan_Name = plan_Name r, Plan_Description = plan_Description r,
              Plan_MonthlyPriceINR = MonthlyPriceINR r, Features = set fs, Quotas = qs, IsActive = plan_IsActive r\<rparr> # ps))
      | _ \<Rightarrow> Inl (ErrMsg ''json''))"

definition cheaper :: "plan_row \<Rightarrow> plan_row \<Rightarrow> bool" where
  "cheaper p q \<longleftrightarrow> MonthlyPriceINR p < MonthlyPriceINR q
     \<or> MonthlyPriceINR p = MonthlyPriceINR q \<and> lexordp (\<lambda>a b. (of_char a :: nat) < of_char b) (plan_ID p) (plan_ID q)"

fun place_plan :: "plan_row \<Rightarrow> plan_row list \<Rightarrow> plan_row list" where
  "place_plan p [] = [p]"
| "place_plan p (q # qs) = (if cheaper q p then q # place_plan p qs else p # q # qs)"

definition ListPlans :: "env \<Rightarrow> Plan list eact" where
  "ListPlans e =
     andThen (query e (\<lambda>d. read_plans (foldr place_plan (plans_t d) []))) (\<lambda>r.
       case r of Inl err \<Rightarrow> fail err | Inr ps \<Rightarrow> ret ps)"

definition set_price :: "PlanID \<Rightarrow> float64 \<Rightarrow> ent_db \<Rightarrow> goerr + nat \<times> ent_db" where
  "set_price k x d =
     (let hit = (\<lambda>p. plan_ID p = k) in
      if x = NaN \<and> list_ex hit (plans_t d) then Inl (ErrMsg ''NOT NULL constraint failed: subscription_plans.monthly_price_inr'')
      else Inr (length (filter hit (plans_t d)),
        d\<lparr>plans_t := map (\<lambda>p. if hit p then p\<lparr>MonthlyPriceINR := x, plan_IsActive := True\<rparr> else p) (plans_t d)\<rparr>))"

definition UpdatePlanPrice :: "env \<Rightarrow> PlanID \<Rightarrow> float64 \<Rightarrow> unit eact" where
  "UpdatePlanPrice e k x =
     (if x < 0 then fail (ErrMsg ''monthly price cannot be negative'')
      else andThen (exec_count e (set_price k x)) (\<lambda>n. if n = 0 then fail ErrPlanNotFound else ret ()))"

section \<open>Dunning\<close>

definition PastDueGraceDays :: int where
  "PastDueGraceDays = 7"

definition GraceReadOnlyDays :: int where
  "GraceReadOnlyDays = 14"

definition days_before :: "int \<Rightarrow> gotime \<Rightarrow> gotime" where
  "days_before n now = to_second (now - n * 86400000000000)"

text \<open>\<open>UPDATE \<dots> SET status = \<dots> WHERE status = \<dots> AND updated_at < \<dots>\<close>, and the rows that were updated.\<close>

definition move_stale :: "SubscriptionStatus \<Rightarrow> SubscriptionStatus \<Rightarrow> gotime \<Rightarrow> gotime \<Rightarrow> ent_db \<Rightarrow> goerr + nat \<times> ent_db" where
  "move_stale old new now cutoff d =
     (let hit = (\<lambda>s. sub_Status s = old \<and> before_iso (sub_UpdatedAt s) cutoff) in
      Inr (length (filter hit (subs_t d)),
        d\<lparr>subs_t := map (\<lambda>s. if hit s then s\<lparr>sub_Status := new, sub_UpdatedAt := Iso (to_second now)\<rparr> else s) (subs_t d)\<rparr>))"

definition SweepDunning :: "env \<Rightarrow> gotime \<Rightarrow> (nat \<times> nat) eact" where
  "SweepDunning e now =
     andThen (exec_count e (move_stale SubPastDue SubGrace now (days_before PastDueGraceDays now))) (\<lambda>a.
     andThen (exec_count e (move_stale SubGrace SubReadOnly now (days_before GraceReadOnlyDays now))) (\<lambda>b. ret (a, b)))"

end
