(* ===== verification/EntitleProps.thy ===== *)
theory EntitleProps
  imports Subscribe
begin

text \<open>
  What the entitlement service promises: dunning takes three weeks, and webhooks may arrive in any order.
\<close>

section \<open>Dunning\<close>

text \<open>What one sweep does to a subscription: nothing, or one step after enough days.\<close>

inductive dunned :: "gotime \<Rightarrow> TenantSubscription \<Rightarrow> TenantSubscription \<Rightarrow> bool" for now where
  kept: "dunned now s s"
| softened: "sub_Status s = SubPastDue \<Longrightarrow> before_iso (sub_UpdatedAt s) (days_before PastDueGraceDays now) \<Longrightarrow>
    dunned now s (s\<lparr>sub_Status := SubGrace, sub_UpdatedAt := Iso (to_second now)\<rparr>)"
| hardened: "sub_Status s = SubGrace \<Longrightarrow> before_iso (sub_UpdatedAt s) (days_before GraceReadOnlyDays now) \<Longrightarrow>
    dunned now s (s\<lparr>sub_Status := SubReadOnly, sub_UpdatedAt := Iso (to_second now)\<rparr>)"

lemma days_before_eq: "days_before n now = to_second now - n * 86400000000000"
proof -
  have "now - n * 86400000000000 = now + (- n * 86400) * 1000000000" by simp
  then have "(now - n * 86400000000000) div 1000000000 = now div 1000000000 - n * 86400"
    by (metis add.commute div_mult_self1 minus_mult_left uminus_add_conv_diff zero_neq_numeral)
  then show ?thesis by (simp add: days_before_def to_second_def algebra_simps)
qed

lemma to_second_le: "to_second t \<le> t"
  using pos_mod_sign [of 1000000000 t] by (simp add: to_second_def minus_mod_eq_div_mult [symmetric])

lemma sweep_dunned: "ends (SweepDunning e now) d (\<lambda>r d'. list_all2 (dunned now) (subs_t d) (subs_t d'))"
proof -
  have fresh: "\<not> before_iso (Iso (to_second now)) (days_before GraceReadOnlyDays now)"
    by (simp add: days_before_eq GraceReadOnlyDays_def)
  show ?thesis
    unfolding SweepDunning_def
    by (intro ending)
       (use fresh in \<open>auto simp: move_stale_def Let_def list_all2_map2 list_all2_same list.rel_map intro!: list.rel_refl_strong intro: dunned.intros ending\<close>)
qed

fun sweeps :: "(env \<times> gotime) list \<Rightarrow> ent_db world \<Rightarrow> ent_db world" where
  "sweeps [] w = w"
| "sweeps ((e, now) # xs) w = sweeps xs (snd (SweepDunning e now w))"

definition three_weeks :: int where
  "three_weeks = 21 * 86400000000000"

definition one_week :: int where
  "one_week = 7 * 86400000000000"

text \<open>
  A row that became past due at \<open>st\<close> has been so for longer than \<open>n\<close> at \<open>t\<close>. A row dated by
  \<open>CURRENT_TIMESTAMP\<close> counts from the midnight before, as its text sorts below every RFC 3339 time of its day.
\<close>

fun overdue :: "stamp \<Rightarrow> int \<Rightarrow> gotime \<Rightarrow> bool" where
  "overdue (Iso u) n t \<longleftrightarrow> u + n < t"
| "overdue (Plain u) n t \<longleftrightarrow> day_of u * 86400000000000 + n \<le> t"

lemma overdue_later: "overdue st n t \<Longrightarrow> t + k < t' \<Longrightarrow> overdue st (n + k) t'"
  by (cases st) simp_all

lemma overdue_mono: "overdue st n t \<Longrightarrow> t \<le> t' \<Longrightarrow> overdue st n t'"
  by (cases st) simp_all

lemma day_of_le: "day_of u \<le> day_of t \<longleftrightarrow> day_of u * 86400000000000 \<le> t"
proof
  assume "day_of u \<le> day_of t"
  then have "day_of u * 86400000000000 \<le> day_of t * 86400000000000" by simp
  also have "\<dots> \<le> t" using pos_mod_sign [of 86400000000000 t] by (simp add: day_of_def minus_mod_eq_div_mult [symmetric])
  finally show "day_of u * 86400000000000 \<le> t" .
next
  assume "day_of u * 86400000000000 \<le> t"
  then have "day_of u * 86400000000000 div 86400000000000 \<le> t div 86400000000000" by (rule zdiv_mono1) simp
  then show "day_of u \<le> day_of t" by (simp add: day_of_def)
qed

lemma stale_overdue: "before_iso st (days_before n now) \<longleftrightarrow> overdue st (n * 86400000000000) (to_second now)"
  by (cases st) (auto simp: days_before_eq day_of_le)

text \<open>Where sweeps at the times \<open>ts\<close> can have brought a subscription that was past due, dated \<open>st\<close>.\<close>

definition dunning_path :: "stamp \<Rightarrow> gotime set \<Rightarrow> TenantSubscription \<Rightarrow> bool" where
  "dunning_path st ts s \<longleftrightarrow>
     sub_Status s = SubPastDue \<and> sub_UpdatedAt s = st
     \<or> sub_Status s = SubGrace \<and> (\<exists>a \<in> ts. sub_UpdatedAt s = Iso (to_second a) \<and> overdue st one_week (to_second a))
     \<or> sub_Status s = SubReadOnly \<and> (\<exists>b \<in> ts. overdue st three_weeks (to_second b))"

lemma three_weeks_eq: "three_weeks = one_week + GraceReadOnlyDays * 86400000000000"
  by (simp add: three_weeks_def one_week_def GraceReadOnlyDays_def)

lemma dunned_path:
  assumes "dunned now s s'" and "now \<in> ts" and "dunning_path st ts s"
  shows "dunning_path st ts s'"
  using assms(1)
proof cases
  case softened
  then have "overdue st one_week (to_second now)"
    using assms(3) by (auto simp: dunning_path_def stale_overdue one_week_def PastDueGraceDays_def)
  then show ?thesis using softened(1) assms(2) by (auto simp: dunning_path_def)
next
  case hardened
  then obtain a where "overdue st one_week (to_second a)" "to_second a + GraceReadOnlyDays * 86400000000000 < to_second now"
    using assms(3) by (auto simp: dunning_path_def stale_overdue)
  then have "overdue st three_weeks (to_second now)" unfolding three_weeks_eq by (rule overdue_later)
  then show ?thesis using hardened(1) assms(2) by (auto simp: dunning_path_def)
qed (use assms(3) in simp)

lemma sweeps_path:
  assumes "snd ` set xs \<subseteq> ts" and "i < length (subs_t (db w))" and "dunning_path u ts (subs_t (db w) ! i)"
  shows "i < length (subs_t (db (sweeps xs w))) \<and> dunning_path u ts (subs_t (db (sweeps xs w)) ! i)"
  using assms
proof (induction xs w rule: sweeps.induct)
  case (2 e now xs w)
  have "list_all2 (dunned now) (subs_t (db w)) (subs_t (db (snd (SweepDunning e now w))))"
    using endsD [OF sweep_dunned [of e now "db w"]] by simp
  then have "i < length (subs_t (db (snd (SweepDunning e now w))))"
    "dunning_path u ts (subs_t (db (snd (SweepDunning e now w))) ! i)"
    using "2.prems" dunned_path [of now _ _ ts u] by (auto simp: list_all2_conv_all_nth)
  then show ?case using "2.IH" "2.prems"(1) by simp
qed simp

text \<open>
  C40: under any run of the sweep, whenever it runs and whatever fails, a subscription that is past due can only go to
  grace and from there to read-only: to grace no sooner than a week, and to read-only no sooner than three weeks, after
  the time its row is dated with. Where the database dated the row (\<open>CURRENT_TIMESTAMP\<close>, as the upsert of
  \<open>CreateSubscription\<close> does) the weeks count from the midnight before that time.
\<close>

theorem dunning_three_weeks:
  assumes "i < length (subs_t (db w))" and "sub_Status (subs_t (db w) ! i) = SubPastDue"
    and st: "st = sub_Status (subs_t (db (sweeps xs w)) ! i)"
  shows "st \<in> {SubPastDue, SubGrace, SubReadOnly}
    \<and> (st = SubGrace \<longrightarrow> (\<exists>t \<in> snd ` set xs. overdue (sub_UpdatedAt (subs_t (db w) ! i)) one_week t))
    \<and> (st = SubReadOnly \<longrightarrow> (\<exists>t \<in> snd ` set xs. overdue (sub_UpdatedAt (subs_t (db w) ! i)) three_weeks t))"
proof -
  have "dunning_path (sub_UpdatedAt (subs_t (db w) ! i)) (snd ` set xs) (subs_t (db w) ! i)"
    using assms(2) by (simp add: dunning_path_def)
  then have "dunning_path (sub_UpdatedAt (subs_t (db w) ! i)) (snd ` set xs) (subs_t (db (sweeps xs w)) ! i)"
    using sweeps_path assms(1) by blast
  then show ?thesis unfolding st dunning_path_def by (auto intro: overdue_mono [OF _ to_second_le])
qed

section \<open>Webhooks\<close>

fun deliver :: "env \<Rightarrow> WebhookEventPayload list \<Rightarrow> ent_db world \<Rightarrow> ent_db world" where
  "deliver e [] w = w"
| "deliver e (p # ps) w = deliver e ps (snd (ProcessSubscriptionWebhook e p w))"

text \<open>The database does not fail, and identifiers are not drawn twice.\<close>

definition reliable :: "env \<Rightarrow> bool" where
  "reliable e \<longleftrightarrow> db_fails e = (\<lambda>_. None) \<and> inj (uuid_at e)"

text \<open>An event as the handler makes it, of a kind that says a status.\<close>

definition plain_event :: "gostring \<Rightarrow> WebhookEventPayload \<Rightarrow> bool" where
  "plain_event k p \<longleftrightarrow> payload_SubscriptionID p = k \<and> Provider p = ''RAZORPAY'' \<and> EventTimestamp p \<noteq> 0
     \<and> to_second (EventTimestamp p) = EventTimestamp p \<and> event_status (EventType p) \<noteq> None"

definition sub_healthy :: "TenantSubscription \<Rightarrow> ent_db \<Rightarrow> bool" where
  "sub_healthy s d \<longleftrightarrow> \<not> bad_sub s d"

definition row_key :: "webhook_row \<Rightarrow> (gostring \<times> gostring) \<times> gostring \<times> gotime" where
  "row_key x = ((wh_Provider x, wh_EventID x), wh_SubscriptionID x, wh_EventTimestamp x)"

definition event_key :: "WebhookEventPayload \<Rightarrow> (gostring \<times> gostring) \<times> gostring \<times> gotime" where
  "event_key p = ((Provider p, EventID p), payload_SubscriptionID p, EventTimestamp p)"

definition events_recorded :: "WebhookEventPayload list \<Rightarrow> webhook_row list \<Rightarrow> bool" where
  "events_recorded ps xs \<longleftrightarrow> map row_key xs = map event_key ps"

definition newest_event :: "WebhookEventPayload list \<Rightarrow> WebhookEventPayload \<Rightarrow> bool" where
  "newest_event ps p \<longleftrightarrow> p \<in> set ps \<and> (\<forall>q \<in> set ps. EventTimestamp q \<le> EventTimestamp p)"

definition hook_inv :: "env \<Rightarrow> gostring \<Rightarrow> WebhookEventPayload list \<Rightarrow> ent_db world \<Rightarrow> TenantSubscription \<Rightarrow> bool" where
  "hook_inv e k ps w s \<longleftrightarrow> filter (is_provider_sub k) (subs_t (db w)) = [s] \<and> events_recorded ps (webhooks_t (db w))
     \<and> wh_ID ` set (webhooks_t (db w)) \<subseteq> uuid_at e ` {..<tick w} \<and> sub_healthy s (db w)
     \<and> (ps \<noteq> [] \<longrightarrow> (\<exists>p. newest_event ps p \<and> event_status (EventType p) = Some (sub_Status s)))"

lemma filter_one_find: "filter P xs = [x] \<Longrightarrow> find P xs = Some x"
  by (induction xs) (auto split: if_splits)

lemma filter_one_map: "filter P xs = [x] \<Longrightarrow> P (f x) \<Longrightarrow> filter P (map (\<lambda>y. if P y then f y else y) xs) = [f x]"
  by (induction xs) (auto split: if_splits simp: filter_empty_conv)

lemma filter_one_iff: "filter P xs = [x] \<Longrightarrow> y \<in> set xs \<Longrightarrow> P y \<longleftrightarrow> y = x"
  by (drule arg_cong [where f = set]) auto

lemma event_status_known: "event_status ty = Some st \<Longrightarrow> st \<in> {SubActive, SubPastDue, SubReadOnly}"
  by (auto simp: event_status_def split: if_splits)

lemma recorded_set: "events_recorded ps xs \<Longrightarrow> row_key ` set xs = event_key ` set ps"
  unfolding events_recorded_def by (metis list.set_map)

lemma recorded_seen:
  assumes "events_recorded ps (webhooks_t d)"
  shows "seen_event v k d \<longleftrightarrow> (\<exists>p \<in> set ps. Provider p = v \<and> EventID p = k)"
proof -
  have "(\<lambda>x. (wh_Provider x, wh_EventID x)) ` set (webhooks_t d) = fst ` row_key ` set (webhooks_t d)"
    by (simp add: row_key_def image_image)
  also have "\<dots> = (\<lambda>p. (Provider p, EventID p)) ` set ps"
    unfolding recorded_set [OF assms] by (simp add: event_key_def image_image)
  finally have eq: "(\<lambda>x. (wh_Provider x, wh_EventID x)) ` set (webhooks_t d) = (\<lambda>p. (Provider p, EventID p)) ` set ps" .
  have "seen_event v k d \<longleftrightarrow> (v, k) \<in> (\<lambda>x. (wh_Provider x, wh_EventID x)) ` set (webhooks_t d)"
    unfolding seen_event_def list_ex_iff image_iff by blast
  then show ?thesis unfolding eq image_iff by blast
qed

lemma recorded_latest:
  assumes "events_recorded ps (webhooks_t d)" and "\<forall>p \<in> set ps. payload_SubscriptionID p = k"
  shows "latest_event k d = (if ps = [] then None else Some (Max (EventTimestamp ` set ps)))"
proof -
  have all: "wh_SubscriptionID x = k" if "x \<in> set (webhooks_t d)" for x
  proof -
    have "row_key x \<in> event_key ` set ps" using recorded_set [OF assms(1)] that by blast
    then show ?thesis using assms(2) by (auto simp: row_key_def event_key_def)
  qed
  have "set (map wh_EventTimestamp (webhooks_t d)) = (snd \<circ> snd) ` row_key ` set (webhooks_t d)"
    by (simp add: row_key_def image_image)
  also have "\<dots> = EventTimestamp ` set ps" unfolding recorded_set [OF assms(1)] by (simp add: event_key_def image_image)
  finally have times: "set (map wh_EventTimestamp (webhooks_t d)) = EventTimestamp ` set ps" .
  have "filter (\<lambda>x. wh_SubscriptionID x = k) (webhooks_t d) = webhooks_t d" using all by (simp add: filter_id_conv)
  moreover have "webhooks_t d = [] \<longleftrightarrow> ps = []" using assms(1) unfolding events_recorded_def by (metis map_is_Nil_conv)
  ultimately show ?thesis
    using times by (cases "map wh_EventTimestamp (webhooks_t d)") (auto simp: latest_event_def)
qed

lemma newest_event_Max: "newest_event ps p \<Longrightarrow> Max (EventTimestamp ` set ps) = EventTimestamp p"
  unfolding newest_event_def by (intro Max_eqI) auto

text \<open>Statements of a database that does not fail.\<close>

lemma reliable_stmts:
  assumes "reliable e"
  shows "exec_stmt e f w = (case f (db w) of Inl err \<Rightarrow> (Inl err, w\<lparr>tick := Suc (tick w)\<rparr>)
      | Inr d \<Rightarrow> (Inr (), w\<lparr>tick := Suc (tick w), db := d\<rparr>))"
    and "query e g w = (Inr (g (db w)), w\<lparr>tick := Suc (tick w)\<rparr>)"
  using assms by (auto simp: exec_stmt_def query_def reliable_def Let_def split: sum.split)

lemma uuid_fresh: "reliable e \<Longrightarrow> S \<subseteq> uuid_at e ` {..<n} \<Longrightarrow> n \<le> j \<Longrightarrow> uuid_at e j \<notin> S"
  unfolding reliable_def by (auto simp: inj_eq dest!: subsetD)

definition hook_world :: "nat \<Rightarrow> webhook_row \<Rightarrow> (TenantSubscription \<Rightarrow> TenantSubscription) \<Rightarrow> gostring \<Rightarrow> ent_db world \<Rightarrow> ent_db world" where
  "hook_world n x f k w = w\<lparr>tick := n, db := (db w)\<lparr>
     subs_t := map (\<lambda>s. if is_provider_sub k s then f s else s) (subs_t (db w)),
     webhooks_t := webhooks_t (db w) @ [x]\<rparr>\<rparr>"

lemma insert_webhook_ok:
  assumes "wh_ID x \<notin> wh_ID ` set (webhooks_t d)" and "\<not> seen_event (wh_Provider x) (wh_EventID x) d"
    and "wh_TenantID x \<in> set (ent_tenants d)"
  shows "insert_webhook x d = Inr (d\<lparr>webhooks_t := webhooks_t d @ [x]\<rparr>)"
  using assms by (simp add: insert_webhook_def)

lemma ignore_run:
  assumes e: "reliable e" and ids: "wh_ID ` set (webhooks_t (db w)) \<subseteq> uuid_at e ` {..<n}" and "n \<le> tick w"
    and "\<not> seen_event (Provider p) (EventID p) (db w)" and "sub_TenantID s \<in> set (ent_tenants (db w))"
  shows "\<exists>u \<in> uuid_at e ` {..<tick w + 2}. ignore_event e s p w
    = (Inr (), hook_world (tick w + 2) (webhook_record u (sub_TenantID s) ''IGNORED_OUT_OF_ORDER'' p) (\<lambda>s. s) k w)"
proof
  show "uuid_at e (tick w) \<in> uuid_at e ` {..<tick w + 2}" by simp
  have "insert_webhook (webhook_record (uuid_at e (tick w)) (sub_TenantID s) ''IGNORED_OUT_OF_ORDER'' p) (db w)
      = Inr (db w\<lparr>webhooks_t := webhooks_t (db w) @ [webhook_record (uuid_at e (tick w)) (sub_TenantID s) ''IGNORED_OUT_OF_ORDER'' p]\<rparr>)"
    using assms(4,5) uuid_fresh [OF e ids assms(3)] by (intro insert_webhook_ok) (simp_all add: webhook_record_def)
  then show "ignore_event e s p w = (Inr (), hook_world (tick w + 2)
      (webhook_record (uuid_at e (tick w)) (sub_TenantID s) ''IGNORED_OUT_OF_ORDER'' p) (\<lambda>s. s) k w)"
    by (simp add: ignore_event_def andThen_def new_uuid_def attempt_def ret_def reliable_stmts [OF e] hook_world_def)
qed

lemma plan_kept:
  assumes "reliable e"
  shows "\<exists>plan n. payload_plan e p w = (Inr plan, w\<lparr>tick := n\<rparr>) \<and> tick w \<le> n \<and> (plan \<noteq> '''' \<longrightarrow> plan \<in> plan_ID ` set (plans_t (db w)))"
proof (cases "payload_PlanID p = ''''")
  case True
  then show ?thesis by (intro exI [of _ "''''"] exI [of _ "tick w"]) (simp add: payload_plan_def ret_def)
next
  case False
  let ?r = "find (\<lambda>x. plan_ID x = payload_PlanID p \<and> plan_IsActive x) (plans_t (db w))"
  show ?thesis
    using False by (intro exI [of _ "case ?r of Some x \<Rightarrow> plan_ID x | None \<Rightarrow> ''''"] exI [of _ "Suc (tick w)"])
      (auto simp: payload_plan_def andThen_def attempt_def ret_def reliable_stmts [OF assms] find_Some_iff split: option.split)
qed

lemma apply_run:
  assumes e: "reliable e" and ids: "wh_ID ` set (webhooks_t (db w)) \<subseteq> uuid_at e ` {..<n}" and "n \<le> tick w"
    and "\<not> seen_event (Provider p) (EventID p) (db w)" and s: "filter (is_provider_sub (payload_SubscriptionID p)) (subs_t (db w)) = [s]"
    and "sub_healthy s (db w)" and st: "event_status (EventType p) = Some st"
  shows "\<exists>j. \<exists>u \<in> uuid_at e ` {..<j}. \<exists>now plan. apply_event e s p w
    = (Inr (), hook_world j (webhook_record u (sub_TenantID s) ''PROCESSED'' p) (applied st now plan p) (payload_SubscriptionID p) w)
      \<and> n \<le> j \<and> sub_healthy (applied st now plan p s) (db w)"
proof -
  define w1 where "w1 = w\<lparr>tick := Suc (tick w)\<rparr>"
  obtain plan i where plan: "payload_plan e p w1 = (Inr plan, w1\<lparr>tick := i\<rparr>)" "tick w1 \<le> i"
      "plan \<noteq> '''' \<longrightarrow> plan \<in> plan_ID ` set (plans_t (db w))"
    using plan_kept [OF e, of p w1] by (auto simp: w1_def)
  let ?now = "now_at e (tick w)" and ?u = "uuid_at e (Suc (Suc i))" and ?k = "payload_SubscriptionID p"
  have good: "sub_healthy (applied st ?now plan p s) (db w)"
    using assms(6) plan(3) event_status_known [OF st] by (auto simp: sub_healthy_def bad_sub_def applied_def Let_def)
  have "\<not> list_ex (\<lambda>x. is_provider_sub ?k x \<and> bad_sub (applied st ?now plan p x) (db w)) (subs_t (db w))"
    using good filter_one_iff [OF s] by (auto simp: list_ex_iff sub_healthy_def)
  then have upd: "update_sub ?k (applied st ?now plan p) (db w) = Inr (db w\<lparr>subs_t := map (\<lambda>s. if is_provider_sub ?k s
      then applied st ?now plan p s else s) (subs_t (db w))\<rparr>)"
    by (simp add: update_sub_def)
  have fresh: "?u \<notin> wh_ID ` set (webhooks_t (db w))"
    using uuid_fresh [OF e ids] assms(3) plan(2) by (simp add: w1_def)
  have "sub_TenantID s \<in> set (ent_tenants (db w))" using assms(6) by (simp add: sub_healthy_def bad_sub_def)
  then have ins: "insert_webhook (webhook_record ?u (sub_TenantID s) ''PROCESSED'' p) (db w\<lparr>subs_t := ss\<rparr>)
      = Inr (db w\<lparr>subs_t := ss, webhooks_t := webhooks_t (db w) @ [webhook_record ?u (sub_TenantID s) ''PROCESSED'' p]\<rparr>)" for ss
    using fresh assms(4) by (subst insert_webhook_ok) (simp_all add: webhook_record_def seen_event_def)
  have "apply_event e s p w = (Inr (), hook_world (i + 5) (webhook_record ?u (sub_TenantID s) ''PROCESSED'' p)
      (applied st ?now plan p) ?k w)"
    using plan(1) unfolding w1_def
    by (simp add: apply_event_def st andThen_def clock_def new_uuid_def with_tx_def reliable_stmts [OF e] upd ins hook_world_def)
  then show ?thesis using good assms(3) plan(2) by (intro exI [of _ "i + 5"] bexI [of _ ?u]) (auto simp: w1_def)
qed

lemma hook_world_inv:
  assumes inv: "hook_inv e k ps w s" and p: "plain_event k p" and x: "row_key x = event_key p" "wh_ID x \<in> uuid_at e ` {..<j}"
    and "tick w \<le> j" and f: "is_provider_sub k (f s)" "sub_healthy (f s) (db w)"
    and last: "newest_event (ps @ [p]) q" "event_status (EventType q) = Some (sub_Status (f s))"
  shows "hook_inv e k (ps @ [p]) (hook_world j x f k w) (f s)"
proof -
  have one: "filter (is_provider_sub k) (subs_t (db w)) = [s]" using inv by (simp add: hook_inv_def)
  have "events_recorded (ps @ [p]) (webhooks_t (db w) @ [x])" using inv x(1) by (simp add: hook_inv_def events_recorded_def)
  moreover have "wh_ID ` set (webhooks_t (db w) @ [x]) \<subseteq> uuid_at e ` {..<j}"
    using inv x(2) assms(5) unfolding hook_inv_def by (auto simp: image_iff dest!: subsetD)
  moreover have "sub_healthy (f s) (db (hook_world j x f k w))" using f(2) by (simp add: sub_healthy_def bad_sub_def hook_world_def)
  ultimately show ?thesis
    using filter_one_map [OF one, of f] f(1) last unfolding hook_inv_def by (auto simp: hook_world_def)
qed

lemma applied_sub: "is_provider_sub k (applied st now plan p s) = is_provider_sub k s"
    "sub_Status (applied st now plan p s) = st"
  by (simp_all add: applied_def is_provider_sub_def Let_def)

lemma hook_step:
  assumes e: "reliable e" and inv: "hook_inv e k ps w s" and p: "plain_event k p" and ps: "\<forall>q \<in> set ps. plain_event k q"
    and new: "\<forall>q \<in> set ps. EventID q \<noteq> EventID p \<and> EventTimestamp q \<noteq> EventTimestamp p"
  shows "\<exists>s'. hook_inv e k (ps @ [p]) (snd (ProcessSubscriptionWebhook e p w)) s'"
proof -
  have parts: "filter (is_provider_sub k) (subs_t (db w)) = [s]" "events_recorded ps (webhooks_t (db w))"
      "wh_ID ` set (webhooks_t (db w)) \<subseteq> uuid_at e ` {..<tick w}" "sub_healthy s (db w)"
    using inv by (simp_all add: hook_inv_def)
  have k: "payload_SubscriptionID p = k" and prov: "Provider p \<noteq> ''''" and ts: "EventTimestamp p \<noteq> 0"
      "to_second (EventTimestamp p) = EventTimestamp p"
    using p by (simp_all add: plain_event_def)
  obtain st where st: "event_status (EventType p) = Some st" using p by (auto simp: plain_event_def)
  have unseen: "\<not> seen_event (Provider p) (EventID p) (db w)" using new recorded_seen [OF parts(2)] by auto
  have tenant: "sub_TenantID s \<in> set (ent_tenants (db w))" using parts(4) by (simp add: sub_healthy_def bad_sub_def)
  have "s \<in> set (filter (is_provider_sub k) (subs_t (db w)))" unfolding parts(1) by simp
  then have sub: "is_provider_sub k s" by simp
  define w3 where "w3 = w\<lparr>tick := Suc (Suc (Suc (tick w)))\<rparr>"
  have same: "db w3 = db w" "tick w \<le> tick w3" by (simp_all add: w3_def)
  have latest: "latest_event k (db w) = (if ps = [] then None else Some (Max (EventTimestamp ` set ps)))"
    using recorded_latest [OF parts(2)] ps by (auto simp: plain_event_def)
  have run: "ProcessSubscriptionWebhook e p w = (case latest_event k (db w) of
       Some l \<Rightarrow> if EventTimestamp p < l then ignore_event e s p w3 else apply_event e s p w3
     | None \<Rightarrow> apply_event e s p w3)"
    using prov ts(1) unseen filter_one_find [OF parts(1)]
    by (auto simp: ProcessSubscriptionWebhook_def event_defaults_def andThen_def ret_def attempt_def reliable_stmts [OF e] k w3_def
        split: option.split)
  show ?thesis
  proof (cases "ps \<noteq> [] \<and> EventTimestamp p < Max (EventTimestamp ` set ps)")
    case True
    then obtain q where q: "newest_event ps q" "event_status (EventType q) = Some (sub_Status s)" using inv by (auto simp: hook_inv_def)
    obtain u where u: "u \<in> uuid_at e ` {..<tick w3 + 2}" "ignore_event e s p w3
        = (Inr (), hook_world (tick w3 + 2) (webhook_record u (sub_TenantID s) ''IGNORED_OUT_OF_ORDER'' p) (\<lambda>s. s) k w3)"
      using ignore_run [OF e, where w = w3 and n = "tick w" and p = p and s = s and k = k] same(2) parts(3) unseen tenant by (auto simp: same)
    have "newest_event (ps @ [p]) q" using q(1) True newest_event_Max [OF q(1)] by (auto simp: newest_event_def)
    then have "hook_inv e k (ps @ [p]) (hook_world (tick w3 + 2) (webhook_record u (sub_TenantID s) ''IGNORED_OUT_OF_ORDER'' p) (\<lambda>s. s) k w) s"
      using hook_world_inv [OF inv p, of _ "tick w3 + 2" "\<lambda>s. s" q] u(1) sub parts(4) q(2) ts(2) same
      by (simp add: row_key_def event_key_def webhook_record_def)
    then show ?thesis using run True latest u(2) by (auto simp: hook_world_def w3_def)
  next
    case False
    have "EventTimestamp q \<le> EventTimestamp p" if "q \<in> set ps" for q
    proof -
      have "ps \<noteq> []" using that by auto
      then have "Max (EventTimestamp ` set ps) \<le> EventTimestamp p" using False by (meson not_less)
      moreover have "EventTimestamp q \<le> Max (EventTimestamp ` set ps)" using that by (intro Max_ge) auto
      ultimately show ?thesis by (rule order_trans [rotated])
    qed
    then have "newest_event (ps @ [p]) p" by (auto simp: newest_event_def)
    have a: "wh_ID ` set (webhooks_t (db w3)) \<subseteq> uuid_at e ` {..<tick w}" "\<not> seen_event (Provider p) (EventID p) (db w3)"
        "filter (is_provider_sub (payload_SubscriptionID p)) (subs_t (db w3)) = [s]" "sub_healthy s (db w3)"
      using parts unseen by (simp_all add: same k)
    obtain j u now plan where j: "u \<in> uuid_at e ` {..<j}" "tick w \<le> j" "sub_healthy (applied st now plan p s) (db w)" "apply_event e s p w3
        = (Inr (), hook_world j (webhook_record u (sub_TenantID s) ''PROCESSED'' p) (applied st now plan p) k w3)"
      using apply_run [OF e a(1) same(2) a(2-4) st] unfolding same k by blast
    have "hook_inv e k (ps @ [p]) (hook_world j (webhook_record u (sub_TenantID s) ''PROCESSED'' p) (applied st now plan p) k w) (applied st now plan p s)"
      using hook_world_inv [OF inv p, of _ j "applied st now plan p" p] j sub \<open>newest_event (ps @ [p]) p\<close> st ts(2)
      by (simp add: row_key_def event_key_def webhook_record_def applied_sub)
    moreover have "ProcessSubscriptionWebhook e p w = apply_event e s p w3" using run False latest by auto
    ultimately show ?thesis using j(4) by (auto simp: hook_world_def w3_def)
  qed
qed

lemma deliver_inv:
  assumes "reliable e" and "hook_inv e k ps w s" and "\<forall>p \<in> set (ps @ qs). plain_event k p"
    and "distinct (map EventID (ps @ qs))" and "distinct (map EventTimestamp (ps @ qs))"
  shows "\<exists>s'. hook_inv e k (ps @ qs) (deliver e qs w) s'"
  using assms(2-)
proof (induction qs arbitrary: ps w s)
  case (Cons p qs)
  have "\<forall>q \<in> set ps. EventID q \<noteq> EventID p \<and> EventTimestamp q \<noteq> EventTimestamp p"
    using Cons.prems(3,4) by (auto simp: image_iff)
  then obtain s' where "hook_inv e k (ps @ [p]) (snd (ProcessSubscriptionWebhook e p w)) s'"
    using hook_step [OF assms(1) Cons.prems(1), of p] Cons.prems(2) by auto
  then show ?case using Cons.IH [of "ps @ [p]"] Cons.prems(2-) by simp
qed auto

text \<open>
  C39: webhooks may be delivered in any order: whatever the order, the subscription ends with the status that the
  event with the latest timestamp asks for.
\<close>

theorem webhooks_any_order:
  assumes "reliable e" and "webhooks_t (db w) = []" and "filter (is_provider_sub k) (subs_t (db w)) = [s]" and "sub_healthy s (db w)"
    and "\<forall>p \<in> set ps. plain_event k p" and "distinct (map EventID ps)" and "distinct (map EventTimestamp ps)" and "newest_event ps p"
  shows "map (\<lambda>s. Some (sub_Status s)) (filter (is_provider_sub k) (subs_t (db (deliver e ps w)))) = [event_status (EventType p)]"
proof -
  have "hook_inv e k [] w s" using assms(2-4) by (simp add: hook_inv_def events_recorded_def)
  then have "\<exists>s'. hook_inv e k ([] @ ps) (deliver e ps w) s'" by (rule deliver_inv [OF assms(1)]) (use assms(5-7) in simp_all)
  then obtain s' where inv: "hook_inv e k ps (deliver e ps w) s'" by auto
  obtain q where q: "newest_event ps q" "event_status (EventType q) = Some (sub_Status s')"
    using inv assms(8) by (auto simp: hook_inv_def newest_event_def)
  have "q = p" using q(1) assms(7,8) by (auto simp: newest_event_def distinct_map dest!: inj_onD [where x = q and y = p] intro: antisym)
  then show ?thesis using inv q(2) by (simp add: hook_inv_def)
qed

end
