(* ===== verification/MeterProps.thy ===== *)
theory MeterProps
  imports EntitleProps
begin

text \<open>
  The meter of a tenant as its bookings use it: any calls of reserve, commit and release, each in the transaction
  of its caller, and what the meter shows after them.
\<close>

section \<open>Bookings and the meter\<close>

definition ok_of :: "goerr + 'a \<Rightarrow> bool" where
  "ok_of r \<longleftrightarrow> (case r of Inl _ \<Rightarrow> False | Inr _ \<Rightarrow> True)"

lemma ok_of_simps [simp]: "\<not> ok_of (Inl err)" "ok_of (Inr x)"
  by (simp_all add: ok_of_def)

datatype meter_call = MeterReserve gostring | MeterCommit gostring | MeterRelease gostring

fun meter_act :: "env \<Rightarrow> gostring \<Rightarrow> meter_call \<Rightarrow> unit eact" where
  "meter_act e tenant (MeterReserve b) = ReserveBooking e tenant b"
| "meter_act e tenant (MeterCommit b) = CommitBooking e tenant b"
| "meter_act e tenant (MeterRelease b) = ReleaseBooking e tenant b"

text \<open>The subscription of the tenant is in its period at every time of the clock.\<close>

definition in_period :: "env \<Rightarrow> TenantSubscription \<Rightarrow> bool" where
  "in_period e s \<longleftrightarrow> (\<forall>n. CurrentPeriodStart s \<le> to_second (now_at e n) \<and> to_second (now_at e n) \<le> CurrentPeriodEnd s)"

definition fresh_events :: "env \<Rightarrow> ent_db \<Rightarrow> bool" where
  "fresh_events e d \<longleftrightarrow> (\<forall>n. uuid_at e n \<notin> ue_ID ` set (usage_events d))"

definition repeated :: "meter_call \<Rightarrow> meter_call list \<Rightarrow> bool" where
  "repeated c cs \<longleftrightarrow> (\<exists>b. c = MeterCommit b) \<and> c \<in> set cs"

text \<open>
  Any calls in any order, each in a transaction with its own clock within the period, its own identifiers and its own
  failures, which spare a repeated commit; and those that were granted, the latest first.
\<close>

inductive metering :: "gostring \<Rightarrow> TenantSubscription \<Rightarrow> ent_db world \<Rightarrow> ent_db world \<Rightarrow> meter_call list \<Rightarrow> bool"
  for tenant s w0 where
  metering_start: "metering tenant s w0 w0 []"
| metering_call: "metering tenant s w0 w cs \<Longrightarrow> in_period e s \<Longrightarrow> fresh_events e (db w) \<Longrightarrow>
    (repeated c cs \<longrightarrow> db_fails e = (\<lambda>_. None)) \<Longrightarrow> with_tx e False (\<lambda>_. meter_act e tenant c) w = (r, w') \<Longrightarrow>
    metering tenant s w0 w' (if ok_of r then c # cs else cs)"

text \<open>What a meter should show after the calls \<open>cs\<close>. The first reservation sets it up.\<close>

definition metered_yet :: "meter_call list \<Rightarrow> bool" where
  "metered_yet cs \<longleftrightarrow> (\<exists>b. MeterReserve b \<in> set cs)"

fun units_held :: "meter_call list \<Rightarrow> int" where
  "units_held [] = 0"
| "units_held (MeterReserve b # cs) = units_held cs + 1"
| "units_held (MeterRelease b # cs) = max 0 (units_held cs - 1)"
| "units_held (MeterCommit b # cs) = (if MeterCommit b \<in> set cs then units_held cs else max 0 (units_held cs - 1))"

fun units_used :: "meter_call list \<Rightarrow> int" where
  "units_used [] = 0"
| "units_used (MeterCommit b # cs) = (if MeterCommit b \<in> set cs \<or> \<not> metered_yet cs then units_used cs else units_used cs + 1)"
| "units_used (c # cs) = units_used cs"

text \<open>Every reservation found a unit left of the quota \<open>q\<close>.\<close>

fun granted :: "int \<Rightarrow> meter_call list \<Rightarrow> bool" where
  "granted q [] \<longleftrightarrow> True"
| "granted q (MeterReserve b # cs) \<longleftrightarrow> units_held cs + units_used cs < q \<and> granted q cs"
| "granted q (c # cs) \<longleftrightarrow> granted q cs"

text \<open>Callers that reserve a booking once and commit or release only what is on hold; commits may be repeated.\<close>

definition on_hold :: "meter_call list \<Rightarrow> gostring set" where
  "on_hold cs = {b. MeterReserve b \<in> set cs \<and> MeterCommit b \<notin> set cs \<and> MeterRelease b \<notin> set cs}"

definition committed :: "meter_call list \<Rightarrow> gostring set" where
  "committed cs = {b. MeterCommit b \<in> set cs}"

fun in_turn :: "meter_call list \<Rightarrow> bool" where
  "in_turn [] \<longleftrightarrow> True"
| "in_turn (MeterReserve b # cs) \<longleftrightarrow> in_turn cs \<and> MeterReserve b \<notin> set cs"
| "in_turn (MeterCommit b # cs) \<longleftrightarrow> in_turn cs \<and> b \<in> committed cs \<union> on_hold cs"
| "in_turn (MeterRelease b # cs) \<longleftrightarrow> in_turn cs \<and> b \<in> on_hold cs"

lemma finite_calls: "inj f \<Longrightarrow> finite {b. f b \<in> set cs}"
  using finite_vimageI [of "set cs" f] by (simp add: vimage_def)

lemma finite_holds: "finite (on_hold cs)" "finite (committed cs)"
proof -
  have "finite {b. MeterReserve b \<in> set cs}" by (rule finite_calls) (simp add: inj_def)
  then show "finite (on_hold cs)" by (rule rev_finite_subset) (auto simp: on_hold_def)
  show "finite (committed cs)" unfolding committed_def by (rule finite_calls) (simp add: inj_def)
qed

lemma in_turn_reserved: "in_turn cs \<Longrightarrow> MeterCommit b \<in> set cs \<or> MeterRelease b \<in> set cs \<Longrightarrow> MeterReserve b \<in> set cs"
  by (induction cs rule: in_turn.induct) (auto simp: on_hold_def committed_def)

lemma holds_Cons:
  "on_hold [] = {}" "committed [] = {}"
  "in_turn (MeterReserve b # cs) \<Longrightarrow> on_hold (MeterReserve b # cs) = insert b (on_hold cs)"
  "on_hold (MeterCommit b # cs) = on_hold cs - {b}" "on_hold (MeterRelease b # cs) = on_hold cs - {b}"
  "committed (MeterCommit b # cs) = insert b (committed cs)"
  "committed (MeterReserve b # cs) = committed cs" "committed (MeterRelease b # cs) = committed cs"
  using in_turn_reserved [of cs b] by (auto simp: on_hold_def committed_def)

lemma card_out: "finite H \<Longrightarrow> b \<in> H \<Longrightarrow> max 0 (int (card H) - 1) = int (card (H - {b}))"
  using card_Suc_Diff1 [of H b] by simp

lemma in_turn_units:
  "in_turn cs \<Longrightarrow> units_held cs = int (card (on_hold cs)) \<and> units_used cs = int (card (committed cs))"
proof (induction cs rule: in_turn.induct)
  case (2 b cs)
  then have "b \<notin> on_hold cs" by (simp add: on_hold_def)
  then show ?case using 2 finite_holds(1) by (simp add: holds_Cons)
next
  case (3 b cs)
  have same: "on_hold cs - {b} = on_hold cs" if "b \<in> committed cs" using that by (auto simp: on_hold_def committed_def)
  have "b \<notin> committed cs \<and> metered_yet cs" if "b \<in> on_hold cs" using that by (auto simp: on_hold_def committed_def metered_yet_def)
  then show ?case
    using 3 same finite_holds by (auto simp: holds_Cons card_out committed_def [symmetric] insert_absorb)
       (auto simp: committed_def metered_yet_def on_hold_def)
next
  case (4 b cs)
  then show ?case using finite_holds(1) by (simp add: holds_Cons card_out)
qed (simp add: holds_Cons)

lemma in_turn_quota: "in_turn cs \<Longrightarrow> granted q cs \<Longrightarrow> metered_yet cs \<Longrightarrow> units_held cs + units_used cs \<le> q"
proof (induction cs rule: in_turn.induct)
  case (3 b cs)
  have "0 < units_held cs" if "b \<in> on_hold cs"
    using that in_turn_units [of cs] 3(2) finite_holds(1) [of cs] by (auto simp: card_gt_0_iff)
  then show ?case using 3 by (auto simp: metered_yet_def committed_def)
next
  case (4 b cs)
  have "0 < units_held cs" using in_turn_units [of cs] 4(2) finite_holds(1) [of cs] by (auto simp: card_gt_0_iff)
  then show ?case using 4 by (auto simp: metered_yet_def)
qed (auto simp: metered_yet_def)

lemma not_metered: "\<not> metered_yet cs \<Longrightarrow> units_held cs = 0 \<and> units_used cs = 0 \<and> granted q cs"
  by (induction cs rule: units_held.induct) (auto simp: metered_yet_def)

section \<open>The invariant\<close>

text \<open>The quota of the tenant: of its override, or of its plan.\<close>

definition quota_of :: "gostring \<Rightarrow> TenantSubscription \<Rightarrow> ent_db \<Rightarrow> int \<Rightarrow> bool" where
  "quota_of tenant s d q \<longleftrightarrow>
     (\<exists>x. find_override tenant ''QUOTA'' QuotaMaxTripsPerMonth d = Some x \<and> scan_int (OverrideValue x) = Some q)
     \<or> (\<exists>p qs. find_plan (sub_PlanID s) d = Some p \<and> quotas_json p = Some qs
          \<and> q = (case qs QuotaMaxTripsPerMonth of None \<Rightarrow> 0 | Some v \<Rightarrow> v))"

definition tally :: "gostring \<Rightarrow> TenantSubscription \<Rightarrow> ent_db \<Rightarrow> meter_call list \<Rightarrow> TenantUsageMeter \<Rightarrow> bool" where
  "tally tenant s d cs m \<longleftrightarrow> meter_TenantID m = tenant \<and> meter_QuotaKey m = QuotaMaxTripsPerMonth
     \<and> PeriodStart m = CurrentPeriodStart s \<and> PeriodEnd m = CurrentPeriodEnd s
     \<and> ReservedQuantity m = units_held cs \<and> UsedQuantity m = units_used cs \<and> granted (MaxQuantity m) cs
     \<and> quota_of tenant s d (MaxQuantity m)"

definition counts_kept :: "gostring \<Rightarrow> TenantSubscription \<Rightarrow> meter_call list \<Rightarrow> ent_db \<Rightarrow> bool" where
  "counts_kept tenant s cs d \<longleftrightarrow> find (\<lambda>s. sub_TenantID s = tenant) (subs_t d) = Some s
     \<and> (\<forall>x \<in> set (usage_events d). \<exists>b. ue_IdempotencyKey x = reserveKey b ''commit'' \<and> MeterCommit b \<in> set cs)
     \<and> (\<forall>b. MeterCommit b \<in> set cs \<longrightarrow> has_event tenant (reserveKey b ''commit'') d)"

definition metered_ok :: "gostring \<Rightarrow> TenantSubscription \<Rightarrow> meter_call list \<Rightarrow> ent_db \<Rightarrow> bool" where
  "metered_ok tenant s cs d \<longleftrightarrow> counts_kept tenant s cs d
     \<and> (if metered_yet cs then \<exists>m. meters_t d = [m] \<and> tally tenant s d cs m else meters_t d = [])"

lemma quota_of_d [simp]:
  "quota_of tenant s (d\<lparr>meters_t := ms\<rparr>) q = quota_of tenant s d q"
  "quota_of tenant s (d\<lparr>usage_events := us\<rparr>) q = quota_of tenant s d q"
  by (simp_all add: quota_of_def find_override_def find_plan_def)

lemma tally_d [simp]:
  "tally tenant s (d\<lparr>meters_t := ms\<rparr>) cs m = tally tenant s d cs m"
  "tally tenant s (d\<lparr>usage_events := us\<rparr>) cs m = tally tenant s d cs m"
  by (simp_all add: tally_def)

lemma counts_kept_d [simp]: "counts_kept tenant s cs (d\<lparr>meters_t := ms\<rparr>) = counts_kept tenant s cs d"
  by (simp add: counts_kept_def has_event_def)

lemma counts_kept_Cons:
  "counts_kept tenant s (MeterReserve b # cs) d = counts_kept tenant s cs d" "counts_kept tenant s (MeterRelease b # cs) d = counts_kept tenant s cs d"
  "MeterCommit b \<in> set cs \<Longrightarrow> counts_kept tenant s (MeterCommit b # cs) d = counts_kept tenant s cs d"
  by (auto simp: counts_kept_def)

lemma reserveKey_eq:
  "reserveKey b ''commit'' = reserveKey b' ''commit'' \<longleftrightarrow> b = b'" "reserveKey b ''reserve'' \<noteq> reserveKey b' ''commit''"
proof -
  show "reserveKey b ''reserve'' \<noteq> reserveKey b' ''commit''"
    by (rule notI, drule arg_cong [where f = last]) (simp add: reserveKey_def)
qed (simp add: reserveKey_def)

lemma no_event:
  assumes "counts_kept tenant s cs d"
  shows "\<not> has_event tenant (reserveKey b ''reserve'') d"
    and "MeterCommit b \<notin> set cs \<Longrightarrow> \<not> has_event tenant (reserveKey b ''commit'') d"
proof -
  have "\<exists>b. ue_IdempotencyKey x = reserveKey b ''commit'' \<and> MeterCommit b \<in> set cs" if "x \<in> set (usage_events d)" for x
    using assms that by (simp add: counts_kept_def)
  then show "\<not> has_event tenant (reserveKey b ''reserve'') d"
      "MeterCommit b \<notin> set cs \<Longrightarrow> \<not> has_event tenant (reserveKey b ''commit'') d"
    unfolding has_event_def list_ex_iff by (metis reserveKey_eq)+
qed

lemma ends_now: "(\<And>n. P (Inr (now_at e n)) d) \<Longrightarrow> ends (clock e) d P"
  by (auto simp: ends_def clock_def)

lemma ends_new_id: "(\<And>n. P (Inr (uuid_at e n)) d) \<Longrightarrow> ends (new_uuid e) d P"
  by (auto simp: ends_def new_uuid_def)

lemma ends_calm_query: "db_fails e = (\<lambda>_. None) \<Longrightarrow> P (Inr (f d)) d \<Longrightarrow> ends (query e f) d P"
  by (auto simp: ends_def query_def Let_def)

text \<open>A tenant with a subscription: a failure to read it is not that there is none.\<close>

lemma ends_metered:
  assumes "find (\<lambda>s. sub_TenantID s = tenant) (subs_t d) = Some s" and "\<And>err. P (Inl err) d" and "ends m d P"
  shows "ends (metered e tenant m) d P"
proof -
  have "ends (GetSubscription e tenant) d (\<lambda>r d'. d' = d \<and> (case r of Inl err \<Rightarrow> err \<noteq> ErrSubscriptionNotFound | Inr _ \<Rightarrow> True))"
    using assms(1) by (auto simp: GetSubscription_def ends_def query_def andThen_def Let_def ErrSubscriptionNotFound_def
        ret_def fail_def split: option.splits)
  then show ?thesis
    unfolding metered_def by (intro ends_andThen ends_attempt) (erule ends_mono, auto intro: ending assms split: sum.splits)
qed

lemma ends_GetSubscription:
  "find (\<lambda>s. sub_TenantID s = tenant) (subs_t d) = Some s \<Longrightarrow> (\<And>err. P (Inl err) d) \<Longrightarrow> P (Inr s) d
    \<Longrightarrow> ends (GetSubscription e tenant) d P"
  unfolding GetSubscription_def by (intro ending) (auto intro: ending)

section \<open>One call\<close>

definition keeps :: "(ent_db \<Rightarrow> bool) \<Rightarrow> goerr + 'a \<Rightarrow> ent_db \<Rightarrow> bool" where
  "keeps P r d \<longleftrightarrow> (ok_of r \<longrightarrow> P d)"

lemma keeps_simps [simp]: "keeps P (Inl err) d" "keeps P (Inr x) d \<longleftrightarrow> P d"
  by (simp_all add: keeps_def)

lemma resolve_quota:
  "(\<And>err. P (Inl err) d) \<Longrightarrow> (\<And>q. quota_of tenant s d q \<Longrightarrow> P (Inr q) d)
    \<Longrightarrow> ends (resolveMaxQuota e tenant (sub_PlanID s) QuotaMaxTripsPerMonth) d P"
  unfolding resolveMaxQuota_def plan_quota_def plan_json_def
  by (intro ending) (auto intro!: ending simp: quota_of_def split: option.split)

text \<open>The meter is set up, or found.\<close>

definition meter_there :: "gostring \<Rightarrow> TenantSubscription \<Rightarrow> meter_call list \<Rightarrow> ent_db \<Rightarrow> bool" where
  "meter_there tenant s cs d \<longleftrightarrow> counts_kept tenant s cs d \<and> (\<exists>m. meters_t d = [m] \<and> tally tenant s d cs m)"

lemma meter_now: "tally tenant s d cs m \<Longrightarrow> in_period e s \<Longrightarrow> meter_at tenant QuotaMaxTripsPerMonth (now_at e n) m"
  by (simp add: tally_def meter_at_def in_period_def)

lemma check_quota:
  assumes ok: "metered_ok tenant s cs d" and period: "in_period e s"
  shows "ends (CheckQuota e tenant QuotaMaxTripsPerMonth) d (keeps (meter_there tenant s cs))"
proof -
  have s: "find (\<lambda>s. sub_TenantID s = tenant) (subs_t d) = Some s" using ok by (simp add: metered_ok_def counts_kept_def)
  have found: "meter_there tenant s cs d" if "find (meter_at tenant QuotaMaxTripsPerMonth (now_at e n)) (meters_t d) = Some m" for n m
    using that ok by (auto simp: meter_there_def metered_ok_def split: if_splits)
  have new: "meter_there tenant s cs d'"
    if none: "find (meter_at tenant QuotaMaxTripsPerMonth (now_at e n)) (meters_t d) = None" and q: "quota_of tenant s d q"
      and ins: "insert_meter (new_meter u tenant QuotaMaxTripsPerMonth s q) d = Inr d'" for n q u d'
  proof -
    have no: "\<not> metered_yet cs" using none ok meter_now [OF _ period] by (auto simp: metered_ok_def split: if_splits)
    then have m: "meters_t d = []" using ok by (simp add: metered_ok_def)
    have d': "d' = d\<lparr>meters_t := [new_meter u tenant QuotaMaxTripsPerMonth s q]\<rparr>"
      using ins m by (auto simp: insert_meter_def split: if_splits)
    show ?thesis
      using ok q not_metered [OF no] unfolding d'
      by (auto simp: meter_there_def metered_ok_def tally_def new_meter_def)
  qed
  show ?thesis
    unfolding CheckQuota_def
    by (intro ends_andThen ends_GetSubscription [OF s] ends_now ends_query ends_Inr)
       (auto intro!: ending resolve_quota dest: found new split: option.split sum.split)
qed

lemma update_one:
  "meters_t d = [m] \<Longrightarrow> update_meters hit f d = Inr (n, d') \<Longrightarrow>
   (if hit m then d' = d\<lparr>meters_t := [f m]\<rparr> \<and> n = 1 else d' = d\<lparr>meters_t := [m]\<rparr> \<and> n = 0)"
  by (auto simp: update_meters_def)

lemma tallied:
  assumes "counts_kept tenant s cs' d" and "tally tenant s d cs' m" and "metered_yet cs'"
  shows "metered_ok tenant s cs' (d\<lparr>meters_t := [m]\<rparr>)"
  using assms by (simp add: metered_ok_def)

lemma reserve_booking:
  assumes ok: "metered_ok tenant s cs d" and period: "in_period e s"
  shows "ends (ReserveBooking e tenant b) d (keeps (metered_ok tenant s (MeterReserve b # cs)))"
proof -
  have s: "find (\<lambda>s. sub_TenantID s = tenant) (subs_t d) = Some s" and books: "counts_kept tenant s cs d"
    using ok by (simp_all add: metered_ok_def counts_kept_def)
  have held: "metered_ok tenant s (MeterReserve b # cs) d2"
    if there: "meter_there tenant s cs d1" and upd: "update_meters (\<lambda>m. meter_at tenant QuotaMaxTripsPerMonth now m
        \<and> UsedQuantity m + ReservedQuantity m + 1 \<le> MaxQuantity m) (take_hold 1) d1 = Inr (n, d2)" and "n \<noteq> 0" for d1 d2 now n
  proof -
    obtain m where m: "meters_t d1 = [m]" "tally tenant s d1 cs m" and b: "counts_kept tenant s cs d1"
      using there by (auto simp: meter_there_def)
    have room: "UsedQuantity m + ReservedQuantity m + 1 \<le> MaxQuantity m" and d2: "d2 = d1\<lparr>meters_t := [take_hold 1 m]\<rparr>"
      using update_one [OF m(1) upd] \<open>n \<noteq> 0\<close> by (auto split: if_splits)
    show ?thesis unfolding d2
      by (rule tallied) (use b m(2) room in \<open>auto simp: counts_kept_Cons tally_def take_hold_def metered_yet_def\<close>)
  qed
  show ?thesis
    unfolding ReserveBooking_def ReserveQuota_def
    by (intro ends_metered [OF s] ending; simp add: no_event [OF books])
       (auto intro!: ending ends_mono [OF check_quota [OF ok period]] intro: held split: sum.split)
qed

text \<open>An update of the meter in its period, where there is one.\<close>

lemma metered_update:
  assumes ok: "metered_ok tenant s cs d" and period: "in_period e s"
    and upd: "update_meters (meter_at tenant QuotaMaxTripsPerMonth (now_at e n)) f d = Inr (j, d')"
    and new: "\<And>m. metered_yet cs \<Longrightarrow> tally tenant s d cs m \<Longrightarrow> tally tenant s d cs' (f m)"
    and same: "metered_yet cs' = metered_yet cs"
  shows "if metered_yet cs' then \<exists>m. meters_t d' = [m] \<and> tally tenant s d' cs' m else meters_t d' = []"
    and "\<exists>ms. d' = d\<lparr>meters_t := ms\<rparr>"
proof -
  show "\<exists>ms. d' = d\<lparr>meters_t := ms\<rparr>"
    using upd by (auto simp: update_meters_def)
  show "if metered_yet cs' then \<exists>m. meters_t d' = [m] \<and> tally tenant s d' cs' m else meters_t d' = []"
  proof (cases "metered_yet cs")
    case True
    then obtain m where m: "meters_t d = [m]" "tally tenant s d cs m" using ok by (auto simp: metered_ok_def)
    then have "d' = d\<lparr>meters_t := [f m]\<rparr>" using update_one [OF m(1) upd] meter_now [OF m(2) period] by simp
    then show ?thesis using True same new [OF True m(2)] by simp
  next
    case False
    then show ?thesis using ok upd same by (auto simp: metered_ok_def update_meters_def)
  qed
qed

lemma give_back_max: "ReservedQuantity (give_back 1 m) = max 0 (ReservedQuantity m - 1)"
  by (simp add: give_back_def max_def)

lemma release_booking:
  assumes ok: "metered_ok tenant s cs d" and period: "in_period e s"
  shows "ends (ReleaseBooking e tenant b) d (keeps (metered_ok tenant s (MeterRelease b # cs)))"
proof -
  have s: "find (\<lambda>s. sub_TenantID s = tenant) (subs_t d) = Some s" using ok by (simp add: metered_ok_def counts_kept_def)
  have yet: "metered_yet (MeterRelease b # cs) = metered_yet cs" by (simp add: metered_yet_def)
  have "tally tenant s d (MeterRelease b # cs) (give_back 1 m)" if "tally tenant s d cs m" for m
    using that by (simp add: tally_def give_back_max) (simp add: give_back_def)
  note given = metered_update [OF ok period _ this yet]
  have "metered_ok tenant s (MeterRelease b # cs) d'"
    if "update_meters (meter_at tenant QuotaMaxTripsPerMonth (now_at e n)) (give_back 1) d = Inr (j, d')" for n j d'
    using given(1) [OF that] given(2) [OF that] ok unfolding metered_ok_def by (auto simp: counts_kept_Cons)
  then show ?thesis
    unfolding ReleaseBooking_def ReleaseQuota_def
    by (intro ends_metered [OF s] ends_andThen ends_now) (auto intro!: ending)
qed

lemma commit_repeated:
  assumes ok: "metered_ok tenant s cs d" and "MeterCommit b \<in> set cs" and calm: "db_fails e = (\<lambda>_. None)"
  shows "ends (CommitBooking e tenant b) d (keeps (metered_ok tenant s (MeterCommit b # cs)))"
proof -
  have s: "find (\<lambda>s. sub_TenantID s = tenant) (subs_t d) = Some s" and seen: "has_event tenant (reserveKey b ''commit'') d"
    using ok assms(2) by (simp_all add: metered_ok_def counts_kept_def)
  have "metered_yet (MeterCommit b # cs) = metered_yet cs" by (simp add: metered_yet_def)
  moreover have "tally tenant s d (MeterCommit b # cs) m = tally tenant s d cs m" for m using assms(2) by (simp add: tally_def)
  ultimately have "metered_ok tenant s (MeterCommit b # cs) d" using ok assms(2) by (simp add: metered_ok_def counts_kept_Cons)
  then show ?thesis
    unfolding CommitBooking_def
    by (intro ends_metered [OF s] ends_andThen ends_attempt ends_calm_query [OF calm]) (simp_all add: seen ends_ret)
qed

lemma commit_new:
  assumes ok: "metered_ok tenant s cs d" and new: "MeterCommit b \<notin> set cs" and period: "in_period e s" and fresh: "fresh_events e d"
  shows "ends (CommitBooking e tenant b) d (keeps (metered_ok tenant s (MeterCommit b # cs)))"
proof -
  have s: "find (\<lambda>s. sub_TenantID s = tenant) (subs_t d) = Some s" and books: "counts_kept tenant s cs d"
    using ok by (simp_all add: metered_ok_def counts_kept_def)
  have yet: "metered_yet (MeterCommit b # cs) = metered_yet cs" by (simp add: metered_yet_def)
  have "tally tenant s d (MeterCommit b # cs) (use_up 1 m)" if "metered_yet cs" "tally tenant s d cs m" for m
    using that new by (simp add: tally_def use_up_def give_back_max) (simp add: give_back_def)
  note taken = metered_update [OF ok period _ this yet]
  have used: "metered_ok tenant s (MeterCommit b # cs) d2"
    if upd: "update_meters (meter_at tenant QuotaMaxTripsPerMonth (now_at e n)) (use_up 1) d = Inr (j, d1)"
      and ins: "insert_usage x d1 = Inr d2" and x: "ue_IdempotencyKey x = reserveKey b ''commit''" "ue_TenantID x = tenant"
        "ue_ID x = uuid_at e k" for n j d1 d2 x k
  proof -
    obtain ms where d1: "d1 = d\<lparr>meters_t := ms\<rparr>" using taken(2) [OF upd] by blast
    have "\<not> has_event tenant (reserveKey b ''commit'') d1" using no_event(2) [OF books new] by (simp add: has_event_def d1)
    moreover have "ue_ID x \<notin> ue_ID ` set (usage_events d1)" using fresh x(3) by (auto simp: fresh_events_def d1)
    ultimately have d2: "d2 = d1\<lparr>usage_events := usage_events d1 @ [x]\<rparr>"
      using ins x(1,2) by (simp add: insert_usage_def split: if_splits)
    have "counts_kept tenant s (MeterCommit b # cs) d2"
      using books x(1,2) unfolding counts_kept_def d2 d1 by (auto simp: has_event_def)
    moreover have "if metered_yet (MeterCommit b # cs) then \<exists>m. meters_t d2 = [m] \<and> tally tenant s d2 (MeterCommit b # cs) m else meters_t d2 = []"
      using taken(1) [OF upd] unfolding d2 by simp
    ultimately show ?thesis unfolding metered_ok_def by blast
  qed
  show ?thesis
    unfolding CommitBooking_def CommitQuota_def
    by (intro ends_metered [OF s] ends_andThen ends_attempt ends_query ends_Inl ends_Inr ends_if ends_ret ends_now ends_exec_count
          ends_new_id ends_exec)
       (auto simp: no_event(2) [OF books new] intro: used)
qed

lemma meter_act_ok:
  assumes "metered_ok tenant s cs d" and "in_period e s" and "fresh_events e d" and "repeated c cs \<longrightarrow> db_fails e = (\<lambda>_. None)"
  shows "ends (meter_act e tenant c) d (keeps (metered_ok tenant s (c # cs)))"
proof (cases c)
  case (MeterCommit b)
  then show ?thesis
    using assms commit_repeated [of tenant s cs d b e] commit_new [of tenant s cs d b e] by (cases "MeterCommit b \<in> set cs") (auto simp: repeated_def)
qed (use assms reserve_booking release_booking in auto)

section \<open>Every sequence\<close>

lemma with_tx_keeps:
  assumes run: "with_tx e False fn w = (r, w')" and "P (db w)" and "ends (fn True) (db w) (keeps Q)"
  shows "if ok_of r then Q (db w') else P (db w')"
proof -
  have "ends (with_tx e False fn) (db w) (\<lambda>r d'. case r of Inl _ \<Rightarrow> d' = db w | Inr _ \<Rightarrow> Q d')"
    by (rule ends_with_tx, simp, rule ends_mono [OF assms(3)]) (auto split: sum.splits)
  then have "case r of Inl _ \<Rightarrow> db w' = db w | Inr _ \<Rightarrow> Q (db w')"
    using endsD [of "with_tx e False fn" w] run by fastforce
  then show ?thesis using assms(2) by (cases r) auto
qed

lemma metering_ok:
  assumes "metering tenant s w0 w cs" and "metered_ok tenant s [] (db w0)"
  shows "metered_ok tenant s cs (db w)"
  using assms
proof (induction rule: metering.induct)
  case (metering_call w cs e c r w')
  then have ok: "metered_ok tenant s cs (db w)" by simp
  show ?case
    using with_tx_keeps [OF metering_call.hyps(5), where P = "metered_ok tenant s cs" and Q = "metered_ok tenant s (c # cs)",
      OF ok meter_act_ok [OF ok metering_call.hyps(2-4)]] by (simp split: if_splits)
qed simp

text \<open>
  C38: the meter of a tenant counts, within one period: after any calls of reserve, commit and release in any order,
  each with any failures, it shows what the granted calls amount to. A reservation takes a unit on hold, and is
  granted only while one of the quota is left; a release gives one back, if one is on hold; the first commit of a
  booking turns one into a used unit, and a repeated one does nothing, provided that its look-up of the first does not
  fail. Where bookings are reserved once and only those on hold are committed or released, the units on hold and used
  are the numbers of bookings on hold and committed, and together they stay within the quota.
\<close>

theorem meter_counts_bookings:
  assumes "metering tenant s w0 w cs" and "find (\<lambda>s. sub_TenantID s = tenant) (subs_t (db w0)) = Some s"
    and "meters_t (db w0) = []" and "usage_events (db w0) = []"
  shows "if metered_yet cs then (\<exists>m. meters_t (db w) = [m] \<and> quota_of tenant s (db w) (MaxQuantity m)
      \<and> ReservedQuantity m = units_held cs \<and> UsedQuantity m = units_used cs \<and> granted (MaxQuantity m) cs
      \<and> (in_turn cs \<longrightarrow> ReservedQuantity m = int (card (on_hold cs)) \<and> UsedQuantity m = int (card (committed cs))
           \<and> ReservedQuantity m + UsedQuantity m \<le> MaxQuantity m))
    else meters_t (db w) = []"
proof -
  have "metered_ok tenant s cs (db w)"
    by (rule metering_ok [OF assms(1)]) (use assms(2-4) in \<open>simp add: metered_ok_def counts_kept_def metered_yet_def\<close>)
  then show ?thesis using in_turn_units [of cs] in_turn_quota [of cs] by (auto simp: metered_ok_def tally_def)
qed

section \<open>Examples\<close>

definition ex_ent_env :: env where
  "ex_ent_env = \<lparr>now_at = (\<lambda>_. 5000000000), uuid_at = (\<lambda>n. replicate n (CHR ''u'')), db_fails = (\<lambda>_. None)\<rparr>"

definition ex_sub :: TenantSubscription where
  "ex_sub = \<lparr>sub_ID = ''s'', sub_TenantID = ''t'', sub_PlanID = ''p'', sub_Status = SubPastDue, CurrentPeriodStart = 0,
     CurrentPeriodEnd = 9000000000, TrialEnd = None, ProviderSubscriptionID = Some ''k'', sub_CreatedAt = 0, sub_UpdatedAt = Iso 0\<rparr>"

definition ex_ent :: "ent_db world" where
  "ex_ent = \<lparr>db = \<lparr>subs_t = [ex_sub], plans_t = [\<lparr>plan_ID = ''p'', plan_Name = '''', plan_Description = '''',
       MonthlyPriceINR = Fin 1, features_json = Some [], quotas_json = Some [QuotaMaxTripsPerMonth \<mapsto> 2], plan_IsActive = True\<rparr>],
     ent_overrides = [], meters_t = [], usage_events = [], webhooks_t = [], ent_tenants = [''t'']\<rparr>, tick = 0\<rparr>"

definition ex_hook :: "gostring \<Rightarrow> gostring \<Rightarrow> gotime \<Rightarrow> WebhookEventPayload" where
  "ex_hook k ty t = \<lparr>EventID = k, EventType = ty, Provider = ''RAZORPAY'', payload_SubscriptionID = ''k'', payload_PlanID = '''',
     EventTimestamp = t, payload_PeriodStart = 0, payload_PeriodEnd = 0\<rparr>"

lemma replicate_inj: "inj (\<lambda>n. replicate n c)"
  by (rule injI) (metis length_replicate)

lemmas ent_eval = exec_stmt_def exec_count_def query_def clock_def new_uuid_def with_tx_def ret_def fail_def andThen_def attempt_def Let_def
  meter_act.simps ex_ent_env_def ex_ent_def ex_sub_def ex_hook_def GetSubscription_def metered_def ReserveBooking_def ReserveQuota_def
  CheckQuota_def has_event_def reserveKey_def meter_at_def to_second_def resolveMaxQuota_def find_override_def plan_quota_def
  plan_json_def find_plan_def insert_meter_def new_meter_def quota_status_def RemainingCapacity_def update_meters_def take_hold_def
  CommitBooking_def CommitQuota_def use_up_def give_back_def insert_usage_def
  ProcessSubscriptionWebhook_def event_defaults_def seen_event_def is_provider_sub_def latest_event_def ignore_event_def
  apply_event_def event_status_def payload_plan_def update_sub_def bad_sub_def applied_def insert_webhook_def webhook_record_def

text \<open>Nothing records that a booking was reserved: the key that is looked up is never stored, and a retry takes a second unit.\<close>

lemma reserve_twice:
  "map ReservedQuantity (meters_t (db (snd (andThen (ReserveBooking ex_ent_env ''t'' ''b'') (\<lambda>_. ReserveBooking ex_ent_env ''t'' ''b'') ex_ent)))) = [2]"
  by (simp add: ent_eval)

text \<open>A release does not look at the booking: one that was never reserved gives back the unit of another.\<close>

lemma release_any: "ReleaseBooking e tenant b = ReleaseBooking e tenant b'"
  by (simp add: ReleaseBooking_def)

text \<open>A repeated commit whose look-up of the first one fails takes a second used unit: the failure counts as not found.\<close>

lemma commit_twice:
  assumes "w = snd (andThen (ReserveBooking ex_ent_env ''t'' ''b'') (\<lambda>_. CommitBooking ex_ent_env ''t'' ''b'') ex_ent)"
    and "e = ex_ent_env\<lparr>db_fails := (\<lambda>n. if n = Suc (tick w) then Some ''busy'' else None)\<rparr>"
  shows "map UsedQuantity (meters_t (db (snd (CommitBooking e ''t'' ''b'' w)))) = [2]"
  using assms by (simp add: ent_eval)

text \<open>An event of another kind advances the latest timestamp, so that an older failure of a payment is dropped.\<close>

lemma unknown_event_hides:
  "map sub_Status (subs_t (db (deliver ex_ent_env [ex_hook ''a'' ''payment.captured'' 1000000000,
     ex_hook ''c'' ''invoice.paid'' 3000000000, ex_hook ''b'' ''payment.failed'' 2000000000] ex_ent))) = [SubActive]"
  by (simp add: ent_eval)

text \<open>A row dated by the database is taken for a day older than it is, up to a second.\<close>

lemma dunning_early:
  "before_iso (Plain (day * 86400000000000 + 86399000000000)) (days_before PastDueGraceDays ((day + 7) * 86400000000000))"
proof -
  have "day_of (day * 86400000000000 + 86399000000000) = day" "day_of (day * 86400000000000) = day" by (simp_all add: day_of_def)
  moreover have "to_second ((day + 7) * 86400000000000) = (day + 7) * 86400000000000"
    using nonzero_mult_div_cancel_right [of 1000000000 "(day + 7) * 86400"] by (simp add: to_second_def)
  ultimately show ?thesis by (simp add: days_before_eq PastDueGraceDays_def)
qed

section \<open>Witnesses\<close>

theorem meter_counts_bookings_witness:
  "\<exists>w. metering ''t'' ex_sub ex_ent w [MeterCommit ''b'', MeterReserve ''c'', MeterReserve ''b'']
     \<and> (\<exists>m. meters_t (db w) = [m] \<and> ReservedQuantity m = 1 \<and> UsedQuantity m = 1 \<and> MaxQuantity m = 2)"
proof -
  let ?tx = "\<lambda>c. with_tx ex_ent_env False (\<lambda>_. meter_act ex_ent_env ''t'' c)"
  obtain r w where run: "?tx (MeterReserve ''b'') ex_ent = (r, w)" by fastforce
  obtain r' w' where run': "?tx (MeterReserve ''c'') w = (r', w')" by fastforce
  obtain r'' w'' where run'': "?tx (MeterCommit ''b'') w' = (r'', w'')" by fastforce
  have p: "in_period ex_ent_env ex_sub" by (simp add: in_period_def ex_ent_env_def ex_sub_def to_second_def)
  have w: "ok_of r" "usage_events (db w) = []" using run by (auto simp: ent_eval)
  have w': "ok_of r'" "usage_events (db w') = []" using run run' by (auto simp: ent_eval)
  have w'': "ok_of r''" using run run' run'' by (auto simp: ent_eval)
  have a: "metering ''t'' ex_sub ex_ent w [MeterReserve ''b'']"
    using metering_call [OF metering_start p _ _ run] w(1) by (simp add: fresh_events_def repeated_def ex_ent_def)
  have b: "metering ''t'' ex_sub ex_ent w' [MeterReserve ''c'', MeterReserve ''b'']"
    using metering_call [OF a p _ _ run'] w w'(1) by (simp add: fresh_events_def repeated_def)
  have c: "metering ''t'' ex_sub ex_ent w'' [MeterCommit ''b'', MeterReserve ''c'', MeterReserve ''b'']"
    using metering_call [OF b p _ _ run''] w'(2) w'' by (simp add: fresh_events_def repeated_def)
  have "quota_of ''t'' ex_sub (db w'') q \<longleftrightarrow> q = 2" for q
    using run run' run'' by (auto simp: ent_eval quota_of_def)
  moreover have "metered_yet [MeterCommit ''b'', MeterReserve ''c'', MeterReserve ''b'']" by (auto simp: metered_yet_def)
  ultimately show ?thesis
    using meter_counts_bookings [OF c] c by (simp add: ex_ent_def ex_sub_def metered_yet_def) blast
qed

theorem webhooks_any_order_witness:
  "map (\<lambda>s. Some (sub_Status s)) (filter (is_provider_sub ''k'') (subs_t (db (deliver ex_ent_env
     [ex_hook ''a'' ''payment.captured'' 2000000000, ex_hook ''b'' ''payment.failed'' 1000000000] ex_ent)))) = [Some SubActive]"
proof -
  have "reliable ex_ent_env" by (simp add: reliable_def ex_ent_env_def replicate_inj)
  moreover have "sub_healthy ex_sub (db ex_ent)" by (simp add: sub_healthy_def bad_sub_def ex_ent_def ex_sub_def)
  ultimately show ?thesis
    using webhooks_any_order [of ex_ent_env ex_ent "''k''" ex_sub "[ex_hook ''a'' ''payment.captured'' 2000000000,
      ex_hook ''b'' ''payment.failed'' 1000000000]" "ex_hook ''a'' ''payment.captured'' 2000000000"]
    by (simp add: plain_event_def newest_event_def ex_hook_def event_status_def to_second_def ex_ent_def is_provider_sub_def ex_sub_def)
qed

theorem dunning_three_weeks_witness:
  "sub_Status (subs_t (db (sweeps [(ex_ent_env, 700000000000000), (ex_ent_env, 2000000000000000)] ex_ent)) ! 0) = SubReadOnly
     \<and> three_weeks < 2000000000000000"
proof -
  have st: "SubReadOnly = sub_Status (subs_t (db (sweeps [(ex_ent_env, 700000000000000), (ex_ent_env, 2000000000000000)] ex_ent)) ! 0)"
    by (simp add: ent_eval SweepDunning_def move_stale_def days_before_def PastDueGraceDays_def GraceReadOnlyDays_def)
  show ?thesis using dunning_three_weeks [of 0 ex_ent, OF _ _ st] st by (auto simp: ex_ent_def ex_sub_def three_weeks_def)
qed

end
