(* ===== verification/Spec2Isabelle.thy ===== *)
theory Spec2Isabelle
  imports TripUseProps Booking InvoiceProps Driver Vehicle Eligibility SettleRuns TcpIngest Leader IngestProps
    Outbox Resilience Dwell StoProps DeviationProps MeterProps
begin

text \<open>
  A verification development for the Go backend of a transport management system: the aggregates of
  the business (trips, bookings, invoices, payments, vehicles, drivers), the settlement of driver
  pay, the telemetry of the vehicles from the first byte on the wire to the tables and the events,
  and the services they rest on (event bus, outbox, leases, retries). Paths are relative to
  \<open>src/internal\<close>.

  \<^bold>\<open>The program.\<close> Aggregates are state machines that return errors and record events. The settlement
  service turns a finished trip into a settlement with ledger entries, pays drivers out and applies the
  callbacks of the payment provider, all in SQL transactions. Trackers connect to a TCP server that
  recognises three protocols, decodes frames and hands them to an ingestor, directly or through a
  bounded queue with workers; the ingestor stores a frame in one transaction together with the events
  it causes, and a relay publishes those events to the subscribers of the bus. Fixes drive a dwell
  engine that reports when vehicles enter and leave zones, and a deviation engine that reports when they
  leave their route. The use cases of trips load an aggregate, check drivers and vehicles, call it and store it
  with its events in one transaction; the load board offers transfers to carriers. Workers elect one replica through leases.

  \<^bold>\<open>Foundations.\<close>
  \<^item> \<open>Prelude\<close>: Go strings as byte lists, instants as nanoseconds since the zero value of \<open>time.Time\<close>,
    64-bit integers as words, pointers to values as options; generic lemmas.
  \<^item> \<open>GoFloat\<close>: IEEE 754 binary64 with round-to-nearest-even, NaN and infinities, written over the
    rationals, and error bounds. There is one zero; conversions to integers are those of amd64.
    \<open>GoMath\<close>: package \<open>math\<close>, whose elementary functions are one argument (\<open>gomath\<close>) of the models, and
    monotone rounding. \<open>GoBytes\<close>, \<open>GoText\<close>: slices with panics as values, big-endian integers, dates,
    the functions of \<open>strings\<close> and \<open>strconv\<close> in use.
  \<^item> \<open>Effects\<close>: code that talks to a database as actions over the tables. The environment decides about
    the time, fresh identifiers and the failure of any call, so that a theorem for all environments
    covers a failure at every point; a transaction that fails leaves the tables as they were. \<open>Along\<close>:
    preorders kept by actions, as a locale with an interpretation for each invariant. \<open>Ends\<close>: rules that
    say what holds however an action ends, and tables that grow.

  \<^bold>\<open>Components.\<close>
  \<^item> \<open>Money\<close>: \<open>shared/money.go\<close>. Round trips between paise and floats up to 2^50 paise.
  \<^item> \<open>Trip\<close>, \<open>TripLife\<close>: \<open>trip/domain/aggregate/trip_aggregate.go\<close>, one definition per method, and the
    guards of \<open>trip/domain/workflow\<close>. Reachable trips by rule induction; the log of every run is a path of
    an abstract life cycle; stops are served in order and completed only with their proofs.
  \<^item> \<open>TripStore\<close>, \<open>TripUse\<close>: \<open>trip/infrastructure/persistence/sql\<close> (rows, stops, outbox, the search for
    conflicts of drivers and vehicles) and the use cases of \<open>trip/application\<close> in their transactions, with
    compliance, overrides, maintenance and audit. \<open>TripUseSteps\<close>, \<open>TripUseEnds\<close>, \<open>TripUseMoves\<close>,
    \<open>TripUseRuns\<close>: how an aggregate moves between loading and storing, what each action does to the stored
    trips, one lemma per use case, and the invariant of all sequences of calls; \<open>TripUseProps\<close>: a driver or
    vehicle is on one trip under way, the outbox tells the story of every trip, no update is lost.
  \<^item> \<open>Booking\<close>, \<open>Invoice\<close>, \<open>InvoiceProps\<close>, \<open>Driver\<close>, \<open>Vehicle\<close>: the aggregates of the same names under
    \<open>*/domain/aggregate\<close>. Invoice amounts are floats: payments of whole paise are exact to 2^50 paise,
    totals on up to 4096 lines of less than 2^40 paise.
  \<^item> \<open>Eligibility\<close>: \<open>driver/domain/eligibility/eligibility.go\<close>, against an abstract requirement.
  \<^item> \<open>Settlement\<close>, \<open>SettleStore\<close>, \<open>SettleService\<close>: \<open>settlement/domain\<close>, the repository and the service;
    \<open>SettleLedger\<close>, \<open>SettleBooks\<close>, \<open>SettleProps\<close>, \<open>SettleRuns\<close>: the ledger, what one call does on every
    exit, the invariant of all calls, and the properties. Balances are exact up to 2^44 paise.
  \<^item> \<open>Frames\<close>, \<open>Gt06\<close>, \<open>Teltonika\<close>, \<open>Ais140\<close>: \<open>telemetry/providers\<close>. Decoders never panic; Codec 8
    records round-trip; checksums detect every change of one byte.
  \<^item> \<open>AsyncQueue\<close>: \<open>telemetry/async_queue.go\<close> as atomic actions of pushers, workers and the drain that
    interleave in every way; frames are conserved, up to those that are given up without being counted, and
    drains terminate. \<open>TcpIngest\<close>: one connection of
    \<open>telemetry/tcp_ingest.go\<close>; what ingesting a frame answers is any function of what was ingested.
  \<^item> \<open>IngestStore\<close>, \<open>Ingest\<close>, \<open>IngestProps\<close>: the tables of \<open>telemetry/device_store.go\<close>, \<open>quarantine.go\<close>
    and \<open>odometer_guard.go\<close> with the constraints of \<open>db/schema.sql\<close>, \<open>IngestRawFrame\<close> step by step
    (\<open>telemetry/ingest.go\<close>), and what it promises: four outcomes, replays, emergencies, the live map. A device
    time is stored with its wall clock and zone (\<open>db_time\<close>) and compared as that text.
  \<^item> \<open>Outbox\<close>: \<open>events/bus.go\<close> and \<open>shared/outbox/relay.go\<close>; at-least-once delivery and progress.
  \<^item> \<open>Resilience\<close>: \<open>shared/resilience/resilience.go\<close>. \<open>Leader\<close>: \<open>leader/leader.go\<close>, the fleet of replicas as
    a step relation; at most one holds an unexpired lease.
  \<^item> \<open>Geofencing\<close>, \<open>Dwell\<close>: \<open>geofence/domain/geo.go\<close>, \<open>geofence.go\<close> and
    \<open>geofence/application/dwell_engine.go\<close>; every event is debounced, and entries and exits alternate.
  \<^item> \<open>Sto\<close>, \<open>StoSteps\<close>, \<open>StoProps\<close>: the load board of \<open>sto\<close>, its repository and its service: transfer orders,
    listings, bids and the award. A listing has one winner, decisions are final.
  \<^item> \<open>ConfigReader\<close>: \<open>fuel/config.go\<close>, the cached settings of a tenant. \<open>Deviation\<close>, \<open>DeviationProps\<close>:
    \<open>deviation\<close>, the tracker of a trip against the corridor of its route; every alert is backed by a streak
    of fixes off the corridor, the alerts of one excursion are a cooldown apart, and what goes to the bus is in the tables.
  \<^item> \<open>Entitle\<close>, \<open>Subscribe\<close>: \<open>entitlement/domain\<close> and \<open>entitlement/application/service.go\<close>: plans, features,
    quotas and meters; subscriptions, their webhooks and the sweep of unpaid ones, with time stamps compared as
    the text that is stored. \<open>EntitleProps\<close>, \<open>MeterProps\<close>: webhooks may arrive in any order, nobody loses
    access early, and the meter of a tenant shows what the calls of its bookings amount to.

  \<^bold>\<open>How they fit together.\<close> The connection of \<open>TcpIngest\<close> uses the three decoders and what is proved of
  them; the queue passes frames to \<open>IngestRawFrame\<close>, whose outcomes \<open>IngestProps\<close> lists; the events it
  puts in the outbox are those the relay of \<open>Outbox\<close> delivers. The use cases of trips carry what \<open>TripLife\<close>
  proves of single methods to the tables: one step of the aggregate is one move of its row. The settlement theories and the
  ingestion share \<open>Effects\<close>; the interfaces between layers are locales (a running balance, a
  checksum, a preorder kept by statements) that are interpreted on the code's own definitions.

  \<^bold>\<open>Assumptions of the models.\<close> The database is SQLite: a NaN is stored as NULL, rows with equal keys
  keep their order in a descending sort, foreign keys are checked. Instants
  are compared as such, except device times and the time stamps of subscriptions, which are compared as the text
  that is stored; for departures (\<open>trip_repository.go:353\<close>) this is the order of texts of one form. A
  transaction is isolated; reads that bypass it see the committed tables, which the guard of the
  odometer does. \<open>int\<close> counters are unbounded where the code cannot bring them near 2^63. Subscribers
  may do anything, but do not subscribe or unsubscribe while they run. HMAC and JSON decoding are
  arguments. Logging is left out. Rows that carry JSON hold the value that was marshalled. A query without an
  order that returns one row returns the first that was inserted. Versions of rows are 64-bit words; runs are of
  less than 2^63 calls, so that they do not wrap around.

  \<^bold>\<open>Places where the code does not do what it means to\<close> are lemmas of their theories:
  \<open>SettleRuns.callbacks_race\<close>, \<open>SettleRuns.settlement_status_blocked\<close>, \<open>Gt06.gt06_serial_is_crc\<close>,
  \<open>TcpIngest.gt06_unidentified_acked\<close>, \<open>TcpIngest.coalesced_login\<close>, \<open>AsyncQueue.late_push_lost\<close>,
  \<open>AsyncQueue.cancelled_uncounted\<close>, \<open>IngestProps.live_moves_back\<close>, \<open>MeterProps.commit_twice\<close>,
  \<open>Ais140.ais140_unchecked\<close>, \<open>TripLife.reach_stop_reopens\<close>, \<open>TripLife.failed_delivery_closes\<close>,
  \<open>Leader.leader_overlap\<close>, \<open>IngestProps.hardware_not_quarantined\<close>, \<open>Outbox.dead_letter_retried\<close>,
  \<open>Geofencing.polygon_exit_never\<close>, \<open>Dwell.switch_drops_exit\<close>, \<open>StoProps.award_no_trip\<close>,
  \<open>StoProps.foreign_bid_never_wins\<close>, \<open>DeviationProps.alert_lost\<close>, \<open>TripUseProps.half_created\<close>,
  \<open>TripUseProps.booking_twice\<close>, \<open>TripUseProps.override_on_leave\<close>, \<open>MeterProps.reserve_twice\<close>,
  \<open>MeterProps.release_any\<close>, \<open>MeterProps.unknown_event_hides\<close>, \<open>MeterProps.dunning_early\<close>.

  \<^bold>\<open>Not modelled.\<close> Wiring and processes (\<open>cmd\<close>), generated queries (\<open>db/generated\<close>), HTTP handlers and
  middleware, clients of external services, rendering and storage of documents, language-model
  agents, and reports, which are input and output or sums for display; searches for lists and read models;
  the use cases and repositories of the other aggregates, which follow the pattern of those of trips; the alerts
  pipeline, fuel analytics, the worker that feeds the dwell engine and the safety engine.
\<close>

end
